(* ===== verification/Rust_Text.thy ===== *)
theory Rust_Text imports Main "HOL-Library.Sublist" "HOL-Library.Char_ord" "HOL-Library.List_Lexorder" begin

text \<open>
  The part of Rust's \<^verbatim>\<open>str\<close> and \<^verbatim>\<open>char\<close> that the modelled crates use, as functions on
  \<^typ>\<open>string\<close>. A \<^typ>\<open>char\<close> stands for one Rust \<^verbatim>\<open>char\<close> with code point
  below 256, so a \<^typ>\<open>string\<close> is a text over U+0000 to U+00FF; \<open>is_ws\<close> and
  \<open>lower_char\<close> are the Unicode White\_Space property and lower-case mapping
  restricted to that range. Texts with other code points are outside the model. Byte
  lengths (\<^verbatim>\<open>str::len\<close>) are \<open>utf8_len\<close>. Everything is executable.
\<close>

section \<open>Characters\<close>

definition code :: "char \<Rightarrow> nat" where
  "code c = of_char c"

definition is_ws :: "char \<Rightarrow> bool" where
  "is_ws c \<longleftrightarrow> (9 \<le> code c \<and> code c \<le> 13) \<or> code c = 32 \<or> code c = 133 \<or> code c = 160"

definition is_ascii_digit :: "char \<Rightarrow> bool" where
  "is_ascii_digit c \<longleftrightarrow> 48 \<le> code c \<and> code c \<le> 57"

definition is_ascii_upper :: "char \<Rightarrow> bool" where
  "is_ascii_upper c \<longleftrightarrow> 65 \<le> code c \<and> code c \<le> 90"

definition is_ascii_lower :: "char \<Rightarrow> bool" where
  "is_ascii_lower c \<longleftrightarrow> 97 \<le> code c \<and> code c \<le> 122"

definition is_ascii_alpha :: "char \<Rightarrow> bool" where
  "is_ascii_alpha c \<longleftrightarrow> is_ascii_upper c \<or> is_ascii_lower c"

definition is_ascii_alnum :: "char \<Rightarrow> bool" where
  "is_ascii_alnum c \<longleftrightarrow> is_ascii_alpha c \<or> is_ascii_digit c"

definition is_ascii_hexdigit :: "char \<Rightarrow> bool" where
  "is_ascii_hexdigit c \<longleftrightarrow> is_ascii_digit c \<or> (65 \<le> code c \<and> code c \<le> 70)
     \<or> (97 \<le> code c \<and> code c \<le> 102)"

text \<open>\<^verbatim>\<open>char::is_alphanumeric\<close> on U+0000 to U+00FF: ASCII letters and digits, the
  feminine and masculine ordinals, the micro sign, the superscript and fraction
  numerals, and the Latin-1 letters.\<close>

definition is_alphanumeric :: "char \<Rightarrow> bool" where
  "is_alphanumeric c \<longleftrightarrow> is_ascii_alnum c
     \<or> code c \<in> {170, 178, 179, 181, 185, 186, 188, 189, 190}
     \<or> (192 \<le> code c \<and> code c \<noteq> 215 \<and> code c \<noteq> 247)"

definition ascii_lower_char :: "char \<Rightarrow> char" where
  "ascii_lower_char c = (if is_ascii_upper c then char_of (code c + 32) else c)"

definition lower_char :: "char \<Rightarrow> char" where
  "lower_char c =
     (if is_ascii_upper c \<or> (192 \<le> code c \<and> code c \<le> 222 \<and> code c \<noteq> 215)
      then char_of (code c + 32) else c)"

definition to_ascii_lowercase :: "string \<Rightarrow> string" where
  "to_ascii_lowercase s = map ascii_lower_char s"

definition to_lowercase :: "string \<Rightarrow> string" where
  "to_lowercase s = map lower_char s"

definition utf8_len :: "string \<Rightarrow> nat" where
  "utf8_len s = sum_list (map (\<lambda>c. if code c < 128 then 1 else 2) s)"

lemma length_to_lowercase [simp]: "length (to_lowercase s) = length s"
  by (simp add: to_lowercase_def)

lemma to_lowercase_append: "to_lowercase (s @ t) = to_lowercase s @ to_lowercase t"
  by (simp add: to_lowercase_def)

lemma to_lowercase_Nil [simp]: "to_lowercase [] = [] "
  by (simp add: to_lowercase_def)

lemma to_lowercase_Cons [simp]: "to_lowercase (c # s) = lower_char c # to_lowercase s"
  by (simp add: to_lowercase_def)

section \<open>Prefixes, suffixes and substrings\<close>

definition starts_with :: "string \<Rightarrow> string \<Rightarrow> bool" where
  "starts_with s p \<longleftrightarrow> take (length p) s = p"

definition ends_with :: "string \<Rightarrow> string \<Rightarrow> bool" where
  "ends_with s p \<longleftrightarrow> length p \<le> length s \<and> drop (length s - length p) s = p"

definition strip_prefix :: "string \<Rightarrow> string \<Rightarrow> string option" where
  "strip_prefix s p = (if starts_with s p then Some (drop (length p) s) else None)"

definition strip_suffix :: "string \<Rightarrow> string \<Rightarrow> string option" where
  "strip_suffix s p =
     (if ends_with s p then Some (take (length s - length p) s) else None)"

text \<open>\<^verbatim>\<open>str::find\<close> with a string pattern: the index of the first occurrence.\<close>

fun find_sub :: "string \<Rightarrow> string \<Rightarrow> nat option" where
  "find_sub p [] = (if p = [] then Some 0 else None)"
| "find_sub p (c # s) =
     (if starts_with (c # s) p then Some 0 else map_option Suc (find_sub p s))"

definition contains_sub :: "string \<Rightarrow> string \<Rightarrow> bool" where
  "contains_sub s p \<longleftrightarrow> find_sub p s \<noteq> None"

lemma starts_with_iff: "starts_with s p \<longleftrightarrow> (\<exists>r. s = p @ r)"
proof
  assume "starts_with s p"
  then have "s = p @ drop (length p) s"
    by (metis append_take_drop_id starts_with_def)
  then show "\<exists>r. s = p @ r" ..
qed (auto simp: starts_with_def)

lemma starts_with_prefix: "starts_with s p \<longleftrightarrow> prefix p s"
  by (auto simp: starts_with_iff prefix_def)

lemma starts_with_refl [simp]: "starts_with s s"
  by (simp add: starts_with_def)

lemma starts_with_Nil [simp]: "starts_with s []"
  by (simp add: starts_with_def)

lemma starts_with_append [simp]: "starts_with (p @ r) p"
  by (simp add: starts_with_def)

lemma starts_with_appendI: "starts_with s p \<Longrightarrow> starts_with (s @ t) p"
  by (auto simp: starts_with_iff)

lemma starts_with_trans: "starts_with s p \<Longrightarrow> starts_with p q \<Longrightarrow> starts_with s q"
  by (auto simp: starts_with_iff)

lemma starts_with_linear: "starts_with s p \<Longrightarrow> starts_with s q \<Longrightarrow> starts_with p q \<or> starts_with q p"
  by (metis prefix_same_cases starts_with_prefix)

lemma ends_with_iff: "ends_with s p \<longleftrightarrow> (\<exists>r. s = r @ p)"
proof
  assume "ends_with s p"
  then have "s = take (length s - length p) s @ p"
    by (metis append_take_drop_id ends_with_def)
  then show "\<exists>r. s = r @ p" ..
qed (auto simp: ends_with_def)

lemma strip_prefix_Some: "strip_prefix s p = Some r \<longleftrightarrow> s = p @ r"
  by (auto simp: strip_prefix_def starts_with_iff)

lemma strip_prefix_None: "strip_prefix s p = None \<longleftrightarrow> \<not> starts_with s p"
  by (simp add: strip_prefix_def)

lemma strip_suffix_Some: "strip_suffix s p = Some r \<longleftrightarrow> s = r @ p"
  by (auto simp: strip_suffix_def ends_with_iff)

lemma strip_suffix_None: "strip_suffix s p = None \<longleftrightarrow> \<not> ends_with s p"
  by (simp add: strip_suffix_def)

lemma find_sub_Some:
  "find_sub p s = Some i \<Longrightarrow> s = take i s @ p @ drop (i + length p) s"
proof (induction s arbitrary: i)
  case Nil
  then show ?case by (auto split: if_splits)
next
  case (Cons c s)
  show ?case
  proof (cases "starts_with (c # s) p")
    case True
    with Cons.prems have "i = 0" by simp
    with True show ?thesis
      by (metis Nil_is_append_conv append_Nil append_eq_conv_conj plus_nat.add_0 starts_with_iff take0)
  next
    case False
    with Cons.prems obtain j where j: "find_sub p s = Some j" "i = Suc j" by auto
    from Cons.IH [OF j(1)] j(2) show ?thesis by simp
  qed
qed

lemma find_sub_bound: "find_sub p s = Some i \<Longrightarrow> i + length p \<le> length s"
proof (induction s arbitrary: i)
  case Nil
  then show ?case by (auto split: if_splits)
next
  case (Cons c s)
  show ?case
  proof (cases "starts_with (c # s) p")
    case True
    then obtain r where "c # s = p @ r" by (auto simp: starts_with_iff)
    then have "length (c # s) = length p + length r" by (metis length_append)
    moreover from True Cons.prems have "i = 0" by simp
    ultimately show ?thesis by simp
  next
    case False
    with Cons.prems obtain j where "find_sub p s = Some j" "i = Suc j" by auto
    with Cons.IH [of j] show ?thesis by simp
  qed
qed

lemma find_sub_starts: "starts_with s p \<Longrightarrow> find_sub p s = Some 0"
  by (cases s) (auto simp: starts_with_def)

text \<open>The first occurrence is never later than any given one.\<close>

lemma find_sub_le: "s = x @ p @ y \<Longrightarrow> \<exists>i. find_sub p s = Some i \<and> i \<le> length x"
proof (induction x arbitrary: s)
  case Nil
  then show ?case by (simp add: find_sub_starts)
next
  case (Cons c x)
  then obtain i where "find_sub p (x @ p @ y) = Some i" "i \<le> length x" by blast
  with Cons.prems show ?case by (cases "starts_with s p") auto
qed

lemma contains_sub_iff: "contains_sub s p \<longleftrightarrow> (\<exists>x y. s = x @ p @ y)"
proof
  assume "contains_sub s p"
  then obtain i where "find_sub p s = Some i" by (auto simp: contains_sub_def)
  from find_sub_Some [OF this] show "\<exists>x y. s = x @ p @ y" by blast
next
  assume "\<exists>x y. s = x @ p @ y"
  then show "contains_sub s p" using find_sub_le by (fastforce simp: contains_sub_def)
qed

lemma contains_sub_Nil [simp]: "contains_sub s []"
  by (auto simp: contains_sub_iff)

section \<open>Trimming\<close>

definition trim_start :: "string \<Rightarrow> string" where
  "trim_start s = dropWhile is_ws s"

definition trim_end :: "string \<Rightarrow> string" where
  "trim_end s = rev (dropWhile is_ws (rev s))"

definition trim :: "string \<Rightarrow> string" where
  "trim s = trim_end (trim_start s)"

definition trim_start_matches :: "(char \<Rightarrow> bool) \<Rightarrow> string \<Rightarrow> string" where
  "trim_start_matches P s = dropWhile P s"

definition trim_end_matches :: "(char \<Rightarrow> bool) \<Rightarrow> string \<Rightarrow> string" where
  "trim_end_matches P s = rev (dropWhile P (rev s))"

definition trim_matches :: "(char \<Rightarrow> bool) \<Rightarrow> string \<Rightarrow> string" where
  "trim_matches P s = trim_end_matches P (trim_start_matches P s)"

lemma length_trim_start: "length (trim_start s) \<le> length s"
  by (simp add: trim_start_def length_dropWhile_le)

lemma length_trim_end: "length (trim_end s) \<le> length s"
  using length_dropWhile_le [of is_ws "rev s"] by (simp add: trim_end_def)

lemma length_trim: "length (trim s) \<le> length s"
  using length_trim_end [of "trim_start s"] length_trim_start [of s] by (simp add: trim_def)

lemma dropWhile_rev_idem: "dropWhile P xs = xs \<Longrightarrow>
    dropWhile P (rev (dropWhile P (rev xs))) = rev (dropWhile P (rev xs))"
proof (cases "rev (dropWhile P (rev xs))")
  case (Cons y ys)
  assume *: "dropWhile P xs = xs"
  obtain zs where "xs = rev (dropWhile P (rev xs)) @ zs"
    by (metis rev_append rev_rev_ident takeWhile_dropWhile_id)
  with Cons have "xs = y # ys @ zs" by simp
  with * have "\<not> P y" by (metis dropWhile_eq_Cons_conv)
  with Cons show ?thesis by simp
qed (metis dropWhile.simps(1))

lemma trim_end_idem [simp]: "trim_end (trim_end s) = trim_end s"
  by (simp add: trim_end_def)

lemma trim_start_trim [simp]: "trim_start (trim s) = trim s"
  by (simp add: trim_def trim_start_def trim_end_def dropWhile_rev_idem)

lemma trim_idem [simp]: "trim (trim s) = trim s"
proof -
  have "trim (trim s) = trim_end (trim s)" by (metis trim_def trim_start_trim)
  then show ?thesis by (simp add: trim_def)
qed

lemma trim_Nil [simp]: "trim [] = []"
  by (simp add: trim_def trim_start_def trim_end_def)

lemma set_trim_subset: "set (trim s) \<subseteq> set s"
  by (metis (no_types, opaque_lifting) set_dropWhileD set_rev subsetI trim_def trim_end_def trim_start_def)

section \<open>Splitting and joining\<close>

text \<open>\<^verbatim>\<open>str::split\<close> with a predicate on characters: always at least one piece.\<close>

fun split_by :: "(char \<Rightarrow> bool) \<Rightarrow> string \<Rightarrow> string list" where
  "split_by P [] = [[]]"
| "split_by P (c # s) =
     (if P c then [] # split_by P s
      else (case split_by P s of [] \<Rightarrow> [[c]] | p # ps \<Rightarrow> (c # p) # ps))"

definition split_on :: "char \<Rightarrow> string \<Rightarrow> string list" where
  "split_on d s = split_by (\<lambda>c. c = d) s"

definition split_whitespace :: "string \<Rightarrow> string list" where
  "split_whitespace s = filter (\<lambda>p. p \<noteq> []) (split_by is_ws s)"

definition first_word :: "string \<Rightarrow> string" where
  \<comment> \<open>\<^verbatim>\<open>split_whitespace().next().unwrap_or("")\<close>\<close>
  "first_word s = (case split_whitespace s of [] \<Rightarrow> [] | w # _ \<Rightarrow> w)"

fun join_with :: "string \<Rightarrow> string list \<Rightarrow> string" where
  "join_with sep [] = []"
| "join_with sep [p] = p"
| "join_with sep (p # q # ps) = p @ sep @ join_with sep (q # ps)"

text \<open>\<^verbatim>\<open>str::split_once\<close> and \<^verbatim>\<open>str::rsplit_once\<close> on a character.\<close>

fun split_once :: "char \<Rightarrow> string \<Rightarrow> (string \<times> string) option" where
  "split_once d [] = None"
| "split_once d (c # s) =
     (if c = d then Some ([], s)
      else map_option (\<lambda>(a, b). (c # a, b)) (split_once d s))"

definition rsplit_once :: "char \<Rightarrow> string \<Rightarrow> (string \<times> string) option" where
  "rsplit_once d s = map_option (\<lambda>(a, b). (rev b, rev a)) (split_once d (rev s))"

definition replace_char :: "char \<Rightarrow> char \<Rightarrow> string \<Rightarrow> string" where
  "replace_char a b s = map (\<lambda>c. if c = a then b else c) s"

lemma split_by_not_Nil [simp]: "split_by P s \<noteq> []"
  by (induction s) (auto split: list.splits)

lemma split_on_not_Nil [simp]: "split_on d s \<noteq> []"
  by (simp add: split_on_def)

lemma split_by_pieces: "p \<in> set (split_by P s) \<Longrightarrow> c \<in> set p \<Longrightarrow> \<not> P c \<and> c \<in> set s"
proof (induction s arbitrary: p)
  case (Cons d s)
  then show ?case by (cases "split_by P s") (fastforce split: if_splits)+
qed simp

lemma split_by_none: "\<forall>c \<in> set s. \<not> P c \<Longrightarrow> split_by P s = [s]"
  by (induction s) auto

lemma split_by_append: "P d \<Longrightarrow> split_by P (s @ d # t) = split_by P s @ split_by P t"
  by (induction s) (auto split: list.splits simp: Cons_eq_append_conv)

lemma split_by_length: "sum_list (map length (split_by P s)) + length (split_by P s) = Suc (length s)"
  by (induction s) (auto split: list.splits)

lemma join_split_on [simp]: "join_with [d] (split_on d s) = s"
  unfolding split_on_def
proof (induction s)
  case (Cons c s)
  obtain p ps where *: "split_by (\<lambda>c. c = d) s = p # ps" by (cases "split_by (\<lambda>c. c = d) s") auto
  with Cons show ?case by (cases ps) auto
qed simp

lemma split_on_join:
  "ps \<noteq> [] \<Longrightarrow> \<forall>p \<in> set ps. d \<notin> set p \<Longrightarrow> split_on d (join_with [d] ps) = ps"
proof (induction "[d]" ps rule: join_with.induct)
  case (2 p)
  then show ?case by (auto simp: split_on_def intro: split_by_none)
next
  case (3 p q ps)
  then show ?case
    using split_by_append [of "\<lambda>c. c = d" d p] split_by_none [of p "\<lambda>c. c = d"]
    by (auto simp: split_on_def)
qed simp

lemma split_by_single: "length (split_by P s) = 1 \<longleftrightarrow> (\<forall>c \<in> set s. \<not> P c)"
  by (induction s) (auto split: list.splits)

lemma split_whitespace_word:
  "w \<in> set (split_whitespace s) \<Longrightarrow> w \<noteq> [] \<and> (\<forall>c \<in> set w. \<not> is_ws c)"
  using split_by_pieces by (fastforce simp: split_whitespace_def)

lemma first_word_no_ws: "c \<in> set (first_word s) \<Longrightarrow> \<not> is_ws c"
  using split_whitespace_word [of _ s]
  by (cases "split_whitespace s") (auto simp: first_word_def)

lemma split_once_Some: "split_once d s = Some (a, b) \<Longrightarrow> s = a @ d # b \<and> d \<notin> set a"
  by (induction s arbitrary: a b) (auto split: if_splits)

lemma length_replace_char [simp]: "length (replace_char a b s) = length s"
  by (simp add: replace_char_def)

lemma replace_char_absent: "a \<notin> set s \<Longrightarrow> replace_char a b s = s"
  by (induction s) (auto simp: replace_char_def)

lemma not_in_replace_char: "a \<noteq> b \<Longrightarrow> a \<notin> set (replace_char a b s)"
  by (auto simp: replace_char_def)

lemma replace_char_idem [simp]: "a \<noteq> b \<Longrightarrow> replace_char a b (replace_char a b s) = replace_char a b s"
  by (rule replace_char_absent) (rule not_in_replace_char)

section \<open>Rendering in messages\<close>

text \<open>The interpolation \<^verbatim>\<open>'{s}'\<close> of a format string.\<close>

definition quoted :: "string \<Rightarrow> string" where
  "quoted s = CHR 0x27 # s @ [CHR 0x27]"


text \<open>\<^verbatim>\<open>Display\<close> of an unsigned integer.\<close>

fun show_nat :: "nat \<Rightarrow> string" where
  "show_nat n = (if n < 10 then [char_of (48 + n)] else show_nat (n div 10) @ [char_of (48 + n mod 10)])"

declare show_nat.simps [simp del]

lemma show_nat_value: "foldl (\<lambda>a c. 10 * a + (code c - 48)) 0 (show_nat n) = n"
proof (induction n rule: show_nat.induct)
  case (1 n)
  then show ?case by (subst show_nat.simps) (simp add: code_def)
qed

lemma show_nat_inject [simp]: "show_nat m = show_nat n \<longleftrightarrow> m = n"
  by (metis show_nat_value)

text \<open>The UTF-8 bytes of the em dash in the program's messages.\<close>

text \<open>\<^verbatim>\<open>str::lines\<close>: the pieces between newlines, without a last empty one and without a carriage
  return at the end of a piece.\<close>

definition strip_cr :: "string \<Rightarrow> string" where
  "strip_cr line = (case strip_suffix line [CHR 0x0D] of Some l \<Rightarrow> l | None \<Rightarrow> line)"

definition str_lines :: "string \<Rightarrow> string list" where
  "str_lines s =
     (let pieces = split_on CHR 0x0A s
      in map strip_cr (if last pieces = [] then butlast pieces else pieces))"

definition em_dash :: string where
  "em_dash = [CHR 0xE2, CHR 0x80, CHR 0x94]"

end
