(* ===== verification/Rust_Base.thy ===== *)
theory Rust_Base imports Rust_Text "HOL-Library.Word" begin

text \<open>
  The development's prelude beside \<open>Rust_Text\<close>: fixed-width unsigned integers with
  Rust's saturating operations, ordered collections (\<^verbatim>\<open>BTreeSet\<close> as the sorted list of
  its elements), and the collections of facts the component proofs share:
  \<open>verdict_simps\<close> (unfolding of the small decision functions), \<open>live_frame\<close>
  (fields an operation leaves alone) and \<open>option_dests\<close>.
\<close>

named_theorems verdict_simps "unfolding of the decision functions"
named_theorems live_frame "fields left unchanged by the operations of a session"

section \<open>Unsigned 32-bit integers\<close>

type_synonym u32 = "32 word"

definition u32_saturating_add :: "u32 \<Rightarrow> u32 \<Rightarrow> u32" where
  "u32_saturating_add a b = (if unat a + unat b < 2 ^ 32 then a + b else - 1)"

definition u32_saturating_sub :: "u32 \<Rightarrow> u32 \<Rightarrow> u32" where
  "u32_saturating_sub a b = (if b \<le> a then a - b else 0)"

text \<open>\<^verbatim>\<open>u32::try_from(n: usize)\<close>: \<^const>\<open>None\<close> when the value does not fit.\<close>

definition u32_try_from :: "nat \<Rightarrow> u32 option" where
  "u32_try_from n = (if n < 2 ^ 32 then Some (of_nat n) else None)"

definition u32_max :: u32 where
  "u32_max = - 1"

lemma unat_minus_one_u32: "unat (- 1 :: u32) = 2 ^ 32 - 1"
  by (simp add: unsigned_minus_1_eq_mask mask_eq_exp_minus_1)

lemma unat_u32_lt: "unat (x :: u32) < 2 ^ 32"
  using unsigned_less [of x] by simp

lemma unat_u32_saturating_add:
  "unat (u32_saturating_add a b) = min (unat a + unat b) (2 ^ 32 - 1)"
  by (simp add: u32_saturating_add_def unat_minus_one_u32 unat_word_ariths min_def)

lemma unat_u32_saturating_sub: "unat (u32_saturating_sub a b) = unat a - unat b"
  by (simp add: u32_saturating_sub_def unat_sub word_le_nat_alt)

lemma unat_u32_try_from: "u32_try_from n = Some w \<Longrightarrow> unat w = n"
  by (auto simp: u32_try_from_def unat_of_nat split: if_splits)

section \<open>Ordered collections\<close>

text \<open>Collecting an iterator into a \<^verbatim>\<open>BTreeSet\<close> and back into a \<^verbatim>\<open>Vec\<close>, or
  \<^verbatim>\<open>sort\<close> followed by \<^verbatim>\<open>dedup\<close>.\<close>

definition btree_list :: "'a::linorder list \<Rightarrow> 'a list" where
  "btree_list xs = sort (remdups xs)"

lemma set_btree_list [simp]: "set (btree_list xs) = set xs"
  by (simp add: btree_list_def)

lemma distinct_btree_list [simp]: "distinct (btree_list xs)"
  by (simp add: btree_list_def)

lemma sorted_btree_list [simp]: "sorted (btree_list xs)"
  by (simp add: btree_list_def)

lemma btree_list_eq_iff: "btree_list xs = btree_list ys \<longleftrightarrow> set xs = set ys"
  by (metis distinct_btree_list set_btree_list sorted_btree_list sorted_distinct_set_unique)

lemma btree_list_Nil_iff [simp]: "btree_list xs = [] \<longleftrightarrow> xs = []"
  by (metis btree_list_eq_iff set_empty set_btree_list)

lemma btree_list_idem [simp]: "btree_list (btree_list xs) = btree_list xs"
  by (simp add: btree_list_eq_iff)

section \<open>Lists and options\<close>

text \<open>\<^verbatim>\<open>find\<close> in the list library is \<^verbatim>\<open>Iterator::find\<close>; here are the facts used
  about it.\<close>

lemma find_Some_iff_set: "find P xs = Some x \<Longrightarrow> x \<in> set xs \<and> P x"
  by (auto simp: find_Some_iff)

lemma find_None_iff_set: "find P xs = None \<longleftrightarrow> (\<forall>x \<in> set xs. \<not> P x)"
  by (auto simp: find_None_iff)

lemma find_exists: "x \<in> set xs \<Longrightarrow> P x \<Longrightarrow> \<exists>y. find P xs = Some y"
  by (metis find_None_iff_set not_None_eq)

end
