(* ===== verification/Perm_Mode.thy ===== *)
theory Perm_Mode imports Rust_Base begin

text \<open>
  \<^verbatim>\<open>crates/archon-permissions/src/mode.rs\<close>: the permission modes, their rotation and
  their textual form, and the decision type the checker returns. A Rust \<^verbatim>\<open>Result\<close> with a
  message is \<open>string + 'a\<close>.
\<close>

datatype permission_mode =
    Default
  | AcceptEdits
  | Plan
  | Auto
  | DontAsk
  | Bubble
  | BypassPermissions

datatype permission_decision =
    Allow
  | NeedsPermission string
  | Deny string

definition next_mode :: "permission_mode \<Rightarrow> bool \<Rightarrow> permission_mode" where
  "next_mode m allow_bypass =
     (case m of
        Default \<Rightarrow> AcceptEdits
      | AcceptEdits \<Rightarrow> Plan
      | Plan \<Rightarrow> Auto
      | Auto \<Rightarrow> DontAsk
      | DontAsk \<Rightarrow> Bubble
      | Bubble \<Rightarrow> (if allow_bypass then BypassPermissions else Default)
      | BypassPermissions \<Rightarrow> Default)"

definition mode_as_str :: "permission_mode \<Rightarrow> string" where
  "mode_as_str m =
     (case m of
        Default \<Rightarrow> ''default''
      | AcceptEdits \<Rightarrow> ''acceptEdits''
      | Plan \<Rightarrow> ''plan''
      | Auto \<Rightarrow> ''auto''
      | DontAsk \<Rightarrow> ''dontAsk''
      | Bubble \<Rightarrow> ''bubble''
      | BypassPermissions \<Rightarrow> ''bypassPermissions'')"

definition mode_from_str :: "string \<Rightarrow> string + permission_mode" where
  "mode_from_str s =
     (if s = ''default'' then Inr Default
      else if s = ''acceptEdits'' then Inr AcceptEdits
      else if s = ''plan'' then Inr Plan
      else if s = ''auto'' then Inr Auto
      else if s = ''dontAsk'' then Inr DontAsk
      else if s = ''bubble'' then Inr Bubble
      else if s = ''bypassPermissions'' then Inr BypassPermissions
      else if s = ''ask'' then Inr Default
      else if s = ''yolo'' then Inr BypassPermissions
      else Inl (''unknown permission mode '' @ quoted s @ ''; valid modes: ''
        @ ''default, acceptEdits, plan, auto, dontAsk, bubble, bypassPermissions ''
        @ ''(aliases: ask, yolo)''))"

text \<open>How the agent reads its configured mode: an unknown name falls back to the default
  (\<^verbatim>\<open>parse().unwrap_or_default()\<close> in
  \<^verbatim>\<open>crates/archon-core/src/agent/permission_gate.rs\<close>).\<close>

definition parse_mode_or_default :: "string \<Rightarrow> permission_mode" where
  "parse_mode_or_default raw = (case mode_from_str raw of Inl _ \<Rightarrow> Default | Inr m \<Rightarrow> m)"

definition is_deny :: "permission_decision \<Rightarrow> bool" where
  "is_deny d = (case d of Deny _ \<Rightarrow> True | _ \<Rightarrow> False)"

lemma is_deny_simps [simp]:
  "is_deny (Deny r)" "\<not> is_deny Allow" "\<not> is_deny (NeedsPermission r)"
  by (simp_all add: is_deny_def)

lemma mode_roundtrip: "mode_from_str (mode_as_str m) = Inr m"
  by (cases m) (simp_all add: mode_from_str_def mode_as_str_def)

lemma mode_from_str_Inr:
  "mode_from_str s = Inr m \<Longrightarrow>
     s = mode_as_str m \<or> (s = ''ask'' \<and> m = Default) \<or> (s = ''yolo'' \<and> m = BypassPermissions)"
  unfolding mode_from_str_def by (simp add: mode_as_str_def split: if_splits)

end
