(* ===== verification/Rust_Path.thy ===== *)
theory Rust_Path imports Rust_Base begin

text \<open>
  The part of \<^verbatim>\<open>std::path\<close> the modelled code uses, on a Unix target: a path is a
  \<^typ>\<open>string\<close>, read as its list of components (\<^verbatim>\<open>Path::components\<close>). Repeated
  separators and interior \<^verbatim>\<open>.\<close> segments vanish, a leading \<^verbatim>\<open>.\<close> of a relative path is
  \<open>CurDir\<close>, and \<^verbatim>\<open>..\<close> is kept as \<open>ParentDir\<close>: \<^verbatim>\<open>components\<close> does not resolve it.
\<close>

datatype component =
    RootDir
  | CurDir
  | ParentDir
  | Normal string

definition body_component :: "string \<Rightarrow> component list" where
  "body_component p =
     (if p = [] \<or> p = ''.'' then []
      else if p = ''..'' then [ParentDir]
      else [Normal p])"

definition has_root :: "string \<Rightarrow> bool" where
  "has_root s \<longleftrightarrow> starts_with s ''/''"

definition components :: "string \<Rightarrow> component list" where
  "components s =
     (let pieces = split_on CHR ''/'' s
      in if has_root s then RootDir # concat (map body_component pieces)
         else if hd pieces = ''.'' then CurDir # concat (map body_component (tl pieces))
         else concat (map body_component pieces))"

definition comp_text :: "component \<Rightarrow> string" where
  "comp_text c =
     (case c of RootDir \<Rightarrow> ''/'' | CurDir \<Rightarrow> ''.'' | ParentDir \<Rightarrow> ''..'' | Normal n \<Rightarrow> n)"

text \<open>The text of a path built by \<^verbatim>\<open>push\<close>ing components.\<close>

definition render :: "component list \<Rightarrow> string" where
  "render cs =
     (case cs of
        RootDir # rest \<Rightarrow> CHR ''/'' # join_with ''/'' (map comp_text rest)
      | _ \<Rightarrow> join_with ''/'' (map comp_text cs))"

text \<open>\<^verbatim>\<open>Path::starts_with\<close> and \<^verbatim>\<open>Path::strip_prefix\<close>: on whole components.\<close>

definition comps_strip_prefix :: "component list \<Rightarrow> component list \<Rightarrow> component list option" where
  "comps_strip_prefix p base =
     (if take (length base) p = base then Some (drop (length base) p) else None)"

definition path_starts_with :: "string \<Rightarrow> string \<Rightarrow> bool" where
  "path_starts_with p base \<longleftrightarrow> comps_strip_prefix (components p) (components base) \<noteq> None"

text \<open>\<^verbatim>\<open>Path::join\<close>: an absolute right operand replaces the left one.\<close>

definition comps_join :: "component list \<Rightarrow> component list \<Rightarrow> component list" where
  "comps_join a b = (case b of RootDir # _ \<Rightarrow> b | _ \<Rightarrow> a @ b)"

text \<open>\<^verbatim>\<open>PathBuf::pop\<close>: the root stays.\<close>

definition comps_pop :: "component list \<Rightarrow> component list" where
  "comps_pop cs = (if cs = [] \<or> last cs = RootDir then cs else butlast cs)"

fun is_normal :: "component \<Rightarrow> bool" where
  "is_normal (Normal _) = True"
| "is_normal _ = False"

text \<open>A name a \<open>Normal\<close> component can carry.\<close>

definition good_name :: "string \<Rightarrow> bool" where
  "good_name n \<longleftrightarrow> n \<noteq> [] \<and> n \<noteq> ''.'' \<and> n \<noteq> ''..'' \<and> CHR ''/'' \<notin> set n"

lemma comps_strip_prefix_Some:
  "comps_strip_prefix p base = Some r \<longleftrightarrow> p = base @ r"
  by (auto simp: comps_strip_prefix_def) (metis append_take_drop_id)

lemma path_starts_with_iff:
  "path_starts_with p base \<longleftrightarrow> (\<exists>r. components p = components base @ r)"
  by (auto simp: path_starts_with_def comps_strip_prefix_Some)

lemma body_component_normal: "Normal n \<in> set (body_component p) \<Longrightarrow> n = p \<and> p \<noteq> [] \<and> p \<noteq> ''.'' \<and> p \<noteq> ''..''"
  by (auto simp: body_component_def split: if_splits)

lemma body_component_not_root: "RootDir \<notin> set (body_component p)" "CurDir \<notin> set (body_component p)"
  by (auto simp: body_component_def)

lemma components_good_names: "Normal n \<in> set (components s) \<Longrightarrow> good_name n"
proof -
  assume "Normal n \<in> set (components s)"
  then have "\<exists>p \<in> set (split_on CHR ''/'' s). Normal n \<in> set (body_component p)"
    by (auto simp: components_def Let_def split: if_splits dest: list.set_sel(2) [rotated])
  then obtain p where "p \<in> set (split_on CHR ''/'' s)" "Normal n \<in> set (body_component p)"
    by blast
  with body_component_normal [of n p] show ?thesis
    using split_by_pieces [of p "\<lambda>c. c = CHR ''/''" s]
    by (auto simp: good_name_def split_on_def)
qed

lemma RootDir_in_components: "RootDir \<in> set (components s) \<Longrightarrow> has_root s"
  using body_component_not_root by (auto simp: components_def Let_def split: if_splits)

lemma set_tl_subset: "set (tl xs) \<subseteq> set xs"
  by (cases xs) auto

lemma RootDir_not_in_body: "RootDir \<notin> set (concat (map body_component ps))"
  using body_component_not_root by auto

lemma RootDir_only_first: "RootDir \<notin> set (tl (components s))"
proof -
  have "RootDir \<notin> set (tl (concat (map body_component ps)))" for ps
    using RootDir_not_in_body [of ps] set_tl_subset [of "concat (map body_component ps)"] by blast
  then show ?thesis
    using RootDir_not_in_body by (simp add: components_def Let_def del: set_concat)
qed

lemma ParentDir_in_components: "ParentDir \<in> set (components s) \<Longrightarrow> ''..'' \<in> set (split_on CHR ''/'' s)"
  by (auto simp: components_def Let_def body_component_def split: if_splits dest: list.set_sel(2) [rotated])

text \<open>Rendering a relative path of good names and reading it back.\<close>

lemma concat_body_good: "\<forall>n \<in> set ns. good_name n \<Longrightarrow> concat (map body_component ns) = map Normal ns"
  by (induction ns) (auto simp: body_component_def good_name_def)

lemma join_good_no_root:
  "\<forall>n \<in> set ns. good_name n \<Longrightarrow> \<not> has_root (join_with ''/'' ns)"
proof (cases ns)
  case (Cons n ms)
  assume "\<forall>n \<in> set ns. good_name n"
  with Cons obtain c r where n: "n = c # r" "c \<noteq> CHR ''/''"
    by (cases n) (auto simp: good_name_def)
  then have "\<exists>t. join_with ''/'' ns = c # t" using Cons by (cases ms) auto
  with n show ?thesis by (auto simp: has_root_def starts_with_iff)
qed (simp add: has_root_def starts_with_def)

lemma components_join_good:
  assumes "\<forall>n \<in> set ns. good_name n"
  shows "components (join_with ''/'' ns) = map Normal ns"
proof (cases "ns = []")
  case True
  then show ?thesis by (simp add: components_def has_root_def split_on_def body_component_def starts_with_def)
next
  case False
  with assms have s: "split_on CHR ''/'' (join_with ''/'' ns) = ns"
    by (auto intro: split_on_join simp: good_name_def)
  from False assms have "hd ns \<noteq> ''.''" by (auto simp: good_name_def neq_Nil_conv)
  with assms s show ?thesis
    by (simp add: components_def Let_def join_good_no_root concat_body_good)
qed

end
