(* ===== verification/Perm_Rules.thy ===== *)
theory Perm_Rules imports Perm_Mode Rust_Path begin

text \<open>
  \<^verbatim>\<open>crates/archon-permissions/src/rules.rs\<close>: path rules for file writes and the
  fine-grained tool rules. The glob matcher of the \<^verbatim>\<open>glob\<close> crate is the parameter
  \<open>glob\<close>: \<^const>\<open>None\<close> for a pattern that does not compile, otherwise its matcher.
  The lemmas give the tier order of the rules and what a pattern compares.
\<close>

type_synonym glob_compiler = "string \<Rightarrow> (string \<Rightarrow> bool) option"

section \<open>Path rules\<close>

datatype path_decision = PathAllow | PathNeedsPermission | PathDeny

fun path_matches_any :: "glob_compiler \<Rightarrow> string \<Rightarrow> string list \<Rightarrow> bool" where
  "path_matches_any glob path [] = False"
| "path_matches_any glob path (p # ps) =
     (case glob p of
        Some m \<Rightarrow> if m path then True else path_matches_any glob path ps
      | None \<Rightarrow> path_matches_any glob path ps)"

definition check_write_path ::
    "glob_compiler \<Rightarrow> string \<Rightarrow> string \<Rightarrow> string list \<Rightarrow> string list \<Rightarrow> path_decision" where
  "check_write_path glob path project_dir allow_paths deny_paths =
     (if path_matches_any glob path deny_paths then PathDeny
      else if path_matches_any glob path allow_paths then PathAllow
      else if path_starts_with path project_dir then PathAllow
      else PathNeedsPermission)"

lemma path_matches_any_iff:
  "path_matches_any glob path ps \<longleftrightarrow> (\<exists>p \<in> set ps. \<exists>m. glob p = Some m \<and> m path)"
  by (induction ps) (auto split: option.splits)

section \<open>Tool rules\<close>

record tool_rule =
  rule_tool :: string
  rule_pattern :: string

record rule_set =
  always_allow :: "tool_rule list"
  always_deny :: "tool_rule list"
  always_ask :: "tool_rule list"

definition empty_rules :: rule_set where
  "empty_rules = \<lparr>always_allow = [], always_deny = [], always_ask = []\<rparr>"

text \<open>The loop over the pattern's segments; the second list is what is left of the
  input's segments at the same index.\<close>

fun segments_match :: "string list \<Rightarrow> string list \<Rightarrow> bool" where
  "segments_match [] ins = True"
| "segments_match (p # ps) ins =
     (if p = ''*'' then True
      else (case ins of
              [] \<Rightarrow> False
            | i # is \<Rightarrow> if first_word i \<noteq> p then False else segments_match ps is))"

definition pattern_matches :: "string \<Rightarrow> string \<Rightarrow> bool" where
  "pattern_matches pattern input =
     (if pattern = ''*'' then True
      else
        let pat_parts = split_on CHR '':'' pattern;
            input_parts = split_on CHR '':'' input
        in if length pat_parts = 2 \<and> pat_parts ! 1 = ''*'' \<and> length input_parts = 1
           then first_word input = pat_parts ! 0
           else segments_match pat_parts input_parts)"

definition rule_matches :: "tool_rule \<Rightarrow> string \<Rightarrow> string \<Rightarrow> bool" where
  "rule_matches r tool_name tool_args =
     (if rule_tool r \<noteq> tool_name then False else pattern_matches (rule_pattern r) tool_args)"

definition rule_text :: "tool_rule \<Rightarrow> string" where
  "rule_text r = ''tool='' @ rule_tool r @ '', pattern='' @ rule_pattern r"

definition evaluate_rules :: "rule_set \<Rightarrow> string \<Rightarrow> string \<Rightarrow> permission_decision option" where
  "evaluate_rules rs tool_name tool_args =
     (case find (\<lambda>r. rule_matches r tool_name tool_args) (always_deny rs) of
        Some r \<Rightarrow> Some (Deny (''Blocked by deny rule: '' @ rule_text r))
      | None \<Rightarrow>
          (case find (\<lambda>r. rule_matches r tool_name tool_args) (always_allow rs) of
             Some r \<Rightarrow> Some Allow
           | None \<Rightarrow>
               (case find (\<lambda>r. rule_matches r tool_name tool_args) (always_ask rs) of
                  Some r \<Rightarrow> Some (NeedsPermission (''Rule requires confirmation: '' @ rule_text r))
                | None \<Rightarrow> None)))"

definition some_match :: "tool_rule list \<Rightarrow> string \<Rightarrow> string \<Rightarrow> bool" where
  "some_match rs t a \<longleftrightarrow> (\<exists>r \<in> set rs. rule_matches r t a)"

section \<open>What a pattern compares\<close>

text \<open>Only the segments before the first \<^verbatim>\<open>*\<close> are compared.\<close>

lemma segments_match_iff:
  "segments_match ps ins \<longleftrightarrow>
     (let lits = takeWhile (\<lambda>p. p \<noteq> ''*'') ps
      in length lits \<le> length ins \<and> (\<forall>i < length lits. first_word (ins ! i) = lits ! i))"
proof (induction ps ins rule: segments_match.induct)
  case (2 p ps ins)
  show ?case
  proof (cases "p = ''*''")
    case False
    note * = False
    show ?thesis
    proof (cases ins)
      case (Cons i "is")
      with 2 * show ?thesis
        by (auto simp: Let_def nth_Cons' All_less_Suc2 split: if_splits)
    qed (use * in simp)
  qed simp
qed simp

lemma segments_match_after_wildcard:
  "segments_match (ps @ ''*'' # qs) ins = segments_match (ps @ [''*'']) ins"
  by (induction ps ins rule: segments_match.induct) (auto split: list.splits)

lemma pattern_star [simp]: "pattern_matches ''*'' input"
  by (simp add: pattern_matches_def)

section \<open>The tiers\<close>

lemma find_rule_None: "find (\<lambda>r. rule_matches r t a) rs = None \<longleftrightarrow> \<not> some_match rs t a"
  by (auto simp: some_match_def find_None_iff)

lemma evaluate_rules_tiers:
  "evaluate_rules rs t a =
     (if some_match (always_deny rs) t a then
        Some (Deny (''Blocked by deny rule: '' @ rule_text (the (find (\<lambda>r. rule_matches r t a) (always_deny rs)))))
      else if some_match (always_allow rs) t a then Some Allow
      else if some_match (always_ask rs) t a then
        Some (NeedsPermission (''Rule requires confirmation: '' @ rule_text (the (find (\<lambda>r. rule_matches r t a) (always_ask rs)))))
      else None)"
  by (auto simp: evaluate_rules_def find_rule_None [symmetric] split: option.splits)

lemma evaluate_rules_deny:
  "(\<exists>d. evaluate_rules rs t a = Some d \<and> is_deny d) \<longleftrightarrow> some_match (always_deny rs) t a"
  by (auto simp: evaluate_rules_tiers)

lemma evaluate_rules_empty [simp]: "evaluate_rules empty_rules t a = None"
  by (simp add: evaluate_rules_def empty_rules_def)

end
