(* ===== verification/Perm_Checker.thy ===== *)
theory Perm_Checker imports Perm_Rules begin

text \<open>
  \<^verbatim>\<open>crates/archon-permissions/src/checker.rs\<close>: the checker that gates a tool call, its
  three tool lists, and what a decision depends on. \<open>mode_decision\<close> is the \<^verbatim>\<open>match\<close> on the
  mode that \<^verbatim>\<open>check\<close> reaches when no rule applies. The locale \<open>decision_tiers\<close> states
  the contract between the rules and a mode's default; the checker interprets it.
\<close>

section \<open>The tool lists\<close>

definition PLAN_MODE_WHITELIST :: "string list" where
  "PLAN_MODE_WHITELIST =
     [''Read'', ''Glob'', ''Grep'', ''DocList'', ''DocGet'', ''DocStatus'', ''DocSearch'',
      ''DocAnswer'', ''DocProvenance'', ''DocInspect'', ''DocModelStatus'',
      ''AskUserQuestion'', ''EnterPlanMode'', ''ExitPlanMode'', ''ToolSearch'', ''Agent'']"

definition ACCEPT_EDITS_WHITELIST :: "string list" where
  "ACCEPT_EDITS_WHITELIST =
     [''Read'', ''Write'', ''Edit'', ''Glob'', ''Grep'', ''ToolSearch'', ''AskUserQuestion'',
      ''TodoWrite'', ''Sleep'', ''Config'', ''EnterPlanMode'', ''ExitPlanMode'', ''NotebookEdit'']"

definition DEFAULT_SAFE_TOOLS :: "string list" where
  "DEFAULT_SAFE_TOOLS =
     [''Read'', ''Glob'', ''Grep'', ''ToolSearch'', ''AskUserQuestion'', ''EnterPlanMode'',
      ''Agent'', ''memory_store'', ''memory_recall'', ''Sleep'', ''TodoWrite'', ''ExitPlanMode'',
      ''lsp'', ''CartographerScan'', ''CronList'', ''ListMcpResources'', ''GameTheoryStatus'',
      ''GameTheoryListAgents'', ''GameTheoryInspect'', ''DocList'', ''DocGet'', ''DocStatus'',
      ''DocSearch'', ''DocAnswer'', ''DocProvenance'', ''DocInspect'', ''DocModelStatus'',
      ''LeannSearch'', ''LeannFindSimilar'', ''TaskGet'', ''TaskList'', ''TaskOutput'',
      ''TaskCreate'', ''TaskUpdate'', ''TaskStop'', ''PushNotification'']"

definition is_default_safe_tool :: "string \<Rightarrow> bool" where
  "is_default_safe_tool name \<longleftrightarrow> name \<in> set DEFAULT_SAFE_TOOLS"

definition is_accept_edits_safe_tool :: "string \<Rightarrow> bool" where
  "is_accept_edits_safe_tool name \<longleftrightarrow> name \<in> set ACCEPT_EDITS_WHITELIST"

section \<open>The checker\<close>

record permission_checker =
  checker_mode :: permission_mode
  checker_rules :: rule_set

definition check_rule_decision ::
    "permission_checker \<Rightarrow> string \<Rightarrow> string \<Rightarrow> permission_decision option" where
  "check_rule_decision c tool_name tool_args =
     (case evaluate_rules (checker_rules c) tool_name tool_args of
        None \<Rightarrow> None
      | Some decision \<Rightarrow>
          if is_deny decision then Some decision
          else if checker_mode c = BypassPermissions then Some Allow
          else Some decision)"

definition wants_to :: "string \<Rightarrow> string \<Rightarrow> permission_decision" where
  "wants_to tool_name description =
     NeedsPermission (''Tool '' @ quoted tool_name @ '' wants to: '' @ description)"

definition mode_decision :: "permission_mode \<Rightarrow> string \<Rightarrow> string \<Rightarrow> permission_decision" where
  "mode_decision mode tool_name description =
     (case mode of
        BypassPermissions \<Rightarrow> Allow
      | DontAsk \<Rightarrow> Allow
      | Bubble \<Rightarrow>
          NeedsPermission (''Bubble sandbox: user confirmation required for '' @ tool_name)
      | Plan \<Rightarrow>
          if tool_name \<in> set PLAN_MODE_WHITELIST then Allow
          else Deny (''Plan mode: tool '' @ quoted tool_name @ '' is not allowed (read-only mode)'')
      | AcceptEdits \<Rightarrow>
          if tool_name \<in> set ACCEPT_EDITS_WHITELIST \<or> tool_name \<in> set DEFAULT_SAFE_TOOLS
          then Allow else wants_to tool_name description
      | Auto \<Rightarrow>
          if tool_name \<in> set DEFAULT_SAFE_TOOLS then Allow else wants_to tool_name description
      | Default \<Rightarrow>
          if tool_name \<in> set DEFAULT_SAFE_TOOLS then Allow else wants_to tool_name description)"

definition check ::
    "permission_checker \<Rightarrow> string \<Rightarrow> string \<Rightarrow> string \<Rightarrow> permission_decision" where
  "check c tool_name description tool_args =
     (case check_rule_decision c tool_name tool_args of
        Some decision \<Rightarrow> decision
      | None \<Rightarrow> mode_decision (checker_mode c) tool_name description)"

text \<open>\<^verbatim>\<open>Agent::permission_checker_decision\<close>: the mode comes as the text the session
  holds, and an unreadable one is the default mode.\<close>

definition permission_checker_decision ::
    "rule_set \<Rightarrow> string \<Rightarrow> string \<Rightarrow> string \<Rightarrow> string \<Rightarrow> permission_decision" where
  "permission_checker_decision rules raw_mode tool_name tool_args description =
     check \<lparr>checker_mode = parse_mode_or_default raw_mode, checker_rules = rules\<rparr>
       tool_name description tool_args"

section \<open>Deny, allow, ask, then the mode\<close>

text \<open>
  The contract of a decision procedure with overriding tiers: a denied call is denied,
  whatever else matches; an allowed call that is not denied is allowed; a call no tier
  speaks about gets the default.
\<close>

locale decision_tiers =
  fixes decide :: "'call \<Rightarrow> permission_decision"
    and denied allowed asked :: "'call \<Rightarrow> bool"
    and fallback :: "'call \<Rightarrow> permission_decision"
    and ask_passes :: bool
  assumes deny_wins: "denied x \<Longrightarrow> is_deny (decide x)"
    and allow_next: "\<not> denied x \<Longrightarrow> allowed x \<Longrightarrow> decide x = Allow"
    and ask_last: "\<not> denied x \<Longrightarrow> \<not> allowed x \<Longrightarrow> asked x \<Longrightarrow>
      (if ask_passes then decide x = Allow else \<exists>m. decide x = NeedsPermission m)"
    and otherwise: "\<not> denied x \<Longrightarrow> \<not> allowed x \<Longrightarrow> \<not> asked x \<Longrightarrow> decide x = fallback x"
begin

lemma decide_Allow_iff:
  "decide x = Allow \<longleftrightarrow>
     \<not> denied x \<and> (allowed x \<or> (if asked x then ask_passes else fallback x = Allow))"
  using deny_wins allow_next ask_last otherwise
  by (smt (verit) is_deny_simps(2) permission_decision.distinct(1))

lemma decide_Deny_iff:
  "is_deny (decide x) \<longleftrightarrow> denied x \<or> (\<not> allowed x \<and> \<not> asked x \<and> is_deny (fallback x))"
  using deny_wins allow_next ask_last otherwise by (metis is_deny_simps(2,3))

end

interpretation checker_tiers: decision_tiers
  "\<lambda>(t, d, a). check c t d a"
  "\<lambda>(t, d, a). some_match (always_deny (checker_rules c)) t a"
  "\<lambda>(t, d, a). some_match (always_allow (checker_rules c)) t a"
  "\<lambda>(t, d, a). some_match (always_ask (checker_rules c)) t a"
  "\<lambda>(t, d, a). mode_decision (checker_mode c) t d"
  "checker_mode c = BypassPermissions"
  for c
  by unfold_locales
    (auto simp: check_def check_rule_decision_def evaluate_rules_tiers split: prod.splits)

lemmas check_Allow_iff = checker_tiers.decide_Allow_iff [of _ "(t, d, a)" for t d a, simplified]
lemmas check_Deny_iff = checker_tiers.decide_Deny_iff [of _ "(t, d, a)" for t d a, simplified]

lemma mode_decision_Allow_iff:
  "mode_decision m t d = Allow \<longleftrightarrow>
     (case m of
        BypassPermissions \<Rightarrow> True | DontAsk \<Rightarrow> True | Bubble \<Rightarrow> False
      | Plan \<Rightarrow> t \<in> set PLAN_MODE_WHITELIST
      | AcceptEdits \<Rightarrow> t \<in> set ACCEPT_EDITS_WHITELIST \<or> t \<in> set DEFAULT_SAFE_TOOLS
      | Auto \<Rightarrow> t \<in> set DEFAULT_SAFE_TOOLS
      | Default \<Rightarrow> t \<in> set DEFAULT_SAFE_TOOLS)"
  by (simp add: mode_decision_def wants_to_def split: permission_mode.splits)

lemma mode_decision_deny_iff:
  "is_deny (mode_decision m t d) \<longleftrightarrow> m = Plan \<and> t \<notin> set PLAN_MODE_WHITELIST"
  by (simp add: mode_decision_def wants_to_def split: permission_mode.splits)

lemma mode_decision_Auto: "mode_decision Auto t d = mode_decision Default t d"
  by (simp add: mode_decision_def)

section \<open>Properties\<close>

text \<open>C30. A matching deny rule is absolute: in every mode, \<^verbatim>\<open>BypassPermissions\<close> included, and
  whatever allow and ask rules match as well, the call is denied; and apart from deny rules
  only plan mode ever denies.\<close>

theorem deny_rules_are_absolute:
  "is_deny (check c tool desc args) \<longleftrightarrow>
     some_match (always_deny (checker_rules c)) tool args
     \<or> (checker_mode c = Plan \<and> tool \<notin> set PLAN_MODE_WHITELIST
        \<and> \<not> some_match (always_allow (checker_rules c)) tool args
        \<and> \<not> some_match (always_ask (checker_rules c)) tool args)"
  by (auto simp: check_Deny_iff mode_decision_deny_iff)

text \<open>How much a mode lets through, from the strictest up.\<close>

definition permissiveness :: "permission_mode \<Rightarrow> nat" where
  "permissiveness m =
     (case m of Bubble \<Rightarrow> 0 | Plan \<Rightarrow> 1 | Default \<Rightarrow> 2 | Auto \<Rightarrow> 2 | AcceptEdits \<Rightarrow> 3
      | DontAsk \<Rightarrow> 4 | BypassPermissions \<Rightarrow> 5)"

lemma plan_whitelist_default_safe: "set PLAN_MODE_WHITELIST \<subseteq> set DEFAULT_SAFE_TOOLS"
  by (simp add: PLAN_MODE_WHITELIST_def DEFAULT_SAFE_TOOLS_def)

lemma list_members:
  "''Read'' \<in> set PLAN_MODE_WHITELIST" "''Read'' \<in> set DEFAULT_SAFE_TOOLS"
  "''memory_store'' \<notin> set PLAN_MODE_WHITELIST" "''memory_store'' \<in> set DEFAULT_SAFE_TOOLS"
  "''Write'' \<notin> set PLAN_MODE_WHITELIST" "''Write'' \<notin> set DEFAULT_SAFE_TOOLS"
  "''Write'' \<in> set ACCEPT_EDITS_WHITELIST"
  "''Bash'' \<notin> set PLAN_MODE_WHITELIST" "''Bash'' \<notin> set DEFAULT_SAFE_TOOLS"
  "''Bash'' \<notin> set ACCEPT_EDITS_WHITELIST"
  by (simp_all add: PLAN_MODE_WHITELIST_def DEFAULT_SAFE_TOOLS_def ACCEPT_EDITS_WHITELIST_def)

lemma mode_decision_mono:
  "permissiveness m \<le> permissiveness m' \<Longrightarrow> mode_decision m t d = Allow \<Longrightarrow> mode_decision m' t d = Allow"
  using plan_whitelist_default_safe
  by (auto simp: mode_decision_Allow_iff permissiveness_def split: permission_mode.splits)

lemma check_mono:
  "permissiveness m \<le> permissiveness m' \<Longrightarrow>
   check \<lparr>checker_mode = m, checker_rules = rs\<rparr> t d a = Allow \<Longrightarrow>
   check \<lparr>checker_mode = m', checker_rules = rs\<rparr> t d a = Allow"
  using mode_decision_mono [of m m' t d]
  by (auto simp: check_Allow_iff permissiveness_def split: if_splits permission_mode.splits)

text \<open>The seven modes are linearly ordered by what they allow, with \<^verbatim>\<open>Default\<close> and
  \<^verbatim>\<open>Auto\<close> level: with the same rules, a call allowed in a mode is allowed in every mode at
  least as permissive, and a step up the order allows some call the lower mode does not.\<close>

theorem modes_are_linearly_ordered:
  "permissiveness m \<le> permissiveness m' \<longleftrightarrow>
     {(rs, t, d, a). check \<lparr>checker_mode = m, checker_rules = rs\<rparr> t d a = Allow}
       \<subseteq> {(rs, t, d, a). check \<lparr>checker_mode = m', checker_rules = rs\<rparr> t d a = Allow}"
  (is "?le \<longleftrightarrow> ?imp")
proof
  assume imp: ?imp
  let ?ask = "\<lparr>always_allow = [], always_deny = [], always_ask = [\<lparr>rule_tool = ''Bash'', rule_pattern = ''*''\<rparr>]\<rparr>"
  have "check \<lparr>checker_mode = m, checker_rules = rs\<rparr> t [] [] = Allow \<Longrightarrow>
        check \<lparr>checker_mode = m', checker_rules = rs\<rparr> t [] [] = Allow" for rs t
    using imp by blast
  from this [of empty_rules "''Read''"] this [of empty_rules "''memory_store''"]
    this [of empty_rules "''Write''"] this [of empty_rules "''Bash''"] this [of ?ask "''Bash''"]
  show ?le
    by (cases m; cases m') (simp_all add: check_Allow_iff mode_decision_Allow_iff empty_rules_def
        some_match_def rule_matches_def permissiveness_def list_members)
qed (use check_mono in blast)

text \<open>Plan mode is read-only: unless an allow rule matches the call, the file-writing and
  shell tools are refused whatever the ask rules say, and a call that is allowed outright
  is on the plan whitelist.\<close>

theorem plan_mode_is_read_only:
  assumes "checker_mode c = Plan"
    and "\<not> some_match (always_allow (checker_rules c)) tool args"
  shows "(tool \<in> {''Write'', ''Edit'', ''NotebookEdit'', ''Bash'', ''DocIngest''} \<longrightarrow>
            check c tool desc args \<noteq> Allow)
       \<and> (check c tool desc args = Allow \<longrightarrow> tool \<in> set PLAN_MODE_WHITELIST)"
proof -
  have "check c tool desc args = Allow \<Longrightarrow> tool \<in> set PLAN_MODE_WHITELIST"
    using assms by (auto simp: check_Allow_iff mode_decision_Allow_iff split: if_splits)
  then show ?thesis by (auto simp: PLAN_MODE_WHITELIST_def)
qed

theorem plan_mode_is_read_only_witness:
  "check \<lparr>checker_mode = Plan, checker_rules = empty_rules\<rparr> ''Write'' ''write a file'' ''a.rs'' \<noteq> Allow"
  using plan_mode_is_read_only [of "\<lparr>checker_mode = Plan, checker_rules = empty_rules\<rparr>" "''Write''"]
  by (simp add: empty_rules_def some_match_def)

end
