(* ===== verification/Perm_Classifier.thy ===== *)
theory Perm_Classifier imports Rust_Text begin

text \<open>
  \<^verbatim>\<open>crates/archon-permissions/src/classifier.rs\<close>: how dangerous a shell command is.
  The scanners over quotes and escapes are state machines on the remaining text, the
  recursive classification is a \<^theory_text>\<open>function\<close> whose termination proof is that every
  segment of a chain and the argument of \<^verbatim>\<open>sh -c\<close> are shorter than the command.
\<close>

datatype command_class = Safe | Risky | Dangerous

text \<open>The classes are ordered by danger, so that the worse of two is their maximum.\<close>

primrec danger :: "command_class \<Rightarrow> nat" where
  "danger Safe = 0" | "danger Risky = 1" | "danger Dangerous = 2"

lemma danger_inject [simp]: "danger a = danger b \<longleftrightarrow> a = b"
  by (cases a; cases b) simp_all

instantiation command_class :: linorder
begin

definition less_eq_command_class :: "command_class \<Rightarrow> command_class \<Rightarrow> bool" where
  "a \<le> b \<longleftrightarrow> danger a \<le> danger b"

definition less_command_class :: "command_class \<Rightarrow> command_class \<Rightarrow> bool" where
  "a < b \<longleftrightarrow> danger a < danger b"

instance
  by standard (auto simp: less_eq_command_class_def less_command_class_def)

end

lemma class_extremes [simp]: "Safe \<le> c" "c \<le> Dangerous" "c \<le> Safe \<longleftrightarrow> c = Safe" "Risky \<le> c \<longleftrightarrow> c \<noteq> Safe"
  by (cases c; simp add: less_eq_command_class_def)+

section \<open>Tables\<close>

definition DEFAULT_SAFE :: "string list" where
  "DEFAULT_SAFE =
     [''ls'', ''cat'', ''head'', ''tail'', ''grep'', ''rg'', ''find'', ''wc'', ''git status'',
      ''git log'', ''git diff'', ''git branch'', ''npm test'', ''cargo test'', ''cargo check'',
      ''cargo clippy'', ''python -c'', ''echo'', ''pwd'', ''which'', ''env'', ''date'', ''whoami'',
      ''tree'', ''file'', ''stat'', ''du'', ''df'']"

definition DEFAULT_RISKY :: "string list" where
  "DEFAULT_RISKY =
     [''git commit'', ''git checkout'', ''git merge'', ''git rebase'', ''npm install'',
      ''pip install'', ''cargo build'', ''cargo run'', ''mkdir'', ''cp'', ''mv'', ''touch'', ''ln'']"

definition DEFAULT_DANGEROUS :: "string list" where
  "DEFAULT_DANGEROUS =
     [''rm -rf'', ''rm -r'', ''rm -fr'', ''git push'', ''git push --force'', ''git reset --hard'',
      ''git clean'', ''sudo'', ''chmod'', ''chown'', ''chgrp'', ''kill'', ''pkill'', ''killall'',
      ''dd'', ''mkfs'', ''fdisk'', ''mount'', ''umount'', ''shutdown'', ''reboot'', ''halt'',
      ''curl | sh'', ''wget | sh'']"

definition DANGEROUS_SUBSTRINGS :: "string list" where
  "DANGEROUS_SUBSTRINGS =
     [''rm -rf'', ''rm -r'', ''rm -fr'', ''sudo '', ''| sudo'', ''|sudo'', ''| rm'', ''|rm'',
      ''git push'', ''git reset --hard'', ''> /dev/'', ''>> /dev/'', '':(){ :|:& };:'']"

section \<open>Scanners\<close>

abbreviation backslash :: char where "backslash \<equiv> CHR 0x5C"
abbreviation squote :: char where "squote \<equiv> CHR 0x27"
abbreviation dquote :: char where "dquote \<equiv> CHR 0x22"
abbreviation newline :: char where "newline \<equiv> CHR 0x0A"

text \<open>\<^verbatim>\<open>unquoted_shell_text\<close>: the flags are \<^verbatim>\<open>in_single\<close>, \<^verbatim>\<open>in_double\<close>, \<^verbatim>\<open>escaped\<close>.\<close>

fun unquoted_scan :: "bool \<Rightarrow> bool \<Rightarrow> bool \<Rightarrow> string \<Rightarrow> string" where
  "unquoted_scan s d e [] = []"
| "unquoted_scan s d e (c # cs) =
     (if e then (if \<not> s \<and> \<not> d then [c] else []) @ unquoted_scan s d False cs
      else if c = backslash \<and> \<not> s then unquoted_scan s d True cs
      else if c = squote \<and> \<not> d then CHR '' '' # unquoted_scan (\<not> s) d False cs
      else if c = dquote \<and> \<not> s then CHR '' '' # unquoted_scan s (\<not> d) False cs
      else if s \<or> d then unquoted_scan s d False cs
      else c # unquoted_scan s d False cs)"

definition unquoted_shell_text :: "string \<Rightarrow> string" where
  "unquoted_shell_text command = unquoted_scan False False False command"

text \<open>\<^verbatim>\<open>split_shell_chain\<close>: \<open>cur\<close> is the text since the last operator.\<close>

fun chain_scan :: "bool \<Rightarrow> bool \<Rightarrow> bool \<Rightarrow> string \<Rightarrow> string \<Rightarrow> string list" where
  "chain_scan s d e cur [] = [trim cur]"
| "chain_scan s d e cur (c # cs) =
     (if e then chain_scan s d False (cur @ [c]) cs
      else if c = backslash \<and> \<not> s then chain_scan s d True (cur @ [c]) cs
      else if c = squote \<and> \<not> d then chain_scan (\<not> s) d False (cur @ [c]) cs
      else if c = dquote \<and> \<not> s then chain_scan s (\<not> d) False (cur @ [c]) cs
      else if \<not> s \<and> \<not> d then
        (if (c = CHR ''&'' \<and> starts_with cs ''&'') \<or> (c = CHR ''|'' \<and> starts_with cs ''|'')
         then trim cur # chain_scan s d False [] (drop 1 cs)
         else if c = CHR ''|'' \<or> c = CHR '';'' \<or> c = newline
         then trim cur # chain_scan s d False [] cs
         else chain_scan s d False (cur @ [c]) cs)
      else chain_scan s d False (cur @ [c]) cs)"

definition split_shell_chain :: "string \<Rightarrow> string list" where
  "split_shell_chain command = chain_scan False False False [] command"

text \<open>\<^verbatim>\<open>shell_tokens\<close>: \<open>q\<close> is the open quote, \<open>cur\<close> the token being read.\<close>

fun token_scan :: "char option \<Rightarrow> bool \<Rightarrow> string \<Rightarrow> string \<Rightarrow> string list" where
  "token_scan q e cur [] = (if cur = [] then [] else [to_lowercase cur])"
| "token_scan q e cur (c # cs) =
     (if e then token_scan q False (cur @ [c]) cs
      else if c = backslash \<and> q \<noteq> Some squote then token_scan q True cur cs
      else if c = squote \<or> c = dquote then
        (if q = Some c then token_scan None False cur cs
         else if q = None then token_scan (Some c) False cur cs
         else token_scan q False (cur @ [c]) cs)
      else if (c = CHR ''>'' \<or> c = CHR ''<'' \<or> c = CHR ''&'' \<or> is_ws c) \<and> q = None then
        (if cur = [] then token_scan q False [] cs
         else to_lowercase cur # token_scan q False [] cs)
      else token_scan q False (cur @ [c]) cs)"

definition shell_tokens :: "string \<Rightarrow> string list" where
  "shell_tokens command = token_scan None False [] command"

section \<open>\<^verbatim>\<open>find\<close> with an action\<close>

definition find_predicate_argument_count :: "string \<Rightarrow> nat" where
  "find_predicate_argument_count p =
     (if p = ''-fprintf'' then 2
      else if p \<in> set [''-amin'', ''-anewer'', ''-atime'', ''-cmin'', ''-cnewer'', ''-ctime'',
        ''-fls'', ''-fprint'', ''-fprint0'', ''-fstype'', ''-gid'', ''-group'', ''-ilname'',
        ''-iname'', ''-inum'', ''-ipath'', ''-iregex'', ''-iwholename'', ''-links'', ''-lname'',
        ''-maxdepth'', ''-mindepth'', ''-mmin'', ''-mtime'', ''-name'', ''-newer'', ''-path'',
        ''-perm'', ''-printf'', ''-regex'', ''-samefile'', ''-size'', ''-type'', ''-uid'',
        ''-used'', ''-user'', ''-wholename'', ''-xtype'', ''-files0-from''] then 1
      else if starts_with p ''-newer'' then 1
      else 0)"

definition is_find_executable :: "string \<Rightarrow> string option \<Rightarrow> bool" where
  "is_find_executable command parsed_executable \<longleftrightarrow>
     (case parsed_executable of
        Some token \<Rightarrow> last (split_on CHR ''/'' token) = ''find''
      | None \<Rightarrow> False)
     \<or> (case split_whitespace command of
          [] \<Rightarrow> False
        | token # _ \<Rightarrow>
            last (split_on backslash
              (to_ascii_lowercase (trim_matches (\<lambda>c. c = squote \<or> c = dquote) token))) = ''find'')"

function find_predicate_scan :: "string list \<Rightarrow> bool" where
  "find_predicate_scan [] = False"
| "find_predicate_scan (token # rest) =
     (if token \<in> {''-delete'', ''-exec'', ''-execdir''} then True
      else find_predicate_scan (drop (find_predicate_argument_count token) rest))"
  by pat_completeness auto
termination
  by (relation "measure length") auto

definition has_dangerous_find_predicate :: "string \<Rightarrow> bool" where
  "has_dangerous_find_predicate command =
     (let tokens = shell_tokens command
      in if \<not> is_find_executable command (if tokens = [] then None else Some (hd tokens)) then False
         else find_predicate_scan (drop 1 tokens))"

section \<open>A single command\<close>

definition starts_with_any :: "string \<Rightarrow> string list \<Rightarrow> bool" where
  "starts_with_any lower cmds \<longleftrightarrow> list_ex (\<lambda>cmd. starts_with lower (to_lowercase cmd)) cmds"

definition classify_single_command ::
    "string \<Rightarrow> string list \<Rightarrow> string list \<Rightarrow> string list \<Rightarrow> command_class" where
  "classify_single_command command user_safe user_risky user_dangerous =
     (let lower = to_lowercase command
      in if starts_with_any lower user_dangerous then Dangerous
         else if starts_with_any lower user_safe then Safe
         else if starts_with_any lower user_risky then Risky
         else if has_dangerous_find_predicate command then Dangerous
         else if starts_with_any lower DEFAULT_DANGEROUS then Dangerous
         else if starts_with_any lower DEFAULT_SAFE then Safe
         else if starts_with_any lower DEFAULT_RISKY then Risky
         else Risky)"

definition worse :: "command_class \<Rightarrow> command_class \<Rightarrow> command_class" where
  "worse a b =
     (if a = Dangerous \<or> b = Dangerous then Dangerous
      else if a = Risky \<or> b = Risky then Risky
      else Safe)"

section \<open>The argument of \<^verbatim>\<open>sh -c\<close>\<close>

definition strip_outer_shell_quotes :: "string \<Rightarrow> string" where
  "strip_outer_shell_quotes value =
     (let trimmed = trim value
      in case strip_prefix trimmed [dquote] of
           Some rest \<Rightarrow> (case strip_suffix rest [dquote] of Some r \<Rightarrow> r | None \<Rightarrow> rest)
         | None \<Rightarrow>
             (case strip_prefix trimmed [squote] of
                Some rest \<Rightarrow> (case strip_suffix rest [squote] of Some r \<Rightarrow> r | None \<Rightarrow> rest)
              | None \<Rightarrow> trimmed))"

function shell_flags_loop :: "string \<Rightarrow> string option" where
  "shell_flags_loop rest =
     (case rest of
        [] \<Rightarrow> None
      | c # flag_rest \<Rightarrow>
          if c \<noteq> CHR ''-'' then None
          else
            let flags = takeWhile (\<lambda>x. \<not> is_ws x) flag_rest;
                after_flags = trim_start (dropWhile (\<lambda>x. \<not> is_ws x) flag_rest)
            in if CHR ''c'' \<in> set flags then Some (strip_outer_shell_quotes after_flags)
               else shell_flags_loop after_flags)"
  by pat_completeness auto
termination
  by (relation "measure length")
    (auto simp: trim_start_def intro!: le_imp_less_Suc order_trans [OF length_dropWhile_le])

declare shell_flags_loop.simps [simp del]

definition extract_shell_c_command :: "string \<Rightarrow> string option" where
  "extract_shell_c_command full =
     (let trimmed = trim_start full;
          after = (case strip_prefix trimmed ''bash'' of
                     Some r \<Rightarrow> Some r
                   | None \<Rightarrow> strip_prefix trimmed ''sh'')
      in case after of
           None \<Rightarrow> None
         | Some after_shell \<Rightarrow>
             if after_shell = [] \<or> \<not> is_ws (hd after_shell) then None
             else shell_flags_loop (trim_start after_shell))"

section \<open>Every recursive argument is shorter\<close>

text \<open>A step of the chain scanner either extends the current segment or closes it.\<close>

inductive chain_next :: "string \<Rightarrow> char \<Rightarrow> string \<Rightarrow> string list \<Rightarrow> bool" for cur c cs where
  extend: "chain_next cur c cs (chain_scan s d e (cur @ [c]) cs)"
| close: "length cs' \<le> length cs \<Longrightarrow> chain_next cur c cs (trim cur # chain_scan s d False [] cs')"

lemma chain_next_if:
  "chain_next cur c cs x \<Longrightarrow> chain_next cur c cs y \<Longrightarrow> chain_next cur c cs (if b then x else y)"
  by (cases b) simp_all

lemma chain_scan_step: "chain_next cur c cs (chain_scan s d e cur (c # cs))"
  unfolding chain_scan.simps(2) by (intro chain_next_if chain_next.intros) simp_all

declare chain_scan.simps(2) [simp del]

lemma chain_scan_length:
  "p \<in> set (chain_scan s d e cur cs) \<Longrightarrow> length p \<le> length cur + length cs"
proof (induction cs arbitrary: s d e cur rule: length_induct)
  case (1 cs)
  note IH = "1.IH" [rule_format]
  show ?case
  proof (cases cs)
    case Nil
    with "1.prems" show ?thesis by (simp add: length_trim)
  next
    case (Cons c cs')
    from chain_scan_step [of cur c cs' s d e] show ?thesis
    proof cases
      case (extend s' d' e')
      with "1.prems" Cons have "p \<in> set (chain_scan s' d' e' (cur @ [c]) cs')" by simp
      from IH [OF _ this] Cons show ?thesis by simp
    next
      case (close cs'' s' d')
      then consider "p = trim cur" | "p \<in> set (chain_scan s' d' False [] cs'')"
        using "1.prems" Cons by auto
      then show ?thesis
      proof cases
        case 1
        then show ?thesis by (simp add: length_trim trans_le_add1)
      next
        case 2
        from IH [OF _ 2] close(2) Cons show ?thesis by simp
      qed
    qed
  qed
qed

lemma chain_scan_strict:
  "1 < length (chain_scan s d e cur cs) \<Longrightarrow> p \<in> set (chain_scan s d e cur cs) \<Longrightarrow>
   length p < length cur + length cs"
proof (induction cs arbitrary: s d e cur)
  case (Cons c cs)
  from chain_scan_step [of cur c cs s d e] show ?case
  proof cases
    case (extend s' d' e')
    with Cons show ?thesis by fastforce
  next
    case (close cs' s' d')
    show ?thesis
    proof (cases "p = trim cur")
      case True
      with length_trim [of cur] show ?thesis by simp
    next
      case False
      with Cons.prems(2) close have "p \<in> set (chain_scan s' d' False [] cs')" by simp
      from chain_scan_length [OF this] close show ?thesis by simp
    qed
  qed
qed simp

lemma split_shell_chain_shorter:
  "1 < length (split_shell_chain c) \<Longrightarrow> p \<in> set (split_shell_chain c) \<Longrightarrow> length p < length c"
  using chain_scan_strict [of False False False "[]" c p] by (simp add: split_shell_chain_def)

lemma length_strip_outer_shell_quotes: "length (strip_outer_shell_quotes v) \<le> length v"
  using length_trim [of v]
  by (auto simp: strip_outer_shell_quotes_def Let_def strip_prefix_def strip_suffix_def
      split: option.splits if_splits)

lemma length_shell_flags_loop: "shell_flags_loop rest = Some r \<Longrightarrow> length r \<le> length rest"
proof (induction rest rule: length_induct)
  case (1 rest)
  show ?case
  proof (cases rest)
    case Nil
    with "1.prems" show ?thesis by (simp add: shell_flags_loop.simps)
  next
    case (Cons c fr)
    let ?after = "trim_start (dropWhile (\<lambda>x. \<not> is_ws x) fr)"
    have len: "length ?after \<le> length fr"
      using length_trim_start length_dropWhile_le by (metis order_trans)
    from "1.prems" Cons have "r = strip_outer_shell_quotes ?after \<or> shell_flags_loop ?after = Some r"
      by (simp add: shell_flags_loop.simps [of "c # fr"] Let_def split: if_splits)
    then have "length r \<le> length ?after"
      using "1.IH" len Cons length_strip_outer_shell_quotes [of ?after] by auto
    with len Cons show ?thesis by simp
  qed
qed

lemma extract_shell_c_command_shorter:
  "extract_shell_c_command s = Some inner \<Longrightarrow> length inner < length s"
proof -
  assume "extract_shell_c_command s = Some inner"
  then obtain r where r: "shell_flags_loop (trim_start r) = Some inner"
    and "trim_start s = ''bash'' @ r \<or> trim_start s = ''sh'' @ r"
    by (auto simp: extract_shell_c_command_def Let_def strip_prefix_Some
        split: option.splits if_splits)
  then have "length r < length (trim_start s)" by auto
  with length_shell_flags_loop [OF r] length_trim_start [of r] length_trim_start [of s]
  show ?thesis by simp
qed

section \<open>The classifier\<close>

function classify_command ::
    "string \<Rightarrow> string list \<Rightarrow> string list \<Rightarrow> string list \<Rightarrow> command_class" where
  "classify_command command user_safe user_risky user_dangerous =
     (if trim command = [] then Risky
      else if list_ex (\<lambda>p. contains_sub (to_lowercase (unquoted_shell_text (trim command)))
                (to_lowercase p)) DANGEROUS_SUBSTRINGS
      then Dangerous
      else if 1 < length (split_shell_chain (trim command))
      then foldl worse Safe
             (map (\<lambda>segment. classify_command (trim segment) user_safe user_risky user_dangerous)
               (split_shell_chain (trim command)))
      else
        (case extract_shell_c_command (trim command) of
           Some inner \<Rightarrow>
             if inner \<noteq> []
             then worse Risky (classify_command inner user_safe user_risky user_dangerous)
             else classify_single_command (trim command) user_safe user_risky user_dangerous
         | None \<Rightarrow> classify_single_command (trim command) user_safe user_risky user_dangerous))"
  by pat_completeness auto
termination
proof (relation "measure (\<lambda>(command, _). length command)")
  fix command :: string and user_safe user_risky user_dangerous :: "string list" and z
  assume "1 < length (split_shell_chain (trim command))"
    and "z \<in> set (split_shell_chain (trim command))"
  from split_shell_chain_shorter [OF this]
  have "length z < length (trim command)" .
  with length_trim [of z] length_trim [of command]
  show "((trim z, user_safe, user_risky, user_dangerous), command, user_safe, user_risky, user_dangerous)
    \<in> measure (\<lambda>(command, _). length command)" by simp
next
  fix command :: string and user_safe user_risky user_dangerous :: "string list" and x2
  assume "extract_shell_c_command (trim command) = Some x2"
  from extract_shell_c_command_shorter [OF this] length_trim [of command]
  show "((x2, user_safe, user_risky, user_dangerous), command, user_safe, user_risky, user_dangerous)
    \<in> measure (\<lambda>(command, _). length command)" by simp
qed simp

declare classify_command.simps [simp del]


section \<open>What the classifier promises\<close>

lemma worse_max: "worse a b = max a b"
  by (cases a; cases b) (simp_all add: worse_def max_def less_eq_command_class_def)

lemma worse_fold: "foldl worse a (map f xs) = Max (insert a (f ` set xs))"
proof (induction xs arbitrary: a)
  case (Cons x xs)
  have "foldl worse a (map f (x # xs)) = Max (insert (max a (f x)) (f ` set xs))"
    by (simp add: worse_max [of a "f x"] Cons)
  also have "\<dots> = Max (insert a (insert (f x) (f ` set xs)))"
    by (cases "xs = []") (simp_all add: max.assoc)
  finally show ?case by simp
qed simp

lemma worse_fold_Safe: "foldl worse Safe (map f xs) = Safe \<longleftrightarrow> (\<forall>x\<in>set xs. f x = Safe)"
proof -
  have "Max (insert Safe (f ` set xs)) \<le> Safe \<longleftrightarrow> (\<forall>x\<in>insert Safe (f ` set xs). x \<le> Safe)"
    by (rule Max_le_iff) simp_all
  then show ?thesis by (simp add: worse_fold)
qed

definition has_dangerous_text :: "string \<Rightarrow> bool" where
  "has_dangerous_text command \<longleftrightarrow>
     list_ex (\<lambda>p. contains_sub (to_lowercase (unquoted_shell_text (trim command))) (to_lowercase p))
       DANGEROUS_SUBSTRINGS"

lemma classify_command_unfold:
  "classify_command command us ur ud =
     (if trim command = [] then Risky
      else if has_dangerous_text command then Dangerous
      else if 1 < length (split_shell_chain (trim command))
      then foldl worse Safe
             (map (\<lambda>segment. classify_command (trim segment) us ur ud) (split_shell_chain (trim command)))
      else
        (case extract_shell_c_command (trim command) of
           Some inner \<Rightarrow>
             if inner \<noteq> [] then worse Risky (classify_command inner us ur ud)
             else classify_single_command (trim command) us ur ud
         | None \<Rightarrow> classify_single_command (trim command) us ur ud))"
  by (subst classify_command.simps) (simp only: has_dangerous_text_def)

text \<open>
  Text outside quotes that contains one of the built-in dangerous substrings is
  classified Dangerous whatever the operator's own safe, risky and dangerous lists say:
  no configuration relaxes it.
\<close>

theorem dangerous_text_beats_user_lists:
  "has_dangerous_text command \<Longrightarrow> trim command \<noteq> [] \<Longrightarrow> classify_command command us ur ud = Dangerous"
  by (simp add: classify_command_unfold)

lemma dangerous_text_beats_user_lists_witness:
  "classify_command ''SUDO x'' [''x''] [] [] = Dangerous"
  by (rule dangerous_text_beats_user_lists) code_simp+

text \<open>
  Exactly which commands the classifier calls Safe: the text is not blank, holds no
  dangerous substring outside quotes, and then either it is a chain all of whose segments
  are Safe, or it is not a chain, is no non-empty \<^verbatim>\<open>sh -c\<close> wrapper, and the tables call the
  single command Safe.
\<close>

theorem safe_commands_are_clean:
  "classify_command command us ur ud = Safe \<longleftrightarrow>
     trim command \<noteq> [] \<and> \<not> has_dangerous_text command \<and>
     (if 1 < length (split_shell_chain (trim command))
      then list_all (\<lambda>segment. classify_command (trim segment) us ur ud = Safe)
             (split_shell_chain (trim command))
      else extract_shell_c_command (trim command) \<in> {None, Some []} \<and>
           classify_single_command (trim command) us ur ud = Safe)"
  by (subst classify_command_unfold) (auto simp: worse_fold_Safe worse_def list_all_iff split: option.splits)

text \<open>
  A chain whose text has no dangerous substring is exactly as dangerous as its most
  dangerous segment.
\<close>

theorem chain_is_as_bad_as_its_worst_segment:
  assumes "trim command \<noteq> []" and "\<not> has_dangerous_text command"
    and "1 < length (split_shell_chain (trim command))"
  shows "classify_command command us ur ud =
    Max ((\<lambda>segment. classify_command (trim segment) us ur ud) ` set (split_shell_chain (trim command)))"
proof -
  let ?C = "(\<lambda>segment. classify_command (trim segment) us ur ud) ` set (split_shell_chain (trim command))"
  have "?C \<noteq> {}" using assms(3) by auto
  then have "Max (insert Safe ?C) = Max ?C" by (simp add: max_def)
  with assms show ?thesis by (subst classify_command_unfold) (simp add: worse_fold)
qed

lemma chain_is_as_bad_as_its_worst_segment_witness:
  "classify_command ''a|b'' [] [] [] =
    Max ((\<lambda>segment. classify_command (trim segment) [] [] []) ` set (split_shell_chain (trim ''a|b'')))"
  by (rule chain_is_as_bad_as_its_worst_segment) code_simp+

text \<open>
  The background operator is not a chain separator, so the command behind a single
  \<^verbatim>\<open>&\<close> is judged by the first word only.
\<close>

lemma background_operator_hides_a_command:
  "classify_single_command ''halt'' [] [] [] = Dangerous"
  "classify_command ''ls&halt'' [] [] [] = Safe"
  by code_simp+

end
