(* ===== verification/Perm_Auto.thy ===== *)
theory Perm_Auto imports Perm_Classifier Perm_Rules begin

text \<open>
  \<^verbatim>\<open>crates/archon-permissions/src/auto.rs\<close>, \<^verbatim>\<open>denial_log.rs\<close>, \<^verbatim>\<open>tool_capability.rs\<close> and the scope
  types of \<^verbatim>\<open>sandbox.rs\<close>. The auto-mode evaluator composes the command classifier and the
  path rules; the denial log is an append-only list (the clock is an argument).
\<close>

section \<open>The auto-mode evaluator\<close>

datatype auto_decision = AutoAllow | AutoPrompt | AutoPromptWithWarning string

record auto_mode_config =
  safe_commands :: "string list"
  risky_commands :: "string list"
  dangerous_commands :: "string list"
  allow_paths :: "string list"
  deny_paths :: "string list"
  project_dir :: "string option"

definition evaluate_command :: "auto_mode_config \<Rightarrow> string \<Rightarrow> auto_decision" where
  "evaluate_command config command =
     (case classify_command command (safe_commands config) (risky_commands config)
             (dangerous_commands config) of
        Safe \<Rightarrow> AutoAllow
      | Risky \<Rightarrow> AutoPrompt
      | Dangerous \<Rightarrow> AutoPromptWithWarning (''Dangerous command detected: '' @ command))"

definition evaluate_file_read :: "auto_mode_config \<Rightarrow> string \<Rightarrow> auto_decision" where
  "evaluate_file_read config path = AutoAllow"

definition evaluate_file_write :: "glob_compiler \<Rightarrow> auto_mode_config \<Rightarrow> string \<Rightarrow> auto_decision" where
  "evaluate_file_write glob config path =
     (let dir = (case project_dir config of Some d \<Rightarrow> d | None \<Rightarrow> ''.'')
      in case check_write_path glob path dir (allow_paths config) (deny_paths config) of
           PathAllow \<Rightarrow> AutoAllow
         | PathNeedsPermission \<Rightarrow> AutoPrompt
         | PathDeny \<Rightarrow> AutoPromptWithWarning (''Write to denied path: '' @ path))"

section \<open>The denial log\<close>

record denial_entry =
  denial_tool_name :: string
  denial_reason :: string
  denial_timestamp :: nat

type_synonym denial_log = "denial_entry list"

definition record_denial :: "denial_log \<Rightarrow> nat \<Rightarrow> string \<Rightarrow> string \<Rightarrow> denial_log" where
  "record_denial entries now tool_name reason =
     entries @ [\<lparr>denial_tool_name = tool_name, denial_reason = reason, denial_timestamp = now\<rparr>]"

definition recent :: "denial_log \<Rightarrow> nat \<Rightarrow> denial_log" where
  "recent entries limit = drop (length entries - limit) entries"

section \<open>Tool capabilities\<close>

datatype world_reach = Execution | FileRead | FileWrite | Terminal | HostHandle

datatype tool_capability = WorldBound world_reach | HostLocal | Egress | ControlPlane

definition capability_label :: "tool_capability \<Rightarrow> string" where
  "capability_label c =
     (case c of
        WorldBound Execution \<Rightarrow> ''world-bound/execution''
      | WorldBound FileRead \<Rightarrow> ''world-bound/file-read''
      | WorldBound FileWrite \<Rightarrow> ''world-bound/file-write''
      | WorldBound Terminal \<Rightarrow> ''world-bound/terminal''
      | WorldBound HostHandle \<Rightarrow> ''world-bound/host-handle''
      | HostLocal \<Rightarrow> ''host-local''
      | Egress \<Rightarrow> ''egress''
      | ControlPlane \<Rightarrow> ''control-plane'')"

section \<open>Sandbox scopes\<close>

datatype sandbox_scope = ScopeSession | ScopeTurn | ScopeTool

definition scope_as_str :: "sandbox_scope \<Rightarrow> string" where
  "scope_as_str s = (case s of ScopeSession \<Rightarrow> ''session'' | ScopeTurn \<Rightarrow> ''turn'' | ScopeTool \<Rightarrow> ''tool'')"

definition scope_from_str :: "string \<Rightarrow> string + sandbox_scope" where
  "scope_from_str value =
     (if value = ''session'' then Inr ScopeSession
      else if value = ''turn'' then Inr ScopeTurn
      else if value = ''tool'' then Inr ScopeTool
      else Inl (''sandbox.scope must be session, turn, or tool, got '' @ quoted value))"

datatype sandbox_scope_support = Held | Durable | PerCommand | Unsupported string

definition into_result :: "sandbox_scope_support \<Rightarrow> string + sandbox_scope_support" where
  "into_result s = (case s of Unsupported reason \<Rightarrow> Inl reason | supported \<Rightarrow> Inr supported)"

lemma capability_label_inj: "capability_label a = capability_label b \<longleftrightarrow> a = b"
  unfolding capability_label_def by (simp split: tool_capability.splits world_reach.splits)

lemma scope_roundtrip: "scope_from_str (scope_as_str s) = Inr s"
  by (cases s) (simp_all add: scope_from_str_def scope_as_str_def)

lemma recent_suffix: "\<exists>older. entries = older @ recent entries limit"
  unfolding recent_def by (metis append_take_drop_id)

lemma recent_record:
  "recent (record_denial entries now t r) (Suc n) =
     recent entries n @ [\<lparr>denial_tool_name = t, denial_reason = r, denial_timestamp = now\<rparr>]"
  by (simp add: recent_def record_denial_def)

section \<open>Properties\<close>

text \<open>
  Auto mode writes without asking exactly when no deny pattern matches the path and it
  either matches an allow pattern or lies, component by component, under the project
  directory; a denied path is always answered with a warning.
\<close>

theorem auto_write_decision:
  "evaluate_file_write glob config path =
     (if \<exists>p\<in>set (deny_paths config). \<exists>m. glob p = Some m \<and> m path
      then AutoPromptWithWarning (''Write to denied path: '' @ path)
      else if (\<exists>p\<in>set (allow_paths config). \<exists>m. glob p = Some m \<and> m path)
           \<or> (\<exists>below. components path =
                components (case project_dir config of Some d \<Rightarrow> d | None \<Rightarrow> ''.'') @ below)
      then AutoAllow else AutoPrompt)"
  unfolding evaluate_file_write_def check_write_path_def path_matches_any_iff path_starts_with_iff
  by (auto simp: Let_def split del: option.split)

text \<open>The comparison is lexical, so a path that climbs out of the project counts as inside it.\<close>

lemma climbing_path_is_allowed:
  "evaluate_file_write (\<lambda>_. None)
     \<lparr>safe_commands = [], risky_commands = [], dangerous_commands = [], allow_paths = [],
      deny_paths = [], project_dir = Some ''/p''\<rparr> ''/p/../etc/passwd'' = AutoAllow"
  by code_simp

end
