(* ===== verification/Write_Keys.thy ===== *)
theory Write_Keys imports Rust_Base begin

text \<open>
  The resource keys of \<^verbatim>\<open>crates/archon-write-plan/src/write_plan.rs\<close> and their overlap
  table \<^verbatim>\<open>keys_conflict\<close>. The matcher of the \<^verbatim>\<open>globset\<close> crate is the parameter \<open>glob\<close>
  (\<^const>\<open>None\<close> for a malformed pattern) and \<^verbatim>\<open>std::env::consts::OS\<close> the parameter \<open>os\<close>.
  The lemmas say which paths a key stands for, and that two keys which stand for a common
  path conflict unless both writers declared a coordinated append.
\<close>

type_synonym globset_compiler = "string \<Rightarrow> (string \<Rightarrow> bool) option"

datatype resource_key =
    File string
  | Dir string
  | Glob string
  | SharedAppend string

primrec key_rank :: "resource_key \<Rightarrow> nat" where
  "key_rank (File _) = 0" | "key_rank (Dir _) = 1" | "key_rank (Glob _) = 2"
| "key_rank (SharedAppend _) = 3"

primrec key_text :: "resource_key \<Rightarrow> string" where
  "key_text (File p) = p" | "key_text (Dir p) = p" | "key_text (Glob p) = p"
| "key_text (SharedAppend p) = p"

lemma key_rank_text_inject: "key_rank a = key_rank b \<Longrightarrow> key_text a = key_text b \<Longrightarrow> a = b"
  by (cases a; cases b) simp_all

text \<open>The derived order: the variant first, in declaration order, then the text.\<close>

instantiation resource_key :: linorder
begin

definition less_resource_key :: "resource_key \<Rightarrow> resource_key \<Rightarrow> bool" where
  "a < b \<longleftrightarrow> key_rank a < key_rank b \<or> (key_rank a = key_rank b \<and> key_text a < key_text b)"

definition less_eq_resource_key :: "resource_key \<Rightarrow> resource_key \<Rightarrow> bool" where
  "a \<le> b \<longleftrightarrow> key_rank a < key_rank b \<or> (key_rank a = key_rank b \<and> key_text a \<le> key_text b)"

instance
  by standard
    (auto simp: less_resource_key_def less_eq_resource_key_def key_rank_text_inject)

end

section \<open>Overlap\<close>

definition is_glob_meta :: "char \<Rightarrow> bool" where
  "is_glob_meta c \<longleftrightarrow> c \<in> {CHR ''*'', CHR ''?'', CHR ''['', CHR ''{''}"

definition has_glob_meta :: "string \<Rightarrow> bool" where
  "has_glob_meta s \<longleftrightarrow> list_ex is_glob_meta s"

definition is_resolvable_shared_append :: "string \<Rightarrow> bool" where
  "is_resolvable_shared_append path \<longleftrightarrow> trim path \<noteq> [] \<and> \<not> has_glob_meta path"

definition glob_match :: "globset_compiler \<Rightarrow> string \<Rightarrow> string \<Rightarrow> bool" where
  "glob_match glob pattern candidate =
     (case glob pattern of Some m \<Rightarrow> m candidate | None \<Rightarrow> True)"

definition literal_prefix :: "string \<Rightarrow> string" where
  "literal_prefix g = takeWhile (\<lambda>c. \<not> is_glob_meta c) g"

definition globs_overlap :: "string \<Rightarrow> string \<Rightarrow> bool" where
  "globs_overlap a b \<longleftrightarrow>
     starts_with (literal_prefix a) (literal_prefix b) \<or> starts_with (literal_prefix b) (literal_prefix a)"

definition below :: "string \<Rightarrow> string \<Rightarrow> bool" where
  "below p d \<longleftrightarrow> starts_with p (d @ ''/'')"

fun keys_overlap :: "globset_compiler \<Rightarrow> resource_key \<Rightarrow> resource_key \<Rightarrow> bool" where
  "keys_overlap glob (File x) (File y) = (x = y)"
| "keys_overlap glob (File f) (Dir d) = (f = d \<or> below f d)"
| "keys_overlap glob (Dir d) (File f) = (f = d \<or> below f d)"
| "keys_overlap glob (Dir x) (Dir y) = (x = y \<or> below x y \<or> below y x)"
| "keys_overlap glob (Glob g) (File f) = glob_match glob g f"
| "keys_overlap glob (File f) (Glob g) = glob_match glob g f"
| "keys_overlap glob (Glob g) (Dir d) = glob_match glob g (d @ ''/*'')"
| "keys_overlap glob (Dir d) (Glob g) = glob_match glob g (d @ ''/*'')"
| "keys_overlap glob (Glob x) (Glob y) = globs_overlap x y"
| "keys_overlap glob (SharedAppend p) (SharedAppend q) = False"
| "keys_overlap glob (SharedAppend p) (File f) = (p = f)"
| "keys_overlap glob (File f) (SharedAppend p) = (p = f)"
| "keys_overlap glob (SharedAppend p) (Dir d) = (p = d \<or> below p d)"
| "keys_overlap glob (Dir d) (SharedAppend p) = (p = d \<or> below p d)"
| "keys_overlap glob (SharedAppend p) (Glob g) = glob_match glob g p"
| "keys_overlap glob (Glob g) (SharedAppend p) = glob_match glob g p"

definition unreadable_append :: "resource_key \<Rightarrow> bool" where
  "unreadable_append k =
     (case k of SharedAppend p \<Rightarrow> \<not> is_resolvable_shared_append p | _ \<Rightarrow> False)"

definition keys_conflict :: "globset_compiler \<Rightarrow> resource_key \<Rightarrow> resource_key \<Rightarrow> bool" where
  "keys_conflict glob a b =
     (if unreadable_append a then True
      else if unreadable_append b then True
      else keys_overlap glob a b)"

section \<open>Keys from raw text\<close>

definition fold_case_for_os :: "string \<Rightarrow> string \<Rightarrow> string" where
  "fold_case_for_os os s = (if os = ''macos'' \<or> os = ''windows'' then to_lowercase s else s)"

definition unify_separators :: "string \<Rightarrow> string" where
  "unify_separators s = replace_char CHR 0x5C CHR ''/'' s"

definition resource_key_for_raw_target :: "string \<Rightarrow> string \<Rightarrow> resource_key" where
  "resource_key_for_raw_target os raw =
     (let unified = fold_case_for_os os (unify_separators (trim raw))
      in if has_glob_meta unified then Glob unified else File unified)"

definition shared_append_key_for_raw_target :: "string \<Rightarrow> string \<Rightarrow> resource_key" where
  "shared_append_key_for_raw_target os raw =
     SharedAppend (fold_case_for_os os (unify_separators (trim raw)))"

section \<open>Symmetry\<close>

lemma globs_overlap_sym: "globs_overlap a b = globs_overlap b a"
  by (auto simp: globs_overlap_def)

lemma keys_overlap_sym: "keys_overlap glob a b = keys_overlap glob b a"
  by (cases a; cases b) (auto simp: globs_overlap_sym)

lemma keys_conflict_sym: "keys_conflict glob a b = keys_conflict glob b a"
  by (simp add: keys_conflict_def keys_overlap_sym [of glob a b])

lemma keys_conflict_simps:
  "\<not> unreadable_append a \<Longrightarrow> \<not> unreadable_append b \<Longrightarrow> keys_conflict glob a b = keys_overlap glob a b"
  by (simp add: keys_conflict_def)

lemma globs_overlap_refl [simp]: "globs_overlap g g"
  by (simp add: globs_overlap_def)

section \<open>What a key stands for\<close>

text \<open>The paths a key claims; a pattern that does not compile claims every path, and so
  does a shared append that names no single file.\<close>

fun claims :: "globset_compiler \<Rightarrow> resource_key \<Rightarrow> string \<Rightarrow> bool" where
  "claims glob (File f) p = (p = f)"
| "claims glob (Dir d) p = (p = d \<or> below p d)"
| "claims glob (Glob g) p = glob_match glob g p"
| "claims glob (SharedAppend q) p = (p = q \<or> \<not> is_resolvable_shared_append q)"

text \<open>
  What the table relies on in the matcher: a path that matches a pattern free of
  escapes starts with the text before the pattern's first metacharacter.
\<close>

locale globset_prefix =
  fixes glob :: globset_compiler
  assumes matches_prefix:
    "glob g = Some m \<Longrightarrow> m p \<Longrightarrow> CHR 0x5C \<notin> set g \<Longrightarrow> starts_with p (literal_prefix g)"
begin

lemma common_match_overlap:
  assumes "glob_match glob g p" "glob_match glob h p" "glob g \<noteq> None" "glob h \<noteq> None"
    and "CHR 0x5C \<notin> set g" "CHR 0x5C \<notin> set h"
  shows "globs_overlap g h"
proof -
  from assms have "starts_with p (literal_prefix g)" "starts_with p (literal_prefix h)"
    using matches_prefix by (auto simp: glob_match_def)
  then show ?thesis using starts_with_linear by (auto simp: globs_overlap_def)
qed

end

definition readable_glob :: "globset_compiler \<Rightarrow> resource_key \<Rightarrow> bool" where
  "readable_glob glob k =
     (case k of Glob g \<Rightarrow> glob g \<noteq> None \<and> CHR 0x5C \<notin> set g | _ \<Rightarrow> True)"

fun glob_against_dir :: "resource_key \<Rightarrow> resource_key \<Rightarrow> bool" where
  "glob_against_dir (Glob _) (Dir _) = True"
| "glob_against_dir (Dir _) (Glob _) = True"
| "glob_against_dir _ _ = False"

fun coordinated :: "resource_key \<Rightarrow> resource_key \<Rightarrow> bool" where
  "coordinated (SharedAppend p) (SharedAppend q) =
     (is_resolvable_shared_append p \<and> is_resolvable_shared_append q)"
| "coordinated _ _ = False"

lemma below_or_eq: "(p = d \<or> below p d) \<longleftrightarrow> starts_with (p @ ''/'') (d @ ''/'')"
  by (auto simp: below_def starts_with_prefix prefix_snoc)

lemma below_linear:
  assumes "p = x \<or> below p x" and "p = y \<or> below p y"
  shows "x = y \<or> below x y \<or> below y x"
proof -
  have "starts_with (x @ ''/'') (y @ ''/'') \<or> starts_with (y @ ''/'') (x @ ''/'')"
    using assms starts_with_linear unfolding below_or_eq by blast
  then show ?thesis using below_or_eq [of x y] below_or_eq [of y x] by blast
qed

section \<open>Properties\<close>

text \<open>
  The overlap table is symmetric, whatever the two keys are and however the glob matcher
  behaves, so the conflict graph built from it is an undirected graph.
\<close>

theorem keys_conflict_is_symmetric: "keys_conflict glob a b \<longleftrightarrow> keys_conflict glob b a"
  by (simp add: keys_conflict_def keys_overlap_sym [of glob a b])

text \<open>
  The only exemption is a coordinated append: two writers of the same key always
  conflict, unless the key is a shared append that names one concrete file.
\<close>

theorem only_shared_append_is_exempt:
  "keys_conflict glob k k \<longleftrightarrow> \<not> (\<exists>p. k = SharedAppend p \<and> is_resolvable_shared_append p)"
  by (cases k) (auto simp: keys_conflict_def unreadable_append_def)

text \<open>
  No conflict is missed: if two keys claim a common path then the table reports a
  conflict, unless both are coordinated appends. The matcher is assumed to match only
  paths that start with a pattern's literal text, the patterns compile and hold no
  escapes, and one of the two is not a pattern set against a directory.
\<close>

theorem common_path_means_conflict:
  assumes "globset_prefix glob"
    and "claims glob a p" and "claims glob b p"
    and "readable_glob glob a" and "readable_glob glob b"
    and "\<not> glob_against_dir a b" and "\<not> coordinated a b"
  shows "keys_conflict glob a b"
proof (cases "unreadable_append a \<or> unreadable_append b")
  case False
  have "keys_overlap glob a b"
    using assms(2-) False globset_prefix.common_match_overlap [OF assms(1), of _ p] below_linear
    by (cases a; cases b) (auto simp: unreadable_append_def readable_glob_def)
  with False show ?thesis by (simp add: keys_conflict_def)
qed (auto simp: keys_conflict_def)

end
