(* ===== verification/Forbidden_Paths.thy ===== *)
theory Forbidden_Paths imports Write_Keys begin

text \<open>
  \<^verbatim>\<open>crates/archon-write-plan/src/forbidden_paths.rs\<close>: reading a task's forbidden bullets into
  patterns, matching a path against them, dropping the patterns a declaration covers, and
  listing declared files that are also forbidden. The lemmas give the greedy glob search a
  declarative meaning and show that a dropped pattern names nothing outside what was declared.
\<close>

datatype forb_pattern =
    PFile string
  | PDir string
  | PBasename string
  | PGlob "string list"

section \<open>Reading a candidate\<close>

fun repair_wraps :: "bool \<Rightarrow> string \<Rightarrow> string" where
  "repair_wraps after_slash [] = []"
| "repair_wraps after_slash (ch # cs) =
     (if after_slash \<and> is_ws ch then repair_wraps after_slash cs
      else ch # repair_wraps (ch = CHR ''/'') cs)"

definition is_quote_char :: "char \<Rightarrow> bool" where
  "is_quote_char c \<longleftrightarrow> c \<in> {CHR 0x60, CHR 0x22, CHR 0x27}"

definition is_trailing_char :: "char \<Rightarrow> bool" where
  "is_trailing_char c \<longleftrightarrow>
     is_quote_char c \<or> c \<in> {CHR ''.'', CHR '','', CHR '';'', CHR '':'', CHR '')''}"

definition clean :: "string \<Rightarrow> string" where
  "clean candidate =
     (let word = first_word (repair_wraps False (trim candidate));
          peeled = trim_start_matches is_quote_char (trim_end_matches is_trailing_char word);
          undotted = (case strip_prefix peeled ''./'' of Some r \<Rightarrow> r | None \<Rightarrow> peeled)
      in trim_start_matches (\<lambda>c. c = CHR ''/'') undotted)"

text \<open>\<^verbatim>\<open>text.replace("**", "*")\<close>: left to right, without rescanning.\<close>

fun collapse_stars :: "string \<Rightarrow> string" where
  "collapse_stars [] = []"
| "collapse_stars [c] = [c]"
| "collapse_stars (c # d # cs) =
     (if c = CHR ''*'' \<and> d = CHR ''*'' then CHR ''*'' # collapse_stars cs
      else c # collapse_stars (d # cs))"

definition trim_slashes_end :: "string \<Rightarrow> string" where
  "trim_slashes_end s = trim_end_matches (\<lambda>c. c = CHR ''/'') s"

definition has_star :: "string \<Rightarrow> bool" where
  "has_star s \<longleftrightarrow> CHR ''*'' \<in> set s"

definition has_slash :: "string \<Rightarrow> bool" where
  "has_slash s \<longleftrightarrow> CHR ''/'' \<in> set s"

definition dir_suffix :: "string \<Rightarrow> string option" where
  "dir_suffix text =
     (case strip_suffix text ''/**'' of
        Some d \<Rightarrow> Some d
      | None \<Rightarrow>
          (case strip_suffix text ''/*'' of
             Some d \<Rightarrow> Some d
           | None \<Rightarrow> strip_suffix text ''/''))"

definition parse_pattern :: "string \<Rightarrow> forb_pattern option" where
  "parse_pattern candidate =
     (let text = clean candidate
      in if text = [] \<or> list_all (\<lambda>c. c = CHR ''*'' \<or> c = CHR ''/'') text then None
         else
           (case dir_suffix text of
              Some d \<Rightarrow>
                (let dir = trim_slashes_end d
                 in if dir \<noteq> [] \<and> \<not> has_star dir then Some (PDir dir) else None)
            | None \<Rightarrow>
                (case strip_prefix text ''**/'' of
                   Some name \<Rightarrow>
                     if \<not> has_slash name \<and> \<not> has_star name then Some (PBasename name)
                     else if has_star text
                       then Some (PGlob (split_on CHR ''*'' (collapse_stars text)))
                     else if has_slash text then Some (PFile text)
                     else if CHR ''.'' \<in> set text then Some (PBasename text)
                     else None
                 | None \<Rightarrow>
                     if has_star text then Some (PGlob (split_on CHR ''*'' (collapse_stars text)))
                     else if has_slash text then Some (PFile text)
                     else if CHR ''.'' \<in> set text then Some (PBasename text)
                     else None)))"

section \<open>Matching\<close>

fun glob_scan :: "string list \<Rightarrow> string \<Rightarrow> string \<Rightarrow> bool" where
  "glob_scan [] last_seg remaining = ends_with remaining last_seg"
| "glob_scan (m # ms) last_seg remaining =
     (case find_sub m remaining of
        None \<Rightarrow> False
      | Some found \<Rightarrow> glob_scan ms last_seg (drop (found + length m) remaining))"

definition glob_matches :: "string list \<Rightarrow> string \<Rightarrow> bool" where
  "glob_matches segments path =
     (case segments of
        [] \<Rightarrow> False
      | first # rest \<Rightarrow>
          (case strip_prefix path first of
             None \<Rightarrow> False
           | Some remaining \<Rightarrow>
               if rest = [] then remaining = []
               else glob_scan (butlast rest) (last rest) remaining))"

definition pattern_matches_path :: "forb_pattern \<Rightarrow> string \<Rightarrow> bool" where
  "pattern_matches_path pat path =
     (case pat of
        PFile file \<Rightarrow> path = file
      | PDir dir \<Rightarrow> path = dir \<or>
          (case strip_prefix path dir of Some r \<Rightarrow> starts_with r ''/'' | None \<Rightarrow> False)
      | PBasename name \<Rightarrow> path = name \<or>
          (case strip_suffix path name of Some r \<Rightarrow> ends_with r ''/'' | None \<Rightarrow> False)
      | PGlob segments \<Rightarrow> glob_matches segments path)"

definition nested :: "string \<Rightarrow> string \<Rightarrow> bool" where
  "nested inner outer \<longleftrightarrow> inner = outer \<or>
     (case strip_prefix inner outer of Some rest \<Rightarrow> starts_with rest ''/'' | None \<Rightarrow> False)"

definition pattern_within :: "forb_pattern \<Rightarrow> string \<Rightarrow> bool \<Rightarrow> bool" where
  "pattern_within pat declared dir =
     (case pat of
        PFile file \<Rightarrow> if dir then nested file declared else file = declared
      | PDir d \<Rightarrow> dir \<and> nested d declared
      | PBasename _ \<Rightarrow> False
      | PGlob segments \<Rightarrow> dir \<and>
          (case segments of [] \<Rightarrow> False | pre # _ \<Rightarrow> starts_with pre (declared @ ''/'')))"

definition wire :: "forb_pattern \<Rightarrow> string" where
  "wire pat =
     (case pat of
        PFile file \<Rightarrow> file
      | PDir dir \<Rightarrow> dir @ ''/''
      | PBasename name \<Rightarrow> ''**/'' @ name
      | PGlob segments \<Rightarrow> join_with ''*'' segments)"

section \<open>The matcher of a branch\<close>

type_synonym forbidden_paths = "forb_pattern list"

text \<open>\<^verbatim>\<open>entry.split('`').skip(1).step_by(2)\<close>: the backtick-quoted spans.\<close>

fun every_other :: "'a list \<Rightarrow> 'a list" where
  "every_other [] = []"
| "every_other [x] = [x]"
| "every_other (x # _ # xs) = x # every_other xs"

definition entry_candidates :: "string \<Rightarrow> string list" where
  "entry_candidates entry =
     (let spans = every_other (drop 1 (split_on CHR 0x60 entry))
      in if spans = [] then [entry] else spans)"

definition push_new :: "'a list \<Rightarrow> 'a option \<Rightarrow> 'a list" where
  "push_new xs x = (case x of Some p \<Rightarrow> if p \<in> set xs then xs else xs @ [p] | None \<Rightarrow> xs)"

definition from_entries :: "string list \<Rightarrow> forbidden_paths" where
  "from_entries entries =
     foldl (\<lambda>patterns entry.
              foldl (\<lambda>ps candidate. push_new ps (parse_pattern candidate)) patterns
                (entry_candidates entry))
       [] entries"

definition forbidden_matches :: "forbidden_paths \<Rightarrow> string \<Rightarrow> bool" where
  "forbidden_matches patterns repo_relative =
     (let path = trim repo_relative;
          path = (case strip_prefix path ''./'' of Some r \<Rightarrow> r | None \<Rightarrow> path);
          path = trim_start_matches (\<lambda>c. c = CHR ''/'') path
      in path \<noteq> [] \<and> list_ex (\<lambda>p. pattern_matches_path p path) patterns)"

text \<open>\<^verbatim>\<open>str::trim_end_matches\<close> with a string pattern: the suffix goes as often as it is there.\<close>

function trim_end_text :: "string \<Rightarrow> string \<Rightarrow> string" where
  "trim_end_text p s =
     (if p \<noteq> [] \<and> ends_with s p then trim_end_text p (take (length s - length p) s) else s)"
  by pat_completeness auto
termination
proof (relation "measure (\<lambda>(p, s). length s)")
  fix p s :: string
  assume "p \<noteq> [] \<and> ends_with s p"
  then have "0 < length p" "length p \<le> length s" by (auto simp: ends_with_def)
  then have "length s - length p < length s" by linarith
  then show "((p, take (length s - length p) s), p, s) \<in> measure (\<lambda>(p, s). length s)"
    by (simp del: diff_less)
qed simp

declare trim_end_text.simps [simp del]

definition declared_scope :: "string \<Rightarrow> string \<times> bool" where
  "declared_scope raw =
     (let path = clean raw;
          dir = (ends_with path ''/'' \<or> ends_with path ''/**'')
      in (trim_slashes_end (trim_end_text ''/**'' path), dir))"

definition declared_scopes :: "string list \<Rightarrow> (string \<times> bool) list" where
  "declared_scopes declared = filter (\<lambda>(path, _). path \<noteq> []) (map declared_scope declared)"

definition without_within :: "forbidden_paths \<Rightarrow> string list \<Rightarrow> forbidden_paths" where
  "without_within patterns declared =
     filter (\<lambda>pat. \<not> list_ex (\<lambda>(path, dir). pattern_within pat path dir) (declared_scopes declared))
       patterns"

definition wire_patterns :: "forbidden_paths \<Rightarrow> string list" where
  "wire_patterns patterns = map wire patterns"

section \<open>Declared files that are also forbidden\<close>

text \<open>A bullet longer than 180 characters is cut to 179 and an ellipsis; the ellipsis is
  the constructor.\<close>

datatype bounded_text = Whole string | Elided string

definition bounded_bullet :: "string \<Rightarrow> bounded_text" where
  "bounded_bullet bullet =
     (let compact = join_with '' '' (split_whitespace bullet)
      in if length compact \<le> 180 then Whole compact else Elided (take 179 compact))"

record declaration_conflict =
  conflict_path :: string
  conflict_bullet :: bounded_text

definition declaration_conflicts :: "string list \<Rightarrow> string list \<Rightarrow> declaration_conflict list" where
  "declaration_conflicts declared bullets =
     foldl (\<lambda>conflicts path.
              if path = [] then conflicts
              else foldl (\<lambda>cs bullet.
                     if forbidden_matches (from_entries [bullet]) path
                     then push_new cs
                            (Some \<lparr>conflict_path = path, conflict_bullet = bounded_bullet bullet\<rparr>)
                     else cs)
                   conflicts bullets)
       [] declared"

section \<open>The greedy search finds every match\<close>

text \<open>The meaning of a split pattern: its segments occur in the text in order, the first at
  the start and the last at the end, with arbitrary gaps between them.\<close>

fun segments_in_order :: "string list \<Rightarrow> string \<Rightarrow> bool" where
  "segments_in_order [] s = False"
| "segments_in_order [x] s = (s = x)"
| "segments_in_order (x # y # ys) s = (\<exists>gap r. s = x @ gap @ r \<and> segments_in_order (y # ys) r)"

definition after_gap :: "string list \<Rightarrow> string \<Rightarrow> bool" where
  "after_gap xs s \<longleftrightarrow> (\<exists>gap r. s = gap @ r \<and> segments_in_order xs r)"

lemma after_gap_append: "after_gap xs s \<Longrightarrow> after_gap xs (t @ s)"
  unfolding after_gap_def by (metis append.assoc)

lemma segments_in_order_Cons:
  "xs \<noteq> [] \<Longrightarrow> segments_in_order (x # xs) s \<longleftrightarrow> (\<exists>r. s = x @ r \<and> after_gap xs r)"
  by (cases xs) (auto simp: after_gap_def)

lemma after_gap_Cons:
  "xs \<noteq> [] \<Longrightarrow> after_gap (x # xs) s \<longleftrightarrow> (\<exists>gap r. s = gap @ x @ r \<and> after_gap xs r)"
  unfolding after_gap_def [of "x # xs"] by (simp add: segments_in_order_Cons) blast

lemma glob_scan_iff: "glob_scan ms l s \<longleftrightarrow> after_gap (ms @ [l]) s"
proof (induction ms arbitrary: s)
  case Nil
  then show ?case by (auto simp: after_gap_def ends_with_iff)
next
  case (Cons m ms)
  show ?case
  proof
    assume "glob_scan (m # ms) l s"
    then obtain i where i: "find_sub m s = Some i" "glob_scan ms l (drop (i + length m) s)"
      by (auto split: option.splits)
    from find_sub_Some [OF i(1)] i(2) show "after_gap ((m # ms) @ [l]) s"
      unfolding Cons.IH by (auto simp: after_gap_Cons)
  next
    assume "after_gap ((m # ms) @ [l]) s"
    then obtain gap r where s: "s = gap @ m @ r" "after_gap (ms @ [l]) r"
      by (auto simp: after_gap_Cons)
    from find_sub_le [OF s(1)] obtain i where i: "find_sub m s = Some i" "i \<le> length gap" by blast
    from i(2) s(1) have "drop (i + length m) s = drop (i + length m) (gap @ m) @ r" by simp
    with s(2) have "after_gap (ms @ [l]) (drop (i + length m) s)"
      by (simp only: after_gap_append)
    with i(1) show "glob_scan (m # ms) l s" by (simp add: Cons.IH)
  qed
qed

lemma glob_matches_iff: "glob_matches segments path \<longleftrightarrow> segments_in_order segments path"
proof (cases segments)
  case (Cons f rest)
  show ?thesis
  proof (cases "rest = []")
    case True
    then show ?thesis
      using Cons by (auto simp: glob_matches_def strip_prefix_Some split: option.splits)
        (metis append_Nil2 not_None_eq strip_prefix_Some)
  next
    case False
    have "glob_matches segments path \<longleftrightarrow>
        (\<exists>r. path = f @ r \<and> glob_scan (butlast rest) (last rest) r)"
      using Cons False by (auto simp: glob_matches_def strip_prefix_Some split: option.splits)
        (metis not_None_eq strip_prefix_Some)
    with Cons False show ?thesis by (simp add: glob_scan_iff segments_in_order_Cons)
  qed
qed (simp add: glob_matches_def)

lemma segments_in_order_starts: "segments_in_order (x # xs) s \<Longrightarrow> starts_with s x"
  by (cases xs) auto

section \<open>What a pattern stands for\<close>

lemma nested_iff: "nested inner outer \<longleftrightarrow> inner = outer \<or> below inner outer"
  by (auto simp: nested_def below_def strip_prefix_def starts_with_iff split: option.splits)

lemma pattern_matches_dir: "pattern_matches_path (PDir d) p \<longleftrightarrow> p = d \<or> below p d"
  by (auto simp: pattern_matches_path_def below_def strip_prefix_def starts_with_iff split: option.splits)

lemma pattern_matches_basename:
  "pattern_matches_path (PBasename n) p \<longleftrightarrow> p = n \<or> (\<exists>dir. p = dir @ ''/'' @ n)"
  by (auto simp: pattern_matches_path_def strip_suffix_def ends_with_iff split: option.splits)

lemma below_trans: "below a b \<Longrightarrow> below b c \<Longrightarrow> below a c"
  by (auto simp: below_def starts_with_iff)

lemma pattern_within_sound:
  "pattern_within pat declared dir \<Longrightarrow> pattern_matches_path pat p \<Longrightarrow>
     p = declared \<or> (dir \<and> below p declared)"
proof (cases pat)
  case (PDir d)
  moreover assume "pattern_within pat declared dir" "pattern_matches_path pat p"
  ultimately show ?thesis
    using below_trans by (auto simp: pattern_within_def nested_iff pattern_matches_dir)
next
  case (PGlob segments)
  moreover assume "pattern_within pat declared dir" "pattern_matches_path pat p"
  ultimately obtain x xs where "dir" "segments = x # xs" "starts_with x (declared @ ''/'')"
      "segments_in_order (x # xs) p"
    by (auto simp: pattern_within_def pattern_matches_path_def glob_matches_iff split: list.splits)
  then show ?thesis
    using segments_in_order_starts starts_with_trans unfolding below_def by blast
qed (auto simp: pattern_within_def pattern_matches_path_def nested_iff split: if_splits)

section \<open>The star matcher as the overlap table's matcher\<close>

text \<open>The module's own matcher satisfies what the overlap table relies on.\<close>

definition star_matcher :: globset_compiler where
  "star_matcher g = Some (glob_matches (split_on CHR ''*'' (collapse_stars g)))"

lemma split_by_head: "\<exists>ps. split_by P s = takeWhile (\<lambda>c. \<not> P c) s # ps"
  by (induction s) (auto split: list.splits)

lemma takeWhile_collapse:
  "takeWhile (\<lambda>c. c \<noteq> CHR ''*'') (collapse_stars g) = takeWhile (\<lambda>c. c \<noteq> CHR ''*'') g"
  by (induction g rule: collapse_stars.induct) auto

lemma literal_prefix_starts: "starts_with (takeWhile (\<lambda>c. c \<noteq> CHR ''*'') g) (literal_prefix g)"
  by (induction g) (auto simp: literal_prefix_def is_glob_meta_def starts_with_prefix)

interpretation star: globset_prefix star_matcher
proof
  fix g m p
  assume "star_matcher g = Some m" "m p" "CHR 0x5C \<notin> set g"
  then have "segments_in_order (split_on CHR ''*'' (collapse_stars g)) p"
    by (auto simp: star_matcher_def glob_matches_iff)
  moreover obtain ps where
    "split_on CHR ''*'' (collapse_stars g) = takeWhile (\<lambda>c. c \<noteq> CHR ''*'') g # ps"
    using split_by_head [of "\<lambda>c. c = CHR ''*''" "collapse_stars g"]
    by (auto simp: split_on_def takeWhile_collapse)
  ultimately have "starts_with p (takeWhile (\<lambda>c. c \<noteq> CHR ''*'') g)"
    using segments_in_order_starts by simp
  with literal_prefix_starts show "starts_with p (literal_prefix g)" by (blast intro: starts_with_trans)
qed

theorem common_path_means_conflict_witness:
  "keys_conflict star_matcher (Dir ''src'') (File ''src/a.rs'')"
  by (rule common_path_means_conflict [of _ _ "''src/a.rs''"])
    (simp_all add: star.globset_prefix_axioms readable_glob_def below_def starts_with_def)

text \<open>A pattern set against a directory is tested on the text of the directory followed by
  a star, so a pattern that claims a file below the directory need not be seen.\<close>

lemma glob_against_dir_is_missed:
  "claims star_matcher (Glob ''src/*.rs'') ''src/a.rs''" "claims star_matcher (Dir ''src'') ''src/a.rs''"
  "\<not> keys_conflict star_matcher (Glob ''src/*.rs'') (Dir ''src'')"
  by code_simp+

section \<open>Folding over entries\<close>

lemma set_push_new: "set (push_new xs x) = set xs \<union> set_option x"
  by (auto simp: push_new_def split: option.splits)

lemma distinct_push_new: "distinct (push_new xs x) = distinct xs"
  by (auto simp: push_new_def split: option.splits)

lemma set_fold_push:
  "set (foldl (\<lambda>ps x. push_new ps (f x)) xs ys) = set xs \<union> (\<Union>y\<in>set ys. set_option (f y))"
  by (induction ys arbitrary: xs) (auto simp: set_push_new)

lemma set_from_entries:
  "set (from_entries entries) =
     {p. \<exists>e\<in>set entries. \<exists>c\<in>set (entry_candidates e). parse_pattern c = Some p}"
proof -
  have "set (foldl (\<lambda>patterns entry.
           foldl (\<lambda>ps c. push_new ps (parse_pattern c)) patterns (entry_candidates entry)) ps es)
        = set ps \<union> {p. \<exists>e\<in>set es. \<exists>c\<in>set (entry_candidates e). parse_pattern c = Some p}" for ps es
    by (induction es arbitrary: ps) (auto simp: set_fold_push)
  then show ?thesis by (simp add: from_entries_def)
qed

definition normal_form :: "string \<Rightarrow> string" where
  "normal_form repo_relative =
     (let path = trim repo_relative;
          path = (case strip_prefix path ''./'' of Some r \<Rightarrow> r | None \<Rightarrow> path)
      in trim_start_matches (\<lambda>c. c = CHR ''/'') path)"

lemma forbidden_matches_iff:
  "forbidden_matches patterns p \<longleftrightarrow>
     normal_form p \<noteq> [] \<and> (\<exists>pat\<in>set patterns. pattern_matches_path pat (normal_form p))"
  by (auto simp: forbidden_matches_def normal_form_def Let_def list_ex_iff)

lemma conflicts_of_path:
  "set (foldl (\<lambda>cs bullet. if P bullet then push_new cs (Some (f bullet)) else cs) conflicts bullets)
     = set conflicts \<union> f ` {b \<in> set bullets. P b}"
  "distinct (foldl (\<lambda>cs bullet. if P bullet then push_new cs (Some (f bullet)) else cs) conflicts bullets)
     = distinct conflicts"
  by (induction bullets arbitrary: conflicts) (auto simp: set_push_new distinct_push_new)

section \<open>Properties\<close>

text \<open>
  C31. The greedy search of a wildcard pattern is exact: it accepts a path if and only if the
  path is the pattern's segments in order with arbitrary text, separators included, for
  each star. Taking the first occurrence of each middle segment never loses a match.
\<close>

theorem glob_search_is_exact: "glob_matches segments path \<longleftrightarrow> segments_in_order segments path"
  by (rule glob_matches_iff)

text \<open>
  Removing the patterns inside a declaration frees only declared paths: a path that was
  forbidden and no longer is equals a declared path or lies under a declared directory.
\<close>

theorem without_within_frees_only_declared:
  assumes "forbidden_matches patterns p" and "\<not> forbidden_matches (without_within patterns declared) p"
  shows "\<exists>(path, dir)\<in>set (declared_scopes declared).
           normal_form p = path \<or> (dir \<and> below (normal_form p) path)"
proof -
  from assms obtain pat where pat: "pat \<in> set patterns" "pattern_matches_path pat (normal_form p)"
      "pat \<notin> set (without_within patterns declared)"
    by (auto simp: forbidden_matches_iff)
  then obtain path dir where "(path, dir) \<in> set (declared_scopes declared)" "pattern_within pat path dir"
    by (auto simp: without_within_def list_ex_iff)
  with pattern_within_sound [OF this(2) pat(2)] show ?thesis by blast
qed

theorem without_within_frees_only_declared_witness:
  "\<exists>(path, dir)\<in>set (declared_scopes [''a/'']).
     normal_form ''a/b'' = path \<or> (dir \<and> below (normal_form ''a/b'') path)"
  by (rule without_within_frees_only_declared [of "[PFile ''a/b'']"]) code_simp+

text \<open>
  The declaration check reports, without repetition, exactly the pairs of a non-empty
  declared path and a bullet one of whose own patterns forbids it.
\<close>

theorem declaration_conflicts_are_exact:
  "distinct (declaration_conflicts declared bullets) \<and>
   set (declaration_conflicts declared bullets) =
     {\<lparr>conflict_path = path, conflict_bullet = bounded_bullet bullet\<rparr> | path bullet.
        path \<in> set declared \<and> path \<noteq> [] \<and> bullet \<in> set bullets \<and> normal_form path \<noteq> [] \<and>
        (\<exists>c\<in>set (entry_candidates bullet). \<exists>pat. parse_pattern c = Some pat \<and>
           pattern_matches_path pat (normal_form path))}"
proof -
  let ?step = "\<lambda>conflicts path. if path = [] then conflicts
      else foldl (\<lambda>cs bullet. if forbidden_matches (from_entries [bullet]) path
             then push_new cs (Some \<lparr>conflict_path = path, conflict_bullet = bounded_bullet bullet\<rparr>)
             else cs) conflicts bullets"
  have "set (foldl ?step cs ds) = set cs \<union>
      {\<lparr>conflict_path = path, conflict_bullet = bounded_bullet bullet\<rparr> | path bullet.
        path \<in> set ds \<and> path \<noteq> [] \<and> bullet \<in> set bullets \<and>
        forbidden_matches (from_entries [bullet]) path}"
    and "distinct (foldl ?step cs ds) = distinct cs" for cs ds
    by (induction ds arbitrary: cs) (auto simp: conflicts_of_path)
  from this(1) [of "[]" declared] this(2) [of "[]" declared] show ?thesis
    by (auto simp: declaration_conflicts_def forbidden_matches_iff set_from_entries)
qed

end
