(* ===== verification/Declared_Paths.thy ===== *)
theory Declared_Paths imports Forbidden_Paths Rust_Path begin

text \<open>
  \<^verbatim>\<open>crates/archon-write-plan/src/declared_paths.rs\<close>, \<^verbatim>\<open>lexical_path.rs\<close>,
  \<^verbatim>\<open>host_internal.rs\<close> and \<^verbatim>\<open>read_only_tools.rs\<close>: reading the declared path of a bullet,
  normalising it against the repository root, the host's own bookkeeping names, and the
  read-only tool vocabulary. Paths are those of a Unix target.
\<close>

section \<open>Bullets\<close>

fun find_map :: "('a \<Rightarrow> 'b option) \<Rightarrow> 'a list \<Rightarrow> 'b option" where
  "find_map f [] = None"
| "find_map f (x # xs) = (case f x of Some y \<Rightarrow> Some y | None \<Rightarrow> find_map f xs)"

definition markdown_bullet_item :: "string \<Rightarrow> string option" where
  "markdown_bullet_item trimmed =
     map_option trim (find_map (\<lambda>marker. strip_prefix trimmed marker) [''- '', ''* '', ''+ ''])"

definition strip_list_marker :: "string \<Rightarrow> string" where
  "strip_list_marker bullet =
     (let b = trim bullet
      in trim_start (case find_map (\<lambda>marker. strip_prefix b marker) [''-'', ''*'', ''+''] of
           Some r \<Rightarrow> r | None \<Rightarrow> b))"

definition looks_like_path :: "string \<Rightarrow> bool" where
  "looks_like_path path =
     (if path = [] \<or> list_ex is_ws path then False
      else if CHR ''/'' \<in> set path then True
      else (case rsplit_once CHR ''.'' path of
              None \<Rightarrow> False
            | Some (stem, extension) \<Rightarrow>
                stem \<noteq> [] \<and> 1 \<le> utf8_len extension \<and> utf8_len extension \<le> 4
                \<and> list_all is_ascii_alnum extension))"

definition strip_trailing_sentence_punctuation :: "string \<Rightarrow> string" where
  "strip_trailing_sentence_punctuation candidate =
     trim_end_matches (\<lambda>c. c \<in> {CHR '','', CHR '';'', CHR '':'', CHR '')''}) candidate"

definition opening_path :: "string \<Rightarrow> string option" where
  "opening_path bullet =
     (case (case strip_prefix bullet [CHR 0x60] of
              Some tail \<Rightarrow> map_option fst (split_once CHR 0x60 tail)
            | None \<Rightarrow> (case split_whitespace bullet of [] \<Rightarrow> None | w # _ \<Rightarrow> Some w)) of
        None \<Rightarrow> None
      | Some candidate \<Rightarrow>
          if list_ex is_ws candidate then None
          else
            let c = unify_separators (strip_trailing_sentence_punctuation candidate)
            in if c = [] \<or> \<not> looks_like_path c then None else Some c)"

definition declared_file_paths :: "string \<Rightarrow> string list" where
  "declared_file_paths raw =
     (let bullet = strip_list_marker raw
      in case opening_path bullet of
           Some subject \<Rightarrow> [subject]
         | None \<Rightarrow>
             (case split_once CHR '':'' bullet of
                None \<Rightarrow> []
              | Some (label, rest) \<Rightarrow>
                  let label_words = length (split_whitespace label)
                  in if label_words = 0 \<or> label_words > 6 then []
                     else filter looks_like_path
                            (map unify_separators (every_other (drop 1 (split_on CHR 0x60 rest))))))"

definition declared_file_subject :: "string \<Rightarrow> string option" where
  "declared_file_subject bullet = opening_path (strip_list_marker bullet)"

section \<open>Spelling and normalisation\<close>

text \<open>\<^verbatim>\<open>normalized_path_spelling\<close> and \<^verbatim>\<open>lexical_path::portable\<close> are the same text function on
  a Unix target.\<close>

definition portable :: "string \<Rightarrow> string" where
  "portable raw =
     (let path = unify_separators raw
      in case strip_prefix path ''//?/UNC/'' of
           Some rest \<Rightarrow> ''//'' @ rest
         | None \<Rightarrow> (case strip_prefix path ''//?/'' of Some rest \<Rightarrow> rest | None \<Rightarrow> path))"

definition normalized_path_spelling :: "string \<Rightarrow> string" where
  "normalized_path_spelling path = portable path"

fun normal_names :: "component list \<Rightarrow> string list option" where
  "normal_names [] = Some []"
| "normal_names (CurDir # cs) = normal_names cs"
| "normal_names (Normal part # cs) = map_option (\<lambda>ps. part # ps) (normal_names cs)"
| "normal_names (ParentDir # cs) = None"
| "normal_names (RootDir # cs) = None"

definition normalize_declared_path :: "string \<Rightarrow> string \<Rightarrow> string option" where
  "normalize_declared_path raw repository_root =
     (let candidate = trim_matches is_quote_char raw
      in if candidate = [] \<or> list_ex is_ws candidate then None
         else
           let candidate = normalized_path_spelling candidate;
               root = normalized_path_spelling repository_root
           in case (if has_root candidate
                    then comps_strip_prefix (components candidate) (components root)
                    else Some (components candidate)) of
                None \<Rightarrow> None
              | Some rel \<Rightarrow>
                  (case normal_names rel of
                     None \<Rightarrow> None
                   | Some names \<Rightarrow>
                       let normalized = join_with ''/'' names
                       in if normalized = [] then None else Some normalized))"

definition rooted :: "string \<Rightarrow> bool" where
  "rooted path \<longleftrightarrow>
     (case path of [] \<Rightarrow> False | c # _ \<Rightarrow> c = CHR ''/'' \<or> c = CHR 0x5C)
     \<or> (case path of a # b # _ \<Rightarrow> is_ascii_alpha a \<and> b = CHR '':'' | _ \<Rightarrow> False)"

definition under_root :: "string \<Rightarrow> string \<Rightarrow> string option" where
  "under_root path root =
     Option.bind (strip_prefix (portable path) (trim_slashes_end (portable root)))
       (\<lambda>rest. strip_prefix rest ''/'')"

section \<open>Bookkeeping names and read-only tools\<close>

definition HOST_INTERNAL_ARTIFACT_NAMES :: "string list" where
  "HOST_INTERNAL_ARTIFACT_NAMES = [''patch_manifest.json'', ''gate-envelope.json'']"

definition is_read_set_file_name :: "string \<Rightarrow> bool" where
  "is_read_set_file_name name =
     (case strip_suffix name ''.jsonl'' of
        None \<Rightarrow> False
      | Some stem \<Rightarrow> utf8_len stem = 64 \<and> list_all is_ascii_hexdigit stem)"

definition is_host_internal_artifact_path :: "string \<Rightarrow> bool" where
  "is_host_internal_artifact_path path =
     (let name = last (split_by (\<lambda>c. c = CHR ''/'' \<or> c = CHR 0x5C) path)
      in name \<in> set HOST_INTERNAL_ARTIFACT_NAMES \<or> is_read_set_file_name name)"

definition READ_ONLY_TOOLS :: "string list" where
  "READ_ONLY_TOOLS =
     [''Read'', ''Grep'', ''Glob'', ''WebSearch'', ''WebFetch'', ''DocList'', ''DocGet'',
      ''DocStatus'', ''DocSearch'', ''DocAnswer'', ''DocProvenance'', ''DocInspect'',
      ''DocModelStatus'', ''memory_recall'', ''LeannSearch'', ''LeannFindSimilar'', ''lsp'',
      ''CartographerScan'', ''ToolSearch'', ''AgentCatalog'']"

definition is_read_only_tool :: "string \<Rightarrow> bool" where
  "is_read_only_tool name \<longleftrightarrow> name \<in> set READ_ONLY_TOOLS"

section \<open>A declared path stays under the root\<close>

lemma normal_names_Some:
  "normal_names cs = Some ns \<Longrightarrow>
     filter (\<lambda>c. c \<noteq> CurDir) cs = map Normal ns"
  by (induction cs arbitrary: ns rule: normal_names.induct) auto

text \<open>
  A declared path that normalises is a non-empty path of plain names (no root, no
  \<^verbatim>\<open>..\<close>, no \<^verbatim>\<open>.\<close>), and joined to the repository root it is the declared file: an absolute
  declaration is the root followed by it, component by component, and a relative one is
  itself once its leading \<^verbatim>\<open>.\<close> is dropped.
\<close>

theorem declared_path_is_inside_the_root:
  assumes "normalize_declared_path raw root = Some p"
  shows "\<exists>names. names \<noteq> [] \<and> components p = map Normal names \<and>
    (let candidate = normalized_path_spelling (trim_matches is_quote_char raw)
     in if has_root candidate
        then \<exists>rel. components candidate = components (normalized_path_spelling root) @ rel
               \<and> filter (\<lambda>c. c \<noteq> CurDir) rel = components p
        else filter (\<lambda>c. c \<noteq> CurDir) (components candidate) = components p)"
proof -
  let ?cand = "normalized_path_spelling (trim_matches is_quote_char raw)"
  let ?root = "normalized_path_spelling root"
  from assms obtain rel names where
    rel: "(if has_root ?cand then comps_strip_prefix (components ?cand) (components ?root)
           else Some (components ?cand)) = Some rel"
    and names: "normal_names rel = Some names" and p: "p = join_with ''/'' names" "p \<noteq> []"
    by (auto simp: normalize_declared_path_def Let_def split: if_splits option.splits)
  have sub: "set rel \<subseteq> set (components ?cand)"
    using rel by (auto simp: comps_strip_prefix_Some split: if_splits)
  have f: "filter (\<lambda>c. c \<noteq> CurDir) rel = map Normal names" using names by (rule normal_names_Some)
  have "good_name n" if "n \<in> set names" for n
  proof -
    have "Normal n \<in> set (filter (\<lambda>c. c \<noteq> CurDir) rel)" using that f by simp
    with sub have "Normal n \<in> set (components ?cand)" by auto
    then show ?thesis by (rule components_good_names)
  qed
  then have c: "components p = map Normal names" unfolding p(1) by (intro components_join_good) blast
  have "names \<noteq> []" using p by auto
  with c f rel show ?thesis
    by (intro exI [of _ names]) (auto simp: Let_def comps_strip_prefix_Some split: if_splits)
qed

theorem declared_path_is_inside_the_root_witness:
  "normalize_declared_path ''/r/src/a.rs'' ''/r'' = Some ''src/a.rs'' \<and>
   (\<exists>names. names \<noteq> [] \<and> components ''src/a.rs'' = map Normal names)"
proof -
  have *: "normalize_declared_path ''/r/src/a.rs'' ''/r'' = Some ''src/a.rs''" by code_simp
  with declared_path_is_inside_the_root [OF this] show ?thesis by blast
qed

end
