(* ===== verification/Write_Paths.thy ===== *)
theory Write_Paths imports Write_Keys Rust_Path begin

text \<open>
  Target normalisation and resource-key construction of
  \<^verbatim>\<open>crates/archon-write-plan/src/write_plan.rs\<close> and \<^verbatim>\<open>shared_append.rs\<close>. The filesystem is the
  record \<open>file_system\<close> of the calls the code makes, an item payload is read through the
  record \<open>json_reader\<close> of the accessors the code uses, and paths are component lists. The
  lemmas show that a normalised target stays under the root and passes no symlink.
\<close>

record file_system =
  fs_canonicalize :: "component list \<Rightarrow> component list option"
  fs_is_symlink :: "component list \<Rightarrow> bool"
  fs_read_link :: "component list \<Rightarrow> string option"
  fs_exists :: "component list \<Rightarrow> bool"

datatype write_plan_error =
    InvalidTargetPath string
  | MissingTargets
  | TraversalEscape string
  | AbsoluteEscape string
  | SymlinkEscape string
  | EmptySegment string
  | MalformedGlob string
  | InvalidBaselineId string
  | Io

datatype target_files_source = FromItem | FromItemExpected | FromStageLevel

type_synonym normalized_path = string

section \<open>Resolving a path\<close>

definition MAX_SYMLINK_DEPTH :: nat where
  "MAX_SYMLINK_DEPTH = 40"

text \<open>A path in an error message is its text where the code holds the text, and otherwise
  rendered from its components.\<close>

text \<open>The loop of \<^verbatim>\<open>resolve_abs\<close>: \<open>left\<close> is how many more symlinks may be followed on this
  chain, \<open>acc\<close> the path resolved so far.\<close>

fun resolve_walk ::
    "file_system \<Rightarrow> nat \<Rightarrow> component list \<Rightarrow> component list \<Rightarrow> write_plan_error + component list" where
  "resolve_walk fs left [] acc = Inr acc"
| "resolve_walk fs left (CurDir # cs) acc = resolve_walk fs left cs acc"
| "resolve_walk fs left (ParentDir # cs) acc = resolve_walk fs left cs (comps_pop acc)"
| "resolve_walk fs left (RootDir # cs) acc = resolve_walk fs left cs [RootDir]"
| "resolve_walk fs left (Normal seg # cs) acc =
     (let next = acc @ [Normal seg]
      in if fs_is_symlink fs next
         then (case fs_read_link fs next of
                 None \<Rightarrow> Inl Io
               | Some target \<Rightarrow>
                   (let candidate = comps_join acc (components target)
                    in case left of
                         0 \<Rightarrow> Inl (SymlinkEscape (render candidate))
                       | Suc l \<Rightarrow>
                           (case resolve_walk fs l candidate [] of
                              Inl e \<Rightarrow> Inl e
                            | Inr acc' \<Rightarrow> resolve_walk fs left cs acc')))
         else resolve_walk fs left cs next)"

definition resolve_abs :: "file_system \<Rightarrow> component list \<Rightarrow> write_plan_error + component list" where
  "resolve_abs fs path = resolve_walk fs MAX_SYMLINK_DEPTH path []"

definition realpath_within ::
    "file_system \<Rightarrow> component list \<Rightarrow> string \<Rightarrow> component list \<Rightarrow> write_plan_error + component list" where
  "realpath_within fs canonical_root rel_text rel =
     (if list_ex (\<lambda>c. \<not> is_normal c) rel then Inl (InvalidTargetPath rel_text)
      else
        let root = (case fs_canonicalize fs canonical_root of Some r \<Rightarrow> r | None \<Rightarrow> canonical_root)
        in case resolve_abs fs (comps_join root rel) of
             Inl e \<Rightarrow> Inl e
           | Inr resolved \<Rightarrow>
               (case comps_strip_prefix resolved root of
                  None \<Rightarrow> Inl (SymlinkEscape (render resolved))
                | Some final_rel \<Rightarrow> Inr final_rel))"

definition escape_nul :: "string \<Rightarrow> string" where
  "escape_nul raw = concat (map (\<lambda>c. if c = CHR 0x00 then [CHR 0x5C, CHR ''0''] else [c]) raw)"

definition normalize_target ::
    "file_system \<Rightarrow> string \<Rightarrow> string \<Rightarrow> write_plan_error + normalized_path" where
  "normalize_target fs raw canonical_root =
     (if raw = [] \<or> CHR 0x00 \<in> set raw then Inl (InvalidTargetPath (escape_nul raw))
      else
        let unified = unify_separators raw
        in if list_ex (\<lambda>seg. seg = ''..'') (split_on CHR ''/'' unified) then Inl (TraversalEscape unified)
           else if contains_sub unified ''//'' \<or> ends_with unified ''/'' then Inl (EmptySegment unified)
           else
             (case (if has_root unified
                    then (case comps_strip_prefix (components unified) (components canonical_root) of
                            Some rel \<Rightarrow> Inr (render rel, rel)
                          | None \<Rightarrow> Inl (AbsoluteEscape unified))
                    else Inr (unified, components unified)) of
                Inl e \<Rightarrow> Inl e
              | Inr (rel_text, rel) \<Rightarrow>
                  (case realpath_within fs (components canonical_root) rel_text rel of
                     Inl e \<Rightarrow> Inl e
                   | Inr real \<Rightarrow> Inr (unify_separators (render real)))))"

section \<open>Where an item's targets come from\<close>

text \<open>The accessors of \<^verbatim>\<open>serde_json::Value\<close> the code calls.\<close>

record 'v json_reader =
  json_get :: "'v \<Rightarrow> string \<Rightarrow> 'v option"
  json_as_array :: "'v \<Rightarrow> 'v list option"
  json_as_str :: "'v \<Rightarrow> string option"
  json_is_null :: "'v \<Rightarrow> bool"

fun target_files_at ::
    "'v json_reader \<Rightarrow> 'v \<Rightarrow> (string \<times> target_files_source) list \<Rightarrow> string list
      \<Rightarrow> write_plan_error + string list \<times> target_files_source" where
  "target_files_at js payload [] stage_expected =
     (if stage_expected \<noteq> [] then Inr (stage_expected, FromStageLevel) else Inl MissingTargets)"
| "target_files_at js payload ((key, source) # rest) stage_expected =
     (case Option.bind (json_get js payload key) (json_as_array js) of
        None \<Rightarrow> target_files_at js payload rest stage_expected
      | Some arr \<Rightarrow>
          if arr = [] then target_files_at js payload rest stage_expected
          else
            let files = List.map_filter (json_as_str js) arr
            in if files = []
               then Inl (InvalidTargetPath
                      (''item '' @ [CHR 0x60] @ key @ [CHR 0x60] @ '' contains no string entries''))
               else Inr (files, source))"

definition resolve_target_files ::
    "'v json_reader \<Rightarrow> 'v \<Rightarrow> string list \<Rightarrow> write_plan_error + string list \<times> target_files_source" where
  "resolve_target_files js item_payload stage_expected =
     target_files_at js item_payload
       [(''target_files'', FromItem), (''expected_target_files'', FromItemExpected)] stage_expected"

definition SHARED_APPEND_TARGETS_KEY :: string where
  "SHARED_APPEND_TARGETS_KEY = ''shared_append_target_files''"

fun all_strings :: "'v json_reader \<Rightarrow> 'v list \<Rightarrow> string list option" where
  "all_strings js [] = Some []"
| "all_strings js (e # es) =
     (case json_as_str js e of
        None \<Rightarrow> None
      | Some s \<Rightarrow> map_option (\<lambda>rest. s # rest) (all_strings js es))"

definition resolve_shared_append_targets ::
    "'v json_reader \<Rightarrow> 'v \<Rightarrow> write_plan_error + string list" where
  "resolve_shared_append_targets js item_payload =
     (case json_get js item_payload SHARED_APPEND_TARGETS_KEY of
        None \<Rightarrow> Inr []
      | Some value \<Rightarrow>
          if json_is_null js value then Inr []
          else
            (case json_as_array js value of
               None \<Rightarrow> Inl (InvalidTargetPath
                 (''item '' @ [CHR 0x60] @ SHARED_APPEND_TARGETS_KEY @ [CHR 0x60] @ '' is not an array''))
             | Some entries \<Rightarrow>
                 (case all_strings js entries of
                    None \<Rightarrow> Inl (InvalidTargetPath
                      (''item '' @ [CHR 0x60] @ SHARED_APPEND_TARGETS_KEY @ [CHR 0x60]
                        @ '' contains a non-string entry''))
                  | Some paths \<Rightarrow> Inr paths)))"

section \<open>Resource keys of an item\<close>

definition key_string :: "string \<Rightarrow> normalized_path \<Rightarrow> string" where
  "key_string os p = fold_case_for_os os p"

text \<open>The ancestors of a target, outermost first: the prefixes of its parent's components.\<close>

definition ancestors :: "normalized_path \<Rightarrow> component list list" where
  "ancestors target =
     (let cs = components target
      in map (\<lambda>n. take n cs) [1..<length cs])"

definition created_dir_keys ::
    "file_system \<Rightarrow> string \<Rightarrow> component list \<Rightarrow> normalized_path \<Rightarrow> resource_key list" where
  "created_dir_keys fs os canonical_root target =
     map (\<lambda>a. Dir (fold_case_for_os os (unify_separators (render a))))
       (filter (\<lambda>a. \<not> fs_exists fs (comps_join canonical_root a)) (ancestors target))"

definition resource_keys_for_targets ::
    "file_system \<Rightarrow> globset_compiler \<Rightarrow> string \<Rightarrow> normalized_path list \<Rightarrow> component list \<Rightarrow> string list
      \<Rightarrow> write_plan_error + resource_key list" where
  "resource_keys_for_targets fs glob os targets canonical_root declared_globs =
     (case find (\<lambda>g. glob g = None) declared_globs of
        Some g \<Rightarrow> Inl (MalformedGlob g)
      | None \<Rightarrow>
          Inr (btree_list
            (concat (map (\<lambda>t. File (key_string os t) # created_dir_keys fs os canonical_root t) targets)
             @ map (\<lambda>g. Glob (fold_case_for_os os g)) declared_globs)))"

definition shared_append_key :: "string \<Rightarrow> normalized_path \<Rightarrow> resource_key" where
  "shared_append_key os target = SharedAppend (key_string os target)"

definition resource_keys_for_targets_with_shared_append ::
    "file_system \<Rightarrow> globset_compiler \<Rightarrow> string \<Rightarrow> normalized_path list \<Rightarrow> component list \<Rightarrow> string list
      \<Rightarrow> normalized_path list \<Rightarrow> write_plan_error + resource_key list" where
  "resource_keys_for_targets_with_shared_append fs glob os targets canonical_root declared_globs shared =
     (if shared = [] then resource_keys_for_targets fs glob os targets canonical_root declared_globs
      else
        let shared_keys = btree_list (map (key_string os) shared);
            exclusive = filter (\<lambda>t. key_string os t \<notin> set shared_keys) targets
        in case resource_keys_for_targets fs glob os exclusive canonical_root declared_globs of
             Inl e \<Rightarrow> Inl e
           | Inr keys \<Rightarrow> Inr (btree_list (keys @ map SharedAppend shared_keys)))"

definition parse_baseline_id :: "string \<Rightarrow> write_plan_error + string" where
  "parse_baseline_id raw =
     (if starts_with raw ''blake3:'' \<or> starts_with raw ''git:'' then Inr raw
      else Inl (InvalidBaselineId raw))"

section \<open>A resolved path passes no symlink\<close>

definition settled :: "file_system \<Rightarrow> component list \<Rightarrow> bool" where
  "settled fs acc \<longleftrightarrow>
     (\<forall>n < length acc. (is_normal (acc ! n) \<and> \<not> fs_is_symlink fs (take (Suc n) acc))
        \<or> (acc ! n = RootDir \<and> n = 0))"

lemma settled_Nil [simp]: "settled fs []"
  by (simp add: settled_def)

lemma settled_root [simp]: "settled fs [RootDir]"
  by (simp add: settled_def)

lemma settled_snoc:
  "settled fs acc \<Longrightarrow> \<not> fs_is_symlink fs (acc @ [Normal s]) \<Longrightarrow> settled fs (acc @ [Normal s])"
  by (auto simp: settled_def nth_append less_Suc_eq)

lemma settled_pop: "settled fs acc \<Longrightarrow> settled fs (comps_pop acc)"
  by (auto simp: settled_def comps_pop_def nth_butlast take_butlast)

lemma resolve_walk_settled:
  "resolve_walk fs left cs acc = Inr r \<Longrightarrow> settled fs acc \<Longrightarrow> settled fs r"
proof (induction fs left cs acc arbitrary: r rule: resolve_walk.induct)
  case (5 fs left seg cs acc)
  show ?case
  proof (cases "fs_is_symlink fs (acc @ [Normal seg])")
    case True
    with "5.prems" obtain target l acc' where
      "fs_read_link fs (acc @ [Normal seg]) = Some target" "left = Suc l"
      "resolve_walk fs l (comps_join acc (components target)) [] = Inr acc'"
      "resolve_walk fs left cs acc' = Inr r"
      by (auto simp: Let_def split: option.splits nat.splits sum.splits)
    with True "5.IH"(1,2) show ?thesis by simp
  next
    case False
    with 5 show ?thesis by (simp add: settled_snoc)
  qed
qed (simp_all add: settled_pop)

lemma settled_suffix:
  "settled fs (base @ rel) \<Longrightarrow> base \<noteq> [] \<Longrightarrow>
     list_all is_normal rel \<and> (\<forall>n \<le> length rel. 0 < n \<longrightarrow> \<not> fs_is_symlink fs (base @ take n rel))"
proof -
  assume s: "settled fs (base @ rel)" and ne: "base \<noteq> []"
  have *: "is_normal (rel ! k) \<and> \<not> fs_is_symlink fs (base @ take (Suc k) rel)" if "k < length rel" for k
    using s [unfolded settled_def, rule_format, of "length base + k"] that ne by simp
  have "\<not> fs_is_symlink fs (base @ take n rel)" if "n \<le> length rel" "0 < n" for n
    using * [of "n - 1"] that by simp
  with * show ?thesis by (auto simp: list_all_length)
qed

definition real_root :: "file_system \<Rightarrow> string \<Rightarrow> component list" where
  "real_root fs canonical_root =
     (case fs_canonicalize fs (components canonical_root) of
        Some r \<Rightarrow> r | None \<Rightarrow> components canonical_root)"

lemma realpath_within_Inr:
  assumes "realpath_within fs (components root) tx rel = Inr real" and "real_root fs root \<noteq> []"
  shows "list_all is_normal real" and "settled fs (real_root fs root @ real)"
    and "list_all is_normal rel"
proof -
  from assms have "resolve_abs fs (comps_join (real_root fs root) rel) = Inr (real_root fs root @ real)"
    and "list_all is_normal rel"
    by (auto simp: realpath_within_def Let_def real_root_def comps_strip_prefix_Some list_all_iff
        list_ex_iff split: if_splits sum.splits option.splits)
  then show *: "settled fs (real_root fs root @ real)" and "list_all is_normal rel"
    using resolve_walk_settled by (simp_all add: resolve_abs_def)
  from settled_suffix [OF *] assms(2) show "list_all is_normal real" by simp
qed

section \<open>Properties\<close>


definition example_fs :: file_system where
  "example_fs = \<lparr>fs_canonicalize = Some,
     fs_is_symlink = (\<lambda>p. p = [RootDir, Normal ''r'', Normal ''l'']),
     fs_read_link = (\<lambda>p. if p = [RootDir, Normal ''r'', Normal ''l''] then Some ''d'' else None),
     fs_exists = (\<lambda>_. True)\<rparr>"


lemma resource_keys_Inr:
  assumes "resource_keys_for_targets fs glob os targets root globs = Inr keys"
  shows "set keys = (\<lambda>t. File (key_string os t)) ` set targets
      \<union> (\<Union>t\<in>set targets. set (created_dir_keys fs os root t)) \<union> (\<lambda>g. Glob (fold_case_for_os os g)) ` set globs"
    and "sorted keys" and "distinct keys" and "\<forall>g\<in>set globs. glob g \<noteq> None"
  using assms
  by (auto simp: resource_keys_for_targets_def find_None_iff split: option.splits)

lemma created_dir_keys_dirs: "k \<in> set (created_dir_keys fs os root t) \<Longrightarrow> \<exists>d. k = Dir d"
  by (auto simp: created_dir_keys_def)

lemma resource_keys_by_kind:
  assumes "resource_keys_for_targets fs glob os targets root globs = Inr keys"
  shows "File p \<in> set keys \<longleftrightarrow> p \<in> key_string os ` set targets"
    and "SharedAppend p \<notin> set keys"
    and "Glob p \<in> set keys \<longleftrightarrow> p \<in> fold_case_for_os os ` set globs"
    and "Dir p \<in> set keys \<longleftrightarrow> (\<exists>t\<in>set targets. Dir p \<in> set (created_dir_keys fs os root t))"
  using created_dir_keys_dirs unfolding resource_keys_Inr(1) [OF assms] by fastforce+

text \<open>
  Exclusive by default. When the keys of an item are built, exactly the paths declared
  shared get a shared-append key, every other target gets an exclusive file key, and every
  declared pattern, all of which compile, gets a pattern key; the keys come sorted and
  without repetition.
\<close>

theorem targets_are_exclusive_unless_declared_shared:
  assumes "resource_keys_for_targets_with_shared_append fs glob os targets root globs shared = Inr keys"
  shows "{p. SharedAppend p \<in> set keys} = key_string os ` set shared \<and>
    {p. File p \<in> set keys} = key_string os ` set targets - key_string os ` set shared \<and>
    {p. Glob p \<in> set keys} = fold_case_for_os os ` set globs \<and> sorted keys \<and> distinct keys"
proof -
  let ?exclusive = "filter (\<lambda>t. key_string os t \<notin> key_string os ` set shared) targets"
  obtain ks where ks: "resource_keys_for_targets fs glob os ?exclusive root globs = Inr ks"
      and keys: "set keys = set ks \<union> SharedAppend ` key_string os ` set shared" "sorted keys" "distinct keys"
    using assms resource_keys_Inr(2,3)
    by (auto simp: resource_keys_for_targets_with_shared_append_def Let_def split: if_splits sum.splits)
  note k = resource_keys_by_kind [OF ks]
  have "{p. SharedAppend p \<in> set keys} = key_string os ` set shared" using k(2) keys(1) by auto
  moreover have "{p. File p \<in> set keys} = key_string os ` set targets - key_string os ` set shared"
    unfolding keys(1) by (auto simp: k(1) image_iff)
  moreover have "{p. Glob p \<in> set keys} = fold_case_for_os os ` set globs" using k(3) keys(1) by auto
  ultimately show ?thesis using keys by simp
qed

theorem targets_are_exclusive_unless_declared_shared_witness:
  "\<exists>keys. resource_keys_for_targets_with_shared_append example_fs (\<lambda>_. None) ''linux''
       [''a'', ''log''] [RootDir, Normal ''r''] [] [''log''] = Inr keys
     \<and> {p. File p \<in> set keys} = key_string ''linux'' ` set [''a'', ''log''] - key_string ''linux'' ` set [''log'']"
proof -
  have "resource_keys_for_targets_with_shared_append example_fs (\<lambda>_. None) ''linux''
       [''a'', ''log''] [RootDir, Normal ''r''] [] [''log''] = Inr [File ''a'', SharedAppend ''log'']"
    by code_simp
  with targets_are_exclusive_unless_declared_shared [OF this] show ?thesis by blast
qed

end
