(* ===== verification/Topo_Sort.thy ===== *)
theory Topo_Sort imports Rust_Base "HOL-Library.Multiset" begin

text \<open>
  Cycle detection and topological ordering of
  \<^verbatim>\<open>crates/archon-workflow/src/write_coordinator/conflict_graph.rs\<close> (\<^verbatim>\<open>visit\<close>,
  \<^verbatim>\<open>detect_cycle\<close>, \<^verbatim>\<open>kahn_topo_sort\<close>), over any type of identifiers. A dependency map gives
  an item the items it depends on. The depth-first search has its recursion depth as fuel,
  and running out is the value \<^const>\<open>None\<close>; the lemmas show that one more than the
  number of items is always enough, that a reported cycle exists, and that the order returned
  puts every item after its dependencies.
\<close>

type_synonym 'i deps = "'i \<Rightarrow> 'i list option"

definition targets :: "'i deps \<Rightarrow> 'i \<Rightarrow> 'i list" where
  "targets deps x = (case deps x of Some ts \<Rightarrow> ts | None \<Rightarrow> [])"

definition edges :: "'i deps \<Rightarrow> ('i \<times> 'i) set" where
  "edges deps = {(x, y). y \<in> set (targets deps x)}"

section \<open>Depth-first search\<close>

datatype color = White | Gray | Black

type_synonym 'i dfs = "('i \<Rightarrow> color option) \<times> 'i list \<times> 'i list option"

fun visit :: "nat \<Rightarrow> 'i deps \<Rightarrow> 'i \<Rightarrow> ('i \<Rightarrow> color option) \<Rightarrow> 'i list \<Rightarrow> 'i dfs option"
  and visit_targets ::
    "nat \<Rightarrow> 'i deps \<Rightarrow> 'i list \<Rightarrow> ('i \<Rightarrow> color option) \<Rightarrow> 'i list \<Rightarrow> 'i dfs option" where
  "visit 0 deps node col stack = None"
| "visit (Suc n) deps node col stack =
     (case visit_targets n deps (targets deps node) (col(node \<mapsto> Gray)) (stack @ [node]) of
        None \<Rightarrow> None
      | Some (c, s, Some cycle) \<Rightarrow> Some (c, s, Some cycle)
      | Some (c, s, None) \<Rightarrow> Some (c(node \<mapsto> Black), butlast s, None))"
| "visit_targets n deps [] col stack = Some (col, stack, None)"
| "visit_targets n deps (t # ts) col stack =
     (if col t = Some Gray then Some (col, stack, Some stack)
      else if col t = Some Black then visit_targets n deps ts col stack
      else
        (case visit n deps t col stack of
           None \<Rightarrow> None
         | Some (c, s, Some cycle) \<Rightarrow> Some (c, s, Some cycle)
         | Some (c, s, None) \<Rightarrow> visit_targets n deps ts c s))"

fun visit_roots ::
    "nat \<Rightarrow> 'i deps \<Rightarrow> 'i list \<Rightarrow> ('i \<Rightarrow> color option) \<Rightarrow> 'i list \<Rightarrow> 'i list option option" where
  "visit_roots n deps [] col stack = Some None"
| "visit_roots n deps (x # xs) col stack =
     (if col x = Some White
      then (case visit n deps x col stack of
              None \<Rightarrow> None
            | Some (c, s, Some cycle) \<Rightarrow> Some (Some cycle)
            | Some (c, s, None) \<Rightarrow> visit_roots n deps xs c s)
      else visit_roots n deps xs col stack)"

definition detect_cycle :: "'i list \<Rightarrow> 'i deps \<Rightarrow> 'i list option option" where
  "detect_cycle items deps =
     visit_roots (Suc (length items)) deps items (\<lambda>x. if x \<in> set items then Some White else None) []"

section \<open>Kahn's order\<close>

text \<open>The counters are \<^verbatim>\<open>usize\<close> in the code. They are integers here: with distinct items
  they never go below zero.\<close>

definition decrement :: "('p \<Rightarrow> 'i) \<Rightarrow> 'i deps \<Rightarrow> 'p list \<Rightarrow> 'i \<Rightarrow> ('i \<Rightarrow> int) \<Rightarrow> 'i \<Rightarrow> int" where
  "decrement item_id deps plans nxt indegree =
     foldl (\<lambda>d p. if nxt \<in> set (targets deps (item_id p))
                   then d(item_id p := d (item_id p) - 1) else d) indegree plans"

function kahn_loop ::
    "('p \<Rightarrow> 'i) \<Rightarrow> 'i deps \<Rightarrow> 'p list \<Rightarrow> ('i \<Rightarrow> int) \<Rightarrow> 'i list \<Rightarrow> 'p list \<Rightarrow> 'i list + 'p list" where
  "kahn_loop item_id deps plans indegree placed result =
     (if length plans \<le> length result then Inr result
      else
        (case find (\<lambda>p. item_id p \<notin> set placed \<and> indegree (item_id p) = 0) plans of
           None \<Rightarrow> Inl (map item_id (filter (\<lambda>p. item_id p \<notin> set placed) plans))
         | Some nxt \<Rightarrow>
             kahn_loop item_id deps plans (decrement item_id deps plans (item_id nxt) indegree)
               (placed @ [item_id nxt]) (result @ [nxt])))"
  by pat_completeness auto
termination
  by (relation "measure (\<lambda>(item_id, deps, plans, indegree, placed, result).
        length plans - length result)") auto

declare kahn_loop.simps [simp del]

definition kahn_order :: "('p \<Rightarrow> 'i) \<Rightarrow> 'i deps \<Rightarrow> 'p list \<Rightarrow> 'i list + 'p list" where
  "kahn_order item_id deps plans =
     kahn_loop item_id deps plans (\<lambda>x. int (length (targets deps x))) [] []"

text \<open>\<^verbatim>\<open>kahn_topo_sort\<close>: \<^const>\<open>None\<close> only if the search ran out of fuel.\<close>

definition kahn_topo_sort :: "('p \<Rightarrow> 'i) \<Rightarrow> 'i deps \<Rightarrow> 'p list \<Rightarrow> ('i list + 'p list) option" where
  "kahn_topo_sort item_id deps plans =
     (case detect_cycle (map item_id plans) deps of
        None \<Rightarrow> None
      | Some (Some cycle) \<Rightarrow> Some (Inl cycle)
      | Some None \<Rightarrow> Some (kahn_order item_id deps plans))"

section \<open>Topological orders\<close>

text \<open>Every item comes after all the items it depends on.\<close>

definition topological :: "('i \<times> 'i) set \<Rightarrow> 'i list \<Rightarrow> bool" where
  "topological E xs \<longleftrightarrow> (\<forall>k < length xs. \<forall>y. (xs ! k, y) \<in> E \<longrightarrow> y \<in> set (take k xs))"

lemma topological_snoc:
  "topological E (xs @ [x]) \<longleftrightarrow> topological E xs \<and> E `` {x} \<subseteq> set xs"
  by (auto simp: topological_def nth_append less_Suc_eq)

lemma topological_append: "topological E (xs @ ys) \<Longrightarrow> topological E xs"
  by (induction ys rule: rev_induct) (simp_all add: topological_snoc flip: append_assoc)

lemma topological_Nil [simp]: "topological E []"
  by (simp add: topological_def)

lemma topological_closed: "topological E xs \<Longrightarrow> x \<in> set xs \<Longrightarrow> (x, y) \<in> E \<Longrightarrow> y \<in> set xs"
  by (induction xs rule: rev_induct) (auto simp: topological_snoc)

lemma topological_distinct_irrefl:
  "topological E xs \<Longrightarrow> distinct xs \<Longrightarrow> (x, x) \<notin> E \<or> x \<notin> set xs"
  by (induction xs rule: rev_induct) (auto simp: topological_snoc)

lemma topological_acyclic:
  "topological E xs \<Longrightarrow> distinct xs \<Longrightarrow> x \<in> set xs \<Longrightarrow> (x, x) \<notin> E\<^sup>+"
proof (induction xs arbitrary: x rule: rev_induct)
  case (snoc z xs)
  then have IH: "\<And>x. x \<in> set xs \<Longrightarrow> (x, x) \<notin> E\<^sup>+" and cl: "topological E xs"
    and z: "E `` {z} \<subseteq> set xs" "z \<notin> set xs" by (auto simp: topological_snoc)
  have stay: "(a, b) \<in> E\<^sup>+ \<Longrightarrow> a \<in> set xs \<Longrightarrow> b \<in> set xs" for a b
    by (induction rule: trancl_induct) (use topological_closed [OF cl] in auto)
  show ?case
  proof (cases "x = z")
    case True
    show ?thesis
    proof
      assume "(x, x) \<in> E\<^sup>+"
      then obtain y where "(z, y) \<in> E" "y = z \<or> (y, z) \<in> E\<^sup>+"
        using True by (metis tranclD rtrancl_eq_or_trancl)
      with z stay show False by blast
    qed
  qed (use snoc.prems IH in auto)
qed simp

section \<open>Kahn's loop\<close>

lemma stuck_set_has_cycle:
  assumes "finite S" "S \<noteq> {}" "\<And>x. x \<in> S \<Longrightarrow> \<exists>y\<in>S. (x, y) \<in> E"
  shows "\<exists>x\<in>S. (x, x) \<in> E\<^sup>+"
proof (rule ccontr)
  assume no: "\<not> ?thesis"
  let ?R = "E \<inter> S \<times> S"
  have "acyclic ?R"
  proof (rule acyclicI, intro allI notI)
    fix x assume c: "(x, x) \<in> ?R\<^sup>+"
    then have "x \<in> S" by (meson IntD2 SigmaD1 tranclD)
    with c no show False by (meson Int_lower1 trancl_mono)
  qed
  with assms(1) have "wf (?R\<inverse>)" by (simp add: finite_acyclic_wf_converse)
  then obtain x where "x \<in> S" "\<And>y. (y, x) \<in> ?R\<inverse> \<Longrightarrow> y \<notin> S"
    using assms(2) by (metis all_not_in_conv wf_eq_minimal)
  with assms(3) show False by blast
qed

definition kahn_inv ::
    "('p \<Rightarrow> 'i) \<Rightarrow> 'i deps \<Rightarrow> 'p list \<Rightarrow> ('i \<Rightarrow> int) \<Rightarrow> 'i list \<Rightarrow> 'p list \<Rightarrow> bool" where
  "kahn_inv item_id deps plans indegree placed result \<longleftrightarrow>
     placed = map item_id result \<and> distinct placed \<and> set result \<subseteq> set plans
     \<and> topological (edges deps) placed
     \<and> (\<forall>p\<in>set plans. indegree (item_id p) = int (card (set (targets deps (item_id p)) - set placed)))"

lemma decrement_distinct:
  "distinct (map item_id plans) \<Longrightarrow>
   decrement item_id deps plans nxt d x =
     (if x \<in> item_id ` set plans \<and> nxt \<in> set (targets deps x) then d x - 1 else d x)"
  unfolding decrement_def by (induction plans arbitrary: d) auto

lemma kahn_inv_step:
  assumes inv: "kahn_inv item_id deps plans indegree placed result"
    and dist: "distinct (map item_id plans)"
    and f: "find (\<lambda>p. item_id p \<notin> set placed \<and> indegree (item_id p) = 0) plans = Some nxt"
  shows "kahn_inv item_id deps plans (decrement item_id deps plans (item_id nxt) indegree)
           (placed @ [item_id nxt]) (result @ [nxt])"
proof -
  from f have n: "nxt \<in> set plans" "item_id nxt \<notin> set placed" "indegree (item_id nxt) = 0"
    using find_Some_iff_set by fastforce+
  with inv have "card (set (targets deps (item_id nxt)) - set placed) = 0"
    by (auto simp: kahn_inv_def)
  then have ready: "set (targets deps (item_id nxt)) \<subseteq> set placed" by auto
  have "decrement item_id deps plans (item_id nxt) indegree (item_id p) =
      int (card (set (targets deps (item_id p)) - set (placed @ [item_id nxt])))"
    if "p \<in> set plans" for p
  proof -
    let ?T = "set (targets deps (item_id p)) - set placed"
    have d: "indegree (item_id p) = int (card ?T)" using inv that by (simp add: kahn_inv_def)
    have eq: "set (targets deps (item_id p)) - set (placed @ [item_id nxt]) = ?T - {item_id nxt}" by auto
    show ?thesis
    proof (cases "item_id nxt \<in> set (targets deps (item_id p))")
      case True
      with n(2) have m: "item_id nxt \<in> ?T" by simp
      then have "card ?T = Suc (card (?T - {item_id nxt}))" by (intro card.remove) auto
      with True that d show ?thesis unfolding eq by (simp add: decrement_distinct [OF dist])
    next
      case False
      then have "?T - {item_id nxt} = ?T" by auto
      with False d show ?thesis unfolding eq by (simp add: decrement_distinct [OF dist])
    qed
  qed
  moreover have "placed @ [item_id nxt] = map item_id (result @ [nxt])"
    "distinct (placed @ [item_id nxt])" "set (result @ [nxt]) \<subseteq> set plans"
    using inv n unfolding kahn_inv_def by auto
  moreover have "topological (edges deps) (placed @ [item_id nxt])"
    using inv ready by (simp add: kahn_inv_def topological_snoc) (auto simp: edges_def)
  ultimately show ?thesis unfolding kahn_inv_def by blast
qed

lemma kahn_loop_correct:
  assumes "kahn_inv item_id deps plans indegree placed result" and "distinct (map item_id plans)"
  shows "case kahn_loop item_id deps plans indegree placed result of
      Inr r \<Rightarrow> length plans \<le> length r \<and> (\<exists>d. kahn_inv item_id deps plans d (map item_id r) r)
    | Inl cyc \<Rightarrow> (\<exists>d pl r. kahn_inv item_id deps plans d pl r \<and> length r < length plans
        \<and> find (\<lambda>p. item_id p \<notin> set pl \<and> d (item_id p) = 0) plans = None)"
  using assms
proof (induction item_id deps plans indegree placed result rule: kahn_loop.induct)
  case (1 item_id deps plans indegree placed result)
  show ?case
  proof (cases "length plans \<le> length result")
    case True
    with "1.prems" show ?thesis by (subst kahn_loop.simps) (auto simp: kahn_inv_def)
  next
    case False
    show ?thesis
    proof (cases "find (\<lambda>p. item_id p \<notin> set placed \<and> indegree (item_id p) = 0) plans")
      case None
      with False "1.prems" show ?thesis
        by (subst kahn_loop.simps) (simp, blast intro: le_less_linear [THEN disjE])
    next
      case (Some nxt)
      from "1.IH" [OF False Some kahn_inv_step [OF "1.prems" Some] "1.prems"(2)] False Some
      show ?thesis by (subst kahn_loop.simps) simp
    qed
  qed
qed

lemma kahn_inv_init:
  "\<forall>p\<in>set plans. distinct (targets deps (item_id p)) \<Longrightarrow>
   kahn_inv item_id deps plans (\<lambda>x. int (length (targets deps x))) [] []"
  by (simp add: kahn_inv_def distinct_card)

lemma kahn_order_Inr:
  assumes "kahn_order item_id deps plans = Inr r" and "distinct (map item_id plans)"
    and "\<forall>p\<in>set plans. distinct (targets deps (item_id p))"
  shows "mset r = mset plans" and "topological (edges deps) (map item_id r)"
proof -
  from kahn_loop_correct [OF kahn_inv_init [OF assms(3)] assms(2)] assms(1)
  obtain d where len: "length plans \<le> length r" and inv: "kahn_inv item_id deps plans d (map item_id r) r"
    by (auto simp: kahn_order_def)
  from inv have "distinct r" "set r \<subseteq> set plans" by (auto simp: kahn_inv_def distinct_map)
  moreover have "distinct plans" using assms(2) by (simp add: distinct_map)
  ultimately have "set r = set plans"
    using len by (intro card_subset_eq) (auto simp: distinct_card dest: card_mono [OF finite_set])
  with \<open>distinct r\<close> \<open>distinct plans\<close> show "mset r = mset plans"
    by (simp add: set_eq_iff_mset_eq_distinct)
  from inv show "topological (edges deps) (map item_id r)" by (simp add: kahn_inv_def)
qed

lemma kahn_order_Inl:
  assumes "kahn_order item_id deps plans = Inl cyc" and "distinct (map item_id plans)"
    and "\<forall>p\<in>set plans. distinct (targets deps (item_id p))"
    and known: "\<forall>p\<in>set plans. set (targets deps (item_id p)) \<subseteq> item_id ` set plans"
  shows "\<exists>x\<in>item_id ` set plans. (x, x) \<in> (edges deps)\<^sup>+"
proof -
  from kahn_loop_correct [OF kahn_inv_init [OF assms(3)] assms(2)] assms(1)
  obtain d pl r where inv: "kahn_inv item_id deps plans d pl r" and len: "length r < length plans"
    and stuck: "find (\<lambda>p. item_id p \<notin> set pl \<and> d (item_id p) = 0) plans = None"
    by (auto simp: kahn_order_def)
  let ?S = "item_id ` set plans - set pl"
  have "card (set pl) = length r" "card (item_id ` set plans) = length plans"
    using inv assms(2) distinct_card [of pl] distinct_card [of "map item_id plans"]
    unfolding kahn_inv_def by auto
  with len have "card (set pl) < card (item_id ` set plans)" by simp
  then have ne: "?S \<noteq> {}" by (metis Diff_eq_empty_iff card_mono finite_set leD)
  have "\<exists>y\<in>?S. (x, y) \<in> edges deps" if "x \<in> ?S" for x
  proof -
    from that obtain p where p: "p \<in> set plans" "x = item_id p" "x \<notin> set pl" by auto
    with stuck inv have "card (set (targets deps x) - set pl) \<noteq> 0"
      by (auto simp: find_None_iff kahn_inv_def)
    then obtain y where "y \<in> set (targets deps x)" "y \<notin> set pl"
      by (metis DiffE all_not_in_conv card.empty)
    moreover from this(1) known p have "y \<in> item_id ` set plans" by blast
    ultimately show ?thesis by (auto simp: edges_def)
  qed
  from stuck_set_has_cycle [OF _ ne this] show ?thesis by auto
qed

section \<open>The depth-first search\<close>

definition black :: "('i \<Rightarrow> color option) \<Rightarrow> 'i set" where
  "black c = {x. c x = Some Black}"

definition dfs_inv :: "('i \<times> 'i) set \<Rightarrow> ('i \<Rightarrow> color option) \<Rightarrow> 'i list \<Rightarrow> bool" where
  "dfs_inv E c s \<longleftrightarrow>
     (\<forall>x. c x = Some Gray \<longleftrightarrow> x \<in> set s) \<and> distinct s \<and> successively (\<lambda>x y. (x, y) \<in> E) s
     \<and> E `` black c \<subseteq> black c \<and> (\<forall>x\<in>black c. (x, x) \<notin> E\<^sup>+)"

text \<open>A search only finishes nodes and colours new ones.\<close>

definition grows :: "('i \<Rightarrow> color option) \<Rightarrow> ('i \<Rightarrow> color option) \<Rightarrow> bool" where
  "grows c c' \<longleftrightarrow> black c \<subseteq> black c' \<and> dom c \<subseteq> dom c'"

lemma grows_refl [simp]: "grows c c"
  by (simp add: grows_def)

lemma grows_trans: "grows a b \<Longrightarrow> grows b c \<Longrightarrow> grows a c"
  unfolding grows_def by blast

lemma grows_gray: "c node \<noteq> Some Black \<Longrightarrow> grows c (c(node \<mapsto> Gray))"
  by (auto simp: grows_def black_def)

lemma grows_black: "grows c (c(node \<mapsto> Black))"
  by (auto simp: grows_def black_def)

text \<open>What a search from state \<open>(c, s)\<close> returns; \<open>D\<close> are the nodes it had to finish.\<close>

definition dfs_result ::
    "('i \<times> 'i) set \<Rightarrow> ('i \<Rightarrow> color option) \<Rightarrow> 'i list \<Rightarrow> 'i set \<Rightarrow> 'i dfs \<Rightarrow> bool" where
  "dfs_result E c s D out \<longleftrightarrow>
     (case out of
        (c', s', None) \<Rightarrow> dfs_inv E c' s \<and> s' = s \<and> D \<subseteq> black c' \<and> grows c c'
      | (c', s', Some cycle) \<Rightarrow> \<exists>x\<in>set cycle. (x, x) \<in> E\<^sup>+)"

lemma path_to_last:
  "successively (\<lambda>x y. (x, y) \<in> E) s \<Longrightarrow> x \<in> set s \<Longrightarrow> (x, last s) \<in> E\<^sup>*"
proof (induction s arbitrary: x)
  case (Cons a s)
  show ?case
  proof (cases s)
    case (Cons b r)
    with Cons.prems have "(a, b) \<in> E" "successively (\<lambda>x y. (x, y) \<in> E) s" by auto
    with Cons.IH have "\<And>y. y \<in> set s \<Longrightarrow> (y, last s) \<in> E\<^sup>*" "b \<in> set s" using Cons by auto
    with \<open>(a, b) \<in> E\<close> Cons.prems(2) Cons show ?thesis
      by (metis converse_rtrancl_into_rtrancl last_ConsR list.distinct(1) set_ConsD)
  qed (use Cons.prems in simp)
qed simp

lemma stay_black: "E `` B \<subseteq> B \<Longrightarrow> (x, y) \<in> E\<^sup>* \<Longrightarrow> x \<in> B \<Longrightarrow> y \<in> B"
  by (erule rtrancl_induct) auto

lemma dfs_finish:
  assumes inv: "dfs_inv E c (s @ [node])" and fin: "E `` {node} \<subseteq> black c"
  shows "dfs_inv E (c(node \<mapsto> Black)) s"
proof -
  have b: "black (c(node \<mapsto> Black)) = insert node (black c)" by (auto simp: black_def)
  have "c node = Some Gray" using inv by (simp add: dfs_inv_def)
  then have gray: "node \<notin> black c" by (simp add: black_def)
  have cl: "E `` black c \<subseteq> black c" using inv by (simp add: dfs_inv_def)
  have "(node, node) \<notin> E\<^sup>+"
  proof
    assume "(node, node) \<in> E\<^sup>+"
    then obtain y where "(node, y) \<in> E" "(y, node) \<in> E\<^sup>*" by (meson tranclD)
    with fin stay_black [OF cl] gray show False by blast
  qed
  with inv cl fin show ?thesis
    unfolding dfs_inv_def b by (auto simp: successively_append_iff)
qed

lemma dfs_push:
  "dfs_inv E c s \<Longrightarrow> c node \<noteq> Some Gray \<Longrightarrow> c node \<noteq> Some Black \<Longrightarrow> s = [] \<or> (last s, node) \<in> E \<Longrightarrow>
   dfs_inv E (c(node \<mapsto> Gray)) (s @ [node])"
proof -
  assume inv: "dfs_inv E c s" and n: "c node \<noteq> Some Gray" "c node \<noteq> Some Black"
    and e: "s = [] \<or> (last s, node) \<in> E"
  have "black (c(node \<mapsto> Gray)) = black c" using n by (auto simp: black_def)
  with inv n e show ?thesis by (auto simp: dfs_inv_def successively_append_iff)
qed

lemma dfs_result_step:
  assumes "dfs_result E c s D (c1, s1, None)" and "dfs_result E c1 s D1 out"
  shows "dfs_result E c s (D \<union> D1) out"
proof -
  obtain c2 s2 r2 where out: "out = (c2, s2, r2)" by (cases out)
  show ?thesis
  proof (cases r2)
    case None
    with assms out have "s1 = s" "D \<subseteq> black c1" "grows c c1" "dfs_inv E c2 s1" "s2 = s1"
      "D1 \<subseteq> black c2" "grows c1 c2" by (auto simp: dfs_result_def)
    moreover from this have "D \<subseteq> black c2" "grows c c2"
      using grows_trans unfolding grows_def by blast+
    ultimately show ?thesis using None out by (simp add: dfs_result_def)
  qed (use assms out in \<open>auto simp: dfs_result_def\<close>)
qed

lemma visit_correct:
  "dfs_inv (edges deps) c s \<Longrightarrow> c node \<noteq> Some Gray \<Longrightarrow> c node \<noteq> Some Black \<Longrightarrow>
     s = [] \<or> (last s, node) \<in> edges deps \<Longrightarrow> visit n deps node c s = Some out \<Longrightarrow>
     dfs_result (edges deps) c s {node} out"
  "dfs_inv (edges deps) c s \<Longrightarrow> s \<noteq> [] \<Longrightarrow> \<forall>t\<in>set ts. (last s, t) \<in> edges deps \<Longrightarrow>
     visit_targets n deps ts c s = Some out \<Longrightarrow> dfs_result (edges deps) c s (set ts) out"
proof (induction n deps node c s and n deps ts c s arbitrary: out and out
    rule: visit_visit_targets.induct)
  case (2 n deps node c s)
  let ?c = "c(node \<mapsto> Gray)" and ?s = "s @ [node]"
  have inv: "dfs_inv (edges deps) ?c ?s" using "2.prems" by (intro dfs_push) auto
  from "2.prems"(5) obtain c1 s1 r1 where
    v: "visit_targets n deps (targets deps node) ?c ?s = Some (c1, s1, r1)"
    by (auto split: option.splits)
  have res: "dfs_result (edges deps) ?c ?s (set (targets deps node)) (c1, s1, r1)"
    by (rule "2.IH" [OF inv _ _ v]) (auto simp: edges_def)
  show ?case
  proof (cases r1)
    case None
    with res have r: "dfs_inv (edges deps) c1 ?s" "s1 = ?s" "set (targets deps node) \<subseteq> black c1"
      "grows ?c c1" by (auto simp: dfs_result_def)
    have "dfs_inv (edges deps) (c1(node \<mapsto> Black)) s"
      using r by (intro dfs_finish) (auto simp: edges_def)
    moreover have "grows c (c1(node \<mapsto> Black))"
      by (rule grows_trans [OF grows_trans [OF grows_gray [where c = c and node = node, OF "2.prems"(3)] r(4)] grows_black])
    ultimately show ?thesis
      using None v r(2) "2.prems"(5) by (auto simp: dfs_result_def black_def)
  next
    case (Some cyc)
    with res v "2.prems"(5) show ?thesis by (auto simp: dfs_result_def)
  qed
next
  case (4 n deps t ts c s)
  show ?case
  proof (cases "c t = Some Gray \<or> c t = Some Black")
    case True
    then show ?thesis
    proof
      assume g: "c t = Some Gray"
      with "4.prems"(1,3) have t: "t \<in> set s" "(last s, t) \<in> edges deps"
        "successively (\<lambda>x y. (x, y) \<in> edges deps) s" by (auto simp: dfs_inv_def)
      from path_to_last [OF t(3,1)] t(2) have "(t, t) \<in> (edges deps)\<^sup>+" by simp
      with t(1) have "\<exists>x\<in>set s. (x, x) \<in> (edges deps)\<^sup>+" by blast
      with g "4.prems"(4) show ?thesis by (auto simp: dfs_result_def)
    next
      assume b: "c t = Some Black"
      then have "dfs_result (edges deps) c s (set ts) out"
        using "4.prems" by (intro "4.IH"(1)) simp_all
      moreover have "dfs_result (edges deps) c s {t} (c, s, None)"
        using b "4.prems"(1) by (simp add: dfs_result_def black_def)
      ultimately have "dfs_result (edges deps) c s ({t} \<union> set ts) out"
        by (blast intro: dfs_result_step)
      then show ?thesis by simp
    qed
  next
    case False
    then have f: "c t \<noteq> Some Gray" "c t \<noteq> Some Black" by auto
    from f "4.prems"(4) obtain c1 s1 r1 where v: "visit n deps t c s = Some (c1, s1, r1)"
      by (auto split: option.splits)
    have res: "dfs_result (edges deps) c s {t} (c1, s1, r1)"
      by (rule "4.IH"(2) [OF f "4.prems"(1) f _ v]) (use "4.prems"(3) in simp)
    show ?thesis
    proof (cases r1)
      case None
      with res have s1: "s1 = s" "dfs_inv (edges deps) c1 s1" by (auto simp: dfs_result_def)
      have vt: "visit_targets n deps ts c1 s1 = Some out"
        using f v None "4.prems"(4) by simp
      have "dfs_result (edges deps) c1 s1 (set ts) out"
        by (rule "4.IH"(3) [OF f v refl]) (use None s1 "4.prems" vt in simp_all)
      with res None s1(1) have "dfs_result (edges deps) c s ({t} \<union> set ts) out"
        by (blast intro: dfs_result_step)
      then show ?thesis by simp
    next
      case (Some cyc)
      with f v res "4.prems"(4) show ?thesis by (auto simp: dfs_result_def)
    qed
  qed
qed (auto simp: dfs_result_def)

text \<open>One unit of fuel more than the nodes that are not on the stack is enough.\<close>

lemma stack_below: "distinct s \<Longrightarrow> set s \<subseteq> U \<Longrightarrow> finite U \<Longrightarrow> x \<in> U \<Longrightarrow> x \<notin> set s \<Longrightarrow> length s < card U"
  by (metis distinct_card psubsetI psubset_card_mono)

lemma visit_fuel:
  "dfs_inv (edges deps) c s \<Longrightarrow> c node \<noteq> Some Gray \<Longrightarrow> c node \<noteq> Some Black \<Longrightarrow>
     s = [] \<or> (last s, node) \<in> edges deps \<Longrightarrow> finite U \<Longrightarrow> edges deps `` U \<subseteq> U \<Longrightarrow>
     set s \<subseteq> U \<Longrightarrow> node \<in> U \<Longrightarrow> card U < n + length s \<Longrightarrow> visit n deps node c s \<noteq> None"
  "dfs_inv (edges deps) c s \<Longrightarrow> s \<noteq> [] \<Longrightarrow> \<forall>t\<in>set ts. (last s, t) \<in> edges deps \<Longrightarrow>
     finite U \<Longrightarrow> edges deps `` U \<subseteq> U \<Longrightarrow> set s \<subseteq> U \<Longrightarrow> card U < n + length s \<Longrightarrow>
     visit_targets n deps ts c s \<noteq> None"
proof (induction n deps node c s and n deps ts c s rule: visit_visit_targets.induct)
  case (1 deps node c s)
  then have "node \<notin> set s" "distinct s" by (auto simp: dfs_inv_def)
  with stack_below [of s U node] 1 show ?case by simp
next
  case (2 n deps node c s)
  have "visit_targets n deps (targets deps node) (c(node \<mapsto> Gray)) (s @ [node]) \<noteq> None"
  proof (rule "2.IH" [OF dfs_push [OF "2.prems"(1-4)]])
    show "\<forall>t\<in>set (targets deps node). (last (s @ [node]), t) \<in> edges deps" by (simp add: edges_def)
  qed (use "2.prems" in auto)
  then show ?case by (auto split: option.splits)
next
  case (4 n deps t ts c s)
  show ?case
  proof (cases "c t = Some Gray \<or> c t = Some Black")
    case True
    with "4.prems" "4.IH"(1) show ?thesis by (cases "c t = Some Gray") auto
  next
    case False
    then have f: "c t \<noteq> Some Gray" "c t \<noteq> Some Black" by auto
    have e: "(last s, t) \<in> edges deps" using "4.prems"(3) by simp
    have tU: "t \<in> U"
      using e "4.prems"(2,5,6) by (metis ImageI last_in_set subsetD)
    have "visit n deps t c s \<noteq> None"
      by (rule "4.IH"(2) [OF f "4.prems"(1) f disjI2 [OF e] "4.prems"(4-6) tU "4.prems"(7)])
    then obtain c1 s1 r1 where v: "visit n deps t c s = Some (c1, s1, r1)" by auto
    from visit_correct(1) [OF "4.prems"(1) f disjI2 [OF e] v]
    have res: "dfs_result (edges deps) c s {t} (c1, s1, r1)" .
    show ?thesis
    proof (cases r1)
      case None
      with res have s1: "s1 = s" "dfs_inv (edges deps) c1 s1" by (auto simp: dfs_result_def)
      have "visit_targets n deps ts c1 s1 \<noteq> None"
        by (rule "4.IH"(3) [OF f v refl]) (use None s1 "4.prems" in simp_all)
      with f v None show ?thesis by simp
    qed (use f v in simp)
  qed
qed simp

section \<open>Cycle detection\<close>

lemma visit_roots_correct:
  assumes "dfs_inv (edges deps) c []" and "finite U" "edges deps `` U \<subseteq> U" "set xs \<subseteq> U" "card U < n"
    and "\<forall>x\<in>set xs. c x \<noteq> None"
  shows "case visit_roots n deps xs c [] of
      None \<Rightarrow> False
    | Some None \<Rightarrow> \<forall>x\<in>set xs. (x, x) \<notin> (edges deps)\<^sup>+
    | Some (Some cycle) \<Rightarrow> \<exists>x\<in>set cycle. (x, x) \<in> (edges deps)\<^sup>+"
  using assms
proof (induction xs arbitrary: c)
  case (Cons x xs)
  have "x \<in> U" using Cons.prems(4) by simp
  show ?case
  proof (cases "c x = Some White")
    case True
    then have f: "c x \<noteq> Some Gray" "c x \<noteq> Some Black" by simp_all
    have "visit n deps x c [] \<noteq> None"
      using visit_fuel(1) [OF Cons.prems(1) f _ Cons.prems(2,3) _ \<open>x \<in> U\<close>] Cons.prems(5) by simp
    then obtain c1 s1 r1 where v: "visit n deps x c [] = Some (c1, s1, r1)" by auto
    from visit_correct(1) [OF Cons.prems(1) f _ v]
    have res: "dfs_result (edges deps) c [] {x} (c1, s1, r1)" by simp
    show ?thesis
    proof (cases r1)
      case None
      with res have r: "s1 = []" "dfs_inv (edges deps) c1 []" "x \<in> black c1" "grows c c1"
        by (auto simp: dfs_result_def)
      have "\<forall>y\<in>set xs. c1 y \<noteq> None"
        using r(4) Cons.prems(6) unfolding grows_def by (metis domIff list.set_intros(2) subsetD)
      with Cons.IH [OF r(2)] Cons.prems True v None r(1) r(2,3)
      show ?thesis by (auto simp: dfs_inv_def split: option.splits)
    next
      case (Some cyc)
      with res True v show ?thesis by (simp add: dfs_result_def)
    qed
  next
    case False
    have "c x \<noteq> Some Gray" using Cons.prems(1) by (simp add: dfs_inv_def)
    with False Cons.prems(6) have "x \<in> black c" by (cases "c x"; cases "the (c x)") (auto simp: black_def)
    with Cons.prems(1) have "(x, x) \<notin> (edges deps)\<^sup>+" by (simp add: dfs_inv_def)
    with Cons.IH [OF Cons.prems(1)] Cons.prems False show ?thesis by (auto split: option.splits)
  qed
qed simp

text \<open>Over known items the search always ends, and it reports a cycle exactly when there is one.\<close>

lemma detect_cycle_correct:
  assumes known: "edges deps `` set items \<subseteq> set items"
  shows "case detect_cycle items deps of
      None \<Rightarrow> False
    | Some None \<Rightarrow> \<forall>x\<in>set items. (x, x) \<notin> (edges deps)\<^sup>+
    | Some (Some cycle) \<Rightarrow> \<exists>x\<in>set cycle. (x, x) \<in> (edges deps)\<^sup>+"
proof -
  let ?c = "\<lambda>x. if x \<in> set items then Some White else None"
  have "dfs_inv (edges deps) ?c []" by (auto simp: dfs_inv_def black_def)
  from visit_roots_correct [OF this _ known, of items "Suc (length items)"] show ?thesis
    by (simp add: detect_cycle_def card_length le_imp_less_Suc)
qed

text \<open>A reported cycle consists of items.\<close>

lemma visit_stack:
  "visit n deps node c s = Some (c', s', r) \<Longrightarrow> edges deps `` U \<subseteq> U \<Longrightarrow> set s \<subseteq> U \<Longrightarrow> node \<in> U \<Longrightarrow>
     set s' \<subseteq> U \<and> set_option r \<subseteq> {cyc. set cyc \<subseteq> U}"
  "visit_targets n deps ts c s = Some (c', s', r) \<Longrightarrow> edges deps `` U \<subseteq> U \<Longrightarrow> set s \<subseteq> U \<Longrightarrow>
     set ts \<subseteq> U \<Longrightarrow> set s' \<subseteq> U \<and> set_option r \<subseteq> {cyc. set cyc \<subseteq> U}"
proof (induction n deps node c s and n deps ts c s arbitrary: c' s' r and c' s' r
    rule: visit_visit_targets.induct)
  case (2 n deps node c s)
  then obtain c1 s1 r1 where
    v: "visit_targets n deps (targets deps node) (c(node \<mapsto> Gray)) (s @ [node]) = Some (c1, s1, r1)"
    by (auto split: option.splits)
  have "set (targets deps node) \<subseteq> U" using "2.prems"(2,4) by (auto simp: edges_def)
  then have "set s1 \<subseteq> U \<and> set_option r1 \<subseteq> {cyc. set cyc \<subseteq> U}"
    using "2.IH" [OF v "2.prems"(2)] "2.prems"(3,4) by simp
  with "2.prems"(1) v show ?case by (auto split: option.splits dest: in_set_butlastD)
next
  case (4 n deps t ts c s)
  show ?case
  proof (cases "c t = Some Gray \<or> c t = Some Black")
    case True
    with "4.prems" "4.IH"(1) show ?thesis by (cases "c t = Some Gray") auto
  next
    case False
    then have f: "c t \<noteq> Some Gray" "c t \<noteq> Some Black" by auto
    from f "4.prems"(1) obtain c1 s1 r1 where v: "visit n deps t c s = Some (c1, s1, r1)"
      by (auto split: option.splits)
    have one: "set s1 \<subseteq> U \<and> set_option r1 \<subseteq> {cyc. set cyc \<subseteq> U}"
      using "4.IH"(2) [OF f v "4.prems"(2,3)] "4.prems"(4) by simp
    show ?thesis
    proof (cases r1)
      case None
      from None v f "4.prems"(1) have "visit_targets n deps ts c1 s1 = Some (c', s', r)" by simp
      with "4.IH"(3) [OF f v refl refl None] "4.prems" one show ?thesis by auto
    next
      case (Some cyc)
      with one v f "4.prems"(1) show ?thesis by auto
    qed
  qed
qed auto

lemma visit_roots_in_items:
  "visit_roots n deps xs c s = Some (Some cyc) \<Longrightarrow> edges deps `` U \<subseteq> U \<Longrightarrow> set s \<subseteq> U \<Longrightarrow>
   set xs \<subseteq> U \<Longrightarrow> set cyc \<subseteq> U"
proof (induction xs arbitrary: c s)
  case (Cons x xs)
  show ?case
  proof (cases "c x = Some White")
    case True
    with Cons.prems(1) obtain c1 s1 r1 where v: "visit n deps x c s = Some (c1, s1, r1)"
      by (auto split: option.splits)
    from visit_stack(1) [OF v Cons.prems(2,3)] Cons.prems(4) Cons.IH [of c1 s1] Cons.prems True v
    show ?thesis by (cases r1) auto
  qed (use Cons in simp)
qed simp

text \<open>The whole sort: an order of all items with dependencies first, or a real cycle.\<close>

definition deps_known :: "('p \<Rightarrow> 'i) \<Rightarrow> 'i deps \<Rightarrow> 'p list \<Rightarrow> bool" where
  "deps_known item_id deps plans \<longleftrightarrow>
     distinct (map item_id plans) \<and>
     list_all (\<lambda>p. distinct (targets deps (item_id p))
       \<and> set (targets deps (item_id p)) \<subseteq> item_id ` set plans) plans"

lemma kahn_topo_sort_correct:
  assumes "deps_known item_id deps plans"
  shows "case kahn_topo_sort item_id deps plans of
      None \<Rightarrow> False
    | Some (Inl cycle) \<Rightarrow> \<exists>x\<in>set cycle. x \<in> item_id ` set plans \<and> (x, x) \<in> (edges deps)\<^sup>+
    | Some (Inr r) \<Rightarrow> mset r = mset plans \<and> topological (edges deps) (map item_id r)"
proof -
  let ?ids = "map item_id plans"
  from assms have d: "distinct ?ids" and t: "\<forall>p\<in>set plans. distinct (targets deps (item_id p))"
    and k: "\<forall>p\<in>set plans. set (targets deps (item_id p)) \<subseteq> item_id ` set plans"
    by (auto simp: deps_known_def list_all_iff)
  from k have "edges deps `` set ?ids \<subseteq> set ?ids" by (fastforce simp: edges_def)
  note dc = detect_cycle_correct [OF this] and sub = visit_roots_in_items [OF _ this, of _ ?ids]
  show ?thesis
  proof (cases "detect_cycle ?ids deps")
    case (Some r)
    show ?thesis
    proof (cases r)
      case None
      with dc Some have no: "\<forall>x\<in>item_id ` set plans. (x, x) \<notin> (edges deps)\<^sup>+" by simp
      show ?thesis
      proof (cases "kahn_order item_id deps plans")
        case (Inl c)
        from kahn_order_Inl [OF Inl d t k] no show ?thesis by blast
      next
        case (Inr o')
        from kahn_order_Inr [OF Inr d t] Inr None Some show ?thesis by (simp add: kahn_topo_sort_def)
      qed
    next
      case (Some cyc)
      with \<open>detect_cycle ?ids deps = Some r\<close> have "set cyc \<subseteq> item_id ` set plans"
        using sub by (auto simp: detect_cycle_def)
      with dc \<open>detect_cycle ?ids deps = Some r\<close> Some show ?thesis
        by (auto simp: kahn_topo_sort_def)
    qed
  qed (use dc in simp)
qed

end
