(* ===== verification/Wave_Schedule.thy ===== *)
theory Wave_Schedule imports Topo_Sort Write_Paths begin

text \<open>
  The wave scheduler of
  \<^verbatim>\<open>crates/archon-workflow/src/write_coordinator/conflict_graph.rs\<close>: the conflict graph of
  a list of write plans, the placement of items into waves, and the schedule's summary. The
  placement loop of the code may only end because an empty wave takes any item, so it is a
  \<^theory_text>\<open>partial_function\<close>; \<^const>\<open>None\<close> stands for a loop that does not end or a wave number that
  does not fit \<^verbatim>\<open>u32\<close>, and the lemmas show that neither happens. They then give the contract of
  a schedule: every item once, dependencies in earlier waves, no conflict and no more than
  the cap in a wave.
\<close>

type_synonym item_id = string

record write_plan =
  run_id :: string
  plan_stage_id :: string
  item_id :: item_id
  plan_canonical_root :: string
  isolated_root :: string
  target_files :: "normalized_path list"
  target_dir_scopes :: "normalized_path list"
  plan_source :: target_files_source
  read_context_files :: "normalized_path list"
  verify_inputs :: "normalized_path list"
  baseline_id :: string
  workspace_boundary_required :: bool
  resource_keys :: "resource_key list"

record wave_caps =
  caps_run :: nat
  caps_policy :: nat
  caps_stage :: "nat option"
  caps_runner :: "nat option"
  caps_subagent :: "nat option"

definition min_opt :: "nat \<Rightarrow> nat option \<Rightarrow> nat" where
  "min_opt m cap = (case cap of None \<Rightarrow> m | Some c \<Rightarrow> min m c)"

definition caps_effective :: "wave_caps \<Rightarrow> nat" where
  "caps_effective c =
     (let m = min (caps_run c) (caps_policy c);
          m = min_opt m (caps_stage c);
          m = min_opt m (caps_runner c);
          m = min_opt m (caps_subagent c)
      in max m 1)"

definition caps_from_sources ::
    "u32 \<Rightarrow> u32 \<Rightarrow> u32 option \<Rightarrow> nat option \<Rightarrow> nat option \<Rightarrow> wave_caps" where
  "caps_from_sources run_u32 policy_u32 stage_u32 runner subagent =
     \<lparr>caps_run = unat run_u32, caps_policy = unat policy_u32,
      caps_stage = map_option unat stage_u32, caps_runner = runner, caps_subagent = subagent\<rparr>"

record wave =
  wave_id :: u32
  wave_items :: "item_id list"

record schedule =
  schedule_stage_id :: string
  schedule_waves :: "wave list"

record schedule_summary =
  wave_count :: nat
  max_width :: nat
  total_items :: nat
  items_in_largest_wave :: "item_id list"

datatype schedule_error =
    CyclicDependency "item_id list"
  | UnknownDependency item_id item_id
  | PlanMissingTargets item_id
  | EmptyPlans

section \<open>The conflict graph\<close>

type_synonym conflict_graph = "item_id \<Rightarrow> item_id set option"

definition items_conflict :: "globset_compiler \<Rightarrow> write_plan \<Rightarrow> write_plan \<Rightarrow> bool" where
  "items_conflict glob left right =
     (if plan_source left = FromStageLevel \<and> plan_source right = FromStageLevel then True
      else list_ex (\<lambda>a. list_ex (\<lambda>b. keys_conflict glob a b) (resource_keys right)) (resource_keys left))"

definition neighbors_of :: "conflict_graph \<Rightarrow> item_id \<Rightarrow> item_id set" where
  "neighbors_of g x = (case g x of Some ns \<Rightarrow> ns | None \<Rightarrow> {})"

definition add_neighbor :: "item_id \<Rightarrow> item_id \<Rightarrow> conflict_graph \<Rightarrow> conflict_graph" where
  "add_neighbor x y g = g(x \<mapsto> insert y (neighbors_of g x))"

fun conflict_pairs :: "globset_compiler \<Rightarrow> write_plan list \<Rightarrow> conflict_graph \<Rightarrow> conflict_graph" where
  "conflict_pairs glob [] g = g"
| "conflict_pairs glob (left # rest) g =
     conflict_pairs glob rest
       (foldl (\<lambda>g right. if items_conflict glob left right
                         then add_neighbor (item_id right) (item_id left)
                                (add_neighbor (item_id left) (item_id right) g)
                         else g) g rest)"

definition build_conflict_graph :: "globset_compiler \<Rightarrow> write_plan list \<Rightarrow> conflict_graph" where
  "build_conflict_graph glob plans =
     conflict_pairs glob plans (foldl (\<lambda>g p. g(item_id p \<mapsto> {})) (\<lambda>_. None) plans)"

section \<open>Placement\<close>

partial_function (option) place_item ::
    "item_id set \<Rightarrow> nat \<Rightarrow> item_id \<Rightarrow> wave list \<Rightarrow> nat \<Rightarrow> (wave list \<times> nat) option" where
  "place_item neighbors width item waves target =
     (if length waves < target \<or> (target = length waves \<and> u32_try_from target = None) then None
      else
        let waves = (if target = length waves
                     then waves @ [\<lparr>wave_id = of_nat target, wave_items = []\<rparr>] else waves);
            w = waves ! target
        in if \<not> list_ex (\<lambda>other. other \<in> neighbors) (wave_items w) \<and> length (wave_items w) < width
           then Some (waves[target := w\<lparr>wave_items := wave_items w @ [item]\<rparr>], target)
           else place_item neighbors width item waves (target + 1))"

declare place_item.simps [code]

definition dep_floor :: "item_id deps \<Rightarrow> (item_id \<Rightarrow> nat option) \<Rightarrow> item_id \<Rightarrow> nat" where
  "dep_floor deps placement item =
     (case List.map_filter placement (targets deps item) of
        [] \<Rightarrow> 0
      | ws \<Rightarrow> Max (set ws) + 1)"

fun place_all ::
    "item_id deps \<Rightarrow> conflict_graph \<Rightarrow> nat \<Rightarrow> write_plan list \<Rightarrow> wave list
      \<Rightarrow> (item_id \<Rightarrow> nat option) \<Rightarrow> wave list option" where
  "place_all deps graph width [] waves placement = Some waves"
| "place_all deps graph width (plan # plans) waves placement =
     (case place_item (neighbors_of graph (item_id plan)) width (item_id plan) waves
             (dep_floor deps placement (item_id plan)) of
        None \<Rightarrow> None
      | Some (waves', target) \<Rightarrow>
          place_all deps graph width plans waves' (placement(item_id plan \<mapsto> target)))"

definition place_waves ::
    "string \<Rightarrow> write_plan list \<Rightarrow> item_id deps \<Rightarrow> conflict_graph \<Rightarrow> nat \<Rightarrow> schedule option" where
  "place_waves stage_id ordered deps graph width =
     map_option (\<lambda>waves. \<lparr>schedule_stage_id = stage_id, schedule_waves = waves\<rparr>)
       (place_all deps graph width ordered [] (\<lambda>_. None))"

section \<open>The schedule\<close>

definition first_missing_targets :: "write_plan list \<Rightarrow> schedule_error option" where
  "first_missing_targets plans =
     (case find (\<lambda>p. target_files p = []) plans of
        Some p \<Rightarrow> Some (PlanMissingTargets (item_id p)) | None \<Rightarrow> None)"

fun first_unknown_dependency :: "item_id list \<Rightarrow> item_id deps \<Rightarrow> write_plan list \<Rightarrow> schedule_error option" where
  "first_unknown_dependency known deps [] = None"
| "first_unknown_dependency known deps (plan # plans) =
     (case find (\<lambda>t. t \<notin> set known) (targets deps (item_id plan)) of
        Some t \<Rightarrow> Some (UnknownDependency (item_id plan) t)
      | None \<Rightarrow> first_unknown_dependency known deps plans)"

text \<open>\<^const>\<open>None\<close>: the computation does not return; \<open>Inl\<close>: the error the code returns.\<close>

definition build_schedule ::
    "globset_compiler \<Rightarrow> string \<Rightarrow> write_plan list \<Rightarrow> item_id deps \<Rightarrow> wave_caps
      \<Rightarrow> (schedule_error + schedule) option" where
  "build_schedule glob stage_id plans deps caps =
     (if plans = [] then Some (Inl EmptyPlans)
      else
        (case first_missing_targets plans of
           Some e \<Rightarrow> Some (Inl e)
         | None \<Rightarrow>
             (case first_unknown_dependency (map item_id plans) deps plans of
                Some e \<Rightarrow> Some (Inl e)
              | None \<Rightarrow>
                  (case kahn_topo_sort item_id deps plans of
                     None \<Rightarrow> None
                   | Some (Inl cycle) \<Rightarrow> Some (Inl (CyclicDependency cycle))
                   | Some (Inr ordered) \<Rightarrow>
                       map_option Inr
                         (place_waves stage_id ordered deps (build_conflict_graph glob ordered)
                           (caps_effective caps))))))"

definition schedule_summary_of :: "schedule \<Rightarrow> schedule_summary" where
  "schedule_summary_of s =
     (let widths = map (\<lambda>w. length (wave_items w)) (schedule_waves s);
          mw = (if widths = [] then 0 else Max (set widths));
          largest = (case find (\<lambda>w. length (wave_items w) = mw) (schedule_waves s) of
                       Some w \<Rightarrow> wave_items w | None \<Rightarrow> [])
      in \<lparr>wave_count = length (schedule_waves s), max_width = mw,
          total_items = sum_list widths, items_in_largest_wave = largest\<rparr>)"

section \<open>Placing one item\<close>

definition put_item :: "item_id \<Rightarrow> nat \<Rightarrow> wave list \<Rightarrow> wave list" where
  "put_item item t waves =
     (if t < length waves
      then waves[t := (waves ! t)\<lparr>wave_items := wave_items (waves ! t) @ [item]\<rparr>]
      else waves @ [\<lparr>wave_id = of_nat t, wave_items = [item]\<rparr>])"

definition room :: "item_id set \<Rightarrow> nat \<Rightarrow> wave \<Rightarrow> bool" where
  "room neighbors width w \<longleftrightarrow> set (wave_items w) \<inter> neighbors = {} \<and> length (wave_items w) < width"

lemma place_item_spec:
  "target \<le> length waves \<Longrightarrow> 1 \<le> width \<Longrightarrow> length waves < 2 ^ 32 \<Longrightarrow>
   \<exists>t. target \<le> t \<and> t \<le> length waves \<and>
     place_item neighbors width item waves target = Some (put_item item t waves, t) \<and>
     (t < length waves \<longrightarrow> room neighbors width (waves ! t)) \<and>
     (\<forall>k. target \<le> k \<longrightarrow> k < t \<longrightarrow> \<not> room neighbors width (waves ! k))"
proof (induction "length waves - target" arbitrary: target)
  case 0
  then have "target = length waves" by simp
  with 0 show ?case
    by (intro exI [of _ target])
      (simp add: place_item.simps [of _ _ _ _ "length waves"] put_item_def u32_try_from_def Let_def)
next
  case (Suc n)
  then have lt: "target < length waves" by simp
  show ?case
  proof (cases "room neighbors width (waves ! target)")
    case True
    with lt show ?thesis
      by (intro exI [of _ target])
        (auto simp: place_item.simps [of _ _ _ _ target] put_item_def room_def list_ex_iff Let_def)
  next
    case False
    have "n = length waves - (target + 1)" using Suc.hyps(2) by simp
    from Suc.hyps(1) [OF this] lt Suc.prems obtain t where t: "target + 1 \<le> t" "t \<le> length waves"
      "place_item neighbors width item waves (target + 1) = Some (put_item item t waves, t)"
      "t < length waves \<longrightarrow> room neighbors width (waves ! t)"
      "\<forall>k. target + 1 \<le> k \<longrightarrow> k < t \<longrightarrow> \<not> room neighbors width (waves ! k)" by auto
    have "place_item neighbors width item waves target = place_item neighbors width item waves (target + 1)"
      using False lt by (subst place_item.simps) (auto simp: room_def list_ex_iff Let_def)
    with t False show ?thesis
      by (intro exI [of _ t]) (auto simp: le_Suc_eq Suc_le_eq nat_less_le)
  qed
qed

section \<open>The invariant of the placement\<close>

definition at :: "wave list \<Rightarrow> nat \<Rightarrow> item_id \<Rightarrow> bool" where
  "at waves t x \<longleftrightarrow> t < length waves \<and> x \<in> set (wave_items (waves ! t))"

lemma at_put_item:
  "t \<le> length waves \<Longrightarrow> at (put_item item t waves) k x \<longleftrightarrow> at waves k x \<or> (k = t \<and> x = item)"
  by (auto simp: at_def put_item_def nth_list_update nth_append less_Suc_eq)

lemma mset_put_item:
  "t \<le> length waves \<Longrightarrow>
   mset (concat (map wave_items (put_item item t waves))) = add_mset item (mset (concat (map wave_items waves)))"
proof (cases "t < length waves")
  case True
  have "mset (concat (map wave_items (waves[t := (waves ! t)\<lparr>wave_items := wave_items (waves ! t) @ [item]\<rparr>])))
      = add_mset item (mset (concat (map wave_items waves)))"
    by (subst (3) id_take_nth_drop [OF True], subst upd_conv_take_nth_drop [OF True]) simp
  with True show ?thesis by (simp add: put_item_def)
qed (simp add: put_item_def)

definition wave_inv ::
    "item_id deps \<Rightarrow> conflict_graph \<Rightarrow> nat \<Rightarrow> item_id list \<Rightarrow> wave list \<Rightarrow> (item_id \<Rightarrow> nat option) \<Rightarrow> bool" where
  "wave_inv deps graph width placed waves placement \<longleftrightarrow>
     (\<forall>x t. placement x = Some t \<longleftrightarrow> at waves t x)
     \<and> mset (concat (map wave_items waves)) = mset placed
     \<and> (\<forall>k < length waves. wave_id (waves ! k) = of_nat k
          \<and> 0 < length (wave_items (waves ! k)) \<and> length (wave_items (waves ! k)) \<le> width)
     \<and> (\<forall>k x y. at waves k x \<longrightarrow> at waves k y \<longrightarrow> x \<noteq> y \<longrightarrow> y \<notin> neighbors_of graph x)
     \<and> (\<forall>k x y. at waves k x \<longrightarrow> y \<in> set (targets deps x) \<longrightarrow> (\<exists>j < k. at waves j y))"

lemma wave_inv_length: "wave_inv deps graph width placed waves placement \<Longrightarrow> length waves \<le> length placed"
proof -
  assume inv: "wave_inv deps graph width placed waves placement"
  have "list_all (\<lambda>w. 0 < length (wave_items w)) ws \<Longrightarrow> length ws \<le> length (concat (map wave_items ws))" for ws :: "wave list"
    by (induction ws) (auto simp: neq_Nil_conv)
  from this [of waves] inv have "length waves \<le> length (concat (map wave_items waves))"
    by (auto simp: wave_inv_def list_all_length)
  also have "\<dots> = length placed" using inv by (metis wave_inv_def size_mset)
  finally show ?thesis .
qed

lemma wave_inv_placed:
  "wave_inv deps graph width placed waves placement \<Longrightarrow> x \<in> set placed \<longleftrightarrow> (\<exists>t. at waves t x)"
proof -
  assume "wave_inv deps graph width placed waves placement"
  then have "set placed = set (concat (map wave_items waves))"
    by (metis wave_inv_def set_mset_mset)
  also have "\<dots> = {x. \<exists>t. at waves t x}" unfolding at_def by (simp add: set_conv_nth [of waves]) blast
  finally show ?thesis by auto
qed

lemma set_map_filter_list: "set (List.map_filter f xs) = {y. \<exists>x\<in>set xs. f x = Some y}"
  by (induction xs) (auto simp: map_filter_simps split: option.splits)

lemma dep_floor_bounds:
  assumes inv: "wave_inv deps graph width placed waves placement"
    and sub: "set (targets deps x) \<subseteq> set placed"
  shows "dep_floor deps placement x \<le> length waves"
    and "\<And>y. y \<in> set (targets deps x) \<Longrightarrow> \<exists>j < dep_floor deps placement x. at waves j y"
proof -
  let ?ws = "List.map_filter placement (targets deps x)"
  have ws: "set ?ws = {t. \<exists>y\<in>set (targets deps x). placement y = Some t}"
    by (simp add: set_map_filter_list)
  have "t < length waves" if "t \<in> set ?ws" for t
    using that inv by (auto simp: ws wave_inv_def at_def)
  then show "dep_floor deps placement x \<le> length waves"
    by (auto simp: dep_floor_def Suc_le_eq split: list.splits)
  fix y assume y: "y \<in> set (targets deps x)"
  with sub wave_inv_placed [OF inv] obtain j where j: "at waves j y" by auto
  then have "placement y = Some j" using inv by (simp add: wave_inv_def)
  with y have "j \<in> set ?ws" by (auto simp: ws)
  then have "j < dep_floor deps placement x"
    by (auto simp: dep_floor_def less_Suc_eq_le split: list.splits)
  with j show "\<exists>j < dep_floor deps placement x. at waves j y" by blast
qed

lemma wave_inv_step:
  assumes inv: "wave_inv deps graph width placed waves placement"
    and new: "x \<notin> set placed" and sub: "set (targets deps x) \<subseteq> set placed"
    and t: "dep_floor deps placement x \<le> t" "t \<le> length waves" "1 \<le> width"
    and fits: "t < length waves \<longrightarrow> room (neighbors_of graph x) width (waves ! t)"
    and sym: "\<And>x y. y \<in> neighbors_of graph x \<longleftrightarrow> x \<in> neighbors_of graph y"
  shows "wave_inv deps graph width (placed @ [x]) (put_item x t waves) (placement(x \<mapsto> t))"
proof -
  let ?waves = "put_item x t waves"
  have fresh: "\<not> at waves k x" for k using new wave_inv_placed [OF inv] by blast
  note at = at_put_item [OF t(2), of x]
  have free: "at waves t y \<Longrightarrow> y \<notin> neighbors_of graph x" for y using fits by (auto simp: room_def at_def)
  have "(placement(x \<mapsto> t)) y = Some k \<longleftrightarrow> at ?waves k y" for y k
    using inv fresh unfolding at by (auto simp: wave_inv_def)
  moreover have "mset (concat (map wave_items ?waves)) = mset (placed @ [x])"
    using inv by (simp add: mset_put_item [OF t(2)] wave_inv_def)
  moreover have "wave_id (?waves ! k) = of_nat k \<and> 0 < length (wave_items (?waves ! k))
      \<and> length (wave_items (?waves ! k)) \<le> width" if "k < length ?waves" for k
    using inv that fits t(2,3)
    by (auto simp: wave_inv_def put_item_def room_def nth_list_update nth_append less_Suc_eq split: if_splits)
  moreover have "z \<notin> neighbors_of graph y" if "at ?waves k y" "at ?waves k z" "y \<noteq> z" for k y z
    using that inv free sym unfolding at by (auto simp: wave_inv_def)
  moreover have "\<exists>j < k. at ?waves j z" if a: "at ?waves k y" and z: "z \<in> set (targets deps y)" for k y z
  proof -
    from a consider "at waves k y" | "k = t" "y = x" unfolding at by blast
    then show ?thesis
    proof cases
      case 1
      moreover have "\<forall>k x y. at waves k x \<longrightarrow> y \<in> set (targets deps x) \<longrightarrow> (\<exists>j < k. at waves j y)"
        using inv by (simp add: wave_inv_def)
      ultimately obtain j where "j < k" "at waves j z" using z by blast
      then show ?thesis unfolding at by blast
    next
      case 2
      with dep_floor_bounds(2) [OF inv sub] z t(1) obtain j where "j < k" "at waves j z"
        by (metis order.strict_trans2)
      then show ?thesis unfolding at by blast
    qed
  qed
  ultimately show ?thesis unfolding wave_inv_def by blast
qed

lemma place_all_inv:
  assumes "wave_inv deps graph width placed waves placement" and "1 \<le> width"
    and "distinct (placed @ map item_id plans)" and "topological (edges deps) (placed @ map item_id plans)"
    and "length (placed @ map item_id plans) < 2 ^ 32"
    and sym: "\<And>x y. y \<in> neighbors_of graph x \<longleftrightarrow> x \<in> neighbors_of graph y"
  shows "\<exists>waves' placement'. place_all deps graph width plans waves placement = Some waves' \<and>
    wave_inv deps graph width (placed @ map item_id plans) waves' placement'"
  using assms(1-5)
proof (induction plans arbitrary: placed waves placement)
  case Nil
  then show ?case by auto
next
  case (Cons plan plans)
  let ?x = "item_id plan" and ?f = "dep_floor deps placement (item_id plan)"
  have topo: "topological (edges deps) ((placed @ [?x]) @ map item_id plans)" using Cons.prems(4) by simp
  then have "topological (edges deps) (placed @ [?x])"
    by (rule topological_append)
  then have sub: "set (targets deps ?x) \<subseteq> set placed" by (auto simp: topological_snoc edges_def)
  have new: "?x \<notin> set placed" using Cons.prems(3) by simp
  have len: "length waves < 2 ^ 32" using wave_inv_length [OF Cons.prems(1)] Cons.prems(5) by simp
  from place_item_spec [OF dep_floor_bounds(1) [OF Cons.prems(1) sub] Cons.prems(2) len,
      of "neighbors_of graph ?x" ?x]
  obtain t where t: "?f \<le> t" "t \<le> length waves"
    "place_item (neighbors_of graph ?x) width ?x waves ?f = Some (put_item ?x t waves, t)"
    "t < length waves \<longrightarrow> room (neighbors_of graph ?x) width (waves ! t)" by blast
  from Cons.IH [OF wave_inv_step [OF Cons.prems(1) new sub t(1,2) Cons.prems(2) t(4) sym] Cons.prems(2)]
    Cons.prems(3,5) topo t(3)
  show ?case by (simp del: fun_upd_apply)
qed

lemma wave_inv_empty: "wave_inv deps graph width [] [] (\<lambda>_. None)"
  by (simp add: wave_inv_def at_def)

section \<open>The conflict graph\<close>

lemma items_conflict_sym: "items_conflict glob p q = items_conflict glob q p"
proof -
  have "(\<exists>a\<in>A. \<exists>b\<in>B. keys_conflict glob a b) \<longleftrightarrow> (\<exists>b\<in>B. \<exists>a\<in>A. keys_conflict glob b a)" for A B
    by (metis keys_conflict_sym)
  then show ?thesis by (simp add: items_conflict_def list_ex_iff conj_commute)
qed

fun conflicting :: "globset_compiler \<Rightarrow> write_plan list \<Rightarrow> item_id \<Rightarrow> item_id \<Rightarrow> bool" where
  "conflicting glob [] x y = False"
| "conflicting glob (l # rest) x y =
     ((\<exists>r\<in>set rest. items_conflict glob l r \<and>
         ((x = item_id l \<and> y = item_id r) \<or> (x = item_id r \<and> y = item_id l)))
      \<or> conflicting glob rest x y)"

lemma conflicting_sym: "conflicting glob plans x y = conflicting glob plans y x"
  by (induction plans) auto

lemma neighbors_add: "neighbors_of (add_neighbor x y g) z = (if z = x then insert y (neighbors_of g z) else neighbors_of g z)"
  by (simp add: add_neighbor_def neighbors_of_def)

lemma neighbors_fold:
  "y \<in> neighbors_of (foldl (\<lambda>g right. if items_conflict glob l right
        then add_neighbor (item_id right) (item_id l) (add_neighbor (item_id l) (item_id right) g) else g) g rest) x
   \<longleftrightarrow> y \<in> neighbors_of g x \<or> (\<exists>r\<in>set rest. items_conflict glob l r \<and>
         ((x = item_id l \<and> y = item_id r) \<or> (x = item_id r \<and> y = item_id l)))"
  by (induction rest arbitrary: g) (auto simp: neighbors_add split: if_splits)

lemma neighbors_pairs:
  "y \<in> neighbors_of (conflict_pairs glob plans g) x \<longleftrightarrow> y \<in> neighbors_of g x \<or> conflicting glob plans x y"
  by (induction plans arbitrary: g) (auto simp: neighbors_fold)

lemma neighbors_build: "y \<in> neighbors_of (build_conflict_graph glob plans) x \<longleftrightarrow> conflicting glob plans x y"
proof -
  have "neighbors_of (foldl (\<lambda>g p. g(item_id p \<mapsto> {})) g plans) x = {}" if "neighbors_of g x = {}" for g
    using that by (induction plans arbitrary: g) (auto simp: neighbors_of_def)
  from this [of "\<lambda>_. None"] show ?thesis
    by (simp add: build_conflict_graph_def neighbors_pairs) (simp add: neighbors_of_def)
qed

lemma conflicting_iff:
  "distinct (map item_id plans) \<Longrightarrow>
   conflicting glob plans x y \<longleftrightarrow>
     (\<exists>p\<in>set plans. \<exists>q\<in>set plans. p \<noteq> q \<and> item_id p = x \<and> item_id q = y \<and> items_conflict glob p q)"
proof (induction plans)
  case (Cons l rest)
  then have l: "l \<notin> set rest" by auto
  have "(\<exists>p\<in>set (l # rest). \<exists>q\<in>set (l # rest). p \<noteq> q \<and> item_id p = x \<and> item_id q = y \<and> items_conflict glob p q)
      \<longleftrightarrow> (\<exists>r\<in>set rest. item_id l = x \<and> item_id r = y \<and> items_conflict glob l r)
        \<or> (\<exists>r\<in>set rest. item_id r = x \<and> item_id l = y \<and> items_conflict glob r l)
        \<or> (\<exists>p\<in>set rest. \<exists>q\<in>set rest. p \<noteq> q \<and> item_id p = x \<and> item_id q = y \<and> items_conflict glob p q)"
    using l by auto
  also have "\<dots> \<longleftrightarrow> conflicting glob (l # rest) x y"
    using Cons items_conflict_sym [of glob l] by auto
  finally show ?case by (rule sym)
qed simp

section \<open>The contract of a schedule\<close>

definition plans_ok :: "write_plan list \<Rightarrow> item_id deps \<Rightarrow> bool" where
  "plans_ok plans deps \<longleftrightarrow>
     distinct (map item_id plans) \<and> list_all (\<lambda>p. distinct (targets deps (item_id p))) plans
     \<and> length plans < 2 ^ 32"

definition schedule_ready :: "write_plan list \<Rightarrow> item_id deps \<Rightarrow> bool" where
  "schedule_ready plans deps \<longleftrightarrow>
     plans \<noteq> [] \<and> list_all (\<lambda>p. target_files p \<noteq> []) plans
     \<and> list_all (\<lambda>p. set (targets deps (item_id p)) \<subseteq> item_id ` set plans) plans"

definition cyclic_items :: "write_plan list \<Rightarrow> item_id deps \<Rightarrow> bool" where
  "cyclic_items plans deps \<longleftrightarrow> (\<exists>x\<in>item_id ` set plans. (x, x) \<in> (edges deps)\<^sup>+)"

definition good_schedule ::
    "globset_compiler \<Rightarrow> write_plan list \<Rightarrow> item_id deps \<Rightarrow> wave_caps \<Rightarrow> wave list \<Rightarrow> bool" where
  "good_schedule glob plans deps caps waves \<longleftrightarrow>
     mset (concat (map wave_items waves)) = mset (map item_id plans)
     \<and> (\<forall>k < length waves. wave_id (waves ! k) = of_nat k
          \<and> 0 < length (wave_items (waves ! k)) \<and> length (wave_items (waves ! k)) \<le> caps_effective caps)
     \<and> (\<forall>k. \<forall>p\<in>set plans. \<forall>q\<in>set plans. at waves k (item_id p) \<longrightarrow> at waves k (item_id q) \<longrightarrow>
          p \<noteq> q \<longrightarrow> \<not> items_conflict glob p q)
     \<and> (\<forall>k x y. at waves k x \<longrightarrow> y \<in> set (targets deps x) \<longrightarrow> (\<exists>j < k. at waves j y))"

lemma caps_effective_pos: "1 \<le> caps_effective caps"
  by (simp add: caps_effective_def Let_def)

lemma first_missing_targets_None:
  "first_missing_targets plans = None \<longleftrightarrow> list_all (\<lambda>p. target_files p \<noteq> []) plans"
  by (auto simp: first_missing_targets_def find_None_iff list_all_iff split: option.splits
      dest: find_Some_iff_set)

lemma first_unknown_dependency_None:
  "first_unknown_dependency known deps plans = None \<longleftrightarrow>
     list_all (\<lambda>p. set (targets deps (item_id p)) \<subseteq> set known) plans"
  by (induction plans) (auto simp: find_None_iff split: option.splits dest: find_Some_iff_set)

lemma schedule_ready_checks:
  "schedule_ready plans deps \<longleftrightarrow>
     plans \<noteq> [] \<and> first_missing_targets plans = None
     \<and> first_unknown_dependency (map item_id plans) deps plans = None"
  by (simp add: schedule_ready_def first_missing_targets_None first_unknown_dependency_None)

lemma place_waves_good:
  assumes ok: "plans_ok plans deps" and perm: "mset ordered = mset plans"
    and topo: "topological (edges deps) (map item_id ordered)"
  shows "\<exists>s. place_waves stage ordered deps (build_conflict_graph glob ordered) (caps_effective caps) = Some s
    \<and> schedule_stage_id s = stage \<and> good_schedule glob plans deps caps (schedule_waves s)"
proof -
  let ?g = "build_conflict_graph glob ordered"
  have set: "set ordered = set plans" using perm by (metis set_mset_mset)
  have dist: "distinct (map item_id ordered)"
    using ok perm by (metis mset_eq_imp_distinct_iff mset_map plans_ok_def)
  have len: "length ordered = length plans" using perm by (rule mset_eq_length)
  have sym: "y \<in> neighbors_of ?g x \<longleftrightarrow> x \<in> neighbors_of ?g y" for x y
    by (simp add: neighbors_build conflicting_sym)
  obtain waves placement where w: "place_all deps ?g (caps_effective caps) ordered [] (\<lambda>_. None) = Some waves"
    and inv: "wave_inv deps ?g (caps_effective caps) (map item_id ordered) waves placement"
    using place_all_inv [OF wave_inv_empty caps_effective_pos, of ordered deps ?g caps, OF _ _ _ sym]
      dist topo len ok by (auto simp: plans_ok_def)
  have m: "mset (map item_id ordered) = mset (map item_id plans)" using perm by (metis mset_map)
  have no: "\<not> items_conflict glob p q"
    if "p \<in> set plans" "q \<in> set plans" "at waves k (item_id p)" "at waves k (item_id q)" "p \<noteq> q" for p q k
  proof -
    have "item_id p \<noteq> item_id q"
      using that ok by (auto simp: plans_ok_def distinct_map dest: inj_onD)
    with inv that have "\<not> conflicting glob ordered (item_id p) (item_id q)"
      by (auto simp: wave_inv_def neighbors_build)
    with that set show ?thesis by (auto simp: conflicting_iff [OF dist])
  qed
  have "good_schedule glob plans deps caps waves"
    unfolding good_schedule_def using inv no m unfolding wave_inv_def by (metis (no_types, lifting))
  with w show ?thesis by (simp add: place_waves_def)
qed

lemma build_schedule_cases:
  assumes "plans_ok plans deps" and "schedule_ready plans deps"
  shows "(\<exists>cycle. build_schedule glob stage plans deps caps = Some (Inl (CyclicDependency cycle))
            \<and> cyclic_items plans deps)
    \<or> (\<exists>s. build_schedule glob stage plans deps caps = Some (Inr s) \<and> schedule_stage_id s = stage
         \<and> good_schedule glob plans deps caps (schedule_waves s) \<and> \<not> cyclic_items plans deps)"
proof -
  have "deps_known item_id deps plans"
    using assms by (auto simp: deps_known_def plans_ok_def schedule_ready_def list_all_iff)
  note k = kahn_topo_sort_correct [OF this]
  have b: "build_schedule glob stage plans deps caps =
      (case kahn_topo_sort item_id deps plans of
         None \<Rightarrow> None
       | Some (Inl cycle) \<Rightarrow> Some (Inl (CyclicDependency cycle))
       | Some (Inr ordered) \<Rightarrow>
           map_option Inr (place_waves stage ordered deps (build_conflict_graph glob ordered) (caps_effective caps)))"
    using assms(2) by (simp add: build_schedule_def schedule_ready_checks)
  show ?thesis
  proof (cases "kahn_topo_sort item_id deps plans")
    case (Some r)
    show ?thesis
    proof (cases r)
      case (Inr ordered)
      with k Some have o: "mset ordered = mset plans" "topological (edges deps) (map item_id ordered)" by simp_all
      have "distinct (map item_id ordered)" "set (map item_id ordered) = item_id ` set plans"
        using o(1) assms(1) by (metis mset_eq_imp_distinct_iff mset_map plans_ok_def)
          (metis o(1) set_map set_mset_mset)
      with topological_acyclic [OF o(2)] have "\<not> cyclic_items plans deps"
        unfolding cyclic_items_def by metis
      with place_waves_good [OF assms(1) o, of stage glob caps] b Some Inr show ?thesis by auto
    next
      case (Inl cycle)
      with k Some have "cyclic_items plans deps" by (auto simp: cyclic_items_def)
      with Some Inl b show ?thesis by simp
    qed
  qed (use k in simp)
qed

section \<open>Properties\<close>

text \<open>
  C27. A schedule keeps its contract: every item is in exactly one wave, no wave is empty or
  wider than the effective cap, two different items of one wave do not conflict, and every
  dependency of an item is in a strictly earlier wave.
\<close>

theorem schedule_is_good:
  assumes "plans_ok plans deps" and "build_schedule glob stage plans deps caps = Some (Inr s)"
  shows "good_schedule glob plans deps caps (schedule_waves s)"
proof -
  have "schedule_ready plans deps"
    using assms(2) by (auto simp: build_schedule_def schedule_ready_checks split: if_splits option.splits)
  from build_schedule_cases [OF assms(1) this, of glob stage caps] assms(2) show ?thesis by auto
qed


section \<open>A concrete schedule\<close>

definition example_plan :: "item_id \<Rightarrow> string \<Rightarrow> write_plan" where
  "example_plan i file =
     \<lparr>run_id = ''r'', plan_stage_id = ''s'', item_id = i, plan_canonical_root = ''/c'',
      isolated_root = ''/w'', target_files = [file], target_dir_scopes = [], plan_source = FromItem,
      read_context_files = [], verify_inputs = [], baseline_id = ''git:0'',
      workspace_boundary_required = False, resource_keys = [File file]\<rparr>"

definition example_plans :: "write_plan list" where
  "example_plans = [example_plan ''b'' ''x'', example_plan ''a'' ''y'', example_plan ''c'' ''x'']"

definition example_deps :: "item_id deps" where
  "example_deps = (\<lambda>i. if i = ''b'' then Some [''a''] else None)"

definition example_caps :: wave_caps where
  "example_caps = \<lparr>caps_run = 4, caps_policy = 2, caps_stage = None, caps_runner = None, caps_subagent = None\<rparr>"

lemma example_plans_ok: "plans_ok example_plans example_deps"
  by (simp add: plans_ok_def example_plans_def example_deps_def example_plan_def targets_def)



abbreviation example_order :: "write_plan list" where
  "example_order \<equiv> [example_plan ''a'' ''y'', example_plan ''b'' ''x'', example_plan ''c'' ''x'']"

lemma example_sorted: "kahn_topo_sort item_id example_deps example_plans = Some (Inr example_order)"
  by code_simp

lemma example_neighbors:
  "neighbors_of (build_conflict_graph (\<lambda>_. None) example_order) ''a'' = {}"
  "neighbors_of (build_conflict_graph (\<lambda>_. None) example_order) ''b'' = {''c''}"
  "neighbors_of (build_conflict_graph (\<lambda>_. None) example_order) ''c'' = {''b''}"
  by code_simp+

lemma example_schedule:
  "build_schedule (\<lambda>_. None) ''s'' example_plans example_deps example_caps =
     Some (Inr \<lparr>schedule_stage_id = ''s'',
       schedule_waves = [\<lparr>wave_id = 0, wave_items = [''a'', ''c'']\<rparr>, \<lparr>wave_id = 1, wave_items = [''b'']\<rparr>]\<rparr>)"
proof -
  have ids: "item_id (example_plan i f) = i" for i f by (simp add: example_plan_def)
  have ts: "targets example_deps ''a'' = []" "targets example_deps ''b'' = [''a'']"
    "targets example_deps ''c'' = []" by (simp_all add: targets_def example_deps_def)
  have ready: "schedule_ready example_plans example_deps" by code_simp
  have caps: "caps_effective example_caps = 2" by code_simp
  show ?thesis
    using ready
    by (simp add: build_schedule_def schedule_ready_checks example_sorted place_waves_def ids
        example_neighbors caps dep_floor_def ts map_filter_simps
        place_item.simps u32_try_from_def)
qed

theorem schedule_is_good_witness:
  "good_schedule (\<lambda>_. None) example_plans example_deps example_caps
     [\<lparr>wave_id = 0, wave_items = [''a'', ''c'']\<rparr>, \<lparr>wave_id = 1, wave_items = [''b'']\<rparr>]"
  using schedule_is_good [OF example_plans_ok example_schedule] by simp


end
