(* ===== verification/Topo_IR.thy ===== *)
theory Topo_IR imports Rust_Base begin

text \<open>
  \<^verbatim>\<open>crates/archon-topology/src/ir.rs\<close> and \<^verbatim>\<open>error.rs\<close>: the task graph that workflows, teams
  and sessions lower into. An empty \<open>consumes\<close>, \<open>writes\<close> or \<open>reads\<close> means unknown. Ordered
  types get the order Rust derives, so that sorted sets of them are sorted lists.
\<close>

datatype graph_origin =
    WorkflowOrigin string
  | TeamOrigin string
  | SessionOrigin string

datatype gate_kind = HumanGate | CheckpointGate

datatype node_role =
    PlanNode
  | WorkNode
  | VerifyNode
  | ReduceNode
  | GateNode gate_kind
  | ToolNode

definition is_gate :: "node_role \<Rightarrow> bool" where
  "is_gate r = (case r of GateNode _ \<Rightarrow> True | _ \<Rightarrow> False)"

record data_ref =
  producer :: string
  accessor :: string

datatype write_target = PathTarget string | ArtifactTarget string

primrec target_key :: "write_target \<Rightarrow> nat \<times> string" where
  "target_key (PathTarget s) = (0, s)" | "target_key (ArtifactTarget s) = (1, s)"

lemma target_key_inject [simp]: "target_key a = target_key b \<longleftrightarrow> a = b"
  by (cases a; cases b) simp_all

instantiation write_target :: linorder
begin

definition less_eq_write_target :: "write_target \<Rightarrow> write_target \<Rightarrow> bool" where
  "a \<le> b \<longleftrightarrow> fst (target_key a) < fst (target_key b) \<or>
     (fst (target_key a) = fst (target_key b) \<and> snd (target_key a) \<le> snd (target_key b))"

definition less_write_target :: "write_target \<Rightarrow> write_target \<Rightarrow> bool" where
  "a < b \<longleftrightarrow> fst (target_key a) < fst (target_key b) \<or>
     (fst (target_key a) = fst (target_key b) \<and> snd (target_key a) < snd (target_key b))"

instance
proof
  fix x y :: write_target
  assume "x \<le> y" "y \<le> x"
  then have "target_key x = target_key y" by (auto simp: less_eq_write_target_def prod_eq_iff)
  then show "x = y" by simp
qed (auto simp: less_eq_write_target_def less_write_target_def)

end

datatype permission_class = PSafe | PRisky | PIrreversible

primrec permission_rank :: "permission_class \<Rightarrow> nat" where
  "permission_rank PSafe = 0" | "permission_rank PRisky = 1" | "permission_rank PIrreversible = 2"

lemma permission_rank_inject [simp]: "permission_rank a = permission_rank b \<longleftrightarrow> a = b"
  by (cases a; cases b) simp_all

instantiation permission_class :: linorder
begin

definition less_eq_permission_class :: "permission_class \<Rightarrow> permission_class \<Rightarrow> bool" where
  "a \<le> b \<longleftrightarrow> permission_rank a \<le> permission_rank b"

definition less_permission_class :: "permission_class \<Rightarrow> permission_class \<Rightarrow> bool" where
  "a < b \<longleftrightarrow> permission_rank a < permission_rank b"

instance
  by standard (auto simp: less_eq_permission_class_def less_permission_class_def)

end

record fanout_spec =
  fanout_source :: "data_ref option"
  fanout_max_parallelism :: "u32 option"

record graph_budget =
  budget_max_parallelism :: u32
  budget_max_agents :: u32
  budget_max_rounds :: u32

definition default_budget :: graph_budget where
  "default_budget =
     \<lparr>budget_max_parallelism = 8, budget_max_agents = 200, budget_max_rounds = 1\<rparr>"

record task_node =
  node_id :: string
  node_role :: node_role
  depends_on :: "string list"
  consumes :: "data_ref list"
  node_writes :: "write_target list"
  node_reads :: "write_target list"
  node_permission :: permission_class
  node_agent :: "string option"
  node_fanout :: "fanout_spec option"

definition new_node :: "string \<Rightarrow> node_role \<Rightarrow> task_node" where
  "new_node i role =
     \<lparr>node_id = i, node_role = role, depends_on = [], consumes = [], node_writes = [],
      node_reads = [], node_permission = PSafe, node_agent = None, node_fanout = None\<rparr>"

definition dataflow_is_known :: "task_node \<Rightarrow> bool" where
  "dataflow_is_known n \<longleftrightarrow> consumes n \<noteq> []"

definition writes_are_known :: "task_node \<Rightarrow> bool" where
  "writes_are_known n \<longleftrightarrow> node_writes n \<noteq> []"

definition reads_are_known :: "task_node \<Rightarrow> bool" where
  "reads_are_known n \<longleftrightarrow> node_reads n \<noteq> []"

definition consumption_is_known :: "task_node \<Rightarrow> bool" where
  "consumption_is_known n \<longleftrightarrow> dataflow_is_known n \<or> reads_are_known n"

record task_graph =
  graph_id :: string
  graph_origin :: graph_origin
  nodes :: "task_node list"
  graph_budget :: graph_budget

definition new_graph :: "string \<Rightarrow> graph_origin \<Rightarrow> task_graph" where
  "new_graph i o' =
     \<lparr>graph_id = i, graph_origin = o', nodes = [], graph_budget = default_budget\<rparr>"

definition graph_node :: "task_graph \<Rightarrow> string \<Rightarrow> task_node option" where
  "graph_node g i = find (\<lambda>n. node_id n = i) (nodes g)"

definition dataflow_is_complete :: "task_graph \<Rightarrow> bool" where
  "dataflow_is_complete g \<longleftrightarrow> nodes g \<noteq> [] \<and> list_all dataflow_is_known (nodes g)"

datatype topology_error =
    DuplicateNode string
  | UnknownDependencyOf string string
  | CycleFound

definition topology_error_text :: "topology_error \<Rightarrow> string" where
  "topology_error_text e =
     (case e of
        DuplicateNode i \<Rightarrow> ''duplicate node id '' @ quoted i @ '' in task graph''
      | UnknownDependencyOf n d \<Rightarrow> ''node '' @ quoted n @ '' depends on unknown node '' @ quoted d
      | CycleFound \<Rightarrow> ''dependency cycle detected in task graph'')"

end
