(* ===== verification/Topo_Index.thy ===== *)
theory Topo_Index imports Topo_IR Topo_Sort begin

text \<open>
  \<^verbatim>\<open>crates/archon-topology/src/index.rs\<close>: the projection of a task graph onto positions, its
  validation, wave depths and reachability. \<^verbatim>\<open>petgraph::algo::toposort\<close> is the parameter
  \<open>topo\<close> of the definitions; the locale \<open>petgraph_toposort\<close> states its documented behaviour
  and is interpreted on the loop of \<^verbatim>\<open>kahn_topo_sort\<close>. The lemmas characterise validation, show
  that depths are lengths of longest chains, and that reachability is the transitive closure.
\<close>

type_synonym toposort = "nat \<Rightarrow> (nat \<times> nat) list \<Rightarrow> nat list option"

record graph_index =
  idx_edges :: "(nat \<times> nat) list"
  idx_by_id :: "string \<Rightarrow> nat option"
  topo_order :: "nat list"

section \<open>Building the index\<close>

fun index_ids ::
    "nat \<Rightarrow> task_node list \<Rightarrow> (string \<Rightarrow> nat option) \<Rightarrow> topology_error + (string \<Rightarrow> nat option)" where
  "index_ids position [] by_id = Inr by_id"
| "index_ids position (n # ns) by_id =
     (if by_id (node_id n) \<noteq> None then Inl (DuplicateNode (node_id n))
      else index_ids (Suc position) ns (by_id(node_id n \<mapsto> position)))"

fun node_edges ::
    "(string \<Rightarrow> nat option) \<Rightarrow> string \<Rightarrow> nat \<Rightarrow> string list \<Rightarrow> topology_error + (nat \<times> nat) list" where
  "node_edges by_id nid position [] = Inr []"
| "node_edges by_id nid position (d # ds) =
     (case by_id d of
        None \<Rightarrow> Inl (UnknownDependencyOf nid d)
      | Some from_position \<Rightarrow>
          map_sum id (\<lambda>es. (from_position, position) # es) (node_edges by_id nid position ds))"

fun graph_edges ::
    "(string \<Rightarrow> nat option) \<Rightarrow> nat \<Rightarrow> task_node list \<Rightarrow> topology_error + (nat \<times> nat) list" where
  "graph_edges by_id position [] = Inr []"
| "graph_edges by_id position (n # ns) =
     (case node_edges by_id (node_id n) position (depends_on n) of
        Inl e \<Rightarrow> Inl e
      | Inr es \<Rightarrow> map_sum id (\<lambda>rest. es @ rest) (graph_edges by_id (Suc position) ns))"

definition build :: "toposort \<Rightarrow> task_graph \<Rightarrow> topology_error + graph_index" where
  "build topo g =
     (case index_ids 0 (nodes g) (\<lambda>_. None) of
        Inl e \<Rightarrow> Inl e
      | Inr by_id \<Rightarrow>
          (case graph_edges by_id 0 (nodes g) of
             Inl e \<Rightarrow> Inl e
           | Inr es \<Rightarrow>
               (case topo (length (nodes g)) es of
                  None \<Rightarrow> Inl CycleFound
                | Some order \<Rightarrow> Inr \<lparr>idx_edges = es, idx_by_id = by_id, topo_order = order\<rparr>)))"

section \<open>Depths and reachability\<close>

definition node_depth :: "graph_index \<Rightarrow> task_graph \<Rightarrow> nat list \<Rightarrow> nat \<Rightarrow> nat" where
  "node_depth ix g ds position =
     (case map (\<lambda>p. ds ! p + 1) (List.map_filter (idx_by_id ix) (depends_on (nodes g ! position))) of
        [] \<Rightarrow> 0
      | xs \<Rightarrow> Max (set xs))"

definition depths :: "graph_index \<Rightarrow> task_graph \<Rightarrow> nat list" where
  "depths ix g =
     foldl (\<lambda>ds position. ds[position := node_depth ix g ds position])
       (replicate (length (nodes g)) 0) (topo_order ix)"

text \<open>\<^verbatim>\<open>neighbors_directed(_, Outgoing)\<close>: the targets of a node's edges, latest first.\<close>

definition successors :: "graph_index \<Rightarrow> nat \<Rightarrow> nat list" where
  "successors ix position = rev (map snd (filter (\<lambda>(a, b). a = position) (idx_edges ix)))"

definition absorb_successor :: "nat \<Rightarrow> bool list list \<Rightarrow> nat \<Rightarrow> bool list list" where
  "absorb_successor position reach successor =
     (let successor_row = reach ! successor;
          row = (reach ! position)[successor := True]
      in reach[position := map2 (\<or>) row successor_row])"

definition descendants :: "graph_index \<Rightarrow> task_graph \<Rightarrow> bool list list" where
  "descendants ix g =
     (let count = length (nodes g)
      in foldl (\<lambda>reach position. foldl (absorb_successor position) reach (successors ix position))
           (replicate count (replicate count False)) (rev (topo_order ix)))"

section \<open>Well-formed graphs\<close>

definition dep_rel :: "task_graph \<Rightarrow> (nat \<times> nat) set" where
  "dep_rel g = {(j, i). i < length (nodes g) \<and> j < length (nodes g)
     \<and> node_id (nodes g ! j) \<in> set (depends_on (nodes g ! i))}"

definition unique_ids :: "task_graph \<Rightarrow> bool" where
  "unique_ids g \<longleftrightarrow> distinct (map node_id (nodes g))"

definition known_deps :: "task_graph \<Rightarrow> bool" where
  "known_deps g \<longleftrightarrow> list_all (\<lambda>n. set (depends_on n) \<subseteq> node_id ` set (nodes g)) (nodes g)"

definition well_formed :: "task_graph \<Rightarrow> bool" where
  "well_formed g \<longleftrightarrow> unique_ids g \<and> known_deps g \<and> acyclic (dep_rel g)"

lemma finite_dep_rel: "finite (dep_rel g)"
  by (rule finite_subset [of _ "{..<length (nodes g)} \<times> {..<length (nodes g)}"]) (auto simp: dep_rel_def)

lemma index_ids_Inr:
  "index_ids pos ns m = Inr m' \<Longrightarrow>
     distinct (map node_id ns) \<and> (\<forall>n\<in>set ns. m (node_id n) = None) \<and>
     (\<forall>d. m' d = (if d \<in> node_id ` set ns then m' d else m d)) \<and>
     (\<forall>i < length ns. m' (node_id (ns ! i)) = Some (pos + i))"
proof (induction ns arbitrary: pos m)
  case (Cons n ns)
  from Cons.prems have none: "m (node_id n) = None"
    and rest: "index_ids (Suc pos) ns (m(node_id n \<mapsto> pos)) = Inr m'" by (auto split: if_splits)
  note IH = Cons.IH [OF rest]
  have new: "node_id n \<notin> node_id ` set ns" using IH by force
  then have here: "m' (node_id n) = Some pos" using IH by (metis fun_upd_same)
  have "m' (node_id ((n # ns) ! i)) = Some (pos + i)" if "i < length (n # ns)" for i
    using that here IH by (cases i) auto
  moreover have "m' d = m d" if "d \<notin> node_id ` set (n # ns)" for d
    using that IH by (metis fun_upd_other image_insert insertCI list.simps(15))
  moreover have "m (node_id k) = None" if "k \<in> set (n # ns)" for k
    using that IH none by (metis fun_upd_apply option.distinct(1) set_ConsD)
  moreover have "distinct (map node_id (n # ns))" using IH new by simp
  ultimately show ?case by simp
qed auto

lemma index_ids_error: "index_ids pos ns m = Inl e \<Longrightarrow> \<exists>i. e = DuplicateNode i"
  by (induction ns arbitrary: pos m) (auto split: if_splits)

lemma index_ids_distinct:
  "distinct (map node_id ns) \<Longrightarrow> \<forall>n\<in>set ns. m (node_id n) = None \<Longrightarrow> \<exists>m'. index_ids pos ns m = Inr m'"
proof (induction ns arbitrary: pos m)
  case (Cons n ns)
  have "\<forall>k\<in>set ns. (m(node_id n \<mapsto> pos)) (node_id k) = None"
    using Cons.prems by (force simp: image_iff)
  from Cons.IH [OF _ this] Cons.prems show ?case by (simp del: fun_upd_apply)
qed simp

text \<open>What the map and the edge list hold after validation.\<close>

definition maps_ids :: "(string \<Rightarrow> nat option) \<Rightarrow> task_graph \<Rightarrow> bool" where
  "maps_ids by_id g \<longleftrightarrow>
     (\<forall>d j. by_id d = Some j \<longleftrightarrow> j < length (nodes g) \<and> node_id (nodes g ! j) = d)"

lemma index_ids_maps:
  "index_ids 0 (nodes g) (\<lambda>_. None) = Inr by_id \<Longrightarrow> maps_ids by_id g \<and> unique_ids g"
proof -
  assume "index_ids 0 (nodes g) (\<lambda>_. None) = Inr by_id"
  note r = index_ids_Inr [OF this]
  have "by_id d = Some j \<longleftrightarrow> j < length (nodes g) \<and> node_id (nodes g ! j) = d" for d j
  proof
    assume some: "by_id d = Some j"
    with r have "d \<in> node_id ` set (nodes g)" by (metis option.distinct(1))
    then obtain i where i: "i < length (nodes g)" "d = node_id (nodes g ! i)"
      by (auto simp: in_set_conv_nth)
    with r some have "i = j" by simp
    with i show "j < length (nodes g) \<and> node_id (nodes g ! j) = d" by simp
  qed (use r in auto)
  with r show ?thesis by (simp add: maps_ids_def unique_ids_def)
qed

lemma node_edges_error: "node_edges by_id nid pos ds = Inl e \<Longrightarrow> \<exists>d\<in>set ds. by_id d = None \<and> e = UnknownDependencyOf nid d"
  by (induction ds) (auto split: option.splits simp: map_sum_def split: sum.splits)

lemma node_edges_Inr:
  "node_edges by_id nid pos ds = Inr es \<Longrightarrow>
     (\<forall>d\<in>set ds. by_id d \<noteq> None) \<and> set es = {(j, pos) | j. \<exists>d\<in>set ds. by_id d = Some j}"
  by (induction ds arbitrary: es) (auto split: option.splits simp: map_sum_def split: sum.splits)

lemma graph_edges_error:
  "graph_edges by_id pos ns = Inl e \<Longrightarrow>
     \<exists>n\<in>set ns. \<exists>d\<in>set (depends_on n). by_id d = None \<and> e = UnknownDependencyOf (node_id n) d"
  by (induction ns arbitrary: pos) (auto split: sum.splits simp: map_sum_def dest!: node_edges_error)

lemma graph_edges_Inr:
  "graph_edges by_id pos ns = Inr es \<Longrightarrow>
     (\<forall>n\<in>set ns. \<forall>d\<in>set (depends_on n). by_id d \<noteq> None) \<and>
     set es = {(j, pos + i) | j i. i < length ns \<and> (\<exists>d\<in>set (depends_on (ns ! i)). by_id d = Some j)}"
proof (induction ns arbitrary: pos es)
  case (Cons n ns)
  then obtain es1 es2 where es: "node_edges by_id (node_id n) pos (depends_on n) = Inr es1"
      "graph_edges by_id (Suc pos) ns = Inr es2" "es = es1 @ es2"
    by (auto split: sum.splits simp: map_sum_def)
  note one = node_edges_Inr [OF es(1)] and rest = Cons.IH [OF es(2)]
  have "set es1 \<union> set es2 = {(j, pos + i) | j i. i < length (n # ns) \<and>
      (\<exists>d\<in>set (depends_on ((n # ns) ! i)). by_id d = Some j)}" (is "_ = ?R")
  proof (intro set_eqI iffI)
    fix e assume "e \<in> set es1 \<union> set es2"
    then show "e \<in> ?R"
    proof
      assume "e \<in> set es1"
      with one obtain j where "e = (j, pos)" "\<exists>d\<in>set (depends_on n). by_id d = Some j" by auto
      then show ?thesis by (intro CollectI exI [of _ j] exI [of _ "0::nat"]) auto
    next
      assume "e \<in> set es2"
      with rest obtain j i where e: "e = (j, Suc pos + i)" "i < length ns"
        "\<exists>d\<in>set (depends_on (ns ! i)). by_id d = Some j" by blast
      then show ?thesis by (intro CollectI exI [of _ j] exI [of _ "Suc i"]) auto
    qed
  next
    fix e assume "e \<in> ?R"
    then obtain j i where e: "e = (j, pos + i)" "i < length (n # ns)"
      "\<exists>d\<in>set (depends_on ((n # ns) ! i)). by_id d = Some j" by auto
    show "e \<in> set es1 \<union> set es2"
      using e one rest by (cases i) auto
  qed
  with one rest es(3) show ?case by simp
qed simp

lemma graph_edges_dep_rel:
  assumes "maps_ids by_id g" and "graph_edges by_id 0 (nodes g) = Inr es"
  shows "set es = dep_rel g" and "known_deps g"
proof -
  note r = graph_edges_Inr [OF assms(2)]
  from r assms(1) show "set es = dep_rel g"
    by (auto simp: dep_rel_def maps_ids_def)
  have "d \<in> node_id ` set (nodes g)" if "n \<in> set (nodes g)" "d \<in> set (depends_on n)" for n d
  proof -
    from r that obtain j where "by_id d = Some j" by blast
    with assms(1) have "j < length (nodes g)" "node_id (nodes g ! j) = d" by (auto simp: maps_ids_def)
    then show ?thesis by force
  qed
  then show "known_deps g" by (auto simp: known_deps_def list_all_iff)
qed

lemma graph_edges_unknown:
  "maps_ids by_id g \<Longrightarrow> graph_edges by_id 0 (nodes g) = Inl e \<Longrightarrow>
     \<exists>n\<in>set (nodes g). \<exists>d\<in>set (depends_on n). d \<notin> node_id ` set (nodes g)
       \<and> e = UnknownDependencyOf (node_id n) d"
proof -
  assume m: "maps_ids by_id g" and "graph_edges by_id 0 (nodes g) = Inl e"
  from graph_edges_error [OF this(2)] obtain n d where "n \<in> set (nodes g)" "d \<in> set (depends_on n)"
    "by_id d = None" "e = UnknownDependencyOf (node_id n) d" by blast
  moreover have "d \<notin> node_id ` set (nodes g)"
  proof
    assume "d \<in> node_id ` set (nodes g)"
    then obtain i where "i < length (nodes g)" "node_id (nodes g ! i) = d"
      by (auto simp: in_set_conv_nth)
    with m have "by_id d = Some i" by (simp add: maps_ids_def)
    with \<open>by_id d = None\<close> show False by simp
  qed
  ultimately show ?thesis by blast
qed

section \<open>The contract of the sort\<close>

text \<open>
  What \<^verbatim>\<open>petgraph\<close> documents: on a graph of \<open>n\<close> nodes whose edges run from a node to one
  that must come later, an order of all nodes along the edges, or nothing if there is a cycle.
\<close>

locale petgraph_toposort =
  fixes topo :: toposort
  assumes sorts: "set es \<subseteq> {..<n} \<times> {..<n} \<Longrightarrow> topo n es = Some order \<Longrightarrow>
      distinct order \<and> set order = {..<n} \<and> topological ((set es)\<inverse>) order"
    and finds_cycle: "set es \<subseteq> {..<n} \<times> {..<n} \<Longrightarrow> topo n es = None \<Longrightarrow> \<not> acyclic (set es)"
begin

lemma sorts_iff_acyclic:
  assumes "set es \<subseteq> {..<n} \<times> {..<n}"
  shows "(\<exists>order. topo n es = Some order) \<longleftrightarrow> acyclic (set es)"
proof
  assume "\<exists>order. topo n es = Some order"
  then obtain order where o: "distinct order" "set order = {..<n}" "topological ((set es)\<inverse>) order"
    using sorts [OF assms] by blast
  show "acyclic (set es)"
  proof (rule acyclicI, intro allI notI)
    fix x assume c: "(x, x) \<in> (set es)\<^sup>+"
    then have "x \<in> {..<n}" using assms by (meson SigmaD1 subsetD tranclD)
    moreover have "(x, x) \<in> ((set es)\<inverse>)\<^sup>+" using c by (simp add: trancl_converse)
    ultimately show False using topological_acyclic [OF o(3,1)] o(2) by blast
  qed
qed (use finds_cycle [OF assms] in fastforce)

lemma build_Inr:
  assumes "build topo g = Inr ix"
  shows "well_formed g" and "maps_ids (idx_by_id ix) g" and "set (idx_edges ix) = dep_rel g"
    and "distinct (topo_order ix)" and "set (topo_order ix) = {..<length (nodes g)}"
    and "topological ((dep_rel g)\<inverse>) (topo_order ix)"
proof -
  from assms obtain by_id es order where i: "index_ids 0 (nodes g) (\<lambda>_. None) = Inr by_id"
    "graph_edges by_id 0 (nodes g) = Inr es" "topo (length (nodes g)) es = Some order"
    "ix = \<lparr>idx_edges = es, idx_by_id = by_id, topo_order = order\<rparr>"
    by (auto simp: build_def split: sum.splits option.splits)
  from index_ids_maps [OF i(1)] have m: "maps_ids by_id g" "unique_ids g" by simp_all
  note e = graph_edges_dep_rel [OF m(1) i(2)]
  have range: "set es \<subseteq> {..<length (nodes g)} \<times> {..<length (nodes g)}"
    unfolding e(1) by (auto simp: dep_rel_def)
  have "acyclic (set es)" using sorts_iff_acyclic [OF range] i(3) by blast
  with m e show "well_formed g" by (simp add: well_formed_def)
  show "maps_ids (idx_by_id ix) g" "set (idx_edges ix) = dep_rel g" using i(4) m e by simp_all
  show "distinct (topo_order ix)" "set (topo_order ix) = {..<length (nodes g)}"
    "topological ((dep_rel g)\<inverse>) (topo_order ix)"
    using sorts [OF range i(3)] i(4) e(1) by simp_all
qed

text \<open>Validation: the errors in the order they are looked for.\<close>

lemma build_cases:
  "(\<not> unique_ids g \<and> (\<exists>i. build topo g = Inl (DuplicateNode i)))
   \<or> (unique_ids g \<and> \<not> known_deps g \<and> (\<exists>n\<in>set (nodes g). \<exists>d\<in>set (depends_on n).
        d \<notin> node_id ` set (nodes g) \<and> build topo g = Inl (UnknownDependencyOf (node_id n) d)))
   \<or> (unique_ids g \<and> known_deps g \<and> \<not> acyclic (dep_rel g) \<and> build topo g = Inl CycleFound)
   \<or> (well_formed g \<and> (\<exists>ix. build topo g = Inr ix))"
proof (cases "index_ids 0 (nodes g) (\<lambda>_. None)")
  case (Inl e)
  with index_ids_error [OF this] index_ids_distinct [of "nodes g" "\<lambda>_. None" 0] show ?thesis
    by (auto simp: build_def unique_ids_def)
next
  case (Inr by_id)
  from index_ids_maps [OF this] have m: "maps_ids by_id g" "unique_ids g" by simp_all
  show ?thesis
  proof (cases "graph_edges by_id 0 (nodes g)")
    case (Inl e)
    from graph_edges_unknown [OF m(1) Inl] obtain n d where
      "n \<in> set (nodes g)" "d \<in> set (depends_on n)" "d \<notin> node_id ` set (nodes g)"
      "e = UnknownDependencyOf (node_id n) d" by blast
    moreover from this have "\<not> known_deps g" by (auto simp: known_deps_def list_all_iff)
    moreover have "build topo g = Inl e" using Inl Inr by (simp add: build_def)
    ultimately show ?thesis using m(2) by blast
  next
    case ie: (Inr es)
    note e = graph_edges_dep_rel [OF m(1) ie]
    have range: "set es \<subseteq> {..<length (nodes g)} \<times> {..<length (nodes g)}"
      unfolding e(1) by (auto simp: dep_rel_def)
    from sorts_iff_acyclic [OF range] e m(2) Inr ie show ?thesis
      by (cases "topo (length (nodes g)) es") (auto simp: build_def well_formed_def)
  qed
qed

lemma build_well_formed: "well_formed g \<Longrightarrow> \<exists>ix. build topo g = Inr ix"
  using build_cases [of g] by (auto simp: well_formed_def)

end

section \<open>The sort of the write scheduler satisfies the contract\<close>

definition kahn_positions :: toposort where
  "kahn_positions n es =
     (case kahn_order id (\<lambda>i. Some (remdups (map fst (filter (\<lambda>e. snd e = i) es)))) [0..<n] of
        Inl _ \<Rightarrow> None
      | Inr order \<Rightarrow> Some order)"

interpretation kahn: petgraph_toposort kahn_positions
proof
  fix es :: "(nat \<times> nat) list" and n :: nat
  assume range: "set es \<subseteq> {..<n} \<times> {..<n}"
  let ?d = "\<lambda>i. Some (remdups (map fst (filter (\<lambda>e. snd e = i) es)))"
  have E: "edges ?d = (set es)\<inverse>" by (force simp: edges_def targets_def)
  have dist: "\<forall>p\<in>set [0..<n]. distinct (targets ?d (id p))" by (simp add: targets_def)
  {
    fix order assume "kahn_positions n es = Some order"
    then have r: "kahn_order id ?d [0..<n] = Inr order" by (auto simp: kahn_positions_def split: sum.splits)
    from kahn_order_Inr [OF r _ dist] have p: "mset order = mset [0..<n]" "topological (edges ?d) order"
      by simp_all
    from p(1) have "distinct order" "set order = {..<n}"
      by (metis distinct_upt mset_eq_imp_distinct_iff) (metis p(1) atLeast_upt mset_eq_setD set_upt)
    with p E show "distinct order \<and> set order = {..<n} \<and> topological ((set es)\<inverse>) order" by simp
  }
  assume "kahn_positions n es = None"
  then obtain c where r: "kahn_order id ?d [0..<n] = Inl c"
    by (auto simp: kahn_positions_def split: sum.splits)
  have "\<forall>p\<in>set [0..<n]. set (targets ?d (id p)) \<subseteq> id ` set [0..<n]"
    using range by (auto simp: targets_def)
  from kahn_order_Inl [OF r _ dist this] obtain x where "(x, x) \<in> ((set es)\<inverse>)\<^sup>+" unfolding E by auto
  then show "\<not> acyclic (set es)" by (auto simp: acyclic_def trancl_converse)
qed

end
