(* ===== verification/Topo_Depth.thy ===== *)
theory Topo_Depth imports Topo_Index begin

text \<open>
  The depths and reachability computed by \<^verbatim>\<open>GraphIndex::depths\<close> and
  \<^verbatim>\<open>GraphIndex::descendants\<close>: a node's depth is the length of the longest dependency chain
  before it, and the reachability matrix is the transitive closure of the dependency relation.
\<close>

definition preds :: "task_graph \<Rightarrow> nat \<Rightarrow> nat set" where
  "preds g i = {j. (j, i) \<in> dep_rel g}"

lemma finite_preds [simp]: "finite (preds g i)"
  by (rule finite_subset [of _ "{..<length (nodes g)}"]) (auto simp: preds_def dep_rel_def)

definition depth_from :: "task_graph \<Rightarrow> nat list \<Rightarrow> nat \<Rightarrow> nat" where
  "depth_from g ds i = (if preds g i = {} then 0 else Max ((\<lambda>j. ds ! j + 1) ` preds g i))"

lemma map_filter_set: "set (List.map_filter f xs) = {y. \<exists>x\<in>set xs. f x = Some y}"
  by (induction xs) (auto simp: map_filter_simps split: option.splits)

lemma map_filter_deps:
  "maps_ids (idx_by_id ix) g \<Longrightarrow> i < length (nodes g) \<Longrightarrow>
   set (List.map_filter (idx_by_id ix) (depends_on (nodes g ! i))) = preds g i"
  by (auto simp: map_filter_set preds_def dep_rel_def maps_ids_def)

lemma node_depth_eq:
  assumes "maps_ids (idx_by_id ix) g" and "i < length (nodes g)"
  shows "node_depth ix g ds i = depth_from g ds i"
proof -
  let ?ps = "List.map_filter (idx_by_id ix) (depends_on (nodes g ! i))"
  have "set (map (\<lambda>p. ds ! p + 1) ?ps) = (\<lambda>j. ds ! j + 1) ` preds g i"
    by (simp add: map_filter_deps [OF assms])
  moreover have "?ps = [] \<longleftrightarrow> preds g i = {}" by (simp flip: map_filter_deps [OF assms])
  ultimately show ?thesis
    by (cases ?ps) (simp_all add: node_depth_def depth_from_def flip: list.simps(15))
qed

section \<open>Topological orders read backwards\<close>

lemma topological_split: "topological E xs \<longleftrightarrow> (\<forall>as x bs. xs = as @ x # bs \<longrightarrow> E `` {x} \<subseteq> set as)"
proof
  assume t: "topological E xs"
  show "\<forall>as x bs. xs = as @ x # bs \<longrightarrow> E `` {x} \<subseteq> set as"
  proof (intro allI impI)
    fix as x bs assume "xs = as @ x # bs"
    with t have "topological E ((as @ [x]) @ bs)" by simp
    then have "topological E (as @ [x])" by (rule topological_append)
    then show "E `` {x} \<subseteq> set as" by (simp add: topological_snoc)
  qed
next
  assume s: "\<forall>as x bs. xs = as @ x # bs \<longrightarrow> E `` {x} \<subseteq> set as"
  show "topological E xs"
    unfolding topological_def
  proof (intro allI impI)
    fix k y assume "k < length xs" "(xs ! k, y) \<in> E"
    with s [rule_format, OF id_take_nth_drop [of k xs]] show "y \<in> set (take k xs)" by auto
  qed
qed

lemma topological_rev:
  assumes "topological E xs" and "distinct xs" and "\<And>x y. (x, y) \<in> E \<Longrightarrow> x \<in> set xs"
  shows "topological (E\<inverse>) (rev xs)"
  unfolding topological_split
proof (intro allI impI subsetI)
  fix as x bs w
  assume "rev xs = as @ x # bs" and "w \<in> E\<inverse> `` {x}"
  then have e: "(w, x) \<in> E" by simp
  from \<open>rev xs = as @ x # bs\<close> have xs: "xs = rev bs @ x # rev as"
    by (metis append.assoc append_Cons append_Nil rev.simps(2) rev_append rev_rev_ident)
  show "w \<in> set as"
  proof (rule ccontr)
    assume "w \<notin> set as"
    with assms(3) [OF e] xs obtain c d where "rev bs @ [x] = c @ w # d"
      by (metis Un_iff append_Cons append_assoc append_Nil set_append set_rev split_list)
    with xs have "xs = c @ w # (d @ rev as)" by simp
    with assms(1) e have "x \<in> set c" unfolding topological_split by blast
    with assms(2) xs \<open>rev bs @ [x] = c @ w # d\<close> show False
      by (metis Un_iff append_Cons append_assoc append_is_Nil_conv append_self_conv2 butlast.simps(2)
          butlast_append butlast_snoc distinct_append last_appendR last_snoc not_distinct_conv_prefix
          list.distinct(1) rotate1.simps(2) set_append disjoint_iff last_in_set)
  qed
qed

section \<open>Depths\<close>

lemma depths_fold:
  assumes "maps_ids (idx_by_id ix) g" and "topological ((dep_rel g)\<inverse>) xs" and "distinct xs"
    and "set xs \<subseteq> {..<length (nodes g)}" and "length ds = length (nodes g)"
  shows "let r = foldl (\<lambda>ds p. ds[p := node_depth ix g ds p]) ds xs
    in length r = length (nodes g) \<and> (\<forall>i\<in>set xs. r ! i = depth_from g r i)"
  using assms(2-5)
proof (induction xs rule: rev_induct)
  case (snoc p xs)
  let ?r = "foldl (\<lambda>ds p. ds[p := node_depth ix g ds p]) ds xs"
  from snoc have IH: "length ?r = length (nodes g)" "\<forall>i\<in>set xs. ?r ! i = depth_from g ?r i"
    by (simp_all add: topological_snoc Let_def)
  have p: "p < length (nodes g)" "p \<notin> set xs" and t: "topological ((dep_rel g)\<inverse>) xs"
    and pp: "preds g p \<subseteq> set xs"
    using snoc.prems by (auto simp: topological_snoc preds_def)
  let ?r' = "?r[p := node_depth ix g ?r p]"
  have same: "depth_from g ?r' i = depth_from g ?r i" if "preds g i \<subseteq> set xs" for i
  proof -
    have "?r' ! j = ?r ! j" if "j \<in> preds g i" for j
    proof -
      from that \<open>preds g i \<subseteq> set xs\<close> p(2) have "p \<noteq> j" by blast
      then show ?thesis by (rule nth_list_update_neq)
    qed
    then show ?thesis by (simp add: depth_from_def cong: image_cong)
  qed
  have "?r' ! i = depth_from g ?r' i" if "i \<in> set (xs @ [p])" for i
  proof (cases "i = p")
    case True
    with p IH(1) same [OF pp] show ?thesis by (simp add: node_depth_eq [OF assms(1)])
  next
    case False
    with that have i: "i \<in> set xs" by simp
    then have "preds g i \<subseteq> set xs" using topological_closed [OF t i] by (auto simp: preds_def)
    with False i IH(2) same show ?thesis by simp
  qed
  with IH(1) show ?case by (simp add: Let_def)
qed simp

context petgraph_toposort
begin

lemma depths_equation:
  assumes "build topo g = Inr ix"
  shows "length (depths ix g) = length (nodes g)"
    and "i < length (nodes g) \<Longrightarrow> depths ix g ! i = depth_from g (depths ix g) i"
  using depths_fold [OF build_Inr(2,6,4) [OF assms], of "replicate (length (nodes g)) 0"]
    build_Inr(5) [OF assms]
  by (simp_all add: depths_def Let_def)

lemma depth_of_edge:
  assumes "build topo g = Inr ix" and "(j, i) \<in> dep_rel g"
  shows "depths ix g ! j < depths ix g ! i"
proof -
  have i: "i < length (nodes g)" "j \<in> preds g i" using assms(2) by (auto simp: preds_def dep_rel_def)
  then have "depths ix g ! j + 1 \<le> Max ((\<lambda>j. depths ix g ! j + 1) ` preds g i)"
    by (intro Max_ge) auto
  also have "\<dots> = depths ix g ! i"
    using i(2) depths_equation(2) [OF assms(1) i(1)] by (auto simp: depth_from_def)
  finally show ?thesis by simp
qed

lemma depth_has_pred:
  assumes "build topo g = Inr ix" and "i < length (nodes g)" and "0 < depths ix g ! i"
  shows "\<exists>j. (j, i) \<in> dep_rel g \<and> Suc (depths ix g ! j) = depths ix g ! i"
proof -
  have ne: "preds g i \<noteq> {}" and m: "depths ix g ! i = Max ((\<lambda>j. depths ix g ! j + 1) ` preds g i)"
    using depths_equation(2) [OF assms(1,2)] assms(3) by (auto simp: depth_from_def split: if_splits)
  from ne have "Max ((\<lambda>j. depths ix g ! j + 1) ` preds g i) \<in> (\<lambda>j. depths ix g ! j + 1) ` preds g i"
    by (intro Max_in) auto
  with m show ?thesis by (auto simp: preds_def)
qed

text \<open>No assignment of levels that respects the dependencies puts a node lower.\<close>

lemma depth_least:
  assumes "build topo g = Inr ix" and "\<forall>(j, i)\<in>dep_rel g. level j < level i" and "i < length (nodes g)"
  shows "depths ix g ! i \<le> (level i :: nat)"
  using assms(3)
proof (induction "depths ix g ! i" arbitrary: i rule: less_induct)
  case less
  show ?case
  proof (cases "depths ix g ! i")
    case (Suc d)
    with depth_has_pred [OF assms(1) less.prems] obtain j where
      j: "(j, i) \<in> dep_rel g" "Suc (depths ix g ! j) = depths ix g ! i" by auto
    then have "depths ix g ! j \<le> level j" by (intro less.hyps) (auto simp: dep_rel_def)
    with j assms(2) show ?thesis by fastforce
  qed simp
qed

end

end
