(* ===== verification/Topo_Waves.thy ===== *)
theory Topo_Waves imports Topo_Depth begin

text \<open>
  \<^verbatim>\<open>crates/archon-topology/src/analysis/\<close>\<^verbatim>\<open>waves.rs\<close>, \<^verbatim>\<open>parallelism.rs\<close> and
  \<^verbatim>\<open>critical_path.rs\<close>: execution waves, the parallelism profile against the budget, and the
  longest chain. The lemmas show that waves are the earliest levels the dependencies allow,
  and that the critical path is a longest chain and as long as there are waves.
\<close>

section \<open>Waves\<close>

definition push_wave :: "nat list \<Rightarrow> string list list \<Rightarrow> nat \<times> task_node \<Rightarrow> string list list" where
  "push_wave ds ws = (\<lambda>(position, node).
     ws[ds ! position := (ws ! (ds ! position)) @ [node_id node]])"

definition waves :: "toposort \<Rightarrow> task_graph \<Rightarrow> topology_error + string list list" where
  "waves topo g =
     (case build topo g of
        Inl e \<Rightarrow> Inl e
      | Inr ix \<Rightarrow>
          let ds = depths ix g
          in if ds = [] then Inr []
             else Inr (filter (\<lambda>w. w \<noteq> [])
                    (foldl (push_wave ds) (replicate (Max (set ds) + 1) []) (enumerate 0 (nodes g)))))"

definition wave_depths :: "toposort \<Rightarrow> task_graph \<Rightarrow> topology_error + nat list" where
  "wave_depths topo g = map_sum id (\<lambda>ix. depths ix g) (build topo g)"

definition validate :: "toposort \<Rightarrow> task_graph \<Rightarrow> topology_error + unit" where
  "validate topo g = map_sum id (\<lambda>_. ()) (build topo g)"

section \<open>Parallelism\<close>

record parallelism_profile =
  wave_widths :: "nat list"
  peak_width :: nat
  profile_max_parallelism :: u32
  unusable_slots :: u32
  budget_limited_waves :: "(nat \<times> nat) list"

definition over_provisioned :: "parallelism_profile \<Rightarrow> bool" where
  "over_provisioned p \<longleftrightarrow> 0 < unusable_slots p"

definition budget_limited :: "parallelism_profile \<Rightarrow> bool" where
  "budget_limited p \<longleftrightarrow> budget_limited_waves p \<noteq> []"

definition parallelism_profile_of :: "toposort \<Rightarrow> task_graph \<Rightarrow> topology_error + parallelism_profile" where
  "parallelism_profile_of topo g =
     map_sum id
       (\<lambda>ws. let widths = map length ws;
                 peak = (if widths = [] then 0 else Max (set widths));
                 budget = budget_max_parallelism (task_graph.graph_budget g)
             in \<lparr>wave_widths = widths, peak_width = peak, profile_max_parallelism = budget,
                 unusable_slots = (case u32_try_from peak of
                     None \<Rightarrow> 0 | Some p \<Rightarrow> u32_saturating_sub budget p),
                 budget_limited_waves =
                   filter (\<lambda>(_, width). case u32_try_from width of
                       None \<Rightarrow> False | Some w \<Rightarrow> budget < w) (enumerate 0 widths)\<rparr>)
       (waves topo g)"

section \<open>Critical path\<close>

text \<open>\<^verbatim>\<open>max_by_key\<close> on the depth and the reversed position: a later candidate replaces the best
  so far when its key is not smaller.\<close>

definition deepest :: "nat list \<Rightarrow> nat option" where
  "deepest ds =
     foldl (\<lambda>best p. case best of
              None \<Rightarrow> Some p
            | Some b \<Rightarrow> if ds ! b < ds ! p \<or> (ds ! b = ds ! p \<and> p \<le> b) then Some p else Some b)
       None [0..<length ds]"

function chain_up :: "graph_index \<Rightarrow> task_graph \<Rightarrow> nat list \<Rightarrow> nat \<Rightarrow> nat list" where
  "chain_up ix g ds cursor =
     (if ds ! cursor = 0 then [cursor]
      else
        (case filter (\<lambda>c. ds ! c = ds ! cursor - 1)
                (List.map_filter (idx_by_id ix) (depends_on (nodes g ! cursor))) of
           [] \<Rightarrow> [cursor]
         | c # cs \<Rightarrow> cursor # chain_up ix g ds (Min (set (c # cs)))))"
  by pat_completeness auto
termination
proof (relation "measure (\<lambda>(ix, g, ds, cursor). ds ! cursor)")
  fix ix :: graph_index and g :: task_graph and ds :: "nat list" and cursor c cs
  assume pos: "ds ! cursor \<noteq> 0"
    and f: "filter (\<lambda>c. ds ! c = ds ! cursor - 1)
              (List.map_filter (idx_by_id ix) (depends_on (nodes g ! cursor))) = c # cs"
  have "Min (set (c # cs)) \<in> set (c # cs)" by (rule Min_in) auto
  then have "ds ! Min (set (c # cs)) = ds ! cursor - 1" unfolding f [symmetric] by simp
  with pos show "((ix, g, ds, Min (set (c # cs))), ix, g, ds, cursor) \<in> measure (\<lambda>(ix, g, ds, cursor). ds ! cursor)"
    by simp
qed simp

declare chain_up.simps [simp del]

definition critical_path :: "toposort \<Rightarrow> task_graph \<Rightarrow> topology_error + string list" where
  "critical_path topo g =
     (case build topo g of
        Inl e \<Rightarrow> Inl e
      | Inr ix \<Rightarrow>
          let ds = depths ix g
          in case deepest ds of
               None \<Rightarrow> Inr []
             | Some d \<Rightarrow> Inr (map (\<lambda>p. node_id (nodes g ! p)) (rev (chain_up ix g ds d))))"

definition span :: "string list \<Rightarrow> nat" where
  "span path = length path"

section \<open>What a wave holds\<close>

definition level :: "task_graph \<Rightarrow> nat list \<Rightarrow> nat \<Rightarrow> nat list" where
  "level g ds k = filter (\<lambda>i. ds ! i = k) [0..<length (nodes g)]"

lemma push_waves:
  assumes "\<forall>i < length ns. ds ! i < m"
  shows "foldl (push_wave ds) (replicate m []) (enumerate 0 ns) =
    map (\<lambda>k. map (\<lambda>i. node_id (ns ! i)) (filter (\<lambda>i. ds ! i = k) [0..<length ns])) [0..<m]"
  using assms
proof (induction ns rule: rev_induct)
  case Nil
  show ?case by (simp add: map_replicate_const)
next
  case (snoc n ns)
  let ?ws = "map (\<lambda>k. map (\<lambda>i. node_id (ns ! i)) (filter (\<lambda>i. ds ! i = k) [0..<length ns])) [0..<m]"
  let ?ws' = "map (\<lambda>k. map (\<lambda>i. node_id ((ns @ [n]) ! i)) (filter (\<lambda>i. ds ! i = k) [0..<length (ns @ [n])])) [0..<m]"
  have IH: "foldl (push_wave ds) (replicate m []) (enumerate 0 ns) = ?ws"
    using snoc by (intro snoc.IH) simp
  have lt: "ds ! length ns < m" using snoc.prems by simp
  have *: "map (\<lambda>i. node_id ((ns @ [n]) ! i)) (filter P [0..<length ns]) =
      map (\<lambda>i. node_id (ns ! i)) (filter P [0..<length ns])" for P
    by (auto simp: nth_append)
  have "foldl (push_wave ds) (replicate m []) (enumerate 0 (ns @ [n])) = push_wave ds ?ws (length ns, n)"
    unfolding enumerate_append_eq foldl_append IH by simp
  also have "\<dots> = ?ws'"
  proof (rule nth_equalityI)
    fix k assume "k < length (push_wave ds ?ws (length ns, n))"
    then have "k < m" by (simp add: push_wave_def)
    with lt * [of "\<lambda>i. ds ! i = k"] show "push_wave ds ?ws (length ns, n) ! k = ?ws' ! k"
      by (simp add: push_wave_def nth_list_update)
  qed (simp add: push_wave_def)
  finally show ?case .
qed

context petgraph_toposort
begin

lemma levels_nonempty:
  assumes "build topo g = Inr ix" and "i < length (nodes g)" and "k \<le> depths ix g ! i"
  shows "\<exists>j < length (nodes g). depths ix g ! j = k"
  using assms(2,3)
proof (induction "depths ix g ! i" arbitrary: i rule: less_induct)
  case less
  show ?case
  proof (cases "k = depths ix g ! i")
    case False
    with less.prems have "0 < depths ix g ! i" by simp
    from depth_has_pred [OF assms(1) less.prems(1) this] obtain j where
      "(j, i) \<in> dep_rel g" "Suc (depths ix g ! j) = depths ix g ! i" by blast
    with less False show ?thesis by (intro less.hyps [of j]) (auto simp: dep_rel_def)
  qed (use less.prems in auto)
qed

lemma waves_levels:
  assumes "build topo g = Inr ix"
  shows "waves topo g = Inr (map (\<lambda>k. map (\<lambda>i. node_id (nodes g ! i)) (level g (depths ix g) k))
    [0..<(if nodes g = [] then 0 else Max (set (depths ix g)) + 1)])"
proof -
  let ?ds = "depths ix g"
  note len = depths_equation(1) [OF assms]
  show ?thesis
  proof (cases "nodes g = []")
    case True
    with len assms show ?thesis by (simp add: waves_def Let_def)
  next
    case False
    with len have ne: "?ds \<noteq> []" by auto
    have lt: "\<forall>i < length (nodes g). ?ds ! i < Max (set ?ds) + 1"
      using len by (auto simp: less_Suc_eq_le)
    have "level g ?ds k \<noteq> []" if "k < Max (set ?ds) + 1" for k
    proof -
      from ne have "Max (set ?ds) \<in> set ?ds" by simp
      then obtain i where "i < length (nodes g)" "?ds ! i = Max (set ?ds)"
        by (metis in_set_conv_nth len)
      with levels_nonempty [OF assms this(1), of k] that show ?thesis
        by (auto simp: level_def filter_empty_conv)
    qed
    then have "filter (\<lambda>w. w \<noteq> []) (map (\<lambda>k. map (\<lambda>i. node_id (nodes g ! i)) (level g ?ds k)) [0..<Max (set ?ds) + 1])
        = map (\<lambda>k. map (\<lambda>i. node_id (nodes g ! i)) (level g ?ds k)) [0..<Max (set ?ds) + 1]"
      by (intro filter_True) auto
    with ne False assms push_waves [OF lt] show ?thesis
      by (simp add: waves_def Let_def level_def del: upt_Suc)
  qed
qed

end

lemma mset_levels:
  "mset (concat (map (\<lambda>k. map f (filter (\<lambda>i. h i = k) xs)) [0..<m])) = mset (map f (filter (\<lambda>i. h i < m) xs))"
proof (induction m)
  case (Suc m)
  have "mset (map f (filter (\<lambda>i. h i < m) xs)) + mset (map f (filter (\<lambda>i. h i = m) xs))
      = mset (map f (filter (\<lambda>i. h i < Suc m) xs))"
    by (induction xs) (auto simp: less_Suc_eq)
  with Suc show ?case by simp
qed simp

definition in_wave :: "string list list \<Rightarrow> task_graph \<Rightarrow> nat \<Rightarrow> nat \<Rightarrow> bool" where
  "in_wave ws g k i \<longleftrightarrow> k < length ws \<and> node_id (nodes g ! i) \<in> set (ws ! k)"

definition levels_respect :: "task_graph \<Rightarrow> (nat \<Rightarrow> nat) \<Rightarrow> bool" where
  "levels_respect g lev \<longleftrightarrow> (\<forall>(j, i)\<in>dep_rel g. lev j < lev i)"

context petgraph_toposort
begin

lemma wave_membership:
  assumes "build topo g = Inr ix" and "waves topo g = Inr ws" and "i < length (nodes g)"
  shows "in_wave ws g k i \<longleftrightarrow> k = depths ix g ! i"
proof -
  let ?ds = "depths ix g"
  have ne: "nodes g \<noteq> []" using assms(3) by auto
  have ws: "ws = map (\<lambda>k. map (\<lambda>i. node_id (nodes g ! i)) (level g ?ds k)) [0..<Max (set ?ds) + 1]"
    using waves_levels [OF assms(1)] assms(2) ne by simp
  have le: "?ds ! i < Max (set ?ds) + 1"
    using depths_equation(1) [OF assms(1)] assms(3) by (simp add: less_Suc_eq_le)
  have inj: "i = i'" if "i' < length (nodes g)" "node_id (nodes g ! i) = node_id (nodes g ! i')" for i'
    using build_Inr(1) [OF assms(1)] assms(3) that
    by (auto simp: well_formed_def unique_ids_def distinct_conv_nth)
  show ?thesis
    using le assms(3) unfolding in_wave_def ws
    by (auto simp: level_def simp del: upt_Suc dest: inj)
qed

lemma waves_contract:
  assumes "waves topo g = Inr ws"
  shows "mset (concat ws) = mset (map node_id (nodes g)) \<and> [] \<notin> set ws
    \<and> (\<forall>(j, i)\<in>dep_rel g. \<exists>a b. a < b \<and> in_wave ws g a j \<and> in_wave ws g b i)
    \<and> (\<forall>lev k i. levels_respect g lev \<longrightarrow> i < length (nodes g) \<longrightarrow> in_wave ws g k i \<longrightarrow> k \<le> lev i)"
proof -
  from assms obtain ix where ix: "build topo g = Inr ix" by (auto simp: waves_def split: sum.splits)
  let ?ds = "depths ix g" and ?m = "if nodes g = [] then 0 else Max (set (depths ix g)) + 1"
  have ws: "ws = map (\<lambda>k. map (\<lambda>i. node_id (nodes g ! i)) (level g ?ds k)) [0..<?m]"
    using waves_levels [OF ix] assms by simp
  note len = depths_equation(1) [OF ix]
  have lt: "?ds ! i < ?m" if "i < length (nodes g)" for i
    using that len by (auto simp: less_Suc_eq_le)
  have "mset (concat ws) = mset (map (\<lambda>i. node_id (nodes g ! i)) (filter (\<lambda>i. ?ds ! i < ?m) [0..<length (nodes g)]))"
    unfolding ws level_def by (rule mset_levels)
  also have "filter (\<lambda>i. ?ds ! i < ?m) [0..<length (nodes g)] = [0..<length (nodes g)]"
    using lt by (intro filter_True) auto
  also have "map (\<lambda>i. node_id (nodes g ! i)) [0..<length (nodes g)] = map node_id (nodes g)"
    by (intro nth_equalityI) simp_all
  finally have perm: "mset (concat ws) = mset (map node_id (nodes g))" .
  moreover have "[] \<notin> set ws"
    using assms ix by (auto simp: waves_def Let_def split: if_splits)
  moreover have "\<exists>a b. a < b \<and> in_wave ws g a j \<and> in_wave ws g b i" if "(j, i) \<in> dep_rel g" for j i
    using that depth_of_edge [OF ix that] wave_membership [OF ix assms] by (auto simp: dep_rel_def)
  moreover have "k \<le> lev i" if "levels_respect g lev" "i < length (nodes g)" "in_wave ws g k i" for lev k i
    using that depth_least [OF ix _ that(2)] wave_membership [OF ix assms that(2)]
    by (auto simp: levels_respect_def)
  ultimately show ?thesis by blast
qed

end

section \<open>The longest chain\<close>

text \<open>\<open>c\<close> is a chain of dependent nodes, first to last.\<close>

definition is_chain :: "task_graph \<Rightarrow> nat list \<Rightarrow> bool" where
  "is_chain g c \<longleftrightarrow> successively (\<lambda>j i. (j, i) \<in> dep_rel g) c \<and> set c \<subseteq> {..<length (nodes g)}"

lemma deepest_spec:
  "ds \<noteq> [] \<Longrightarrow> \<exists>d. deepest ds = Some d \<and> d < length ds \<and> ds ! d = Max (set ds)"
proof -
  assume ne: "ds \<noteq> []"
  let ?f = "\<lambda>best p. case best of None \<Rightarrow> Some p
    | Some b \<Rightarrow> if ds ! b < ds ! p \<or> (ds ! b = ds ! p \<and> p \<le> b) then Some p else Some b"
  have "\<exists>d. foldl ?f None [0..<Suc m] = Some d \<and> d \<le> m \<and> (\<forall>j \<le> m. ds ! j \<le> ds ! d)" for m
  proof (induction m)
    case (Suc m)
    then obtain d where "foldl ?f None [0..<Suc m] = Some d" "d \<le> m" "\<forall>j \<le> m. ds ! j \<le> ds ! d" by blast
    note d = this
    have "foldl ?f None [0..<Suc (Suc m)] = ?f (Some d) (Suc m)"
      by (subst upt_Suc_append) (simp_all only: foldl_append foldl.simps d(1) le0)
    also have "\<dots> = (if ds ! d < ds ! Suc m then Some (Suc m) else Some d)" using d(2) by simp
    finally show ?case using d(2,3) by (auto simp: le_Suc_eq simp del: upt_Suc)
  qed simp
  note * = this
  obtain m where m: "length ds = Suc m" using ne by (cases ds) auto
  from * [of m] obtain d where d: "deepest ds = Some d" "d \<le> m" "\<forall>j \<le> m. ds ! j \<le> ds ! d"
    unfolding deepest_def m by blast
  have "ds ! d = Max (set ds)"
    by (rule Max_eqI [symmetric]) (use d m in \<open>auto simp: in_set_conv_nth less_Suc_eq_le\<close>)
  with d m show ?thesis by auto
qed

context petgraph_toposort
begin

lemma chain_up_spec:
  assumes "build topo g = Inr ix" and "cursor < length (nodes g)"
  shows "is_chain g (rev (chain_up ix g (depths ix g) cursor))
    \<and> hd (chain_up ix g (depths ix g) cursor) = cursor
    \<and> chain_up ix g (depths ix g) cursor \<noteq> []
    \<and> length (chain_up ix g (depths ix g) cursor) = depths ix g ! cursor + 1"
  using assms(2)
proof (induction "depths ix g ! cursor" arbitrary: cursor rule: less_induct)
  case less
  let ?ds = "depths ix g"
  let ?cands = "filter (\<lambda>c. ?ds ! c = ?ds ! cursor - 1)
    (List.map_filter (idx_by_id ix) (depends_on (nodes g ! cursor)))"
  show ?case
  proof (cases "?ds ! cursor = 0")
    case True
    with less.prems show ?thesis by (simp add: chain_up.simps [of _ _ _ cursor] is_chain_def)
  next
    case False
    have cands: "set ?cands = {j. (j, cursor) \<in> dep_rel g \<and> ?ds ! j = ?ds ! cursor - 1}"
      using map_filter_deps [OF build_Inr(2) [OF assms(1)] less.prems] by (auto simp: preds_def)
    from depth_has_pred [OF assms(1) less.prems] False have "set ?cands \<noteq> {}"
      unfolding cands by fastforce
    then have "?cands \<noteq> []" by (metis empty_set)
    then obtain c cs where ccs: "?cands = c # cs" unfolding neq_Nil_conv by blast
    let ?p = "Min (set (c # cs))"
    have "?p \<in> set ?cands" unfolding ccs by (rule Min_in) auto
    then have p: "(?p, cursor) \<in> dep_rel g" "?ds ! ?p = ?ds ! cursor - 1" unfolding cands by simp_all
    have IH: "is_chain g (rev (chain_up ix g ?ds ?p)) \<and> hd (chain_up ix g ?ds ?p) = ?p
        \<and> chain_up ix g ?ds ?p \<noteq> [] \<and> length (chain_up ix g ?ds ?p) = ?ds ! ?p + 1"
      by (rule less.hyps) (use p False in \<open>auto simp: dep_rel_def\<close>)
    have "chain_up ix g ?ds cursor = cursor # chain_up ix g ?ds ?p"
      using False ccs by (simp add: chain_up.simps [of _ _ _ cursor])
    with IH p False less.prems show ?thesis
      by (auto simp: is_chain_def successively_append_iff last_rev)
  qed
qed

lemma chain_length_bound:
  assumes "build topo g = Inr ix"
  shows "is_chain g c \<Longrightarrow> c \<noteq> [] \<Longrightarrow> length c \<le> depths ix g ! last c + 1"
proof (induction c rule: rev_induct)
  case (snoc i c)
  show ?case
  proof (cases "c = []")
    case False
    with snoc.prems have "is_chain g c" "(last c, i) \<in> dep_rel g"
      by (auto simp: is_chain_def successively_append_iff)
    with snoc.IH False depth_of_edge [OF assms] show ?thesis by fastforce
  qed simp
qed simp

lemma critical_path_contract:
  assumes "critical_path topo g = Inr path" and "waves topo g = Inr ws"
  shows "length path = length ws \<and>
    (\<exists>c. path = map (\<lambda>p. node_id (nodes g ! p)) c \<and> is_chain g c) \<and>
    (\<forall>c. is_chain g c \<longrightarrow> length c \<le> length path)"
proof -
  from assms obtain ix where ix: "build topo g = Inr ix" by (auto simp: waves_def split: sum.splits)
  let ?ds = "depths ix g"
  note len = depths_equation(1) [OF ix]
  show ?thesis
  proof (cases "nodes g = []")
    case True
    with len have "?ds = []" by simp
    with True ix assms waves_levels [OF ix] show ?thesis
      by (auto simp: critical_path_def deepest_def is_chain_def)
  next
    case False
    with len have "?ds \<noteq> []" by auto
    from deepest_spec [OF this] len obtain d where d: "deepest ?ds = Some d" "d < length (nodes g)"
      "?ds ! d = Max (set ?ds)" by auto
    note up = chain_up_spec [OF ix d(2)]
    have path: "path = map (\<lambda>p. node_id (nodes g ! p)) (rev (chain_up ix g ?ds d))"
      using assms(1) ix d(1) by (simp add: critical_path_def Let_def)
    have l: "length path = Max (set ?ds) + 1" using up d(3) path by simp
    have "length c \<le> length path" if "is_chain g c" for c
    proof (cases "c = []")
      case False
      with that have "last c < length (nodes g)" by (auto simp: is_chain_def dest: last_in_set)
      then have "?ds ! last c \<le> Max (set ?ds)" using len by simp
      with chain_length_bound [OF ix that False] l show ?thesis by simp
    qed simp
    moreover have "length ws = Max (set ?ds) + 1"
      using waves_levels [OF ix] assms(2) False by simp
    moreover from up have "is_chain g (rev (chain_up ix g ?ds d))" by blast
    ultimately show ?thesis using l path by auto
  qed
qed

end

section \<open>Properties\<close>

text \<open>
  Validation accepts exactly the graphs with unique ids, known dependencies and no cycle,
  and otherwise names the defect, in that order: a duplicate id, a node with an unknown
  dependency, a cycle. The toposort is assumed to behave as \<^verbatim>\<open>petgraph\<close> documents.
\<close>

theorem validation_is_exact:
  assumes "petgraph_toposort topo"
  shows "(\<not> unique_ids g \<and> (\<exists>i. validate topo g = Inl (DuplicateNode i)))
   \<or> (unique_ids g \<and> \<not> known_deps g \<and> (\<exists>n\<in>set (nodes g). \<exists>d\<in>set (depends_on n).
        d \<notin> node_id ` set (nodes g) \<and> validate topo g = Inl (UnknownDependencyOf (node_id n) d)))
   \<or> (unique_ids g \<and> known_deps g \<and> \<not> acyclic (dep_rel g) \<and> validate topo g = Inl CycleFound)
   \<or> (well_formed g \<and> validate topo g = Inr ())"
  using petgraph_toposort.build_cases [OF assms, of g] by (auto simp: validate_def)

definition example_node :: "string \<Rightarrow> string list \<Rightarrow> task_node" where
  "example_node i ds = (new_node i WorkNode)\<lparr>depends_on := ds\<rparr>"

definition example_graph :: task_graph where
  "example_graph = (new_graph ''g'' (TeamOrigin ''s''))\<lparr>nodes :=
     [example_node ''c'' [''a'', ''b''], example_node ''a'' [], example_node ''b'' [''a''], example_node ''d'' []]\<rparr>"

lemma example_waves: "waves kahn_positions example_graph = Inr [[''a'', ''d''], [''b''], [''c'']]"
  by code_simp

theorem validation_is_exact_witness: "\<not> well_formed (example_graph\<lparr>nodes := [example_node ''a'' [''a'']]\<rparr>)"
proof -
  let ?g = "example_graph\<lparr>nodes := [example_node ''a'' [''a'']]\<rparr>"
  have "validate kahn_positions ?g = Inl CycleFound" by code_simp
  with validation_is_exact [OF kahn.petgraph_toposort_axioms, of ?g] show ?thesis
    by (auto simp: well_formed_def)
qed

text \<open>
  C32. Waves are an execution order: every node is in one wave, no wave is empty, every
  dependency is in a strictly earlier wave, and no other assignment of nodes to numbered
  levels that respects the dependencies runs any node earlier.
\<close>

theorem waves_are_the_earliest_levels:
  assumes "petgraph_toposort topo" and "waves topo g = Inr ws"
  shows "mset (concat ws) = mset (map node_id (nodes g)) \<and> [] \<notin> set ws
    \<and> (\<forall>(j, i)\<in>dep_rel g. \<exists>a b. a < b \<and> in_wave ws g a j \<and> in_wave ws g b i)
    \<and> (\<forall>lev k i. levels_respect g lev \<longrightarrow> i < length (nodes g) \<longrightarrow> in_wave ws g k i \<longrightarrow> k \<le> lev i)"
  by (rule petgraph_toposort.waves_contract [OF assms])

theorem waves_are_the_earliest_levels_witness:
  "waves kahn_positions example_graph = Inr [[''a'', ''d''], [''b''], [''c'']] \<and>
   mset (concat [[''a'', ''d''], [''b''], [''c'']]) = mset (map node_id (nodes example_graph))"
  using waves_are_the_earliest_levels [OF kahn.petgraph_toposort_axioms example_waves] example_waves
  by blast

text \<open>
  The critical path is a chain of dependent nodes, no chain of the graph is longer, and
  it has as many nodes as there are waves.
\<close>

theorem critical_path_is_a_longest_chain:
  assumes "petgraph_toposort topo" and "critical_path topo g = Inr path" and "waves topo g = Inr ws"
  shows "length path = length ws \<and>
    (\<exists>c. path = map (\<lambda>p. node_id (nodes g ! p)) c \<and> is_chain g c) \<and>
    (\<forall>c. is_chain g c \<longrightarrow> length c \<le> length path)"
  by (rule petgraph_toposort.critical_path_contract [OF assms])

theorem critical_path_is_a_longest_chain_witness:
  "critical_path kahn_positions example_graph = Inr [''a'', ''b'', ''c''] \<and>
   length [''a'', ''b'', ''c''] = length [[''a'', ''d''], [''b''], [''c'']]"
proof -
  have p: "critical_path kahn_positions example_graph = Inr [''a'', ''b'', ''c'']" by code_simp
  from critical_path_is_a_longest_chain [OF kahn.petgraph_toposort_axioms p example_waves] p
  show ?thesis by blast
qed

text \<open>
  The parallelism profile is exact in 32-bit arithmetic: the peak is the widest wave, the
  unusable slots are what the budget has above the peak, never below zero, and the
  budget-limited waves are the waves wider than the budget whose width fits 32 bits.
\<close>

theorem parallelism_profile_is_exact:
  assumes "parallelism_profile_of topo g = Inr p" and "waves topo g = Inr ws"
  shows "peak_width p = Max (insert 0 (length ` set ws)) \<and>
    unat (unusable_slots p) = unat (budget_max_parallelism (task_graph.graph_budget g)) - peak_width p \<and>
    set (budget_limited_waves p) =
      {(k, w). k < length ws \<and> w = length (ws ! k) \<and> w < 2 ^ 32
         \<and> unat (budget_max_parallelism (task_graph.graph_budget g)) < w}"
proof -
  let ?b = "budget_max_parallelism (task_graph.graph_budget g)"
  have fits: "(case u32_try_from w of None \<Rightarrow> False | Some v \<Rightarrow> ?b < v) \<longleftrightarrow> w < 2 ^ 32 \<and> unat ?b < w" for w
    by (auto simp: u32_try_from_def word_less_nat_alt unat_of_nat split: if_splits)
  have slots: "unat (case u32_try_from n of None \<Rightarrow> 0 | Some v \<Rightarrow> u32_saturating_sub ?b v) = unat ?b - n" for n
    using unat_u32_lt [of ?b] by (auto simp: u32_try_from_def unat_u32_saturating_sub unat_of_nat)
  have peak: "(if map length ws = [] then 0 else Max (set (map length ws))) = Max (insert 0 (length ` set ws))"
    by (cases ws) simp_all
  have p: "peak_width p = (if map length ws = [] then 0 else Max (set (map length ws)))"
    "unusable_slots p = (case u32_try_from (peak_width p) of None \<Rightarrow> 0 | Some v \<Rightarrow> u32_saturating_sub ?b v)"
    "budget_limited_waves p = filter (\<lambda>(_, w). case u32_try_from w of None \<Rightarrow> False | Some v \<Rightarrow> ?b < v)
       (enumerate 0 (map length ws))"
    using assms by (auto simp: parallelism_profile_of_def Let_def)
  have "set (budget_limited_waves p) = {(k, w). k < length ws \<and> w = length (ws ! k) \<and> w < 2 ^ 32 \<and> unat ?b < w}"
    unfolding p(3) by (auto simp: fits in_set_enumerate_eq)
  with p(1,2) peak slots show ?thesis by simp
qed

theorem parallelism_profile_is_exact_witness:
  "\<exists>p. parallelism_profile_of kahn_positions example_graph = Inr p \<and> unat (unusable_slots p) = 8 - peak_width p"
proof -
  obtain p where p: "parallelism_profile_of kahn_positions example_graph = Inr p"
    by (auto simp: parallelism_profile_of_def example_waves)
  from parallelism_profile_is_exact [OF p example_waves] p show ?thesis
    by (simp add: example_graph_def new_graph_def default_budget_def)
qed

end
