(* ===== verification/Topo_Conflicts.thy ===== *)
theory Topo_Conflicts imports Topo_Depth begin

text \<open>
  Reachability (\<^verbatim>\<open>GraphIndex::descendants\<close>) and
  \<^verbatim>\<open>crates/archon-topology/src/analysis/write_conflicts.rs\<close>: the pairs of nodes that write a
  common target with no dependency path between them. The matrix is shown to be the
  transitive closure of the dependency relation, and the report to be exact.
\<close>

section \<open>The reachability matrix\<close>

lemma set_successors: "set (successors ix p) = {s. (p, s) \<in> set (idx_edges ix)}"
  by (force simp: successors_def)

definition square :: "nat \<Rightarrow> bool list list \<Rightarrow> bool" where
  "square n m \<longleftrightarrow> length m = n \<and> (\<forall>i < n. length (m ! i) = n)"

lemma square_update: "square n m \<Longrightarrow> p < n \<Longrightarrow> length row = n \<Longrightarrow> square n (m[p := row])"
  by (auto simp: square_def nth_list_update)

lemma absorb_fold:
  assumes "square n m" and "p < n" and "set ss \<subseteq> {..<n}" and "p \<notin> set ss"
  shows "let r = foldl (absorb_successor p) m ss in square n r \<and>
    (\<forall>q < n. q \<noteq> p \<longrightarrow> r ! q = m ! q) \<and>
    (\<forall>t < n. r ! p ! t \<longleftrightarrow> m ! p ! t \<or> t \<in> set ss \<or> (\<exists>s\<in>set ss. m ! s ! t))"
  using assms(3,4)
proof (induction ss rule: rev_induct)
  case Nil
  with assms(1) show ?case by (simp add: Let_def)
next
  case (snoc s ss)
  let ?r = "foldl (absorb_successor p) m ss"
  from snoc have IH: "square n ?r" "\<forall>q < n. q \<noteq> p \<longrightarrow> ?r ! q = m ! q"
    "\<forall>t < n. ?r ! p ! t \<longleftrightarrow> m ! p ! t \<or> t \<in> set ss \<or> (\<exists>s\<in>set ss. m ! s ! t)" by (simp_all add: Let_def)
  have s: "s < n" "s \<noteq> p" using snoc.prems by auto
  then have row: "?r ! s = m ! s" using IH(2) by blast
  have len: "length (?r ! p) = n" "length (?r ! s) = n" "length ?r = n"
    using IH(1) assms(2) s by (auto simp: square_def)
  have new: "absorb_successor p ?r s = ?r[p := map2 (\<or>) ((?r ! p)[s := True]) (?r ! s)]"
    by (simp add: absorb_successor_def Let_def)
  have "square n (absorb_successor p ?r s)"
    unfolding new using IH(1) assms(2) by (rule square_update) (simp add: len)
  moreover have "\<forall>q < n. q \<noteq> p \<longrightarrow> absorb_successor p ?r s ! q = m ! q"
    unfolding new using IH(2) by simp
  moreover have "\<forall>t < n. absorb_successor p ?r s ! p ! t \<longleftrightarrow>
      m ! p ! t \<or> t \<in> set (ss @ [s]) \<or> (\<exists>s\<in>set (ss @ [s]). m ! s ! t)"
  proof (intro allI impI)
    fix t assume t: "t < n"
    then have "absorb_successor p ?r s ! p ! t \<longleftrightarrow> (?r ! p)[s := True] ! t \<or> m ! s ! t"
      unfolding new using len assms(2) by (simp add: row)
    also have "(?r ! p)[s := True] ! t \<longleftrightarrow> t = s \<or> ?r ! p ! t"
      using t len(1) by (cases "t = s") simp_all
    finally show "absorb_successor p ?r s ! p ! t \<longleftrightarrow>
        m ! p ! t \<or> t \<in> set (ss @ [s]) \<or> (\<exists>s\<in>set (ss @ [s]). m ! s ! t)"
      using IH(3) t by auto
  qed
  ultimately show ?case by (simp add: Let_def)
qed

definition closure_rows :: "task_graph \<Rightarrow> nat set \<Rightarrow> bool list list \<Rightarrow> bool" where
  "closure_rows g S m \<longleftrightarrow> square (length (nodes g)) m \<and>
     (\<forall>p < length (nodes g). \<forall>t < length (nodes g).
        m ! p ! t \<longleftrightarrow> p \<in> S \<and> (p, t) \<in> (dep_rel g)\<^sup>+)"

lemma descendants_fold:
  assumes E: "set (idx_edges ix) = dep_rel g" and "closure_rows g {} m" and "acyclic (dep_rel g)"
    and "topological (dep_rel g) xs" and "distinct xs" and "set xs \<subseteq> {..<length (nodes g)}"
  shows "closure_rows g (set xs)
    (foldl (\<lambda>reach p. foldl (absorb_successor p) reach (successors ix p)) m xs)"
  using assms(4-6)
proof (induction xs rule: rev_induct)
  case (snoc p xs)
  let ?n = "length (nodes g)" and ?r = "foldl (\<lambda>reach p. foldl (absorb_successor p) reach (successors ix p)) m xs"
  let ?r' = "foldl (absorb_successor p) ?r (successors ix p)"
  have IH: "closure_rows g (set xs) ?r"
    using snoc by (intro snoc.IH) (auto simp: topological_snoc)
  have p: "p < ?n" "p \<notin> set xs" and succ: "dep_rel g `` {p} \<subseteq> set xs"
    using snoc.prems by (auto simp: topological_snoc)
  have ss: "set (successors ix p) = dep_rel g `` {p}" by (auto simp: set_successors E)
  have sq: "square ?n ?r" using IH by (simp add: closure_rows_def)
  have rel: "set (successors ix p) \<subseteq> {..<?n}" "p \<notin> set (successors ix p)"
    using p succ by (auto simp: ss dep_rel_def)
  from absorb_fold [OF sq p(1) rel] have r': "square ?n ?r'" "\<forall>q < ?n. q \<noteq> p \<longrightarrow> ?r' ! q = ?r ! q"
    "\<forall>t < ?n. ?r' ! p ! t \<longleftrightarrow> ?r ! p ! t \<or> t \<in> set (successors ix p) \<or> (\<exists>s\<in>set (successors ix p). ?r ! s ! t)"
    by (simp_all add: Let_def)
  have "?r' ! p ! t \<longleftrightarrow> (p, t) \<in> (dep_rel g)\<^sup>+" if t: "t < ?n" for t
  proof -
    have old: "\<not> ?r ! p ! t" using IH p t by (simp add: closure_rows_def)
    have "?r ! s ! t \<longleftrightarrow> (s, t) \<in> (dep_rel g)\<^sup>+" if "s \<in> set (successors ix p)" for s
      using IH that succ rel(1) t by (auto simp: closure_rows_def ss)
    with old r'(3) t have "?r' ! p ! t \<longleftrightarrow>
        (p, t) \<in> dep_rel g \<or> (\<exists>s. (p, s) \<in> dep_rel g \<and> (s, t) \<in> (dep_rel g)\<^sup>+)"
      by (auto simp: ss)
    also have "\<dots> \<longleftrightarrow> (p, t) \<in> (dep_rel g)\<^sup>+"
      by (metis r_into_trancl tranclD trancl_into_trancl2 rtrancl_eq_or_trancl)
    finally show ?thesis .
  qed
  with r' IH show ?case by (auto simp: closure_rows_def)
qed (use assms(2) in simp)

context petgraph_toposort
begin

lemma descendants_rows:
  assumes "build topo g = Inr ix"
  shows "closure_rows g {..<length (nodes g)} (descendants ix g)"
proof -
  note b = build_Inr [OF assms]
  have "topological (((dep_rel g)\<inverse>)\<inverse>) (rev (topo_order ix))"
    by (rule topological_rev [OF b(6,4)]) (auto simp: b(5) dep_rel_def)
  then have t: "topological (dep_rel g) (rev (topo_order ix))" by simp
  have "closure_rows g {} (replicate (length (nodes g)) (replicate (length (nodes g)) False))"
    by (simp add: closure_rows_def square_def)
  from descendants_fold [OF b(3) this _ t] b(1,4,5) show ?thesis
    by (simp add: descendants_def Let_def well_formed_def)
qed

lemma descendants_closure:
  assumes "build topo g = Inr ix" and "p < length (nodes g)" and "t < length (nodes g)"
  shows "descendants ix g ! p ! t \<longleftrightarrow> (p, t) \<in> (dep_rel g)\<^sup>+"
  using descendants_rows [OF assms(1)] assms(2,3) by (simp add: closure_rows_def)

end

section \<open>Write conflicts\<close>

record write_conflict =
  conflict_left :: string
  conflict_right :: string
  conflict_targets :: "write_target list"

definition common_targets :: "task_node \<Rightarrow> task_node \<Rightarrow> write_target list" where
  "common_targets left right =
     btree_list (filter (\<lambda>t. t \<in> set (node_writes left)) (node_writes right))"

definition conflict_with ::
    "bool list list \<Rightarrow> nat \<Rightarrow> task_node \<Rightarrow> nat \<times> task_node \<Rightarrow> write_conflict option" where
  "conflict_with reachable l left_node = (\<lambda>(r, right_node).
     if \<not> writes_are_known right_node then None
     else if reachable ! l ! r \<or> reachable ! r ! l then None
     else
       let overlap = common_targets left_node right_node
       in if overlap = [] then None
          else Some \<lparr>conflict_left = node_id left_node, conflict_right = node_id right_node,
                     conflict_targets = overlap\<rparr>)"

definition write_conflicts :: "toposort \<Rightarrow> task_graph \<Rightarrow> topology_error + write_conflict list" where
  "write_conflicts topo g =
     map_sum id
       (\<lambda>ix. let reachable = descendants ix g
             in concat (map (\<lambda>(l, left_node).
                    if \<not> writes_are_known left_node then []
                    else List.map_filter (conflict_with reachable l left_node)
                           (drop (l + 1) (enumerate 0 (nodes g))))
                  (enumerate 0 (nodes g))))
       (build topo g)"

lemma in_drop_enumerate:
  "(r, x) \<in> set (drop k (enumerate 0 xs)) \<longleftrightarrow> k \<le> r \<and> r < length xs \<and> x = xs ! r"
proof -
  have "drop k (enumerate 0 xs) = enumerate k (drop k xs)"
    by (cases "k \<le> length xs") (simp_all add: enumerate_eq_zip drop_zip)
  then show ?thesis by (auto simp: in_set_enumerate_eq)
qed

lemma bex_enumerate: "(\<exists>p\<in>set (enumerate 0 xs). P p) \<longleftrightarrow> (\<exists>i < length xs. P (i, xs ! i))"
  by (force simp: in_set_enumerate_eq)

lemma conflict_with_Some:
  "conflict_with reachable l ln (r, rn) = Some c \<longleftrightarrow>
     \<not> reachable ! l ! r \<and> \<not> reachable ! r ! l \<and> set (node_writes ln) \<inter> set (node_writes rn) \<noteq> {} \<and>
     c = \<lparr>conflict_left = node_id ln, conflict_right = node_id rn, conflict_targets = common_targets ln rn\<rparr>"
  by (auto simp: conflict_with_def Let_def common_targets_def writes_are_known_def filter_empty_conv)

lemma set_common_targets: "set (common_targets l r) = set (node_writes l) \<inter> set (node_writes r)"
  by (auto simp: common_targets_def)

lemma unordered_pairs_conflict:
  assumes "petgraph_toposort topo" and "build topo g = Inr ix" and "write_conflicts topo g = Inr cs"
  shows "set cs = {\<lparr>conflict_left = node_id (nodes g ! l), conflict_right = node_id (nodes g ! r),
      conflict_targets = common_targets (nodes g ! l) (nodes g ! r)\<rparr> | l r.
      l < r \<and> r < length (nodes g) \<and> (l, r) \<notin> (dep_rel g)\<^sup>+ \<and> (r, l) \<notin> (dep_rel g)\<^sup>+ \<and>
      set (node_writes (nodes g ! l)) \<inter> set (node_writes (nodes g ! r)) \<noteq> {}}" (is "_ = ?R")
proof -
  let ?m = "descendants ix g"
  have m: "?m ! p ! t \<longleftrightarrow> (p, t) \<in> (dep_rel g)\<^sup>+" if "p < length (nodes g)" "t < length (nodes g)" for p t
    by (rule petgraph_toposort.descendants_closure [OF assms(1,2) that])
  let ?f = "\<lambda>(l, left_node). if \<not> writes_are_known left_node then []
      else List.map_filter (conflict_with ?m l left_node) (drop (l + 1) (enumerate 0 (nodes g)))"
  have e: "cs = concat (map ?f (enumerate 0 (nodes g)))"
    using assms(2,3) by (simp add: write_conflicts_def Let_def)
  have inner: "c \<in> set (?f (l, ln)) \<longleftrightarrow> node_writes ln \<noteq> [] \<and> (\<exists>r < length (nodes g). l + 1 \<le> r \<and>
      conflict_with ?m l ln (r, nodes g ! r) = Some c)" for c l ln
    by (force simp: map_filter_set in_drop_enumerate writes_are_known_def)
  have "c \<in> set cs \<longleftrightarrow> (\<exists>p\<in>set (enumerate 0 (nodes g)). c \<in> set (?f p))" for c
    unfolding e by (simp only: set_concat set_map UN_iff) blast
  also have "\<dots> c \<longleftrightarrow> (\<exists>l < length (nodes g). c \<in> set (?f (l, nodes g ! l)))" for c
    by (rule bex_enumerate)
  finally have cs: "set cs = {c. \<exists>l < length (nodes g). node_writes (nodes g ! l) \<noteq> [] \<and>
      (\<exists>r < length (nodes g). l + 1 \<le> r \<and> conflict_with ?m l (nodes g ! l) (r, nodes g ! r) = Some c)}"
    unfolding inner by blast
  show ?thesis
  proof (intro set_eqI iffI)
    fix c assume "c \<in> set cs"
    then obtain l r where lr: "l < length (nodes g)" "r < length (nodes g)" "l + 1 \<le> r"
      and c: "conflict_with ?m l (nodes g ! l) (r, nodes g ! r) = Some c" unfolding cs by blast
    from c lr show "c \<in> ?R" unfolding conflict_with_Some m [OF lr(1,2)] m [OF lr(2,1)]
      by (intro CollectI exI [of _ l] exI [of _ r]) simp
  next
    fix c assume "c \<in> ?R"
    then obtain l r where lr: "l < length (nodes g)" "r < length (nodes g)" "l + 1 \<le> r"
      and c: "(l, r) \<notin> (dep_rel g)\<^sup>+" "(r, l) \<notin> (dep_rel g)\<^sup>+"
        "set (node_writes (nodes g ! l)) \<inter> set (node_writes (nodes g ! r)) \<noteq> {}"
        "c = \<lparr>conflict_left = node_id (nodes g ! l), conflict_right = node_id (nodes g ! r),
           conflict_targets = common_targets (nodes g ! l) (nodes g ! r)\<rparr>"
      by (auto simp: Suc_le_eq)
    then have "conflict_with ?m l (nodes g ! l) (r, nodes g ! r) = Some c"
      unfolding conflict_with_Some m [OF lr(1,2)] m [OF lr(2,1)] by blast
    moreover from c(3) have "node_writes (nodes g ! l) \<noteq> []" by auto
    ultimately show "c \<in> set cs" unfolding cs using lr by blast
  qed
qed

text \<open>
  The write-conflict report is exact: it holds, for every two nodes with a target in
  common and no dependency path between them either way, the earlier and the later node in
  graph order with the sorted common targets, and nothing else. A node that declares no
  writes is never reported.
\<close>

theorem write_conflict_report_is_exact:
  assumes "petgraph_toposort topo" and "write_conflicts topo g = Inr cs"
  shows "set cs = {\<lparr>conflict_left = node_id (nodes g ! l), conflict_right = node_id (nodes g ! r),
      conflict_targets = common_targets (nodes g ! l) (nodes g ! r)\<rparr> | l r.
      l < r \<and> r < length (nodes g) \<and> (l, r) \<notin> (dep_rel g)\<^sup>+ \<and> (r, l) \<notin> (dep_rel g)\<^sup>+ \<and>
      set (node_writes (nodes g ! l)) \<inter> set (node_writes (nodes g ! r)) \<noteq> {}} \<and>
    (\<forall>c\<in>set cs. conflict_targets c \<noteq> [] \<and> sorted (conflict_targets c) \<and> distinct (conflict_targets c))"
proof -
  obtain ix where "build topo g = Inr ix" using assms(2) by (auto simp: write_conflicts_def map_sum_def split: sum.splits)
  note r = unordered_pairs_conflict [OF assms(1) this assms(2)]
  have "conflict_targets c \<noteq> [] \<and> sorted (conflict_targets c) \<and> distinct (conflict_targets c)"
    if "c \<in> set cs" for c
  proof -
    from that obtain l r where "c = \<lparr>conflict_left = node_id (nodes g ! l),
        conflict_right = node_id (nodes g ! r), conflict_targets = common_targets (nodes g ! l) (nodes g ! r)\<rparr>"
      and ne: "set (node_writes (nodes g ! l)) \<inter> set (node_writes (nodes g ! r)) \<noteq> {}"
      unfolding r by blast
    then obtain a b where "conflict_targets c = common_targets a b"
      "set (node_writes a) \<inter> set (node_writes b) \<noteq> {}" by (meson write_conflict.select_convs(3))
    moreover from this(2) have "common_targets a b \<noteq> []" by (metis set_common_targets set_empty)
    ultimately show ?thesis by (simp add: common_targets_def)
  qed
  with r show ?thesis by blast
qed

definition writer :: "string \<Rightarrow> string list \<Rightarrow> string list \<Rightarrow> task_node" where
  "writer i ds ws = (new_node i WorkNode)\<lparr>depends_on := ds, node_writes := map PathTarget ws\<rparr>"

definition writers_graph :: task_graph where
  "writers_graph = (new_graph ''g'' (TeamOrigin ''s''))\<lparr>nodes :=
     [writer ''a'' [] [''x''], writer ''b'' [''a''] [''x''], writer ''c'' [] [''y'', ''x'']]\<rparr>"

theorem write_conflict_report_is_exact_witness:
  "\<exists>cs. write_conflicts kahn_positions writers_graph = Inr cs \<and> map conflict_right cs = [''c'', ''c''] \<and>
     (\<forall>c\<in>set cs. conflict_targets c \<noteq> [])"
proof -
  let ?x = "[PathTarget ''x'']"
  have "write_conflicts kahn_positions writers_graph = Inr
    [\<lparr>conflict_left = ''a'', conflict_right = ''c'', conflict_targets = ?x\<rparr>,
     \<lparr>conflict_left = ''b'', conflict_right = ''c'', conflict_targets = ?x\<rparr>]" by code_simp
  with write_conflict_report_is_exact [OF kahn.petgraph_toposort_axioms this, THEN conjunct2]
  show ?thesis by simp
qed

end
