(* ===== verification/Topo_Gates.thy ===== *)
theory Topo_Gates imports Topo_Waves begin

text \<open>
  \<^verbatim>\<open>crates/archon-topology/src/analysis/gates.rs\<close>: which gates dominate which nodes, over the
  dependency graph with a synthetic root before every dependency-free node.
  \<^verbatim>\<open>petgraph::algo::dominators::simple_fast\<close> is the parameter \<open>doms\<close>; the locale
  \<open>petgraph_dominators\<close> states the dominator relation it documents. The lemmas read the
  result back as a statement about dependency chains.
\<close>

text \<open>\<open>doms es root v\<close>: the strict dominators of \<open>v\<close>, nearest first; \<^const>\<open>None\<close> when \<open>v\<close> cannot
  be reached from the root.\<close>

type_synonym dominators = "(nat \<times> nat) list \<Rightarrow> nat \<Rightarrow> nat \<Rightarrow> nat list option"

section \<open>Dominating gates\<close>

definition augmented_edges :: "graph_index \<Rightarrow> task_graph \<Rightarrow> (nat \<times> nat) list" where
  "augmented_edges ix g =
     idx_edges ix @
     List.map_filter (\<lambda>(position, node).
         if depends_on node = [] then Some (length (nodes g), position) else None)
       (enumerate 0 (nodes g))"

definition gates_of :: "dominators \<Rightarrow> graph_index \<Rightarrow> task_graph \<Rightarrow> nat \<Rightarrow> string list" where
  "gates_of doms ix g position =
     (case doms (augmented_edges ix g) (length (nodes g)) position of
        None \<Rightarrow> []
      | Some chain \<Rightarrow>
          map (\<lambda>d. node_id (nodes g ! d))
            (filter (\<lambda>d. is_gate (node_role (nodes g ! d)))
              (filter (\<lambda>d. d \<noteq> length (nodes g)) chain)))"

definition dominating_gates ::
    "toposort \<Rightarrow> dominators \<Rightarrow> task_graph \<Rightarrow> topology_error + (string \<Rightarrow> string list option)" where
  "dominating_gates topo doms g =
     map_sum id
       (\<lambda>ix. foldl (\<lambda>result (position, node). result(node_id node \<mapsto> gates_of doms ix g position))
               (\<lambda>_. None) (enumerate 0 (nodes g)))
       (build topo g)"

definition ungated_irreversible ::
    "toposort \<Rightarrow> dominators \<Rightarrow> task_graph \<Rightarrow> topology_error + string list" where
  "ungated_irreversible topo doms g =
     map_sum id
       (\<lambda>dominating.
          map node_id
            (filter (\<lambda>node. case dominating (node_id node) of None \<Rightarrow> True | Some gs \<Rightarrow> gs = [])
              (filter (\<lambda>node. node_permission node = PIrreversible) (nodes g))))
       (dominating_gates topo doms g)"

definition gate_nodes :: "task_graph \<Rightarrow> string list" where
  "gate_nodes g = map node_id (filter (\<lambda>n. is_gate (node_role n)) (nodes g))"

section \<open>The dominator relation\<close>

definition walk :: "(nat \<times> nat) set \<Rightarrow> nat \<Rightarrow> nat list \<Rightarrow> nat \<Rightarrow> bool" where
  "walk E r p v \<longleftrightarrow> p \<noteq> [] \<and> hd p = r \<and> last p = v \<and> successively (\<lambda>a b. (a, b) \<in> E) p"

locale petgraph_dominators =
  fixes doms :: dominators
  assumes strict: "doms es root v = Some ds \<Longrightarrow>
      set ds = {d. d \<noteq> v \<and> (\<forall>p. walk (set es) root p v \<longrightarrow> d \<in> set p)}"
    and unreachable: "doms es root v = None \<Longrightarrow> \<not> (\<exists>p. walk (set es) root p v)"

subsection \<open>An executable instance\<close>

text \<open>A node dominates another when the other cannot be reached without it.\<close>

definition without :: "nat \<Rightarrow> (nat \<times> nat) list \<Rightarrow> (nat \<times> nat) list" where
  "without d es = filter (\<lambda>(a, b). a \<noteq> d \<and> b \<noteq> d) es"

fun spread :: "(nat \<times> nat) list \<Rightarrow> nat \<Rightarrow> nat list \<Rightarrow> nat list" where
  "spread es 0 vs = vs"
| "spread es (Suc k) vs = spread es k (remdups (vs @ map snd (filter (\<lambda>e. fst e \<in> set vs) es)))"

definition reaches :: "(nat \<times> nat) list \<Rightarrow> nat \<Rightarrow> nat \<Rightarrow> bool" where
  "reaches es r v \<longleftrightarrow> v \<in> set (spread es (length es) [r])"

definition dominators_by_deletion :: dominators where
  "dominators_by_deletion es root v =
     (if reaches es root v
      then Some (filter (\<lambda>d. d \<noteq> v \<and> (d = root \<or> \<not> reaches (without d es) root v))
             (remdups (root # map fst es @ map snd es)))
      else None)"

lemma walk_snoc: "p \<noteq> [] \<Longrightarrow> walk E r (p @ [v]) w \<longleftrightarrow> w = v \<and> (\<exists>u. walk E r p u \<and> (u, v) \<in> E)"
  by (auto simp: walk_def successively_append_iff)

lemma walk_rtrancl: "(\<exists>p. walk E r p v) \<longleftrightarrow> (r, v) \<in> E\<^sup>*"
proof
  assume "\<exists>p. walk E r p v"
  then obtain p where "walk E r p v" by blast
  then show "(r, v) \<in> E\<^sup>*"
  proof (induction p arbitrary: v rule: rev_induct)
    case (snoc x p)
    show ?case
    proof (cases "p = []")
      case True
      with snoc.prems show ?thesis by (auto simp: walk_def)
    next
      case False
      with snoc.prems obtain u where "walk E r p u" "(u, v) \<in> E" by (auto simp: walk_snoc)
      with snoc.IH show ?thesis by (meson rtrancl.rtrancl_into_rtrancl)
    qed
  qed (simp add: walk_def)
next
  assume "(r, v) \<in> E\<^sup>*"
  then show "\<exists>p. walk E r p v"
  proof induction
    case base
    have "walk E r [r] r" by (simp add: walk_def)
    then show ?case by blast
  next
    case (step u v)
    then obtain p where "walk E r p u" by blast
    with step have "walk E r (p @ [v]) v" by (subst walk_snoc) (auto simp: walk_def)
    then show ?case by blast
  qed
qed

lemma spread_relpow: "v \<in> set (spread es k vs) \<longleftrightarrow> (\<exists>u\<in>set vs. \<exists>j\<le>k. (u, v) \<in> set es ^^ j)"
proof (induction k arbitrary: vs)
  case (Suc k)
  show ?case
  proof
    assume "v \<in> set (spread es (Suc k) vs)"
    then obtain w j where "w \<in> set (remdups (vs @ map snd (filter (\<lambda>e. fst e \<in> set vs) es)))"
      and j: "j \<le> k" "(w, v) \<in> set es ^^ j"
      unfolding spread.simps Suc.IH by blast
    then have w: "w \<in> set vs \<or> (\<exists>u\<in>set vs. (u, w) \<in> set es)" by force
    from w show "\<exists>u\<in>set vs. \<exists>j\<le>Suc k. (u, v) \<in> set es ^^ j"
    proof
      assume "\<exists>u\<in>set vs. (u, w) \<in> set es"
      with j show ?thesis by (meson Suc_le_mono relpow_Suc_I2)
    qed (use j in \<open>meson le_SucI\<close>)
  next
    assume "\<exists>u\<in>set vs. \<exists>j\<le>Suc k. (u, v) \<in> set es ^^ j"
    then obtain u j where u: "u \<in> set vs" and j: "j \<le> Suc k" "(u, v) \<in> set es ^^ j" by blast
    show "v \<in> set (spread es (Suc k) vs)"
    proof (cases j)
      case 0
      with u j have "v \<in> set (remdups (vs @ map snd (filter (\<lambda>e. fst e \<in> set vs) es)))" "(v, v) \<in> set es ^^ 0"
        by simp_all
      then show ?thesis unfolding spread.simps Suc.IH by blast
    next
      case (Suc i)
      with j obtain w where w: "(u, w) \<in> set es" "(w, v) \<in> set es ^^ i" by (meson relpow_Suc_D2)
      with u have "w \<in> set (remdups (vs @ map snd (filter (\<lambda>e. fst e \<in> set vs) es)))" by force
      with w Suc j(1) show ?thesis unfolding spread.simps Suc.IH by auto
    qed
  qed
qed auto

lemma reaches_walk: "reaches es r v \<longleftrightarrow> (\<exists>p. walk (set es) r p v)"
proof -
  have "(r, v) \<in> (set es)\<^sup>* \<longleftrightarrow> (\<exists>j\<le>length es. (r, v) \<in> set es ^^ j)"
    unfolding rtrancl_finite_eq_relpow [OF finite_set]
    using card_length [of es] relpow_finite_bounded [of "set es"]
    by (auto intro: order_trans)
  then show ?thesis by (simp add: reaches_def spread_relpow walk_rtrancl)
qed

lemma walk_avoiding:
  "r \<noteq> d \<Longrightarrow> walk (set (without d es)) r p v \<longleftrightarrow> walk (set es) r p v \<and> d \<notin> set p"
proof (induction p arbitrary: v rule: rev_induct)
  case (snoc x p)
  show ?case
  proof (cases "p = []")
    case True
    with snoc.prems show ?thesis by (auto simp: walk_def)
  next
    case False
    have last: "u \<in> set p" if "walk E r p u" for E u using that by (auto simp: walk_def)
    from False snoc.IH [OF snoc.prems] show ?thesis
      by (auto simp: walk_snoc without_def dest: last)
  qed
qed (simp add: walk_def)

interpretation deletion: petgraph_dominators dominators_by_deletion
proof
  fix es root v ds
  assume "dominators_by_deletion es root v = Some ds"
  then have r: "\<exists>p. walk (set es) root p v"
    and ds: "ds = filter (\<lambda>d. d \<noteq> v \<and> (d = root \<or> \<not> reaches (without d es) root v))
      (remdups (root # map fst es @ map snd es))"
    by (auto simp: dominators_by_deletion_def reaches_walk split: if_splits)
  have nodes: "x \<in> set (root # map fst es @ map snd es)" if "walk (set es) root p v" "x \<in> set p" for p x
    using that
  proof (induction p arbitrary: v rule: rev_induct)
    case (snoc y p)
    show ?case
    proof (cases "p = []")
      case False
      with snoc.prems(1) obtain u where "walk (set es) root p u" "(u, y) \<in> set es" by (auto simp: walk_snoc)
      with snoc.IH snoc.prems(2) show ?thesis by force
    qed (use snoc.prems in \<open>simp add: walk_def\<close>)
  qed simp
  have "d = root \<or> \<not> reaches (without d es) root v \<longleftrightarrow> (\<forall>p. walk (set es) root p v \<longrightarrow> d \<in> set p)" for d
  proof (cases "d = root")
    case True
    have "root \<in> set p" if "walk (set es) root p v" for p using that by (auto simp: walk_def)
    with True show ?thesis by blast
  next
    case False
    then show ?thesis by (auto simp: reaches_walk walk_avoiding)
  qed
  with r nodes show "set ds = {d. d \<noteq> v \<and> (\<forall>p. walk (set es) root p v \<longrightarrow> d \<in> set p)}"
    unfolding ds by (auto simp del: set_append)
next
  fix es root v
  assume "dominators_by_deletion es root v = None"
  then show "\<not> (\<exists>p. walk (set es) root p v)"
    by (auto simp: dominators_by_deletion_def reaches_walk split: if_splits)
qed

section \<open>Dominance as a statement about chains\<close>

text \<open>\<open>c\<close> is a chain of dependent nodes from an entry of the graph to \<open>v\<close>.\<close>

definition entry_chain :: "task_graph \<Rightarrow> nat list \<Rightarrow> nat \<Rightarrow> bool" where
  "entry_chain g c v \<longleftrightarrow> c \<noteq> [] \<and> is_chain g c \<and> depends_on (nodes g ! hd c) = [] \<and> last c = v"

text \<open>The gate at \<open>d\<close> stands before node \<open>v\<close> on every way to it.\<close>

definition gate_before :: "task_graph \<Rightarrow> nat \<Rightarrow> nat \<Rightarrow> bool" where
  "gate_before g d v \<longleftrightarrow> d < length (nodes g) \<and> d \<noteq> v \<and> is_gate (node_role (nodes g ! d)) \<and>
     (\<forall>c. entry_chain g c v \<longrightarrow> d \<in> set c)"

lemma foldl_map_upd:
  "distinct (map fst kvs) \<Longrightarrow> (k, v) \<in> set kvs \<Longrightarrow> foldl (\<lambda>m (k, v). m(k \<mapsto> v)) m kvs k = Some v"
proof (induction kvs rule: rev_induct)
  case (snoc kv kvs)
  then show ?case by (cases kv) (force simp: rev_image_eqI)
qed simp

lemma foldl_map_dom:
  "foldl (\<lambda>m (k, v). m(k \<mapsto> v)) m kvs k = (if k \<in> fst ` set kvs then foldl (\<lambda>m (k, v). m(k \<mapsto> v)) m kvs k else m k)"
  by (induction kvs rule: rev_induct) (auto split: prod.splits)

lemma entry_edges:
  "set (List.map_filter (\<lambda>(position, node). if depends_on node = [] then Some (n, position) else None)
     (enumerate 0 xs)) = {(n, i) | i. i < length xs \<and> depends_on (xs ! i) = []}"
proof (rule set_eqI)
  fix e
  show "e \<in> set (List.map_filter (\<lambda>(position, node). if depends_on node = [] then Some (n, position) else None)
     (enumerate 0 xs)) \<longleftrightarrow> e \<in> {(n, i) | i. i < length xs \<and> depends_on (xs ! i) = []}"
    by (cases e) (auto simp: map_filter_set in_set_enumerate_eq split: if_splits intro!: bexI [of _ "(snd e, xs ! snd e)"])
qed

locale topology_laws = petgraph_toposort topo + petgraph_dominators doms
  for topo :: toposort and doms :: dominators
begin

lemma augmented_walk:
  assumes ix: "build topo g = Inr ix" and v: "v < length (nodes g)"
  shows "walk (set (augmented_edges ix g)) (length (nodes g)) p v \<longleftrightarrow>
    (\<exists>c. p = length (nodes g) # c \<and> entry_chain g c v)"
proof -
  let ?n = "length (nodes g)"
  have E: "set (augmented_edges ix g) = dep_rel g \<union> {(?n, i) | i. i < ?n \<and> depends_on (nodes g ! i) = []}"
    by (simp only: augmented_edges_def set_append build_Inr(3) [OF ix] entry_edges)
  have inner: "successively (\<lambda>a b. (a, b) \<in> set (augmented_edges ix g)) c \<longleftrightarrow>
      successively (\<lambda>a b. (a, b) \<in> dep_rel g) c" if "?n \<notin> set c" for c
    using that by (induction "\<lambda>a b. (a, b) \<in> dep_rel g" c rule: successively.induct) (auto simp: E)
  have inside: "set c \<subseteq> {..<?n}" if "successively (\<lambda>a b. (a, b) \<in> set (augmented_edges ix g)) c"
      "c \<noteq> []" "hd c < ?n" for c
    using that
    by (induction "\<lambda>a b. (a, b) \<in> set (augmented_edges ix g)" c rule: successively.induct)
      (auto simp: E dep_rel_def)
  show ?thesis
  proof
    assume w: "walk (set (augmented_edges ix g)) ?n p v"
    then obtain c where p: "p = ?n # c" by (cases p) (auto simp: walk_def)
    with w v have ne: "c \<noteq> []" by (auto simp: walk_def)
    with w p have s: "successively (\<lambda>a b. (a, b) \<in> set (augmented_edges ix g)) c"
      and h: "(?n, hd c) \<in> set (augmented_edges ix g)" and l: "last c = v"
      by (cases c; auto simp: walk_def)+
    from h have h': "hd c < ?n" "depends_on (nodes g ! hd c) = []" by (auto simp: E dep_rel_def)
    from inside [OF s ne h'(1)] have sub: "set c \<subseteq> {..<?n}" .
    then have "?n \<notin> set c" by auto
    with inner s sub ne h' l p show "\<exists>c. p = ?n # c \<and> entry_chain g c v"
      by (auto simp: entry_chain_def is_chain_def)
  next
    assume "\<exists>c. p = ?n # c \<and> entry_chain g c v"
    then obtain c where p: "p = ?n # c" and c: "c \<noteq> []" "is_chain g c" "depends_on (nodes g ! hd c) = []" "last c = v"
      by (auto simp: entry_chain_def)
    from c(2) have sub: "set c \<subseteq> {..<?n}" by (simp add: is_chain_def)
    then have "?n \<notin> set c" "hd c < ?n" using hd_in_set [OF c(1)] by auto
    with inner c p show "walk (set (augmented_edges ix g)) ?n p v"
      by (cases c) (auto simp: walk_def is_chain_def E)
  qed
qed

text \<open>Every node of a valid graph can be reached from an entry.\<close>

lemma entry_chain_exists:
  assumes ix: "build topo g = Inr ix" and "v < length (nodes g)"
  shows "\<exists>c. entry_chain g c v"
  using assms(2)
proof (induction "depths ix g ! v" arbitrary: v rule: less_induct)
  case less
  show ?case
  proof (cases "depends_on (nodes g ! v) = []")
    case True
    with less.prems have "entry_chain g [v] v" by (simp add: entry_chain_def is_chain_def)
    then show ?thesis by blast
  next
    case False
    then obtain d where d: "d \<in> set (depends_on (nodes g ! v))" by (cases "depends_on (nodes g ! v)") auto
    moreover have "nodes g ! v \<in> set (nodes g)" using less.prems by simp
    ultimately have "d \<in> node_id ` set (nodes g)"
      using build_Inr(1) [OF ix] by (auto simp: well_formed_def known_deps_def list_all_iff)
    then obtain j where "j < length (nodes g)" "d = node_id (nodes g ! j)" by (auto simp: in_set_conv_nth)
    with d less.prems have e: "(j, v) \<in> dep_rel g" by (simp add: dep_rel_def)
    with depth_of_edge [OF ix e] obtain c where "entry_chain g c j"
      using less.hyps [of j] by (auto simp: dep_rel_def)
    with e less.prems have "entry_chain g (c @ [v]) v"
      by (auto simp: entry_chain_def is_chain_def successively_append_iff)
    then show ?thesis by blast
  qed
qed

lemma gates_of_iff:
  assumes ix: "build topo g = Inr ix" and v: "v < length (nodes g)"
  shows "set (gates_of doms ix g v) = {node_id (nodes g ! d) | d. gate_before g d v}"
proof -
  let ?n = "length (nodes g)"
  obtain c0 where c0: "entry_chain g c0 v" using entry_chain_exists [OF ix v] by blast
  then have "\<exists>p. walk (set (augmented_edges ix g)) ?n p v" using augmented_walk [OF ix v] by blast
  then obtain ds where ds: "doms (augmented_edges ix g) ?n v = Some ds"
    using unreachable by (meson not_None_eq)
  have "set ds = {d. d \<noteq> v \<and> (\<forall>c. entry_chain g c v \<longrightarrow> d \<in> set (?n # c))}"
    unfolding strict [OF ds] augmented_walk [OF ix v] by auto
  then have "d \<in> set ds \<and> d \<noteq> ?n \<longleftrightarrow> d \<noteq> v \<and> d \<noteq> ?n \<and> (\<forall>c. entry_chain g c v \<longrightarrow> d \<in> set c)" for d
    by auto
  moreover have "d < ?n" if "\<forall>c. entry_chain g c v \<longrightarrow> d \<in> set c" for d
    using that c0 by (auto simp: entry_chain_def is_chain_def)
  ultimately have "{d \<in> set ds. d \<noteq> ?n \<and> is_gate (node_role (nodes g ! d))} = {d. gate_before g d v}"
    unfolding gate_before_def using less_irrefl by blast
  with ds show ?thesis by (auto simp: gates_of_def)
qed

lemma dominating_gates_lookup:
  assumes "dominating_gates topo doms g = Inr dg" and "v < length (nodes g)"
  shows "\<exists>gs. dg (node_id (nodes g ! v)) = Some gs \<and> set gs = {node_id (nodes g ! d) | d. gate_before g d v}"
proof -
  obtain ix where ix: "build topo g = Inr ix"
    and dg: "dg = foldl (\<lambda>result (position, node). result(node_id node \<mapsto> gates_of doms ix g position))
        (\<lambda>_. None) (enumerate 0 (nodes g))"
    using assms(1) by (auto simp: dominating_gates_def map_sum_def split: sum.splits)
  let ?kvs = "map (\<lambda>(position, node). (node_id node, gates_of doms ix g position)) (enumerate 0 (nodes g))"
  have "dg = foldl (\<lambda>m (k, v). m(k \<mapsto> v)) (\<lambda>_. None) ?kvs"
    unfolding dg foldl_map by (rule foldl_cong) (auto split: prod.splits)
  moreover have "map fst ?kvs = map node_id (nodes g)"
    by (intro nth_equalityI) (auto simp: nth_enumerate_eq)
  moreover have "distinct (map node_id (nodes g))"
    using build_Inr(1) [OF ix] by (simp add: well_formed_def unique_ids_def)
  moreover have "(node_id (nodes g ! v), gates_of doms ix g v) \<in> set ?kvs"
    using assms(2) by (force simp: in_set_enumerate_eq)
  ultimately have "dg (node_id (nodes g ! v)) = Some (gates_of doms ix g v)"
    by (metis foldl_map_upd)
  with gates_of_iff [OF ix assms(2)] show ?thesis by blast
qed

end

interpretation reference: topology_laws kahn_positions dominators_by_deletion
  by unfold_locales

section \<open>What the report says\<close>

lemma ungated_filter:
  assumes laws: "topology_laws topo doms" and ok: "ungated_irreversible topo doms g = Inr reported"
  shows "reported = map node_id (filter (\<lambda>n. node_permission n = PIrreversible \<and>
      (\<exists>v < length (nodes g). nodes g ! v = n \<and> (\<nexists>d. gate_before g d v))) (nodes g))"
proof -
  obtain dg where dg: "dominating_gates topo doms g = Inr dg"
    and reported: "reported = map node_id
            (filter (\<lambda>node. case dg (node_id node) of None \<Rightarrow> True | Some gs \<Rightarrow> gs = [])
              (filter (\<lambda>node. node_permission node = PIrreversible) (nodes g)))"
    using ok by (auto simp: ungated_irreversible_def map_sum_def split: sum.splits)
  have "(case dg (node_id (nodes g ! v)) of None \<Rightarrow> True | Some gs \<Rightarrow> gs = []) \<longleftrightarrow> (\<nexists>d. gate_before g d v)"
    if v: "v < length (nodes g)" for v
  proof -
    obtain gs where "dg (node_id (nodes g ! v)) = Some gs"
      "set gs = {node_id (nodes g ! d) | d. gate_before g d v}"
      using topology_laws.dominating_gates_lookup [OF laws dg v] by blast
    then show ?thesis by (auto simp flip: set_empty2)
  qed
  then have "(case dg (node_id n) of None \<Rightarrow> True | Some gs \<Rightarrow> gs = []) \<longleftrightarrow>
      (\<exists>v < length (nodes g). nodes g ! v = n \<and> (\<nexists>d. gate_before g d v))" if "n \<in> set (nodes g)" for n
    using that by (metis in_set_conv_nth)
  then show ?thesis unfolding reported filter_filter
    by (intro arg_cong [of _ _ "map node_id"] filter_cong) auto
qed

text \<open>A valid graph's irreversible nodes are reported as ungated exactly when no single gate
  stands on every chain of dependencies that leads to them from an entry: for every position of
  the graph whose node is irreversible, its id is in the report iff no gate of the graph, other
  than the node itself, lies on all of the chains from an entry to it. Nothing else is reported.
  Stated under the documented behaviour of \<^verbatim>\<open>petgraph::algo::toposort\<close> and
  \<^verbatim>\<open>dominators::simple_fast\<close>.\<close>

theorem ungated_irreversible_is_exact:
  "topology_laws topo doms \<Longrightarrow> ungated_irreversible topo doms g = Inr reported \<Longrightarrow>
     set reported = {node_id (nodes g ! v) | v. v < length (nodes g) \<and>
        node_permission (nodes g ! v) = PIrreversible \<and> (\<nexists>d. gate_before g d v)}"
  by (drule (1) ungated_filter) (simp, blast intro: nth_mem)

definition deploy_graph :: task_graph where
  "deploy_graph = (new_graph ''deploy'' (WorkflowOrigin ''release''))\<lparr>nodes := [
     new_node ''build'' WorkNode,
     (new_node ''approve'' (GateNode HumanGate))\<lparr>depends_on := [''build'']\<rparr>,
     (new_node ''push'' ToolNode)\<lparr>node_permission := PIrreversible, depends_on := [''approve'']\<rparr>,
     (new_node ''tag'' ToolNode)\<lparr>node_permission := PIrreversible, depends_on := [''build'']\<rparr>]\<rparr>"

theorem ungated_irreversible_is_exact_witness:
  "ungated_irreversible kahn_positions dominators_by_deletion deploy_graph = Inr [''tag''] \<and>
   (\<exists>v < 4. node_id (nodes deploy_graph ! v) = ''tag'' \<and> (\<nexists>d. gate_before deploy_graph d v))"
proof -
  have r: "ungated_irreversible kahn_positions dominators_by_deletion deploy_graph = Inr [''tag'']"
    by code_simp
  have len: "length (nodes deploy_graph) = 4" by code_simp
  have "''tag'' \<in> {node_id (nodes deploy_graph ! v) | v. v < length (nodes deploy_graph) \<and>
      node_permission (nodes deploy_graph ! v) = PIrreversible \<and> (\<nexists>d. gate_before deploy_graph d v)}"
    using ungated_irreversible_is_exact [OF reference.topology_laws_axioms r] by (metis list.set_intros(1))
  then obtain v where "''tag'' = node_id (nodes deploy_graph ! v)" "v < 4" "\<nexists>d. gate_before deploy_graph d v"
    unfolding len by blast
  with r show ?thesis by metis
qed

end
