(* ===== verification/Live_State.thy ===== *)
theory Live_State imports Topo_Gates Topo_Conflicts Write_Keys "HOL-Library.AList" begin

text \<open>
  The executed prefix of a session, \<^verbatim>\<open>crates/archon-topology/src/live/state.rs\<close> and
  \<^verbatim>\<open>verdict.rs\<close>: the structure folded in from a declared graph, the nodes, gates, agents and
  write claims observed so far, and every operation that changes them. A \<^verbatim>\<open>BTreeMap\<close> whose
  length the code reads is an association list. Text is its UTF-8 bytes.
\<close>

section \<open>Questions and answers\<close>

datatype invariant = AgentCap | SingleWriter | UngatedIrreversible

primrec invariant_id :: "invariant \<Rightarrow> string" where
  "invariant_id AgentCap = ''agent_cap''"
| "invariant_id SingleWriter = ''single_writer''"
| "invariant_id UngatedIrreversible = ''ungated_irreversible''"

datatype verdict = Allowed | Blocked invariant string

definition is_blocked :: "verdict \<Rightarrow> bool" where
  "is_blocked v = (case v of Allowed \<Rightarrow> False | Blocked _ _ \<Rightarrow> True)"

definition is_allowed :: "verdict \<Rightarrow> bool" where
  "is_allowed v = (case v of Allowed \<Rightarrow> True | Blocked _ _ \<Rightarrow> False)"

definition verdict_reason :: "verdict \<Rightarrow> string option" where
  "verdict_reason v = (case v of Allowed \<Rightarrow> None | Blocked _ reason \<Rightarrow> Some reason)"

definition verdict_invariant :: "verdict \<Rightarrow> invariant option" where
  "verdict_invariant v = (case v of Allowed \<Rightarrow> None | Blocked i _ \<Rightarrow> Some i)"

record spawn_intent =
  spawn_node :: string
  spawn_parent :: "string option"
  spawn_agent :: string

record write_intent =
  write_node :: string
  write_paths :: "string list"
  write_shared_append :: "string list"

definition exclusive :: "string \<Rightarrow> string list \<Rightarrow> write_intent" where
  "exclusive n paths = \<lparr>write_node = n, write_paths = paths, write_shared_append = []\<rparr>"

definition with_shared_append :: "write_intent \<Rightarrow> string list \<Rightarrow> write_intent" where
  "with_shared_append w paths = w\<lparr>write_shared_append := paths\<rparr>"

record tool_intent =
  tool_node :: string
  tool_name :: string
  tool_permission :: permission_class
  tool_writes :: "string list"
  tool_spawn :: "spawn_intent option"

definition new_tool_intent :: "string \<Rightarrow> string \<Rightarrow> permission_class \<Rightarrow> tool_intent" where
  "new_tool_intent n tool permission =
     \<lparr>tool_node = n, tool_name = tool, tool_permission = permission, tool_writes = [], tool_spawn = None\<rparr>"

definition with_writes :: "tool_intent \<Rightarrow> string list \<Rightarrow> tool_intent" where
  "with_writes i paths = i\<lparr>tool_writes := paths\<rparr>"

definition with_spawn :: "tool_intent \<Rightarrow> spawn_intent \<Rightarrow> tool_intent" where
  "with_spawn i s = i\<lparr>tool_spawn := Some s\<rparr>"

section \<open>Structure\<close>

record session_structure =
  structure_budget :: graph_budget
  structure_gates :: "string \<Rightarrow> string list option"
  declared_gates :: "string set"
  related :: "string \<Rightarrow> string set option"

definition default_structure :: session_structure where
  "default_structure =
     \<lparr>structure_budget = default_budget, structure_gates = (\<lambda>_. None), declared_gates = {},
      related = (\<lambda>_. None)\<rparr>"

text \<open>\<^verbatim>\<open>related.entry(a).or_default().insert(b)\<close>\<close>

definition relate :: "string \<Rightarrow> string \<Rightarrow> (string \<Rightarrow> string set option) \<Rightarrow> (string \<Rightarrow> string set option)" where
  "relate a b m = m(a \<mapsto> insert b (case m a of None \<Rightarrow> {} | Some s \<Rightarrow> s))"

definition relate_row :: "task_graph \<Rightarrow> nat \<Rightarrow> bool list \<Rightarrow> (string \<Rightarrow> string set option) \<Rightarrow> (string \<Rightarrow> string set option)" where
  "relate_row g i row m =
     foldl (\<lambda>m (j, is_reachable).
         if \<not> is_reachable then m
         else
           let a = node_id (nodes g ! i); b = node_id (nodes g ! j)
           in relate b a (relate a b m))
       m (enumerate 0 row)"

definition from_graph :: "toposort \<Rightarrow> dominators \<Rightarrow> task_graph \<Rightarrow> session_structure option" where
  "from_graph topo doms g =
     (case build topo g of
        Inl _ \<Rightarrow> None
      | Inr ix \<Rightarrow>
          (case dominating_gates topo doms g of
             Inl _ \<Rightarrow> None
           | Inr dominating \<Rightarrow>
               let reachable = descendants ix g
               in Some \<lparr>structure_budget = graph_budget g,
                        structure_gates = dominating,
                        declared_gates = set (gate_nodes g),
                        related = foldl (\<lambda>m (i, row). relate_row g i row m) (\<lambda>_. None)
                                    (enumerate 0 reachable)\<rparr>))"

definition declares_gates :: "session_structure \<Rightarrow> bool" where
  "declares_gates s \<longleftrightarrow> declared_gates s \<noteq> {}"

definition structure_dominating_gates :: "session_structure \<Rightarrow> string \<Rightarrow> string list" where
  "structure_dominating_gates s n = (case structure_gates s n of None \<Rightarrow> [] | Some gs \<Rightarrow> gs)"

definition knows :: "session_structure \<Rightarrow> string \<Rightarrow> bool" where
  "knows s n \<longleftrightarrow> structure_gates s n \<noteq> None"

section \<open>State\<close>

record write_claim =
  claim_node :: string
  claim_key :: resource_key
  claim_declared :: string

record session_state =
  session_structure :: session_structure
  graph_declared :: bool
  started :: "string set"
  finished :: "string set"
  passed_gates :: "string set"
  agents_spawned :: u32
  live_agents :: u32
  session_claims :: "write_claim list"
  session_rounds :: "string \<Rightarrow> u32 option"
  observed_parent :: "(string \<times> string) list"

definition new_state :: session_state where
  "new_state =
     \<lparr>session_structure = default_structure, graph_declared = False, started = {}, finished = {},
      passed_gates = {}, agents_spawned = 0, live_agents = 0, session_claims = [],
      session_rounds = (\<lambda>_. None), observed_parent = []\<rparr>"

definition adopt_structure :: "session_structure \<Rightarrow> session_state \<Rightarrow> session_state" where
  "adopt_structure s st = st\<lparr>session_structure := s, graph_declared := True\<rparr>"

definition session_budget :: "session_state \<Rightarrow> graph_budget" where
  "session_budget st = structure_budget (session_structure st)"

definition set_budget :: "graph_budget \<Rightarrow> session_state \<Rightarrow> session_state" where
  "set_budget b st = st\<lparr>session_structure := (session_structure st)\<lparr>structure_budget := b\<rparr>\<rparr>"

definition is_live :: "session_state \<Rightarrow> string \<Rightarrow> bool" where
  "is_live st n \<longleftrightarrow> n \<in> started st \<and> n \<notin> finished st"

definition gates_passed :: "session_state \<Rightarrow> string list" where
  "gates_passed st = sorted_list_of_set (passed_gates st)"

definition session_round :: "session_state \<Rightarrow> string \<Rightarrow> u32" where
  "session_round st n = (case session_rounds st n of None \<Rightarrow> 0 | Some r \<Rightarrow> r)"

definition start_node :: "string \<Rightarrow> session_state \<Rightarrow> session_state" where
  "start_node n st =
     (if n = [] then st
      else st\<lparr>finished := finished st - {n}, started := insert n (started st)\<rparr>)"

definition release_claims :: "string \<Rightarrow> session_state \<Rightarrow> session_state" where
  "release_claims n st = st\<lparr>session_claims := filter (\<lambda>c. claim_node c \<noteq> n) (session_claims st)\<rparr>"

definition finish_agent :: "string \<Rightarrow> session_state \<Rightarrow> session_state" where
  "finish_agent n st =
     (let st = (if n = [] then st else st\<lparr>finished := insert n (finished st)\<rparr>)
      in st\<lparr>live_agents := u32_saturating_sub (live_agents st) 1\<rparr>)"

definition finish_node :: "string \<Rightarrow> session_state \<Rightarrow> session_state" where
  "finish_node n st = finish_agent n (release_claims n (st\<lparr>finished := insert n (finished st)\<rparr>))"

definition pass_gate :: "string \<Rightarrow> session_state \<Rightarrow> session_state" where
  "pass_gate n st = (if n = [] then st else st\<lparr>passed_gates := insert n (passed_gates st)\<rparr>)"

text \<open>The count is a plain \<^verbatim>\<open>+= 1\<close> on a \<^verbatim>\<open>u32\<close>: it wraps in a release build.\<close>

definition record_round :: "string \<Rightarrow> session_state \<Rightarrow> session_state" where
  "record_round n st =
     st\<lparr>session_rounds := (session_rounds st)(n \<mapsto> session_round st n + 1)\<rparr>"

definition observe_parent :: "string \<Rightarrow> string option \<Rightarrow> session_state \<Rightarrow> session_state" where
  "observe_parent n parent st =
     (case parent of
        None \<Rightarrow> st
      | Some p \<Rightarrow>
          if p \<noteq> [] \<and> p \<noteq> n then st\<lparr>observed_parent := AList.update n p (observed_parent st)\<rparr> else st)"

definition record_spawn :: "string \<Rightarrow> string option \<Rightarrow> session_state \<Rightarrow> session_state" where
  "record_spawn n parent st =
     observe_parent n parent
       (start_node n
         (st\<lparr>agents_spawned := u32_saturating_add (agents_spawned st) 1,
            live_agents := u32_saturating_add (live_agents st) 1\<rparr>))"

section \<open>Relatedness and claims\<close>

primrec observed_walk :: "(string \<times> string) list \<Rightarrow> nat \<Rightarrow> string \<Rightarrow> string \<Rightarrow> bool" where
  "observed_walk parents 0 current ancestor = False"
| "observed_walk parents (Suc k) current ancestor =
     (case map_of parents current of
        None \<Rightarrow> False
      | Some parent \<Rightarrow> if parent = ancestor then True else observed_walk parents k parent ancestor)"

definition observed_ancestor :: "session_state \<Rightarrow> string \<Rightarrow> string \<Rightarrow> bool" where
  "observed_ancestor st n ancestor =
     observed_walk (observed_parent st) (length (observed_parent st)) n ancestor"

definition are_related :: "session_state \<Rightarrow> string \<Rightarrow> string \<Rightarrow> bool" where
  "are_related st a b =
     (if a = b then True
      else if (case related (session_structure st) a of None \<Rightarrow> False | Some r \<Rightarrow> b \<in> r) then True
      else observed_ancestor st a b \<or> observed_ancestor st b a)"

definition conflicting_claims ::
    "globset_compiler \<Rightarrow> session_state \<Rightarrow> string \<Rightarrow> resource_key \<Rightarrow> write_claim option" where
  "conflicting_claims glob st n key =
     find (\<lambda>c. claim_node c \<noteq> n \<and> is_live st (claim_node c) \<and> \<not> are_related st n (claim_node c)
             \<and> keys_conflict glob (claim_key c) key) (session_claims st)"

definition claim :: "string \<Rightarrow> string \<Rightarrow> resource_key \<Rightarrow> session_state \<Rightarrow> session_state" where
  "claim n declared_path key st =
     (if list_ex (\<lambda>c. claim_node c = n \<and> claim_key c = key) (session_claims st) then st
      else st\<lparr>session_claims := session_claims st @
                [\<lparr>claim_node = n, claim_key = key, claim_declared = declared_path\<rparr>]\<rparr>)"

section \<open>The walk over observed parents is exact\<close>

definition parent_rel :: "(string \<times> string) list \<Rightarrow> (string \<times> string) set" where
  "parent_rel ps = {(n, p). map_of ps n = Some p}"

lemma observed_walk_relpow:
  "observed_walk ps k n a \<longleftrightarrow> (\<exists>j. 0 < j \<and> j \<le> k \<and> (n, a) \<in> parent_rel ps ^^ j)"
proof (induction k arbitrary: n)
  case (Suc k)
  show ?case
  proof (cases "map_of ps n")
    case None
    then have "(n, a) \<notin> parent_rel ps ^^ j" if "0 < j" for j
      using that relpow_Suc_D2 [of n a "j - 1" "parent_rel ps"] by (auto simp: parent_rel_def)
    with None show ?thesis by auto
  next
    case (Some p)
    then have step: "(n, a) \<in> parent_rel ps ^^ Suc j \<longleftrightarrow> (p, a) \<in> parent_rel ps ^^ j" for j
    proof -
      have "(n, x) \<in> parent_rel ps \<longleftrightarrow> x = p" for x using Some by (auto simp: parent_rel_def)
      then show ?thesis by (metis relpow_Suc_D2 relpow_Suc_I2)
    qed
    have "(\<exists>j. 0 < j \<and> j \<le> Suc k \<and> (n, a) \<in> parent_rel ps ^^ j) \<longleftrightarrow>
        (\<exists>j\<le>k. (p, a) \<in> parent_rel ps ^^ j)"
      using step by (metis Suc_le_mono gr0_conv_Suc zero_less_Suc)
    also have "\<dots> \<longleftrightarrow> p = a \<or> (\<exists>j. 0 < j \<and> j \<le> k \<and> (p, a) \<in> parent_rel ps ^^ j)"
      by (metis gr0I le0 pair_in_Id_conv relpow.simps(1))
    finally show ?thesis using Some Suc.IH by simp
  qed
qed simp

lemma observed_ancestor_trancl:
  "observed_ancestor st n a \<longleftrightarrow> (n, a) \<in> (parent_rel (observed_parent st))\<^sup>+"
proof -
  let ?ps = "observed_parent st"
  have sub: "parent_rel ?ps \<subseteq> set ?ps" by (auto simp: parent_rel_def dest: map_of_SomeD)
  then have fin: "finite (parent_rel ?ps)" by (rule finite_subset) simp
  have "card (parent_rel ?ps) \<le> length ?ps"
    using card_mono [OF finite_set sub] card_length [of ?ps] by linarith
  then have "\<exists>j. 0 < j \<and> j \<le> length ?ps \<and> (n, a) \<in> parent_rel ?ps ^^ j" if "(n, a) \<in> (parent_rel ?ps)\<^sup>+"
    using that unfolding trancl_finite_eq_relpow [OF fin] by (auto intro: order_trans)
  then show ?thesis unfolding observed_ancestor_def observed_walk_relpow by (auto simp: trancl_power)
qed

section \<open>Relatedness\<close>

definition relation_of :: "(string \<Rightarrow> string set option) \<Rightarrow> (string \<times> string) set" where
  "relation_of m = {(a, b). \<exists>s. m a = Some s \<and> b \<in> s}"

lemma relation_of_relate [simp]: "relation_of (relate a b m) = insert (a, b) (relation_of m)"
  by (auto simp: relation_of_def relate_def split: option.splits if_splits)

lemma foldl_collect:
  "(\<And>m x. A (f m x) = A m \<union> B x) \<Longrightarrow> A (foldl f m xs) = A m \<union> (\<Union>x\<in>set xs. B x)"
  by (induction xs arbitrary: m) auto

lemma are_related_iff:
  "are_related st a b \<longleftrightarrow> a = b \<or> (a, b) \<in> relation_of (related (session_structure st)) \<or>
     (a, b) \<in> (parent_rel (observed_parent st))\<^sup>+ \<or> (b, a) \<in> (parent_rel (observed_parent st))\<^sup>+"
  by (auto simp: are_related_def observed_ancestor_trancl relation_of_def split: option.splits)

definition row_pairs :: "task_graph \<Rightarrow> nat \<Rightarrow> bool list \<Rightarrow> (string \<times> string) set" where
  "row_pairs g i row = (\<Union>(j, r)\<in>set (enumerate 0 row).
     if r then {(node_id (nodes g ! i), node_id (nodes g ! j)), (node_id (nodes g ! j), node_id (nodes g ! i))} else {})"

lemma relation_of_relate_row: "relation_of (relate_row g i row m) = relation_of m \<union> row_pairs g i row"
  unfolding relate_row_def row_pairs_def
  by (rule foldl_collect [where A = relation_of]) (simp add: Let_def split_beta insert_commute)

lemma row_pairs_iff:
  "(a, b) \<in> row_pairs g i row \<longleftrightarrow> (\<exists>j < length row. row ! j \<and>
     ((a, b) = (node_id (nodes g ! i), node_id (nodes g ! j)) \<or> (b, a) = (node_id (nodes g ! i), node_id (nodes g ! j))))"
  unfolding row_pairs_def Union_iff bex_simps bex_enumerate by (auto split: if_splits)

text \<open>The declared relation is the existence of a dependency path, either way.\<close>

lemma relation_of_from_graph:
  assumes "petgraph_toposort topo" and "from_graph topo doms g = Some s"
  shows "relation_of (related s) = {(node_id (nodes g ! i), node_id (nodes g ! j)) | i j.
      (i, j) \<in> (dep_rel g)\<^sup>+ \<or> (j, i) \<in> (dep_rel g)\<^sup>+}"
proof -
  let ?n = "length (nodes g)"
  obtain ix where ix: "build topo g = Inr ix"
    and s: "related s = foldl (\<lambda>m (i, row). relate_row g i row m) (\<lambda>_. None) (enumerate 0 (descendants ix g))"
    using assms(2) by (auto simp: from_graph_def Let_def split: sum.splits)
  have rows: "square ?n (descendants ix g)"
    using petgraph_toposort.descendants_rows [OF assms(1) ix] by (simp add: closure_rows_def)
  have "relation_of (related s) = relation_of (\<lambda>_. None) \<union>
      (\<Union>(i, row)\<in>set (enumerate 0 (descendants ix g)). row_pairs g i row)"
    unfolding s by (rule foldl_collect [where A = relation_of]) (auto simp: relation_of_relate_row)
  also have "relation_of (\<lambda>_. None) = {}" by (simp add: relation_of_def)
  finally have "(a, b) \<in> relation_of (related s) \<longleftrightarrow>
      (\<exists>i < length (descendants ix g). (a, b) \<in> row_pairs g i (descendants ix g ! i))" for a b
    by (simp add: UN_iff bex_enumerate split_beta)
  then have "(a, b) \<in> relation_of (related s) \<longleftrightarrow> (\<exists>i < ?n. \<exists>j < ?n. (i, j) \<in> (dep_rel g)\<^sup>+ \<and>
     ((a, b) = (node_id (nodes g ! i), node_id (nodes g ! j)) \<or> (b, a) = (node_id (nodes g ! i), node_id (nodes g ! j))))" for a b
    using rows unfolding row_pairs_iff square_def
    by (metis petgraph_toposort.descendants_closure [OF assms(1) ix])
  moreover have "i < ?n \<and> j < ?n" if "(i, j) \<in> (dep_rel g)\<^sup>+" for i j
    using that by (induction) (auto simp: dep_rel_def)
  ultimately show ?thesis by (intro set_eqI) (clarsimp, blast)
qed

end
