(* ===== verification/Live_Admission.thy ===== *)
theory Live_Admission imports Live_State begin

text \<open>
  The three admission checks of \<^verbatim>\<open>crates/archon-topology/src/live/\<close>: \<^verbatim>\<open>agents.rs\<close> (lifetime
  agent budget), \<^verbatim>\<open>writes.rs\<close> (single writer per artifact) and \<^verbatim>\<open>gates.rs\<close> (irreversible
  actions), with the configuration and \<^verbatim>\<open>on_tool\<close> of \<^verbatim>\<open>live.rs\<close> that composes them. Each
  returns the new state and the verdict. The block reasons are modelled to the byte.
\<close>

section \<open>Configuration\<close>

datatype gate_enforcement = EnforceOff | WhereDeclared | EnforceAlways

record live_config =
  agent_cap :: bool
  single_writer :: bool
  irreversible_enforcement :: gate_enforcement
  config_max_agents :: u32

definition default_config :: live_config where
  "default_config =
     \<lparr>agent_cap = True, single_writer = True, irreversible_enforcement = WhereDeclared,
      config_max_agents = budget_max_agents default_budget\<rparr>"

definition all_disabled :: live_config where
  "all_disabled = default_config
     \<lparr>agent_cap := False, single_writer := False, irreversible_enforcement := EnforceOff\<rparr>"

definition strict_config :: live_config where
  "strict_config = default_config
     \<lparr>agent_cap := True, single_writer := True, irreversible_enforcement := EnforceAlways\<rparr>"

section \<open>Invariant 1: the agent cap\<close>

definition agent_cap_reason :: "spawn_intent \<Rightarrow> u32 \<Rightarrow> u32 \<Rightarrow> string" where
  "agent_cap_reason i spawned cap =
     ''agent_cap: spawning '' @ quoted (spawn_node i) @ '' (agent '' @ quoted (spawn_agent i) @ '') would be agent '' @ show_nat (unat (u32_saturating_add spawned 1))
     @ '' of a lifetime budget of '' @ show_nat (unat cap) @ '' for this session; ''
     @ show_nat (unat spawned)
     @ '' have already been spawned and the budget counts every agent ever started, not the number running now. Do the remaining work in an existing agent, or raise `[topology] max_agents`.''"

definition admit_spawn :: "live_config \<Rightarrow> spawn_intent \<Rightarrow> session_state \<Rightarrow> session_state \<times> verdict" where
  "admit_spawn cfg i st =
     (if \<not> agent_cap cfg then (record_spawn (spawn_node i) (spawn_parent i) st, Allowed)
      else
        let cap = budget_max_agents (session_budget st); spawned = agents_spawned st
        in if cap \<le> spawned then (st, Blocked AgentCap (agent_cap_reason i spawned cap))
           else (record_spawn (spawn_node i) (spawn_parent i) st, Allowed))"

section \<open>Invariant 2: single writer\<close>

definition writes_reason :: "write_intent \<Rightarrow> string \<Rightarrow> write_claim \<Rightarrow> string" where
  "writes_reason i path c =
     ''single_writer: '' @ quoted (write_node i) @ '' cannot write '' @ quoted path @ '' '' @ em_dash @ '' node '' @ quoted (claim_node c)
     @ '' is live and already claims '' @ quoted (claim_declared c)
     @ '', and no dependency path connects the two, so the writes would race. Depend on ''
     @ quoted (claim_node c)
     @ '', wait for it to finish, or write a different path. If both writes are genuinely coordinated and atomic, both sides must declare the path as a shared append; one side declaring it is a claim to exclusive access.''"

definition declared_claims :: "string \<Rightarrow> write_intent \<Rightarrow> (string \<times> resource_key) list" where
  "declared_claims os i =
     (let shared = filter (\<lambda>path. trim path \<noteq> []) (write_shared_append i)
      in map (\<lambda>path. (path, shared_append_key_for_raw_target os path)) shared @
         map (\<lambda>path. (path, resource_key_for_raw_target os path))
           (filter (\<lambda>path. \<not> (trim path = [] \<or> path \<in> set shared)) (write_paths i)))"

text \<open>The loop over the declared claims: the first one that meets a conflict.\<close>

fun first_conflict ::
    "globset_compiler \<Rightarrow> session_state \<Rightarrow> string \<Rightarrow> (string \<times> resource_key) list \<Rightarrow> (string \<times> write_claim) option" where
  "first_conflict glob st n [] = None"
| "first_conflict glob st n ((path, key) # rest) =
     (case conflicting_claims glob st n key of
        Some c \<Rightarrow> Some (path, c)
      | None \<Rightarrow> first_conflict glob st n rest)"

definition admit_write ::
    "globset_compiler \<Rightarrow> string \<Rightarrow> live_config \<Rightarrow> write_intent \<Rightarrow> session_state \<Rightarrow> session_state \<times> verdict" where
  "admit_write glob os cfg i st =
     (let declared = declared_claims os i
      in if declared = [] then (st, Allowed)
         else case (if single_writer cfg then first_conflict glob st (write_node i) declared else None) of
                Some (path, c) \<Rightarrow> (st, Blocked SingleWriter (writes_reason i path c))
              | None \<Rightarrow> (foldl (\<lambda>st (path, key). claim (write_node i) path key st) st declared, Allowed))"

section \<open>Invariant 3: irreversible actions\<close>

definition gate_blocked :: "tool_intent \<Rightarrow> string list \<Rightarrow> string list \<Rightarrow> verdict" where
  "gate_blocked i dominators passed =
     (let required =
            (if dominators = [] then ''no gate dominates it at all''
             else ''its dominating gate(s) ['' @ join_with '', '' dominators @ ''] have not passed'');
          seen =
            (if passed = [] then ''no gate has passed in this session''
             else ''gates passed so far: ['' @ join_with '', '' passed @ '']'')
      in Blocked UngatedIrreversible
           (''ungated_irreversible: '' @ quoted (tool_node i) @ '' cannot run ''
            @ quoted (tool_name i) @ '' '' @ em_dash
            @ '' the call is classified irreversible and '' @ required @ ''; '' @ seen
            @ ''. Pass the gate first, or route the irreversible step downstream of one. A checkpoint stage does not count: nothing marks a checkpoint passed.''))"

definition admit_irreversible :: "live_config \<Rightarrow> tool_intent \<Rightarrow> session_state \<Rightarrow> verdict" where
  "admit_irreversible cfg i st =
     (if tool_permission i \<noteq> PIrreversible then Allowed
      else if irreversible_enforcement cfg = EnforceOff then Allowed
      else if irreversible_enforcement cfg = WhereDeclared \<and> \<not> declares_gates (session_structure st) then Allowed
      else
        let passed = gates_passed st
        in if \<not> knows (session_structure st) (tool_node i) then
             (if passed = [] then gate_blocked i [] passed else Allowed)
           else
             let dominators = structure_dominating_gates (session_structure st) (tool_node i)
             in if list_ex (\<lambda>gate. gate \<in> set passed) dominators then Allowed
                else gate_blocked i dominators passed)"

section \<open>A tool call\<close>

definition admit_tool ::
    "globset_compiler \<Rightarrow> string \<Rightarrow> live_config \<Rightarrow> tool_intent \<Rightarrow> session_state \<Rightarrow> session_state \<times> verdict" where
  "admit_tool glob os cfg i st =
     (let st = start_node (tool_node i) st;
          (st, spawn_verdict) =
            (case tool_spawn i of None \<Rightarrow> (st, Allowed) | Some spawn \<Rightarrow> admit_spawn cfg spawn st)
      in if is_blocked spawn_verdict then (st, spawn_verdict)
         else
           let (st, write_verdict) =
                 (if tool_writes i \<noteq> [] then admit_write glob os cfg (exclusive (tool_node i) (tool_writes i)) st
                  else (st, Allowed))
           in if is_blocked write_verdict then (st, write_verdict)
              else (st, admit_irreversible cfg i st))"

end
