(* ===== verification/Topo_Live.thy ===== *)
theory Topo_Live imports Live_Admission begin

text \<open>
  The tracker of \<^verbatim>\<open>crates/archon-topology/src/live.rs\<close>: the map of tracked sessions, its
  entry points, and the step relation they generate. An untracked session admits
  everything. The parameters of the model are collected in \<open>live_env\<close>. The concurrent map
  runs one entry point at a time on one session, so a run is a sequence of steps.
\<close>

type_synonym tracker = "(string \<times> session_state) list"

record live_env =
  env_sort :: toposort
  env_dominators :: dominators
  env_glob :: globset_compiler
  env_os :: string
  env_config :: live_config

definition MAX_TRACKED_SESSIONS :: nat where
  "MAX_TRACKED_SESSIONS = 256"

section \<open>Entry points\<close>

definition tracks :: "tracker \<Rightarrow> string \<Rightarrow> bool" where
  "tracks tr s \<longleftrightarrow> map_of tr s \<noteq> None"

definition begin_session :: "live_env \<Rightarrow> string \<Rightarrow> tracker \<Rightarrow> tracker \<times> bool" where
  "begin_session env s tr =
     (if tracks tr s then (tr, False)
      else if MAX_TRACKED_SESSIONS \<le> length tr then (tr, False)
      else
        let st = set_budget (default_budget\<lparr>budget_max_agents := config_max_agents (env_config env)\<rparr>) new_state
        in (AList.update s st tr, True))"

definition end_session :: "string \<Rightarrow> tracker \<Rightarrow> tracker" where
  "end_session s tr = AList.delete s tr"

definition with_session :: "string \<Rightarrow> (session_state \<Rightarrow> session_state \<times> verdict) \<Rightarrow> tracker \<Rightarrow> tracker \<times> verdict" where
  "with_session s f tr =
     (case map_of tr s of
        Some st \<Rightarrow> (let (st', v) = f st in (AList.update s st' tr, v))
      | None \<Rightarrow> (tr, Allowed))"

definition record_session :: "string \<Rightarrow> (session_state \<Rightarrow> session_state) \<Rightarrow> tracker \<Rightarrow> tracker" where
  "record_session s f tr =
     (case map_of tr s of Some st \<Rightarrow> AList.update s (f st) tr | None \<Rightarrow> tr)"

definition declare_graph :: "live_env \<Rightarrow> string \<Rightarrow> task_graph \<Rightarrow> tracker \<Rightarrow> tracker" where
  "declare_graph env s g tr =
     (case from_graph (env_sort env) (env_dominators env) g of
        None \<Rightarrow> tr
      | Some folded \<Rightarrow>
          (case map_of tr s of Some st \<Rightarrow> AList.update s (adopt_structure folded st) tr | None \<Rightarrow> tr))"

definition on_spawn :: "live_env \<Rightarrow> string \<Rightarrow> spawn_intent \<Rightarrow> tracker \<Rightarrow> tracker \<times> verdict" where
  "on_spawn env s i = with_session s (admit_spawn (env_config env) i)"

definition on_agent_finished :: "string \<Rightarrow> string \<Rightarrow> tracker \<Rightarrow> tracker" where
  "on_agent_finished s n = record_session s (finish_agent n)"

definition on_write_intent :: "live_env \<Rightarrow> string \<Rightarrow> write_intent \<Rightarrow> tracker \<Rightarrow> tracker \<times> verdict" where
  "on_write_intent env s i = with_session s (admit_write (env_glob env) (env_os env) (env_config env) i)"

definition on_writes_released :: "string \<Rightarrow> string \<Rightarrow> tracker \<Rightarrow> tracker" where
  "on_writes_released s n = record_session s (release_claims n)"

definition on_tool :: "live_env \<Rightarrow> string \<Rightarrow> tool_intent \<Rightarrow> tracker \<Rightarrow> tracker \<times> verdict" where
  "on_tool env s i = with_session s (admit_tool (env_glob env) (env_os env) (env_config env) i)"

definition on_gate_passed :: "string \<Rightarrow> string \<Rightarrow> tracker \<Rightarrow> tracker" where
  "on_gate_passed s n = record_session s (pass_gate n)"

definition on_node_started :: "string \<Rightarrow> string \<Rightarrow> tracker \<Rightarrow> tracker" where
  "on_node_started s n = record_session s (start_node n)"

definition on_node_finished :: "string \<Rightarrow> string \<Rightarrow> tracker \<Rightarrow> tracker" where
  "on_node_finished s n = record_session s (finish_node n)"

definition on_round :: "string \<Rightarrow> string \<Rightarrow> tracker \<Rightarrow> tracker" where
  "on_round s n = record_session s (record_round n)"

definition snapshot :: "string \<Rightarrow> tracker \<Rightarrow> session_state option" where
  "snapshot s tr = map_of tr s"

section \<open>Steps and runs\<close>

datatype live_event =
    BeginSession string
  | EndSession string
  | DeclareGraph string task_graph
  | OnSpawn string spawn_intent
  | OnAgentFinished string string
  | OnWriteIntent string write_intent
  | OnWritesReleased string string
  | OnTool string tool_intent
  | OnGatePassed string string
  | OnNodeStarted string string
  | OnNodeFinished string string
  | OnRound string string

inductive live_step :: "live_env \<Rightarrow> tracker \<Rightarrow> live_event \<Rightarrow> verdict \<Rightarrow> tracker \<Rightarrow> bool" for env where
  "live_step env tr (BeginSession s) Allowed (fst (begin_session env s tr))"
| "live_step env tr (EndSession s) Allowed (end_session s tr)"
| "live_step env tr (DeclareGraph s g) Allowed (declare_graph env s g tr)"
| "on_spawn env s i tr = (tr', v) \<Longrightarrow> live_step env tr (OnSpawn s i) v tr'"
| "live_step env tr (OnAgentFinished s n) Allowed (on_agent_finished s n tr)"
| "on_write_intent env s w tr = (tr', v) \<Longrightarrow> live_step env tr (OnWriteIntent s w) v tr'"
| "live_step env tr (OnWritesReleased s n) Allowed (on_writes_released s n tr)"
| "on_tool env s t tr = (tr', v) \<Longrightarrow> live_step env tr (OnTool s t) v tr'"
| "live_step env tr (OnGatePassed s n) Allowed (on_gate_passed s n tr)"
| "live_step env tr (OnNodeStarted s n) Allowed (on_node_started s n tr)"
| "live_step env tr (OnNodeFinished s n) Allowed (on_node_finished s n tr)"
| "live_step env tr (OnRound s n) Allowed (on_round s n tr)"

inductive live_run :: "live_env \<Rightarrow> tracker \<Rightarrow> (live_event \<times> verdict) list \<Rightarrow> tracker \<Rightarrow> bool" for env where
  run_nil: "live_run env tr [] tr"
| run_snoc: "live_run env tr trace tr' \<Longrightarrow> live_step env tr' ev v tr'' \<Longrightarrow>
    live_run env tr (trace @ [(ev, v)]) tr''"

definition reachable :: "live_env \<Rightarrow> tracker \<Rightarrow> bool" where
  "reachable env tr \<longleftrightarrow> (\<exists>trace. live_run env [] trace tr)"

primrec event_session :: "live_event \<Rightarrow> string" where
  "event_session (BeginSession s) = s"
| "event_session (EndSession s) = s"
| "event_session (DeclareGraph s g) = s"
| "event_session (OnSpawn s i) = s"
| "event_session (OnAgentFinished s n) = s"
| "event_session (OnWriteIntent s w) = s"
| "event_session (OnWritesReleased s n) = s"
| "event_session (OnTool s t) = s"
| "event_session (OnGatePassed s n) = s"
| "event_session (OnNodeStarted s n) = s"
| "event_session (OnNodeFinished s n) = s"
| "event_session (OnRound s n) = s"

text \<open>What an event does to the state of its own session, when it is tracked.\<close>

primrec effect :: "live_env \<Rightarrow> live_event \<Rightarrow> session_state \<Rightarrow> session_state \<times> verdict" where
  "effect env (BeginSession s) st = (st, Allowed)"
| "effect env (EndSession s) st = (st, Allowed)"
| "effect env (DeclareGraph s g) st =
     ((case from_graph (env_sort env) (env_dominators env) g of
         None \<Rightarrow> st | Some folded \<Rightarrow> adopt_structure folded st), Allowed)"
| "effect env (OnSpawn s i) st = admit_spawn (env_config env) i st"
| "effect env (OnAgentFinished s n) st = (finish_agent n st, Allowed)"
| "effect env (OnWriteIntent s w) st = admit_write (env_glob env) (env_os env) (env_config env) w st"
| "effect env (OnWritesReleased s n) st = (release_claims n st, Allowed)"
| "effect env (OnTool s t) st = admit_tool (env_glob env) (env_os env) (env_config env) t st"
| "effect env (OnGatePassed s n) st = (pass_gate n st, Allowed)"
| "effect env (OnNodeStarted s n) st = (start_node n st, Allowed)"
| "effect env (OnNodeFinished s n) st = (finish_node n st, Allowed)"
| "effect env (OnRound s n) st = (record_round n st, Allowed)"

lemmas tracker_defs = with_session_def record_session_def declare_graph_def end_session_def
  on_spawn_def on_agent_finished_def on_write_intent_def on_writes_released_def on_tool_def
  on_gate_passed_def on_node_started_def on_node_finished_def on_round_def begin_session_def tracks_def

lemma step_other:
  "live_step env tr ev v tr' \<Longrightarrow> t \<noteq> event_session ev \<Longrightarrow> map_of tr' t = map_of tr t"
  by (erule live_step.cases)
    (auto simp: tracker_defs Let_def update_conv' delete_conv' split: option.splits prod.splits if_splits)

lemma step_tracked:
  assumes "live_step env tr ev v tr'" and "map_of tr (event_session ev) = Some st"
    and "\<And>s. ev \<noteq> EndSession s"
  shows "map_of tr' (event_session ev) = Some (fst (effect env ev st)) \<and> v = snd (effect env ev st)"
  using assms
  by (cases rule: live_step.cases)
    (auto simp: tracker_defs Let_def update_conv' split: option.splits prod.splits)

lemma step_untracked:
  assumes "live_step env tr ev v tr'" and "map_of tr (event_session ev) = None"
    and "\<And>s. ev \<noteq> BeginSession s"
  shows "map_of tr' = map_of tr \<and> v = Allowed"
  using assms
  by (cases rule: live_step.cases)
    (auto simp: tracker_defs Let_def delete_conv' fun_upd_idem split: option.splits prod.splits)

definition fresh_state :: "live_env \<Rightarrow> session_state" where
  "fresh_state env = set_budget (default_budget\<lparr>budget_max_agents := config_max_agents (env_config env)\<rparr>) new_state"

lemma step_begin:
  assumes "live_step env tr (BeginSession s) v tr'"
  shows "tr' = fst (begin_session env s tr) \<and> v = Allowed"
  using assms by cases auto

lemma step_end:
  assumes "live_step env tr (EndSession s) v tr'"
  shows "map_of tr' s = None \<and> v = Allowed"
  using assms by cases (auto simp: end_session_def delete_conv')

lemma begin_session_lookup:
  "map_of (fst (begin_session env s tr)) s =
     (if snd (begin_session env s tr) then Some (fresh_state env) else map_of tr s)"
  by (auto simp: begin_session_def tracks_def Let_def fresh_state_def update_conv')

section \<open>Invariants of a session\<close>

text \<open>A fact about one session's state that holds when it begins and is kept by every event
  holds for every session of every tracker that can be reached.\<close>

locale session_invariant =
  fixes env :: live_env and holds :: "session_state \<Rightarrow> bool"
  assumes fresh: "holds (fresh_state env)"
    and kept: "holds st \<Longrightarrow> holds (fst (effect env ev st))"
begin

definition everywhere :: "tracker \<Rightarrow> bool" where
  "everywhere tr \<longleftrightarrow> (\<forall>s st. map_of tr s = Some st \<longrightarrow> holds st)"

lemma step_keeps: "live_step env tr ev v tr' \<Longrightarrow> everywhere tr \<Longrightarrow> everywhere tr'"
proof (unfold everywhere_def, intro allI impI)
  fix s st
  assume step: "live_step env tr ev v tr'" and all: "\<forall>s st. map_of tr s = Some st \<longrightarrow> holds st"
    and st: "map_of tr' s = Some st"
  show "holds st"
  proof (cases "s = event_session ev")
    case False
    with step_other [OF step] st all show ?thesis by metis
  next
    case own: True
    consider (b) b where "ev = BeginSession b" | (e) b where "ev = EndSession b"
      | (other) "\<And>b. ev \<noteq> BeginSession b" "\<And>b. ev \<noteq> EndSession b" by metis
    then show ?thesis
    proof cases
      case (b b)
      with own have "ev = BeginSession s" by simp
      with step step_begin have "tr' = fst (begin_session env s tr)" by blast
      with st all fresh show ?thesis by (auto simp: begin_session_lookup split: if_splits)
    next
      case (e b)
      with own step step_end st show ?thesis by fastforce
    next
      case other
      show ?thesis
      proof (cases "map_of tr (event_session ev)")
        case None
        with step_untracked [OF step None other(1)] own st show ?thesis by simp
      next
        case (Some st')
        with step_tracked [OF step Some other(2)] own st all kept show ?thesis by (metis option.inject)
      qed
    qed
  qed
qed

lemma run_keeps: "live_run env tr trace tr' \<Longrightarrow> everywhere tr \<Longrightarrow> everywhere tr'"
  by (induction rule: live_run.induct) (auto intro: step_keeps)

lemma reachable_holds: "reachable env tr \<Longrightarrow> map_of tr s = Some st \<Longrightarrow> holds st"
  using run_keeps [of "[]"] by (auto simp: reachable_def everywhere_def)

end

text \<open>The bookkeeping of a session is tidy: finite sets of gates, one observed parent per node,
  and at most one claim per node and key.\<close>

definition tidy_state :: "session_state \<Rightarrow> bool" where
  "tidy_state st \<longleftrightarrow> finite (passed_gates st) \<and> distinct (map fst (observed_parent st)) \<and>
     distinct (map (\<lambda>c. (claim_node c, claim_key c)) (session_claims st))"

lemma tidy_keeps [live_frame]:
  "tidy_state st \<Longrightarrow> tidy_state (start_node n st)"
  "tidy_state st \<Longrightarrow> tidy_state (release_claims n st)"
  "tidy_state st \<Longrightarrow> tidy_state (finish_agent n st)"
  "tidy_state st \<Longrightarrow> tidy_state (finish_node n st)"
  "tidy_state st \<Longrightarrow> tidy_state (pass_gate n st)"
  "tidy_state st \<Longrightarrow> tidy_state (record_round n st)"
  "tidy_state st \<Longrightarrow> tidy_state (adopt_structure s st)"
  "tidy_state st \<Longrightarrow> tidy_state (record_spawn n parent st)"
  "tidy_state st \<Longrightarrow> tidy_state (claim n path key st)"
  by (auto simp: tidy_state_def start_node_def release_claims_def finish_agent_def finish_node_def
      pass_gate_def record_round_def adopt_structure_def record_spawn_def observe_parent_def claim_def Let_def
      distinct_map_filter distinct_update list_ex_iff split: option.splits)

lemma tidy_claims [live_frame]: "tidy_state st \<Longrightarrow> tidy_state (foldl (\<lambda>st (path, key). claim n path key st) st cs)"
  by (induction cs arbitrary: st) (auto intro: tidy_keeps)

lemma tidy_admits [live_frame]:
  "tidy_state st \<Longrightarrow> tidy_state (fst (admit_spawn cfg i st))"
  "tidy_state st \<Longrightarrow> tidy_state (fst (admit_write glob os cfg w st))"
  by (auto simp: admit_spawn_def admit_write_def Let_def intro: live_frame split: option.splits)

lemma tidy_tool [live_frame]: "tidy_state st \<Longrightarrow> tidy_state (fst (admit_tool glob os cfg i st))"
  by (auto simp: admit_tool_def Let_def split_beta intro: live_frame split: option.splits)

interpretation tidy: session_invariant env tidy_state for env
proof
  show "tidy_state (fresh_state env)" by (simp add: tidy_state_def fresh_state_def set_budget_def new_state_def)
  show "tidy_state (fst (effect env ev st))" if "tidy_state st" for ev st
    using that by (cases ev) (auto intro: live_frame split: option.splits)
qed

end
