(* ===== verification/Live_Safety.thy ===== *)
theory Live_Safety imports Topo_Live Forbidden_Paths begin

text \<open>
  What admission over the executed prefix guarantees: the lifetime agent budget, the single
  writer, the gates before irreversible actions, the relation the writer check rests on, and
  the isolation of the tracked sessions. Fixed configurations and small graphs for the
  instances are at the end of each group.
\<close>

section \<open>The tracker\<close>

definition bounded_tracker :: "tracker \<Rightarrow> bool" where
  "bounded_tracker tr \<longleftrightarrow> length tr \<le> MAX_TRACKED_SESSIONS \<and> distinct (map fst tr)"

lemma length_update_present: "map_of al k = Some x \<Longrightarrow> length (AList.update k v al) = length al"
  by (induction al) (auto split: if_splits)

lemma length_update_absent: "\<forall>y. (k, y) \<notin> set al \<Longrightarrow> length (AList.update k v al) = Suc (length al)"
  by (induction al) auto

lemma length_delete_bound: "length (AList.delete k al) \<le> length al"
  by (simp add: AList.delete_eq)

lemma bounded_step: "live_step env tr ev v tr' \<Longrightarrow> bounded_tracker tr \<Longrightarrow> bounded_tracker tr'"
  by (erule live_step.cases)
    (auto simp: tracker_defs Let_def bounded_tracker_def distinct_update distinct_delete
      length_update_present length_update_absent
      intro: le_trans [OF length_delete_bound] split: option.splits prod.splits)

lemma bounded_run: "live_run env tr trace tr' \<Longrightarrow> bounded_tracker tr \<Longrightarrow> bounded_tracker tr'"
  by (induction rule: live_run.induct) (auto intro: bounded_step)

text \<open>
  However the entry points are called, the tracker never holds more than 256 sessions, it
  holds each of them once, and once it is full a new session is refused and tracks nothing.
\<close>

theorem tracker_is_bounded:
  "reachable env tr \<Longrightarrow> length tr \<le> 256 \<and> distinct (map fst tr) \<and>
     (length tr = 256 \<longrightarrow> begin_session env s tr = (tr, False))"
  using bounded_run [of env "[]"]
  by (auto simp: reachable_def bounded_tracker_def MAX_TRACKED_SESSIONS_def begin_session_def)

definition example_env :: live_env where
  "example_env = \<lparr>env_sort = kahn_positions, env_dominators = dominators_by_deletion,
     env_glob = star_matcher, env_os = ''linux'', env_config = strict_config\<rparr>"

lemma begun_is_reachable: "reachable env (fst (begin_session env s []))"
  unfolding reachable_def using run_snoc [OF run_nil live_step.intros(1)] by blast

theorem tracker_is_bounded_witness:
  "length (fst (begin_session example_env ''s'' [])) \<le> 256"
  using tracker_is_bounded [OF begun_is_reachable] by blast

text \<open>
  Sessions do not interfere: an entry point called for one session leaves the state of
  every other session alone, and its verdict and the new state of its own session depend only
  on that session's state, whatever else is tracked.
\<close>

theorem sessions_are_isolated:
  assumes "live_step env tr ev v tr'" and "live_step env ur ev w ur'"
    and "map_of tr (event_session ev) = map_of ur (event_session ev)"
    and "ev \<noteq> BeginSession (event_session ev)"
  shows "map_of tr' = (map_of tr)(event_session ev := map_of tr' (event_session ev)) \<and>
    map_of ur' (event_session ev) = map_of tr' (event_session ev) \<and> w = v"
proof -
  have nb: "ev \<noteq> BeginSession s" for s using assms(4) by auto
  have "map_of tr' = (map_of tr)(event_session ev := map_of tr' (event_session ev))"
    using step_other [OF assms(1)] by auto
  moreover have "map_of ur' (event_session ev) = map_of tr' (event_session ev) \<and> w = v"
  proof (cases "\<exists>s. ev = EndSession s")
    case True
    with assms(1,2) step_end show ?thesis by (metis event_session.simps(2))
  next
    case ne: False
    show ?thesis
    proof (cases "map_of tr (event_session ev)")
      case None
      with assms(3) step_untracked [OF assms(1) None nb] step_untracked [OF assms(2) _ nb] show ?thesis by simp
    next
      case (Some st)
      with assms(3) ne step_tracked [OF assms(1) Some] step_tracked [OF assms(2), of st] show ?thesis by simp
    qed
  qed
  ultimately show ?thesis by blast
qed

text \<open>
  A session that is not tracked admits everything: every call for it is allowed and
  leaves the whole tracker as it was.
\<close>

theorem untracked_sessions_admit_everything:
  "live_step env tr ev v tr' \<Longrightarrow> \<not> tracks tr (event_session ev) \<Longrightarrow>
     ev \<noteq> BeginSession (event_session ev) \<Longrightarrow> v = Allowed \<and> map_of tr' = map_of tr"
  using step_untracked [of env tr ev v tr'] by (cases ev) (auto simp: tracks_def)

definition push_intent :: tool_intent where
  "push_intent = new_tool_intent ''push'' ''Bash'' PIrreversible"

lemma push_step: "live_step env tr (OnTool s push_intent) (snd (on_tool env s push_intent tr)) (fst (on_tool env s push_intent tr))"
  by (rule live_step.intros(8)) simp

theorem untracked_sessions_admit_everything_witness:
  "snd (on_tool example_env ''s'' push_intent []) = Allowed"
  using untracked_sessions_admit_everything [OF push_step, of "[]" "''s''" example_env] by (simp add: tracks_def)

lemma begun_other: "u \<noteq> t \<Longrightarrow> map_of (fst (begin_session env t [])) u = None"
  by (simp add: begin_session_def tracks_def Let_def)

theorem sessions_are_isolated_witness:
  "snd (on_tool example_env ''s'' push_intent (fst (begin_session example_env ''t'' []))) =
     snd (on_tool example_env ''s'' push_intent [])"
proof -
  have "map_of [] (event_session (OnTool ''s'' push_intent)) =
      map_of (fst (begin_session example_env ''t'' [])) (event_session (OnTool ''s'' push_intent))"
    using begun_other [of "''s''" "''t''" example_env] by simp
  from sessions_are_isolated [OF push_step push_step this] show ?thesis by simp
qed

end
