(* ===== verification/Live_Agents.thy ===== *)
theory Live_Agents imports Live_Safety begin

text \<open>
  The lifetime agent budget of \<^verbatim>\<open>live/agents.rs\<close> over a whole run of a session: how many
  agents are launched by the calls that were allowed.
\<close>

definition launches :: "string \<Rightarrow> live_event \<times> verdict \<Rightarrow> bool" where
  "launches s = (\<lambda>(ev, v). v = Allowed \<and>
     (case ev of
        OnSpawn t i \<Rightarrow> t = s
      | OnTool t i \<Rightarrow> t = s \<and> tool_spawn i \<noteq> None
      | _ \<Rightarrow> False))"

text \<open>The run neither ends the session nor declares a graph whose budget is above \<open>m\<close>.\<close>

definition budget_within :: "nat \<Rightarrow> string \<Rightarrow> live_event \<times> verdict \<Rightarrow> bool" where
  "budget_within m s = (\<lambda>(ev, v).
     case ev of
       EndSession t \<Rightarrow> t \<noteq> s
     | DeclareGraph t g \<Rightarrow> unat (budget_max_agents (graph_budget g)) \<le> m
     | _ \<Rightarrow> True)"

definition state_cap :: "session_state \<Rightarrow> u32" where
  "state_cap st = budget_max_agents (session_budget st)"

lemmas session_ops = start_node_def release_claims_def finish_agent_def finish_node_def
  pass_gate_def record_round_def adopt_structure_def record_spawn_def observe_parent_def claim_def Let_def

lemma frame_spawned [live_frame]:
  "agents_spawned (start_node n st) = agents_spawned st"
  "agents_spawned (release_claims n st) = agents_spawned st"
  "agents_spawned (finish_agent n st) = agents_spawned st"
  "agents_spawned (finish_node n st) = agents_spawned st"
  "agents_spawned (pass_gate n st) = agents_spawned st"
  "agents_spawned (record_round n st) = agents_spawned st"
  "agents_spawned (adopt_structure s st) = agents_spawned st"
  "agents_spawned (record_spawn n parent st) = u32_saturating_add (agents_spawned st) 1"
  "agents_spawned (claim n path key st) = agents_spawned st"
  by (auto simp: session_ops split: option.splits)

lemma frame_structure [live_frame]:
  "session_structure (start_node n st) = session_structure st"
  "session_structure (release_claims n st) = session_structure st"
  "session_structure (finish_agent n st) = session_structure st"
  "session_structure (finish_node n st) = session_structure st"
  "session_structure (pass_gate n st) = session_structure st"
  "session_structure (record_round n st) = session_structure st"
  "session_structure (adopt_structure s st) = s"
  "session_structure (record_spawn n parent st) = session_structure st"
  "session_structure (claim n path key st) = session_structure st"
  by (auto simp: session_ops split: option.splits)

lemma frame_claims [live_frame]:
  "agents_spawned (foldl (\<lambda>st (path, key). claim n path key st) st cs) = agents_spawned st"
  "session_structure (foldl (\<lambda>st (path, key). claim n path key st) st cs) = session_structure st"
  by (induction cs arbitrary: st) (auto simp: live_frame)

lemma frame_write [live_frame]:
  "agents_spawned (fst (admit_write glob os cfg w st)) = agents_spawned st"
  "session_structure (fst (admit_write glob os cfg w st)) = session_structure st"
  by (auto simp: admit_write_def Let_def live_frame split: option.splits)

lemma write_frame:
  "admit_write glob os cfg w st = (st', v) \<Longrightarrow>
     agents_spawned st' = agents_spawned st \<and> session_structure st' = session_structure st"
  using frame_write [of glob os cfg w st] by simp

lemma spawn_step:
  assumes "agent_cap cfg" and "admit_spawn cfg i st = (st', v)"
  shows "session_structure st' = session_structure st \<and>
    unat (agents_spawned st') = unat (agents_spawned st) + (if v = Allowed then 1 else 0) \<and>
    (v = Allowed \<longrightarrow> unat (agents_spawned st') \<le> unat (state_cap st))"
proof (cases "state_cap st \<le> agents_spawned st")
  case True
  with assms show ?thesis by (auto simp: admit_spawn_def state_cap_def Let_def)
next
  case False
  then have "unat (agents_spawned st) < unat (state_cap st)" by (simp add: word_le_nat_alt)
  moreover have "unat (state_cap st) < 2 ^ 32" by (rule unat_u32_lt)
  ultimately have "unat (agents_spawned st) + 1 < 2 ^ 32" by linarith
  then have "unat (u32_saturating_add (agents_spawned st) 1) = unat (agents_spawned st) + 1"
    by (simp add: unat_u32_saturating_add)
  with False assms \<open>unat (agents_spawned st) < unat (state_cap st)\<close> show ?thesis
    by (auto simp: admit_spawn_def state_cap_def Let_def live_frame)
qed

lemma tool_step:
  assumes "agent_cap cfg" and "admit_tool glob os cfg i st = (st', v)"
  shows "session_structure st' = session_structure st \<and>
    unat (agents_spawned st) + (if v = Allowed \<and> tool_spawn i \<noteq> None then 1 else 0) \<le> unat (agents_spawned st') \<and>
    unat (agents_spawned st') \<le> max (unat (agents_spawned st)) (unat (state_cap st))"
proof (cases "tool_spawn i")
  case None
  then have "session_structure st' = session_structure st \<and> agents_spawned st' = agents_spawned st"
    using assms(2) by (auto simp: admit_tool_def Let_def split_beta live_frame dest!: write_frame split: if_splits)
  with None show ?thesis by auto
next
  case (Some s)
  let ?st0 = "start_node (tool_node i) st"
  obtain st1 v1 where s1: "admit_spawn cfg s ?st0 = (st1, v1)" by (cases "admit_spawn cfg s ?st0")
  note step = spawn_step [OF assms(1) s1]
  have "agents_spawned st' = agents_spawned st1 \<and> session_structure st' = session_structure st1 \<and>
      (v = Allowed \<longrightarrow> v1 = Allowed)"
    using assms(2) Some s1
    by (auto simp: admit_tool_def Let_def split_beta live_frame is_blocked_def dest!: write_frame
        split: if_splits verdict.splits)
  with step show ?thesis by (auto simp: live_frame state_cap_def session_budget_def split: if_splits)
qed

lemma from_graph_budget: "from_graph topo doms g = Some s \<Longrightarrow> structure_budget s = graph_budget g"
  by (auto simp: from_graph_def Let_def split: sum.splits)

text \<open>What one event adds to the launches and to the counted agents of its session.\<close>

lemma effect_counts:
  assumes "agent_cap (env_config env)" and "effect env ev st = (st', v)" and "budget_within m s (ev, v)"
    and "unat (state_cap st) \<le> m" and "unat (agents_spawned st) \<le> m"
  shows "unat (agents_spawned st) + (if launches (event_session ev) (ev, v) then 1 else 0) \<le> unat (agents_spawned st') \<and>
    unat (agents_spawned st') \<le> m \<and> unat (state_cap st') \<le> m"
proof (cases ev)
  case (OnSpawn t i)
  with assms spawn_step [OF assms(1), of i st st' v] show ?thesis
    by (auto simp: launches_def state_cap_def session_budget_def split: if_splits)
next
  case (OnTool t i)
  with assms tool_step [OF assms(1), of "env_glob env" "env_os env" i st st' v] show ?thesis
    by (auto simp: launches_def state_cap_def session_budget_def split: if_splits)
next
  case (DeclareGraph t g)
  with assms show ?thesis
    by (auto simp: launches_def budget_within_def live_frame state_cap_def session_budget_def from_graph_budget
        split: option.splits)
next
  case (OnWriteIntent t w)
  with assms frame_write [of "env_glob env" "env_os env" "env_config env" w st] show ?thesis
    by (auto simp: launches_def state_cap_def session_budget_def)
qed (use assms in \<open>auto simp: launches_def live_frame state_cap_def session_budget_def\<close>)

lemma budget_step:
  assumes "agent_cap (env_config env)" and step: "live_step env tr ev v tr'" and within: "budget_within m s (ev, v)"
    and st: "map_of tr s = Some st" "unat (state_cap st) \<le> m" "unat (agents_spawned st) \<le> m"
  shows "\<exists>st'. map_of tr' s = Some st' \<and> unat (state_cap st') \<le> m \<and> unat (agents_spawned st') \<le> m \<and>
    unat (agents_spawned st) + (if launches s (ev, v) then 1 else 0) \<le> unat (agents_spawned st')"
proof (cases "event_session ev = s")
  case False
  then have "\<not> launches s (ev, v)" by (auto simp: launches_def split: live_event.splits)
  with False st step_other [OF step] show ?thesis by auto
next
  case True
  then have "\<And>t. ev \<noteq> EndSession t" using within by (auto simp: budget_within_def)
  with step_tracked [OF step] True st
  have r: "map_of tr' s = Some (fst (effect env ev st))" "v = snd (effect env ev st)" by auto
  then have "effect env ev st = (fst (effect env ev st), v)" by (metis prod.collapse)
  from effect_counts [OF assms(1) this within st(2,3)] True r show ?thesis by auto
qed

lemma budget_run:
  assumes "live_run env tr trace tr'" and "agent_cap (env_config env)" and "list_all (budget_within m s) trace"
    and "map_of tr s = Some st" "unat (state_cap st) \<le> m" "unat (agents_spawned st) \<le> m"
  shows "\<exists>st'. map_of tr' s = Some st' \<and> unat (state_cap st') \<le> m \<and> unat (agents_spawned st') \<le> m \<and>
    unat (agents_spawned st) + length (filter (launches s) trace) \<le> unat (agents_spawned st')"
  using assms
proof (induction rule: live_run.induct)
  case (run_snoc tr trace tr' ev v tr'')
  then obtain st' where st': "map_of tr' s = Some st'" "unat (state_cap st') \<le> m" "unat (agents_spawned st') \<le> m"
    "unat (agents_spawned st) + length (filter (launches s) trace) \<le> unat (agents_spawned st')" by auto
  have "budget_within m s (ev, v)" using run_snoc.prems(2) by simp
  from budget_step [OF run_snoc.prems(1) run_snoc.hyps(2) this st'(1,2,3)] st'(4) show ?case
    by (auto split: if_splits)
qed auto

text \<open>
  C19. The agent cap is a lifetime cap: from the moment a session begins, over any run of calls
  for any sessions in any order that does not end it, the calls that were allowed launch no
  more agents than the largest ceiling in force, configured or declared, and the session's
  32-bit count never wraps and never falls behind the launches. Finishing agents or nodes
  frees nothing.
\<close>

theorem lifetime_agent_cap:
  assumes "agent_cap (env_config env)"
    and "begin_session env s tr = (tr0, True)" and "live_run env tr0 trace tr1"
    and "list_all (budget_within m s) trace" and "unat (config_max_agents (env_config env)) \<le> m"
  shows "\<exists>st. snapshot s tr1 = Some st \<and> length (filter (launches s) trace) \<le> unat (agents_spawned st) \<and>
    unat (agents_spawned st) \<le> m"
proof -
  have "map_of tr0 s = Some (fresh_state env)" using begin_session_lookup [of env s tr] assms(2) by simp
  moreover have "unat (state_cap (fresh_state env)) \<le> m" "agents_spawned (fresh_state env) = 0"
    using assms(5) by (simp_all add: state_cap_def fresh_state_def session_budget_def set_budget_def new_state_def)
  ultimately show ?thesis
    using budget_run [OF assms(3,1,4), of "fresh_state env"] by (auto simp: snapshot_def)
qed

definition one_agent_env :: live_env where
  "one_agent_env = example_env\<lparr>env_config := strict_config\<lparr>config_max_agents := 1\<rparr>\<rparr>"

definition helper_spawn :: spawn_intent where
  "helper_spawn = \<lparr>spawn_node = ''helper'', spawn_parent = None, spawn_agent = ''worker''\<rparr>"

theorem lifetime_agent_cap_witness:
  "\<exists>trace tr1 st. live_run one_agent_env (fst (begin_session one_agent_env ''s'' [])) trace tr1 \<and>
     map fst trace = [OnSpawn ''s'' helper_spawn, OnAgentFinished ''s'' ''helper'', OnSpawn ''s'' helper_spawn] \<and>
     snapshot ''s'' tr1 = Some st \<and> length (filter (launches ''s'') trace) \<le> 1"
proof -
  let ?e = one_agent_env and ?s = "''s''"
  let ?tr0 = "fst (begin_session ?e ?s [])"
  have b: "begin_session ?e ?s [] = (?tr0, True)" by (simp add: begin_session_def tracks_def MAX_TRACKED_SESSIONS_def Let_def)
  obtain tr1 v1 where s1: "on_spawn ?e ?s helper_spawn ?tr0 = (tr1, v1)" by (cases "on_spawn ?e ?s helper_spawn ?tr0")
  let ?tr2 = "on_agent_finished ?s ''helper'' tr1"
  obtain tr3 v3 where s3: "on_spawn ?e ?s helper_spawn ?tr2 = (tr3, v3)" by (cases "on_spawn ?e ?s helper_spawn ?tr2")
  let ?trace = "[(OnSpawn ?s helper_spawn, v1), (OnAgentFinished ?s ''helper'', Allowed), (OnSpawn ?s helper_spawn, v3)]"
  have run: "live_run ?e ?tr0 ?trace tr3"
    using run_snoc [OF run_snoc [OF run_snoc [OF run_nil live_step.intros(4) [OF s1]] live_step.intros(5)]
        live_step.intros(4) [OF s3]] by simp
  have "agent_cap (env_config ?e)" "list_all (budget_within 1 ?s) ?trace" "unat (config_max_agents (env_config ?e)) \<le> 1"
    by (simp_all add: one_agent_env_def strict_config_def default_config_def budget_within_def)
  from lifetime_agent_cap [OF this(1) b run this(2,3)] run show ?thesis by (auto intro!: exI [of _ ?trace])
qed

end
