(* ===== verification/Live_Writers.thy ===== *)
theory Live_Writers imports Live_Agents begin

text \<open>
  The single-writer check of \<^verbatim>\<open>live/writes.rs\<close>: one admission is exact and all or nothing, and
  over a run of a session the live nodes that no path relates never hold conflicting claims,
  as long as nodes are started before they write and are not restarted while claims of
  theirs are left over. The last group shows what happens without that.
\<close>

section \<open>One admission\<close>

text \<open>A claim that stands against the write of \<open>key\<close> by \<open>n\<close>.\<close>

definition stands_against :: "globset_compiler \<Rightarrow> session_state \<Rightarrow> string \<Rightarrow> resource_key \<Rightarrow> write_claim \<Rightarrow> bool" where
  "stands_against glob st n key c \<longleftrightarrow> c \<in> set (session_claims st) \<and> claim_node c \<noteq> n \<and>
     is_live st (claim_node c) \<and> \<not> are_related st n (claim_node c) \<and> keys_conflict glob (claim_key c) key"

lemma conflicting_claims_None: "conflicting_claims glob st n key = None \<longleftrightarrow> (\<nexists>c. stands_against glob st n key c)"
  by (auto simp: conflicting_claims_def find_None_iff_set stands_against_def)

lemma conflicting_claims_Some: "conflicting_claims glob st n key = Some c \<Longrightarrow> stands_against glob st n key c"
  by (auto simp: conflicting_claims_def stands_against_def dest: find_Some_iff_set)

lemma first_conflict_None:
  "first_conflict glob st n cs = None \<longleftrightarrow> (\<nexists>c key. key \<in> snd ` set cs \<and> stands_against glob st n key c)"
proof (induction cs)
  case (Cons pk cs)
  obtain path key where pk: "pk = (path, key)" by (cases pk)
  show ?case
  proof (cases "conflicting_claims glob st n key")
    case None
    then have same: "first_conflict glob st n (pk # cs) = first_conflict glob st n cs" by (simp add: pk)
    from None have none: "\<nexists>c. stands_against glob st n key c" by (simp only: conflicting_claims_None) simp
    have keys: "snd ` set (pk # cs) = insert key (snd ` set cs)" by (simp add: pk)
    show ?thesis unfolding same keys Cons.IH using none by blast
  next
    case (Some c)
    with conflicting_claims_Some [OF Some] show ?thesis unfolding pk by auto
  qed
qed simp

lemma first_conflict_Some:
  "first_conflict glob st n cs = Some (path, c) \<Longrightarrow> \<exists>key. (path, key) \<in> set cs \<and> stands_against glob st n key c"
proof (induction cs)
  case (Cons pk cs)
  obtain p key where pk: "pk = (p, key)" by (cases pk)
  show ?case
  proof (cases "conflicting_claims glob st n key")
    case None
    with Cons show ?thesis unfolding pk by auto
  next
    case (Some d)
    with Cons.prems conflicting_claims_Some [OF Some] show ?thesis unfolding pk by auto
  qed
qed simp

definition holds_claim :: "session_state \<Rightarrow> string \<Rightarrow> resource_key \<Rightarrow> bool" where
  "holds_claim st n key \<longleftrightarrow> (\<exists>c\<in>set (session_claims st). claim_node c = n \<and> claim_key c = key)"

text \<open>Everything of a session but its claims.\<close>

definition without_claims :: "session_state \<Rightarrow> session_state" where
  "without_claims st = st\<lparr>session_claims := []\<rparr>"

lemma holds_claim_claim: "holds_claim (claim n path key st) m k \<longleftrightarrow> holds_claim st m k \<or> (m = n \<and> k = key)"
  by (auto simp: claim_def holds_claim_def list_ex_iff)

lemma holds_claim_claims:
  "holds_claim (foldl (\<lambda>st (path, key). claim n path key st) st cs) m k \<longleftrightarrow>
     holds_claim st m k \<or> (m = n \<and> k \<in> snd ` set cs)"
proof (induction cs arbitrary: st)
  case (Cons pk cs)
  obtain path key where pk: "pk = (path, key)" by (cases pk)
  show ?case by (simp add: pk Cons.IH holds_claim_claim) blast
qed simp

lemma without_claims_claims:
  "without_claims (foldl (\<lambda>st (path, key). claim n path key st) st cs) = without_claims st"
  by (induction cs arbitrary: st) (auto simp: claim_def without_claims_def)

definition intent_keys :: "string \<Rightarrow> write_intent \<Rightarrow> resource_key set" where
  "intent_keys os w = snd ` set (declared_claims os w)"

lemma admit_write_cases:
  assumes "single_writer cfg" and "admit_write glob os cfg w st = (st', v)"
  shows "(v = Allowed \<and> (\<nexists>c key. key \<in> intent_keys os w \<and> stands_against glob st (write_node w) key c) \<and>
      without_claims st' = without_claims st \<and>
      (\<forall>m k. holds_claim st' m k \<longleftrightarrow> holds_claim st m k \<or> (m = write_node w \<and> k \<in> intent_keys os w))) \<or>
    (st' = st \<and> (\<exists>path key c. (path, key) \<in> set (declared_claims os w) \<and>
      stands_against glob st (write_node w) key c \<and> v = Blocked SingleWriter (writes_reason w path c)))"
proof (cases "declared_claims os w = []")
  case True
  with assms show ?thesis by (auto simp: admit_write_def intent_keys_def)
next
  case ne: False
  show ?thesis
  proof (cases "first_conflict glob st (write_node w) (declared_claims os w)")
    case None
    with ne assms have r: "v = Allowed"
      "st' = foldl (\<lambda>st (path, key). claim (write_node w) path key st) st (declared_claims os w)"
      by (auto simp: admit_write_def)
    from None show ?thesis unfolding r first_conflict_None intent_keys_def
      by (simp add: holds_claim_claims without_claims_claims)
  next
    case (Some pc)
    obtain path c where pc: "pc = (path, c)" by (cases pc)
    with ne assms Some have "st' = st" "v = Blocked SingleWriter (writes_reason w path c)"
      by (auto simp: admit_write_def)
    with first_conflict_Some [OF Some [unfolded pc]] show ?thesis by blast
  qed
qed

lemma sublist_here: "sublist x (x @ t)"
  by (simp add: sublist_def) (metis append_Nil)

lemma sublist_skip: "sublist x t \<Longrightarrow> sublist x (s @ t)"
  by (auto simp: sublist_def) (metis append_assoc)

lemma sublist_quoted: "sublist x (quoted x @ t)"
  unfolding quoted_def by (metis sublist_here sublist_skip append_Cons append_Nil append_assoc)

lemma reason_names_holder: "sublist (claim_node c) (writes_reason w path c)"
  unfolding writes_reason_def by (rule sublist_quoted | rule sublist_skip)+

lemma reason_names_path: "sublist path (writes_reason w path c)"
  unfolding writes_reason_def by (rule sublist_quoted | rule sublist_skip)+

text \<open>
  C33. A write is admitted exactly when no live node that no path relates to the writer holds a
  claim in conflict with one of its keys. Admission is all or nothing: an admitted write adds a
  claim for each of its keys and changes nothing else, and a blocked one leaves the state
  alone. A block names the path and a node that really stands in its way.
\<close>

theorem write_admission_is_exact:
  assumes "single_writer cfg" and "admit_write glob os cfg w st = (st', v)"
  shows "(v = Allowed \<longleftrightarrow> (\<nexists>c key. key \<in> intent_keys os w \<and> stands_against glob st (write_node w) key c)) \<and>
    (v = Allowed \<longrightarrow> without_claims st' = without_claims st \<and>
      (\<forall>m k. holds_claim st' m k \<longleftrightarrow> holds_claim st m k \<or> (m = write_node w \<and> k \<in> intent_keys os w))) \<and>
    (v \<noteq> Allowed \<longrightarrow> st' = st \<and> (\<exists>path key c. (path, key) \<in> set (declared_claims os w) \<and>
      stands_against glob st (write_node w) key c \<and> v = Blocked SingleWriter (writes_reason w path c) \<and>
      sublist (claim_node c) (writes_reason w path c) \<and> sublist path (writes_reason w path c)))"
  using admit_write_cases [OF assms]
proof
  assume "v = Allowed \<and> (\<nexists>c key. key \<in> intent_keys os w \<and> stands_against glob st (write_node w) key c) \<and>
      without_claims st' = without_claims st \<and>
      (\<forall>m k. holds_claim st' m k \<longleftrightarrow> holds_claim st m k \<or> (m = write_node w \<and> k \<in> intent_keys os w))"
  then show ?thesis by blast
next
  assume "st' = st \<and> (\<exists>path key c. (path, key) \<in> set (declared_claims os w) \<and>
      stands_against glob st (write_node w) key c \<and> v = Blocked SingleWriter (writes_reason w path c))"
  then obtain path key c where r: "st' = st" "(path, key) \<in> set (declared_claims os w)"
    "stands_against glob st (write_node w) key c" "v = Blocked SingleWriter (writes_reason w path c)" by blast
  then have "key \<in> intent_keys os w" by (force simp: intent_keys_def)
  with r reason_names_holder reason_names_path show ?thesis by blast
qed

text \<open>A file name that two spellings share: the second writer is stopped.\<close>

definition writer_state :: session_state where
  "writer_state = start_node ''b'' (claim ''a'' ''src/lib.rs'' (File ''src/lib.rs'') (start_node ''a'' new_state))"

theorem write_admission_is_exact_witness:
  "\<exists>c. stands_against star_matcher writer_state ''b'' (File ''src/lib.rs'') c"
proof -
  let ?w = "exclusive ''b'' [''src'' @ [CHR 0x5C] @ ''lib.rs'']"
  obtain st' v where r: "admit_write star_matcher ''linux'' default_config ?w writer_state = (st', v)"
    by (cases "admit_write star_matcher ''linux'' default_config ?w writer_state")
  have keys: "intent_keys ''linux'' ?w = {File ''src/lib.rs''}" by code_simp
  have "is_blocked (snd (admit_write star_matcher ''linux'' default_config ?w writer_state))" by code_simp
  then have "v \<noteq> Allowed" using r by (auto simp: is_blocked_def)
  moreover have "single_writer default_config" by (simp add: default_config_def)
  ultimately show ?thesis
    using write_admission_is_exact [OF _ r, THEN conjunct1] unfolding keys by (auto simp: exclusive_def)
qed

section \<open>A whole session\<close>

text \<open>Neither order of asking finds a path between the two.\<close>

definition unrelated :: "session_state \<Rightarrow> string \<Rightarrow> string \<Rightarrow> bool" where
  "unrelated st a b \<longleftrightarrow> \<not> are_related st a b \<and> \<not> are_related st b a"

definition race_free :: "globset_compiler \<Rightarrow> session_state \<Rightarrow> bool" where
  "race_free glob st \<longleftrightarrow> (\<forall>m k n l. holds_claim st m k \<and> holds_claim st n l \<and> is_live st m \<and> is_live st n \<and>
     unrelated st m n \<longrightarrow> \<not> keys_conflict glob k l)"

definition ready_to_start :: "session_state \<Rightarrow> string \<Rightarrow> bool" where
  "ready_to_start st n \<longleftrightarrow> is_live st n \<or> \<not> list_ex (\<lambda>c. claim_node c = n) (session_claims st)"

lemma ready_to_start_iff: "ready_to_start st n \<longleftrightarrow> is_live st n \<or> (\<nexists>k. holds_claim st n k)"
  by (auto simp: ready_to_start_def holds_claim_def list_ex_iff)

definition ready_to_spawn :: "session_state \<Rightarrow> string \<Rightarrow> bool" where
  "ready_to_spawn st n \<longleftrightarrow> ready_to_start st n \<and> map_of (observed_parent st) n = None"

text \<open>No node is started while claims of it are left over, a child is spawned under one parent,
  and a graph is declared before the first claim.\<close>

primrec orderly :: "session_state \<Rightarrow> live_event \<Rightarrow> bool" where
  "orderly st (BeginSession s) \<longleftrightarrow> True"
| "orderly st (EndSession s) \<longleftrightarrow> True"
| "orderly st (DeclareGraph s g) \<longleftrightarrow> session_claims st = []"
| "orderly st (OnSpawn s i) \<longleftrightarrow> ready_to_spawn st (spawn_node i)"
| "orderly st (OnAgentFinished s n) \<longleftrightarrow> True"
| "orderly st (OnWriteIntent s w) \<longleftrightarrow> True"
| "orderly st (OnWritesReleased s n) \<longleftrightarrow> True"
| "orderly st (OnTool s t) \<longleftrightarrow> ready_to_start st (tool_node t) \<and>
     (case tool_spawn t of None \<Rightarrow> True | Some i \<Rightarrow> ready_to_spawn st (spawn_node i))"
| "orderly st (OnGatePassed s n) \<longleftrightarrow> True"
| "orderly st (OnNodeStarted s n) \<longleftrightarrow> ready_to_start st n"
| "orderly st (OnNodeFinished s n) \<longleftrightarrow> True"
| "orderly st (OnRound s n) \<longleftrightarrow> True"

fun orderly_run :: "live_env \<Rightarrow> session_state \<Rightarrow> live_event list \<Rightarrow> bool" where
  "orderly_run env st [] \<longleftrightarrow> True"
| "orderly_run env st (ev # evs) \<longleftrightarrow> orderly st ev \<and> orderly_run env (fst (effect env ev st)) evs"

definition run_events :: "live_env \<Rightarrow> session_state \<Rightarrow> live_event list \<Rightarrow> session_state" where
  "run_events env st evs = foldl (\<lambda>st ev. fst (effect env ev st)) st evs"

text \<open>Fewer live claims and more relations keep a state free of races.\<close>

lemma race_free_mono:
  assumes "race_free glob st"
    and "\<And>n k. holds_claim st' n k \<Longrightarrow> is_live st' n \<Longrightarrow> holds_claim st n k \<and> is_live st n"
    and "\<And>m n. unrelated st' m n \<Longrightarrow> unrelated st m n"
  shows "race_free glob st'"
  using assms unfolding race_free_def by metis

lemma unrelated_cong:
  "session_structure st' = session_structure st \<Longrightarrow> observed_parent st' = observed_parent st \<Longrightarrow>
     unrelated st' = unrelated st"
  by (intro ext) (simp add: unrelated_def are_related_iff)

lemma frame_parent [live_frame]:
  "observed_parent (start_node n st) = observed_parent st"
  "observed_parent (release_claims n st) = observed_parent st"
  "observed_parent (finish_agent n st) = observed_parent st"
  "observed_parent (finish_node n st) = observed_parent st"
  "observed_parent (claim n path key st) = observed_parent st"
  by (auto simp: session_ops)

lemma holds_claim_simps [live_frame]:
  "holds_claim (start_node n st) m k = holds_claim st m k"
  "holds_claim (release_claims n st) m k \<longleftrightarrow> m \<noteq> n \<and> holds_claim st m k"
  "holds_claim (finish_agent n st) m k = holds_claim st m k"
  "holds_claim (finish_node n st) m k \<longleftrightarrow> m \<noteq> n \<and> holds_claim st m k"
  "holds_claim (record_spawn n parent st) m k = holds_claim st m k"
  by (auto simp: session_ops holds_claim_def split: option.splits)

lemma is_live_simps [live_frame]:
  "is_live (start_node n st) m \<longleftrightarrow> is_live st m \<or> (m = n \<and> n \<noteq> [])"
  "is_live (release_claims n st) m = is_live st m"
  "is_live (finish_agent n st) m \<longleftrightarrow> is_live st m \<and> (m \<noteq> n \<or> n = [])"
  "is_live (finish_node n st) m \<longleftrightarrow> is_live st m \<and> m \<noteq> n"
  "is_live (record_spawn n parent st) m \<longleftrightarrow> is_live st m \<or> (m = n \<and> n \<noteq> [])"
  by (auto simp: session_ops is_live_def split: option.splits)

lemma start_keeps:
  assumes "race_free glob st" and "ready_to_start st n"
  shows "race_free glob (start_node n st)"
proof (rule race_free_mono [OF assms(1)])
  show "holds_claim st m k \<and> is_live st m" if "holds_claim (start_node n st) m k" "is_live (start_node n st) m" for m k
    using that assms(2) by (auto simp: live_frame ready_to_start_iff)
  show "unrelated st a b" if "unrelated (start_node n st) a b" for a b
    using that unrelated_cong [of "start_node n st" st] by (simp add: live_frame)
qed

lemma parent_rel_update:
  "map_of ps n = None \<Longrightarrow> parent_rel ps \<subseteq> parent_rel (AList.update n p ps)"
  by (auto simp: parent_rel_def update_conv')

lemma spawn_unrelated:
  assumes "map_of (observed_parent st) n = None" and "unrelated (record_spawn n parent st) a b"
  shows "unrelated st a b"
proof -
  have "parent_rel (observed_parent st) \<subseteq> parent_rel (observed_parent (record_spawn n parent st))"
    using parent_rel_update [OF assms(1)] by (auto simp: session_ops split: option.splits)
  then have "(parent_rel (observed_parent st))\<^sup>+ \<subseteq> (parent_rel (observed_parent (record_spawn n parent st)))\<^sup>+"
    by (rule trancl_mono_subset)
  with assms(2) show ?thesis by (auto simp: unrelated_def are_related_iff live_frame)
qed

lemma spawn_keeps:
  assumes "race_free glob st" and "ready_to_spawn st (spawn_node i)"
  shows "race_free glob (fst (admit_spawn cfg i st))"
proof -
  have "race_free glob (record_spawn (spawn_node i) parent st)" for parent
  proof (rule race_free_mono [OF assms(1)])
    show "holds_claim st m k \<and> is_live st m"
      if "holds_claim (record_spawn (spawn_node i) parent st) m k" "is_live (record_spawn (spawn_node i) parent st) m" for m k
      using that assms(2) by (auto simp: live_frame ready_to_start_iff ready_to_spawn_def)
    show "unrelated st a b" if "unrelated (record_spawn (spawn_node i) parent st) a b" for a b
      using that spawn_unrelated assms(2) by (auto simp: ready_to_spawn_def)
  qed
  then show ?thesis using assms(1) by (simp add: admit_spawn_def Let_def)
qed

lemma unrelated_irrefl: "unrelated st m n \<Longrightarrow> m \<noteq> n"
  by (auto simp: unrelated_def are_related_def)

lemma unrelated_sym: "unrelated st m n \<Longrightarrow> unrelated st n m"
  by (simp add: unrelated_def)

lemma same_but_claims:
  assumes "without_claims st' = without_claims st"
  shows "is_live st' = is_live st \<and> unrelated st' = unrelated st"
proof -
  have "started st' = started st" "finished st' = finished st"
    "session_structure st' = session_structure st" "observed_parent st' = observed_parent st"
    using arg_cong [OF assms, of started] arg_cong [OF assms, of finished]
      arg_cong [OF assms, of session_structure] arg_cong [OF assms, of observed_parent]
    by (simp_all add: without_claims_def)
  then show ?thesis using unrelated_cong [of st' st] by (auto simp: is_live_def)
qed

lemma write_keeps:
  assumes free: "race_free glob st" and "single_writer cfg"
  shows "race_free glob (fst (admit_write glob os cfg w st))"
proof -
  obtain st' v where r: "admit_write glob os cfg w st = (st', v)" by (cases "admit_write glob os cfg w st")
  from admit_write_cases [OF assms(2) r] show ?thesis
  proof
    assume "v = Allowed \<and> (\<nexists>c key. key \<in> intent_keys os w \<and> stands_against glob st (write_node w) key c) \<and>
      without_claims st' = without_claims st \<and>
      (\<forall>m k. holds_claim st' m k \<longleftrightarrow> holds_claim st m k \<or> (m = write_node w \<and> k \<in> intent_keys os w))"
    then have clear: "\<And>c key. key \<in> intent_keys os w \<Longrightarrow> \<not> stands_against glob st (write_node w) key c"
      and same: "is_live st' = is_live st" "unrelated st' = unrelated st"
      and new: "\<And>m k. holds_claim st' m k \<longleftrightarrow> holds_claim st m k \<or> (m = write_node w \<and> k \<in> intent_keys os w)"
      using same_but_claims [of st' st] by simp_all
    have fresh: "\<not> keys_conflict glob l k"
      if "k \<in> intent_keys os w" "holds_claim st n l" "is_live st n" "unrelated st (write_node w) n" for k n l
    proof -
      from that(2) obtain c where c: "c \<in> set (session_claims st)" "claim_node c = n" "claim_key c = l"
        by (auto simp: holds_claim_def)
      have "n \<noteq> write_node w" "\<not> are_related st (write_node w) n"
        using that(4) unrelated_irrefl by (auto simp: unrelated_def)
      with c that(3) clear [OF that(1), of c] show ?thesis by (simp add: stands_against_def)
    qed
    have "\<not> keys_conflict glob k l"
      if "holds_claim st' m k" "holds_claim st' n l" "is_live st' m" "is_live st' n" "unrelated st' m n" for m k n l
    proof -
      note live = that(3-5) [unfolded same]
      from that(1) have m: "holds_claim st m k \<or> (m = write_node w \<and> k \<in> intent_keys os w)" by (simp only: new)
      from that(2) have n: "holds_claim st n l \<or> (n = write_node w \<and> l \<in> intent_keys os w)" by (simp only: new)
      consider "holds_claim st m k" "holds_claim st n l" | "m = write_node w" "k \<in> intent_keys os w" "holds_claim st n l"
        | "n = write_node w" "l \<in> intent_keys os w" "holds_claim st m k" | "m = n"
        using m n by argo
      then show ?thesis
      proof cases
        case 1
        with free live show ?thesis unfolding race_free_def by blast
      next
        case 2
        with fresh live have "\<not> keys_conflict glob l k" by blast
        then show ?thesis by (simp only: keys_conflict_sym [of glob k l]) simp
      next
        case 3
        with fresh live unrelated_sym show ?thesis by blast
      next
        case 4
        with live unrelated_irrefl show ?thesis by blast
      qed
    qed
    with r show ?thesis unfolding race_free_def by auto
  qed (use r free in auto)
qed

text \<open>A race-free session stays so under every orderly event.\<close>

lemma effect_keeps:
  assumes free: "race_free (env_glob env) st" and sw: "single_writer (env_config env)" and ord: "orderly st ev"
  shows "race_free (env_glob env) (fst (effect env ev st))"
proof (cases ev)
  case (DeclareGraph s g)
  with ord free show ?thesis
    by (auto simp: race_free_def holds_claim_def adopt_structure_def split: option.splits)
next
  case (OnTool s t)
  let ?g = "env_glob env" and ?o = "env_os env" and ?c = "env_config env"
  let ?st1 = "start_node (tool_node t) st"
  have f1: "race_free ?g ?st1" using ord OnTool free start_keeps by simp
  let ?p = "case tool_spawn t of None \<Rightarrow> (?st1, Allowed) | Some i \<Rightarrow> admit_spawn ?c i ?st1"
  have f2: "race_free ?g (fst ?p)"
  proof (cases "tool_spawn t")
    case (Some i)
    with ord OnTool have "ready_to_spawn ?st1 (spawn_node i)"
      by (auto simp: ready_to_spawn_def ready_to_start_iff live_frame)
    with Some f1 spawn_keeps show ?thesis by simp
  qed (use f1 in simp)
  show ?thesis unfolding OnTool effect.simps admit_tool_def Let_def split_beta
    using f2 write_keeps [OF f2 sw] by (auto split: if_splits)
next
  case (OnWritesReleased s n)
  show ?thesis unfolding OnWritesReleased effect.simps fst_conv
    by (rule race_free_mono [OF free]) (auto simp: live_frame unrelated_cong [of "release_claims n st" st])
next
  case (OnAgentFinished s n)
  show ?thesis unfolding OnAgentFinished effect.simps fst_conv
    by (rule race_free_mono [OF free]) (auto simp: live_frame unrelated_cong [of "finish_agent n st" st])
next
  case (OnNodeFinished s n)
  show ?thesis unfolding OnNodeFinished effect.simps fst_conv
    by (rule race_free_mono [OF free]) (auto simp: live_frame unrelated_cong [of "finish_node n st" st])
next
  case (OnGatePassed s n)
  show ?thesis unfolding OnGatePassed effect.simps fst_conv
    by (rule race_free_mono [OF free])
      (auto simp: pass_gate_def holds_claim_def is_live_def unrelated_def are_related_iff split: if_splits)
next
  case (OnRound s n)
  show ?thesis unfolding OnRound effect.simps fst_conv
    by (rule race_free_mono [OF free]) (auto simp: record_round_def holds_claim_def is_live_def unrelated_def are_related_iff)
qed (use free sw ord start_keeps spawn_keeps write_keeps in auto)

text \<open>
  C20. Single writer: over a whole session, whatever its spawns, writes, tool calls, gates,
  rounds and completions, two live nodes that no path relates never hold claims that conflict,
  provided no node is started while it is not live and holds claims, each child is spawned
  under one parent, and a graph is declared before the first claim.
\<close>

theorem live_claims_never_race:
  "single_writer (env_config env) \<Longrightarrow> orderly_run env (fresh_state env) evs \<Longrightarrow>
     race_free (env_glob env) (run_events env (fresh_state env) evs)"
proof -
  have "single_writer (env_config env) \<Longrightarrow> race_free (env_glob env) st \<Longrightarrow> orderly_run env st evs \<Longrightarrow>
      race_free (env_glob env) (run_events env st evs)" for st
    by (induction evs arbitrary: st) (auto simp: run_events_def effect_keeps)
  moreover have "race_free (env_glob env) (fresh_state env)"
    by (simp add: race_free_def holds_claim_def fresh_state_def set_budget_def new_state_def)
  ultimately show "single_writer (env_config env) \<Longrightarrow> orderly_run env (fresh_state env) evs \<Longrightarrow> ?thesis" by blast
qed

definition two_writers :: "live_event list" where
  "two_writers =
     [OnNodeStarted ''s'' ''a'', OnWriteIntent ''s'' (exclusive ''a'' [''src/x'']), OnNodeStarted ''s'' ''b'',
      OnWriteIntent ''s'' (exclusive ''b'' [''src/x'']), OnNodeFinished ''s'' ''a'',
      OnWriteIntent ''s'' (exclusive ''b'' [''src/x''])]"

theorem live_claims_never_race_witness:
  "race_free star_matcher (run_events example_env (fresh_state example_env) two_writers)"
proof -
  have "orderly_run example_env (fresh_state example_env) two_writers"
    by code_simp
  moreover have "single_writer (env_config example_env)" "env_glob example_env = star_matcher"
    by (simp_all add: example_env_def strict_config_def default_config_def)
  ultimately show ?thesis using live_claims_never_race [of example_env two_writers] by simp
qed

section \<open>What a restart does\<close>

text \<open>An agent that is reported finished keeps its claims. They no longer count, another node
  may take the same path, and starting the first node again brings them back.\<close>

definition restarted_agent :: "live_event list" where
  "restarted_agent =
     [OnNodeStarted ''s'' ''a'', OnWriteIntent ''s'' (exclusive ''a'' [''src/x'']), OnAgentFinished ''s'' ''a'',
      OnNodeStarted ''s'' ''b'', OnWriteIntent ''s'' (exclusive ''b'' [''src/x'']), OnNodeStarted ''s'' ''a'']"

definition verdicts :: "live_env \<Rightarrow> session_state \<Rightarrow> live_event list \<Rightarrow> verdict list" where
  "verdicts env st evs = map (\<lambda>k. snd (effect env (evs ! k) (run_events env st (take k evs)))) [0..<length evs]"

text \<open>
  A finished agent that is started again races: a run exists in which every call is
  allowed with the single-writer check on, and which ends with two live nodes, joined by no
  path, that both hold an exclusive claim on the same file.
\<close>

theorem restart_revives_claims:
  "list_all is_allowed (verdicts example_env (fresh_state example_env) restarted_agent) \<and>
   \<not> race_free star_matcher (run_events example_env (fresh_state example_env) restarted_agent)"
proof
  show "list_all is_allowed (verdicts example_env (fresh_state example_env) restarted_agent)" by code_simp
  let ?st = "run_events example_env (fresh_state example_env) restarted_agent"
  have "holds_claim ?st ''a'' (File ''src/x'')" "holds_claim ?st ''b'' (File ''src/x'')"
    "is_live ?st ''a''" "is_live ?st ''b''" "unrelated ?st ''a'' ''b''"
    "keys_conflict star_matcher (File ''src/x'') (File ''src/x'')" by code_simp+
  then show "\<not> race_free star_matcher ?st" unfolding race_free_def by metis
qed

end
