(* ===== verification/Live_Gates.thy ===== *)
theory Live_Gates imports Live_Writers begin

text \<open>
  What a declared graph brings into a session (\<^verbatim>\<open>live/state.rs\<close>) and the check of irreversible
  calls against the gates passed so far (\<^verbatim>\<open>live/gates.rs\<close>), read back as statements about the
  dependency chains of the graph.
\<close>

section \<open>Declaring a graph\<close>

context topology_laws
begin

lemma from_graph_Some_iff: "from_graph topo doms g \<noteq> None \<longleftrightarrow> well_formed g"
proof
  assume "from_graph topo doms g \<noteq> None"
  then obtain ix where "build topo g = Inr ix" by (auto simp: from_graph_def split: sum.splits)
  then show "well_formed g" by (rule build_Inr(1))
next
  assume "well_formed g"
  then obtain ix where "build topo g = Inr ix" using build_well_formed by blast
  then show "from_graph topo doms g \<noteq> None" by (simp add: from_graph_def dominating_gates_def Let_def)
qed

lemma from_graph_gates:
  assumes s: "from_graph topo doms g = Some s" and v: "v < length (nodes g)"
  shows "\<exists>gs. structure_gates s (node_id (nodes g ! v)) = Some gs \<and>
    set gs = {node_id (nodes g ! d) | d. gate_before g d v}"
proof -
  obtain dg where "dominating_gates topo doms g = Inr dg" "structure_gates s = dg"
    using s by (auto simp: from_graph_def Let_def split: sum.splits)
  with dominating_gates_lookup v show ?thesis by blast
qed

end

lemma from_graph_declared: "from_graph topo doms g = Some s \<Longrightarrow>
    declared_gates s = {node_id n | n. n \<in> set (nodes g) \<and> is_gate (node_role n)}"
  by (auto simp: from_graph_def Let_def gate_nodes_def split: sum.splits)

lemma step_declare:
  assumes "live_step env tr (DeclareGraph s g) v tr'"
  shows "tr' = declare_graph env s g tr \<and> v = Allowed"
  using assms by cases auto

text \<open>
  A graph is taken on exactly when it is valid: declaring one with a duplicate id, an unknown
  dependency or a cycle leaves the whole tracker alone, and declaring a valid one for a tracked
  session installs its structure, keeps the executed prefix (nodes, gates, agents, claims,
  rounds, observed parents) and makes its budget the one in force.
\<close>

theorem declaring_adopts_exactly_valid_graphs:
  assumes "topology_laws (env_sort env) (env_dominators env)"
    and "live_step env tr (DeclareGraph s g) v tr'" and "map_of tr s = Some st"
  shows "(\<not> well_formed g \<longrightarrow> tr' = tr) \<and>
    (well_formed g \<longrightarrow> (\<exists>folded. from_graph (env_sort env) (env_dominators env) g = Some folded \<and>
       map_of tr' s = Some (st\<lparr>session_structure := folded, graph_declared := True\<rparr>) \<and>
       structure_budget folded = graph_budget g))"
proof -
  note iff = topology_laws.from_graph_Some_iff [OF assms(1), of g]
  have tr': "tr' = declare_graph env s g tr" using step_declare [OF assms(2)] by simp
  show ?thesis
  proof (cases "from_graph (env_sort env) (env_dominators env) g")
    case None
    with iff show ?thesis unfolding tr' by (simp add: declare_graph_def)
  next
    case (Some folded)
    with iff from_graph_budget [OF Some] assms(3) show ?thesis unfolding tr'
      by (simp add: declare_graph_def adopt_structure_def update_conv')
  qed
qed

definition deploy_env :: live_env where
  "deploy_env = example_env\<lparr>env_config := default_config\<rparr>"

definition begun :: tracker where
  "begun = fst (begin_session deploy_env ''s'' [])"

lemma begun_lookup: "map_of begun ''s'' = Some (fresh_state deploy_env)"
  by (simp add: begun_def begin_session_lookup) (simp add: begin_session_def tracks_def MAX_TRACKED_SESSIONS_def)

lemma deploy_laws: "topology_laws (env_sort deploy_env) (env_dominators deploy_env)"
  using reference.topology_laws_axioms by (simp add: deploy_env_def example_env_def)

lemma deploy_built: "\<exists>ix. build kahn_positions deploy_graph = Inr ix"
proof -
  have "(case build kahn_positions deploy_graph of Inl _ \<Rightarrow> False | Inr _ \<Rightarrow> True)" by code_simp
  then show ?thesis by (auto split: sum.splits)
qed

lemma deploy_valid: "well_formed deploy_graph"
  using deploy_built kahn.build_Inr(1) by blast

theorem declaring_adopts_exactly_valid_graphs_witness:
  "\<exists>folded. map_of (declare_graph deploy_env ''s'' deploy_graph begun) ''s'' =
     Some ((fresh_state deploy_env)\<lparr>session_structure := folded, graph_declared := True\<rparr>)"
  using declaring_adopts_exactly_valid_graphs [OF deploy_laws live_step.intros(3) begun_lookup, of deploy_graph]
    deploy_valid by blast

section \<open>Relatedness\<close>

text \<open>
  Two nodes of the declared graph count as related exactly when a dependency path leads from
  one to the other, in either direction, or they are the same node; for a session with no
  declared graph, exactly when one is an ancestor of the other in the observed spawns. The
  bounded walk over the observed parents misses no ancestor.
\<close>

theorem relatedness_is_reachability:
  assumes "petgraph_toposort topo" and "from_graph topo doms g = Some folded"
    and "i < length (nodes g)" and "j < length (nodes g)"
  shows "(are_related (adopt_structure folded new_state) (node_id (nodes g ! i)) (node_id (nodes g ! j)) \<longleftrightarrow>
      i = j \<or> (i, j) \<in> (dep_rel g)\<^sup>+ \<or> (j, i) \<in> (dep_rel g)\<^sup>+) \<and>
    (are_related (new_state\<lparr>observed_parent := ps\<rparr>) a b \<longleftrightarrow>
      a = b \<or> (a, b) \<in> (parent_rel ps)\<^sup>+ \<or> (b, a) \<in> (parent_rel ps)\<^sup>+)"
proof
  obtain ix where "build topo g = Inr ix" using assms(2) by (auto simp: from_graph_def split: sum.splits)
  then have wf: "well_formed g" using petgraph_toposort.build_Inr(1) [OF assms(1)] by blast
  have inj: "a = b" if "node_id (nodes g ! a) = node_id (nodes g ! b)" "a < length (nodes g)" "b < length (nodes g)" for a b
    using that wf by (auto simp: well_formed_def unique_ids_def distinct_conv_nth)
  have sub: "a < length (nodes g) \<and> b < length (nodes g)" if "(a, b) \<in> (dep_rel g)\<^sup>+" for a b
    using that by induction (auto simp: dep_rel_def)
  have "(node_id (nodes g ! i), node_id (nodes g ! j)) \<in> relation_of (related folded) \<longleftrightarrow>
      (i, j) \<in> (dep_rel g)\<^sup>+ \<or> (j, i) \<in> (dep_rel g)\<^sup>+"
    unfolding relation_of_from_graph [OF assms(1,2)] using inj sub assms(3,4) by blast
  moreover have "(parent_rel [])\<^sup>+ = {}" by (simp add: parent_rel_def)
  ultimately show "are_related (adopt_structure folded new_state) (node_id (nodes g ! i)) (node_id (nodes g ! j)) \<longleftrightarrow>
      i = j \<or> (i, j) \<in> (dep_rel g)\<^sup>+ \<or> (j, i) \<in> (dep_rel g)\<^sup>+"
    using inj assms(3,4) by (auto simp: are_related_iff adopt_structure_def new_state_def)
  show "are_related (new_state\<lparr>observed_parent := ps\<rparr>) a b \<longleftrightarrow>
      a = b \<or> (a, b) \<in> (parent_rel ps)\<^sup>+ \<or> (b, a) \<in> (parent_rel ps)\<^sup>+"
    by (simp add: are_related_iff new_state_def default_structure_def relation_of_def)
qed

theorem relatedness_is_reachability_witness:
  "\<exists>folded. from_graph kahn_positions dominators_by_deletion deploy_graph = Some folded \<and>
     are_related (adopt_structure folded new_state) (node_id (nodes deploy_graph ! 2)) (node_id (nodes deploy_graph ! 0))"
proof -
  obtain folded where f: "from_graph kahn_positions dominators_by_deletion deploy_graph = Some folded"
    using reference.from_graph_Some_iff deploy_valid by auto
  have len: "length (nodes deploy_graph) = 4" by code_simp
  have "depends_on (nodes deploy_graph ! 1) = [node_id (nodes deploy_graph ! 0)]"
    "depends_on (nodes deploy_graph ! 2) = [node_id (nodes deploy_graph ! 1)]" by code_simp+
  then have "(0, 1) \<in> dep_rel deploy_graph" "(1, 2) \<in> dep_rel deploy_graph" by (simp_all add: dep_rel_def len)
  then have "(0, 2) \<in> (dep_rel deploy_graph)\<^sup>+" by (meson trancl.r_into_trancl trancl.trancl_into_trancl)
  with relatedness_is_reachability [OF kahn.petgraph_toposort_axioms f, of 2 0] len f show ?thesis by auto
qed

section \<open>Irreversible calls\<close>

text \<open>
  C23. An irreversible call by a node of the declared graph is admitted exactly when one of the
  gates that stand on every dependency chain to the node has been passed in this session, or
  when enforcement is off, or it is left to graphs that declare gates and this one declares
  none. In particular the mere presence of a gate never admits one.
\<close>

theorem irreversible_waits_for_its_gate:
  assumes laws: "topology_laws (env_sort env) (env_dominators env)"
    and "reachable env tr" and "snapshot s tr = Some st"
    and folded: "from_graph (env_sort env) (env_dominators env) g = Some (session_structure st)"
    and v: "v < length (nodes g)" and "tool_node i = node_id (nodes g ! v)" and "tool_permission i = PIrreversible"
  shows "admit_irreversible cfg i st = Allowed \<longleftrightarrow>
    irreversible_enforcement cfg = EnforceOff \<or>
    (irreversible_enforcement cfg = WhereDeclared \<and> (\<nexists>n. n \<in> set (nodes g) \<and> is_gate (node_role n))) \<or>
    (\<exists>d. gate_before g d v \<and> node_id (nodes g ! d) \<in> passed_gates st)"
proof -
  have "finite (passed_gates st)"
    using tidy.reachable_holds [OF assms(2)] assms(3) by (auto simp: snapshot_def tidy_state_def)
  then have passed: "set (gates_passed st) = passed_gates st" by (simp add: gates_passed_def)
  obtain gs where gs: "structure_gates (session_structure st) (tool_node i) = Some gs"
    "set gs = {node_id (nodes g ! d) | d. gate_before g d v}"
    using topology_laws.from_graph_gates [OF laws folded v] assms(6) by auto
  have "declares_gates (session_structure st) \<longleftrightarrow> (\<exists>n. n \<in> set (nodes g) \<and> is_gate (node_role n))"
    using from_graph_declared [OF folded] by (auto simp: declares_gates_def)
  moreover have "list_ex (\<lambda>gate. gate \<in> set (gates_passed st)) gs \<longleftrightarrow>
      (\<exists>d. gate_before g d v \<and> node_id (nodes g ! d) \<in> passed_gates st)"
  proof -
    have "list_ex (\<lambda>gate. gate \<in> set (gates_passed st)) gs \<longleftrightarrow> (\<exists>x. x \<in> set gs \<and> x \<in> passed_gates st)"
      by (auto simp: list_ex_iff passed)
    also have "\<dots> \<longleftrightarrow> (\<exists>d. gate_before g d v \<and> node_id (nodes g ! d) \<in> passed_gates st)"
      unfolding gs(2) mem_Collect_eq by metis
    finally show ?thesis .
  qed
  moreover have "gate_blocked i gs p \<noteq> Allowed" for gs p by (simp add: gate_blocked_def Let_def)
  ultimately show ?thesis using assms(7) gs(1)
    by (auto simp: admit_irreversible_def Let_def knows_def structure_dominating_gates_def)
qed

theorem irreversible_waits_for_its_gate_witness:
  "\<exists>tr st. reachable deploy_env tr \<and> snapshot ''s'' tr = Some st \<and>
     admit_irreversible default_config push_intent st \<noteq> Allowed"
proof -
  let ?tr = "declare_graph deploy_env ''s'' deploy_graph begun"
  have reach: "reachable deploy_env ?tr"
    unfolding reachable_def begun_def
    using run_snoc [OF run_snoc [OF run_nil live_step.intros(1)] live_step.intros(3)] by blast
  obtain folded where f: "from_graph (env_sort deploy_env) (env_dominators deploy_env) deploy_graph = Some folded"
    using topology_laws.from_graph_Some_iff [OF deploy_laws, of deploy_graph] deploy_valid by auto
  let ?st = "adopt_structure folded (fresh_state deploy_env)"
  have st: "snapshot ''s'' ?tr = Some ?st"
    using f begun_lookup by (simp add: snapshot_def declare_graph_def update_conv')
  have len: "length (nodes deploy_graph) = 4" by code_simp
  have "node_id (nodes deploy_graph ! 2) = ''push''" by code_simp
  moreover have "\<exists>n. n \<in> set (nodes deploy_graph) \<and> is_gate (node_role n)"
  proof -
    have "list_ex (\<lambda>n. is_gate (node_role n)) (nodes deploy_graph)" by code_simp
    then show ?thesis by (auto simp: list_ex_iff)
  qed
  moreover have "passed_gates ?st = {}"
    by (simp add: adopt_structure_def fresh_state_def set_budget_def new_state_def)
  ultimately have "admit_irreversible default_config push_intent ?st \<noteq> Allowed"
    using irreversible_waits_for_its_gate [OF deploy_laws reach st, of deploy_graph 2 push_intent default_config] f len
    by (simp add: adopt_structure_def push_intent_def new_tool_intent_def default_config_def)
  with reach st show ?thesis by blast
qed

end
