(* ===== verification/Topo_Edges.thy ===== *)
theory Topo_Edges imports Topo_Conflicts begin

text \<open>
  \<^verbatim>\<open>crates/archon-topology/src/analysis/edge_support.rs\<close>: what supports each declared dependency,
  from what its two ends declare they produce and consume, with the remedy texts. The lemmas
  say which edges are classified and what each of the three answers means.
\<close>

datatype edge_cause =
    UnderDeclaredProducer nat nat
  | Undetermined

datatype edge_support =
    Dataflow
  | OrderingOnly
  | Unsupported edge_cause

definition is_defect :: "edge_support \<Rightarrow> bool" where
  "is_defect s = (case s of Unsupported _ \<Rightarrow> True | _ \<Rightarrow> False)"

definition edge_support_id :: "edge_support \<Rightarrow> string" where
  "edge_support_id s =
     (case s of Dataflow \<Rightarrow> ''dataflow'' | OrderingOnly \<Rightarrow> ''ordering_only'' | Unsupported _ \<Rightarrow> ''unsupported'')"

record classified_edge =
  edge_dependent :: string
  edge_dependency :: string
  edge_supported_by :: edge_support
  edge_produced :: "write_target list"
  edge_consumed :: "write_target list"

definition edge_is_defect :: "classified_edge \<Rightarrow> bool" where
  "edge_is_defect e = is_defect (edge_supported_by e)"

definition headline :: "classified_edge \<Rightarrow> string" where
  "headline e =
     (case edge_supported_by e of
        Dataflow \<Rightarrow> ''declared dataflow''
      | OrderingOnly \<Rightarrow> ''code ordering, no dataflow''
      | Unsupported _ \<Rightarrow> ''produces artifacts the dependent does not consume'')"

definition unsupported_remedy :: "classified_edge \<Rightarrow> edge_cause \<Rightarrow> string" where
  "unsupported_remedy e cause =
     (let dependent = edge_dependent e; dependency = edge_dependency e;
          both = dependent @ '' declares it must wait for '' @ dependency
            @ '', which is contracted to produce artifacts '' @ dependent
            @ '' names none of. Exactly two things cause that: the edge is unnecessary, or '' @ dependency
            @ '' under-declares '' @ em_dash @ '' it writes something '' @ dependent
            @ '' reads and no contract says so.''
      in case cause of
           UnderDeclaredProducer dependents artifacts \<Rightarrow>
             both @ '' The graph favours the second: nothing anywhere consumes any of the ''
             @ show_nat artifacts @ '' artifact(s) '' @ dependency @ '' is contracted to produce, yet ''
             @ show_nat dependents @ '' task(s) declare they must wait for it. Declare what '' @ dependency
             @ '' actually writes before considering dropping the edge; dropping it while the write is real would let the two race.''
         | Undetermined \<Rightarrow>
             both @ '' Settle it from what '' @ dependency @ '' writes: if it writes something '' @ dependent
             @ '' reads, add that to '' @ dependency @ [CHR 0x27] @ ''s declared outputs; if it does not, drop ''
             @ quoted dependency @ '' from '' @ dependent @ [CHR 0x27]
             @ ''s depends_on so the two can run concurrently.'')"

definition edge_remedy :: "classified_edge \<Rightarrow> string" where
  "edge_remedy e =
     (let dependent = edge_dependent e; dependency = edge_dependency e
      in case edge_supported_by e of
           Dataflow \<Rightarrow> dependent @ '' consumes what '' @ dependency @ '' produces; nothing to change''
         | OrderingOnly \<Rightarrow>
             dependency @ '' is contracted to produce no artifact and declares only source files, while ''
             @ dependent @ '' consumes artifacts: this edge orders code, not data. Nothing flows across it and nothing should ''
             @ em_dash @ '' leave it alone.''
         | Unsupported cause \<Rightarrow> unsupported_remedy e cause)"

definition is_artifact :: "write_target \<Rightarrow> bool" where
  "is_artifact t = (case t of ArtifactTarget _ \<Rightarrow> True | PathTarget _ \<Rightarrow> False)"

primrec target_value :: "write_target \<Rightarrow> string" where
  "target_value (PathTarget v) = v"
| "target_value (ArtifactTarget v) = v"

definition consumes_from :: "task_node \<Rightarrow> string \<Rightarrow> bool" where
  "consumes_from n producer_id \<longleftrightarrow> list_ex (\<lambda>r. producer r = producer_id) (consumes n)"

definition reads_any_of :: "task_node \<Rightarrow> write_target list \<Rightarrow> bool" where
  "reads_any_of n ts \<longleftrightarrow> list_ex (\<lambda>t. t \<in> set (node_reads n)) ts"

definition is_ordering_only :: "task_node \<Rightarrow> task_node \<Rightarrow> bool" where
  "is_ordering_only dependent dependency \<longleftrightarrow>
     (if list_ex is_artifact (node_writes dependency) then False
      else if node_reads dependent = [] \<or> \<not> list_all is_artifact (node_reads dependent) then False
      else \<not> list_ex (\<lambda>t. target_value t \<in> target_value ` set (node_reads dependent)) (node_writes dependency))"

definition likely_cause :: "task_graph \<Rightarrow> task_node \<Rightarrow> edge_cause" where
  "likely_cause g dependency =
     (let artifacts = length (filter is_artifact (node_writes dependency))
      in if artifacts = 0 then Undetermined
         else if list_ex (\<lambda>n. node_id n \<noteq> node_id dependency \<and>
                   (consumes_from n (node_id dependency) \<or> reads_any_of n (node_writes dependency))) (nodes g)
         then Undetermined
         else UnderDeclaredProducer
                (length (filter (\<lambda>n. node_id dependency \<in> set (depends_on n)) (nodes g))) artifacts)"

definition support_for :: "task_graph \<Rightarrow> task_node \<Rightarrow> task_node \<Rightarrow> edge_support" where
  "support_for g dependent dependency =
     (if consumes_from dependent (node_id dependency) \<or> reads_any_of dependent (node_writes dependency)
      then Dataflow
      else if is_ordering_only dependent dependency then OrderingOnly
      else Unsupported (likely_cause g dependency))"

definition classify_edge :: "task_graph \<Rightarrow> task_node \<Rightarrow> string \<Rightarrow> classified_edge option" where
  "classify_edge g dependent dependency_id =
     (case graph_node g dependency_id of
        None \<Rightarrow> None
      | Some dependency \<Rightarrow>
          if \<not> writes_are_known dependency then None
          else Some \<lparr>edge_dependent = node_id dependent, edge_dependency = node_id dependency,
                     edge_supported_by = support_for g dependent dependency,
                     edge_produced = btree_list (node_writes dependency),
                     edge_consumed = btree_list (node_reads dependent)\<rparr>)"

definition classify_edges :: "toposort \<Rightarrow> task_graph \<Rightarrow> topology_error + classified_edge list" where
  "classify_edges topo g =
     map_sum id
       (\<lambda>_. concat (map (\<lambda>dependent.
                if \<not> consumption_is_known dependent then []
                else List.map_filter (classify_edge g dependent) (depends_on dependent))
              (nodes g)))
       (build topo g)"

definition unsupported_edges :: "toposort \<Rightarrow> task_graph \<Rightarrow> topology_error + classified_edge list" where
  "unsupported_edges topo g = map_sum id (filter edge_is_defect) (classify_edges topo g)"

section \<open>What the classification says\<close>

text \<open>Data flows across the edge as declared.\<close>

definition flows :: "task_node \<Rightarrow> task_node \<Rightarrow> bool" where
  "flows dependent dependency \<longleftrightarrow> node_id dependency \<in> producer ` set (consumes dependent) \<or>
     set (node_writes dependency) \<inter> set (node_reads dependent) \<noteq> {}"

text \<open>The two ends name different kinds of resources and no name twice.\<close>

definition speaks_apart :: "task_node \<Rightarrow> task_node \<Rightarrow> bool" where
  "speaks_apart dependent dependency \<longleftrightarrow> node_reads dependent \<noteq> [] \<and>
     set (node_writes dependency) \<subseteq> range PathTarget \<and> set (node_reads dependent) \<subseteq> range ArtifactTarget \<and>
     target_value ` set (node_writes dependency) \<inter> target_value ` set (node_reads dependent) = {}"

lemma flows_iff: "flows d p \<longleftrightarrow> consumes_from d (node_id p) \<or> reads_any_of d (node_writes p)"
  unfolding flows_def consumes_from_def reads_any_of_def list_ex_iff image_iff by (metis disjoint_iff)

lemma is_artifact_iff: "is_artifact t \<longleftrightarrow> t \<in> range ArtifactTarget"
  by (cases t) (auto simp: is_artifact_def)

lemma not_artifact_iff: "\<not> is_artifact t \<longleftrightarrow> t \<in> range PathTarget"
  by (cases t) (auto simp: is_artifact_def)

lemma is_ordering_only_iff: "is_ordering_only d p \<longleftrightarrow> speaks_apart d p"
proof -
  have "\<not> list_ex is_artifact (node_writes p) \<longleftrightarrow> set (node_writes p) \<subseteq> range PathTarget"
    using not_artifact_iff by (auto simp: list_ex_iff)
  moreover have "list_all is_artifact (node_reads d) \<longleftrightarrow> set (node_reads d) \<subseteq> range ArtifactTarget"
    using is_artifact_iff by (auto simp: list_all_iff)
  moreover have "\<not> list_ex (\<lambda>t. target_value t \<in> target_value ` set (node_reads d)) (node_writes p) \<longleftrightarrow>
      target_value ` set (node_writes p) \<inter> target_value ` set (node_reads d) = {}"
    by (auto simp: list_ex_iff)
  ultimately show ?thesis by (auto simp: is_ordering_only_def speaks_apart_def)
qed

lemma graph_node_unique:
  assumes "unique_ids g" and "n \<in> set (nodes g)"
  shows "graph_node g (node_id n) = Some n"
proof -
  have inj: "inj_on node_id (set (nodes g))" using assms(1) by (simp add: unique_ids_def distinct_map)
  obtain m where m: "graph_node g (node_id n) = Some m"
    using find_exists [OF assms(2), of "\<lambda>x. node_id x = node_id n"] by (auto simp: graph_node_def)
  then have "m \<in> set (nodes g)" "node_id m = node_id n" by (auto simp: graph_node_def dest: find_Some_iff_set)
  with inj assms(2) m show ?thesis by (auto dest: inj_onD)
qed

lemma graph_node_Some: "graph_node g i = Some n \<Longrightarrow> n \<in> set (nodes g) \<and> node_id n = i"
  by (auto simp: graph_node_def dest: find_Some_iff_set)

definition classified_as :: "task_graph \<Rightarrow> task_node \<Rightarrow> task_node \<Rightarrow> classified_edge" where
  "classified_as g d p = \<lparr>edge_dependent = node_id d, edge_dependency = node_id p,
     edge_supported_by = support_for g d p, edge_produced = btree_list (node_writes p),
     edge_consumed = btree_list (node_reads d)\<rparr>"

lemma classified_edges:
  assumes "unique_ids g" and "classify_edges topo g = Inr es"
  shows "set es = {classified_as g d p | d p. d \<in> set (nodes g) \<and> p \<in> set (nodes g) \<and>
    node_id p \<in> set (depends_on d) \<and> consumption_is_known d \<and> writes_are_known p}" (is "_ = ?R")
proof -
  have es: "set es = (\<Union>d\<in>{d \<in> set (nodes g). consumption_is_known d}.
      set (List.map_filter (classify_edge g d) (depends_on d)))"
    using assms(2) by (auto simp: classify_edges_def map_sum_def split: sum.splits if_splits)
  have one: "classify_edge g d i = Some e \<longleftrightarrow> (\<exists>p\<in>set (nodes g). node_id p = i \<and> writes_are_known p \<and> e = classified_as g d p)"
    for d i e
  proof (cases "graph_node g i")
    case None
    then have "\<nexists>p. p \<in> set (nodes g) \<and> node_id p = i" using graph_node_unique [OF assms(1)] by force
    with None show ?thesis by (auto simp: classify_edge_def)
  next
    case (Some p)
    have "q = p" if "q \<in> set (nodes g)" "node_id q = i" for q
      using graph_node_unique [OF assms(1) that(1)] that(2) Some by simp
    with Some graph_node_Some [OF Some] show ?thesis by (auto simp: classify_edge_def classified_as_def)
  qed
  show ?thesis unfolding es by (auto simp: map_filter_set one)
qed

lemma support_flows: "support_for g d p = Dataflow \<longleftrightarrow> flows d p"
  by (auto simp: support_for_def flows_iff)

lemma support_apart: "support_for g d p = OrderingOnly \<longleftrightarrow> \<not> flows d p \<and> speaks_apart d p"
  by (auto simp: support_for_def flows_iff is_ordering_only_iff)

lemma support_blames: "support_for g d p = Unsupported (UnderDeclaredProducer k a) \<longleftrightarrow>
    \<not> flows d p \<and> \<not> speaks_apart d p \<and> a = length (filter is_artifact (node_writes p)) \<and> 0 < a \<and>
    (\<nexists>n. n \<in> set (nodes g) \<and> node_id n \<noteq> node_id p \<and> flows n p) \<and>
    k = length (filter (\<lambda>n. node_id p \<in> set (depends_on n)) (nodes g))"
  by (auto simp: support_for_def flows_iff is_ordering_only_iff likely_cause_def Let_def list_ex_iff)

text \<open>
  The classification of dependencies is exact. An edge of a valid graph is classified
  exactly when its dependency declares what it writes and its dependent what it consumes. It is
  called dataflow iff the dependent consumes from the dependency by name or reads a target it
  writes; ordering only iff nothing flows, the dependency writes only paths, the dependent
  reads only artifacts and no name occurs on both sides; and it is a finding otherwise. A
  finding blames the producer iff it writes artifacts and no other node of the graph consumes
  anything of it, and it then counts at least the one dependent.
\<close>

theorem edge_classification_is_exact:
  assumes "petgraph_toposort topo" and "classify_edges topo g = Inr es"
  shows "set es = {classified_as g d p | d p. d \<in> set (nodes g) \<and> p \<in> set (nodes g) \<and>
      node_id p \<in> set (depends_on d) \<and> consumption_is_known d \<and> writes_are_known p} \<and>
    (\<forall>d p. (support_for g d p = Dataflow \<longleftrightarrow> flows d p) \<and>
      (support_for g d p = OrderingOnly \<longleftrightarrow> \<not> flows d p \<and> speaks_apart d p) \<and>
      (\<forall>k a. support_for g d p = Unsupported (UnderDeclaredProducer k a) \<longleftrightarrow>
         \<not> flows d p \<and> \<not> speaks_apart d p \<and> a = length (filter is_artifact (node_writes p)) \<and> 0 < a \<and>
         (\<nexists>n. n \<in> set (nodes g) \<and> node_id n \<noteq> node_id p \<and> flows n p) \<and>
         k = length (filter (\<lambda>n. node_id p \<in> set (depends_on n)) (nodes g)))) \<and>
    (\<forall>e\<in>set es. \<forall>a. edge_supported_by e \<noteq> Unsupported (UnderDeclaredProducer 0 a))"
proof -
  obtain ix where "build topo g = Inr ix"
    using assms(2) by (auto simp: classify_edges_def map_sum_def split: sum.splits)
  then have "unique_ids g" using petgraph_toposort.build_Inr(1) [OF assms(1)] by (auto simp: well_formed_def)
  note es = classified_edges [OF this assms(2)]
  have counts: "0 < length (filter (\<lambda>n. node_id p \<in> set (depends_on n)) (nodes g))"
    if "d \<in> set (nodes g)" "node_id p \<in> set (depends_on d)" for d p
    using that by (auto simp: filter_empty_conv)
  have "\<forall>e\<in>set es. \<forall>a. edge_supported_by e \<noteq> Unsupported (UnderDeclaredProducer 0 a)"
  proof (intro ballI allI notI)
    fix e a
    assume "e \<in> set es" and bad: "edge_supported_by e = Unsupported (UnderDeclaredProducer 0 a)"
    then obtain d p where dp: "e = classified_as g d p" "d \<in> set (nodes g)" "node_id p \<in> set (depends_on d)"
      unfolding es by blast
    with bad have "support_for g d p = Unsupported (UnderDeclaredProducer 0 a)" by (simp add: classified_as_def)
    with counts [OF dp(2,3)] show False unfolding support_blames by simp
  qed
  then show ?thesis by (intro conjI allI es support_flows support_apart support_blames)
qed

definition registry_graph :: task_graph where
  "registry_graph = (new_graph ''g'' (TeamOrigin ''t''))\<lparr>nodes :=
     [(new_node ''ingest'' WorkNode)\<lparr>node_writes := [ArtifactTarget ''raw.json'']\<rparr>,
      (new_node ''report'' WorkNode)\<lparr>depends_on := [''ingest''], node_reads := [ArtifactTarget ''index.json'']\<rparr>]\<rparr>"

theorem edge_classification_is_exact_witness:
  "\<exists>es. classify_edges kahn_positions registry_graph = Inr es \<and>
     map edge_supported_by es = [Unsupported (UnderDeclaredProducer 1 1)] \<and>
     \<not> flows (nodes registry_graph ! 1) (nodes registry_graph ! 0)"
proof -
  have e: "(case classify_edges kahn_positions registry_graph of Inl _ \<Rightarrow> False
      | Inr es \<Rightarrow> map edge_supported_by es = [Unsupported (UnderDeclaredProducer 1 1)])" by code_simp
  then obtain es where es: "classify_edges kahn_positions registry_graph = Inr es"
    "map edge_supported_by es = [Unsupported (UnderDeclaredProducer 1 1)]" by (auto split: sum.splits)
  have "support_for registry_graph (nodes registry_graph ! 1) (nodes registry_graph ! 0) =
      Unsupported (UnderDeclaredProducer 1 1)" by code_simp
  moreover have "support_for registry_graph d p = Dataflow \<longleftrightarrow> flows d p" for d p
    by (rule edge_classification_is_exact [OF kahn.petgraph_toposort_axioms es(1), THEN conjunct2,
        THEN conjunct1, THEN spec, THEN spec, THEN conjunct1])
  ultimately have "\<not> flows (nodes registry_graph ! 1) (nodes registry_graph ! 0)" by (metis edge_support.distinct(3))
  with es show ?thesis by (intro exI [of _ es] conjI)
qed

end
