(* ===== verification/Topo_Fusion.thy ===== *)
theory Topo_Fusion imports Topo_Edges begin

text \<open>
  \<^verbatim>\<open>crates/archon-topology/src/analysis/fusion.rs\<close>: pairs of unordered nodes of which one reads
  what the other writes, and degenerate chains that pass no data. The lemmas say that the
  pairs are exactly the races the declarations show and that the fan-out named for a pair is
  a nearest one.
\<close>

text \<open>\<^verbatim>\<open>Iterator::max_by_key\<close>: the last of the elements with the greatest key.\<close>

definition max_by_key :: "('a \<Rightarrow> nat) \<Rightarrow> 'a list \<Rightarrow> 'a option" where
  "max_by_key key xs =
     foldl (\<lambda>best x. case best of None \<Rightarrow> Some x | Some b \<Rightarrow> if key b \<le> key x then Some x else Some b) None xs"

lemma max_by_key_snoc:
  "max_by_key key (xs @ [x]) =
     (case max_by_key key xs of None \<Rightarrow> Some x | Some b \<Rightarrow> if key b \<le> key x then Some x else Some b)"
  by (simp add: max_by_key_def)

lemma max_by_key_None [simp]: "max_by_key key xs = None \<longleftrightarrow> xs = []"
  by (induction xs rule: rev_induct) (auto simp: max_by_key_snoc max_by_key_def [of key "[]"] split: option.splits)

lemma max_by_key_Some: "max_by_key key xs = Some b \<Longrightarrow> b \<in> set xs \<and> (\<forall>x\<in>set xs. key x \<le> key b)"
proof (induction xs arbitrary: b rule: rev_induct)
  case (snoc x xs)
  then show ?case by (auto simp: max_by_key_snoc split: option.splits if_splits)
qed (simp add: max_by_key_def)

section \<open>Findings\<close>

record coupled_pair =
  pair_reader :: string
  pair_writer :: string
  pair_targets :: "write_target list"
  pair_fanout :: "string option"

definition coupled_remedy :: "coupled_pair \<Rightarrow> string" where
  "coupled_remedy p =
     (let reader = pair_reader p; writer = pair_writer p
      in case pair_fanout p of
           Some fanout \<Rightarrow>
             quoted reader @ '' reads what sibling branch '' @ quoted writer @ '' writes, so fan-out ''
             @ quoted fanout @ '' is not parallel work: split the shared target out of the fan-out, or order the two branches explicitly''
         | None \<Rightarrow>
             ''add a dependency from '' @ quoted reader @ '' onto '' @ quoted writer @ '', or stop ''
             @ quoted reader @ '' reading what '' @ quoted writer @ '' writes '' @ em_dash
             @ '' nothing currently orders them'')"

datatype fusion_kind = Fuse | Parallelise

record fusible_chain =
  upstream :: string
  downstream :: string
  chain_kind :: fusion_kind

definition fusible_remedy :: "fusible_chain \<Rightarrow> string" where
  "fusible_remedy c =
     (case chain_kind c of
        Fuse \<Rightarrow>
          quoted (upstream c) @ '' and '' @ quoted (downstream c)
          @ '' have the same role and agent and pass no data between them: merge them into one stage''
      | Parallelise \<Rightarrow>
          quoted (downstream c) @ '' consumes nothing '' @ quoted (upstream c)
          @ '' produces and neither has other neighbours: drop the edge so they run in the same wave'')"

record fusion_report =
  coupled :: "coupled_pair list"
  fusible :: "fusible_chain list"

definition fusion_is_clean :: "fusion_report \<Rightarrow> bool" where
  "fusion_is_clean r \<longleftrightarrow> coupled r = [] \<and> fusible r = []"

section \<open>The analysis\<close>

definition common_fanouts :: "task_graph \<Rightarrow> bool list list \<Rightarrow> nat \<Rightarrow> nat \<Rightarrow> nat list" where
  "common_fanouts g reachable left right =
     map fst (filter (\<lambda>(p, n). node_fanout n \<noteq> None \<and> reachable ! p ! left \<and> reachable ! p ! right)
       (enumerate 0 (nodes g)))"

definition nearest_common_fanout :: "task_graph \<Rightarrow> bool list list \<Rightarrow> nat \<Rightarrow> nat \<Rightarrow> string option" where
  "nearest_common_fanout g reachable left right =
     (let candidates = common_fanouts g reachable left right
      in map_option (\<lambda>p. node_id (nodes g ! p))
           (max_by_key (\<lambda>c. length (filter (\<lambda>other. other \<noteq> c \<and> reachable ! other ! c) candidates)) candidates))"

definition couple :: "task_graph \<Rightarrow> bool list list \<Rightarrow> nat \<times> task_node \<Rightarrow> nat \<times> task_node \<Rightarrow> coupled_pair option" where
  "couple g reachable = (\<lambda>(r, reader_node) (w, writer_node).
     if w = r \<or> \<not> writes_are_known writer_node then None
     else if reachable ! r ! w \<or> reachable ! w ! r then None
     else
       let shared = btree_list (filter (\<lambda>t. t \<in> set (node_reads reader_node)) (node_writes writer_node))
       in if shared = [] then None
          else Some \<lparr>pair_reader = node_id reader_node, pair_writer = node_id writer_node,
                     pair_targets = shared, pair_fanout = nearest_common_fanout g reachable r w\<rparr>)"

definition dependents_count :: "graph_index \<Rightarrow> string \<Rightarrow> nat" where
  "dependents_count ix i =
     (case idx_by_id ix i of None \<Rightarrow> 0 | Some p \<Rightarrow> length (successors ix p))"

definition fusible_pair :: "task_graph \<Rightarrow> graph_index \<Rightarrow> task_node \<Rightarrow> fusible_chain option" where
  "fusible_pair g ix down =
     (case depends_on down of
        [upstream_id] \<Rightarrow>
          (case graph_node g upstream_id of
             None \<Rightarrow> None
           | Some up \<Rightarrow>
               if dependents_count ix (node_id up) \<noteq> 1 then None
               else if \<not> writes_are_known up \<or> \<not> consumption_is_known down then None
               else if list_ex (\<lambda>r. producer r = node_id up) (consumes down) then None
               else if list_ex (\<lambda>t. t \<in> set (node_reads down)) (node_writes up) then None
               else Some \<lparr>upstream = node_id up, downstream = node_id down,
                          chain_kind = (if node_role up = node_role down \<and> node_agent up = node_agent down
                                        then Fuse else Parallelise)\<rparr>)
      | _ \<Rightarrow> None)"

definition fusible_chains :: "task_graph \<Rightarrow> graph_index \<Rightarrow> fusible_chain list" where
  "fusible_chains g ix = List.map_filter (fusible_pair g ix) (nodes g)"

definition coupled_pairs :: "task_graph \<Rightarrow> bool list list \<Rightarrow> coupled_pair list" where
  "coupled_pairs g reachable =
     concat (map (\<lambda>(r, reader_node).
         if \<not> reads_are_known reader_node then []
         else List.map_filter (couple g reachable (r, reader_node)) (enumerate 0 (nodes g)))
       (enumerate 0 (nodes g)))"

definition stop_rule_fusion :: "toposort \<Rightarrow> task_graph \<Rightarrow> topology_error + fusion_report" where
  "stop_rule_fusion topo g =
     map_sum id
       (\<lambda>ix. let reachable = descendants ix g
             in \<lparr>coupled = coupled_pairs g reachable, fusible = fusible_chains g ix\<rparr>)
       (build topo g)"

section \<open>Races\<close>

definition reads_of_writes :: "task_node \<Rightarrow> task_node \<Rightarrow> write_target set" where
  "reads_of_writes rn wn = set (node_writes wn) \<inter> set (node_reads rn)"

definition races :: "task_graph \<Rightarrow> nat \<Rightarrow> nat \<Rightarrow> bool" where
  "races g r w \<longleftrightarrow> r < length (nodes g) \<and> w < length (nodes g) \<and> r \<noteq> w \<and>
     (r, w) \<notin> (dep_rel g)\<^sup>+ \<and> (w, r) \<notin> (dep_rel g)\<^sup>+ \<and>
     reads_of_writes (nodes g ! r) (nodes g ! w) \<noteq> {}"

definition spans_both :: "task_graph \<Rightarrow> nat \<Rightarrow> nat \<Rightarrow> nat \<Rightarrow> bool" where
  "spans_both g f a b \<longleftrightarrow> f < length (nodes g) \<and> node_fanout (nodes g ! f) \<noteq> None \<and>
     (f, a) \<in> (dep_rel g)\<^sup>+ \<and> (f, b) \<in> (dep_rel g)\<^sup>+"

text \<open>A nearest fan-out over both: no other fan-out over both lies below it.\<close>

definition nearest_fanout :: "task_graph \<Rightarrow> nat \<Rightarrow> nat \<Rightarrow> nat \<Rightarrow> bool" where
  "nearest_fanout g f a b \<longleftrightarrow> spans_both g f a b \<and> (\<nexists>h. spans_both g h a b \<and> (f, h) \<in> (dep_rel g)\<^sup>+)"

lemma couple_Some:
  "couple g m (r, rn) (w, wn) = Some p \<longleftrightarrow> w \<noteq> r \<and> \<not> m ! r ! w \<and> \<not> m ! w ! r \<and> reads_of_writes rn wn \<noteq> {} \<and>
     p = \<lparr>pair_reader = node_id rn, pair_writer = node_id wn,
          pair_targets = btree_list (filter (\<lambda>t. t \<in> set (node_reads rn)) (node_writes wn)),
          pair_fanout = nearest_common_fanout g m r w\<rparr>"
  by (auto simp: couple_def Let_def reads_of_writes_def writes_are_known_def filter_empty_conv)

text \<open>The pair reported for a race.\<close>

definition race_pair :: "task_graph \<Rightarrow> bool list list \<Rightarrow> nat \<Rightarrow> nat \<Rightarrow> coupled_pair" where
  "race_pair g m r w = \<lparr>pair_reader = node_id (nodes g ! r), pair_writer = node_id (nodes g ! w),
     pair_targets = btree_list (filter (\<lambda>t. t \<in> set (node_reads (nodes g ! r))) (node_writes (nodes g ! w))),
     pair_fanout = nearest_common_fanout g m r w\<rparr>"

definition decides_reachability :: "task_graph \<Rightarrow> bool list list \<Rightarrow> bool" where
  "decides_reachability g m \<longleftrightarrow>
     (\<forall>p < length (nodes g). \<forall>t < length (nodes g). m ! p ! t \<longleftrightarrow> (p, t) \<in> (dep_rel g)\<^sup>+)"

lemma coupled_pairs_races:
  assumes m: "decides_reachability g m"
  shows "set (coupled_pairs g m) = {race_pair g m r w | r w. races g r w}"
proof -
  let ?f = "\<lambda>(r, rn). if \<not> reads_are_known rn then []
      else List.map_filter (couple g m (r, rn)) (enumerate 0 (nodes g))"
  have inner: "p \<in> set (?f (r, rn)) \<longleftrightarrow> node_reads rn \<noteq> [] \<and>
      (\<exists>w < length (nodes g). couple g m (r, rn) (w, nodes g ! w) = Some p)" for p r rn
    using bex_enumerate [of "nodes g" "\<lambda>x. couple g m (r, rn) x = Some p"]
    by (auto simp: map_filter_set reads_are_known_def)
  have "p \<in> set (coupled_pairs g m) \<longleftrightarrow> (\<exists>x\<in>set (enumerate 0 (nodes g)). p \<in> set (?f x))" for p
    unfolding coupled_pairs_def set_concat set_map UN_iff bex_simps by blast
  then have A: "p \<in> set (coupled_pairs g m) \<longleftrightarrow> (\<exists>r < length (nodes g). node_reads (nodes g ! r) \<noteq> [] \<and>
      (\<exists>w < length (nodes g). couple g m (r, nodes g ! r) (w, nodes g ! w) = Some p))" for p
    unfolding bex_enumerate inner by blast
  have B: "couple g m (r, nodes g ! r) (w, nodes g ! w) = Some p \<longleftrightarrow> races g r w \<and> p = race_pair g m r w"
    if "r < length (nodes g)" "w < length (nodes g)" for r w p
  proof -
    have "m ! r ! w \<longleftrightarrow> (r, w) \<in> (dep_rel g)\<^sup>+" "m ! w ! r \<longleftrightarrow> (w, r) \<in> (dep_rel g)\<^sup>+"
      using m that by (simp_all add: decides_reachability_def)
    then show ?thesis using that unfolding couple_Some by (auto simp: races_def race_pair_def)
  qed
  have "p \<in> set (coupled_pairs g m) \<longleftrightarrow> (\<exists>r < length (nodes g). node_reads (nodes g ! r) \<noteq> [] \<and>
      (\<exists>w < length (nodes g). races g r w \<and> p = race_pair g m r w))" for p
    unfolding A by (simp add: B cong: conj_cong)
  moreover have "races g r w \<longrightarrow> r < length (nodes g) \<and> w < length (nodes g) \<and> node_reads (nodes g ! r) \<noteq> []" for r w
    by (auto simp: races_def reads_of_writes_def)
  ultimately show ?thesis by blast
qed

lemma common_fanouts_spans:
  assumes "decides_reachability g m" and "a < length (nodes g)" and "b < length (nodes g)"
  shows "set (common_fanouts g m a b) = {f. spans_both g f a b}"
proof -
  have "f \<in> set (common_fanouts g m a b) \<longleftrightarrow> (\<exists>x\<in>set (enumerate 0 (nodes g)). fst x = f \<and>
      node_fanout (snd x) \<noteq> None \<and> m ! fst x ! a \<and> m ! fst x ! b)" for f
    by (auto simp: common_fanouts_def)
  also have "\<dots> f \<longleftrightarrow> f < length (nodes g) \<and> node_fanout (nodes g ! f) \<noteq> None \<and> m ! f ! a \<and> m ! f ! b" for f
    unfolding bex_enumerate by auto
  finally show ?thesis using assms by (auto simp: spans_both_def decides_reachability_def)
qed

lemma distinct_common_fanouts: "distinct (common_fanouts g m a b)"
  unfolding common_fanouts_def by (rule distinct_map_filter) simp

lemma nearest_common_fanout_Some:
  assumes m: "decides_reachability g m" and ab: "a < length (nodes g)" "b < length (nodes g)"
    and acyc: "acyclic (dep_rel g)" and some: "nearest_common_fanout g m a b = Some i"
  shows "\<exists>f. i = node_id (nodes g ! f) \<and> nearest_fanout g f a b"
proof -
  let ?C = "common_fanouts g m a b"
  let ?key = "\<lambda>c. length (filter (\<lambda>other. other \<noteq> c \<and> m ! other ! c) ?C)"
  obtain f where f: "max_by_key ?key ?C = Some f" and i: "i = node_id (nodes g ! f)"
    using some by (auto simp: nearest_common_fanout_def Let_def)
  from max_by_key_Some [OF f] have inC: "f \<in> set ?C" and greatest: "\<forall>x\<in>set ?C. ?key x \<le> ?key f" by auto
  have key: "?key c = card {x \<in> set ?C. x \<noteq> c \<and> (x, c) \<in> (dep_rel g)\<^sup>+}" if "c \<in> set ?C" for c
  proof -
    have "?key c = card (set (filter (\<lambda>other. other \<noteq> c \<and> m ! other ! c) ?C))"
      by (rule distinct_card [symmetric]) (simp add: distinct_common_fanouts)
    also have "set (filter (\<lambda>other. other \<noteq> c \<and> m ! other ! c) ?C) = {x \<in> set ?C. x \<noteq> c \<and> (x, c) \<in> (dep_rel g)\<^sup>+}"
    proof -
      have "x < length (nodes g)" if "x \<in> set ?C" for x
        using that unfolding common_fanouts_spans [OF m ab] by (simp add: spans_both_def)
      with \<open>c \<in> set ?C\<close> m have "m ! x ! c \<longleftrightarrow> (x, c) \<in> (dep_rel g)\<^sup>+" if "x \<in> set ?C" for x
        using that by (simp add: decides_reachability_def)
      then show ?thesis by auto
    qed
    finally show ?thesis .
  qed
  have "\<not> (spans_both g h a b \<and> (f, h) \<in> (dep_rel g)\<^sup>+)" for h
  proof
    assume h: "spans_both g h a b \<and> (f, h) \<in> (dep_rel g)\<^sup>+"
    then have hC: "h \<in> set ?C" unfolding common_fanouts_spans [OF m ab] by simp
    let ?below = "\<lambda>c. {x \<in> set ?C. x \<noteq> c \<and> (x, c) \<in> (dep_rel g)\<^sup>+}"
    have no: "(x, x) \<notin> (dep_rel g)\<^sup>+" for x using acyc by (simp add: acyclic_def)
    have "insert f (?below f) \<subseteq> ?below h"
      using h inC no by (auto intro: trancl_trans)
    then have "card (insert f (?below f)) \<le> card (?below h)" by (rule card_mono [rotated]) simp
    then have "?key f < ?key h" unfolding key [OF inC] key [OF hC] by (simp add: card_insert_if)
    with greatest hC show False by (meson linorder_not_less)
  qed
  with inC i show ?thesis unfolding nearest_fanout_def common_fanouts_spans [OF m ab] by blast
qed

lemma nearest_common_fanout_None:
  assumes "decides_reachability g m" and "a < length (nodes g)" and "b < length (nodes g)"
  shows "nearest_common_fanout g m a b = None \<longleftrightarrow> (\<nexists>f. spans_both g f a b)"
  using common_fanouts_spans [OF assms] by (auto simp: nearest_common_fanout_def Let_def)

text \<open>
  The coupled pairs of the fusion report are exactly the races the declarations show: for
  every ordered pair of different nodes with no dependency path between them either way, of
  which the first reads a target the second writes, the report has the pair with its sorted
  common targets, and nothing else. The fan-out it names lies above both nodes and no other
  fan-out above both lies below it; none is named only if no fan-out lies above both.
\<close>

theorem coupled_pairs_are_the_races:
  assumes "petgraph_toposort topo" and "stop_rule_fusion topo g = Inr report"
  shows "\<exists>fanout. set (coupled report) = {\<lparr>pair_reader = node_id (nodes g ! r), pair_writer = node_id (nodes g ! w),
        pair_targets = btree_list (filter (\<lambda>t. t \<in> set (node_reads (nodes g ! r))) (node_writes (nodes g ! w))),
        pair_fanout = fanout r w\<rparr> | r w. races g r w} \<and>
    (\<forall>r w. races g r w \<longrightarrow>
      (case fanout r w of None \<Rightarrow> \<nexists>f. spans_both g f r w
       | Some i \<Rightarrow> \<exists>f. i = node_id (nodes g ! f) \<and> nearest_fanout g f r w))"
proof -
  obtain ix where ix: "build topo g = Inr ix" and rep: "coupled report = coupled_pairs g (descendants ix g)"
    using assms(2) by (auto simp: stop_rule_fusion_def Let_def map_sum_def split: sum.splits)
  let ?m = "descendants ix g"
  have m: "decides_reachability g ?m"
    using petgraph_toposort.descendants_closure [OF assms(1) ix] by (simp add: decides_reachability_def)
  have "well_formed g" by (rule petgraph_toposort.build_Inr(1) [OF assms(1) ix])
  then have acyc: "acyclic (dep_rel g)" by (simp add: well_formed_def)
  show ?thesis
  proof (intro exI [of _ "nearest_common_fanout g ?m"] conjI allI impI)
    fix r w assume "races g r w"
    then have rw: "r < length (nodes g)" "w < length (nodes g)" by (auto simp: races_def)
    show "case nearest_common_fanout g ?m r w of None \<Rightarrow> \<nexists>f. spans_both g f r w
       | Some i \<Rightarrow> \<exists>f. i = node_id (nodes g ! f) \<and> nearest_fanout g f r w"
      using nearest_common_fanout_None [OF m rw] nearest_common_fanout_Some [OF m rw acyc]
      by (auto split: option.splits)
  qed (use coupled_pairs_races [OF m] rep in \<open>simp add: race_pair_def\<close>)
qed

definition branches_graph :: task_graph where
  "branches_graph = (new_graph ''g'' (WorkflowOrigin ''w''))\<lparr>nodes :=
     [(new_node ''split'' WorkNode)\<lparr>node_fanout := Some \<lparr>fanout_source = None, fanout_max_parallelism = None\<rparr>\<rparr>,
      (new_node ''left'' WorkNode)\<lparr>depends_on := [''split''], node_writes := [PathTarget ''a.rs'']\<rparr>,
      (new_node ''right'' WorkNode)\<lparr>depends_on := [''split''], node_reads := [PathTarget ''a.rs'']\<rparr>]\<rparr>"

theorem coupled_pairs_are_the_races_witness: "\<exists>r w f. races branches_graph r w \<and> nearest_fanout branches_graph f r w"
proof -
  let ?p = "\<lparr>pair_reader = ''right'', pair_writer = ''left'', pair_targets = [PathTarget ''a.rs''],
      pair_fanout = Some ''split''\<rparr>"
  have "(case stop_rule_fusion kahn_positions branches_graph of Inl _ \<Rightarrow> False | Inr rep \<Rightarrow> coupled rep = [?p])"
    by code_simp
  then obtain rep where rep: "stop_rule_fusion kahn_positions branches_graph = Inr rep" and c: "coupled rep = [?p]"
    by (auto split: sum.splits)
  obtain fanout where set: "set (coupled rep) = {\<lparr>pair_reader = node_id (nodes branches_graph ! r),
        pair_writer = node_id (nodes branches_graph ! w),
        pair_targets = btree_list (filter (\<lambda>t. t \<in> set (node_reads (nodes branches_graph ! r)))
          (node_writes (nodes branches_graph ! w))),
        pair_fanout = fanout r w\<rparr> | r w. races branches_graph r w}"
    and near: "\<forall>r w. races branches_graph r w \<longrightarrow> (case fanout r w of None \<Rightarrow> \<nexists>f. spans_both branches_graph f r w
       | Some i \<Rightarrow> \<exists>f. i = node_id (nodes branches_graph ! f) \<and> nearest_fanout branches_graph f r w)"
    using coupled_pairs_are_the_races [OF kahn.petgraph_toposort_axioms rep] by blast
  have "?p \<in> set (coupled rep)" by (simp add: c)
  then obtain r w where rw: "races branches_graph r w" "fanout r w = Some ''split''" unfolding set by auto
  with near show ?thesis by fastforce
qed

section \<open>Fusible chains\<close>

lemma fusible_pair_Some:
  "fusible_pair g ix down = Some c \<longleftrightarrow> (\<exists>up. depends_on down = [node_id up] \<and> graph_node g (node_id up) = Some up \<and>
     dependents_count ix (node_id up) = 1 \<and> writes_are_known up \<and> consumption_is_known down \<and> \<not> flows down up \<and>
     c = \<lparr>upstream = node_id up, downstream = node_id down,
          chain_kind = (if node_role up = node_role down \<and> node_agent up = node_agent down then Fuse else Parallelise)\<rparr>)"
  unfolding flows_iff consumes_from_def reads_any_of_def
  by (auto simp: fusible_pair_def split: list.splits option.splits dest: graph_node_Some)

lemma one_successor:
  assumes "petgraph_toposort topo" and ix: "build topo g = Inr ix" and p: "p < length (nodes g)"
    and one: "dependents_count ix (node_id (nodes g ! p)) = 1" and e: "(p, d) \<in> dep_rel g"
  shows "{i. (p, i) \<in> dep_rel g} = {d}"
proof -
  note b = petgraph_toposort.build_Inr [OF assms(1) ix]
  have "idx_by_id ix (node_id (nodes g ! p)) = Some p" using b(2) p by (simp add: maps_ids_def)
  with one have "length (successors ix p) = 1" by (simp add: dependents_count_def)
  then obtain x where "successors ix p = [x]" by (auto simp: length_Suc_conv)
  then have "{i. (p, i) \<in> dep_rel g} = {x}" using set_successors [of ix p] b(3) by auto
  with e show ?thesis by auto
qed

text \<open>
  A fusible chain is a pair of nodes of which the second depends on the first alone, the
  first has no other dependent, both have declared what they pass, and nothing flows between
  them as declared; it is to be fused iff the two have the same role and agent.
\<close>

theorem fusible_chains_carry_no_data:
  assumes "petgraph_toposort topo" and "stop_rule_fusion topo g = Inr report"
  shows "set (fusible report) \<subseteq> {c. \<exists>u d. u < length (nodes g) \<and> d < length (nodes g) \<and>
      upstream c = node_id (nodes g ! u) \<and> downstream c = node_id (nodes g ! d) \<and>
      {j. (j, d) \<in> dep_rel g} = {u} \<and> {i. (u, i) \<in> dep_rel g} = {d} \<and>
      writes_are_known (nodes g ! u) \<and> consumption_is_known (nodes g ! d) \<and> \<not> flows (nodes g ! d) (nodes g ! u) \<and>
      (chain_kind c = Fuse \<longleftrightarrow> node_role (nodes g ! u) = node_role (nodes g ! d) \<and>
         node_agent (nodes g ! u) = node_agent (nodes g ! d))}"
proof
  fix c assume c: "c \<in> set (fusible report)"
  obtain ix where ix: "build topo g = Inr ix" and rep: "fusible report = fusible_chains g ix"
    using assms(2) by (auto simp: stop_rule_fusion_def Let_def map_sum_def split: sum.splits)
  have "unique_ids g" using petgraph_toposort.build_Inr(1) [OF assms(1) ix] by (simp add: well_formed_def)
  then have uniq: "a = b" if "a < length (nodes g)" "b < length (nodes g)" "node_id (nodes g ! a) = node_id (nodes g ! b)" for a b
    using that by (auto simp: unique_ids_def distinct_conv_nth)
  obtain d where d: "d < length (nodes g)" and p: "fusible_pair g ix (nodes g ! d) = Some c"
    using c rep by (auto simp: fusible_chains_def map_filter_set in_set_conv_nth)
  from p obtain up where up: "depends_on (nodes g ! d) = [node_id up]" "graph_node g (node_id up) = Some up"
      "dependents_count ix (node_id up) = 1" "writes_are_known up" "consumption_is_known (nodes g ! d)"
      "\<not> flows (nodes g ! d) up"
    and ceq: "c = \<lparr>upstream = node_id up, downstream = node_id (nodes g ! d), chain_kind =
        (if node_role up = node_role (nodes g ! d) \<and> node_agent up = node_agent (nodes g ! d) then Fuse else Parallelise)\<rparr>"
    unfolding fusible_pair_Some by blast
  obtain u where u: "u < length (nodes g)" "up = nodes g ! u"
    using graph_node_Some [OF up(2)] by (auto simp: in_set_conv_nth)
  have pre: "{j. (j, d) \<in> dep_rel g} = {u}" using d u up(1) uniq by (auto simp: dep_rel_def)
  then have "(u, d) \<in> dep_rel g" by auto
  from one_successor [OF assms(1) ix u(1) _ this] up(3) u(2) have "{i. (u, i) \<in> dep_rel g} = {d}" by simp
  with pre d u up ceq show "c \<in> {c. \<exists>u d. u < length (nodes g) \<and> d < length (nodes g) \<and>
      upstream c = node_id (nodes g ! u) \<and> downstream c = node_id (nodes g ! d) \<and>
      {j. (j, d) \<in> dep_rel g} = {u} \<and> {i. (u, i) \<in> dep_rel g} = {d} \<and>
      writes_are_known (nodes g ! u) \<and> consumption_is_known (nodes g ! d) \<and> \<not> flows (nodes g ! d) (nodes g ! u) \<and>
      (chain_kind c = Fuse \<longleftrightarrow> node_role (nodes g ! u) = node_role (nodes g ! d) \<and>
         node_agent (nodes g ! u) = node_agent (nodes g ! d))}"
    by (intro CollectI exI [of _ u] exI [of _ d]) simp
qed

definition idle_chain :: task_graph where
  "idle_chain = (new_graph ''g'' (WorkflowOrigin ''w''))\<lparr>nodes :=
     [(new_node ''up'' WorkNode)\<lparr>node_writes := [PathTarget ''a.rs'']\<rparr>,
      (new_node ''down'' WorkNode)\<lparr>depends_on := [''up''], node_reads := [PathTarget ''b.rs'']\<rparr>]\<rparr>"

theorem fusible_chains_carry_no_data_witness:
  "\<exists>u d. node_id (nodes idle_chain ! u) = ''up'' \<and> {i. (u, i) \<in> dep_rel idle_chain} = {d} \<and>
     \<not> flows (nodes idle_chain ! d) (nodes idle_chain ! u)"
proof -
  let ?c = "\<lparr>upstream = ''up'', downstream = ''down'', chain_kind = Fuse\<rparr>"
  have "(case stop_rule_fusion kahn_positions idle_chain of Inl _ \<Rightarrow> False | Inr rep \<Rightarrow> fusible rep = [?c])"
    by code_simp
  then obtain rep where rep: "stop_rule_fusion kahn_positions idle_chain = Inr rep" and c: "fusible rep = [?c]"
    by (auto split: sum.splits)
  have "?c \<in> set (fusible rep)" by (simp add: c)
  with fusible_chains_carry_no_data [OF kahn.petgraph_toposort_axioms rep] show ?thesis by fastforce
qed

end
