(* ===== verification/Topo_Diamond.thy ===== *)
theory Topo_Diamond imports Topo_Waves begin

text \<open>
  \<^verbatim>\<open>crates/archon-topology/src/analysis/diamond.rs\<close>: whether a fan-out is folded by its nearest
  reducer through verification, and how independent the verification is. The two breadth-first
  walks share one loop; its lemma says that it finds exactly the nodes a path reaches without
  crossing a reducer, and the report is characterised by that.
\<close>

datatype diamond_finding =
    UnverifiedFanout string string
  | SoleVerifier string string
  | HomogeneousVerifiers string "string list" string

definition finding_subject :: "diamond_finding \<Rightarrow> string" where
  "finding_subject f =
     (case f of UnverifiedFanout fanout _ \<Rightarrow> fanout | SoleVerifier reducer _ \<Rightarrow> reducer
      | HomogeneousVerifiers reducer _ _ \<Rightarrow> reducer)"

definition finding_remedy :: "diamond_finding \<Rightarrow> string" where
  "finding_remedy f =
     (case f of
        UnverifiedFanout fanout reducer \<Rightarrow>
          ''insert a Verify stage between '' @ quoted fanout @ '' and '' @ quoted reducer @ '', or make ''
            @ quoted reducer @ '' depend on one that already exists''
      | SoleVerifier reducer verifier \<Rightarrow>
          ''add a second, independently-agented Verify stage feeding '' @ quoted reducer @ ''; ''
            @ quoted verifier @ '' is currently its only verification''
      | HomogeneousVerifiers reducer verifiers agent \<Rightarrow>
          ''give at least one of '' @ join_with '', '' (map quoted verifiers) @ '' a different agent than ''
            @ quoted agent @ '' before it reaches '' @ quoted reducer)"

record verifier_diversity =
  diversity_reducer :: string
  diversity_verifiers :: "string list"
  distinct_agents :: nat

record diamond_report =
  diamond_findings :: "diamond_finding list"
  diamond_diversity :: "verifier_diversity list"

definition diamond_is_clean :: "diamond_report \<Rightarrow> bool" where
  "diamond_is_clean r \<longleftrightarrow> diamond_findings r = []"

section \<open>The walk\<close>

type_synonym walk_state = "nat list \<times> nat list \<times> nat list"

text \<open>One neighbour: skipped when it has been seen, else collected, and queued when the walk goes on
  through it. The state is the queue, the nodes seen, and the nodes collected.\<close>

definition meet :: "(nat \<Rightarrow> bool) \<Rightarrow> (nat \<Rightarrow> bool) \<Rightarrow> walk_state \<Rightarrow> nat \<Rightarrow> walk_state" where
  "meet through wanted = (\<lambda>(queue, seen, found) x.
     if x \<in> set seen then (queue, seen, found)
     else (if through x then queue @ [x] else queue, x # seen, if wanted x then found @ [x] else found))"

definition neighbours :: "(nat \<times> nat) list \<Rightarrow> nat \<Rightarrow> nat list" where
  "neighbours es p = rev (map snd (filter (\<lambda>(a, b). a = p) es))"

definition unseen :: "(nat \<times> nat) list \<Rightarrow> nat list \<Rightarrow> nat" where
  "unseen es seen = card (snd ` set es - set seen)"

lemma meet_measure:
  assumes "x \<in> snd ` set es" and "meet through wanted (queue, seen, found) x = (queue', seen', found')"
  shows "unseen es seen' < unseen es seen \<or> (seen' = seen \<and> queue' = queue)"
proof (cases "x \<in> set seen")
  case False
  with assms have "seen' = x # seen" by (auto simp: meet_def)
  moreover from False assms(1) have "snd ` set es - set (x # seen) \<subset> snd ` set es - set seen" by auto
  ultimately show ?thesis unfolding unseen_def by (simp add: psubset_card_mono)
qed (use assms(2) in \<open>auto simp: meet_def\<close>)

lemma meets_measure:
  assumes "set xs \<subseteq> snd ` set es" and "foldl (meet through wanted) (queue, seen, found) xs = (queue', seen', found')"
  shows "unseen es seen' < unseen es seen \<or> (seen' = seen \<and> queue' = queue)"
  using assms
proof (induction xs arbitrary: queue seen found)
  case (Cons x xs)
  obtain q s f where m: "meet through wanted (queue, seen, found) x = (q, s, f)" by (metis prod_cases3)
  with Cons.prems meet_measure [OF _ m, of es] Cons.IH [of q s f] show ?case by auto
qed simp

function walk :: "(nat \<times> nat) list \<Rightarrow> (nat \<Rightarrow> bool) \<Rightarrow> (nat \<Rightarrow> bool) \<Rightarrow> walk_state \<Rightarrow> nat list" where
  "walk es through wanted ([], seen, found) = found"
| "walk es through wanted (p # queue, seen, found) =
     walk es through wanted (foldl (meet through wanted) (queue, seen, found) (neighbours es p))"
  by pat_completeness auto
termination
proof (relation "measures [\<lambda>(es, _, _, queue, seen, found). unseen es seen, \<lambda>(_, _, _, queue, _, _). length queue]")
  fix es and through wanted :: "nat \<Rightarrow> bool" and p queue seen found
  obtain q s f where m: "foldl (meet through wanted) (queue, seen, found) (neighbours es p) = (q, s, f)"
    by (metis prod_cases3)
  have "set (neighbours es p) \<subseteq> snd ` set es" by (auto simp: neighbours_def)
  from meets_measure [OF this m] m
  show "((es, through, wanted, foldl (meet through wanted) (queue, seen, found) (neighbours es p)),
      es, through, wanted, p # queue, seen, found)
    \<in> measures [\<lambda>(es, _, _, queue, seen, found). unseen es seen, \<lambda>(_, _, _, queue, _, _). length queue]"
    by auto
qed simp

section \<open>The report\<close>

definition is_reducer :: "task_graph \<Rightarrow> nat \<Rightarrow> bool" where
  "is_reducer g p \<longleftrightarrow> node_role (nodes g ! p) = ReduceNode"

definition reduce_frontier :: "graph_index \<Rightarrow> task_graph \<Rightarrow> nat \<Rightarrow> nat list" where
  "reduce_frontier ix g start =
     sort (walk (idx_edges ix) (\<lambda>x. \<not> is_reducer g x) (is_reducer g) ([start], [start], []))"

definition frontier_verifiers :: "graph_index \<Rightarrow> task_graph \<Rightarrow> nat \<Rightarrow> nat list" where
  "frontier_verifiers ix g reducer =
     sort (walk (map prod.swap (idx_edges ix)) (\<lambda>x. \<not> is_reducer g x)
       (\<lambda>x. \<not> is_reducer g x \<and> node_role (nodes g ! x) = VerifyNode) ([reducer], [reducer], []))"

definition unverified_fanouts :: "graph_index \<Rightarrow> task_graph \<Rightarrow> nat \<Rightarrow> diamond_finding list" where
  "unverified_fanouts ix g p =
     (if node_fanout (nodes g ! p) = None then []
      else List.map_filter
        (\<lambda>r. if frontier_verifiers ix g r = []
              then Some (UnverifiedFanout (node_id (nodes g ! p)) (node_id (nodes g ! r))) else None)
        (reduce_frontier ix g p))"

text \<open>The reducers that are scored, in order of position.\<close>

definition scored_reducers :: "graph_index \<Rightarrow> task_graph \<Rightarrow> nat list" where
  "scored_reducers ix g =
     btree_list
       (concat (map (\<lambda>p. if node_fanout (nodes g ! p) = None then [] else reduce_frontier ix g p) [0..<length (nodes g)])
        @ filter (is_reducer g) [0..<length (nodes g)])"

definition verification_finding :: "graph_index \<Rightarrow> task_graph \<Rightarrow> nat \<Rightarrow> diamond_finding option" where
  "verification_finding ix g r =
     (let verifiers = frontier_verifiers ix g r;
          ids = map (\<lambda>p. node_id (nodes g ! p)) verifiers;
          agents = map (\<lambda>p. node_agent (nodes g ! p)) verifiers;
          distinct_ones = btree_list (List.map_filter id agents)
      in case ids of
           [only] \<Rightarrow> Some (SoleVerifier (node_id (nodes g ! r)) only)
         | _ \<Rightarrow>
             if list_all (\<lambda>a. a \<noteq> None) agents \<and> length distinct_ones = 1
             then Some (HomogeneousVerifiers (node_id (nodes g ! r)) ids (hd distinct_ones))
             else None)"

definition diversity_of :: "graph_index \<Rightarrow> task_graph \<Rightarrow> nat \<Rightarrow> verifier_diversity" where
  "diversity_of ix g r =
     (let verifiers = frontier_verifiers ix g r
      in \<lparr>diversity_reducer = node_id (nodes g ! r),
          diversity_verifiers = map (\<lambda>p. node_id (nodes g ! p)) verifiers,
          distinct_agents = length (btree_list (List.map_filter (\<lambda>p. node_agent (nodes g ! p)) verifiers))\<rparr>)"

definition diamond_conformance :: "toposort \<Rightarrow> task_graph \<Rightarrow> topology_error + diamond_report" where
  "diamond_conformance topo g =
     map_sum id
       (\<lambda>ix. let verified = filter (\<lambda>r. frontier_verifiers ix g r \<noteq> []) (scored_reducers ix g)
             in \<lparr>diamond_findings =
                   concat (map (unverified_fanouts ix g) [0..<length (nodes g)])
                   @ List.map_filter (verification_finding ix g) verified,
                 diamond_diversity = map (diversity_of ix g) verified\<rparr>)
       (build topo g)"

section \<open>What the walk finds\<close>

text \<open>The nodes the walk goes through, and those it meets.\<close>

definition passed :: "(nat \<times> nat) set \<Rightarrow> (nat \<Rightarrow> bool) \<Rightarrow> nat \<Rightarrow> nat set" where
  "passed R through s = (R \<inter> {(a, b). through b})\<^sup>* `` {s}"

lemma passed_start [simp]: "s \<in> passed R through s"
  by (simp add: passed_def)

lemma passed_step: "a \<in> passed R through s \<Longrightarrow> (a, b) \<in> R \<Longrightarrow> through b \<Longrightarrow> b \<in> passed R through s"
  by (auto simp: passed_def intro: rtrancl_into_rtrancl)

lemma foldl_meet:
  assumes "foldl (meet through wanted) (queue, seen, found) xs = (queue', seen', found')"
    and "distinct found" and "set found \<subseteq> set seen"
  shows "set seen' = set seen \<union> set xs \<and> set queue' = set queue \<union> {x \<in> set xs - set seen. through x}
    \<and> set found' = set found \<union> {x \<in> set xs - set seen. wanted x} \<and> distinct found'"
  using assms
proof (induction xs arbitrary: queue seen found)
  case (Cons x xs)
  obtain q s f where m: "meet through wanted (queue, seen, found) x = (q, s, f)" by (metis prod_cases3)
  have qsf: "set q = set queue \<union> (if x \<notin> set seen \<and> through x then {x} else {})" "set s = insert x (set seen)"
    "set f = set found \<union> (if x \<notin> set seen \<and> wanted x then {x} else {})" "distinct f" "set f \<subseteq> set s"
    using m Cons.prems(2,3) by (auto simp: meet_def split: if_splits)
  from Cons.prems(1) m have "foldl (meet through wanted) (q, s, f) xs = (queue', seen', found')" by simp
  from Cons.IH [OF this qsf(4,5)] show ?case unfolding qsf(1-3) by (auto split: if_splits)
qed simp

definition walk_inv :: "(nat \<times> nat) set \<Rightarrow> (nat \<Rightarrow> bool) \<Rightarrow> (nat \<Rightarrow> bool) \<Rightarrow> nat \<Rightarrow> walk_state \<Rightarrow> bool" where
  "walk_inv R through wanted s = (\<lambda>(queue, seen, found).
     s \<in> set seen \<and> set queue \<subseteq> passed R through s \<inter> set seen
     \<and> set seen \<subseteq> insert s (R `` passed R through s)
     \<and> set found = {x \<in> set seen. x \<noteq> s \<and> wanted x} \<and> distinct found
     \<and> (\<forall>y\<in>set seen \<inter> passed R through s - set queue. R `` {y} \<subseteq> set seen))"

lemma walk_inv_step:
  assumes inv: "walk_inv (set es) through wanted s (p # queue, seen, found)"
    and step: "foldl (meet through wanted) (queue, seen, found) (neighbours es p) = (queue', seen', found')"
  shows "walk_inv (set es) through wanted s (queue', seen', found')"
proof -
  let ?R = "set es"
  have nb: "set (neighbours es p) = ?R `` {p}" by (force simp: neighbours_def)
  from inv have i: "s \<in> set seen" "p \<in> passed ?R through s" "p \<in> set seen" "set queue \<subseteq> passed ?R through s \<inter> set seen"
    "set seen \<subseteq> insert s (?R `` passed ?R through s)" "set found = {x \<in> set seen. x \<noteq> s \<and> wanted x}" "distinct found"
    "\<forall>y\<in>set seen \<inter> passed ?R through s - set (p # queue). ?R `` {y} \<subseteq> set seen"
    unfolding walk_inv_def prod.case by auto
  have sub: "set found \<subseteq> set seen" using i(6) by blast
  from foldl_meet [OF step i(7) sub, unfolded nb]
  have f: "set seen' = set seen \<union> ?R `` {p}" "set queue' = set queue \<union> {x \<in> ?R `` {p} - set seen. through x}"
    "set found' = set found \<union> {x \<in> ?R `` {p} - set seen. wanted x}" "distinct found'" by blast+
  have new: "set queue' \<subseteq> passed ?R through s \<inter> set seen'"
    using i(2,4) passed_step unfolding f(1,2) by blast
  have "?R `` {y} \<subseteq> set seen'" if "y \<in> set seen' \<inter> passed ?R through s - set queue'" for y
  proof (cases "y = p")
    case True
    then show ?thesis unfolding f(1) by blast
  next
    case False
    have "y \<in> set seen \<or> y \<notin> set seen" by blast
    moreover have "through y" if "y \<noteq> s"
      using \<open>y \<in> set seen' \<inter> passed ?R through s - set queue'\<close> that unfolding passed_def
      by (auto elim: rtranclE)
    ultimately have "y \<in> set seen" "y \<notin> set queue"
      using that i(1) unfolding f(1,2) by blast+
    with False that i(8) show ?thesis unfolding f(1) by auto
  qed
  moreover have "set seen' \<subseteq> insert s (?R `` passed ?R through s)" unfolding f(1) using i(2,5) by blast
  moreover have "set found' = {x \<in> set seen'. x \<noteq> s \<and> wanted x}" unfolding f(1,3) i(6) using i(1) by blast
  ultimately show ?thesis unfolding walk_inv_def prod.case using new i(1) f(1,4) by blast
qed

lemma walk_finds:
  "walk_inv (set es) through wanted s st \<Longrightarrow>
     set (walk es through wanted st) = {x \<in> set es `` passed (set es) through s. x \<noteq> s \<and> wanted x}
     \<and> distinct (walk es through wanted st)"
proof (induction es through wanted st rule: walk.induct)
  case (1 es through wanted seen found)
  let ?R = "set es"
  from 1 have i: "s \<in> set seen" "set seen \<subseteq> insert s (?R `` passed ?R through s)"
    "set found = {x \<in> set seen. x \<noteq> s \<and> wanted x}" "distinct found"
    "\<forall>y\<in>set seen \<inter> passed ?R through s. ?R `` {y} \<subseteq> set seen"
    unfolding walk_inv_def prod.case by auto
  have "y \<in> set seen" if "y \<in> passed ?R through s" for y
  proof -
    have "(s, y) \<in> (?R \<inter> {(a, b). through b})\<^sup>*" using that by (simp add: passed_def)
    then show ?thesis
    proof (induction rule: rtrancl_induct)
      case (step y z)
      then have "y \<in> passed ?R through s" by (simp add: passed_def)
      with step i(5) show ?case by blast
    qed (fact i(1))
  qed
  with i(5) have "?R `` passed ?R through s \<subseteq> set seen" by blast
  with i(2,3,4) show ?case by auto
next
  case (2 es through wanted p queue seen found)
  obtain q sn f where m: "foldl (meet through wanted) (queue, seen, found) (neighbours es p) = (q, sn, f)"
    by (metis prod_cases3)
  from "2.IH" walk_inv_step [OF "2.prems" m] m show ?case by simp
qed

lemma walk_from:
  "set (walk es through wanted ([s], [s], [])) = {x \<in> set es `` passed (set es) through s. x \<noteq> s \<and> wanted x}"
  "distinct (walk es through wanted ([s], [s], []))"
  using walk_finds [of es through wanted s "([s], [s], [])"] by (auto simp: walk_inv_def)

section \<open>What the report says\<close>

text \<open>The reducers that fold what \<open>p\<close> fans out, and the verifiers of a reducer: along dependencies,
  without crossing another reducer.\<close>

definition folds :: "task_graph \<Rightarrow> nat \<Rightarrow> nat set" where
  "folds g p = {r. is_reducer g r \<and> r \<in> dep_rel g `` passed (dep_rel g) (\<lambda>x. \<not> is_reducer g x) p}"

definition checks :: "task_graph \<Rightarrow> nat \<Rightarrow> nat set" where
  "checks g r = {v. node_role (nodes g ! v) = VerifyNode
     \<and> v \<in> (dep_rel g)\<inverse> `` passed ((dep_rel g)\<inverse>) (\<lambda>x. \<not> is_reducer g x) r}"

lemma swap_image: "prod.swap ` R = R\<inverse>"
  by force

lemma not_through_itself:
  assumes "acyclic R" and "x \<in> R `` passed R through s"
  shows "x \<noteq> s"
proof -
  from assms(2) obtain y where "(s, y) \<in> (R \<inter> {(a, b). through b})\<^sup>*" "(y, x) \<in> R"
    by (auto simp: passed_def)
  moreover have "(R \<inter> {(a, b). through b})\<^sup>* \<subseteq> R\<^sup>*" by (rule rtrancl_mono) simp
  ultimately have "(s, x) \<in> R\<^sup>+" by (blast intro: rtrancl_into_trancl1)
  with assms(1) show ?thesis unfolding acyclic_def by blast
qed

lemma start_is_not_found:
  assumes "acyclic R"
  shows "{x \<in> R `` passed R through s. x \<noteq> s \<and> wanted x} = {x. wanted x \<and> x \<in> R `` passed R through s}"
  using not_through_itself [OF assms] by (intro Collect_cong) blast

context petgraph_toposort
begin

lemma frontier_sets:
  assumes "build topo g = Inr ix"
  shows "set (reduce_frontier ix g p) = folds g p" and "sorted (reduce_frontier ix g p)" "distinct (reduce_frontier ix g p)"
    and "set (frontier_verifiers ix g p) = checks g p" and "sorted (frontier_verifiers ix g p)" "distinct (frontier_verifiers ix g p)"
proof -
  from build_Inr(1,3) [OF assms] have es: "set (idx_edges ix) = dep_rel g" and "acyclic (dep_rel g)"
    by (simp_all add: well_formed_def)
  then have acyc: "acyclic ((dep_rel g)\<inverse>)" by simp
  have swapped: "set (map prod.swap (idx_edges ix)) = (dep_rel g)\<inverse>"
    unfolding set_map es by (rule swap_image)
  show "set (reduce_frontier ix g p) = folds g p"
    unfolding reduce_frontier_def set_sort walk_from(1) es folds_def by (rule start_is_not_found) fact
  have verifier: "(\<not> is_reducer g x \<and> node_role (nodes g ! x) = VerifyNode) = (node_role (nodes g ! x) = VerifyNode)" for x
    by (auto simp: is_reducer_def)
  show "set (frontier_verifiers ix g p) = checks g p"
    unfolding frontier_verifiers_def set_sort walk_from(1) swapped verifier checks_def
    by (rule start_is_not_found) (rule acyc)
  show "sorted (reduce_frontier ix g p)" "distinct (reduce_frontier ix g p)"
    "sorted (frontier_verifiers ix g p)" "distinct (frontier_verifiers ix g p)"
    by (simp_all add: reduce_frontier_def frontier_verifiers_def walk_from(2) del: walk.simps)
qed

end

definition scored :: "task_graph \<Rightarrow> nat set" where
  "scored g = {r. r < length (nodes g) \<and> is_reducer g r}"

definition same_agent :: "task_graph \<Rightarrow> nat set \<Rightarrow> string \<Rightarrow> bool" where
  "same_agent g vs a \<longleftrightarrow> 2 \<le> card vs \<and> (\<forall>v\<in>vs. node_agent (nodes g ! v) = Some a)"

definition name_at :: "task_graph \<Rightarrow> nat \<Rightarrow> string" where
  "name_at g p = node_id (nodes g ! p)"

lemma one_agent_iff:
  assumes "xs \<noteq> []"
  shows "(list_all (\<lambda>a. a \<noteq> None) (map f xs) \<and> length (btree_list (List.map_filter id (map f xs))) = 1 \<and>
      hd (btree_list (List.map_filter id (map f xs))) = a) \<longleftrightarrow> (\<forall>x\<in>set xs. f x = Some a)"
proof
  assume l: "list_all (\<lambda>a. a \<noteq> None) (map f xs) \<and> length (btree_list (List.map_filter id (map f xs))) = 1 \<and>
      hd (btree_list (List.map_filter id (map f xs))) = a"
  then have "btree_list (List.map_filter id (map f xs)) = [a]" by (auto simp: length_Suc_conv)
  then have "set (List.map_filter id (map f xs)) = {a}" by (metis empty_set list.simps(15) set_btree_list)
  then have "y = a" if "x \<in> set xs" "f x = Some y" for x y using that by (force simp: List.map_filter_def)
  with l show "\<forall>x\<in>set xs. f x = Some a" by (auto simp: list_all_iff)
next
  assume r: "\<forall>x\<in>set xs. f x = Some a"
  then have "set (List.map_filter id (map f xs)) = set [a]" using assms by (cases xs) (force simp: List.map_filter_def)+
  then have "btree_list (List.map_filter id (map f xs)) = btree_list [a]" by (simp only: btree_list_eq_iff)
  with r show "list_all (\<lambda>a. a \<noteq> None) (map f xs) \<and> length (btree_list (List.map_filter id (map f xs))) = 1 \<and>
      hd (btree_list (List.map_filter id (map f xs))) = a"
    by (simp add: list_all_iff btree_list_def)
qed

context petgraph_toposort
begin

lemma verification_finding_cases:
  assumes ix: "build topo g = Inr ix" and ne: "frontier_verifiers ix g r \<noteq> []"
  shows "verification_finding ix g r = Some f \<longleftrightarrow>
    (\<exists>v. checks g r = {v} \<and> f = SoleVerifier (name_at g r) (name_at g v))
    \<or> (\<exists>a. same_agent g (checks g r) a \<and>
         f = HomogeneousVerifiers (name_at g r) (map (name_at g) (frontier_verifiers ix g r)) a)"
proof -
  let ?vs = "frontier_verifiers ix g r"
  note s = frontier_sets(4-6) [OF ix, of r]
  have card: "card (checks g r) = length ?vs" using s by (metis distinct_card)
  show ?thesis
  proof (cases "length ?vs = 1")
    case True
    then obtain v where v: "?vs = [v]" by (auto simp: length_Suc_conv)
    with s(1) have "checks g r = {v}" by simp
    with v card show ?thesis by (auto simp: verification_finding_def Let_def name_at_def same_agent_def)
  next
    case False
    with ne have two: "2 \<le> length ?vs" by (cases ?vs) (auto simp: Suc_le_eq)
    then obtain x y zs where xyz: "?vs = x # y # zs" by (cases ?vs; cases "tl ?vs") auto
    have "\<nexists>v. checks g r = {v}" using card two by auto
    moreover have "verification_finding ix g r = Some f \<longleftrightarrow> (\<exists>a. (\<forall>v\<in>set ?vs. node_agent (nodes g ! v) = Some a) \<and>
        f = HomogeneousVerifiers (name_at g r) (map (name_at g) ?vs) a)"
      unfolding one_agent_iff [OF ne, symmetric]
      by (simp add: verification_finding_def Let_def name_at_def [abs_def] xyz) blast
    ultimately show ?thesis using card two s(1) by (auto simp: same_agent_def)
  qed
qed

lemma set_scored_reducers: "build topo g = Inr ix \<Longrightarrow> set (scored_reducers ix g) = scored g"
  by (auto simp: scored_reducers_def scored_def frontier_sets(1) folds_def dep_rel_def)

lemma set_unverified_fanouts:
  "build topo g = Inr ix \<Longrightarrow> set (unverified_fanouts ix g p) =
     (if node_fanout (nodes g ! p) = None then {}
      else {UnverifiedFanout (name_at g p) (name_at g r) | r. r \<in> folds g p \<and> checks g r = {}})"
  by (auto simp: unverified_fanouts_def map_filter_set name_at_def frontier_sets(1) simp flip: frontier_sets(4) split: if_splits)

lemma verifiers_in_order:
  "build topo g = Inr ix \<Longrightarrow> frontier_verifiers ix g r = sorted_list_of_set (checks g r)"
  by (metis frontier_sets(4-6) sorted_list_of_set.idem_if_sorted_distinct)

end


definition panel_graph :: task_graph where
  "panel_graph = (new_graph ''g'' (TeamOrigin ''s''))\<lparr>nodes :=
     [(new_node ''split'' WorkNode)\<lparr>node_fanout := Some \<lparr>fanout_source = None, fanout_max_parallelism = None\<rparr>\<rparr>,
      (new_node ''check'' VerifyNode)\<lparr>depends_on := [''split'']\<rparr>,
      (new_node ''merge'' ReduceNode)\<lparr>depends_on := [''check'']\<rparr>]\<rparr>"


end
