(* ===== verification/Task_Hash.thy ===== *)
theory Task_Hash imports Rust_Base begin

unbundle bit_operations_syntax

text \<open>
  \<^verbatim>\<open>crates/archon-topology/src/task_hash.rs\<close>: the corpus key of a task description. A text is
  reduced to a sorted set of tokens without volatile identifiers, classified by marker votes,
  and hashed with FNV-1a over 64-bit words. The lemmas show that the key depends on the set
  of words only, that normalisation is idempotent and erases directories, and that the
  rendered key can be read back into its class.
\<close>

datatype task_class = Refactor | BugHunt | Migration | Review | Greenfield

primrec class_as_str :: "task_class \<Rightarrow> string" where
  "class_as_str Refactor = ''refactor''"
| "class_as_str BugHunt = ''bug-hunt''"
| "class_as_str Migration = ''migration''"
| "class_as_str Review = ''review''"
| "class_as_str Greenfield = ''greenfield''"

definition parse_class :: "string \<Rightarrow> task_class option" where
  "parse_class v =
     (if v = ''refactor'' then Some Refactor
      else if v = ''bug-hunt'' then Some BugHunt
      else if v = ''migration'' then Some Migration
      else if v = ''review'' then Some Review
      else if v = ''greenfield'' then Some Greenfield
      else None)"

definition all_classes :: "task_class list" where
  "all_classes = [Refactor, BugHunt, Migration, Review, Greenfield]"

section \<open>Tables\<close>

definition REFACTOR_MARKERS :: "string list" where
  "REFACTOR_MARKERS = [
    ''refactor'', ''cleanup'', ''tidy'', ''simplif'', ''restructur'', ''reorganiz'',
    ''deduplicat'', ''dedupe'', ''extract'', ''inline'', ''rename'', ''decompos'', ''untangle'']"

definition BUG_HUNT_MARKERS :: "string list" where
  "BUG_HUNT_MARKERS = [
    ''bug'', ''defect'', ''crash'', ''panic'', ''regress'', ''repro'', ''hang'', ''deadlock'',
    ''flake'', ''leak'', ''corrupt'', ''broken'', ''failing'', ''misbehav'', ''traceback'',
    ''stacktrace'', ''debug'', ''diagnos'', ''triage'']"

definition MIGRATION_MARKERS :: "string list" where
  "MIGRATION_MARKERS = [
    ''migrat'', ''upgrade'', ''downgrade'', ''backport'', ''port'', ''bump'', ''deprecat'',
    ''backfill'', ''convert'', ''transition'', ''cutover'', ''rollout'']"

definition REVIEW_MARKERS :: "string list" where
  "REVIEW_MARKERS = [
    ''review'', ''audit'', ''inspect'', ''critique'', ''assess'', ''evaluat'', ''survey'',
    ''appraise'', ''walkthrough'']"

definition GREENFIELD_MARKERS :: "string list" where
  "GREENFIELD_MARKERS = [
    ''implement'', ''introduce'', ''scaffold'', ''greenfield'', ''prototype'', ''bootstrap'',
    ''author'', ''design'', ''build'']"

definition STOPWORDS :: "string list" where
  "STOPWORDS = [
    ''the'', ''and'', ''for'', ''with'', ''that'', ''this'', ''from'', ''into'', ''onto'',
    ''over'', ''under'', ''then'', ''than'', ''when'', ''where'', ''which'', ''while'',
    ''should'', ''would'', ''could'', ''must'', ''will'', ''shall'', ''can'', ''may'',
    ''please'', ''just'', ''also'', ''very'', ''make'', ''made'', ''does'', ''did'', ''done'',
    ''has'', ''have'', ''had'', ''was'', ''were'', ''are'', ''its'', ''it'' @ [CHR 0x27] @ ''s'',
    ''our'', ''your'', ''their'', ''them'', ''there'', ''here'', ''all'', ''any'', ''some'',
    ''each'', ''both'', ''not'', ''but'', ''out'', ''off'', ''via'', ''per'', ''you'', ''we'',
    ''us'', ''so'', ''do'', ''be'', ''to'', ''of'', ''in'', ''on'', ''at'', ''by'', ''as'',
    ''is'', ''it'', ''or'', ''if'', ''an'', ''a'']"

section \<open>Volatile tokens\<close>

definition basename_of :: "string \<Rightarrow> string" where
  "basename_of token =
     (if CHR ''/'' \<notin> set token \<and> CHR 0x5C \<notin> set token then token
      else
        (case find (\<lambda>segment. segment \<noteq> []) (rev (split_by (\<lambda>c. c = CHR ''/'' \<or> c = CHR 0x5C) token)) of
           None \<Rightarrow> token
         | Some segment \<Rightarrow> segment))"

definition is_uuid_shaped :: "string \<Rightarrow> bool" where
  "is_uuid_shaped token \<longleftrightarrow>
     (let groups = split_on CHR ''-'' token
      in length groups = 5 \<and>
         list_all2 (\<lambda>group width. utf8_len group = width \<and> list_all is_ascii_hexdigit group)
           groups [8, 4, 4, 4, 12])"

definition VOLATILE_PREFIXES :: "string list" where
  "VOLATILE_PREFIXES = [''wf-'', ''run-'', ''sess-'', ''session-'', ''graph-'', ''trace-'', ''job-'', ''attempt-'',
     ''req-'', ''uuid-'', ''id-'']"

definition is_identifier_prefixed :: "string \<Rightarrow> bool" where
  "is_identifier_prefixed token =
     (case List.map_filter (\<lambda>p. strip_prefix token p) VOLATILE_PREFIXES of
        [] \<Rightarrow> False
      | rest_of # _ \<Rightarrow>
          rest_of \<noteq> [] \<and>
          list_all (\<lambda>c. is_ascii_hexdigit c \<or> c = CHR ''-'' \<or> c = CHR ''_'') rest_of \<and>
          list_ex is_ascii_digit rest_of)"

text \<open>The bytes of a text in UTF-8.\<close>

definition utf8_bytes :: "string \<Rightarrow> nat list" where
  "utf8_bytes s = concat (map (\<lambda>c. if code c < 128 then [code c] else [192 + code c div 64, 128 + code c mod 64]) s)"

definition digit_byte :: "nat \<Rightarrow> bool" where
  "digit_byte b \<longleftrightarrow> 48 \<le> b \<and> b \<le> 57"

definition is_date_shaped :: "string \<Rightarrow> bool" where
  "is_date_shaped token \<longleftrightarrow>
     (let bytes = utf8_bytes token
      in \<not> length bytes < 10 \<and>
         list_all (\<lambda>i. digit_byte (bytes ! i)) [0..<4] \<and> bytes ! 4 = 45 \<and>
         list_all (\<lambda>i. digit_byte (bytes ! i)) [5..<7] \<and> bytes ! 7 = 45 \<and>
         list_all (\<lambda>i. digit_byte (bytes ! i)) [8..<10])"

fun digit_run_from :: "nat \<Rightarrow> nat \<Rightarrow> string \<Rightarrow> bool" where
  "digit_run_from run len [] = False"
| "digit_run_from run len (c # cs) =
     (if is_ascii_digit c
      then (if len \<le> run + 1 then True else digit_run_from (run + 1) len cs)
      else digit_run_from 0 len cs)"

definition has_long_digit_run :: "string \<Rightarrow> nat \<Rightarrow> bool" where
  "has_long_digit_run token len = digit_run_from 0 len token"

definition is_volatile_token :: "string \<Rightarrow> bool" where
  "is_volatile_token token \<longleftrightarrow>
     (if token = [] then False
      else if is_uuid_shaped token then True
      else if is_identifier_prefixed token then True
      else if is_date_shaped token then True
      else if list_all is_ascii_digit token then True
      else if has_long_digit_run token 6 then True
      else 8 \<le> utf8_len token \<and> list_all is_ascii_hexdigit token)"

section \<open>Normalisation\<close>

definition keeps_part :: "string \<Rightarrow> bool" where
  "keeps_part part \<longleftrightarrow> \<not> utf8_len part < 3 \<and> part \<notin> set STOPWORDS \<and> \<not> is_volatile_token part"

definition word_tokens :: "string \<Rightarrow> string list" where
  "word_tokens word =
     (let raw = trim_matches (\<lambda>c. \<not> is_alphanumeric c \<and> c \<noteq> CHR ''/'' \<and> c \<noteq> CHR 0x5C) word
      in if raw = [] then []
         else
           let candidate = basename_of raw
           in if is_volatile_token (to_ascii_lowercase candidate) then []
              else filter keeps_part (map to_ascii_lowercase (split_by (\<lambda>c. \<not> is_alphanumeric c) candidate)))"

definition normalize_task_text :: "string \<Rightarrow> string list" where
  "normalize_task_text text_in = btree_list (concat (map word_tokens (split_whitespace text_in)))"

section \<open>Class and hash\<close>

primrec markers_of :: "task_class \<Rightarrow> string list" where
  "markers_of Refactor = REFACTOR_MARKERS"
| "markers_of BugHunt = BUG_HUNT_MARKERS"
| "markers_of Migration = MIGRATION_MARKERS"
| "markers_of Review = REVIEW_MARKERS"
| "markers_of Greenfield = GREENFIELD_MARKERS"

definition class_score :: "string list \<Rightarrow> task_class \<Rightarrow> nat" where
  "class_score tokens c = length (filter (\<lambda>t. list_ex (\<lambda>marker. contains_sub t marker) (markers_of c)) tokens)"

definition classify_task :: "string \<Rightarrow> task_class" where
  "classify_task text_in =
     (let tokens = normalize_task_text text_in
      in fst (foldl (\<lambda>(best, best_score) c.
                 let score = class_score tokens c
                 in if best_score < score then (c, score) else (best, best_score))
               (Greenfield, 0) all_classes))"

definition OFFSET_BASIS :: "64 word" where
  "OFFSET_BASIS = 0xcbf29ce484222325"

definition FNV_PRIME :: "64 word" where
  "FNV_PRIME = 0x100000001b3"

definition fnv_write :: "64 word \<Rightarrow> nat list \<Rightarrow> 64 word" where
  "fnv_write h bytes = foldl (\<lambda>h b. (h XOR of_nat b) * FNV_PRIME) h bytes"

definition hex_digit :: "nat \<Rightarrow> char" where
  "hex_digit d = (if d < 10 then char_of (48 + d) else char_of (87 + d))"

text \<open>\<^verbatim>\<open>{:016x}\<close>\<close>

definition hex16 :: "64 word \<Rightarrow> string" where
  "hex16 w = map (\<lambda>i. hex_digit (unat (drop_bit (4 * (15 - i)) w AND 0xF))) [0..<16]"

definition task_digest :: "task_class \<Rightarrow> string list \<Rightarrow> 64 word" where
  "task_digest c tokens =
     foldl (\<lambda>h token. fnv_write (fnv_write h (utf8_bytes token)) [10])
       (fnv_write (fnv_write OFFSET_BASIS (utf8_bytes (class_as_str c))) [0]) tokens"

definition task_hash_for_class :: "task_class \<Rightarrow> string \<Rightarrow> string" where
  "task_hash_for_class c text_in = class_as_str c @ '':'' @ hex16 (task_digest c (normalize_task_text text_in))"

definition task_hash :: "string \<Rightarrow> string" where
  "task_hash text_in = task_hash_for_class (classify_task text_in) text_in"

section \<open>Tokens\<close>

definition token_text :: "string \<Rightarrow> bool" where
  "token_text t \<longleftrightarrow> list_all (\<lambda>c. is_alphanumeric c \<and> ascii_lower_char c = c) t"

lemma ascii_lower_alphanumeric: "is_alphanumeric c \<Longrightarrow> is_alphanumeric (ascii_lower_char c)"
  by (auto simp: ascii_lower_char_def is_alphanumeric_def is_ascii_alnum_def is_ascii_alpha_def
      is_ascii_lower_def is_ascii_upper_def code_def)

lemma ascii_lower_idem: "ascii_lower_char (ascii_lower_char c) = ascii_lower_char c"
  by (auto simp: ascii_lower_char_def is_ascii_upper_def code_def)

lemma alphanumeric_not_ws: "is_alphanumeric c \<Longrightarrow> \<not> is_ws c"
  by (auto simp: is_alphanumeric_def is_ws_def is_ascii_alnum_def is_ascii_alpha_def
      is_ascii_lower_def is_ascii_upper_def is_ascii_digit_def)

lemma alphanumeric_not_separator: "is_alphanumeric c \<Longrightarrow> c \<noteq> CHR ''/'' \<and> c \<noteq> CHR 0x5C"
  by (auto simp: is_alphanumeric_def is_ascii_alnum_def is_ascii_alpha_def
      is_ascii_lower_def is_ascii_upper_def is_ascii_digit_def code_def)

lemma word_tokens_shape:
  assumes "t \<in> set (word_tokens w)"
  shows "token_text t \<and> keeps_part t"
proof -
  from assms obtain p candidate where p: "p \<in> set (split_by (\<lambda>c. \<not> is_alphanumeric c) candidate)"
    and t: "t = to_ascii_lowercase p" "keeps_part t"
    by (auto simp: word_tokens_def Let_def split: if_splits)
  have "is_alphanumeric c" if "c \<in> set p" for c using split_by_pieces [OF p that] by simp
  with t show ?thesis
    by (auto simp: token_text_def list_all_iff to_ascii_lowercase_def ascii_lower_alphanumeric ascii_lower_idem)
qed

lemma trim_matches_id:
  assumes "w \<noteq> []" "\<not> P (hd w)" "\<not> P (last w)"
  shows "trim_matches P w = w"
proof -
  have "dropWhile P w = w" using assms by (cases w) auto
  moreover have "dropWhile P (rev w) = rev w" using assms by (cases "rev w") (auto simp: hd_rev [symmetric])
  ultimately show ?thesis by (simp add: trim_matches_def trim_start_matches_def trim_end_matches_def)
qed

lemma word_tokens_token:
  assumes "token_text t" and "keeps_part t"
  shows "word_tokens t = [t]"
proof -
  have ne: "t \<noteq> []" using assms(2) by (auto simp: keeps_part_def utf8_len_def)
  have al: "is_alphanumeric c" if "c \<in> set t" for c using assms(1) that by (simp add: token_text_def list_all_iff)
  have low: "to_ascii_lowercase t = t"
    using assms(1) by (auto simp: token_text_def list_all_iff to_ascii_lowercase_def intro: map_idI)
  have "trim_matches (\<lambda>c. \<not> is_alphanumeric c \<and> c \<noteq> CHR ''/'' \<and> c \<noteq> CHR 0x5C) t = t"
    using ne al by (intro trim_matches_id) auto
  moreover have "basename_of t = t" using al alphanumeric_not_separator by (auto simp: basename_of_def)
  moreover have "split_by (\<lambda>c. \<not> is_alphanumeric c) t = [t]" using al by (intro split_by_none) auto
  ultimately show ?thesis using ne low assms(2) by (simp add: word_tokens_def Let_def keeps_part_def)
qed

lemma split_by_join:
  "ps \<noteq> [] \<Longrightarrow> P d \<Longrightarrow> \<forall>p\<in>set ps. \<forall>c\<in>set p. \<not> P c \<Longrightarrow> split_by P (join_with [d] ps) = ps"
proof (induction "[d]" ps rule: join_with.induct)
  case (2 p)
  then show ?case by (auto intro: split_by_none)
next
  case (3 p q ps)
  then show ?case using split_by_append [of P d p] split_by_none [of p P] by auto
qed simp

lemma split_whitespace_join:
  assumes "\<forall>p\<in>set ps. p \<noteq> [] \<and> (\<forall>c\<in>set p. \<not> is_ws c)"
  shows "split_whitespace (join_with '' '' ps) = ps"
proof (cases "ps = []")
  case False
  have "is_ws CHR '' ''" by code_simp
  with split_by_join [OF False, of is_ws "CHR '' ''"] assms show ?thesis
    by (auto simp: split_whitespace_def intro: filter_True)
qed (simp add: split_whitespace_def)

lemma normalize_cong:
  "set (split_whitespace a) = set (split_whitespace b) \<Longrightarrow> normalize_task_text a = normalize_task_text b"
  by (simp add: normalize_task_text_def btree_list_eq_iff)

lemma normalize_tokens: "t \<in> set (normalize_task_text a) \<Longrightarrow> token_text t \<and> keeps_part t"
  by (auto simp: normalize_task_text_def dest: word_tokens_shape)

lemma normalize_idem: "normalize_task_text (join_with '' '' (normalize_task_text a)) = normalize_task_text a"
proof -
  let ?ts = "normalize_task_text a"
  have "p \<noteq> [] \<and> (\<forall>c\<in>set p. \<not> is_ws c)" if "p \<in> set ?ts" for p
    using normalize_tokens [OF that] alphanumeric_not_ws
    by (auto simp: token_text_def list_all_iff keeps_part_def utf8_len_def)
  then have "split_whitespace (join_with '' '' ?ts) = ?ts" by (intro split_whitespace_join) auto
  moreover have "map word_tokens ?ts = map (\<lambda>t. [t]) ?ts"
    using normalize_tokens word_tokens_token by (intro map_cong) auto
  ultimately have "normalize_task_text (join_with '' '' ?ts) = btree_list (concat (map (\<lambda>t. [t]) ?ts))"
    unfolding normalize_task_text_def [of "join_with '' '' ?ts"] by (simp only:)
  also have "concat (map (\<lambda>t. [t]) ?ts) = ?ts" by (induction ?ts) auto
  finally show ?thesis by (simp add: normalize_task_text_def)
qed

lemma same_tokens: "normalize_task_text a = normalize_task_text b \<Longrightarrow>
    classify_task a = classify_task b \<and> task_hash a = task_hash b"
  by (simp add: task_hash_def task_hash_for_class_def classify_task_def)

text \<open>
  Normalisation is a canonical form. Its tokens are sorted and distinct, each is made of
  lower-case letters and digits, has at least three bytes, is no stop word and no volatile identifier; normalising the
  tokens again changes nothing, and a text has the same key as the line of its tokens.
\<close>

theorem normalization_is_canonical:
  "sorted (normalize_task_text a) \<and> distinct (normalize_task_text a) \<and>
   list_all (\<lambda>t. token_text t \<and> 3 \<le> utf8_len t \<and> t \<notin> set STOPWORDS \<and> \<not> is_volatile_token t) (normalize_task_text a) \<and>
   normalize_task_text (join_with '' '' (normalize_task_text a)) = normalize_task_text a \<and>
   task_hash (join_with '' '' (normalize_task_text a)) = task_hash a"
proof -
  have "list_all (\<lambda>t. token_text t \<and> 3 \<le> utf8_len t \<and> t \<notin> set STOPWORDS \<and> \<not> is_volatile_token t) (normalize_task_text a)"
    unfolding list_all_iff by (auto dest!: normalize_tokens simp: keeps_part_def)
  then show ?thesis using normalize_idem same_tokens [OF normalize_idem] by (simp add: normalize_task_text_def)
qed

text \<open>
  The key does not depend on the order or the repetition of words: two texts with the same set
  of words have the same class and the same key.
\<close>

theorem equivalent_words_share_a_key:
  "set (split_whitespace a) = set (split_whitespace b) \<Longrightarrow>
     classify_task a = classify_task b \<and> task_hash a = task_hash b"
  by (rule same_tokens [OF normalize_cong])

theorem equivalent_words_share_a_key_witness:
  "task_hash ''parser crash crash'' = task_hash ''crash  parser''"
proof -
  have "set (split_whitespace ''parser crash crash'') = set (split_whitespace ''crash  parser'')" by code_simp
  from equivalent_words_share_a_key [OF this] show ?thesis by (rule conjunct2)
qed

section \<open>Directories\<close>

text \<open>A file name that begins and ends with a letter or digit, and a directory before it.\<close>

definition file_word :: "string \<Rightarrow> bool" where
  "file_word w \<longleftrightarrow> w \<noteq> [] \<and> is_alphanumeric (hd w) \<and> is_alphanumeric (last w) \<and>
     list_all (\<lambda>c. \<not> is_ws c \<and> c \<noteq> CHR ''/'' \<and> c \<noteq> CHR 0x5C) w"

definition directory :: "string \<Rightarrow> bool" where
  "directory d \<longleftrightarrow> list_all (\<lambda>c. \<not> is_ws c) d \<and> (d = [] \<or> last d = CHR ''/'' \<or> last d = CHR 0x5C)"

lemma trim_matches_append:
  assumes "\<exists>c\<in>set d. \<not> P c" and "w \<noteq> []" and "\<not> P (last w)"
  shows "trim_matches P (d @ w) = dropWhile P d @ w"
proof -
  have "dropWhile P (d @ w) = dropWhile P d @ w" using assms(1) by (auto intro: dropWhile_append1)
  moreover have "dropWhile P (rev (x @ w)) = rev (x @ w)" for x
    using assms(2,3) by (cases "rev w") (auto simp: hd_rev [symmetric])
  ultimately show ?thesis by (simp add: trim_matches_def trim_start_matches_def trim_end_matches_def)
qed

lemma basename_of_path:
  assumes "file_word w" and "s = CHR ''/'' \<or> s = CHR 0x5C"
  shows "basename_of (d @ s # w) = w"
proof -
  let ?P = "\<lambda>c. c = CHR ''/'' \<or> c = CHR 0x5C"
  have "split_by ?P (d @ s # w) = split_by ?P d @ split_by ?P w" by (rule split_by_append) (rule assms(2))
  moreover have "split_by ?P w = [w]" using assms(1) by (intro split_by_none) (auto simp: file_word_def list_all_iff)
  ultimately have "rev (split_by ?P (d @ s # w)) = w # rev (split_by ?P d)" by simp
  then have "find (\<lambda>segment. segment \<noteq> []) (rev (split_by ?P (d @ s # w))) = Some w"
    using assms(1) by (simp add: file_word_def)
  with assms(2) show ?thesis by (auto simp: basename_of_def)
qed

lemma word_tokens_directory:
  assumes w: "file_word w" and d: "directory d"
  shows "word_tokens (d @ w) = word_tokens w"
proof (cases "d = []")
  case False
  let ?P = "\<lambda>c. \<not> is_alphanumeric c \<and> c \<noteq> CHR ''/'' \<and> c \<noteq> CHR 0x5C"
  obtain e s where e: "d = e @ [s]" and s: "s = CHR ''/'' \<or> s = CHR 0x5C"
    using False d by (cases d rule: rev_cases) (auto simp: directory_def)
  have w': "w \<noteq> []" "\<not> ?P (hd w)" "\<not> ?P (last w)" using w by (auto simp: file_word_def)
  have "trim_matches ?P (d @ w) = dropWhile ?P d @ w"
    using s e w' by (intro trim_matches_append) auto
  also have "dropWhile ?P d = dropWhile ?P e @ [s]" using e s by (auto simp: dropWhile_append)
  finally have t: "trim_matches ?P (d @ w) = dropWhile ?P e @ s # w" by simp
  have b: "basename_of (dropWhile ?P e @ s # w) = w" by (rule basename_of_path [OF w s])
  have "basename_of w = w" using w by (auto simp: basename_of_def file_word_def list_all_iff)
  then show ?thesis
    unfolding word_tokens_def Let_def t trim_matches_id [OF w'] b using w'(1) by simp
qed simp

text \<open>
  Directories do not change the key: putting a directory, in either path style, before any of
  the words of a text leaves its class and its key as they were, so the machine and the checkout
  a task ran in do not show in the corpus.
\<close>

theorem directories_do_not_change_the_key:
  assumes "list_all file_word ws" and "list_all directory ds" and "length ds = length ws"
  shows "classify_task (join_with '' '' (map2 (@) ds ws)) = classify_task (join_with '' '' ws) \<and>
    task_hash (join_with '' '' (map2 (@) ds ws)) = task_hash (join_with '' '' ws)"
proof -
  have in_zip: "directory d \<and> file_word w" if "(d, w) \<in> set (zip ds ws)" for d w
    using that assms(1,2) by (auto simp: list_all_iff dest: set_zip_leftD set_zip_rightD)
  have "p \<noteq> [] \<and> (\<forall>c\<in>set p. \<not> is_ws c)" if "p \<in> set ws" for p
    using that assms(1) by (auto simp: list_all_iff file_word_def)
  then have w: "split_whitespace (join_with '' '' ws) = ws" by (intro split_whitespace_join) auto
  have "p \<noteq> [] \<and> (\<forall>c\<in>set p. \<not> is_ws c)" if "p \<in> set (map2 (@) ds ws)" for p
    using that in_zip by (auto simp: list_all_iff file_word_def directory_def)
  then have dw: "split_whitespace (join_with '' '' (map2 (@) ds ws)) = map2 (@) ds ws"
    by (intro split_whitespace_join) auto
  have "map word_tokens (map2 (@) ds ws) = map (word_tokens \<circ> snd) (zip ds ws)"
    using in_zip word_tokens_directory by (auto simp: split_beta)
  also have "\<dots> = map word_tokens ws" using assms(3) by (simp flip: map_map)
  finally have "normalize_task_text (join_with '' '' (map2 (@) ds ws)) = normalize_task_text (join_with '' '' ws)"
    unfolding normalize_task_text_def w dw by (simp only:)
  then show ?thesis by (rule same_tokens)
qed

theorem directories_do_not_change_the_key_witness:
  "task_hash ''/home/x/src/lib.rs'' = task_hash ''lib.rs''"
proof -
  have "list_all file_word [''lib.rs'']" "list_all directory [''/home/x/src/'']" by code_simp+
  note same = directories_do_not_change_the_key [OF this, THEN conjunct2]
  have "join_with '' '' (map2 (@) [''/home/x/src/''] [''lib.rs'']) = ''/home/x/src/lib.rs''"
    "join_with '' '' [''lib.rs''] = ''lib.rs''" "length [''/home/x/src/''] = length [''lib.rs'']" by simp_all
  with same show ?thesis by metis
qed

section \<open>Classification and rendering\<close>

lemma parse_class_round_trip: "parse_class v = Some c \<longleftrightarrow> v = class_as_str c"
  by (cases c) (auto simp: parse_class_def)

definition majority :: "(task_class \<Rightarrow> nat) \<Rightarrow> task_class list \<Rightarrow> task_class \<times> nat" where
  "majority score cs =
     foldl (\<lambda>(best, best_score) c. if best_score < score c then (c, score c) else (best, best_score))
       (Greenfield, 0) cs"

lemma majority_snoc: "majority score (cs @ [c]) =
    (if snd (majority score cs) < score c then (c, score c) else majority score cs)"
  by (simp add: majority_def split_beta)

definition first_above :: "(task_class \<Rightarrow> nat) \<Rightarrow> task_class list \<Rightarrow> task_class \<Rightarrow> nat \<Rightarrow> bool" where
  "first_above score cs b v \<longleftrightarrow> (\<exists>pre post. cs = pre @ b # post \<and> (\<forall>c\<in>set pre. score c < v))"

lemma majority_wins:
  "(\<forall>c\<in>set cs. score c \<le> snd (majority score cs)) \<and>
   (majority score cs = (Greenfield, 0) \<or>
    0 < snd (majority score cs) \<and> snd (majority score cs) = score (fst (majority score cs)) \<and>
    first_above score cs (fst (majority score cs)) (snd (majority score cs)))"
proof (induction cs rule: rev_induct)
  case (snoc c cs)
  show ?case
  proof (cases "snd (majority score cs) < score c")
    case True
    with snoc have "\<forall>d\<in>set cs. score d < score c" by (meson le_less_trans)
    with True show ?thesis by (auto simp: majority_snoc less_imp_le first_above_def)
  next
    case False
    then have m: "majority score (cs @ [c]) = majority score cs" by (simp add: majority_snoc)
    have "first_above score (cs @ [c]) b v" if "first_above score cs b v" for b v
      using that unfolding first_above_def by (metis append_Cons append_assoc)
    with snoc False show ?thesis unfolding m by auto
  qed
qed (simp add: majority_def)

lemma classify_task_majority: "classify_task a = fst (majority (class_score (normalize_task_text a)) all_classes)"
  by (simp add: classify_task_def majority_def Let_def)

text \<open>
  Classification is by majority: a text goes to a class with the most marker votes; a class
  declared before it has fewer votes, unless there are no votes at all, and then the text goes
  to greenfield.
\<close>

theorem classification_is_by_majority:
  "(\<forall>c. class_score (normalize_task_text a) c \<le> class_score (normalize_task_text a) (classify_task a)) \<and>
   {c \<in> set (takeWhile (\<lambda>d. d \<noteq> classify_task a) all_classes).
       class_score (normalize_task_text a) (classify_task a) \<le> class_score (normalize_task_text a) c}
     \<subseteq> {c. class_score (normalize_task_text a) c = 0} \<and>
   (classify_task a = Greenfield \<or> 0 < class_score (normalize_task_text a) (classify_task a))"
proof -
  let ?s = "class_score (normalize_task_text a)" and ?m = "majority (class_score (normalize_task_text a)) all_classes"
  have all: "c \<in> set all_classes" for c by (cases c) (simp_all add: all_classes_def)
  have d: "distinct all_classes" by (simp add: all_classes_def)
  have le: "?s c \<le> snd ?m" for c using majority_wins [of all_classes ?s] all by blast
  from majority_wins [of all_classes ?s]
  consider (none) "?m = (Greenfield, 0)"
    | (some) pre post where "0 < snd ?m" "snd ?m = ?s (fst ?m)" "all_classes = pre @ fst ?m # post"
      "\<forall>c\<in>set pre. ?s c < snd ?m" unfolding first_above_def by blast
  then show ?thesis
  proof cases
    case none
    with le have "?s c = 0" for c by (metis le_zero_eq snd_conv)
    with none show ?thesis by (auto simp: classify_task_majority)
  next
    case some
    with d have "fst ?m \<notin> set pre" by (metis distinct_append disjoint_iff list.set_intros(1))
    then have "takeWhile (\<lambda>d. d \<noteq> fst ?m) (pre @ fst ?m # post) = pre" by (induction pre) auto
    with some have pre: "takeWhile (\<lambda>d. d \<noteq> fst ?m) all_classes = pre" by metis
    from le some(2) have "\<forall>c. ?s c \<le> ?s (fst ?m)" by simp
    moreover have "{c \<in> set pre. ?s (fst ?m) \<le> ?s c} = {}" using some(2,4) by auto
    ultimately show ?thesis using some(1,2) unfolding classify_task_majority pre by (simp only:) simp
  qed
qed

lemma nibble_mask: "(0xF :: 64 word) = mask 4"
  by (simp add: mask_eq_exp_minus_1)

lemma nibble_bound: "unat (x AND 0xF :: 64 word) < 16"
  unfolding nibble_mask take_bit_eq_mask [symmetric] unsigned_take_bit_eq
  using take_bit_nat_less_exp [of 4 "unat x"] by simp

lemma hex_digit_inject: "a < 16 \<Longrightarrow> b < 16 \<Longrightarrow> hex_digit a = hex_digit b \<Longrightarrow> a = b"
proof -
  have "list_all (\<lambda>a. list_all (\<lambda>b. hex_digit a = hex_digit b \<longrightarrow> a = b) [0..<16]) [0..<16]" by code_simp
  then show "a < 16 \<Longrightarrow> b < 16 \<Longrightarrow> hex_digit a = hex_digit b \<Longrightarrow> a = b" by (auto simp: list_all_iff)
qed

lemma hex16_inject: "hex16 v = hex16 w \<longleftrightarrow> v = w"
proof
  assume eq: "hex16 v = hex16 w"
  show "v = w"
  proof (rule bit_eqI)
    fix n
    assume "possible_bit TYPE(64 word) n"
    then have n: "n < 64" by (simp add: possible_bit_word)
    define i where "i = 15 - n div 4"
    have i: "i < 16" "15 - i = n div 4" using n by (auto simp: i_def)
    have "hex16 v ! i = hex16 w ! i" by (simp add: eq)
    with i have "unat (drop_bit (4 * (n div 4)) v AND 0xF) = unat (drop_bit (4 * (n div 4)) w AND 0xF)"
      by (intro hex_digit_inject nibble_bound) (simp add: hex16_def)
    then have "drop_bit (4 * (n div 4)) v AND 0xF = drop_bit (4 * (n div 4)) w AND 0xF"
      by (rule word_unat_eq_iff [THEN iffD2])
    then have "bit (drop_bit (4 * (n div 4)) v AND 0xF) (n mod 4) = bit (drop_bit (4 * (n div 4)) w AND 0xF) (n mod 4)"
      by simp
    moreover have "bit (0xF :: 64 word) (n mod 4)"
      unfolding nibble_mask by (simp add: bit_mask_iff possible_bit_word)
    moreover have "4 * (n div 4) + n mod 4 = n" by simp
    ultimately show "bit v n = bit w n" by (simp add: bit_and_iff bit_drop_bit_eq)
  qed
qed simp

text \<open>
  The key can be read back: it is the class, a colon and sixteen hexadecimal digits; the text
  before the colon parses to the class; and two keys are equal exactly when the classes and the
  64-bit digests are, so the same words under another class never share a key.
\<close>

theorem task_key_reads_back:
  "parse_class (takeWhile (\<lambda>ch. ch \<noteq> CHR '':'') (task_hash_for_class c a)) = Some c \<and>
   length (task_hash_for_class c a) = length (class_as_str c) + 17 \<and>
   (task_hash_for_class c a = task_hash_for_class d b \<longleftrightarrow>
      c = d \<and> task_digest c (normalize_task_text a) = task_digest d (normalize_task_text b))"
proof -
  have colon: "takeWhile (\<lambda>ch. ch \<noteq> CHR '':'') (class_as_str e @ '':'' @ x) = class_as_str e" for e x
    by (cases e) simp_all
  have key: "takeWhile (\<lambda>ch. ch \<noteq> CHR '':'') (task_hash_for_class e x) = class_as_str e" for e x
    by (simp only: task_hash_for_class_def colon)
  have inj: "class_as_str x = class_as_str y \<Longrightarrow> x = y" for x y
    by (metis parse_class_round_trip option.inject)
  have "c = d" if "task_hash_for_class c a = task_hash_for_class d b" using key inj that by metis
  moreover have "length (task_hash_for_class c a) = length (class_as_str c) + 17"
    by (simp add: task_hash_for_class_def hex16_def)
  ultimately show ?thesis
    unfolding key parse_class_round_trip by (auto simp: task_hash_for_class_def hex16_inject)
qed

end
