(* ===== verification/Team_Plan.thy ===== *)
theory Team_Plan imports Topo_Waves begin

text \<open>
  The planning half of \<^verbatim>\<open>crates/archon-core/src/orchestrator.rs\<close>: the subtasks of a team
  (\<^verbatim>\<open>orchestrator/events.rs\<close>, \<^verbatim>\<open>config.rs\<close>), their lowering into the task graph
  (\<^verbatim>\<open>orchestrator/topology.rs\<close>), and the order the waves give them (\<^verbatim>\<open>scheduling.rs\<close>), with the
  declared permission format of \<^verbatim>\<open>archon-topology/src/permission.rs\<close> that the lowering shares
  its classes with. The lemmas show that the flattened waves are an execution order of the
  subtasks and what the plan of each execution mode looks like.
\<close>

section \<open>Declared permissions\<close>

datatype permission_level = LevelSafe | LevelRisky | LevelDangerous

definition DECLARED_PERMISSION_LEVELS :: "string list" where
  "DECLARED_PERMISSION_LEVELS = [''safe'', ''risky'', ''dangerous'']"

definition from_declared :: "string \<Rightarrow> permission_class option" where
  "from_declared raw =
     (let declared = to_ascii_lowercase (trim raw)
      in if declared = ''safe'' then Some PSafe
         else if declared = ''risky'' then Some PRisky
         else if declared = ''dangerous'' \<or> declared = ''irreversible'' then Some PIrreversible
         else None)"

definition as_declared :: "permission_class \<Rightarrow> string" where
  "as_declared c =
     (case c of PSafe \<Rightarrow> ''safe'' | PRisky \<Rightarrow> ''risky'' | PIrreversible \<Rightarrow> ''dangerous'')"

definition is_declared_permission :: "string \<Rightarrow> bool" where
  "is_declared_permission raw \<longleftrightarrow> from_declared raw \<noteq> None"

definition permission_class_for_level :: "permission_level \<Rightarrow> permission_class" where
  "permission_class_for_level l =
     (case l of
        LevelSafe \<Rightarrow> PSafe
      | LevelRisky \<Rightarrow> PRisky
      | LevelDangerous \<Rightarrow> PIrreversible)"

section \<open>Subtasks and teams\<close>

datatype subtask_status = Pending | Running | Complete string | Failed string | Cancelled

record subtask =
  subtask_id :: string
  subtask_description :: string
  subtask_agent_type :: string
  subtask_dependencies :: "string list"
  subtask_status :: subtask_status
  subtask_retries :: u32
  subtask_max_retries :: u32

definition new_subtask :: "string \<Rightarrow> string \<Rightarrow> string \<Rightarrow> subtask" where
  "new_subtask i description agent_type =
     \<lparr>subtask_id = i, subtask_description = description, subtask_agent_type = agent_type,
      subtask_dependencies = [], subtask_status = Pending, subtask_retries = 0,
      subtask_max_retries = 2\<rparr>"

datatype execution_mode = Sequential | Parallel | Pipeline | Dag

record team_config =
  team_name :: string
  team_coordinator :: string
  team_agents :: "string list"
  team_mode :: execution_mode
  team_max_retries :: u32

definition default_team :: team_config where
  "default_team =
     \<lparr>team_name = [], team_coordinator = [], team_agents = [], team_mode = Sequential,
      team_max_retries = 2\<rparr>"

definition DEFAULT_MAX_AGENTS :: u32 where
  "DEFAULT_MAX_AGENTS = 200"

record orchestrator_config =
  max_concurrent :: u32
  max_agents :: u32
  timeout_secs :: "64 word"
  config_max_retries :: u32

definition default_orchestrator :: orchestrator_config where
  "default_orchestrator =
     \<lparr>max_concurrent = 4, max_agents = DEFAULT_MAX_AGENTS, timeout_secs = 300, config_max_retries = 2\<rparr>"

text \<open>The first part of \<^verbatim>\<open>run_team\<close>: one subtask per agent type.\<close>

definition task_name :: "nat \<Rightarrow> string" where
  "task_name i = ''task-'' @ show_nat i"

definition initial_subtask :: "execution_mode \<Rightarrow> string \<Rightarrow> nat \<times> string \<Rightarrow> subtask" where
  "initial_subtask mode goal = (\<lambda>(i, agent_type).
     let t = new_subtask (task_name i) (goal @ '' [assigned to '' @ agent_type @ '']'') agent_type
     in if (mode = Pipeline \<or> mode = Dag) \<and> 0 < i
        then t\<lparr>subtask_dependencies := subtask_dependencies t @ [task_name (i - 1)]\<rparr> else t)"

definition initial_subtasks :: "team_config \<Rightarrow> string \<Rightarrow> subtask list" where
  "initial_subtasks team goal = map (initial_subtask (team_mode team) goal) (enumerate 0 (team_agents team))"

section \<open>Lowering and planning\<close>

definition lower_subtask :: "subtask \<Rightarrow> task_node" where
  "lower_subtask t =
     (new_node (subtask_id t) WorkNode)
       \<lparr>depends_on := subtask_dependencies t, node_agent := Some (subtask_agent_type t)\<rparr>"

definition lower_subtasks :: "subtask list \<Rightarrow> string \<Rightarrow> task_graph" where
  "lower_subtasks ts session_id =
     \<lparr>graph_id = session_id, graph_origin = TeamOrigin session_id, nodes = map lower_subtask ts,
      graph_budget = default_budget
        \<lparr>budget_max_agents := (case u32_try_from (length ts) of Some n \<Rightarrow> n | None \<Rightarrow> u32_max),
         budget_max_rounds :=
           (case map (\<lambda>t. u32_saturating_add (subtask_max_retries t) 1) ts of
              [] \<Rightarrow> 1
            | r # rs \<Rightarrow> foldl max r rs)\<rparr>\<rparr>"

definition subtask_error :: "topology_error \<Rightarrow> string" where
  "subtask_error e =
     (case e of
        UnknownDependencyOf node dependency \<Rightarrow>
          ''subtask '' @ quoted node @ '' depends on unknown subtask '' @ quoted dependency
      | CycleFound \<Rightarrow> ''dependency cycle detected in subtask graph''
      | DuplicateNode i \<Rightarrow> ''duplicate subtask id '' @ quoted i @ '' in subtask graph'')"

definition build_dag_waves :: "toposort \<Rightarrow> subtask list \<Rightarrow> string + string list list" where
  "build_dag_waves topo ts = map_sum subtask_error id (waves topo (lower_subtasks ts []))"

definition plan :: "toposort \<Rightarrow> subtask list \<Rightarrow> string \<Rightarrow> u32 \<Rightarrow> string + task_graph \<times> string list list" where
  "plan topo ts session_id max_parallelism =
     (let graph = lower_subtasks ts session_id;
          graph = graph\<lparr>graph_budget := (task_graph.graph_budget graph)\<lparr>budget_max_parallelism := max_parallelism\<rparr>\<rparr>
      in map_sum subtask_error (Pair graph) (waves topo graph))"

section \<open>Wave resolution and contexts\<close>

definition subtask_named :: "subtask list \<Rightarrow> string \<Rightarrow> subtask option" where
  "subtask_named ts i = find (\<lambda>t. subtask_id t = i) ts"

definition flatten_waves :: "subtask list \<Rightarrow> string list list \<Rightarrow> subtask list" where
  "flatten_waves ts ws = List.map_filter (subtask_named ts) (concat ws)"

definition dependency_context :: "subtask \<Rightarrow> (string \<Rightarrow> string option) \<Rightarrow> string" where
  "dependency_context t completed =
     join_with [CHR 0x0A] (List.map_filter completed (subtask_dependencies t))"

section \<open>Flattened waves are an execution order\<close>

definition dependencies_first :: "subtask list \<Rightarrow> bool" where
  "dependencies_first ts \<longleftrightarrow>
     list_all (\<lambda>i. set (subtask_dependencies (ts ! i)) \<subseteq> subtask_id ` set (take i ts)) [0..<length ts]"

lemma lower_subtask_simps [simp]:
  "node_id (lower_subtask t) = subtask_id t" "depends_on (lower_subtask t) = subtask_dependencies t"
  by (simp_all add: lower_subtask_def new_node_def)

lemma nodes_lower_subtasks [simp]: "nodes (lower_subtasks ts s) = map lower_subtask ts"
  by (simp add: lower_subtasks_def)

lemma waves_of_nodes: "nodes g = nodes h \<Longrightarrow> waves topo g = waves topo h"
  unfolding waves_def build_def depths_def node_depth_def by (erule ssubst) (rule refl)

lemma plan_waves: "plan topo ts s m = map_sum subtask_error (Pair ((lower_subtasks ts s)
    \<lparr>graph_budget := (task_graph.graph_budget (lower_subtasks ts s))\<lparr>budget_max_parallelism := m\<rparr>\<rparr>))
    (waves topo ((new_graph [] (TeamOrigin []))\<lparr>nodes := map lower_subtask ts\<rparr>))"
  unfolding plan_def Let_def by (rule arg_cong [OF waves_of_nodes]) simp

lemma plan_Inr:
  assumes "plan topo ts s m = Inr (g, ws)"
  shows "nodes g = map lower_subtask ts" and "waves topo g = Inr ws"
    and "budget_max_parallelism (task_graph.graph_budget g) = m"
  using assms by (auto simp: plan_def Let_def map_sum_def split: sum.splits)

lemma subtask_named_member:
  assumes "distinct (map subtask_id ts)" and "t \<in> set ts"
  shows "subtask_named ts (subtask_id t) = Some t"
proof -
  obtain t' where t': "subtask_named ts (subtask_id t) = Some t'"
    using find_exists [OF assms(2), of "\<lambda>x. subtask_id x = subtask_id t"] by (auto simp: subtask_named_def)
  then have "t' \<in> set ts" "subtask_id t' = subtask_id t"
    by (auto simp: subtask_named_def dest: find_Some_iff_set)
  with assms t' show ?thesis by (metis distinct_map inj_onD)
qed

lemma subtask_named_id: "subtask_named ts i = Some t \<Longrightarrow> t \<in> set ts \<and> subtask_id t = i"
  by (auto simp: subtask_named_def dest: find_Some_iff_set)

lemma map_filter_total:
  "list_all (\<lambda>x. f x \<noteq> None) xs \<Longrightarrow> List.map_filter f xs = map (\<lambda>x. the (f x)) xs"
  by (induction xs) (auto simp: List.map_filter_simps)

text \<open>An element of an earlier list comes earlier in the concatenation.\<close>

lemma concat_order:
  assumes "distinct (concat ws)" and "a < b" "b < length ws" and "x \<in> set (ws ! a)"
    and "p < length (concat ws)" and "concat ws ! p \<in> set (ws ! b)"
  shows "x \<in> set (take p (concat ws))"
proof -
  let ?pre = "concat (take b ws)"
  have split: "concat ws = ?pre @ ws ! b @ concat (drop (Suc b) ws)"
    by (metis assms(3) concat.simps(2) concat_append id_take_nth_drop)
  have "length ?pre \<le> p"
  proof (rule ccontr)
    assume "\<not> length ?pre \<le> p"
    then have lt: "p < length ?pre" by simp
    then have "concat ws ! p = ?pre ! p" by (subst split) (simp add: nth_append)
    with lt have "concat ws ! p \<in> set ?pre" using nth_mem [of p ?pre] by simp
    moreover have "set ?pre \<inter> set (ws ! b) = {}"
      using assms(1) unfolding split distinct_append by auto
    ultimately show False using assms(6) by blast
  qed
  then have "set ?pre \<subseteq> set (take p (concat ws))" by (subst split) simp
  moreover have "ws ! a \<in> set (take b ws)"
    using assms(2,3) by (auto simp: set_conv_nth intro!: exI [of _ a])
  then have "x \<in> set ?pre" using assms(4) by auto
  ultimately show ?thesis by blast
qed

lemma flatten_waves_ids:
  assumes "distinct (map subtask_id ts)" and "set (concat ws) \<subseteq> subtask_id ` set ts"
  shows "map subtask_id (flatten_waves ts ws) = concat ws"
    and "flatten_waves ts ws = map (\<lambda>i. the (subtask_named ts i)) (concat ws)"
proof -
  have named: "list_all (\<lambda>i. \<exists>t. subtask_named ts i = Some t \<and> subtask_id t = i) (concat ws)"
    unfolding list_all_iff
  proof
    fix i assume "i \<in> set (concat ws)"
    with assms(2) obtain t where "t \<in> set ts" "subtask_id t = i" by blast
    with subtask_named_member [OF assms(1)] show "\<exists>t. subtask_named ts i = Some t \<and> subtask_id t = i" by blast
  qed
  then show "flatten_waves ts ws = map (\<lambda>i. the (subtask_named ts i)) (concat ws)"
    unfolding flatten_waves_def by (intro map_filter_total) (auto simp: list_all_iff)
  then have "map subtask_id (flatten_waves ts ws) = map (\<lambda>i. subtask_id (the (subtask_named ts i))) (concat ws)"
    by simp
  also have "\<dots> = concat ws"
  proof (rule map_idI)
    fix i assume "i \<in> set (concat ws)"
    with named have "\<exists>t. subtask_named ts i = Some t \<and> subtask_id t = i" unfolding list_all_iff by blast
    then show "subtask_id (the (subtask_named ts i)) = i" by auto
  qed
  finally show "map subtask_id (flatten_waves ts ws) = concat ws" .
qed

context petgraph_toposort
begin

lemma planned_waves:
  assumes "nodes g = map lower_subtask ts" and "waves topo g = Inr ws"
  shows "distinct (map subtask_id ts)" and "mset (concat ws) = mset (map subtask_id ts)"
    and "distinct (concat ws)"
    and "i < length ts \<Longrightarrow> d \<in> set (subtask_dependencies (ts ! i)) \<Longrightarrow>
      \<exists>a b. a < b \<and> b < length ws \<and> d \<in> set (ws ! a) \<and> subtask_id (ts ! i) \<in> set (ws ! b)"
proof -
  from assms(2) obtain ix where ix: "build topo g = Inr ix" by (auto simp: waves_def split: sum.splits)
  from build_Inr(1) [OF ix] have wf: "distinct (map subtask_id ts)"
    "list_all (\<lambda>t. set (subtask_dependencies t) \<subseteq> subtask_id ` set ts) ts"
    by (auto simp: well_formed_def unique_ids_def known_deps_def assms(1) comp_def list_all_iff image_image)
  from waves_contract [OF assms(2)] show m: "mset (concat ws) = mset (map subtask_id ts)"
    by (simp add: assms(1) comp_def)
  show "distinct (map subtask_id ts)" by (fact wf(1))
  with m show "distinct (concat ws)" by (metis mset_eq_imp_distinct_iff)
  assume i: "i < length ts" "d \<in> set (subtask_dependencies (ts ! i))"
  with wf(2) have "d \<in> subtask_id ` set ts" by (auto simp: list_all_length)
  then obtain j where j: "j < length ts" "subtask_id (ts ! j) = d" by (auto simp: in_set_conv_nth)
  with i have "(j, i) \<in> dep_rel g" by (auto simp: dep_rel_def assms(1))
  with waves_contract [OF assms(2)] obtain a b where "a < b" "in_wave ws g a j" "in_wave ws g b i" by blast
  with i j show "\<exists>a b. a < b \<and> b < length ws \<and> d \<in> set (ws ! a) \<and> subtask_id (ts ! i) \<in> set (ws ! b)"
    by (auto simp: in_wave_def assms(1))
qed

lemma flatten_contract:
  assumes "nodes g = map lower_subtask ts" and "waves topo g = Inr ws"
  shows "mset (flatten_waves ts ws) = mset ts" and "dependencies_first (flatten_waves ts ws)"
proof -
  note w = planned_waves [OF assms]
  have sub: "set (concat ws) \<subseteq> subtask_id ` set ts"
    using w(2) by (metis list.set_map order_refl set_mset_mset)
  note flat = flatten_waves_ids [OF w(1) sub]
  have "mset (flatten_waves ts ws) = image_mset (\<lambda>i. the (subtask_named ts i)) (mset (map subtask_id ts))"
    unfolding flat(2) using w(2) by simp
  also have "\<dots> = mset (map (\<lambda>t. the (subtask_named ts (subtask_id t))) ts)" by (simp add: image_mset.compositionality comp_def)
  also have "map (\<lambda>t. the (subtask_named ts (subtask_id t))) ts = ts"
    using subtask_named_member [OF w(1)] by (intro map_idI) simp
  finally show perm: "mset (flatten_waves ts ws) = mset ts" .
  let ?fs = "flatten_waves ts ws"
  have len: "length ?fs = length (concat ws)" by (metis flat(1) length_map)
  show "dependencies_first ?fs"
    unfolding dependencies_first_def list_all_iff
  proof (intro ballI subsetI)
    fix p d
    assume "p \<in> set [0..<length ?fs]" and d: "d \<in> set (subtask_dependencies (?fs ! p))"
    then have p: "p < length ?fs" by simp
    then have "?fs ! p \<in> set ts" using perm by (metis nth_mem set_mset_mset)
    then obtain i where i: "i < length ts" "ts ! i = ?fs ! p" by (auto simp: in_set_conv_nth)
    with d w(4) obtain a b where ab: "a < b" "b < length ws" "d \<in> set (ws ! a)"
      "subtask_id (?fs ! p) \<in> set (ws ! b)" by metis
    have "concat ws ! p = subtask_id (?fs ! p)" using p flat(1) by (metis nth_map)
    with ab p len have "d \<in> set (take p (concat ws))"
      by (intro concat_order [OF w(3) ab(1,2,3)]) simp_all
    then show "d \<in> subtask_id ` set (take p ?fs)" by (metis flat(1) list.set_map take_map)
  qed
qed

end

text \<open>
  The order in which a planned team is run is a dependency order of exactly its subtasks:
  flattening the waves gives every subtask once, and each comes after everything it depends on.
\<close>

theorem planned_order_respects_dependencies:
  assumes "petgraph_toposort topo" and "plan topo ts session m = Inr (g, ws)"
  shows "mset (flatten_waves ts ws) = mset ts \<and> dependencies_first (flatten_waves ts ws)"
  using petgraph_toposort.flatten_contract [OF assms(1) plan_Inr(1,2) [OF assms(2)]] by blast

definition waits_for :: "string \<Rightarrow> string list \<Rightarrow> subtask" where
  "waits_for i ds = (new_subtask i ''work'' ''coder'')\<lparr>subtask_dependencies := ds\<rparr>"

theorem planned_order_respects_dependencies_witness:
  "dependencies_first (flatten_waves [waits_for ''c'' [''a'', ''b''], waits_for ''a'' [], waits_for ''b'' [''a'']]
     [[''a''], [''b''], [''c'']])"
proof -
  have "waves kahn_positions ((new_graph [] (TeamOrigin []))\<lparr>nodes := map lower_subtask
      [waits_for ''c'' [''a'', ''b''], waits_for ''a'' [], waits_for ''b'' [''a'']]\<rparr>) = Inr [[''a''], [''b''], [''c'']]"
    by code_simp
  then obtain g where "plan kahn_positions [waits_for ''c'' [''a'', ''b''], waits_for ''a'' [], waits_for ''b'' [''a'']] ''s'' 4
    = Inr (g, [[''a''], [''b''], [''c'']])" by (simp add: plan_waves)
  from planned_order_respects_dependencies [OF kahn.petgraph_toposort_axioms this] show ?thesis by blast
qed

section \<open>The plan of each execution mode\<close>

definition is_chained :: "execution_mode \<Rightarrow> bool" where
  "is_chained mode \<longleftrightarrow> mode = Pipeline \<or> mode = Dag"

lemma length_initial_subtasks [simp]: "length (initial_subtasks team goal) = length (team_agents team)"
  by (simp add: initial_subtasks_def)

lemma nth_initial_subtask:
  assumes "i < length (team_agents team)"
  shows "subtask_id (initial_subtasks team goal ! i) = task_name i"
    and "subtask_dependencies (initial_subtasks team goal ! i) =
      (if is_chained (team_mode team) \<and> 0 < i then [task_name (i - 1)] else [])"
  using assms by (simp_all add: initial_subtasks_def initial_subtask_def nth_enumerate_eq Let_def
      new_subtask_def is_chained_def)

lemma task_name_inject [simp]: "task_name i = task_name j \<longleftrightarrow> i = j"
  by (simp add: task_name_def)

lemma initial_ids: "map subtask_id (initial_subtasks team goal) = map task_name [0..<length (team_agents team)]"
  by (rule nth_equalityI) (simp_all add: nth_initial_subtask)

lemma level_of_identity: "k < n \<Longrightarrow> filter (\<lambda>i. [0..<n] ! i = k) [0..<n] = [k]"
proof -
  assume k: "k < n"
  have "filter (\<lambda>i. [0..<n] ! i = k) [0..<n] = filter (\<lambda>i. i = k) [0..<n]"
    by (intro filter_cong) simp_all
  moreover have "filter (\<lambda>i. i = k) [0..<n] = [k]" using k by (induction n) (auto simp: less_Suc_eq)
  ultimately show ?thesis by simp
qed

context petgraph_toposort
begin

lemma initial_waves:
  assumes g: "nodes g = map lower_subtask (initial_subtasks team goal)"
    and n: "n = length (team_agents team)"
  shows "waves topo g = Inr (if is_chained (team_mode team) then map (\<lambda>i. [task_name i]) [0..<n]
    else if n = 0 then [] else [map task_name [0..<n]])"
proof -
  let ?c = "is_chained (team_mode team)"
  have len: "length (nodes g) = n" by (simp add: g n)
  have ids: "node_id (nodes g ! i) = task_name i" if "i < n" for i
    using that nth_initial_subtask(1) by (simp add: g n)
  have deps: "depends_on (nodes g ! i) = (if ?c \<and> 0 < i then [task_name (i - 1)] else [])" if "i < n" for i
    using that nth_initial_subtask(2) by (simp add: g n)
  have rel: "dep_rel g = {(j, i). i < n \<and> ?c \<and> Suc j = i}"
    unfolding dep_rel_def len by (auto simp: ids deps)
  have "well_formed g"
    unfolding well_formed_def
  proof (intro conjI)
    show "unique_ids g"
      unfolding unique_ids_def g by (simp add: comp_def initial_ids distinct_map inj_on_def)
    have "task_name i \<in> node_id ` set (nodes g)" if "i < n" for i
      using that ids len by (metis imageI nth_mem)
    then show "known_deps g"
      unfolding known_deps_def list_all_length len by (auto simp: deps)
    have "dep_rel g \<subseteq> {(j, i). j < i}" unfolding rel by auto
    moreover have "acyclic {(j :: nat, i). j < i}" using wf_acyclic [OF wf_less] by simp
    ultimately show "acyclic (dep_rel g)" by (rule acyclic_subset [rotated])
  qed
  from build_well_formed [OF this] obtain ix where ix: "build topo g = Inr ix" by blast
  let ?ds = "depths ix g"
  have "?ds ! i = (if ?c then i else 0)" if "i < n" for i
    using that
  proof (induction i)
    case 0
    then show ?case using depth_has_pred [OF ix, of 0] len rel by auto
  next
    case (Suc i)
    show ?case
    proof (cases "?c")
      case True
      then have "depth_from g ?ds (Suc i) = ?ds ! i + 1"
        unfolding depth_from_def preds_def rel using Suc.prems by simp
      with True Suc depths_equation(2) [OF ix, of "Suc i"] len show ?thesis by simp
    next
      case False
      then show ?thesis using depth_has_pred [OF ix, of "Suc i"] Suc.prems len rel by auto
    qed
  qed
  then have ds: "?ds = (if ?c then [0..<n] else replicate n 0)"
    using depths_equation(1) [OF ix] len by (intro nth_equalityI) auto
  have names: "map (\<lambda>i. node_id (nodes g ! i)) xs = map task_name xs" if "set xs \<subseteq> {..<n}" for xs
    using that ids by (intro map_cong) auto
  show ?thesis
  proof (cases "n = 0")
    case True
    with len show ?thesis using waves_levels [OF ix] by simp
  next
    case False
    then have ne: "nodes g \<noteq> []" using len by auto
    have levels: "level g ?ds k = (if ?c then [k] else [0..<n])" if "k < (if ?c then n else 1)" for k
      using that level_of_identity [of k n] unfolding level_def len ds by (auto intro: filter_True)
    have "Max (set ?ds) + 1 = (if ?c then n else 1)"
    proof (cases "?c")
      case True
      with False have "Max (set ?ds) = n - 1" unfolding ds by (intro Max_eqI) auto
      with True False show ?thesis by simp
    next
      case False
      with \<open>n \<noteq> 0\<close> show ?thesis unfolding ds by simp
    qed
    then have "waves topo g = Inr (map (\<lambda>k. map task_name (if ?c then [k] else [0..<n])) [0..<(if ?c then n else 1)])"
      using waves_levels [OF ix] ne levels ids by (auto intro!: map_cong)
    with False show ?thesis by auto
  qed
qed

end

text \<open>
  A team always gets a plan: the pipeline and dag modes run one subtask per wave in the order
  of the team, the other two modes run all in one wave, and flattening the waves gives back the
  subtasks in their original order.
\<close>

theorem every_team_has_a_plan:
  assumes "petgraph_toposort topo" and "n = length (team_agents team)"
    and "ws = (if team_mode team = Pipeline \<or> team_mode team = Dag then map (\<lambda>i. [task_name i]) [0..<n]
      else if n = 0 then [] else [map task_name [0..<n]])"
  shows "map_sum id snd (plan topo (initial_subtasks team goal) session m) = Inr ws
    \<and> flatten_waves (initial_subtasks team goal) ws = initial_subtasks team goal"
proof -
  let ?ts = "initial_subtasks team goal"
  have planned: "waves topo ((new_graph [] (TeamOrigin []))\<lparr>nodes := map lower_subtask ?ts\<rparr>) = Inr ws"
    using petgraph_toposort.initial_waves [OF assms(1) _ assms(2)] assms(3) by (simp add: is_chained_def)
  have distinct: "distinct (map subtask_id ?ts)"
    by (simp add: initial_ids distinct_map inj_on_def)
  have ids: "concat ws = map subtask_id ?ts"
    by (auto simp: assms(2,3) initial_ids concat_map_singleton)
  then have "flatten_waves ?ts ws = map (\<lambda>i. the (subtask_named ?ts i)) (map subtask_id ?ts)"
    using flatten_waves_ids(2) [OF distinct, of ws] by simp
  then have "flatten_waves ?ts ws = ?ts"
    using subtask_named_member [OF distinct] by (simp add: comp_def map_idI)
  with planned show ?thesis by (simp add: plan_waves)
qed

theorem every_team_has_a_plan_witness:
  "map_sum id snd (plan kahn_positions
     (initial_subtasks (default_team\<lparr>team_agents := [''planner'', ''coder''], team_mode := Pipeline\<rparr>) ''ship'') ''s'' 4)
   = Inr [[''task-0''], [''task-1'']]"
proof -
  have names: "task_name 0 = ''task-0''" "task_name (Suc 0) = ''task-1''" by code_simp+
  show ?thesis
    using every_team_has_a_plan [OF kahn.petgraph_toposort_axioms refl refl, where
      team = "default_team\<lparr>team_agents := [''planner'', ''coder''], team_mode := Pipeline\<rparr>"
      and goal = "''ship''" and session = "''s''" and m = 4]
    by (simp add: names default_team_def)
qed

section \<open>Declared permissions read back\<close>

text \<open>
  The declared permission format and the levels of the tools agree: what a class is printed as
  is read back as that class, in any case and between any blanks, the runtime level of the same
  name maps to the same class, and nothing else is a declared permission.
\<close>

theorem declared_permission_reads_back:
  "from_declared (as_declared c) = Some c
   \<and> map from_declared DECLARED_PERMISSION_LEVELS =
       map (Some \<circ> permission_class_for_level) [LevelSafe, LevelRisky, LevelDangerous]
   \<and> (from_declared raw = Some c \<longleftrightarrow> to_ascii_lowercase (trim raw) = as_declared c
        \<or> (c = PIrreversible \<and> to_ascii_lowercase (trim raw) = ''irreversible''))"
proof (intro conjI)
  show "from_declared (as_declared c) = Some c" by (cases c; hypsubst; code_simp)
  show "map from_declared DECLARED_PERMISSION_LEVELS =
       map (Some \<circ> permission_class_for_level) [LevelSafe, LevelRisky, LevelDangerous]" by code_simp
  show "from_declared raw = Some c \<longleftrightarrow> to_ascii_lowercase (trim raw) = as_declared c
        \<or> (c = PIrreversible \<and> to_ascii_lowercase (trim raw) = ''irreversible'')"
    by (cases c) (auto simp: from_declared_def as_declared_def Let_def)
qed

end
