(* ===== verification/Team_Pool.thy ===== *)
theory Team_Pool imports Team_Plan "HOL-Library.AList" begin

text \<open>
  \<^verbatim>\<open>crates/archon-core/src/orchestrator/pool.rs\<close>: the two ceilings on the agents of a team. A
  \<^verbatim>\<open>HashMap\<close> whose size is asked for is an association list with distinct keys; the two locks that
  \<^verbatim>\<open>acquire\<close> holds together make it one step. The interface \<open>budgeted_pool\<close> states what the
  runners rely on, and is interpreted on the pool.
\<close>

record agent_slot =
  slot_agent_id :: string
  slot_subtask_id :: string
  slot_agent_type :: string

record agent_pool =
  pool_capacity :: u32
  pool_lifetime_cap :: u32
  pool_active :: "(string \<times> agent_slot) list"
  pool_started :: u32

definition with_lifetime_cap :: "u32 \<Rightarrow> u32 \<Rightarrow> agent_pool" where
  "with_lifetime_cap capacity lifetime_cap =
     \<lparr>pool_capacity = capacity, pool_lifetime_cap = lifetime_cap, pool_active = [], pool_started = 0\<rparr>"

definition new_pool :: "u32 \<Rightarrow> agent_pool" where
  "new_pool capacity = with_lifetime_cap capacity DEFAULT_MAX_AGENTS"

definition can_spawn :: "agent_pool \<Rightarrow> bool" where
  "can_spawn p \<longleftrightarrow> length (pool_active p) < unat (pool_capacity p)"

definition lifetime_exhausted :: "agent_pool \<Rightarrow> bool" where
  "lifetime_exhausted p \<longleftrightarrow> pool_lifetime_cap p \<le> pool_started p"

definition capacity_text :: "agent_pool \<Rightarrow> string" where
  "capacity_text p =
     ''agent pool at capacity ('' @ show_nat (length (pool_active p)) @ ''/''
       @ show_nat (unat (pool_capacity p)) @ '') '' @ em_dash @ '' cannot spawn new agent''"

definition exhausted_text :: "string \<Rightarrow> agent_pool \<Rightarrow> string" where
  "exhausted_text sub p =
     ''agent pool lifetime budget exhausted ('' @ show_nat (unat (pool_started p)) @ ''/''
       @ show_nat (unat (pool_lifetime_cap p)) @ '') '' @ em_dash
       @ '' cannot spawn a new agent for subtask '' @ quoted sub
       @ ''; this budget counts every agent ever started, not the number running now''"

definition acquire :: "string \<Rightarrow> string \<Rightarrow> string \<Rightarrow> agent_pool \<Rightarrow> string + agent_pool" where
  "acquire agent sub agent_type p =
     (if unat (pool_capacity p) \<le> length (pool_active p) then Inl (capacity_text p)
      else if pool_lifetime_cap p \<le> pool_started p then Inl (exhausted_text sub p)
      else Inr (p\<lparr>pool_started := pool_started p + 1,
                  pool_active := AList.update agent
                    \<lparr>slot_agent_id = agent, slot_subtask_id = sub, slot_agent_type = agent_type\<rparr>
                    (pool_active p)\<rparr>))"

definition release :: "string \<Rightarrow> agent_pool \<Rightarrow> agent_pool" where
  "release agent p = p\<lparr>pool_active := AList.delete agent (pool_active p)\<rparr>"

section \<open>Runs of a pool with a budget\<close>

datatype 'k pool_op = Take 'k | Give 'k

text \<open>The granted requests of a sequence of calls, latest first, and the pool after it.\<close>

fun run_ops :: "('k \<Rightarrow> 'p \<Rightarrow> 'e + 'p) \<Rightarrow> ('k \<Rightarrow> 'p \<Rightarrow> 'p) \<Rightarrow> 'k pool_op list \<Rightarrow> 'p \<Rightarrow> 'k list \<times> 'p" where
  "run_ops take_slot give_slot [] p = ([], p)"
| "run_ops take_slot give_slot (Take k # ops) p =
     (case take_slot k p of
        Inl _ \<Rightarrow> run_ops take_slot give_slot ops p
      | Inr p' \<Rightarrow> map_prod (Cons k) id (run_ops take_slot give_slot ops p'))"
| "run_ops take_slot give_slot (Give k # ops) p = run_ops take_slot give_slot ops (give_slot k p)"

locale budgeted_pool =
  fixes take_slot :: "'k \<Rightarrow> 'p \<Rightarrow> 'e + 'p"
    and give_slot :: "'k \<Rightarrow> 'p \<Rightarrow> 'p"
    and in_use :: "'p \<Rightarrow> nat"
    and room :: "'p \<Rightarrow> nat"
    and spent :: "'p \<Rightarrow> nat"
    and budget :: "'p \<Rightarrow> nat"
  assumes take_grants: "take_slot k p = Inr p' \<Longrightarrow> in_use p < room p \<and> spent p < budget p"
    and take_uses: "take_slot k p = Inr p' \<Longrightarrow> in_use p' \<le> Suc (in_use p) \<and> spent p' = Suc (spent p)"
    and take_keeps: "take_slot k p = Inr p' \<Longrightarrow> room p' = room p \<and> budget p' = budget p"
    and give_frees: "in_use (give_slot k p) \<le> in_use p"
    and give_keeps: "spent (give_slot k p) = spent p \<and> room (give_slot k p) = room p
      \<and> budget (give_slot k p) = budget p"
begin

lemma take_within:
  "take_slot k p = Inr p' \<Longrightarrow> in_use p' \<le> room p' \<and> spent p' \<le> budget p'"
  using take_grants take_uses take_keeps by fastforce

lemma run_within:
  assumes "run_ops take_slot give_slot ops p = (granted, p')" and "in_use p \<le> room p" and "spent p \<le> budget p"
  shows "in_use p' \<le> room p \<and> spent p' = spent p + length granted \<and> spent p' \<le> budget p"
  using assms
proof (induction ops arbitrary: p granted)
  case (Cons op ops)
  show ?case
  proof (cases op)
    case (Take k)
    show ?thesis
    proof (cases "take_slot k p")
      case (Inl e)
      with Cons.prems(1) Take have "run_ops take_slot give_slot ops p = (granted, p')" by simp
      from Cons.IH [OF this Cons.prems(2,3)] show ?thesis .
    next
      case (Inr q)
      with Cons.prems(1) Take obtain rest where
        rest: "run_ops take_slot give_slot ops q = (rest, p')" "granted = k # rest"
        by (cases "run_ops take_slot give_slot ops q") auto
      from Cons.IH [OF rest(1)] take_within [OF Inr] take_uses [OF Inr] take_keeps [OF Inr] rest(2)
      show ?thesis by simp
    qed
  next
    case (Give k)
    with Cons.prems(1) have "run_ops take_slot give_slot ops (give_slot k p) = (granted, p')" by simp
    from Cons.IH [OF this] Cons.prems(2,3) give_frees [of k p] give_keeps [of k p] show ?thesis by simp
  qed
qed auto

end

section \<open>The pool is one\<close>

definition acquire_slot :: "string \<times> string \<times> string \<Rightarrow> agent_pool \<Rightarrow> string + agent_pool" where
  "acquire_slot = (\<lambda>(agent, sub, agent_type). acquire agent sub agent_type)"

definition release_slot :: "string \<times> string \<times> string \<Rightarrow> agent_pool \<Rightarrow> agent_pool" where
  "release_slot = (\<lambda>(agent, _). release agent)"

lemma length_update_le: "length (AList.update k v al) \<le> Suc (length al)"
  by (induction al) auto

lemma started_next:
  assumes "\<not> pool_lifetime_cap p \<le> pool_started p"
  shows "unat (pool_started p + 1) = Suc (unat (pool_started p))"
proof -
  have "unat (pool_started p) < unat (pool_lifetime_cap p)"
    using assms by (simp add: not_le word_less_nat_alt)
  with unat_u32_lt [of "pool_lifetime_cap p"] have "unat (pool_started p) + 1 < 2 ^ 32" by linarith
  then show ?thesis by (simp add: unat_word_ariths)
qed

interpretation agents: budgeted_pool acquire_slot release_slot
  "\<lambda>p. length (pool_active p)" "\<lambda>p. unat (pool_capacity p)"
  "\<lambda>p. unat (pool_started p)" "\<lambda>p. unat (pool_lifetime_cap p)"
proof (unfold_locales, goal_cases)
  case (1 k p p')
  then show ?case by (auto simp: acquire_slot_def acquire_def word_le_nat_alt split: if_splits prod.splits)
next
  case (2 k p p')
  then show ?case
    using length_update_le started_next by (auto simp: acquire_slot_def acquire_def split: if_splits prod.splits)
next
  case (3 k p p')
  then show ?case by (auto simp: acquire_slot_def acquire_def split: if_splits prod.splits)
next
  case (4 k p)
  then show ?case by (cases k) (simp add: release_slot_def release_def AList.delete_eq)
next
  case (5 k p)
  then show ?case by (cases k) (simp add: release_slot_def release_def)
qed

lemma acquire_grants_iff:
  "(\<exists>q. acquire agent sub ty p = Inr q) \<longleftrightarrow> can_spawn p \<and> \<not> lifetime_exhausted p"
  by (auto simp: acquire_def can_spawn_def lifetime_exhausted_def)

text \<open>
  Both ceilings hold over any sequence of calls: the pool never has more agents at once than its
  capacity, grants exactly as many requests over its lifetime as it counts, never more than the
  lifetime cap, and its 32-bit count does not wrap. A call is granted exactly when neither of the
  two is used up.
\<close>

theorem pool_keeps_both_ceilings:
  "(case run_ops acquire_slot release_slot ops (with_lifetime_cap capacity lifetime_cap) of
      (granted, p) \<Rightarrow>
        length (pool_active p) \<le> unat capacity
        \<and> unat (pool_started p) = length granted \<and> length granted \<le> unat lifetime_cap
        \<and> ((\<exists>q. acquire agent sub ty p = Inr q) = (can_spawn p \<and> \<not> lifetime_exhausted p)))"
proof (cases "run_ops acquire_slot release_slot ops (with_lifetime_cap capacity lifetime_cap)")
  case (Pair granted p)
  from agents.run_within [OF this] show ?thesis
    unfolding Pair acquire_grants_iff by (simp add: with_lifetime_cap_def)
qed

end
