(* ===== verification/Team_Run.thy ===== *)
theory Team_Run imports Team_Pool begin

text \<open>
  The sequential runner of \<^verbatim>\<open>crates/archon-core/src/orchestrator.rs\<close>, with the events it sends
  (\<^verbatim>\<open>orchestrator/events.rs\<close>) and the retry loop of \<^verbatim>\<open>orchestrator/scheduling.rs\<close>. The executor
  is the parameter of the code's trait: a function that may fail and threads the state of the
  world; the flag \<open>cancelled\<close> is read from the same state. The lemmas give the exact shape of a
  run and the number of attempts.
\<close>

type_synonym 's executor = "'s \<Rightarrow> subtask \<Rightarrow> string \<Rightarrow> (string + string) \<times> 's"

datatype orchestrator_event =
    TaskDecomposed "subtask list"
  | TeamAgentSpawned string string string
  | AgentProgress string string
  | AgentComplete string string string
  | AgentFailed string string string bool
  | TeamComplete string
  | TeamCancelled
  | TeamFailed string

section \<open>Retries\<close>

text \<open>The loop \<^verbatim>\<open>for attempt in 0..=max_retries\<close> with \<open>n\<close> attempts left.\<close>

fun retry_from :: "'s executor \<Rightarrow> subtask \<Rightarrow> string \<Rightarrow> nat \<Rightarrow> string \<Rightarrow> 's \<Rightarrow> (string + string) \<times> 's" where
  "retry_from exec t context 0 last_err s = (Inl last_err, s)"
| "retry_from exec t context (Suc n) last_err s =
     (case exec s t context of
        (Inr result, s) \<Rightarrow> (Inr result, s)
      | (Inl e, s) \<Rightarrow> retry_from exec t context n e s)"

definition retry_failed_text :: "subtask \<Rightarrow> u32 \<Rightarrow> string \<Rightarrow> string" where
  "retry_failed_text t max_retries last_err =
     ''subtask '' @ quoted (subtask_id t) @ '' failed after '' @ show_nat (unat (max_retries + 1))
       @ '' attempts: '' @ last_err"

definition retry_execute :: "'s executor \<Rightarrow> subtask \<Rightarrow> string \<Rightarrow> u32 \<Rightarrow> 's \<Rightarrow> (string + string) \<times> 's" where
  "retry_execute exec t context max_retries s =
     (case retry_from exec t context (unat max_retries + 1) [] s of
        (Inr result, s) \<Rightarrow> (Inr result, s)
      | (Inl last_err, s) \<Rightarrow> (Inl (retry_failed_text t max_retries last_err), s))"

section \<open>One task at a time\<close>

definition agent_name :: "string \<Rightarrow> string" where
  "agent_name sub = ''agent-'' @ sub"

definition result_separator :: string where
  "result_separator = CHR 0x0A # ''---'' @ [CHR 0x0A]"

definition agent_pool_of :: "orchestrator_config \<Rightarrow> agent_pool" where
  "agent_pool_of cfg = with_lifetime_cap (max_concurrent cfg) (max_agents cfg)"

record seq_state =
  seq_pool :: agent_pool
  seq_completed :: "string \<Rightarrow> string option"
  seq_context :: string
  seq_results :: "string list"

fun sequential_from ::
    "orchestrator_config \<Rightarrow> 's executor \<Rightarrow> ('s \<Rightarrow> bool) \<Rightarrow> subtask list \<Rightarrow> seq_state \<Rightarrow> 's
     \<Rightarrow> (string + string) \<times> orchestrator_event list \<times> 's" where
  "sequential_from cfg exec cancelled [] st s = (Inr (join_with result_separator (seq_results st)), [], s)"
| "sequential_from cfg exec cancelled (t # ts) st s =
     (if cancelled s then (Inl ''team cancelled'', [TeamCancelled], s)
      else
        let context = (if subtask_dependencies t \<noteq> [] then dependency_context t (seq_completed st) else seq_context st);
            agent = agent_name (subtask_id t)
        in case acquire agent (subtask_id t) (subtask_agent_type t) (seq_pool st) of
             Inl e \<Rightarrow> (Inl e, [], s)
           | Inr pool \<Rightarrow>
               let spawned = TeamAgentSpawned agent (subtask_agent_type t) (subtask_id t);
                   (attempt, s) = retry_execute exec (t\<lparr>subtask_status := Running\<rparr>) context (config_max_retries cfg) s;
                   pool = release agent pool
               in (case attempt of
                     Inr result \<Rightarrow>
                       (case sequential_from cfg exec cancelled ts
                               \<lparr>seq_pool = pool, seq_completed = (seq_completed st)(subtask_id t \<mapsto> result),
                                seq_context = result, seq_results = seq_results st @ [result]\<rparr> s of
                          (outcome, events, s) \<Rightarrow>
                            (outcome, spawned # AgentComplete agent (subtask_id t) result # events, s))
                   | Inl e \<Rightarrow> (Inl e, [spawned, AgentFailed agent (subtask_id t) e False], s)))"

definition run_sequential ::
    "orchestrator_config \<Rightarrow> 's executor \<Rightarrow> ('s \<Rightarrow> bool) \<Rightarrow> subtask list \<Rightarrow> string list list \<Rightarrow> 's
     \<Rightarrow> (string + string) \<times> orchestrator_event list \<times> 's" where
  "run_sequential cfg exec cancelled ts ws s =
     sequential_from cfg exec cancelled (flatten_waves ts ws)
       \<lparr>seq_pool = agent_pool_of cfg, seq_completed = (\<lambda>_. None), seq_context = [], seq_results = []\<rparr> s"

text \<open>\<^verbatim>\<open>run_team\<close>, with the runner that the mode selects as an argument.\<close>

definition run_team ::
    "toposort \<Rightarrow> orchestrator_config
     \<Rightarrow> (execution_mode \<Rightarrow> subtask list \<Rightarrow> string list list \<Rightarrow> 's \<Rightarrow> (string + string) \<times> orchestrator_event list \<times> 's)
     \<Rightarrow> team_config \<Rightarrow> string \<Rightarrow> 's \<Rightarrow> (string + string) \<times> orchestrator_event list \<times> 's" where
  "run_team topo cfg runner team goal s =
     (let ts = initial_subtasks team goal
      in case plan topo ts (team_name team) (max_concurrent cfg) of
           Inl e \<Rightarrow> (Inl e, [TaskDecomposed ts], s)
         | Inr (_, ws) \<Rightarrow>
             (case runner (team_mode team) ts ws s of
                (Inl e, events, s) \<Rightarrow> (Inl e, TaskDecomposed ts # events, s)
              | (Inr result, events, s) \<Rightarrow>
                  (Inr result, TaskDecomposed ts # events @ [TeamComplete result], s)))"

section \<open>The attempts of a retry\<close>

text \<open>An executor that counts its calls beside the state of another one.\<close>

definition counted :: "'s executor \<Rightarrow> (nat \<times> 's) executor" where
  "counted exec = (\<lambda>(n, s) t context. case exec s t context of (r, s) \<Rightarrow> (r, (Suc n, s)))"

lemma retry_from_counted:
  "fst (retry_from (counted exec) t context m last_err (n, s)) = fst (retry_from exec t context m last_err s)
   \<and> snd (snd (retry_from (counted exec) t context m last_err (n, s))) = snd (retry_from exec t context m last_err s)
   \<and> (case retry_from (counted exec) t context m last_err (n, s) of
        (Inl _, (k, _)) \<Rightarrow> k = n + m | (Inr _, (k, _)) \<Rightarrow> n < k \<and> k \<le> n + m)"
proof (induction m arbitrary: last_err n s)
  case (Suc m)
  show ?case
  proof (cases "exec s t context")
    case (Pair r s')
    show ?thesis
    proof (cases r)
      case (Inl e)
      with Pair Suc.IH [of e "Suc n" s'] show ?thesis
        by (auto simp: counted_def split: prod.splits sum.splits)
    next
      case (Inr v)
      with Pair show ?thesis by (simp add: counted_def)
    qed
  qed
qed simp

text \<open>
  A subtask is attempted at least once and at most one more time than the configured retries,
  it stops at the first success, and it is reported as failed only after all attempts failed.
\<close>

theorem attempts_are_bounded:
  "(case retry_execute (counted exec) t context max_retries (0, s) of
      (Inl _, (k, _)) \<Rightarrow> k = unat max_retries + 1
    | (Inr _, (k, _)) \<Rightarrow> 0 < k \<and> k \<le> unat max_retries + 1)
   \<and> map_prod (map_sum (\<lambda>_. ()) id) id (retry_execute exec t context max_retries s) =
       map_prod (map_sum (\<lambda>_. ()) id) snd (retry_execute (counted exec) t context max_retries (0, s))"
  using retry_from_counted [of exec t "context" "unat max_retries + 1" "[]" 0 s]
  by (cases "retry_from exec t context (unat max_retries + 1) [] s")
    (auto simp: retry_execute_def split: prod.splits sum.splits)

section \<open>The shape of a sequential run\<close>

definition spawned_and_complete :: "subtask \<Rightarrow> string \<Rightarrow> orchestrator_event list" where
  "spawned_and_complete t result =
     [TeamAgentSpawned (agent_name (subtask_id t)) (subtask_agent_type t) (subtask_id t),
      AgentComplete (agent_name (subtask_id t)) (subtask_id t) result]"

definition spawned_and_failed :: "subtask \<Rightarrow> string \<Rightarrow> orchestrator_event list" where
  "spawned_and_failed t e =
     [TeamAgentSpawned (agent_name (subtask_id t)) (subtask_agent_type t) (subtask_id t),
      AgentFailed (agent_name (subtask_id t)) (subtask_id t) e False]"

text \<open>The events of a run over \<open>order\<close> in which the first \<open>length rs\<close> subtasks returned \<open>rs\<close>.\<close>

definition run_shape :: "subtask list \<Rightarrow> string list \<Rightarrow> string + string \<Rightarrow> orchestrator_event list \<Rightarrow> bool" where
  "run_shape order rs outcome events \<longleftrightarrow>
     (let done_events = concat (map2 spawned_and_complete order rs)
      in case outcome of
           Inr _ \<Rightarrow> length rs = length order \<and> events = done_events
         | Inl e \<Rightarrow> length rs < length order \<and>
             (events = done_events \<or> events = done_events @ [TeamCancelled]
              \<or> events = done_events @ spawned_and_failed (order ! length rs) e))"

lemma run_shape_Cons:
  "run_shape order rs outcome events \<Longrightarrow>
   run_shape (t # order) (r # rs) outcome (spawned_and_complete t r @ events)"
  by (auto simp: run_shape_def Let_def split: sum.splits)

lemma sequential_shape:
  assumes "sequential_from cfg exec cancelled order st s = (outcome, events, s')"
    and "unat (pool_started (seq_pool st)) + k = unat (pool_lifetime_cap (seq_pool st))"
  shows "\<exists>rs. run_shape order rs outcome events \<and> length rs \<le> k
    \<and> (case outcome of Inr r \<Rightarrow> r = join_with result_separator (seq_results st @ rs) | Inl _ \<Rightarrow> True)"
  using assms
proof (induction order arbitrary: st s events outcome s' k)
  case Nil
  then show ?case by (auto simp: run_shape_def intro!: exI [of _ "[]"])
next
  case (Cons t ts)
  let ?ctx = "if subtask_dependencies t \<noteq> [] then dependency_context t (seq_completed st) else seq_context st"
  let ?agent = "agent_name (subtask_id t)"
  have short: "\<exists>rs. run_shape (t # ts) rs (Inl e) ev \<and> length rs \<le> k"
    if "ev = [] \<or> ev = [TeamCancelled] \<or> ev = spawned_and_failed t e" for e ev
    using that by (intro exI [of _ "[]"]) (auto simp: run_shape_def)
  show ?case
  proof (cases "cancelled s")
    case True
    with Cons.prems(1) short [of events] show ?thesis by auto
  next
    case False
    show ?thesis
    proof (cases "acquire ?agent (subtask_id t) (subtask_agent_type t) (seq_pool st)")
      case (Inl e)
      with Cons.prems(1) False short [of events] show ?thesis by (auto simp: Let_def)
    next
      case (Inr pool)
      note got = agents.take_grants [of "(?agent, subtask_id t, subtask_agent_type t)" "seq_pool st" pool]
        agents.take_uses [of "(?agent, subtask_id t, subtask_agent_type t)" "seq_pool st" pool]
        agents.take_keeps [of "(?agent, subtask_id t, subtask_agent_type t)" "seq_pool st" pool]
      obtain attempt s1 where a: "retry_execute exec (t\<lparr>subtask_status := Running\<rparr>) ?ctx
          (config_max_retries cfg) s = (attempt, s1)" by fastforce
      show ?thesis
      proof (cases attempt)
        case (Inl e)
        with Cons.prems(1) False Inr a short [of events e] show ?thesis
          by (auto simp: Let_def spawned_and_failed_def)
      next
        case res: (Inr r)
        let ?st = "\<lparr>seq_pool = release ?agent pool, seq_completed = (seq_completed st)(subtask_id t \<mapsto> r),
          seq_context = r, seq_results = seq_results st @ [r]\<rparr>"
        obtain o' ev s2 where rest: "sequential_from cfg exec cancelled ts ?st s1 = (o', ev, s2)"
          by (metis prod_cases3)
        with Cons.prems(1) False Inr a res have out: "outcome = o'" "events = spawned_and_complete t r @ ev"
          by (auto simp: Let_def spawned_and_complete_def)
        have "unat (pool_started (seq_pool ?st)) + (k - 1) = unat (pool_lifetime_cap (seq_pool ?st))" "0 < k"
          using got Inr Cons.prems(2) by (simp_all add: acquire_slot_def release_def)
        from Cons.IH [OF rest this(1)] this(2) obtain rs where rs: "run_shape ts rs o' ev" "length rs \<le> k - 1"
          "case o' of Inr v \<Rightarrow> v = join_with result_separator (seq_results ?st @ rs) | Inl _ \<Rightarrow> True" by blast
        with run_shape_Cons [OF rs(1)] out \<open>0 < k\<close> show ?thesis
          by (intro exI [of _ "r # rs"]) (auto split: sum.splits)
      qed
    qed
  qed
qed

text \<open>
  A sequential run takes the subtasks in the order of the flattened waves: the first ones are
  spawned and completed one after the other, never more than the lifetime cap, and the run either
  completes all of them and returns their results joined in order, or stops after the first failure,
  refusal or cancellation with nothing run after it.
\<close>

theorem sequential_run_has_the_planned_shape:
  "(case run_sequential cfg exec cancelled ts ws s of
      (outcome, events, s') \<Rightarrow>
        \<exists>rs. run_shape (flatten_waves ts ws) rs outcome events \<and> length rs \<le> unat (max_agents cfg)
          \<and> (case outcome of Inr r \<Rightarrow> r = join_with result_separator rs | Inl _ \<Rightarrow> True))"
proof -
  obtain outcome events s' where run: "run_sequential cfg exec cancelled ts ws s = (outcome, events, s')"
    by (metis prod_cases3)
  from sequential_shape [OF this [unfolded run_sequential_def], of "unat (max_agents cfg)"] show ?thesis
    by (cases outcome) (simp_all add: run agent_pool_of_def with_lifetime_cap_def)
qed

end
