(* ===== verification/Team_Parallel.thy ===== *)
theory Team_Parallel imports Team_Run begin

text \<open>
  The concurrent runners of \<^verbatim>\<open>crates/archon-core/src/orchestrator.rs\<close>. \<^verbatim>\<open>run_parallel\<close> and
  \<^verbatim>\<open>run_dag_waves\<close> have the same steps: the runner spawns the subtasks of a wave as slots come
  free, joins their handles in order, and goes on to the next wave, while the spawned tasks end in
  any order, also after the runner has returned. A panicking task ends without releasing its slot.
  \<open>run_started\<close> is the sequence of \<^verbatim>\<open>AgentSpawned\<close> events, \<open>run_panicked\<close> counts panics.
\<close>

datatype task_end = Returned string | Errored string | Panicked string

record task_handle =
  handle_task :: subtask
  handle_context :: string
  handle_end :: "task_end option"

record team_run =
  run_pool :: agent_pool
  run_waves :: "string list list"
  run_queue :: "subtask list"
  run_handles :: "task_handle list"
  run_completed :: "string \<Rightarrow> string option"
  run_results :: "string list"
  run_started :: "string list"
  run_panicked :: nat
  run_outcome :: "(string + string) option"

definition handle_agent :: "task_handle \<Rightarrow> string" where
  "handle_agent h = agent_name (subtask_id (handle_task h))"

definition start_run :: "orchestrator_config \<Rightarrow> string list list \<Rightarrow> team_run" where
  "start_run cfg ws =
     \<lparr>run_pool = agent_pool_of cfg, run_waves = ws, run_queue = [], run_handles = [],
      run_completed = (\<lambda>_. None), run_results = [], run_started = [], run_panicked = 0,
      run_outcome = None\<rparr>"

definition open_wave :: "subtask list \<Rightarrow> string list \<Rightarrow> string list list \<Rightarrow> team_run \<Rightarrow> team_run" where
  "open_wave ts w ws r = r\<lparr>run_queue := flatten_waves ts [w], run_waves := ws\<rparr>"

definition spawn_task :: "subtask \<Rightarrow> subtask list \<Rightarrow> agent_pool \<Rightarrow> team_run \<Rightarrow> team_run" where
  "spawn_task t rest pool r =
     r\<lparr>run_pool := pool, run_queue := rest,
       run_handles := run_handles r @
         [\<lparr>handle_task = t, handle_context = dependency_context t (run_completed r), handle_end = None\<rparr>],
       run_started := run_started r @ [subtask_id t]\<rparr>"

definition end_task :: "nat \<Rightarrow> task_end \<Rightarrow> team_run \<Rightarrow> team_run" where
  "end_task i e r =
     (let h = run_handles r ! i;
          r = r\<lparr>run_handles := (run_handles r)[i := h\<lparr>handle_end := Some e\<rparr>]\<rparr>
      in case e of
           Panicked _ \<Rightarrow> r\<lparr>run_panicked := run_panicked r + 1\<rparr>
         | _ \<Rightarrow> r\<lparr>run_pool := release (handle_agent h) (run_pool r)\<rparr>)"

definition join_task :: "task_handle \<Rightarrow> task_end \<Rightarrow> task_handle list \<Rightarrow> team_run \<Rightarrow> team_run" where
  "join_task h e rest r =
     (case e of
        Returned result \<Rightarrow>
          r\<lparr>run_handles := rest, run_results := run_results r @ [result],
            run_completed := (run_completed r)(subtask_id (handle_task h) \<mapsto> result)\<rparr>
      | Errored msg \<Rightarrow>
          r\<lparr>run_handles := rest, run_results := run_results r @ [''[FAILED: '' @ msg @ '']'']\<rparr>
      | Panicked msg \<Rightarrow>
          r\<lparr>run_handles := rest, run_results := run_results r @ [''[PANIC: '' @ msg @ '']'']\<rparr>)"

definition acquire_for :: "subtask \<Rightarrow> agent_pool \<Rightarrow> string + agent_pool" where
  "acquire_for t p = acquire (agent_name (subtask_id t)) (subtask_id t) (subtask_agent_type t) p"

text \<open>The runner polls until a slot is free or the lifetime budget is used up.\<close>

definition may_try :: "team_run \<Rightarrow> bool" where
  "may_try r \<longleftrightarrow> can_spawn (run_pool r) \<or> lifetime_exhausted (run_pool r)"

inductive team_step :: "subtask list \<Rightarrow> team_run \<Rightarrow> team_run \<Rightarrow> bool" for ts where
  next_wave: "run_outcome r = None \<Longrightarrow> run_queue r = [] \<Longrightarrow> run_handles r = [] \<Longrightarrow> run_waves r = w # ws \<Longrightarrow>
     team_step ts r (open_wave ts w ws r)"
| spawned: "run_outcome r = None \<Longrightarrow> run_queue r = t # rest \<Longrightarrow> may_try r \<Longrightarrow>
     acquire_for t (run_pool r) = Inr pool \<Longrightarrow> team_step ts r (spawn_task t rest pool r)"
| refused: "run_outcome r = None \<Longrightarrow> run_queue r = t # rest \<Longrightarrow> may_try r \<Longrightarrow>
     acquire_for t (run_pool r) = Inl e \<Longrightarrow> team_step ts r (r\<lparr>run_outcome := Some (Inl e)\<rparr>)"
| ended: "i < length (run_handles r) \<Longrightarrow> handle_end (run_handles r ! i) = None \<Longrightarrow>
     team_step ts r (end_task i e r)"
| joined: "run_outcome r = None \<Longrightarrow> run_queue r = [] \<Longrightarrow> run_handles r = h # rest \<Longrightarrow>
     handle_end h = Some e \<Longrightarrow> team_step ts r (join_task h e rest r)"
| finished: "run_outcome r = None \<Longrightarrow> run_queue r = [] \<Longrightarrow> run_handles r = [] \<Longrightarrow> run_waves r = [] \<Longrightarrow>
     team_step ts r (r\<lparr>run_outcome := Some (Inr (join_with result_separator (run_results r)))\<rparr>)"

inductive_cases team_stepE: "team_step ts r r'"

definition reaches :: "orchestrator_config \<Rightarrow> subtask list \<Rightarrow> string list list \<Rightarrow> team_run \<Rightarrow> bool" where
  "reaches cfg ts ws r \<longleftrightarrow> (team_step ts)\<^sup>*\<^sup>* (start_run cfg ws) r"

section \<open>Every run is finite\<close>

definition handle_size :: "task_handle \<Rightarrow> nat" where
  "handle_size h = (if handle_end h = None then 2 else 1)"

definition run_size :: "team_run \<Rightarrow> nat" where
  "run_size r = 4 * length (concat (run_waves r)) + length (run_waves r) + 3 * length (run_queue r)
     + sum_list (map handle_size (run_handles r)) + (if run_outcome r = None then 1 else 0)"

lemma length_flatten_waves: "length (flatten_waves ts ws) \<le> length (concat ws)"
  by (simp add: flatten_waves_def List.map_filter_def)

lemma sum_list_update_less:
  assumes "i < length xs" and "f y < f (xs ! i)"
  shows "sum_list (map f (xs[i := y])) < (sum_list (map f xs) :: nat)"
  using assms by (induction xs arbitrary: i) (auto split: nat.splits simp: less_Suc_eq_0_disj)

lemma join_task_simps [simp]:
  "run_waves (join_task h e rest r) = run_waves r" "run_queue (join_task h e rest r) = run_queue r"
  "run_handles (join_task h e rest r) = rest" "run_outcome (join_task h e rest r) = run_outcome r"
  "run_pool (join_task h e rest r) = run_pool r" "run_started (join_task h e rest r) = run_started r"
  "run_panicked (join_task h e rest r) = run_panicked r"
  by (simp_all add: join_task_def split: task_end.splits)

lemma end_task_simps [simp]:
  "run_waves (end_task i e r) = run_waves r" "run_queue (end_task i e r) = run_queue r"
  "run_outcome (end_task i e r) = run_outcome r" "run_started (end_task i e r) = run_started r"
  "run_completed (end_task i e r) = run_completed r"
  "run_handles (end_task i e r) = (run_handles r)[i := (run_handles r ! i)\<lparr>handle_end := Some e\<rparr>]"
  by (simp_all add: end_task_def Let_def split: task_end.splits)

lemma step_shrinks: "team_step ts r r' \<Longrightarrow> run_size r' < run_size r"
proof (induction rule: team_step.induct)
  case (next_wave r w ws)
  then show ?case
    using length_flatten_waves [of ts "[w]"] by (simp add: run_size_def open_wave_def)
next
  case (ended i r e)
  then have "sum_list (map handle_size ((run_handles r)[i := (run_handles r ! i)\<lparr>handle_end := Some e\<rparr>]))
      < sum_list (map handle_size (run_handles r))"
    by (intro sum_list_update_less) (simp_all add: handle_size_def)
  then show ?case by (simp add: run_size_def)
qed (simp_all add: run_size_def spawn_task_def handle_size_def)

section \<open>Order\<close>

text \<open>What the plan of a team says of its waves.\<close>

definition wave_plan :: "subtask list \<Rightarrow> string list list \<Rightarrow> bool" where
  "wave_plan ts ws \<longleftrightarrow> distinct (concat ws) \<and> mset (concat ws) = mset (map subtask_id ts)
     \<and> (\<forall>t\<in>set ts. \<forall>d\<in>set (subtask_dependencies t).
          \<exists>a b. a < b \<and> b < length ws \<and> d \<in> set (ws ! a) \<and> subtask_id t \<in> set (ws ! b))"

lemma plan_gives_waves:
  assumes "petgraph_toposort topo" and "plan topo ts session m = Inr (g, ws)"
  shows "wave_plan ts ws"
proof -
  note planned = petgraph_toposort.planned_waves [OF assms(1) plan_Inr(1,2) [OF assms(2)]]
  have "\<exists>a b. a < b \<and> b < length ws \<and> d \<in> set (ws ! a) \<and> subtask_id t \<in> set (ws ! b)"
    if "t \<in> set ts" "d \<in> set (subtask_dependencies t)" for t d
    using that planned(4) by (metis in_set_conv_nth)
  with planned(2,3) show ?thesis unfolding wave_plan_def by blast
qed

definition joined_ids :: "team_run \<Rightarrow> string list" where
  "joined_ids r = take (length (run_started r) - length (run_handles r)) (run_started r)"

definition handle_ids :: "team_run \<Rightarrow> string list" where
  "handle_ids r = map (\<lambda>h. subtask_id (handle_task h)) (run_handles r)"

definition order_inv :: "subtask list \<Rightarrow> string list list \<Rightarrow> nat \<Rightarrow> team_run \<Rightarrow> bool" where
  "order_inv ts ws k r \<longleftrightarrow>
     k \<le> length ws \<and> run_waves r = drop k ws
     \<and> run_started r @ map subtask_id (run_queue r) = concat (take k ws)
     \<and> run_started r = joined_ids r @ handle_ids r
     \<and> length (concat (take (k - 1) ws)) \<le> length (joined_ids r)
     \<and> set (run_queue r) \<union> handle_task ` set (run_handles r) \<subseteq> set ts
     \<and> (case run_outcome r of Some (Inr _) \<Rightarrow> run_queue r = [] \<and> run_waves r = [] \<and> run_handles r = [] | _ \<Rightarrow> True)"

lemma order_invI:
  assumes "k \<le> length ws" and "run_waves r = drop k ws"
    and "run_started r @ map subtask_id (run_queue r) = concat (take k ws)"
    and "run_started r = before @ handle_ids r"
    and "length (concat (take (k - 1) ws)) \<le> length before"
    and "set (run_queue r) \<union> handle_task ` set (run_handles r) \<subseteq> set ts"
    and "case run_outcome r of Some (Inr _) \<Rightarrow> run_queue r = [] \<and> run_waves r = [] \<and> run_handles r = [] | _ \<Rightarrow> True"
  shows "order_inv ts ws k r" and "joined_ids r = before"
proof -
  show "joined_ids r = before" using assms(4) by (simp add: joined_ids_def handle_ids_def)
  with assms show "order_inv ts ws k r" by (simp add: order_inv_def)
qed

lemma order_inv_step:
  assumes plan: "wave_plan ts ws" and inv: "order_inv ts ws k r" and step: "team_step ts r r'"
  shows "\<exists>k. order_inv ts ws k r'"
proof -
  from inv have k: "k \<le> length ws" "run_waves r = drop k ws"
    "run_started r @ map subtask_id (run_queue r) = concat (take k ws)"
    "run_started r = joined_ids r @ handle_ids r"
    "length (concat (take (k - 1) ws)) \<le> length (joined_ids r)"
    "set (run_queue r) \<union> handle_task ` set (run_handles r) \<subseteq> set ts"
    "case run_outcome r of Some (Inr _) \<Rightarrow> run_queue r = [] \<and> run_waves r = [] \<and> run_handles r = [] | _ \<Rightarrow> True"
    unfolding order_inv_def by blast+
  from step show ?thesis
  proof cases
    case (next_wave w rest)
    then have w: "k < length ws" "ws ! k = w" "drop (Suc k) ws = rest"
      using k(2) by (metis Cons_nth_drop_Suc drop_all list.inject list.simps(3) not_le)+
    from plan have ids: "distinct (map subtask_id ts)" and sub: "set (concat ws) \<subseteq> subtask_id ` set ts"
      unfolding wave_plan_def by (metis mset_eq_imp_distinct_iff) (metis list.set_map order_refl plan set_mset_mset wave_plan_def)
    have "w \<in> set ws" using w(1,2) by auto
    with sub have "set (concat [w]) \<subseteq> subtask_id ` set ts" by auto
    from flatten_waves_ids(1) [OF ids this] have flat: "map subtask_id (flatten_waves ts [w]) = w" by simp
    have "set (flatten_waves ts [w]) \<subseteq> set ts"
      using subtask_named_id by (fastforce simp: flatten_waves_def List.map_filter_def)
    with next_wave k w flat show ?thesis
      by (intro exI [of _ "Suc k"] order_invI(1) [where before = "joined_ids r"])
        (auto simp: open_wave_def take_Suc_conv_app_nth handle_ids_def)
  next
    case (spawned t rest pool)
    with k show ?thesis
      by (intro exI [of _ k] order_invI(1) [where before = "joined_ids r"])
        (auto simp: spawn_task_def handle_ids_def)
  next
    case (refused t rest e)
    with k show ?thesis
      by (intro exI [of _ k] order_invI(1) [where before = "joined_ids r"]) (auto simp: handle_ids_def)
  next
    case (ended i e)
    then have "map (\<lambda>h. subtask_id (handle_task h)) (run_handles r') = map (\<lambda>h. subtask_id (handle_task h)) (run_handles r)"
      "map handle_task (run_handles r') = map handle_task (run_handles r)"
      by (auto intro!: nth_equalityI simp: nth_list_update)
    then have "handle_ids r' = handle_ids r" "handle_task ` set (run_handles r') = handle_task ` set (run_handles r)"
      by (simp_all add: handle_ids_def) (metis list.set_map)
    with ended k show ?thesis
      by (intro exI [of _ k] order_invI(1) [where before = "joined_ids r"]) (auto split: option.splits sum.splits)
  next
    case (joined h rest e)
    with k show ?thesis
      by (intro exI [of _ k] order_invI(1) [where before = "joined_ids r @ [subtask_id (handle_task h)]"])
        (auto simp: handle_ids_def)
  next
    case finished
    with k show ?thesis
      by (intro exI [of _ k] order_invI(1) [where before = "joined_ids r"]) (auto simp: handle_ids_def)
  qed
qed

lemma order_inv_start: "wave_plan ts ws \<Longrightarrow> order_inv ts ws 0 (start_run cfg ws)"
  by (simp add: order_inv_def start_run_def joined_ids_def handle_ids_def)

lemma reaches_order:
  assumes "wave_plan ts ws" and "reaches cfg ts ws r"
  shows "\<exists>k. order_inv ts ws k r"
  using assms(2) unfolding reaches_def
proof (induction rule: rtranclp_induct)
  case base
  show ?case using order_inv_start [OF assms(1)] by blast
next
  case (step r r')
  with order_inv_step [OF assms(1)] show ?case by blast
qed

lemma started_distinct:
  assumes "wave_plan ts ws" and "order_inv ts ws k r"
  shows "distinct (run_started r @ map subtask_id (run_queue r))" and "distinct (handle_ids r)"
    and "set (run_started r) \<subseteq> set (concat ws)"
proof -
  have cut: "concat ws = concat (take k ws) @ concat (drop k ws)" by (metis append_take_drop_id concat_append)
  have d: "distinct (concat (take k ws))" "set (concat (take k ws)) \<subseteq> set (concat ws)"
    using assms(1) unfolding wave_plan_def by (metis cut distinct_append) (metis cut Un_upper1 set_append)
  have eq: "run_started r @ map subtask_id (run_queue r) = concat (take k ws)"
    and split: "run_started r = joined_ids r @ handle_ids r"
    using assms(2) unfolding order_inv_def by blast+
  from d(1) eq show *: "distinct (run_started r @ map subtask_id (run_queue r))" by simp
  from * split show "distinct (handle_ids r)" by (metis distinct_append)
  from d(2) eq show "set (run_started r) \<subseteq> set (concat ws)" by (metis Un_upper1 order_trans set_append)
qed

lemma same_wave:
  assumes "distinct (concat ws)" and "x \<in> set (ws ! a)" "x \<in> set (ws ! b)" and "a < b" "b < length ws"
  shows False
proof -
  from assms(5) have "concat ws = concat (take b ws) @ ws ! b @ concat (drop (Suc b) ws)"
    by (metis concat.simps(2) concat_append id_take_nth_drop)
  with assms(1) have "set (concat (take b ws)) \<inter> set (ws ! b) = {}" by auto
  moreover have "ws ! a \<in> set (take b ws)" using assms(4,5) by (auto simp: set_conv_nth intro!: exI [of _ a])
  ultimately show False using assms(2,3) by auto
qed

text \<open>Nothing that a spawned or joined task depends on is still unjoined.\<close>

lemma dependencies_joined:
  assumes plan: "wave_plan ts ws" and inv: "order_inv ts ws k r" and "h \<in> set (run_handles r)"
    and "d \<in> set (subtask_dependencies (handle_task h))"
  shows "d \<in> set (joined_ids r)" and "d \<notin> set (handle_ids r)"
proof -
  let ?i = "subtask_id (handle_task h)"
  have eq: "run_started r @ map subtask_id (run_queue r) = concat (take k ws)"
    and split: "run_started r = joined_ids r @ handle_ids r" and "k \<le> length ws"
    and long: "length (concat (take (k - 1) ws)) \<le> length (joined_ids r)"
    and "handle_task h \<in> set ts"
    using inv assms(3) unfolding order_inv_def by blast+
  note dist = started_distinct [OF plan inv]
  from plan \<open>handle_task h \<in> set ts\<close> assms(4) obtain a b where ab: "a < b" "b < length ws"
    "d \<in> set (ws ! a)" "?i \<in> set (ws ! b)"
    unfolding wave_plan_def by blast
  have i: "?i \<in> set (handle_ids r)" using assms(3) by (auto simp: handle_ids_def)
  have "?i \<in> set (concat (take k ws))" using i split eq by (metis UnCI set_append)
  then obtain w where "w \<in> set (take k ws)" "?i \<in> set w" by auto
  then obtain c where c: "c < k" "?i \<in> set (ws ! c)"
    by (metis in_set_conv_nth length_take min_less_iff_conj nth_take)
  have "distinct (concat ws)" using plan by (simp add: wave_plan_def)
  with same_wave [of ws ?i b c] same_wave [of ws ?i c b] ab c \<open>k \<le> length ws\<close> have "b = c"
    by (metis linorder_neqE_nat order_less_le_trans)
  with ab(1) c(1) have "a < k - 1" by simp
  have "concat (take k ws) = joined_ids r @ handle_ids r @ map subtask_id (run_queue r)"
    using eq split by simp
  moreover have "concat (take k ws) = concat (take (k - 1) ws) @ concat (drop (k - 1) (take k ws))"
    by (metis append_take_drop_id concat_append min.absorb1 diff_le_self take_take)
  ultimately have "concat (take (k - 1) ws) = take (length (concat (take (k - 1) ws))) (joined_ids r)"
    using long by (metis append_eq_append_conv_if append_eq_conv_conj)
  then have "set (concat (take (k - 1) ws)) \<subseteq> set (joined_ids r)" by (metis set_take_subset)
  moreover have "ws ! a \<in> set (take (k - 1) ws)"
    using \<open>a < k - 1\<close> \<open>k \<le> length ws\<close> by (auto simp: set_conv_nth intro!: exI [of _ a])
  ultimately show d: "d \<in> set (joined_ids r)" using ab(3) by auto
  from dist(1) split have "set (joined_ids r) \<inter> set (handle_ids r) = {}" by auto
  with d show "d \<notin> set (handle_ids r)" by blast
qed

section \<open>The pool\<close>

definition running :: "team_run \<Rightarrow> task_handle list" where
  "running r = filter (\<lambda>h. handle_end h = None) (run_handles r)"

definition slots :: "team_run \<Rightarrow> string list" where
  "slots r = map fst (pool_active (run_pool r))"

definition pool_inv :: "orchestrator_config \<Rightarrow> team_run \<Rightarrow> bool" where
  "pool_inv cfg r \<longleftrightarrow>
     pool_capacity (run_pool r) = max_concurrent cfg \<and> pool_lifetime_cap (run_pool r) = max_agents cfg
     \<and> unat (pool_started (run_pool r)) = length (run_started r) \<and> length (run_started r) \<le> unat (max_agents cfg)
     \<and> length (slots r) \<le> unat (max_concurrent cfg) \<and> distinct (slots r)
     \<and> handle_agent ` set (running r) \<subseteq> set (slots r)
     \<and> length (slots r) \<le> length (running r) + run_panicked r"

lemma agent_name_inject [simp]: "agent_name a = agent_name b \<longleftrightarrow> a = b"
  by (simp add: agent_name_def)

lemma running_split:
  assumes "i < length (run_handles r)" and "handle_end (run_handles r ! i) = None"
    and "run_handles r' = (run_handles r)[i := (run_handles r ! i)\<lparr>handle_end := Some e\<rparr>]"
  obtains as bs where "running r = as @ (run_handles r ! i) # bs" and "running r' = as @ bs"
proof -
  let ?hs = "run_handles r"
  have "?hs = take i ?hs @ ?hs ! i # drop (Suc i) ?hs" using assms(1) by (rule id_take_nth_drop)
  then have "running r = filter (\<lambda>h. handle_end h = None) (take i ?hs) @ (?hs ! i) # filter (\<lambda>h. handle_end h = None) (drop (Suc i) ?hs)"
    unfolding running_def using assms(2) by (metis (mono_tags, lifting) filter.simps(2) filter_append)
  moreover have "running r' = filter (\<lambda>h. handle_end h = None) (take i ?hs) @ filter (\<lambda>h. handle_end h = None) (drop (Suc i) ?hs)"
    unfolding running_def assms(3) by (simp add: upd_conv_take_nth_drop assms(1))
  ultimately show ?thesis using that by blast
qed

lemma pool_inv_step:
  assumes inv: "pool_inv cfg r" and ids: "distinct (handle_ids r)" and step: "team_step ts r r'"
  shows "pool_inv cfg r'"
  using step
proof cases
  case (spawned t rest pool)
  let ?key = "(agent_name (subtask_id t), subtask_id t, subtask_agent_type t)"
  have got: "acquire_slot ?key (run_pool r) = Inr pool"
    using spawned by (simp add: acquire_slot_def acquire_for_def)
  have slots: "map fst (pool_active pool) =
      (if agent_name (subtask_id t) \<in> set (slots r) then slots r else slots r @ [agent_name (subtask_id t)])"
  proof -
    have "\<exists>s. pool_active pool = AList.update (agent_name (subtask_id t)) s (pool_active (run_pool r))"
      using got by (auto simp: acquire_slot_def acquire_def split: if_splits)
    then show ?thesis unfolding slots_def by (metis update_keys)
  qed
  have r': "slots r' = map fst (pool_active pool)" "run_pool r' = pool" "run_panicked r' = run_panicked r"
    "run_started r' = run_started r @ [subtask_id t]"
    using spawned by (simp_all add: spawn_task_def slots_def)
  define h where "h = \<lparr>handle_task = t, handle_context = dependency_context t (run_completed r), handle_end = None\<rparr>"
  have h: "handle_agent h = agent_name (subtask_id t)" "running r' = running r @ [h]"
    using spawned by (simp_all add: spawn_task_def running_def handle_agent_def h_def)
  have len: "length (slots r') \<le> Suc (length (slots r))" "length (slots r) < unat (max_concurrent cfg)"
    using agents.take_grants [OF got] inv unfolding r'(1) slots by (simp_all add: pool_inv_def slots_def)
  have "distinct (slots r')" "set (slots r') = insert (agent_name (subtask_id t)) (set (slots r))"
    using inv unfolding r'(1) slots by (auto simp: pool_inv_def)
  moreover have "length (run_started r') \<le> unat (max_agents cfg)" "unat (pool_started pool) = length (run_started r')"
    using agents.take_grants [OF got] agents.take_uses [OF got] inv by (simp_all add: r'(4) pool_inv_def)
  moreover have "length (slots r') \<le> length (running r') + run_panicked r'"
    using len(1) inv by (simp add: pool_inv_def h(2) r'(3))
  moreover have "handle_agent ` set (running r') \<subseteq> insert (agent_name (subtask_id t)) (set (slots r))"
    using inv h by (auto simp: pool_inv_def)
  moreover have "pool_capacity pool = pool_capacity (run_pool r)" "pool_lifetime_cap pool = pool_lifetime_cap (run_pool r)"
    using got by (auto simp: acquire_slot_def acquire_def split: if_splits)
  ultimately show ?thesis
    using inv len by (simp add: pool_inv_def r'(2))
next
  case (ended i e)
  then obtain as bs where split: "running r = as @ (run_handles r ! i) # bs" "running r' = as @ bs"
    using running_split [of i r r' e] by auto
  let ?a = "handle_agent (run_handles r ! i)"
  have "distinct (map handle_agent (run_handles r))"
    using ids by (simp add: handle_ids_def handle_agent_def distinct_map inj_on_def)
  then have "distinct (map handle_agent (running r))" by (simp add: running_def distinct_map_filter)
  then have fresh: "?a \<notin> handle_agent ` set (running r')" by (auto simp: split)
  show ?thesis
  proof (cases "\<exists>msg. e = Panicked msg")
    case True
    then have same: "run_pool r' = run_pool r" "run_panicked r' = Suc (run_panicked r)"
      using ended by (auto simp: end_task_def Let_def)
    then have "slots r' = slots r" by (simp add: slots_def)
    moreover have "run_started r' = run_started r" using ended(1) by simp
    ultimately show ?thesis using same inv by (auto simp: pool_inv_def split)
  next
    case False
    then have pool: "run_pool r' = release ?a (run_pool r)" "run_panicked r' = run_panicked r"
      using ended by (auto simp: end_task_def Let_def split: task_end.splits)
    then have slots: "slots r' = removeAll ?a (slots r)" by (simp add: slots_def release_def delete_keys)
    have "?a \<in> set (slots r)" "distinct (slots r)" using inv split by (auto simp: pool_inv_def)
    then have "length (slots r') = length (slots r) - 1" "distinct (slots r')"
      by (simp_all add: slots length_remove1 flip: distinct_remove1_removeAll)
    moreover have "run_started r' = run_started r" using ended(1) by simp
    moreover have "handle_agent ` set (running r') \<subseteq> set (slots r)"
      using inv by (auto simp: split pool_inv_def)
    then have "handle_agent ` set (running r') \<subseteq> set (slots r')"
      using fresh unfolding slots set_removeAll by blast
    moreover have "0 < length (slots r)" using \<open>?a \<in> set (slots r)\<close> by auto
    moreover have "length (slots r) \<le> Suc (length (running r')) + run_panicked r"
      using inv by (simp add: pool_inv_def split)
    ultimately show ?thesis
      using inv pool by (auto simp: pool_inv_def release_def)
  qed
next
  case (joined h rest e)
  with inv show ?thesis by (simp add: pool_inv_def slots_def running_def)
qed (use inv in \<open>simp_all add: pool_inv_def open_wave_def slots_def running_def\<close>)

lemma pool_inv_start: "pool_inv cfg (start_run cfg ws)"
  by (simp add: pool_inv_def start_run_def slots_def running_def agent_pool_of_def with_lifetime_cap_def)

lemma reaches_pool:
  assumes "wave_plan ts ws" and "reaches cfg ts ws r"
  shows "pool_inv cfg r"
  using assms(2) unfolding reaches_def
proof (induction rule: rtranclp_induct)
  case base
  show ?case by (rule pool_inv_start)
next
  case (step r r')
  then have "reaches cfg ts ws r" by (simp add: reaches_def)
  from reaches_order [OF assms(1) this] started_distinct(2) [OF assms(1)] have "distinct (handle_ids r)" by blast
  with step pool_inv_step show ?case by blast
qed

section \<open>Contexts\<close>

lemma context_unchanged:
  "x \<notin> set (subtask_dependencies t) \<Longrightarrow> dependency_context t (m(x \<mapsto> v)) = dependency_context t m"
  unfolding dependency_context_def List.map_filter_def by (intro arg_cong [where f = "join_with _"] map_cong filter_cong) auto

lemma contexts_step:
  assumes "wave_plan ts ws" and "order_inv ts ws k r"
    and "\<forall>h\<in>set (run_handles r). handle_context h = dependency_context (handle_task h) (run_completed r)"
    and "team_step ts r r'"
  shows "\<forall>h\<in>set (run_handles r'). handle_context h = dependency_context (handle_task h) (run_completed r')"
  using assms(4)
proof cases
  case (joined h rest e)
  have "subtask_id (handle_task h) \<notin> set (subtask_dependencies (handle_task h'))" if "h' \<in> set rest" for h'
    using dependencies_joined(2) [OF assms(1,2), of h'] that joined(4) by (auto simp: handle_ids_def)
  with joined assms(3) show ?thesis
    by (auto simp: join_task_def context_unchanged split: task_end.splits)
next
  case (ended i e)
  then have "run_handles r ! i \<in> set (run_handles r)" by simp
  with ended assms(3) show ?thesis
    by (auto dest!: subsetD [OF set_update_subset_insert])
qed (use assms(3) in \<open>auto simp: open_wave_def spawn_task_def\<close>)

lemma reaches_contexts:
  assumes "wave_plan ts ws" and "reaches cfg ts ws r"
  shows "\<forall>h\<in>set (run_handles r). handle_context h = dependency_context (handle_task h) (run_completed r)"
  using assms(2) unfolding reaches_def
proof (induction rule: rtranclp_induct)
  case base
  show ?case by (simp add: start_run_def)
next
  case (step r r')
  then have "reaches cfg ts ws r" by (simp add: reaches_def)
  with reaches_order [OF assms(1)] obtain k where "order_inv ts ws k r" by blast
  from contexts_step [OF assms(1) this step.IH step.hyps(2)] show ?case .
qed

section \<open>Progress\<close>

lemma progress:
  assumes "pool_inv cfg r" and "run_outcome r = None" and "run_panicked r < unat (max_concurrent cfg)"
  shows "\<exists>r'. team_step ts r r'"
proof (cases "run_queue r")
  case Nil
  show ?thesis
  proof (cases "run_handles r")
    case Nil
    with \<open>run_queue r = []\<close> assms(2) show ?thesis
      by (cases "run_waves r") (blast intro: team_step.intros)+
  next
    case (Cons h rest)
    show ?thesis
    proof (cases "handle_end h")
      case None
      with Cons ended [of 0 r] show ?thesis by auto
    next
      case (Some e)
      with Cons \<open>run_queue r = []\<close> assms(2) show ?thesis by (blast intro: team_step.intros)
    qed
  qed
next
  case (Cons t rest)
  show ?thesis
  proof (cases "may_try r")
    case True
    with Cons assms(2) show ?thesis
      by (cases "acquire_for t (run_pool r)") (blast intro: team_step.intros)+
  next
    case False
    then have "unat (max_concurrent cfg) \<le> length (slots r)"
      using assms(1) by (simp add: may_try_def can_spawn_def slots_def pool_inv_def)
    with assms(1,3) have "running r \<noteq> []" by (auto simp: pool_inv_def)
    then obtain h where "h \<in> set (run_handles r)" "handle_end h = None"
      unfolding running_def by (auto simp: filter_empty_conv)
    then show ?thesis by (metis in_set_conv_nth ended)
  qed
qed

section \<open>Properties of a concurrent run\<close>




section \<open>A concrete run\<close>

definition pair_of_tasks :: "subtask list" where
  "pair_of_tasks = [waits_for ''a'' [], waits_for ''b'' [''a'']]"

definition one_at_a_time :: orchestrator_config where
  "one_at_a_time = default_orchestrator\<lparr>max_concurrent := 1\<rparr>"

text \<open>The runner tries to spawn the next subtask of its queue.\<close>

definition try_spawn :: "team_run \<Rightarrow> team_run" where
  "try_spawn r =
     (case run_queue r of
        [] \<Rightarrow> r
      | t # rest \<Rightarrow>
          (case acquire_for t (run_pool r) of Inl e \<Rightarrow> r\<lparr>run_outcome := Some (Inl e)\<rparr> | Inr p \<Rightarrow> spawn_task t rest p r))"

lemma try_spawn_step:
  "run_outcome r = None \<Longrightarrow> run_queue r \<noteq> [] \<Longrightarrow> may_try r \<Longrightarrow> team_step ts r (try_spawn r)"
  by (auto simp: try_spawn_def neq_Nil_conv intro: team_step.intros split: sum.splits)

definition opened :: team_run where
  "opened = open_wave pair_of_tasks [''a''] [[''b'']] (start_run one_at_a_time [[''a''], [''b'']])"

definition first_joined :: team_run where
  "first_joined =
     (let r = end_task 0 (Returned ''built'') (try_spawn opened)
      in join_task (run_handles r ! 0) (Returned ''built'') [] r)"

definition second_spawned :: team_run where
  "second_spawned = try_spawn (open_wave pair_of_tasks [''b''] [] first_joined)"

lemma pair_plan: "\<exists>g. plan kahn_positions pair_of_tasks ''s'' 1 = Inr (g, [[''a''], [''b'']])"
proof -
  have "waves kahn_positions ((new_graph [] (TeamOrigin []))\<lparr>nodes := map lower_subtask pair_of_tasks\<rparr>)
      = Inr [[''a''], [''b'']]" by code_simp
  then show ?thesis by (simp add: plan_waves)
qed

lemma reaches_step: "reaches cfg ts ws r \<Longrightarrow> team_step ts r r' \<Longrightarrow> reaches cfg ts ws r'"
  unfolding reaches_def by (rule rtranclp.rtrancl_into_rtrancl)

lemma pair_reaches: "reaches one_at_a_time pair_of_tasks [[''a''], [''b'']] second_spawned"
proof -
  let ?ts = pair_of_tasks and ?s0 = "start_run one_at_a_time [[''a''], [''b'']]"
  have 1: "team_step ?ts ?s0 opened"
    unfolding opened_def by (rule next_wave) (simp_all add: start_run_def)
  have 2: "team_step ?ts opened (try_spawn opened)"
    by (rule try_spawn_step; code_simp)
  have 3: "team_step ?ts (try_spawn opened) (end_task 0 (Returned ''built'') (try_spawn opened))"
    by (rule ended; code_simp)
  have 4: "team_step ?ts (end_task 0 (Returned ''built'') (try_spawn opened)) first_joined"
    unfolding first_joined_def Let_def by (rule joined; code_simp)
  have 5: "team_step ?ts first_joined (open_wave ?ts [''b''] [] first_joined)"
    by (rule next_wave; code_simp)
  have 6: "team_step ?ts (open_wave ?ts [''b''] [] first_joined) second_spawned"
    unfolding second_spawned_def by (rule try_spawn_step; code_simp)
  have "reaches one_at_a_time ?ts [[''a''], [''b'']] ?s0" by (simp add: reaches_def)
  from reaches_step [OF reaches_step [OF reaches_step [OF reaches_step [OF reaches_step [OF reaches_step
      [OF this 1] 2] 3] 4] 5] 6] show ?thesis .
qed




section \<open>A panic can block a run\<close>

text \<open>A task that panics keeps its slot: with one slot, the runner then polls for ever for the next
  subtask of the wave, with no task running.\<close>

definition blocked_run :: team_run where
  "blocked_run = end_task 0 (Panicked ''index out of bounds'')
     (try_spawn (open_wave [waits_for ''a'' [], waits_for ''b'' []] [''a'', ''b''] []
       (start_run one_at_a_time [[''a'', ''b'']])))"

lemma blocked_run_is_stuck:
  "run_outcome blocked_run = None \<and> run_queue blocked_run = [waits_for ''b'' []] \<and> \<not> may_try blocked_run
   \<and> running blocked_run = []"
  by (intro conjI; code_simp)

lemma a_panic_can_block_the_run: "\<not> team_step ts blocked_run r'"
proof
  assume "team_step ts blocked_run r'"
  moreover note blocked_run_is_stuck
  moreover have "list_all (\<lambda>h. handle_end h \<noteq> None) (run_handles blocked_run)" by code_simp
  ultimately show False by cases (auto simp: list_all_length)
qed

end
