(* ===== verification/Topo_Trace.thy ===== *)
theory Topo_Trace imports Topo_IR begin

text \<open>
  The ambient trace of \<^verbatim>\<open>crates/archon-topology/src/trace/\<close>: the record and its builders
  (\<^verbatim>\<open>record.rs\<close>), the encoder that sheds optional fields until a line fits (\<^verbatim>\<open>writer.rs\<close>), the
  tolerant reader (\<^verbatim>\<open>reader.rs\<close>), and the directory name of a graph (\<^verbatim>\<open>paths.rs\<close>). The JSON
  of \<^verbatim>\<open>serde_json\<close> is a pair of parameters; \<open>json_line\<close> says what the format relies on: an
  object is written without a newline and is read back. The lemmas show that what is appended is read back, also while a line is being
  written, and that a graph id names one plain entry of the topology directory.
\<close>

datatype trace_kind =
    GraphDeclared | NodeStarted | NodeFinished | AgentSpawned | ToolAttempt | FileWritten
  | FileRead | GatePassed | Verification | Retry | UnknownKind

record trace_record =
  trace_ts :: string
  trace_graph_id :: string
  trace_node_id :: string
  trace_kind :: trace_kind
  trace_parent :: "string option"
  trace_agent :: "string option"
  trace_tool :: "string option"
  trace_permission :: "permission_class option"
  trace_blocked :: bool
  trace_error :: bool
  trace_writes :: "write_target list"
  trace_reads :: "write_target list"
  trace_duration_ms :: "64 word option"
  trace_attempt :: "u32 option"
  trace_detail :: "string option"

definition MAX_DETAIL_CHARS :: nat where
  "MAX_DETAIL_CHARS = 512"

definition MAX_RECORD_BYTES :: nat where
  "MAX_RECORD_BYTES = 16 * 1024"

definition new_record :: "string \<Rightarrow> string \<Rightarrow> trace_kind \<Rightarrow> trace_record" where
  "new_record ts graph kind =
     \<lparr>trace_ts = ts, trace_graph_id = graph, trace_node_id = [], trace_kind = kind, trace_parent = None,
      trace_agent = None, trace_tool = None, trace_permission = None, trace_blocked = False,
      trace_error = False, trace_writes = [], trace_reads = [], trace_duration_ms = None,
      trace_attempt = None, trace_detail = None\<rparr>"

definition truncate_chars :: "string \<Rightarrow> nat \<Rightarrow> string" where
  "truncate_chars v limit = (if length v \<le> limit then v else take limit v)"

definition record_with_outcome :: "bool \<Rightarrow> bool \<Rightarrow> trace_record \<Rightarrow> trace_record" where
  "record_with_outcome blocked error r = r\<lparr>trace_blocked := blocked, trace_error := error\<rparr>"

definition record_with_detail :: "string \<Rightarrow> trace_record \<Rightarrow> trace_record" where
  "record_with_detail detail r = r\<lparr>trace_detail := Some (truncate_chars detail MAX_DETAIL_CHARS)\<rparr>"

section \<open>The directory of a graph\<close>

definition is_plain_id_char :: "char \<Rightarrow> bool" where
  "is_plain_id_char c \<longleftrightarrow> is_ascii_alnum c \<or> c = CHR ''-'' \<or> c = CHR ''_'' \<or> c = CHR ''.''"

definition sanitize_graph_id :: "string \<Rightarrow> string" where
  "sanitize_graph_id graph =
     (let sanitized = map (\<lambda>c. if is_plain_id_char c then c else CHR ''_'') graph
      in if list_all (\<lambda>c. c = CHR ''.'') sanitized then ''unnamed''
         else if starts_with sanitized ''.'' then ''_'' @ sanitized
         else sanitized)"

section \<open>Writing\<close>

definition shed_targets :: "trace_record \<Rightarrow> trace_record" where
  "shed_targets r = r\<lparr>trace_writes := [], trace_reads := []\<rparr>"

definition minimal_record :: "trace_record \<Rightarrow> trace_record" where
  "minimal_record r =
     (new_record (truncate_chars (trace_ts r) 64) (truncate_chars (trace_graph_id r) 256) (trace_kind r))
       \<lparr>trace_node_id := truncate_chars (trace_node_id r) 256\<rparr>"

text \<open>The record that is written for \<open>r\<close>: the first of the candidates whose line fits.\<close>

definition written_record :: "(trace_record \<Rightarrow> string) \<Rightarrow> trace_record \<Rightarrow> trace_record" where
  "written_record to_json r =
     (let without_detail = r\<lparr>trace_detail := None\<rparr>;
          without_targets = shed_targets without_detail
      in if utf8_len (to_json r) < MAX_RECORD_BYTES then r
         else if utf8_len (to_json without_detail) < MAX_RECORD_BYTES then without_detail
         else if utf8_len (to_json without_targets) < MAX_RECORD_BYTES then without_targets
         else minimal_record r)"

definition encode_record :: "(trace_record \<Rightarrow> string) \<Rightarrow> trace_record \<Rightarrow> string" where
  "encode_record to_json r = to_json (written_record to_json r) @ [CHR 0x0A]"

definition append_record :: "(trace_record \<Rightarrow> string) \<Rightarrow> trace_record \<Rightarrow> string \<Rightarrow> string" where
  "append_record to_json r contents = contents @ encode_record to_json r"

section \<open>Reading\<close>

record trace_readout =
  readout_records :: "trace_record list"
  malformed_lines :: nat
  truncated_tail :: bool

definition empty_readout :: trace_readout where
  "empty_readout = \<lparr>readout_records = [], malformed_lines = 0, truncated_tail = False\<rparr>"

definition readout_is_empty :: "trace_readout \<Rightarrow> bool" where
  "readout_is_empty r \<longleftrightarrow> readout_records r = []"

text \<open>\<^verbatim>\<open>&contents[..=rfind('\n')]\<close>, and nothing when there is no newline.\<close>

definition complete_part :: "string \<Rightarrow> string" where
  "complete_part contents = rev (dropWhile (\<lambda>c. c \<noteq> CHR 0x0A) (rev contents))"

definition read_line :: "(string \<Rightarrow> trace_record option) \<Rightarrow> trace_readout \<Rightarrow> string \<Rightarrow> trace_readout" where
  "read_line of_json r line =
     (let line = trim line
      in if line = [] then r
         else
           (case of_json line of
              Some rec \<Rightarrow> r\<lparr>readout_records := readout_records r @ [rec]\<rparr>
            | None \<Rightarrow> r\<lparr>malformed_lines := malformed_lines r + 1\<rparr>))"

text \<open>\<^const>\<open>None\<close> stands for a file that does not exist.\<close>

definition read_trace :: "(string \<Rightarrow> trace_record option) \<Rightarrow> string option \<Rightarrow> trace_readout" where
  "read_trace of_json file =
     (case file of
        None \<Rightarrow> empty_readout
      | Some contents \<Rightarrow>
          foldl (read_line of_json)
            (empty_readout\<lparr>truncated_tail := contents \<noteq> [] \<and> \<not> ends_with contents [CHR 0x0A]\<rparr>)
            (str_lines (complete_part contents)))"

section \<open>Reading back what was appended\<close>

text \<open>What is used of the JSON library for a record: it writes one object on one line, and reads
  it back.\<close>

definition json_line :: "(trace_record \<Rightarrow> string) \<Rightarrow> (string \<Rightarrow> trace_record option) \<Rightarrow> trace_record \<Rightarrow> bool" where
  "json_line to_json of_json r \<longleftrightarrow>
     of_json (to_json r) = Some r \<and> CHR 0x0A \<notin> set (to_json r)
     \<and> starts_with (to_json r) ''{'' \<and> ends_with (to_json r) ''}''"

text \<open>The file holds complete lines only.\<close>

definition whole_lines :: "string \<Rightarrow> bool" where
  "whole_lines file \<longleftrightarrow> file = [] \<or> ends_with file [CHR 0x0A]"

lemma whole_lines_Nil [simp]: "whole_lines []"
  by (simp add: whole_lines_def)

lemma whole_lines_snoc [simp]: "whole_lines (file @ line @ [CHR 0x0A])"
  by (auto simp: whole_lines_def ends_with_iff)

lemma whole_lines_cases:
  assumes "whole_lines file"
  obtains "file = []" | f where "file = f @ [CHR 0x0A]"
  using assms by (auto simp: whole_lines_def ends_with_iff)

lemma complete_part_tail:
  assumes "whole_lines file" and "CHR 0x0A \<notin> set tail"
  shows "complete_part (file @ tail) = file"
proof -
  have "dropWhile (\<lambda>c. c \<noteq> CHR 0x0A) (rev tail @ rev file) = dropWhile (\<lambda>c. c \<noteq> CHR 0x0A) (rev file)"
    using assms(2) by (subst dropWhile_append2) auto
  then have *: "complete_part (file @ tail) = complete_part file"
    by (simp add: complete_part_def)
  from assms(1) show ?thesis
    unfolding * by (cases rule: whole_lines_cases) (simp_all add: complete_part_def)
qed

lemma split_on_line: "CHR 0x0A \<notin> set line \<Longrightarrow> split_on CHR 0x0A line = [line]"
  by (auto simp: split_on_def intro: split_by_none)

lemma str_lines_snoc:
  assumes "whole_lines file" and "CHR 0x0A \<notin> set line"
  shows "str_lines (file @ line @ [CHR 0x0A]) = str_lines file @ [strip_cr line]"
proof -
  have split: "split_on CHR 0x0A (s @ [CHR 0x0A]) = split_on CHR 0x0A s @ [[]]" for s
    by (simp add: split_on_def split_by_append)
  from assms(1) show ?thesis
  proof (cases rule: whole_lines_cases)
    case 1
    with split [of line] assms(2) show ?thesis by (simp add: str_lines_def split_on_line)
  next
    case (2 f)
    have "split_on CHR 0x0A (f @ CHR 0x0A # line @ [CHR 0x0A]) = split_on CHR 0x0A f @ [line] @ [[]]"
      using split [of line] assms(2) by (simp add: split_on_def split_by_append) (simp add: split_on_line [unfolded split_on_def])
    with 2 split [of f] show ?thesis by (simp add: str_lines_def butlast_append)
  qed
qed

lemma json_line_shape:
  assumes "json_line to_json of_json r"
  shows "of_json (to_json r) = Some r" "CHR 0x0A \<notin> set (to_json r)"
    "strip_cr (to_json r) = to_json r" "trim (to_json r) = to_json r" "to_json r \<noteq> []"
proof -
  obtain a where a: "to_json r = CHR ''{'' # a"
    using assms by (auto simp: json_line_def starts_with_iff)
  obtain b where b: "to_json r = b @ ''}''"
    using assms by (auto simp: json_line_def ends_with_iff)
  show "of_json (to_json r) = Some r" "CHR 0x0A \<notin> set (to_json r)"
    using assms by (simp_all add: json_line_def)
  show "to_json r \<noteq> []" using a by simp
  show "strip_cr (to_json r) = to_json r"
    using b by (auto simp: strip_cr_def strip_suffix_Some split: option.splits)
  have "trim_start (to_json r) = to_json r"
    unfolding a by (simp add: trim_start_def is_ws_def code_def)
  then show "trim (to_json r) = to_json r"
    unfolding trim_def by (simp add: b trim_end_def is_ws_def code_def)
qed

lemma read_line_record:
  assumes "json_line to_json of_json r"
  shows "read_line of_json out (strip_cr (to_json r)) =
    out\<lparr>readout_records := readout_records out @ [r]\<rparr>"
  using json_line_shape [OF assms] by (simp add: read_line_def Let_def)

lemma read_line_tail [simp]: "truncated_tail (read_line of_json out line) = truncated_tail out"
  by (simp add: read_line_def Let_def split: option.splits)

lemma read_line_flag:
  "read_line of_json (out\<lparr>truncated_tail := b\<rparr>) line = (read_line of_json out line)\<lparr>truncated_tail := b\<rparr>"
  by (simp add: read_line_def Let_def split: option.splits)

lemma foldl_read_line_flag:
  "foldl (read_line of_json) (out\<lparr>truncated_tail := b\<rparr>) ls =
     (foldl (read_line of_json) out ls)\<lparr>truncated_tail := b\<rparr>"
  by (induction ls arbitrary: out) (simp_all add: read_line_flag)

lemma read_whole_lines:
  assumes "whole_lines file" and "CHR 0x0A \<notin> set tail"
  shows "read_trace of_json (Some (file @ tail)) =
    (foldl (read_line of_json) empty_readout (str_lines file))\<lparr>truncated_tail := tail \<noteq> []\<rparr>"
proof -
  have "(file @ tail \<noteq> [] \<and> \<not> ends_with (file @ tail) [CHR 0x0A]) = (tail \<noteq> [])"
  proof (cases "tail = []")
    case True
    with assms(1) show ?thesis by (auto simp: whole_lines_def)
  next
    case False
    have "\<not> ends_with (file @ tail) [CHR 0x0A]"
    proof
      assume "ends_with (file @ tail) [CHR 0x0A]"
      then obtain f where "file @ tail = f @ [CHR 0x0A]" by (auto simp: ends_with_iff)
      with False have "last tail = CHR 0x0A" by (metis last_appendR last_snoc)
      with False assms(2) show False by (metis last_in_set)
    qed
    with False show ?thesis by simp
  qed
  then show ?thesis
    by (simp add: read_trace_def complete_part_tail [OF assms] foldl_read_line_flag)
qed

lemma read_fragment:
  assumes "whole_lines file" and "CHR 0x0A \<notin> set tail"
  shows "read_trace of_json (Some (file @ tail)) = (read_trace of_json (Some file))\<lparr>truncated_tail := tail \<noteq> []\<rparr>"
  using read_whole_lines [OF assms, of of_json] read_whole_lines [OF assms(1), of "[]" of_json] by simp

lemma append_extends_the_readout:
  assumes "whole_lines file" and "json_line to_json of_json (written_record to_json r)" and "CHR 0x0A \<notin> set tail"
  shows "whole_lines (append_record to_json r file)"
    and "read_trace of_json (Some (append_record to_json r file @ tail)) =
      (read_trace of_json (Some file))
        \<lparr>readout_records := readout_records (read_trace of_json (Some file)) @ [written_record to_json r],
         truncated_tail := tail \<noteq> []\<rparr>"
proof -
  let ?w = "written_record to_json r"
  have appended: "append_record to_json r file = file @ to_json ?w @ [CHR 0x0A]"
    by (simp add: append_record_def encode_record_def)
  then show whole: "whole_lines (append_record to_json r file)" by simp
  show "read_trace of_json (Some (append_record to_json r file @ tail)) =
      (read_trace of_json (Some file))
        \<lparr>readout_records := readout_records (read_trace of_json (Some file)) @ [?w],
         truncated_tail := tail \<noteq> []\<rparr>"
    using read_whole_lines [OF whole assms(3), of of_json] read_whole_lines [OF assms(1), of "[]" of_json]
      str_lines_snoc [OF assms(1) json_line_shape(2) [OF assms(2)]] read_line_record [OF assms(2)]
    by (simp add: appended)
qed

text \<open>
  C29. Whatever records are appended to a trace, reading it returns exactly the records that were
  written, in order and none malformed, also while a last line is still being written: a fragment
  without a newline is left out and flagged.
\<close>

theorem trace_reads_back:
  assumes "list_all (\<lambda>r. json_line to_json of_json (written_record to_json r)) rs"
    and "CHR 0x0A \<notin> set fragment"
  shows "read_trace of_json (Some (fold (append_record to_json) rs [] @ fragment)) =
    \<lparr>readout_records = map (written_record to_json) rs, malformed_lines = 0, truncated_tail = (fragment \<noteq> [])\<rparr>"
proof -
  have "whole_lines (fold (append_record to_json) rs []) \<and>
    read_trace of_json (Some (fold (append_record to_json) rs [])) =
      \<lparr>readout_records = map (written_record to_json) rs, malformed_lines = 0, truncated_tail = False\<rparr>"
    using assms(1)
  proof (induction rs rule: rev_induct)
    case Nil
    then show ?case by (simp add: read_trace_def complete_part_def str_lines_def split_on_def empty_readout_def)
  next
    case (snoc r rs)
    let ?file = "fold (append_record to_json) rs []"
    from snoc.prems have r: "json_line to_json of_json (written_record to_json r)"
      and rs: "list_all (\<lambda>r. json_line to_json of_json (written_record to_json r)) rs" by simp_all
    from snoc.IH [OF rs] have IH: "whole_lines ?file"
      "read_trace of_json (Some ?file) =
        \<lparr>readout_records = map (written_record to_json) rs, malformed_lines = 0, truncated_tail = False\<rparr>"
      by blast+
    from append_extends_the_readout [OF IH(1) r, of "[]"] IH(2) show ?case by simp
  qed
  then show ?thesis using read_fragment [OF _ assms(2)] by simp
qed

text \<open>A serializer for two records: the node's name in braces.\<close>

definition braces_json :: "trace_record \<Rightarrow> string" where
  "braces_json r = ''{'' @ trace_node_id r @ ''}''"

definition node_started :: "string \<Rightarrow> trace_record" where
  "node_started node = (new_record ''t0'' ''g'' NodeStarted)\<lparr>trace_node_id := node\<rparr>"

definition braces_of_json :: "string \<Rightarrow> trace_record option" where
  "braces_of_json line =
     (if starts_with line ''{'' \<and> ends_with line ''}'' then Some (node_started (butlast (tl line))) else None)"

theorem trace_reads_back_witness:
  "read_trace braces_of_json
     (Some (fold (append_record braces_json) [node_started ''plan'', node_started ''build''] [] @ ''{te'')) =
     \<lparr>readout_records = [node_started ''plan'', node_started ''build''], malformed_lines = 0, truncated_tail = True\<rparr>"
proof -
  have written: "written_record braces_json (node_started n) = node_started n" if "length n < 10" for n
  proof -
    have "utf8_len n \<le> 2 * length n" by (induction n) (auto simp: utf8_len_def)
    with that show ?thesis
      by (simp add: written_record_def braces_json_def node_started_def new_record_def utf8_len_def
          MAX_RECORD_BYTES_def Let_def code_def)
  qed
  have "list_all (\<lambda>r. json_line braces_json braces_of_json (written_record braces_json r))
      [node_started ''plan'', node_started ''build'']"
    by (simp add: written) (simp add: json_line_def braces_json_def braces_of_json_def node_started_def
        new_record_def starts_with_def ends_with_def)
  from trace_reads_back [OF this, of "''{te''"] show ?thesis by (simp add: written)
qed

text \<open>The fragment of a writer that died stays in the file: the next record is appended to it, and
  the two together are one malformed line.\<close>

lemma record_after_a_fragment_is_lost:
  "read_trace braces_of_json (Some (append_record braces_json (node_started ''build'') ''[''))
    = \<lparr>readout_records = [], malformed_lines = 1, truncated_tail = False\<rparr>"
  by code_simp

section \<open>What a written record keeps\<close>

text \<open>
  However large a record is, the record that is written for it has its kind and the start of
  its node's name, never a target that was not in it, and never one of the two target lists without
  the other.
\<close>

theorem written_record_is_truthful:
  "trace_kind (written_record to_json r) = trace_kind r
   \<and> prefix (trace_node_id (written_record to_json r)) (trace_node_id r)
   \<and> (trace_writes (written_record to_json r), trace_reads (written_record to_json r))
       \<in> {(trace_writes r, trace_reads r), ([], [])}
   \<and> (utf8_len (to_json r) < MAX_RECORD_BYTES \<longrightarrow> written_record to_json r = r)"
  by (simp add: written_record_def Let_def shed_targets_def minimal_record_def new_record_def
      truncate_chars_def take_is_prefix)

section \<open>The directory of a graph stays below the topology root\<close>

lemma plain_underscore [simp]: "is_plain_id_char CHR ''_''"
  by (simp add: is_plain_id_char_def)

text \<open>
  C38. Whatever a graph id holds, its directory name is one plain entry of the topology directory:
  it is not empty, has no separator, no character outside letters, digits and \<^verbatim>\<open>._-\<close>, does not
  start with a dot, and taking the name of a name changes nothing.
\<close>

theorem sanitized_id_is_one_plain_name:
  "sanitize_graph_id g \<noteq> [] \<and> list_all is_plain_id_char (sanitize_graph_id g)
   \<and> CHR ''/'' \<notin> set (sanitize_graph_id g) \<and> \<not> starts_with (sanitize_graph_id g) ''.''
   \<and> sanitize_graph_id (sanitize_graph_id g) = sanitize_graph_id g"
proof -
  define plain where "plain s \<longleftrightarrow> s \<noteq> [] \<and> list_all is_plain_id_char s \<and> \<not> starts_with s ''.''" for s
  let ?s = "map (\<lambda>c. if is_plain_id_char c then c else CHR ''_'') g"
  have chars: "list_all is_plain_id_char ?s" by (auto simp: list_all_iff)
  have "plain (sanitize_graph_id g)"
  proof (cases "list_all (\<lambda>c. c = CHR ''.'') ?s")
    case True
    then have "sanitize_graph_id g = ''unnamed''" by (simp add: sanitize_graph_id_def)
    moreover have "plain ''unnamed''" unfolding plain_def by code_simp
    ultimately show ?thesis by simp
  next
    case False
    then have "?s \<noteq> []" by auto
    moreover have "sanitize_graph_id g = (if starts_with ?s ''.'' then ''_'' @ ?s else ?s)"
      unfolding sanitize_graph_id_def Let_def using False by (simp only: if_False)
    ultimately show ?thesis using chars by (simp add: plain_def starts_with_def)
  qed
  moreover have "sanitize_graph_id s = s \<and> CHR ''/'' \<notin> set s" if "plain s" for s
  proof -
    from that obtain c cs where s: "s = c # cs" "c \<noteq> CHR ''.''" "list_all is_plain_id_char s"
      by (cases s) (auto simp: plain_def starts_with_def)
    from s(3) have "map (\<lambda>c. if is_plain_id_char c then c else CHR ''_'') s = s"
      by (auto simp: list_all_iff intro: map_idI)
    moreover have "\<not> is_plain_id_char CHR ''/''" by code_simp
    ultimately show ?thesis using s by (auto simp: sanitize_graph_id_def starts_with_def list_all_iff)
  qed
  ultimately show ?thesis unfolding plain_def by blast
qed

end
