(* ===== verification/Topo_Reconstruct.thy ===== *)
theory Topo_Reconstruct imports Topo_Trace begin

text \<open>
  \<^verbatim>\<open>crates/archon-topology/src/reconstruct.rs\<close>: the graph of a turn that declared none, built
  from its trace. The state of the loop is the map of drafts with the order of first appearance.
  The lemmas show that the loop computes, node by node, exactly what a direct reading of the trace
  says.
\<close>

definition ROOT_NODE_ID :: string where
  "ROOT_NODE_ID = ''turn''"

record node_draft =
  draft_depends_on :: "string list"
  draft_writes :: "write_target list"
  draft_reads :: "write_target list"
  draft_permission :: permission_class
  draft_agent :: "string option"
  draft_spawned :: bool
  draft_verified :: bool
  draft_gated :: bool
  draft_tool_attempts :: nat
  draft_retries :: nat

definition default_draft :: node_draft where
  "default_draft =
     \<lparr>draft_depends_on = [], draft_writes = [], draft_reads = [], draft_permission = PSafe,
      draft_agent = None, draft_spawned = False, draft_verified = False, draft_gated = False,
      draft_tool_attempts = 0, draft_retries = 0\<rparr>"

definition draft_role :: "node_draft \<Rightarrow> node_role" where
  "draft_role d =
     (if draft_gated d then GateNode CheckpointGate
      else if draft_verified d \<and> \<not> draft_spawned d then VerifyNode
      else if draft_spawned d then WorkNode
      else if 0 < draft_tool_attempts d then ToolNode
      else WorkNode)"

record drafts =
  draft_of :: "string \<Rightarrow> node_draft option"
  draft_order :: "string list"

definition touch :: "string \<Rightarrow> drafts \<Rightarrow> drafts" where
  "touch i st =
     (case draft_of st i of
        None \<Rightarrow> \<lparr>draft_of = (draft_of st)(i \<mapsto> default_draft), draft_order = draft_order st @ [i]\<rparr>
      | Some _ \<Rightarrow> st)"

definition push_absent :: "'a list \<Rightarrow> 'a \<Rightarrow> 'a list" where
  "push_absent xs x = (if x \<in> set xs then xs else xs @ [x])"

definition record_node :: "trace_record \<Rightarrow> string" where
  "record_node r = (if trace_node_id r = [] then ROOT_NODE_ID else trace_node_id r)"

text \<open>The parent a record names, when it is one: \<^verbatim>\<open>!parent.is_empty() && parent != node_id\<close>.\<close>

definition record_parent :: "trace_record \<Rightarrow> string option" where
  "record_parent r =
     (case trace_parent r of
        None \<Rightarrow> None
      | Some parent \<Rightarrow> if parent \<noteq> [] \<and> parent \<noteq> record_node r then Some parent else None)"

definition attach_parent :: "string \<Rightarrow> string \<Rightarrow> drafts \<Rightarrow> drafts" where
  "attach_parent node parent st =
     (let st = touch parent st
      in case draft_of st node of
           None \<Rightarrow> st
         | Some d \<Rightarrow>
             st\<lparr>draft_of := (draft_of st)(node \<mapsto>
               d\<lparr>draft_depends_on := push_absent (draft_depends_on d) parent\<rparr>)\<rparr>)"

definition is_repeat :: "trace_record \<Rightarrow> bool" where
  "is_repeat r \<longleftrightarrow> (case trace_attempt r of None \<Rightarrow> False | Some attempt \<Rightarrow> 0 < attempt)"

text \<open>What a record adds to the draft of its node.\<close>

definition absorb_kind :: "trace_record \<Rightarrow> node_draft \<Rightarrow> node_draft" where
  "absorb_kind r d =
     (case trace_kind r of
        AgentSpawned \<Rightarrow> d\<lparr>draft_spawned := True\<rparr>
      | Verification \<Rightarrow> d\<lparr>draft_verified := True\<rparr>
      | GatePassed \<Rightarrow> d\<lparr>draft_gated := True\<rparr>
      | ToolAttempt \<Rightarrow>
          d\<lparr>draft_tool_attempts := draft_tool_attempts d + 1,
            draft_retries := (if is_repeat r then draft_retries d + 1 else draft_retries d)\<rparr>
      | Retry \<Rightarrow> d\<lparr>draft_retries := draft_retries d + 1\<rparr>
      | _ \<Rightarrow> d)"

definition absorb_record :: "trace_record \<Rightarrow> node_draft \<Rightarrow> node_draft" where
  "absorb_record r d =
     absorb_kind r
       (d\<lparr>draft_agent := (case draft_agent d of None \<Rightarrow> trace_agent r | Some a \<Rightarrow> Some a),
          draft_permission :=
            (case trace_permission r of
               Some p \<Rightarrow> if draft_permission d < p then p else draft_permission d
             | None \<Rightarrow> draft_permission d),
          draft_writes := foldl push_absent (draft_writes d) (trace_writes r),
          draft_reads := foldl push_absent (draft_reads d) (trace_reads r)\<rparr>)"

definition observe_record :: "drafts \<Rightarrow> trace_record \<Rightarrow> drafts" where
  "observe_record st r =
     (if trace_kind r = UnknownKind \<or> trace_kind r = GraphDeclared then st
      else
        let node = record_node r;
            st = touch node st;
            st = (case record_parent r of None \<Rightarrow> st | Some parent \<Rightarrow> attach_parent node parent st)
        in case draft_of st node of
             None \<Rightarrow> st
           | Some d \<Rightarrow> st\<lparr>draft_of := (draft_of st)(node \<mapsto> absorb_record r d)\<rparr>)"

definition no_drafts :: drafts where
  "no_drafts = \<lparr>draft_of = (\<lambda>_. None), draft_order = []\<rparr>"

definition node_of_draft :: "string \<Rightarrow> node_draft \<Rightarrow> task_node" where
  "node_of_draft i d =
     (new_node i (draft_role d))
       \<lparr>depends_on := btree_list (draft_depends_on d),
        node_writes := btree_list (draft_writes d),
        node_reads := btree_list (draft_reads d),
        node_permission := draft_permission d,
        node_agent := draft_agent d\<rparr>"

fun emit_nodes :: "(string \<Rightarrow> node_draft option) \<Rightarrow> string list \<Rightarrow> task_node list" where
  "emit_nodes drafts [] = []"
| "emit_nodes drafts (i # order) =
     (case drafts i of
        None \<Rightarrow> emit_nodes drafts order
      | Some d \<Rightarrow> node_of_draft i d # emit_nodes (drafts(i := None)) order)"

definition reconstruct_graph :: "string \<Rightarrow> graph_origin \<Rightarrow> trace_record list \<Rightarrow> task_graph" where
  "reconstruct_graph i origin records =
     (let st = foldl observe_record no_drafts records;
          ns = emit_nodes (draft_of st) (draft_order st);
          g = new_graph i origin
      in g\<lparr>nodes := ns,
           graph_budget := (graph_budget g)
             \<lparr>budget_max_agents :=
                max (case u32_try_from (length ns) of Some n \<Rightarrow> n | None \<Rightarrow> u32_max) 1,
              budget_max_rounds := 1\<rparr>\<rparr>)"

definition is_retry :: "trace_record \<Rightarrow> bool" where
  "is_retry r \<longleftrightarrow> trace_kind r = Retry \<or> (trace_kind r = ToolAttempt \<and> is_repeat r)"

definition observed_retries :: "trace_record list \<Rightarrow> string \<Rightarrow> nat option" where
  "observed_retries records =
     foldl (\<lambda>m r. if is_retry r
                   then m(record_node r \<mapsto> (case m (record_node r) of None \<Rightarrow> 0 | Some n \<Rightarrow> n) + 1) else m)
       (\<lambda>_. None) records"

section \<open>A direct reading of the trace\<close>

definition tells :: "trace_record \<Rightarrow> bool" where
  "tells r \<longleftrightarrow> trace_kind r \<noteq> UnknownKind \<and> trace_kind r \<noteq> GraphDeclared"

definition about :: "trace_record list \<Rightarrow> string \<Rightarrow> trace_record list" where
  "about records i = filter (\<lambda>r. tells r \<and> record_node r = i) records"

definition firsts :: "'a list \<Rightarrow> 'a list" where
  "firsts xs = rev (remdups (rev xs))"

definition mentioned :: "trace_record list \<Rightarrow> string list" where
  "mentioned records =
     concat (map (\<lambda>r. if tells r then record_node r # case_option [] (\<lambda>p. [p]) (record_parent r) else []) records)"

definition told_role :: "trace_record list \<Rightarrow> node_role" where
  "told_role rs =
     (if GatePassed \<in> trace_kind ` set rs then GateNode CheckpointGate
      else if AgentSpawned \<in> trace_kind ` set rs then WorkNode
      else if Verification \<in> trace_kind ` set rs then VerifyNode
      else if ToolAttempt \<in> trace_kind ` set rs then ToolNode
      else WorkNode)"

definition told_node :: "trace_record list \<Rightarrow> string \<Rightarrow> task_node" where
  "told_node records i =
     (let rs = about records i
      in \<lparr>node_id = i, node_role = told_role rs,
          depends_on = btree_list (List.map_filter record_parent rs), consumes = [],
          node_writes = btree_list (concat (map trace_writes rs)),
          node_reads = btree_list (concat (map trace_reads rs)),
          node_permission = Max (insert PSafe (set (List.map_filter trace_permission rs))),
          node_agent = (case List.map_filter trace_agent rs of [] \<Rightarrow> None | a # _ \<Rightarrow> Some a),
          node_fanout = None\<rparr>)"

lemma set_firsts [simp]: "set (firsts xs) = set xs"
  by (simp add: firsts_def)

lemma distinct_firsts [simp]: "distinct (firsts xs)"
  by (simp add: firsts_def)

lemma firsts_Nil [simp]: "firsts [] = []"
  by (simp add: firsts_def)

lemma firsts_snoc: "firsts (xs @ [x]) = push_absent (firsts xs) x"
  by (simp add: firsts_def push_absent_def)

lemma foldl_push_absent: "foldl push_absent (firsts xs) ys = firsts (xs @ ys)"
  by (induction ys rule: rev_induct) (simp_all add: firsts_snoc flip: append_assoc)

lemma btree_firsts [simp]: "btree_list (firsts xs) = btree_list xs"
  by (simp add: btree_list_eq_iff)

lemma about_snoc: "about (rs @ [r]) i = about rs i @ (if tells r \<and> record_node r = i then [r] else [])"
  by (simp add: about_def)

lemma map_filter_append: "List.map_filter f (xs @ ys) = List.map_filter f xs @ List.map_filter f ys"
  by (simp add: List.map_filter_def)

lemma map_filter_single: "List.map_filter f [x] = (case f x of None \<Rightarrow> [] | Some y \<Rightarrow> [y])"
  by (simp add: List.map_filter_def split: option.splits)

lemmas about_simps = about_snoc map_filter_append map_filter_single foldl_push_absent firsts_snoc

text \<open>The draft that a list of records amounts to, with the collections in order of appearance.\<close>

definition told_draft :: "trace_record list \<Rightarrow> node_draft" where
  "told_draft rs =
     \<lparr>draft_depends_on = firsts (List.map_filter record_parent rs),
      draft_writes = firsts (concat (map trace_writes rs)),
      draft_reads = firsts (concat (map trace_reads rs)),
      draft_permission = foldl max PSafe (List.map_filter trace_permission rs),
      draft_agent = (case List.map_filter trace_agent rs of [] \<Rightarrow> None | a # _ \<Rightarrow> Some a),
      draft_spawned = (AgentSpawned \<in> trace_kind ` set rs),
      draft_verified = (Verification \<in> trace_kind ` set rs),
      draft_gated = (GatePassed \<in> trace_kind ` set rs),
      draft_tool_attempts = length (filter (\<lambda>r. trace_kind r = ToolAttempt) rs),
      draft_retries = length (filter is_retry rs)\<rparr>"

definition add_parent :: "trace_record \<Rightarrow> node_draft \<Rightarrow> node_draft" where
  "add_parent r d =
     (case record_parent r of
        None \<Rightarrow> d
      | Some p \<Rightarrow> d\<lparr>draft_depends_on := push_absent (draft_depends_on d) p\<rparr>)"

lemma told_draft_Nil: "told_draft [] = default_draft"
  by (simp add: told_draft_def default_draft_def List.map_filter_def)

lemma told_draft_snoc:
  assumes "tells r"
  shows "told_draft (rs @ [r]) = absorb_record r (add_parent r (told_draft rs))"
proof -
  have agent: "(case xs @ ys of [] \<Rightarrow> None | a # _ \<Rightarrow> Some a) =
      (case (case xs of [] \<Rightarrow> None | a # _ \<Rightarrow> Some a) of
         None \<Rightarrow> (case ys of [] \<Rightarrow> None | a # _ \<Rightarrow> Some a) | Some a \<Rightarrow> Some a)"
    for xs ys :: "string list"
    by (cases xs) auto
  have high: "(if x < y then y else x) = max x y" for x y :: permission_class
    by (cases "x < y") (auto simp: max_def)
  show ?thesis
    using assms
    by (cases "trace_kind r"; cases "record_parent r"; cases "trace_permission r"; cases "trace_agent r")
       (simp_all add: told_draft_def add_parent_def absorb_record_def absorb_kind_def about_simps agent
          is_retry_def tells_def high split: list.splits)
qed

text \<open>A state of the loop with the mentioned nodes \<open>ms\<close> and the drafts \<open>f\<close>.\<close>

definition state_of :: "string list \<Rightarrow> (string \<Rightarrow> node_draft) \<Rightarrow> drafts" where
  "state_of ms f = \<lparr>draft_of = (\<lambda>i. if i \<in> set ms then Some (f i) else None), draft_order = firsts ms\<rparr>"

lemma touch_state:
  assumes "i \<notin> set ms \<Longrightarrow> f i = default_draft"
  shows "touch i (state_of ms f) = state_of (ms @ [i]) f"
proof (cases "i \<in> set ms")
  case True
  then show ?thesis by (auto simp: touch_def state_of_def firsts_snoc push_absent_def fun_eq_iff)
next
  case False
  with assms show ?thesis by (auto simp: touch_def state_of_def firsts_snoc push_absent_def fun_eq_iff)
qed

lemma update_state:
  "i \<in> set ms \<Longrightarrow> (state_of ms f)\<lparr>draft_of := (draft_of (state_of ms f))(i \<mapsto> d)\<rparr> = state_of ms (f(i := d))"
  by (auto simp: state_of_def fun_eq_iff)

lemma draft_of_state [simp]: "draft_of (state_of ms f) i = (if i \<in> set ms then Some (f i) else None)"
  by (simp add: state_of_def)

lemma attach_parent_state:
  assumes "node \<in> set ms" and "p \<notin> set ms \<Longrightarrow> f p = default_draft"
  shows "attach_parent node p (state_of ms f) =
    state_of (ms @ [p]) (f(node := (f node)\<lparr>draft_depends_on := push_absent (draft_depends_on (f node)) p\<rparr>))"
  using assms by (simp add: attach_parent_def touch_state update_state)

lemma observe_state:
  assumes "tells r" and "\<And>i. i \<notin> set ms \<Longrightarrow> f i = default_draft"
  shows "observe_record (state_of ms f) r =
    state_of (ms @ record_node r # case_option [] (\<lambda>p. [p]) (record_parent r))
      (f(record_node r := absorb_record r (add_parent r (f (record_node r)))))"
proof (cases "record_parent r")
  case None
  with assms show ?thesis
    by (simp add: observe_record_def tells_def touch_state update_state add_parent_def Let_def)
next
  case (Some p)
  have "attach_parent (record_node r) p (state_of (ms @ [record_node r]) f) =
      state_of ((ms @ [record_node r]) @ [p]) (f(record_node r := add_parent r (f (record_node r))))"
    using assms(2) Some by (subst attach_parent_state) (auto simp: add_parent_def)
  with assms Some show ?thesis
    by (simp add: observe_record_def tells_def touch_state update_state Let_def)
qed

lemma drafts_are_told:
  "foldl observe_record no_drafts records = state_of (mentioned records) (\<lambda>i. told_draft (about records i))"
proof (induction records rule: rev_induct)
  case Nil
  show ?case by (simp add: no_drafts_def state_of_def mentioned_def)
next
  case (snoc r rs)
  have unmentioned: "told_draft (about rs i) = default_draft" if "i \<notin> set (mentioned rs)" for i
  proof -
    from that have "about rs i = []" by (auto simp: about_def mentioned_def filter_empty_conv)
    then show ?thesis by (simp add: told_draft_Nil)
  qed
  have mentions: "mentioned (rs @ [r]) = mentioned rs @
      (if tells r then record_node r # case_option [] (\<lambda>p. [p]) (record_parent r) else [])"
    by (simp add: mentioned_def)
  show ?case
  proof (cases "tells r")
    case True
    let ?f = "\<lambda>i. told_draft (about rs i)"
    have "(\<lambda>i. told_draft (about (rs @ [r]) i)) =
        ?f(record_node r := absorb_record r (add_parent r (?f (record_node r))))"
      by (rule ext) (simp add: about_snoc told_draft_snoc True)
    with True show ?thesis
      using snoc.IH observe_state [OF True, of "mentioned rs" ?f, OF unmentioned] mentions by simp
  next
    case False
    then have "observe_record st r = st" for st by (auto simp: observe_record_def tells_def)
    with False show ?thesis using snoc.IH by (simp add: about_snoc mentions)
  qed
qed

section \<open>The reconstructed graph\<close>

lemma emit_nodes_map:
  assumes "distinct order" and "list_all (\<lambda>i. f i \<noteq> None) order"
  shows "emit_nodes f order = map (\<lambda>i. node_of_draft i (the (f i))) order"
  using assms
proof (induction order arbitrary: f)
  case (Cons i order)
  then have rest: "emit_nodes (f(i := None)) order = map (\<lambda>j. node_of_draft j (the ((f(i := None)) j))) order"
    by (intro Cons.IH) (auto simp: list_all_iff)
  have same: "map (\<lambda>j. node_of_draft j (the ((f(i := None)) j))) order = map (\<lambda>j. node_of_draft j (the (f j))) order"
    using Cons.prems(1) by (intro map_cong) auto
  from Cons.prems(2) obtain d where "f i = Some d" by auto
  with rest same show ?case by simp
qed simp

lemma foldl_max: "foldl max (a :: 'a :: linorder) xs = Max (insert a (set xs))"
  by (induction xs rule: rev_induct) (simp_all add: insert_commute max.commute)

lemma node_of_told_draft: "node_of_draft i (told_draft (about records i)) = told_node records i"
  by (auto simp: node_of_draft_def told_node_def told_draft_def new_node_def Let_def foldl_max
      draft_role_def told_role_def filter_empty_conv image_iff)

lemma reconstructed_nodes:
  "nodes (reconstruct_graph i origin records) = map (told_node records) (firsts (mentioned records))"
proof -
  have "nodes (reconstruct_graph i origin records) =
      emit_nodes (draft_of (foldl observe_record no_drafts records)) (draft_order (foldl observe_record no_drafts records))"
    by (simp add: reconstruct_graph_def Let_def)
  also have "\<dots> = emit_nodes (draft_of (state_of (mentioned records) (\<lambda>i. told_draft (about records i)))) (firsts (mentioned records))"
    by (simp add: drafts_are_told) (simp add: state_of_def)
  also have "\<dots> = map (told_node records) (firsts (mentioned records))"
    by (subst emit_nodes_map) (auto simp: list_all_iff node_of_told_draft)
  finally show ?thesis .
qed

lemma told_node_id [simp]: "node_id (told_node records i) = i"
  by (simp add: told_node_def Let_def)

lemma told_parents: "set (depends_on (told_node records i)) =
    {p. \<exists>r \<in> set records. tells r \<and> record_node r = i \<and> record_parent r = Some p}"
  by (force simp: told_node_def Let_def about_def List.map_filter_def)

lemma parents_are_mentioned: "set (depends_on (told_node records i)) \<subseteq> set (mentioned records)"
proof
  fix p
  assume "p \<in> set (depends_on (told_node records i))"
  then obtain r where "r \<in> set records" "tells r" "record_parent r = Some p"
    unfolding told_parents by blast
  then show "p \<in> set (mentioned records)"
    by (auto simp: mentioned_def intro!: bexI [of _ r])
qed

lemma no_self_parent: "i \<notin> set (depends_on (told_node records i))"
  by (auto simp: told_parents record_parent_def split: option.splits if_splits)


text \<open>Spawn parentage need not be a tree: two records with different parents give a node two
  dependencies, and two nodes that name each other give a cycle.\<close>

definition seen_with_parent :: "string \<Rightarrow> string \<Rightarrow> trace_record" where
  "seen_with_parent node parent =
     (new_record ''t0'' ''g'' AgentSpawned)\<lparr>trace_node_id := node, trace_parent := Some parent\<rparr>"

lemma parentage_is_not_a_tree:
  "map depends_on (nodes (reconstruct_graph ''g'' (SessionOrigin ''s'')
      [seen_with_parent ''c'' ''a'', seen_with_parent ''c'' ''b''])) = [[''a'', ''b''], [], []]"
  "map depends_on (nodes (reconstruct_graph ''g'' (SessionOrigin ''s'')
      [seen_with_parent ''a'' ''b'', seen_with_parent ''b'' ''a''])) = [[''b''], [''a'']]"
proof -
  have deps: "map depends_on (nodes (reconstruct_graph i origin records)) =
      map (\<lambda>n. btree_list (List.map_filter record_parent (about records n))) (firsts (mentioned records))"
    for i origin records
    by (simp add: reconstructed_nodes told_node_def Let_def)
  show "map depends_on (nodes (reconstruct_graph ''g'' (SessionOrigin ''s'')
      [seen_with_parent ''c'' ''a'', seen_with_parent ''c'' ''b''])) = [[''a'', ''b''], [], []]"
    unfolding deps by code_simp
  show "map depends_on (nodes (reconstruct_graph ''g'' (SessionOrigin ''s'')
      [seen_with_parent ''a'' ''b'', seen_with_parent ''b'' ''a''])) = [[''b''], [''a'']]"
    unfolding deps by code_simp
qed

section \<open>Retries\<close>

lemma observed_retries_count:
  "observed_retries records i =
     (let n = length (filter (\<lambda>r. is_retry r \<and> record_node r = i) records)
      in if n = 0 then None else Some n)"
proof (induction records rule: rev_induct)
  case (snoc r rs)
  have step: "observed_retries (rs @ [r]) =
      (if is_retry r then (observed_retries rs)(record_node r \<mapsto>
         (case observed_retries rs (record_node r) of None \<Rightarrow> 0 | Some n \<Rightarrow> n) + 1) else observed_retries rs)"
    by (simp add: observed_retries_def)
  show ?case
    using snoc.IH by (auto simp: step Let_def split: option.splits if_splits)
qed (simp add: observed_retries_def)

text \<open>The two counts of retries agree for the graph's nodes.\<close>

lemma retries_agree:
  "draft_retries (told_draft (about records i)) =
     (case observed_retries records i of None \<Rightarrow> 0 | Some n \<Rightarrow> n)"
proof -
  have "filter is_retry (about records i) = filter (\<lambda>r. is_retry r \<and> record_node r = i) records"
    by (auto simp: about_def tells_def is_retry_def intro!: filter_cong)
  then show ?thesis by (simp add: told_draft_def observed_retries_count Let_def)
qed

end
