(* ===== verification/Live_Wiring.thy ===== *)
theory Live_Wiring imports Live_Writers Topo_Reconstruct Team_Plan Write_Paths begin

text \<open>
  The wiring between the tool calls of a process and the live tracker:
  \<^verbatim>\<open>src/command/topology_admission.rs\<close> with \<^verbatim>\<open>session.rs\<close> and \<^verbatim>\<open>translate.rs\<close>, the readers of untyped
  payloads it shares with the trace (\<^verbatim>\<open>topology_trace/payload.rs\<close>), the tool tap
  (\<^verbatim>\<open>topology_trace/tool_tap.rs\<close>) and the configuration (\<^verbatim>\<open>archon-core/src/config/topology.rs\<close>). The
  process-wide slot is an optional tracker. The lemmas show that the wiring only ever reaches
  states of the tracker's own step relation, so that its guarantees carry over, and what the
  attribution of all writes to the turn root means for the single-writer check.
\<close>

section \<open>Reading payloads\<close>

definition WRITE_PATH_KEYS :: "string list" where
  "WRITE_PATH_KEYS = [''file_path'', ''path'', ''notebook_path'', ''target_file'']"

definition WRITING_TOOLS :: "string list" where
  "WRITING_TOOLS = [''Write'', ''Edit'', ''MultiEdit'', ''ApplyPatch'', ''NotebookEdit'']"

definition READ_PATH_KEYS :: "string list" where
  "READ_PATH_KEYS = [''file_path'', ''notebook_path'']"

definition READING_TOOLS :: "string list" where
  "READING_TOOLS = [''Read'', ''NotebookRead'', ''Edit'', ''MultiEdit'']"

definition SUBAGENT_TOOLS :: "string list" where
  "SUBAGENT_TOOLS = [''Agent'', ''Task'', ''TaskCreate'']"

definition normalize_write_path :: "string \<Rightarrow> string" where
  "normalize_write_path path = replace_char CHR 0x5C CHR ''/'' path"

text \<open>The non-empty strings under some keys of an object, in the order of the keys. A value that is
  not an object has no fields.\<close>

definition texts_under :: "'v json_reader \<Rightarrow> 'v \<Rightarrow> string list \<Rightarrow> string list" where
  "texts_under js input keys =
     filter (\<lambda>s. s \<noteq> []) (List.map_filter (json_as_str js) (List.map_filter (json_get js input) keys))"

definition targets_for :: "'v json_reader \<Rightarrow> string \<Rightarrow> 'v \<Rightarrow> string list \<Rightarrow> string list \<Rightarrow> write_target list" where
  "targets_for js tool input tools keys =
     (if tool \<notin> set tools then []
      else btree_list (map (\<lambda>path. PathTarget (normalize_write_path path)) (texts_under js input keys)))"

definition written_paths :: "'v json_reader \<Rightarrow> string \<Rightarrow> 'v \<Rightarrow> write_target list" where
  "written_paths js tool input = targets_for js tool input WRITING_TOOLS WRITE_PATH_KEYS"

definition read_paths :: "'v json_reader \<Rightarrow> string \<Rightarrow> 'v \<Rightarrow> write_target list" where
  "read_paths js tool input = targets_for js tool input READING_TOOLS READ_PATH_KEYS"

text \<open>\<^verbatim>\<open>Iterator::find_map\<close>.\<close>

definition find_map :: "('a \<Rightarrow> 'b option) \<Rightarrow> 'a list \<Rightarrow> 'b option" where
  "find_map f xs = (case List.map_filter f xs of [] \<Rightarrow> None | y # _ \<Rightarrow> Some y)"

definition first_text :: "string list \<Rightarrow> string option" where
  "first_text texts = (case texts of [] \<Rightarrow> None | s # _ \<Rightarrow> Some s)"

definition subagent_type :: "'v json_reader \<Rightarrow> 'v \<Rightarrow> string option" where
  "subagent_type js input = first_text (texts_under js input [''subagent_type'', ''agent_type'', ''agent'', ''type''])"

definition workflow_stage_id :: "'v json_reader \<Rightarrow> 'v \<Rightarrow> string option" where
  "workflow_stage_id js detail = first_text (texts_under js detail [''stage'', ''stage_id'', ''id'', ''name''])"

definition workflow_stage_writes :: "'v json_reader \<Rightarrow> 'v \<Rightarrow> write_target list option" where
  "workflow_stage_writes js detail =
     (case Option.bind
             (find_map (json_get js detail) [''target_files'', ''expected_target_files'', ''writes''])
             (json_as_array js) of
        None \<Rightarrow> None
      | Some values \<Rightarrow>
          let targets = map (\<lambda>path. PathTarget (normalize_write_path path))
                (filter (\<lambda>path. path \<noteq> []) (List.map_filter (json_as_str js) values))
          in if targets = [] then None else Some (btree_list targets))"

section \<open>Translation\<close>

record 'v admission_request =
  req_session :: string
  req_parent_action :: string
  req_tool_use :: string
  req_attempt :: u32
  req_tool :: string
  req_input :: 'v
  req_permission :: permission_level

definition turn_root :: string where
  "turn_root = ROOT_NODE_ID"

definition is_spawn :: "string \<Rightarrow> bool" where
  "is_spawn tool \<longleftrightarrow> tool \<in> set SUBAGENT_TOOLS"

definition spawn_node_id :: "string \<Rightarrow> u32 \<Rightarrow> string" where
  "spawn_node_id tool_use attempt =
     (if tool_use = [] then ''spawn-'' @ show_nat (unat attempt)
      else ''spawn-'' @ tool_use @ ''-'' @ show_nat (unat attempt))"

definition declared_writes :: "'v json_reader \<Rightarrow> string \<Rightarrow> 'v \<Rightarrow> string list" where
  "declared_writes js tool input =
     List.map_filter (\<lambda>t. case t of PathTarget path \<Rightarrow> Some path | ArtifactTarget _ \<Rightarrow> None)
       (written_paths js tool input)"

definition request_intent :: "'v json_reader \<Rightarrow> 'v admission_request \<Rightarrow> tool_intent" where
  "request_intent js r =
     (let intent = with_writes
            (new_tool_intent turn_root (req_tool r) (permission_class_for_level (req_permission r)))
            (declared_writes js (req_tool r) (req_input r))
      in if is_spawn (req_tool r)
         then with_spawn intent
            \<lparr>spawn_node = spawn_node_id (req_tool_use r) (req_attempt r), spawn_parent = Some turn_root,
             spawn_agent = (case subagent_type js (req_input r) of Some a \<Rightarrow> a | None \<Rightarrow> req_tool r)\<rparr>
         else intent)"

datatype tool_run_admission = RunAllowed | RunBlocked string

definition verdict_to_admission :: "verdict \<Rightarrow> tool_run_admission" where
  "verdict_to_admission v = (case v of Allowed \<Rightarrow> RunAllowed | Blocked _ reason \<Rightarrow> RunBlocked reason)"

section \<open>Configuration and the slot\<close>

record topology_config =
  admission_enabled :: bool
  topology_agent_cap :: bool
  topology_single_writer :: bool
  topology_ungated :: gate_enforcement
  topology_max_agents :: u32

definition default_topology :: topology_config where
  "default_topology =
     \<lparr>admission_enabled = True, topology_agent_cap = True, topology_single_writer = True,
      topology_ungated = WhereDeclared, topology_max_agents = DEFAULT_MAX_AGENTS\<rparr>"

definition live_config_of :: "topology_config \<Rightarrow> live_config" where
  "live_config_of c =
     \<lparr>agent_cap = topology_agent_cap c, single_writer = topology_single_writer c,
      irreversible_enforcement = topology_ungated c, config_max_agents = topology_max_agents c\<rparr>"

text \<open>The tracker that a configuration asks for: its sessions, and nothing when it is switched off.\<close>

definition tracker_for :: "topology_config \<Rightarrow> tracker option" where
  "tracker_for c = (if admission_enabled c then Some [] else None)"

definition install :: "live_env \<Rightarrow> topology_config \<Rightarrow> string \<Rightarrow> tracker option \<Rightarrow> tracker option" where
  "install env c s slot =
     (case slot of
        Some tr \<Rightarrow> Some (fst (begin_session env s tr))
      | None \<Rightarrow> map_option (\<lambda>tr. fst (begin_session env s tr)) (tracker_for c))"

definition slot_end_session :: "string \<Rightarrow> tracker option \<Rightarrow> tracker option" where
  "slot_end_session s slot = map_option (end_session s) slot"

definition reset_session :: "live_env \<Rightarrow> string \<Rightarrow> tracker option \<Rightarrow> tracker option" where
  "reset_session env s slot = map_option (\<lambda>tr. fst (begin_session env s (end_session s tr))) slot"

definition slot_declare_graph :: "live_env \<Rightarrow> string \<Rightarrow> task_graph \<Rightarrow> tracker option \<Rightarrow> tracker option" where
  "slot_declare_graph env s g slot = map_option (declare_graph env s g) slot"

definition slot_node_started :: "string \<Rightarrow> string \<Rightarrow> tracker option \<Rightarrow> tracker option" where
  "slot_node_started s n slot = map_option (on_node_started s n) slot"

definition slot_node_finished :: "string \<Rightarrow> string \<Rightarrow> tracker option \<Rightarrow> tracker option" where
  "slot_node_finished s n slot = map_option (on_node_finished s n) slot"

definition slot_gate_passed :: "string \<Rightarrow> string \<Rightarrow> tracker option \<Rightarrow> tracker option" where
  "slot_gate_passed s n slot = map_option (on_gate_passed s n) slot"

definition admit :: "live_env \<Rightarrow> 'v json_reader \<Rightarrow> 'v admission_request \<Rightarrow> tracker option \<Rightarrow> tracker option \<times> tool_run_admission" where
  "admit env js r slot =
     (case slot of
        None \<Rightarrow> (None, RunAllowed)
      | Some tr \<Rightarrow>
          (case on_tool env (req_session r) (request_intent js r) tr of
             (tr, v) \<Rightarrow> (Some tr, verdict_to_admission v)))"

record 'v attempt_outcome =
  out_session :: string
  out_parent_action :: string
  out_tool_use :: string
  out_attempt :: u32
  out_tool :: string
  out_input :: 'v
  out_permission :: permission_level
  out_blocked :: bool
  out_error :: bool
  out_admission_evaluated :: bool

definition on_tool_run_outcome :: "'v json_reader \<Rightarrow> 'v attempt_outcome \<Rightarrow> tracker option \<Rightarrow> tracker option" where
  "on_tool_run_outcome js r slot =
     (case slot of
        None \<Rightarrow> None
      | Some tr \<Rightarrow>
          let tr = (if is_spawn (out_tool r)
                    then on_node_finished (out_session r) (spawn_node_id (out_tool_use r) (out_attempt r)) tr
                    else tr)
          in Some (if declared_writes js (out_tool r) (out_input r) \<noteq> []
                   then on_writes_released (out_session r) turn_root tr else tr))"

section \<open>The tool tap\<close>

text \<open>The records of a tool attempt, with the clock and the graph of the trace as arguments.\<close>

definition record_tool_outcome :: "'v json_reader \<Rightarrow> string \<Rightarrow> string \<Rightarrow> 'v attempt_outcome \<Rightarrow> trace_record list" where
  "record_tool_outcome js ts graph r =
     (let writes = written_paths js (out_tool r) (out_input r);
          reads = read_paths js (out_tool r) (out_input r);
          base = (\<lambda>kind. record_with_outcome (out_blocked r) (out_error r) (new_record ts graph kind));
          attempt = (base ToolAttempt)
            \<lparr>trace_node_id := ROOT_NODE_ID, trace_tool := Some (out_tool r),
             trace_permission := Some (permission_class_for_level (out_permission r)),
             trace_attempt := Some (out_attempt r), trace_writes := writes, trace_reads := reads\<rparr>;
          spawned = (base AgentSpawned)
            \<lparr>trace_node_id := spawn_node_id (out_tool_use r) (out_attempt r),
             trace_parent := Some ROOT_NODE_ID, trace_agent := subagent_type js (out_input r)\<rparr>
      in [attempt]
         @ (if out_tool r \<in> set SUBAGENT_TOOLS \<and> \<not> out_blocked r then [spawned] else [])
         @ (if writes \<noteq> [] then [(base FileWritten)\<lparr>trace_node_id := ROOT_NODE_ID, trace_writes := writes\<rparr>] else [])
         @ (if reads \<noteq> [] then [(base FileRead)\<lparr>trace_node_id := ROOT_NODE_ID, trace_reads := reads\<rparr>] else []))"

section \<open>What the process does to the slot\<close>

datatype 'v wiring_event =
    Installed topology_config string
  | SessionEnded string
  | SessionReset string
  | GraphAttached string task_graph
  | NodeBegan string string
  | NodeEnded string string
  | GateOpened string string
  | CallAdmitted "'v admission_request"
  | CallEnded "'v attempt_outcome"

primrec wire :: "live_env \<Rightarrow> 'v json_reader \<Rightarrow> 'v wiring_event \<Rightarrow> tracker option \<Rightarrow> tracker option" where
  "wire env js (Installed c s) slot = install env c s slot"
| "wire env js (SessionEnded s) slot = slot_end_session s slot"
| "wire env js (SessionReset s) slot = reset_session env s slot"
| "wire env js (GraphAttached s g) slot = slot_declare_graph env s g slot"
| "wire env js (NodeBegan s n) slot = slot_node_started s n slot"
| "wire env js (NodeEnded s n) slot = slot_node_finished s n slot"
| "wire env js (GateOpened s n) slot = slot_gate_passed s n slot"
| "wire env js (CallAdmitted r) slot = fst (admit env js r slot)"
| "wire env js (CallEnded r) slot = on_tool_run_outcome js r slot"

definition wired :: "live_env \<Rightarrow> 'v json_reader \<Rightarrow> 'v wiring_event list \<Rightarrow> tracker option" where
  "wired env js evs = foldl (\<lambda>slot ev. wire env js ev slot) None evs"

text \<open>A fact about trackers that every operation of the wiring keeps holds for what it reaches.\<close>

locale wiring_invariant =
  fixes env :: live_env and js :: "'v json_reader" and good :: "tracker \<Rightarrow> bool"
  assumes good_empty: "good []"
    and good_begin: "good tr \<Longrightarrow> good (fst (begin_session env s tr))"
    and good_end: "good tr \<Longrightarrow> good (end_session s tr)"
    and good_declare: "good tr \<Longrightarrow> good (declare_graph env s g tr)"
    and good_start: "good tr \<Longrightarrow> good (on_node_started s n tr)"
    and good_finish: "good tr \<Longrightarrow> good (on_node_finished s n tr)"
    and good_gate: "good tr \<Longrightarrow> good (on_gate_passed s n tr)"
    and good_release: "good tr \<Longrightarrow> good (on_writes_released s n tr)"
    and good_tool: "good tr \<Longrightarrow> good (fst (on_tool env s (request_intent js r) tr))"
begin

lemma good_tool_result: "good tr \<Longrightarrow> on_tool env s (request_intent js r) tr = (tr', v) \<Longrightarrow> good tr'"
  using good_tool [of tr s r] by simp

lemma wire_keeps:
  assumes "\<And>tr. slot = Some tr \<Longrightarrow> good tr" and "wire env js ev slot = Some tr'"
  shows "good tr'"
  using assms
  by (cases ev; cases slot)
    (auto simp: install_def tracker_for_def slot_end_session_def reset_session_def slot_declare_graph_def
      slot_node_started_def slot_node_finished_def slot_gate_passed_def admit_def on_tool_run_outcome_def Let_def
      good_empty good_begin good_end good_declare good_start good_finish good_gate good_release
      intro: good_tool_result split: if_splits prod.splits)

lemma wired_good: "wired env js evs = Some tr \<Longrightarrow> good tr"
proof (induction evs arbitrary: tr rule: rev_induct)
  case (snoc ev evs)
  then show ?case
    using wire_keeps [of "wired env js evs" ev tr] by (simp add: wired_def)
qed (simp add: wired_def)

end

lemma reachable_step: "reachable env tr \<Longrightarrow> live_step env tr ev v tr' \<Longrightarrow> reachable env tr'"
  unfolding reachable_def by (blast intro: run_snoc)

interpretation reaching: wiring_invariant env js "reachable env" for env js
proof
  show "reachable env []" unfolding reachable_def by (blast intro: run_nil)
  fix tr s n g and r :: "'a admission_request"
  assume r: "reachable env tr"
  show "reachable env (fst (begin_session env s tr))" "reachable env (end_session s tr)"
    "reachable env (declare_graph env s g tr)" "reachable env (on_node_started s n tr)"
    "reachable env (on_node_finished s n tr)" "reachable env (on_gate_passed s n tr)"
    "reachable env (on_writes_released s n tr)"
    by (rule reachable_step [OF r], rule live_step.intros)+
  show "reachable env (fst (on_tool env s (request_intent js r) tr))"
    by (rule reachable_step [OF r], rule live_step.intros(8)) (rule prod.collapse [symmetric])
qed


section \<open>All writes are the turn root's\<close>

definition root_claims :: "session_state \<Rightarrow> bool" where
  "root_claims st \<longleftrightarrow> list_all (\<lambda>c. claim_node c = turn_root) (session_claims st)"

definition root_claims_only :: "tracker \<Rightarrow> bool" where
  "root_claims_only tr \<longleftrightarrow> (\<forall>s st. map_of tr s = Some st \<longrightarrow> root_claims st)"

lemma root_claims_frame:
  "root_claims st \<Longrightarrow> root_claims (start_node n st)"
  "root_claims st \<Longrightarrow> root_claims (release_claims n st)"
  "root_claims st \<Longrightarrow> root_claims (finish_node n st)"
  "root_claims st \<Longrightarrow> root_claims (pass_gate n st)"
  "root_claims st \<Longrightarrow> root_claims (adopt_structure str st)"
  "root_claims st \<Longrightarrow> root_claims (record_spawn n parent st)"
  by (auto simp: root_claims_def start_node_def release_claims_def finish_node_def
      pass_gate_def adopt_structure_def record_spawn_def observe_parent_def list_all_iff Let_def
      finish_agent_def split: option.splits)

lemma root_claims_claim: "root_claims st \<Longrightarrow> root_claims (claim turn_root path key st)"
  by (auto simp: root_claims_def claim_def)

lemma root_claims_claims: "root_claims st \<Longrightarrow> root_claims (foldl (\<lambda>st (path, key). claim turn_root path key st) st cs)"
  by (induction cs arbitrary: st) (auto intro: root_claims_claim)

lemma request_intent_node [simp]: "tool_node (request_intent js r) = turn_root"
  by (simp add: request_intent_def Let_def with_writes_def with_spawn_def new_tool_intent_def)

lemma root_claims_tool: "root_claims st \<Longrightarrow> root_claims (fst (admit_tool glob os cfg (request_intent js r) st))"
  by (auto simp: admit_tool_def admit_spawn_def admit_write_def exclusive_def Let_def split_beta
      intro: root_claims_frame root_claims_claims split: option.splits)

lemma root_claims_single_session:
  "root_claims_only tr \<Longrightarrow> (\<And>st. root_claims st \<Longrightarrow> root_claims (f st)) \<Longrightarrow> root_claims_only (record_session s f tr)"
  by (auto simp: root_claims_only_def record_session_def update_conv' split: option.splits if_splits)

interpretation rooted: wiring_invariant env js root_claims_only for env js
proof
  show "root_claims_only []" by (simp add: root_claims_only_def)
  fix tr s n g and r :: "'a admission_request"
  assume r: "root_claims_only tr"
  show "root_claims_only (fst (begin_session env s tr))"
    using r by (auto simp: root_claims_only_def begin_session_def Let_def update_conv' root_claims_def set_budget_def
        new_state_def split: if_splits)
  show "root_claims_only (end_session s tr)"
    using r by (auto simp: root_claims_only_def end_session_def delete_conv' split: if_splits)
  show "root_claims_only (declare_graph env s g tr)"
    using r by (auto simp: root_claims_only_def declare_graph_def update_conv' intro: root_claims_frame
        split: option.splits if_splits)
  show "root_claims_only (on_node_started s n tr)" "root_claims_only (on_node_finished s n tr)"
    "root_claims_only (on_gate_passed s n tr)" "root_claims_only (on_writes_released s n tr)"
    unfolding on_node_started_def on_node_finished_def on_gate_passed_def on_writes_released_def
    using r by (auto intro!: root_claims_single_session intro: root_claims_frame)
  show "root_claims_only (fst (on_tool env s (request_intent js r) tr))"
    using r by (auto simp: root_claims_only_def on_tool_def with_session_def update_conv' split_beta Let_def
        intro: root_claims_tool split: option.splits if_splits)
qed

lemma no_claim_against_the_root:
  "root_claims st \<Longrightarrow> first_conflict glob st turn_root cs = None"
  by (auto simp: first_conflict_None stands_against_def root_claims_def list_all_iff)

lemma root_writes_admitted:
  assumes "root_claims st"
  shows "snd (admit_write glob os cfg (exclusive turn_root paths) st) = Allowed"
  by (simp add: admit_write_def exclusive_def no_claim_against_the_root [OF assms] Let_def split: option.splits)

text \<open>
  The limit of attribution, as the code documents it: since every call is attributed to the turn
  root, no call that reaches the tracker through the wiring is ever blocked by the single-writer
  check; what is blocked is blocked for the agent budget or for a gate. The check under-reports
  and never reports a race that is not there.
\<close>

theorem wired_calls_never_meet_a_writer:
  "(case wired env js evs of
      Some tr \<Rightarrow> verdict_invariant (snd (on_tool env s (request_intent js r) tr))
                   \<in> {None, Some AgentCap, Some UngatedIrreversible}
    | None \<Rightarrow> True)"
proof (cases "wired env js evs")
  case (Some tr)
  from rooted.wired_good [OF Some] have root: "root_claims_only tr" .
  have gate: "verdict_invariant (admit_irreversible cfg i st) \<in> {None, Some AgentCap, Some UngatedIrreversible}" for cfg i st
    by (simp add: admit_irreversible_def gate_blocked_def verdict_invariant_def Let_def)
  show ?thesis
  proof (cases "map_of tr s")
    case None
    with Some show ?thesis by (simp add: on_tool_def with_session_def verdict_invariant_def)
  next
    case st: (Some st)
    with root have "root_claims st" by (simp add: root_claims_only_def)
    let ?i = "request_intent js r" and ?cfg = "env_config env"
    define sv where "sv = (case tool_spawn ?i of None \<Rightarrow> (start_node turn_root st, Allowed)
      | Some spawn \<Rightarrow> admit_spawn ?cfg spawn (start_node turn_root st))"
    have "root_claims (fst sv)"
      using \<open>root_claims st\<close> by (auto simp: sv_def admit_spawn_def Let_def intro: root_claims_frame split: option.splits)
    note allowed = root_writes_admitted [OF this, of "env_glob env" "env_os env" "?cfg" "tool_writes ?i"]
    have spawn: "verdict_invariant (snd sv) \<in> {None, Some AgentCap, Some UngatedIrreversible}"
      by (auto simp: sv_def admit_spawn_def verdict_invariant_def Let_def split: option.splits)
    have "snd (admit_tool (env_glob env) (env_os env) ?cfg ?i st) \<in> {snd sv} \<union> range (admit_irreversible ?cfg ?i)"
      using allowed by (auto simp: admit_tool_def Let_def sv_def [symmetric] split_beta is_blocked_def)
    then consider "snd (admit_tool (env_glob env) (env_os env) ?cfg ?i st) = snd sv"
      | st' where "snd (admit_tool (env_glob env) (env_os env) ?cfg ?i st) = admit_irreversible ?cfg ?i st'"
      by blast
    then have "verdict_invariant (snd (admit_tool (env_glob env) (env_os env) ?cfg ?i st))
        \<in> {None, Some AgentCap, Some UngatedIrreversible}"
      by cases (use spawn gate in \<open>simp_all only:\<close>)
    with Some st show ?thesis by (simp add: on_tool_def with_session_def split_beta Let_def)
  qed
qed simp

section \<open>Names of spawned nodes\<close>

lemma show_nat_digits: "c \<in> set (show_nat n) \<Longrightarrow> is_ascii_digit c"
proof (induction n rule: show_nat.induct)
  case (1 n)
  then show ?case by (subst (asm) show_nat.simps) (auto simp: is_ascii_digit_def code_def split: if_splits)
qed

lemma dash_not_in_number: "CHR ''-'' \<notin> set (show_nat n)"
proof
  assume "CHR ''-'' \<in> set (show_nat n)"
  then have "is_ascii_digit CHR ''-''" by (rule show_nat_digits)
  then show False by code_simp
qed

lemma last_dash:
  assumes "xs @ CHR ''-'' # show_nat m = ys @ CHR ''-'' # show_nat n"
  shows "xs = ys \<and> m = n"
proof -
  have tail: "takeWhile (\<lambda>c. c \<noteq> CHR ''-'') (rev (zs @ CHR ''-'' # show_nat k)) = rev (show_nat k)" for zs k
    using dash_not_in_number [of k] by (auto simp: takeWhile_append intro!: takeWhile_eq_all_conv [THEN iffD2])
  from assms have "rev (show_nat m) = rev (show_nat n)" by (metis tail)
  then have "m = n" by simp
  with assms show ?thesis by simp
qed

lemma spawn_node_not_root: "spawn_node_id u a \<noteq> turn_root"
  by (simp add: spawn_node_id_def turn_root_def ROOT_NODE_ID_def)

lemma spawn_node_not_empty: "spawn_node_id u a \<noteq> []"
  by (simp add: spawn_node_id_def)

lemma spawn_node_inject:
  assumes "spawn_node_id u a = spawn_node_id u' a'"
  shows "u = u' \<and> a = a'"
proof -
  have form: "spawn_node_id u a = (if u = [] then ''spawn'' else ''spawn-'' @ u) @ CHR ''-'' # show_nat (unat a)" for u a
    by (simp add: spawn_node_id_def)
  from last_dash [OF assms [unfolded form]]
  have "(if u = [] then ''spawn'' else ''spawn-'' @ u) = (if u' = [] then ''spawn'' else ''spawn-'' @ u')"
    and "unat a = unat a'" by blast+
  then show ?thesis by (auto dest: unsigned_word_eqI split: if_splits)
qed

text \<open>
  Two spawning calls name the same node only if they are the same attempt of the same call, and
  no spawned node is the turn root, so that one agent is never counted or released for another.
\<close>

theorem spawn_names_are_unique:
  "(spawn_node_id u a = spawn_node_id u' a') = (u = u' \<and> a = a') \<and> spawn_node_id u a \<noteq> turn_root"
  using spawn_node_inject [of u a u' a'] spawn_node_not_root [of u a] by blast

section \<open>The graph of a tapped turn\<close>

definition tapped :: "'v json_reader \<Rightarrow> string \<Rightarrow> string \<Rightarrow> 'v attempt_outcome list \<Rightarrow> trace_record list" where
  "tapped js ts graph outs = concat (map (record_tool_outcome js ts graph) outs)"

lemma tap_records:
  assumes "rec \<in> set (record_tool_outcome js ts graph r)"
  shows "tells rec" and "(record_node rec = turn_root \<and> record_parent rec = None)
    \<or> (record_node rec \<noteq> turn_root \<and> record_parent rec = Some turn_root)"
proof -
  have ne: "spawn_node_id u a \<noteq> []" "spawn_node_id u a \<noteq> turn_root" "turn_root \<noteq> spawn_node_id u a" "turn_root \<noteq> []" for u a
    using spawn_node_not_root [of u a] by (auto simp: spawn_node_not_empty turn_root_def ROOT_NODE_ID_def)
  show "tells rec"
    using assms by (auto simp: record_tool_outcome_def Let_def tells_def record_with_outcome_def new_record_def split: if_splits)
  show "(record_node rec = turn_root \<and> record_parent rec = None)
    \<or> (record_node rec \<noteq> turn_root \<and> record_parent rec = Some turn_root)"
    using assms by (auto simp: record_tool_outcome_def Let_def record_node_def record_parent_def
        record_with_outcome_def new_record_def ne simp flip: turn_root_def split: if_splits)
qed

lemma hd_firsts: "xs \<noteq> [] \<Longrightarrow> hd (firsts xs) = hd xs"
proof (induction xs rule: rev_induct)
  case (snoc x xs)
  then show ?case
    by (cases "xs = []") (auto simp: firsts_snoc push_absent_def hd_append simp flip: set_empty)
qed simp

lemma tapped_parents:
  assumes "i \<in> set (mentioned (tapped js ts graph outs))"
  shows "depends_on (told_node (tapped js ts graph outs) i) = (if i = turn_root then [] else [turn_root])"
proof -
  let ?rs = "tapped js ts graph outs"
  have recs: "tells rec" "(record_node rec = turn_root \<and> record_parent rec = None)
      \<or> (record_node rec \<noteq> turn_root \<and> record_parent rec = Some turn_root)" if "rec \<in> set ?rs" for rec
    using that tap_records [of rec js ts graph] by (auto simp: tapped_def)
  have "set (depends_on (told_node ?rs i)) = (if i = turn_root then {} else {turn_root})"
  proof (cases "i = turn_root")
    case True
    then show ?thesis using recs(2) by (fastforce simp: told_parents)
  next
    case False
    have "\<exists>rec\<in>set ?rs. record_node rec = i"
      using assms False recs(2) by (fastforce simp: mentioned_def split: if_splits option.splits)
    with False show ?thesis using recs by (fastforce simp: told_parents)
  qed
  moreover have "sorted (depends_on (told_node ?rs i))" "distinct (depends_on (told_node ?rs i))"
    by (simp_all add: told_node_def Let_def)
  ultimately show ?thesis by (auto intro: sorted_distinct_set_unique)
qed

text \<open>
  The graph that is reconstructed from the tool tap of a turn is a star: it starts with the turn
  root, which depends on nothing, and every other node is a spawned agent that depends on the root
  and on nothing else.
\<close>

theorem tapped_turn_is_a_star:
  "list_all (\<lambda>n. depends_on n = (if node_id n = turn_root then [] else [turn_root]))
     (nodes (reconstruct_graph g origin (tapped js ts graph outs)))
   \<and> (outs = [] \<or> node_id (hd (nodes (reconstruct_graph g origin (tapped js ts graph outs)))) = turn_root)"
proof
  let ?rs = "tapped js ts graph outs"
  show "list_all (\<lambda>n. depends_on n = (if node_id n = turn_root then [] else [turn_root]))
     (nodes (reconstruct_graph g origin ?rs))"
    by (simp add: reconstructed_nodes list_all_iff tapped_parents)
  have "node_id (hd (nodes (reconstruct_graph g origin ?rs))) = turn_root" if "outs = r # rest" for r rest
  proof -
    define rec where "rec = hd (record_tool_outcome js ts graph r)"
    have first: "record_tool_outcome js ts graph r = rec # tl (record_tool_outcome js ts graph r)"
      and root: "record_node rec = turn_root"
      by (simp_all add: rec_def record_tool_outcome_def Let_def record_node_def turn_root_def ROOT_NODE_ID_def)
    have "mentioned (rec # rest) = turn_root # tl (mentioned (rec # rest))" if "tells rec" for rest
      using that root by (simp add: mentioned_def)
    moreover have "tells rec" by (rule tap_records(1)) (subst first, rule list.set_intros(1))
    moreover have "?rs = rec # (tl (record_tool_outcome js ts graph r) @ tapped js ts graph rest)"
      using first by (simp add: that tapped_def)
    ultimately have "mentioned ?rs = turn_root # tl (mentioned ?rs)" by metis
    then have "mentioned ?rs \<noteq> []" "hd (mentioned ?rs) = turn_root" by (metis list.discI, metis list.sel(1))
    moreover from this(1) have "firsts (mentioned ?rs) \<noteq> []" by (metis set_empty set_firsts)
    ultimately show ?thesis by (simp add: reconstructed_nodes hd_map hd_firsts)
  qed
  then show "outs = [] \<or> node_id (hd (nodes (reconstruct_graph g origin ?rs))) = turn_root"
    by (cases outs) auto
qed

end
