(* ===== verification/Write_Claims.thy ===== *)
theory Write_Claims imports Write_Keys "HOL-Library.AList" begin

text \<open>
  \<^verbatim>\<open>crates/archon-tools/src/write_claims.rs\<close>: the write intents agents declare when they are
  spawned, and the overlaps that are reported. Whether an agent runs is the parameter \<open>alive\<close>
  (\<^verbatim>\<open>board::leases::holder_liveness\<close>), one snapshot per call. The map of the process is an
  association list with distinct keys; the order of a \<^verbatim>\<open>HashMap\<close> is not specified, so the lemmas
  speak of the set of overlaps. They show that overlaps are mutual and that the opportunistic sweep
  never hides one.
\<close>

record agent_claim =
  claim_agent :: string
  claim_label :: "string option"
  claim_paths :: "string list"
  claim_keys :: "resource_key list"

record claim_overlap =
  overlap_holder :: agent_claim
  overlap_paths :: "string list"

type_synonym claims_map = "(string \<times> agent_claim) list"

definition conflicts_with :: "globset_compiler \<Rightarrow> agent_claim \<Rightarrow> resource_key list \<Rightarrow> string list" where
  "conflicts_with glob c keys =
     map fst (filter (\<lambda>(raw, key). list_ex (\<lambda>other. keys_conflict glob key other) keys)
       (zip (claim_paths c) (claim_keys c)))"

definition describe_claim :: "agent_claim \<Rightarrow> string" where
  "describe_claim c =
     (case claim_label c of
        Some label \<Rightarrow> if label \<noteq> [] then quoted label @ '' ('' @ claim_agent c @ '')'' else quoted (claim_agent c)
      | None \<Rightarrow> quoted (claim_agent c))"

definition live_overlaps ::
    "globset_compiler \<Rightarrow> (string \<Rightarrow> bool) \<Rightarrow> string \<Rightarrow> resource_key list \<Rightarrow> claims_map \<Rightarrow> claim_overlap list" where
  "live_overlaps glob alive agent keys m =
     List.map_filter
       (\<lambda>held. let paths = conflicts_with glob held keys
               in if paths = [] then None else Some \<lparr>overlap_holder = held, overlap_paths = paths\<rparr>)
       (filter (\<lambda>held. claim_agent held \<noteq> agent \<and> alive (claim_agent held)) (map snd m))"

definition claim_of :: "string \<Rightarrow> string \<Rightarrow> string option \<Rightarrow> string list \<Rightarrow> agent_claim" where
  "claim_of os agent label declared =
     \<lparr>claim_agent = agent, claim_label = label, claim_paths = declared,
      claim_keys = map (resource_key_for_raw_target os) declared\<rparr>"

definition declare_writes ::
    "globset_compiler \<Rightarrow> string \<Rightarrow> (string \<Rightarrow> bool) \<Rightarrow> string \<Rightarrow> string option \<Rightarrow> string list \<Rightarrow> claims_map
     \<Rightarrow> claims_map \<times> claim_overlap list" where
  "declare_writes glob os alive agent label declared m =
     (let c = claim_of os agent label declared;
          m = filter (\<lambda>(i, _). i = agent \<or> alive i) m;
          overlaps = live_overlaps glob alive agent (claim_keys c) m
      in (AList.update agent c m, overlaps))"

definition overlaps_for :: "globset_compiler \<Rightarrow> (string \<Rightarrow> bool) \<Rightarrow> string \<Rightarrow> claims_map \<Rightarrow> claim_overlap list" where
  "overlaps_for glob alive agent m =
     (case map_of m agent of
        None \<Rightarrow> []
      | Some mine \<Rightarrow> live_overlaps glob alive agent (claim_keys mine) m)"

definition release_writes :: "string \<Rightarrow> claims_map \<Rightarrow> claims_map" where
  "release_writes agent m = AList.delete agent m"

definition live_claims :: "(string \<Rightarrow> bool) \<Rightarrow> claims_map \<Rightarrow> agent_claim list" where
  "live_claims alive m = filter (\<lambda>c. alive (claim_agent c)) (map snd m)"

definition declared_by :: "string \<Rightarrow> claims_map \<Rightarrow> string list" where
  "declared_by agent m = (case map_of m agent of None \<Rightarrow> [] | Some c \<Rightarrow> claim_paths c)"

definition overlap_line :: "claim_overlap \<Rightarrow> string" where
  "overlap_line ov =
     ''  - '' @ describe_claim (overlap_holder ov) @ '' also writes: ''
       @ join_with '', '' (overlap_paths ov) @ [CHR 0x0A]"

definition describe_overlaps :: "claim_overlap list \<Rightarrow> string" where
  "describe_overlaps overlaps =
     ''Warning: another running agent has already declared writes that overlap yours.'' @ [CHR 0x0A]
     @ concat (map overlap_line overlaps)
     @ ''Both agents share one working tree, so the later write wins. Consider narrowing the split, sequencing them, or spawning with isolation.''"

section \<open>Overlaps\<close>

text \<open>What every map of the process satisfies: distinct agents, each under its own name, with the
  keys of its declared paths.\<close>

definition proper :: "string \<Rightarrow> claims_map \<Rightarrow> bool" where
  "proper os m \<longleftrightarrow> distinct (map fst m)
     \<and> (\<forall>i c. map_of m i = Some c \<longrightarrow> claim_agent c = i \<and> claim_keys c = map (resource_key_for_raw_target os) (claim_paths c))"

definition claims_overlap :: "globset_compiler \<Rightarrow> agent_claim \<Rightarrow> agent_claim \<Rightarrow> bool" where
  "claims_overlap glob a b \<longleftrightarrow> list_ex (\<lambda>x. list_ex (keys_conflict glob x) (claim_keys b)) (claim_keys a)"

lemma claims_overlap_sym: "claims_overlap glob a b = claims_overlap glob b a"
  unfolding claims_overlap_def list_ex_iff using keys_conflict_sym by blast

lemma conflicts_with_empty:
  assumes "length (claim_keys c) = length (claim_paths c)"
  shows "conflicts_with glob c keys = [] \<longleftrightarrow> \<not> list_ex (\<lambda>x. list_ex (keys_conflict glob x) keys) (claim_keys c)"
proof -
  have "conflicts_with glob c keys = [] \<longleftrightarrow> \<not> list_ex (\<lambda>(raw, key). list_ex (keys_conflict glob key) keys) (zip (claim_paths c) (claim_keys c))"
    by (auto simp: conflicts_with_def filter_empty_conv list_ex_iff)
  also have "list_ex (\<lambda>(raw, key). list_ex (keys_conflict glob key) keys) (zip (claim_paths c) (claim_keys c)) =
      list_ex (\<lambda>x. list_ex (keys_conflict glob x) keys) (map snd (zip (claim_paths c) (claim_keys c)))"
    by (auto simp: list_ex_iff split_beta)
  finally show ?thesis using assms by simp
qed

lemma set_map_filter: "set (List.map_filter f xs) = {y. \<exists>x\<in>set xs. f x = Some y}"
  by (force simp: List.map_filter_def)

text \<open>The holders that are reported: the other live agents whose declaration meets the keys.\<close>

lemma reported_holders:
  assumes "proper os m" and "claim_keys mine = keys"
  shows "overlap_holder ` set (live_overlaps glob alive agent keys m) =
    {c. \<exists>i. map_of m i = Some c \<and> i \<noteq> agent \<and> alive i \<and> claims_overlap glob c mine}"
proof -
  have held: "c \<in> snd ` set m \<longleftrightarrow> map_of m (claim_agent c) = Some c" for c
  proof
    assume "c \<in> snd ` set m"
    then obtain i where "(i, c) \<in> set m" by auto
    with assms(1) have "map_of m i = Some c" by (simp add: proper_def)
    with assms(1) show "map_of m (claim_agent c) = Some c" by (simp add: proper_def)
  qed (force dest: map_of_SomeD)
  have "overlap_holder ` set (live_overlaps glob alive agent keys m) =
      {c. c \<in> snd ` set m \<and> claim_agent c \<noteq> agent \<and> alive (claim_agent c) \<and> conflicts_with glob c keys \<noteq> []}"
    by (force simp: live_overlaps_def set_map_filter Let_def image_iff)
  also have "\<dots> = {c. \<exists>i. map_of m i = Some c \<and> i \<noteq> agent \<and> alive i \<and> claims_overlap glob c mine}"
  proof (intro Collect_cong)
    fix c
    show "(c \<in> snd ` set m \<and> claim_agent c \<noteq> agent \<and> alive (claim_agent c) \<and> conflicts_with glob c keys \<noteq> []) =
      (\<exists>i. map_of m i = Some c \<and> i \<noteq> agent \<and> alive i \<and> claims_overlap glob c mine)"
    proof (cases "map_of m (claim_agent c) = Some c")
      case True
      with assms(1) have "length (claim_keys c) = length (claim_paths c)" by (simp add: proper_def)
      from conflicts_with_empty [OF this] assms(2)
      have "conflicts_with glob c keys \<noteq> [] \<longleftrightarrow> claims_overlap glob c mine" by (simp add: claims_overlap_def)
      moreover have "i = claim_agent c" if "map_of m i = Some c" for i
        using that assms(1) unfolding proper_def by blast
      ultimately show ?thesis using True unfolding held by blast
    next
      case False
      moreover have "i = claim_agent c" if "map_of m i = Some c" for i
        using that assms(1) unfolding proper_def by blast
      ultimately show ?thesis unfolding held by blast
    qed
  qed
  finally show ?thesis .
qed

section \<open>The sweep\<close>

datatype claim_event = Declared string "string option" "string list" | Released string

primrec event_agent :: "claim_event \<Rightarrow> string" where
  "event_agent (Declared agent label paths) = agent" | "event_agent (Released agent) = agent"

primrec swept_step :: "globset_compiler \<Rightarrow> string \<Rightarrow> (string \<Rightarrow> bool) \<Rightarrow> claim_event \<Rightarrow> claims_map \<Rightarrow> claims_map" where
  "swept_step glob os alive (Declared agent label paths) m = fst (declare_writes glob os alive agent label paths m)"
| "swept_step glob os alive (Released agent) m = release_writes agent m"

primrec plain_step :: "string \<Rightarrow> claim_event \<Rightarrow> claims_map \<Rightarrow> claims_map" where
  "plain_step os (Declared agent label paths) m = AList.update agent (claim_of os agent label paths) m"
| "plain_step os (Released agent) m = AList.delete agent m"

text \<open>A history of calls, each with the agents alive at that time: the map of the process, and the
  record of all declarations that nothing is swept from.\<close>

definition claims_after :: "globset_compiler \<Rightarrow> string \<Rightarrow> ((string \<Rightarrow> bool) \<times> claim_event) list \<Rightarrow> claims_map" where
  "claims_after glob os evs = foldl (\<lambda>m (alive, ev). swept_step glob os alive ev m) [] evs"

definition declared_after :: "string \<Rightarrow> ((string \<Rightarrow> bool) \<times> claim_event) list \<Rightarrow> claims_map" where
  "declared_after os evs = foldl (\<lambda>m (alive, ev). plain_step os ev m) [] evs"

text \<open>An agent that is alive now was alive at every call after its first declaration.\<close>

definition no_revival :: "((string \<Rightarrow> bool) \<times> claim_event) list \<Rightarrow> (string \<Rightarrow> bool) \<Rightarrow> bool" where
  "no_revival evs now \<longleftrightarrow>
     (\<forall>i<length evs. \<forall>a\<in>event_agent ` snd ` set (take i evs). now a \<longrightarrow> fst (evs ! i) a)"

lemma map_of_filter_key: "map_of (filter (\<lambda>(i, _). P i) m) i = (if P i then map_of m i else None)"
  by (induction m) auto

lemma distinct_filter_key: "distinct (map fst m) \<Longrightarrow> distinct (map fst (filter P m))"
  by (simp add: distinct_map_filter)

lemma proper_steps:
  "proper os m \<Longrightarrow> proper os (swept_step glob os alive ev m)"
  "proper os m \<Longrightarrow> proper os (plain_step os ev m)"
  by (cases ev; auto simp: proper_def declare_writes_def release_writes_def Let_def claim_of_def update_conv'
      delete_conv' map_of_filter_key distinct_update distinct_delete distinct_filter_key split: if_splits)+

lemma proper_after: "proper os (claims_after glob os evs)" "proper os (declared_after os evs)"
proof -
  have "proper os []" by (simp add: proper_def)
  then show "proper os (claims_after glob os evs)" "proper os (declared_after os evs)"
    by (induction evs rule: rev_induct)
      (auto simp: claims_after_def declared_after_def proper_steps split: prod.splits)
qed

lemma undeclared: "a \<notin> event_agent ` snd ` set evs \<Longrightarrow> map_of (declared_after os evs) a = None"
proof (induction evs rule: rev_induct)
  case (snoc e evs)
  then show ?case
    by (cases e; cases "snd e") (auto simp: declared_after_def update_conv' delete_conv')
qed (simp add: declared_after_def)

lemma no_revival_snoc:
  "no_revival (evs @ [e]) now \<longleftrightarrow> no_revival evs now \<and> (\<forall>a\<in>event_agent ` snd ` set evs. now a \<longrightarrow> fst e a)"
  unfolding no_revival_def by (auto simp: nth_append less_Suc_eq)

lemma sweep_keeps_the_living:
  "no_revival evs now \<Longrightarrow> now a \<Longrightarrow> map_of (claims_after glob os evs) a = map_of (declared_after os evs) a"
proof (induction evs rule: rev_induct)
  case (snoc e evs)
  obtain alive ev where e: "e = (alive, ev)" by (cases e)
  from snoc have IH: "map_of (claims_after glob os evs) a = map_of (declared_after os evs) a"
    by (simp add: no_revival_snoc)
  show ?case
  proof (cases ev)
    case (Declared b label paths)
    have "map_of (declared_after os evs) a = None" if "\<not> alive a"
      using snoc.prems e that by (intro undeclared) (auto simp: no_revival_snoc)
    with IH e Declared show ?thesis
      by (auto simp: claims_after_def declared_after_def declare_writes_def Let_def update_conv' map_of_filter_key)
  next
    case (Released b)
    with IH e show ?thesis
      by (auto simp: claims_after_def declared_after_def release_writes_def delete_conv')
  qed
qed (simp add: claims_after_def declared_after_def)

text \<open>
  The overlaps an agent is told of are exactly the latest declarations of the other live agents
  that meet its own, out of everything that was ever declared and not released: the opportunistic
  sweep of dead agents hides none, as long as no agent comes back to life.
\<close>

theorem reported_overlaps_are_exact:
  assumes "no_revival evs now" and "now agent" and "map_of (declared_after os evs) agent = Some mine"
  shows "overlap_holder ` set (overlaps_for glob now agent (claims_after glob os evs)) =
    {c. \<exists>i. map_of (declared_after os evs) i = Some c \<and> i \<noteq> agent \<and> now i \<and> claims_overlap glob c mine}"
proof -
  have "map_of (claims_after glob os evs) agent = Some mine"
    using sweep_keeps_the_living [OF assms(1,2)] assms(3) by simp
  then have "overlap_holder ` set (overlaps_for glob now agent (claims_after glob os evs)) =
      {c. \<exists>i. map_of (claims_after glob os evs) i = Some c \<and> i \<noteq> agent \<and> now i \<and> claims_overlap glob c mine}"
    using reported_holders [OF proper_after(1) refl] by (simp add: overlaps_for_def)
  also have "\<dots> = {c. \<exists>i. map_of (declared_after os evs) i = Some c \<and> i \<noteq> agent \<and> now i \<and> claims_overlap glob c mine}"
    using sweep_keeps_the_living [OF assms(1)] by (intro Collect_cong) metis
  finally show ?thesis .
qed

definition two_declarations :: "((string \<Rightarrow> bool) \<times> claim_event) list" where
  "two_declarations =
     [(\<lambda>_. True, Declared ''a'' None [''src/x.rs'']), (\<lambda>_. True, Declared ''b'' None [''src/x.rs''])]"

definition told_to_b :: "claim_overlap list" where
  "told_to_b = overlaps_for (\<lambda>_. None) (\<lambda>_. True) ''b'' (claims_after (\<lambda>_. None) ''linux'' two_declarations)"

theorem reported_overlaps_are_exact_witness:
  "map (claim_agent \<circ> overlap_holder) told_to_b = [''a'']
   \<and> claim_of ''linux'' ''a'' None [''src/x.rs''] \<in> overlap_holder ` set told_to_b"
proof -
  let ?a = "claim_of ''linux'' ''a'' None [''src/x.rs'']" and ?b = "claim_of ''linux'' ''b'' None [''src/x.rs'']"
  have d: "declared_after ''linux'' two_declarations = [(''a'', ?a), (''b'', ?b)]"
    by (simp add: declared_after_def two_declarations_def)
  have "no_revival two_declarations (\<lambda>_. True)"
    by (auto simp: no_revival_def two_declarations_def nth_Cons split: nat.splits)
  from reported_overlaps_are_exact [OF this, where agent = "''b''" and os = "''linux''" and mine = ?b
      and glob = "\<lambda>_. None"]
  have "overlap_holder ` set told_to_b =
    {c. \<exists>i. map_of [(''a'', ?a), (''b'', ?b)] i = Some c \<and> i \<noteq> ''b'' \<and> True \<and> claims_overlap (\<lambda>_. None) c ?b}"
    unfolding d told_to_b_def by simp
  moreover have "claims_overlap (\<lambda>_. None) ?a ?b" by code_simp
  then have "?a \<in> {c. \<exists>i. map_of [(''a'', ?a), (''b'', ?b)] i = Some c \<and> i \<noteq> ''b'' \<and> True \<and> claims_overlap (\<lambda>_. None) c ?b}"
    by (intro CollectI exI [of _ "''a''"]) simp
  ultimately have "?a \<in> overlap_holder ` set told_to_b"
    by (simp only:)
  moreover have "map (claim_agent \<circ> overlap_holder) told_to_b = [''a'']" by code_simp
  ultimately show ?thesis by blast
qed

text \<open>Overlaps are mutual: of two live agents with a claim, each is told of the other or neither is.\<close>

lemma overlaps_are_mutual:
  assumes "proper os m" and "alive a" "alive b" and "map_of m a = Some ca" "map_of m b = Some cb"
  shows "ca \<in> overlap_holder ` set (overlaps_for glob alive b m) \<longleftrightarrow>
    cb \<in> overlap_holder ` set (overlaps_for glob alive a m)"
proof -
  have own: "map_of m i = Some ca \<longleftrightarrow> i = a" "map_of m i = Some cb \<longleftrightarrow> i = b" for i
    using assms unfolding proper_def by metis+
  have at: "overlaps_for glob alive a m = live_overlaps glob alive a (claim_keys ca) m"
    "overlaps_for glob alive b m = live_overlaps glob alive b (claim_keys cb) m"
    using assms(4,5) by (simp_all add: overlaps_for_def)
  have "ca \<in> overlap_holder ` set (overlaps_for glob alive b m) \<longleftrightarrow> a \<noteq> b \<and> claims_overlap glob ca cb"
    using reported_holders [OF assms(1) refl, of glob alive b cb] assms(2) at(2) by (simp add: own)
  moreover have "cb \<in> overlap_holder ` set (overlaps_for glob alive a m) \<longleftrightarrow> b \<noteq> a \<and> claims_overlap glob cb ca"
    using reported_holders [OF assms(1) refl, of glob alive a ca] assms(3) at(1) by (simp add: own)
  ultimately show ?thesis using claims_overlap_sym [of glob ca cb] by metis
qed

end
