(* ===== verification/Board_Store.thy ===== *)
theory Board_Store imports Rust_Base "HOL-Library.AList" begin

text \<open>
  The task board of a run: \<^verbatim>\<open>crates/archon-memory/src/board.rs\<close> and
  \<^verbatim>\<open>crates/archon-memory/src/board/\<close> (\<^verbatim>\<open>crud.rs\<close>, \<^verbatim>\<open>claim.rs\<close>, \<^verbatim>\<open>history.rs\<close>, \<^verbatim>\<open>rows.rs\<close>). The two
  relations of the store are association lists with distinct keys; a stored row keeps its kind and
  status as text and its round as a 64-bit integer, as the columns do, and is decoded on every
  read. Each write is one transaction: the store after it is returned together with the outcome,
  because the outcome is decoded after the commit. The clock and the fresh identifier are
  arguments. Instants are natural numbers; reading back a formatted instant is assumed.
\<close>

section \<open>Kinds and statuses\<close>

datatype item_kind = Issue | Note

primrec kind_text :: "item_kind \<Rightarrow> string" where
  "kind_text Issue = ''issue''"
| "kind_text Note = ''note''"

definition kind_from :: "string \<Rightarrow> item_kind option" where
  "kind_from s = (if s = ''issue'' then Some Issue else if s = ''note'' then Some Note else None)"

datatype board_status =
    Open | Claimed | InReview | GapsRemain | Resolved | Declined | Promoted | Escalated

primrec status_text :: "board_status \<Rightarrow> string" where
  "status_text Open = ''open''"
| "status_text Claimed = ''claimed''"
| "status_text InReview = ''in_review''"
| "status_text GapsRemain = ''gaps_remain''"
| "status_text Resolved = ''resolved''"
| "status_text Declined = ''declined''"
| "status_text Promoted = ''promoted''"
| "status_text Escalated = ''escalated''"

definition status_from :: "string \<Rightarrow> board_status option" where
  "status_from s =
     (if s = ''open'' then Some Open
      else if s = ''claimed'' then Some Claimed
      else if s = ''in_review'' then Some InReview
      else if s = ''gaps_remain'' then Some GapsRemain
      else if s = ''resolved'' then Some Resolved
      else if s = ''declined'' then Some Declined
      else if s = ''promoted'' then Some Promoted
      else if s = ''escalated'' then Some Escalated
      else None)"

lemma kind_from_text [simp]: "kind_from (kind_text k) = Some k"
  by (cases k) (simp_all add: kind_from_def)

lemma status_from_text [simp]: "status_from (status_text s) = Some s"
  by (cases s) (simp_all add: status_from_def)

lemma status_text_inject [simp]: "status_text a = status_text b \<longleftrightarrow> a = b"
  by (metis option.inject status_from_text)

declare status_text.simps [simp del] kind_text.simps [simp del]

section \<open>Rows, items and events\<close>

datatype memory_error = NotFound string | Database string | InvalidType string

record board_row =
  row_run :: string
  row_kind :: string
  row_status :: string
  row_title :: string
  row_evidence :: string
  row_acceptance :: string
  row_raised_by :: string
  row_claimed_by :: "string option"
  row_round :: int
  row_created :: nat
  row_updated :: nat

record event_row =
  ev_at :: nat
  ev_run :: string
  ev_from :: string
  ev_to :: string
  ev_round :: int
  ev_actor :: "string option"
  ev_note :: string

record board_db =
  db_items :: "(string \<times> board_row) list"
  db_events :: "((string \<times> int) \<times> event_row) list"

definition empty_db :: board_db where
  "empty_db = \<lparr>db_items = [], db_events = []\<rparr>"

record board_item =
  item_id :: string
  item_run :: string
  item_kind :: item_kind
  item_status :: board_status
  item_title :: string
  item_evidence :: string
  item_acceptance :: string
  item_raised_by :: string
  item_claimed_by :: "string option"
  item_round :: u32
  item_created :: nat
  item_updated :: nat
  item_decline_reason :: "string option"

record board_event =
  event_item :: string
  event_seq :: u32
  event_at :: nat
  event_run :: string
  event_from :: board_status
  event_to :: board_status
  event_round :: u32
  event_actor :: "string option"
  event_note :: string

record new_board_item =
  new_id :: "string option"
  new_run :: string
  new_kind :: item_kind
  new_title :: string
  new_evidence :: string
  new_acceptance :: string
  new_raised_by :: string

record board_update =
  update_applied :: bool
  update_item :: board_item

text \<open>\<^verbatim>\<open>i64.max(0) as u32\<close>.\<close>

definition clamp_u32 :: "int \<Rightarrow> u32" where
  "clamp_u32 n = of_int (max n 0)"

definition row_values_to_item :: "string \<Rightarrow> board_row \<Rightarrow> memory_error + board_item" where
  "row_values_to_item i row =
     (case kind_from (row_kind row) of
        None \<Rightarrow> Inl (InvalidType (''board item kind: '' @ row_kind row))
      | Some kind \<Rightarrow>
          (case status_from (row_status row) of
             None \<Rightarrow> Inl (InvalidType (''board item status: '' @ row_status row))
           | Some status \<Rightarrow>
               Inr \<lparr>item_id = i, item_run = row_run row, item_kind = kind, item_status = status,
                 item_title = row_title row, item_evidence = row_evidence row,
                 item_acceptance = row_acceptance row, item_raised_by = row_raised_by row,
                 item_claimed_by = row_claimed_by row, item_round = clamp_u32 (row_round row),
                 item_created = row_created row, item_updated = row_updated row,
                 item_decline_reason = None\<rparr>))"

definition row_values_to_event :: "(string \<times> int) \<times> event_row \<Rightarrow> memory_error + board_event" where
  "row_values_to_event = (\<lambda>((i, seq), r).
     (case status_from (ev_from r) of
        None \<Rightarrow> Inl (InvalidType (''board event status: '' @ ev_from r))
      | Some from \<Rightarrow>
          (case status_from (ev_to r) of
             None \<Rightarrow> Inl (InvalidType (''board event status: '' @ ev_to r))
           | Some to \<Rightarrow>
               Inr \<lparr>event_item = i, event_seq = clamp_u32 seq, event_at = ev_at r,
                 event_run = ev_run r, event_from = from, event_to = to,
                 event_round = clamp_u32 (ev_round r), event_actor = ev_actor r,
                 event_note = ev_note r\<rparr>)))"

text \<open>Collecting into a \<^verbatim>\<open>Result\<close>: the first error, or all the values.\<close>

fun collect_results :: "('e + 'a) list \<Rightarrow> 'e + 'a list" where
  "collect_results [] = Inr []"
| "collect_results (Inl e # rest) = Inl e"
| "collect_results (Inr x # rest) = map_sum id (Cons x) (collect_results rest)"

section \<open>Why an item was declined\<close>

definition is_blank :: "string \<Rightarrow> bool" where
  "is_blank s \<longleftrightarrow> trim s = []"

text \<open>The latest non-blank note per item, over the rows a query selects.\<close>

definition later_note ::
    "(string \<Rightarrow> (int \<times> string) option) \<Rightarrow> string \<times> int \<times> string \<Rightarrow> string \<Rightarrow> (int \<times> string) option" where
  "later_note latest = (\<lambda>(i, seq, note).
     if is_blank note then latest
     else case latest i of
            None \<Rightarrow> latest(i \<mapsto> (seq, note))
          | Some (held, _) \<Rightarrow> if held \<le> seq then latest(i \<mapsto> (seq, note)) else latest)"

definition decline_reasons :: "(string \<times> int \<times> string) list \<Rightarrow> string \<Rightarrow> string option" where
  "decline_reasons rows i = map_option snd (foldl later_note (\<lambda>_. None) rows i)"

definition declines :: "board_db \<Rightarrow> ((string \<times> int) \<times> event_row \<Rightarrow> bool) \<Rightarrow> (string \<times> int \<times> string) list" where
  "declines db wanted =
     map (\<lambda>((i, seq), r). (i, seq, ev_note r))
       (filter (\<lambda>e. wanted e \<and> ev_to (snd e) = status_text Declined) (db_events db))"

definition with_decline_reason :: "board_db \<Rightarrow> board_item \<Rightarrow> board_item" where
  "with_decline_reason db item =
     (if item_status item = Declined
      then item\<lparr>item_decline_reason := decline_reasons (declines db (\<lambda>e. fst (fst e) = item_id item)) (item_id item)\<rparr>
      else item)"

definition with_decline_reasons_for_run :: "board_db \<Rightarrow> string \<Rightarrow> board_item list \<Rightarrow> board_item list" where
  "with_decline_reasons_for_run db run items =
     (if \<not> list_ex (\<lambda>item. item_status item = Declined) items then items
      else let reasons = decline_reasons (declines db (\<lambda>e. ev_run (snd e) = run))
           in map (\<lambda>item. if item_status item = Declined
                then item\<lparr>item_decline_reason := reasons (item_id item)\<rparr> else item) items)"

end
