(* ===== verification/Board_Ops.thy ===== *)
theory Board_Ops imports Board_Store "HOL-Library.Product_Lexorder" begin

text \<open>
  The transactions of the task board (\<^verbatim>\<open>crates/archon-memory/src/board/crud.rs\<close>, \<^verbatim>\<open>claim.rs\<close> and
  \<^verbatim>\<open>history.rs\<close>): creating and reading items, the compare-and-set behind claims, releases and
  status transitions, and the history a transition appends in its own transaction.
\<close>

section \<open>Creating and reading\<close>

definition no_evidence_text :: string where
  "no_evidence_text = ''a board item needs evidence: file:line references and what was observed''"

definition no_run_text :: string where
  "no_run_text = ''a board item needs a run_id; the drain gate is defined over that partition''"

definition new_row :: "nat \<Rightarrow> new_board_item \<Rightarrow> board_row" where
  "new_row now item =
     \<lparr>row_run = new_run item, row_kind = kind_text (new_kind item), row_status = status_text Open,
      row_title = new_title item, row_evidence = new_evidence item, row_acceptance = new_acceptance item,
      row_raised_by = new_raised_by item, row_claimed_by = None, row_round = 0,
      row_created = now, row_updated = now\<rparr>"

definition create_board_item ::
    "nat \<Rightarrow> string \<Rightarrow> new_board_item \<Rightarrow> board_db \<Rightarrow> board_db \<times> (memory_error + board_item)" where
  "create_board_item now fresh item db =
     (if is_blank (new_evidence item) then (db, Inl (Database no_evidence_text))
      else if is_blank (new_run item) then (db, Inl (Database no_run_text))
      else
        let i = (case new_id item of Some i \<Rightarrow> i | None \<Rightarrow> fresh)
        in case map_of (db_items db) i of
             Some row \<Rightarrow>
               (db, case row_values_to_item i row of
                      Inl e \<Rightarrow> Inl e
                    | Inr held \<Rightarrow> Inl (Database (''board item '' @ i @ '' already exists; raised by '' @ item_raised_by held)))
           | None \<Rightarrow>
               (db\<lparr>db_items := AList.update i (new_row now item) (db_items db)\<rparr>,
                row_values_to_item i (new_row now item)))"

definition get_board_item :: "string \<Rightarrow> board_db \<Rightarrow> memory_error + board_item" where
  "get_board_item i db =
     (case map_of (db_items db) i of
        None \<Rightarrow> Inl (NotFound i)
      | Some row \<Rightarrow> map_sum id (with_decline_reason db) (row_values_to_item i row))"

definition list_board_items_by_run :: "string \<Rightarrow> board_status list \<Rightarrow> board_db \<Rightarrow> memory_error + board_item list" where
  "list_board_items_by_run run statuses db =
     map_sum id
       (\<lambda>items. with_decline_reasons_for_run db run (sort_key (\<lambda>item. (item_created item, item_id item)) items))
       (collect_results
         (map (\<lambda>(i, row). row_values_to_item i row)
           (filter (\<lambda>(i, row). row_run row = run
                \<and> (statuses = [] \<or> row_status row \<in> set (map status_text statuses)))
             (db_items db))))"

section \<open>The compare-and-set\<close>

definition board_update_of :: "bool \<Rightarrow> string \<Rightarrow> board_row \<Rightarrow> board_db \<Rightarrow> memory_error + board_update" where
  "board_update_of applied i row db =
     map_sum id (\<lambda>item. \<lparr>update_applied = applied, update_item = with_decline_reason db item\<rparr>)
       (row_values_to_item i row)"

definition board_cas ::
    "string \<Rightarrow> (board_row \<Rightarrow> bool) \<Rightarrow> (board_row \<Rightarrow> board_row) \<Rightarrow> (board_row \<Rightarrow> board_db \<Rightarrow> board_db)
      \<Rightarrow> board_db \<Rightarrow> board_db \<times> (memory_error + board_update)" where
  "board_cas i guard write_rule after_write db =
     (case map_of (db_items db) i of
        None \<Rightarrow> (db, Inl (NotFound i))
      | Some row \<Rightarrow>
          if guard row then
            let row' = write_rule row;
                db' = after_write row' (db\<lparr>db_items := AList.update i row' (db_items db)\<rparr>)
            in (db', board_update_of True i row' db')
          else (db, board_update_of False i row db))"

definition no_history :: "board_row \<Rightarrow> board_db \<Rightarrow> board_db" where
  "no_history row db = db"

definition anonymous_claim_text :: string where
  "anonymous_claim_text = ''a claim needs an agent id; an anonymous claim has no liveness signal''"

definition claim_board_item ::
    "nat \<Rightarrow> string \<Rightarrow> string \<Rightarrow> board_db \<Rightarrow> board_db \<times> (memory_error + board_update)" where
  "claim_board_item now i agent db =
     (if is_blank agent then (db, Inl (Database anonymous_claim_text))
      else board_cas i (\<lambda>row. row_claimed_by row = None)
             (\<lambda>row. row\<lparr>row_status := status_text Claimed, row_claimed_by := Some agent, row_updated := now\<rparr>)
             no_history db)"

definition release_board_claim :: "nat \<Rightarrow> string \<Rightarrow> board_db \<Rightarrow> board_db \<times> (memory_error + board_update)" where
  "release_board_claim now i db =
     board_cas i (\<lambda>row. row_claimed_by row \<noteq> None)
       (\<lambda>row. row\<lparr>row_claimed_by := None,
          row_status := (if row_status row = status_text Claimed then status_text Open else row_status row),
          row_updated := now\<rparr>)
       no_history db"

section \<open>Transitions and their history\<close>

text \<open>The next sequence number: one more than the largest of the item, or zero.\<close>

definition next_seq :: "board_db \<Rightarrow> string \<Rightarrow> int" where
  "next_seq db i = foldl max (- 1) (map (\<lambda>e. snd (fst e)) (filter (\<lambda>e. fst (fst e) = i) (db_events db))) + 1"

definition transition_event ::
    "nat \<Rightarrow> string \<Rightarrow> board_status \<Rightarrow> board_status \<Rightarrow> string \<Rightarrow> board_row \<Rightarrow> board_db \<Rightarrow> board_db" where
  "transition_event now i from to note row db =
     db\<lparr>db_events := AList.update (i, next_seq db i)
       \<lparr>ev_at = now, ev_run = row_run row, ev_from = status_text from, ev_to = status_text to,
        ev_round = row_round row, ev_actor = row_claimed_by row, ev_note = note\<rparr> (db_events db)\<rparr>"

definition round_bump :: "board_status \<Rightarrow> board_status \<Rightarrow> int" where
  "round_bump from to = (if from = GapsRemain \<and> (to = Open \<or> to = Claimed) then 1 else 0)"

definition transition ::
    "nat \<Rightarrow> string \<Rightarrow> board_status \<Rightarrow> board_status \<Rightarrow> string \<Rightarrow> board_db \<Rightarrow> board_db \<times> (memory_error + board_update)" where
  "transition now i from to note db =
     board_cas i (\<lambda>row. row_status row = status_text from)
       (\<lambda>row. row\<lparr>row_status := status_text to, row_round := row_round row + round_bump from to, row_updated := now\<rparr>)
       (transition_event now i from to note) db"

definition decline_needs_reason_text :: string where
  "decline_needs_reason_text = ''declining a board item needs a reason: call decline_board_item(id, from, reason). ''
     @ ''The drain gate refuses a declined item with nothing recorded behind it''"

definition set_board_item_status ::
    "nat \<Rightarrow> string \<Rightarrow> board_status \<Rightarrow> board_status \<Rightarrow> board_db \<Rightarrow> board_db \<times> (memory_error + board_update)" where
  "set_board_item_status now i from to db =
     (if to = Declined then (db, Inl (Database decline_needs_reason_text))
      else transition now i from to [] db)"

definition empty_decline_text :: string where
  "empty_decline_text = ''a decline needs a reason: what was judged, and why the work should not happen''"

definition decline_board_item ::
    "nat \<Rightarrow> string \<Rightarrow> board_status \<Rightarrow> string \<Rightarrow> board_db \<Rightarrow> board_db \<times> (memory_error + board_update)" where
  "decline_board_item now i from reason db =
     (if is_blank reason then (db, Inl (Database empty_decline_text))
      else transition now i from Declined reason db)"

definition board_item_history :: "string \<Rightarrow> board_db \<Rightarrow> memory_error + board_event list" where
  "board_item_history i db =
     map_sum id (sort_key event_seq)
       (collect_results (map row_values_to_event (filter (\<lambda>e. fst (fst e) = i) (db_events db))))"

definition RUN_ACTIVITY_LIMIT :: nat where
  "RUN_ACTIVITY_LIMIT = 200"

text \<open>Newest first: by the instant, then by the sequence number, both descending, then by item.\<close>

definition newest_first :: "board_event list \<Rightarrow> board_event list" where
  "newest_first events =
     sort_key (\<lambda>e. - int (event_at e)) (sort_key (\<lambda>e. - int (unat (event_seq e))) (sort_key event_item events))"

definition board_run_activity :: "string \<Rightarrow> board_db \<Rightarrow> memory_error + board_event list" where
  "board_run_activity run db =
     map_sum id (\<lambda>events. take RUN_ACTIVITY_LIMIT (newest_first events))
       (collect_results (map row_values_to_event (filter (\<lambda>e. ev_run (snd e) = run) (db_events db))))"

section \<open>The runs on the board\<close>

record board_run_summary =
  summary_run :: string
  summary_counts :: "(string \<times> u32) list"
  summary_total :: u32
  summary_updated :: nat

definition count_status :: "string \<Rightarrow> (string \<times> u32) list \<Rightarrow> (string \<times> u32) list" where
  "count_status s counts = AList.update s ((case map_of counts s of Some n \<Rightarrow> n | None \<Rightarrow> 0) + 1) counts"

definition count_row :: "(string \<times> board_run_summary) list \<Rightarrow> board_row \<Rightarrow> (string \<times> board_run_summary) list" where
  "count_row runs row =
     (let s = (case map_of runs (row_run row) of
                 Some s \<Rightarrow> s
               | None \<Rightarrow> \<lparr>summary_run = row_run row, summary_counts = [], summary_total = 0,
                          summary_updated = row_updated row\<rparr>)
      in AList.update (row_run row)
           (s\<lparr>summary_counts := count_status (row_status row) (summary_counts s),
              summary_total := summary_total s + 1,
              summary_updated := max (summary_updated s) (row_updated row)\<rparr>) runs)"

definition list_board_runs :: "board_db \<Rightarrow> board_run_summary list" where
  "list_board_runs db =
     sort_key (\<lambda>s. (- int (summary_updated s), summary_run s))
       (map snd (foldl count_row [] (map snd (db_items db))))"

end
