(* ===== verification/Board_Claims.thy ===== *)
theory Board_Claims imports Board_Ops begin

text \<open>
  What any sequence of transactions keeps of the task board, whichever agents issue them and in
  whatever order: an item has at most one holder, every declined item has a recorded reason, the
  history of an item is numbered without gaps and its round counts the retries in that history,
  and no read meets a row it cannot decode.
\<close>

section \<open>Sequences of transactions\<close>

datatype board_op =
    CreateItem string new_board_item
  | ClaimItem string string
  | ReleaseItem string
  | SetStatus string board_status board_status
  | DeclineItem string board_status string

definition applied :: "memory_error + board_update \<Rightarrow> bool" where
  "applied r = (case r of Inl _ \<Rightarrow> False | Inr u \<Rightarrow> update_applied u)"

primrec board_step :: "nat \<Rightarrow> board_op \<Rightarrow> board_db \<Rightarrow> board_db \<times> bool" where
  "board_step now (CreateItem fresh item) db = map_prod id (\<lambda>r. \<not> isl r) (create_board_item now fresh item db)"
| "board_step now (ClaimItem i agent) db = map_prod id applied (claim_board_item now i agent db)"
| "board_step now (ReleaseItem i) db = map_prod id applied (release_board_claim now i db)"
| "board_step now (SetStatus i from to) db = map_prod id applied (set_board_item_status now i from to db)"
| "board_step now (DeclineItem i from reason) db = map_prod id applied (decline_board_item now i from reason db)"

type_synonym board_log = "(board_op \<times> bool) list"

definition board_next :: "board_db \<times> board_log \<Rightarrow> nat \<times> board_op \<Rightarrow> board_db \<times> board_log" where
  "board_next = (\<lambda>(db, log) (now, op). (case board_step now op db of (db', ok) \<Rightarrow> (db', log @ [(op, ok)])))"

definition board_run :: "(nat \<times> board_op) list \<Rightarrow> board_db \<times> board_log" where
  "board_run ops = foldl board_next (empty_db, []) ops"

lemma board_run_snoc: "board_run (ops @ [x]) = board_next (board_run ops) x"
  by (simp add: board_run_def)

section \<open>The invariant\<close>

definition seqs :: "board_db \<Rightarrow> string \<Rightarrow> int list" where
  "seqs db i = map (\<lambda>e. snd (fst e)) (filter (\<lambda>e. fst (fst e) = i) (db_events db))"

definition history :: "board_db \<Rightarrow> string \<Rightarrow> event_row list" where
  "history db i = map snd (filter (\<lambda>e. fst (fst e) = i) (db_events db))"

definition is_retry_event :: "event_row \<Rightarrow> bool" where
  "is_retry_event e \<longleftrightarrow> ev_from e = status_text GapsRemain \<and> ev_to e \<in> {status_text Open, status_text Claimed}"

definition row_ok :: "board_row \<Rightarrow> bool" where
  "row_ok r \<longleftrightarrow> row_kind r \<in> range kind_text \<and> row_status r \<in> range status_text
     \<and> \<not> is_blank (row_evidence r) \<and> \<not> is_blank (row_run r)
     \<and> (case row_claimed_by r of Some a \<Rightarrow> \<not> is_blank a | None \<Rightarrow> True)"

definition event_ok :: "board_row \<Rightarrow> event_row \<Rightarrow> bool" where
  "event_ok r e \<longleftrightarrow> ev_run e = row_run r \<and> ev_from e \<in> range status_text \<and> ev_to e \<in> range status_text
     \<and> (ev_to e = status_text Declined \<longrightarrow> \<not> is_blank (ev_note e))"

definition told :: "board_row \<Rightarrow> event_row list \<Rightarrow> bool" where
  "told r es \<longleftrightarrow> row_ok r \<and> (\<forall>e\<in>set es. event_ok r e)
     \<and> row_round r = int (length (filter is_retry_event es))
     \<and> (row_status r = status_text Declined \<longrightarrow> (\<exists>e\<in>set es. ev_to e = status_text Declined))"

definition item_ok :: "board_db \<Rightarrow> string \<Rightarrow> bool" where
  "item_ok db i \<longleftrightarrow> (case map_of (db_items db) i of None \<Rightarrow> history db i = [] | Some r \<Rightarrow> told r (history db i))
     \<and> seqs db i = map int [0..<length (history db i)]"

definition board_ok :: "board_db \<Rightarrow> bool" where
  "board_ok db \<longleftrightarrow> distinct (map fst (db_items db)) \<and> (\<forall>i. item_ok db i)"

lemma board_ok_empty: "board_ok empty_db"
  by (simp add: board_ok_def item_ok_def empty_db_def seqs_def history_def)

lemma board_ok_row:
  assumes "board_ok db" and "map_of (db_items db) i = Some r"
  shows "told r (history db i)" and "row_ok r"
proof -
  have "item_ok db i" using assms(1) by (simp add: board_ok_def)
  with assms(2) show "told r (history db i)" by (simp add: item_ok_def)
  then show "row_ok r" by (simp add: told_def)
qed

lemma board_ok_item: "board_ok db \<Longrightarrow> item_ok db i"
  by (simp add: board_ok_def)

section \<open>Each transaction keeps it\<close>

lemma update_new: "k \<notin> fst ` set al \<Longrightarrow> AList.update k v al = al @ [(k, v)]"
  by (induction al) auto

lemma max_of_upto: "foldl max (- 1) (map int [0..<n]) = int n - 1"
  by (induction n) auto

lemma next_seq_fresh:
  assumes "board_ok db"
  shows "next_seq db i = int (length (history db i))" and "(i, next_seq db i) \<notin> fst ` set (db_events db)"
proof -
  have s: "seqs db i = map int [0..<length (history db i)]"
    using board_ok_item [OF assms] by (simp add: item_ok_def)
  then show n: "next_seq db i = int (length (history db i))"
    by (simp add: next_seq_def flip: seqs_def) (simp add: max_of_upto)
  have "n \<in> set (seqs db i)" if "(i, n) \<in> fst ` set (db_events db)" for n
    using that by (force simp: seqs_def)
  then show "(i, next_seq db i) \<notin> fst ` set (db_events db)" using n s by fastforce
qed

lemma events_only [simp]:
  "history (db\<lparr>db_items := x\<rparr>) i = history db i" "seqs (db\<lparr>db_items := x\<rparr>) i = seqs db i"
  by (simp_all add: history_def seqs_def)

lemma update_items_ok:
  assumes "board_ok db" and "told r (history db i)"
  shows "board_ok (db\<lparr>db_items := AList.update i r (db_items db)\<rparr>)"
proof -
  have "item_ok (db\<lparr>db_items := AList.update i r (db_items db)\<rparr>) j" for j
    using board_ok_item [OF assms(1), of j] board_ok_item [OF assms(1), of i] assms(2)
    unfolding item_ok_def events_only by (cases "j = i") (simp_all add: update_conv')
  with assms(1) show ?thesis by (simp add: board_ok_def distinct_update)
qed

lemma cas_ok:
  assumes ok: "board_ok db" and w: "\<And>r. told r (history db i) \<Longrightarrow> guard r \<Longrightarrow> told (write_rule r) (history db i)"
  shows "board_ok (fst (board_cas i guard write_rule no_history db))"
  using ok board_ok_row(1) [OF ok] w update_items_ok [OF ok]
  by (auto simp: board_cas_def no_history_def Let_def split: option.splits)

lemma event_row_appended:
  assumes "board_ok db" and "db_events db' = db_events db"
  shows "db_events (transition_event now i from to note r db') = db_events db
     @ [((i, int (length (history db i))),
         \<lparr>ev_at = now, ev_run = row_run r, ev_from = status_text from, ev_to = status_text to,
          ev_round = row_round r, ev_actor = row_claimed_by r, ev_note = note\<rparr>)]"
proof -
  have "next_seq db' i = next_seq db i" using assms(2) by (simp add: next_seq_def)
  with next_seq_fresh [OF assms(1), of i] assms(2) show ?thesis
    by (simp add: transition_event_def update_new)
qed

lemma transition_ok:
  assumes ok: "board_ok db" and why: "to = Declined \<Longrightarrow> \<not> is_blank note"
  shows "board_ok (fst (transition now i from to note db))"
proof (cases "map_of (db_items db) i")
  case None
  with ok show ?thesis by (simp add: transition_def board_cas_def)
next
  case (Some r)
  note t = board_ok_row(1) [OF ok Some]
  show ?thesis
  proof (cases "row_status r = status_text from")
    case True
    let ?r = "r\<lparr>row_status := status_text to, row_round := row_round r + round_bump from to, row_updated := now\<rparr>"
    let ?db = "db\<lparr>db_items := AList.update i ?r (db_items db)\<rparr>"
    let ?e = "\<lparr>ev_at = now, ev_run = row_run ?r, ev_from = status_text from, ev_to = status_text to,
          ev_round = row_round ?r, ev_actor = row_claimed_by ?r, ev_note = note\<rparr>"
    let ?db' = "transition_event now i from to note ?r ?db"
    have ev: "db_events ?db' = db_events db @ [((i, int (length (history db i))), ?e)]"
      by (rule event_row_appended [OF ok]) simp
    have items: "db_items ?db' = AList.update i ?r (db_items db)" by (simp add: transition_event_def)
    have h: "history ?db' j = history db j @ (if j = i then [?e] else [])" for j
      unfolding history_def ev by simp
    have s: "seqs ?db' j = seqs db j @ (if j = i then [int (length (history db i))] else [])" for j
      unfolding seqs_def ev by simp
    have "told ?r (history db i @ [?e])"
      using t why by (auto simp: told_def row_ok_def event_ok_def is_retry_event_def round_bump_def split: option.splits)
    then have "item_ok ?db' j" for j
      using board_ok_item [OF ok, of j] unfolding item_ok_def items h s
      by (cases "j = i") (simp_all add: update_conv' split: option.splits)
    moreover have "distinct (map fst (db_items ?db'))"
      using ok unfolding items by (simp add: board_ok_def distinct_update)
    ultimately have "board_ok ?db'" by (simp add: board_ok_def)
    with Some True show ?thesis by (simp add: transition_def board_cas_def Let_def)
  next
    case False
    with ok Some show ?thesis by (simp add: transition_def board_cas_def)
  qed
qed

lemma new_row_told: "\<not> is_blank (new_evidence item) \<Longrightarrow> \<not> is_blank (new_run item) \<Longrightarrow> told (new_row now item) []"
  by (auto simp: told_def row_ok_def new_row_def)

lemma board_step_ok:
  assumes ok: "board_ok db"
  shows "board_ok (fst (board_step now op db))"
proof (cases op)
  case (CreateItem fresh item)
  let ?i = "case new_id item of Some i \<Rightarrow> i | None \<Rightarrow> fresh"
  show ?thesis
  proof (cases "is_blank (new_evidence item) \<or> is_blank (new_run item) \<or> map_of (db_items db) ?i \<noteq> None")
    case False
    then have "history db ?i = []" using board_ok_item [OF ok, of ?i] by (simp add: item_ok_def)
    with False new_row_told update_items_ok [OF ok, of "new_row now item" ?i]
    have "board_ok (db\<lparr>db_items := AList.update ?i (new_row now item) (db_items db)\<rparr>)" by simp
    with False CreateItem show ?thesis by (simp add: create_board_item_def Let_def)
  next
    case True
    with ok CreateItem show ?thesis by (auto simp: create_board_item_def Let_def)
  qed
next
  case (ClaimItem i agent)
  have "board_ok (fst (claim_board_item now i agent db))"
    unfolding claim_board_item_def using ok
    by (auto intro!: cas_ok simp: told_def row_ok_def event_ok_def)
  with ClaimItem show ?thesis by simp
next
  case (ReleaseItem i)
  have "board_ok (fst (release_board_claim now i db))"
    unfolding release_board_claim_def using ok
    by (auto intro!: cas_ok simp: told_def row_ok_def event_ok_def)
  with ReleaseItem show ?thesis by simp
next
  case (SetStatus i a b)
  with ok show ?thesis by (auto simp: set_board_item_status_def intro: transition_ok)
next
  case (DeclineItem i a reason)
  with ok show ?thesis by (simp add: decline_board_item_def transition_ok)
qed

lemma board_run_ok: "board_ok (fst (board_run ops))"
proof (induction ops rule: rev_induct)
  case Nil
  show ?case by (simp add: board_run_def board_ok_empty)
next
  case (snoc x ops)
  then show ?case
    using board_step_ok by (auto simp: board_run_snoc board_next_def split: prod.splits) (metis fst_conv)
qed

section \<open>No read fails\<close>

lemma row_decodes:
  assumes "row_ok r"
  obtains item where "row_values_to_item i r = Inr item" "item_id item = i" "item_run item = row_run r"
    "kind_text (item_kind item) = row_kind r" "status_text (item_status item) = row_status r"
    "item_claimed_by item = row_claimed_by r" "item_decline_reason item = None"
  using assms by (auto simp: row_ok_def row_values_to_item_def)

lemma applied_update_of: "row_ok r \<Longrightarrow> applied (board_update_of b i r db) = b"
  by (erule row_decodes [where i = i]) (simp add: applied_def board_update_of_def)

lemma cas_applied:
  assumes "board_ok db" and "\<And>r. row_ok r \<Longrightarrow> row_ok (write_rule r)"
  shows "applied (snd (board_cas i guard write_rule after db)) \<longleftrightarrow>
    (case map_of (db_items db) i of None \<Rightarrow> False | Some r \<Rightarrow> guard r)"
proof (cases "map_of (db_items db) i")
  case None
  then show ?thesis by (simp add: board_cas_def applied_def)
next
  case (Some r)
  with board_ok_row(2) [OF assms(1) Some] assms(2) applied_update_of show ?thesis
    by (simp add: board_cas_def Let_def)
qed

section \<open>One holder at a time\<close>

definition holder :: "board_db \<Rightarrow> string \<Rightarrow> string option" where
  "holder db i = Option.bind (map_of (db_items db) i) row_claimed_by"

text \<open>Who holds an item, read off the outcomes the agents were told.\<close>

definition hold_step :: "string \<Rightarrow> string option \<Rightarrow> board_op \<times> bool \<Rightarrow> string option" where
  "hold_step i h = (\<lambda>(op, ok).
     (case op of
        ClaimItem j agent \<Rightarrow> if ok \<and> j = i then Some agent else h
      | ReleaseItem j \<Rightarrow> if ok \<and> j = i then None else h
      | _ \<Rightarrow> h))"

definition holder_after :: "board_log \<Rightarrow> string \<Rightarrow> string option" where
  "holder_after log i = foldl (hold_step i) None log"

lemma applied_simps [simp]: "applied (Inl e) = False" "applied (Inr u) = update_applied u"
  by (simp_all add: applied_def)

lemma claim_applied:
  assumes "board_ok db"
  shows "snd (board_step now (ClaimItem i agent) db) \<longleftrightarrow>
    map_of (db_items db) i \<noteq> None \<and> \<not> is_blank agent \<and> holder db i = None"
proof (cases "is_blank agent")
  case False
  then have "snd (board_step now (ClaimItem i agent) db) \<longleftrightarrow>
      (case map_of (db_items db) i of None \<Rightarrow> False | Some r \<Rightarrow> row_claimed_by r = None)"
    unfolding claim_board_item_def board_step.simps using cas_applied [OF assms] by (simp add: row_ok_def)
  with False show ?thesis by (cases "map_of (db_items db) i") (simp_all add: holder_def)
qed (simp add: claim_board_item_def)

lemma release_applied:
  assumes "board_ok db"
  shows "snd (board_step now (ReleaseItem i) db) \<longleftrightarrow> holder db i \<noteq> None"
proof -
  have "snd (board_step now (ReleaseItem i) db) \<longleftrightarrow>
      (case map_of (db_items db) i of None \<Rightarrow> False | Some r \<Rightarrow> row_claimed_by r \<noteq> None)"
    unfolding release_board_claim_def board_step.simps snd_map_prod
    by (rule cas_applied [OF assms]) (auto simp: row_ok_def)
  then show ?thesis by (cases "map_of (db_items db) i") (simp_all add: holder_def)
qed

lemma holder_of_row: "map_of (db_items db) i = Some r \<Longrightarrow> holder db i = row_claimed_by r"
    "map_of (db_items db) i = None \<Longrightarrow> holder db i = None"
  by (simp_all add: holder_def)

lemma cas_holder:
  assumes "\<And>r db. db_items (after r db) = db_items db"
  shows "holder (fst (board_cas i guard write_rule after db)) j =
    (case map_of (db_items db) i of
       Some r \<Rightarrow> if j = i \<and> guard r then row_claimed_by (write_rule r) else holder db j
     | None \<Rightarrow> holder db j)"
  using assms by (simp add: board_cas_def holder_def Let_def update_conv' split: option.splits)

lemma step_holder:
  assumes ok: "board_ok db"
  shows "holder (fst (board_step now op db)) i = hold_step i (holder db i) (op, snd (board_step now op db))"
proof (cases op)
  case (CreateItem fresh item)
  then show ?thesis
    by (auto simp: create_board_item_def hold_step_def holder_def update_conv' new_row_def Let_def split: option.splits)
next
  case (ClaimItem j agent)
  have "holder (fst (claim_board_item now j agent db)) i =
      (if \<not> is_blank agent \<and> map_of (db_items db) j \<noteq> None \<and> holder db j = None \<and> j = i then Some agent else holder db i)"
    by (cases "map_of (db_items db) j")
       (auto simp: claim_board_item_def cas_holder no_history_def holder_of_row)
  with ClaimItem claim_applied [OF ok, of now j agent] show ?thesis by (auto simp: hold_step_def)
next
  case (ReleaseItem j)
  have "holder (fst (release_board_claim now j db)) i = (if holder db j \<noteq> None \<and> j = i then None else holder db i)"
    by (cases "map_of (db_items db) j")
       (auto simp: release_board_claim_def cas_holder no_history_def holder_of_row)
  with ReleaseItem release_applied [OF ok, of now j] show ?thesis by (auto simp: hold_step_def)
next
  case (SetStatus j a b)
  then show ?thesis
    by (auto simp: hold_step_def set_board_item_status_def transition_def cas_holder transition_event_def holder_of_row
        split: option.splits)
next
  case (DeclineItem j a reason)
  then show ?thesis
    by (auto simp: hold_step_def decline_board_item_def transition_def cas_holder transition_event_def holder_of_row
        split: option.splits)
qed

lemma run_holder: "holder (fst (board_run ops)) i = holder_after (snd (board_run ops)) i"
proof (induction ops rule: rev_induct)
  case Nil
  show ?case by (simp add: board_run_def holder_def empty_db_def holder_after_def)
next
  case (snoc x ops)
  obtain now op where x: "x = (now, op)" by (cases x)
  obtain db log where r: "board_run ops = (db, log)" by (cases "board_run ops")
  obtain db' ok where s: "board_step now op db = (db', ok)" by (cases "board_step now op db")
  from step_holder [OF board_run_ok [of ops], of now op i] snoc show ?case
    by (simp add: x r s board_run_snoc board_next_def holder_after_def)
qed

text \<open>
  C21. An item has one holder at a time. After any transactions of any agents, the holder on the
  board is the one that follows from the outcomes the agents were told: the agent of the last
  claim reported as applied that no applied release came after. A further claim is applied exactly
  when the item exists, the claimant has a name and nobody holds the item, and a release exactly
  when somebody does. So of two agents that race for an item only one is told that it won, and
  nobody else is until the item is given back.
\<close>

theorem claims_are_exclusive:
  "(case board_run ops of (db, log) \<Rightarrow>
      holder db i = holder_after log i
      \<and> (snd (board_step now (ClaimItem i agent) db) \<longleftrightarrow>
           map_of (db_items db) i \<noteq> None \<and> \<not> is_blank agent \<and> holder_after log i = None)
      \<and> (snd (board_step now (ReleaseItem i) db) \<longleftrightarrow> holder_after log i \<noteq> None))"
proof (cases "board_run ops")
  case (Pair db log)
  with board_run_ok [of ops] run_holder [of ops i] have ok: "board_ok db" and h: "holder db i = holder_after log i"
    by simp_all
  from claim_applied [OF ok, of now i agent] release_applied [OF ok, of now i] show ?thesis
    unfolding Pair prod.case h by blast
qed

end
