(* ===== verification/Board_Reads.thy ===== *)
theory Board_Reads imports Board_Claims begin

text \<open>
  What the reads of the task board return on any board the transactions can produce: every item
  decodes, a declined item carries the reason of its latest decline, and listing a run gives
  exactly its items, oldest first.
\<close>

section \<open>The reason of the latest decline\<close>

definition rows_of :: "string \<Rightarrow> (string \<times> int \<times> string) list \<Rightarrow> (int \<times> string) list" where
  "rows_of i rows = map snd (filter (\<lambda>r. fst r = i) rows)"

lemma latest_note:
  assumes "sorted (map fst (rows_of i rows))" and "list_all (\<lambda>r. \<not> is_blank (snd r)) (rows_of i rows)"
  shows "foldl later_note (\<lambda>_. None) rows i = (if rows_of i rows = [] then None else Some (last (rows_of i rows)))"
  using assms
proof (induction rows rule: rev_induct)
  case (snoc r rows)
  obtain j s n where r: "r = (j, s, n)" by (cases r)
  show ?case
  proof (cases "j = i")
    case True
    with snoc.prems r have p: "sorted (map fst (rows_of i rows))" "list_all (\<lambda>r. \<not> is_blank (snd r)) (rows_of i rows)"
      "\<not> is_blank n" "\<forall>x\<in>set (rows_of i rows). fst x \<le> s"
      by (auto simp: rows_of_def sorted_append)
    have "fst (last (rows_of i rows)) \<le> s" if "rows_of i rows \<noteq> []" using that p(4) by (meson last_in_set)
    with snoc.IH [OF p(1,2)] p(3) True r show ?thesis
      by (cases "last (rows_of i rows)") (simp add: rows_of_def later_note_def)
  next
    case False
    with r have "later_note m r i = m i" for m by (auto simp: later_note_def split: option.splits)
    with False r snoc show ?thesis by (simp add: rows_of_def)
  qed
qed (simp add: rows_of_def)

definition decline_events :: "board_db \<Rightarrow> string \<Rightarrow> event_row list" where
  "decline_events db i = filter (\<lambda>e. ev_to e = status_text Declined) (history db i)"

lemma rows_of_declines:
  assumes "\<And>e. e \<in> set (db_events db) \<Longrightarrow> fst (fst e) = i \<Longrightarrow> wanted e"
  shows "map snd (rows_of i (declines db wanted)) = map ev_note (decline_events db i)"
    and "\<exists>P. map fst (rows_of i (declines db wanted)) = map (\<lambda>e. snd (fst e)) (filter P (filter (\<lambda>e. fst (fst e) = i) (db_events db)))"
proof -
  have "filter (\<lambda>r. fst r = i) (declines db wanted) = map (\<lambda>((i, seq), r). (i, seq, ev_note r))
      (filter (\<lambda>e. ev_to (snd e) = status_text Declined) (filter (\<lambda>e. fst (fst e) = i) (db_events db)))"
    using assms by (auto simp: declines_def filter_map comp_def intro!: arg_cong [where f = "map _"] filter_cong)
  then have r: "rows_of i (declines db wanted) = map (\<lambda>e. (snd (fst e), ev_note (snd e)))
      (filter (\<lambda>e. ev_to (snd e) = status_text Declined) (filter (\<lambda>e. fst (fst e) = i) (db_events db)))"
    by (simp add: rows_of_def comp_def case_prod_beta)
  show "map snd (rows_of i (declines db wanted)) = map ev_note (decline_events db i)"
    unfolding r decline_events_def history_def filter_map by (simp add: comp_def)
  show "\<exists>P. map fst (rows_of i (declines db wanted)) = map (\<lambda>e. snd (fst e)) (filter P (filter (\<lambda>e. fst (fst e) = i) (db_events db)))"
    unfolding r by (intro exI [of _ "\<lambda>e. ev_to (snd e) = status_text Declined"]) (simp add: comp_def)
qed

lemma sorted_ints: "sorted (map int [0..<n])"
  by (induction n) (auto simp: sorted_append)

lemma decline_reason_latest:
  assumes ok: "board_ok db" and row: "map_of (db_items db) i = Some r"
    and all: "\<And>e. e \<in> set (db_events db) \<Longrightarrow> fst (fst e) = i \<Longrightarrow> wanted e"
  shows "decline_reasons (declines db wanted) i =
    (if decline_events db i = [] then None else Some (ev_note (last (decline_events db i))))"
proof -
  let ?rows = "rows_of i (declines db wanted)"
  have same: "map snd ?rows = map ev_note (decline_events db i)"
    by (rule rows_of_declines(1)) (rule all)
  obtain P where chosen: "map fst ?rows = map (\<lambda>e. snd (fst e)) (filter P (filter (\<lambda>e. fst (fst e) = i) (db_events db)))"
    using rows_of_declines(2) [of db i wanted] all by blast
  have t: "told r (history db i)" by (rule board_ok_row(1) [OF ok row])
  then have "list_all (\<lambda>e. \<not> is_blank (ev_note e)) (decline_events db i)"
    by (auto simp: told_def event_ok_def decline_events_def list_all_iff)
  then have "list_all (\<lambda>n. \<not> is_blank n) (map snd ?rows)" unfolding same by (simp add: list_all_iff)
  then have nb: "list_all (\<lambda>r. \<not> is_blank (snd r)) ?rows" by (simp add: list_all_iff)
  have "sorted (seqs db i)" using board_ok_item [OF ok, of i]
    by (simp add: item_ok_def sorted_ints)
  then have "sorted (map fst ?rows)"
    unfolding chosen seqs_def by (rule sorted_filter)
  note latest = latest_note [OF this nb]
  have empty: "?rows = [] \<longleftrightarrow> decline_events db i = []" using same by (metis map_is_Nil_conv)
  show ?thesis
  proof (cases "?rows = []")
    case False
    then have "snd (last ?rows) = ev_note (last (decline_events db i))"
      using same empty by (metis last_map)
    with False empty latest show ?thesis by (simp add: decline_reasons_def)
  qed (use empty latest in \<open>simp add: decline_reasons_def\<close>)
qed

section \<open>Reading an item\<close>

text \<open>What a read of an item says.\<close>

definition shown :: "board_db \<Rightarrow> string \<Rightarrow> board_row \<Rightarrow> board_item" where
  "shown db i r = \<lparr>item_id = i, item_run = row_run r, item_kind = the (kind_from (row_kind r)),
     item_status = the (status_from (row_status r)), item_title = row_title r,
     item_evidence = row_evidence r, item_acceptance = row_acceptance r, item_raised_by = row_raised_by r,
     item_claimed_by = row_claimed_by r, item_round = clamp_u32 (row_round r),
     item_created = row_created r, item_updated = row_updated r,
     item_decline_reason =
       (if row_status r = status_text Declined then Some (ev_note (last (decline_events db i))) else None)\<rparr>"

lemma row_shown:
  assumes "row_ok r"
  shows "row_values_to_item i r = Inr ((shown db i r)\<lparr>item_decline_reason := None\<rparr>)"
  using assms by (auto simp: row_ok_def row_values_to_item_def shown_def)

lemma shown_declined:
  assumes "row_ok r"
  shows "item_status (shown db i r) = Declined \<longleftrightarrow> row_status r = status_text Declined"
  using assms by (auto simp: row_ok_def shown_def)

lemma declined_has_event:
  assumes "board_ok db" and "map_of (db_items db) i = Some r" and "row_status r = status_text Declined"
  shows "decline_events db i \<noteq> []" and "\<not> is_blank (ev_note (last (decline_events db i)))"
proof -
  have t: "told r (history db i)" by (rule board_ok_row(1) [OF assms(1,2)])
  with assms(3) show ne: "decline_events db i \<noteq> []"
    by (auto simp: told_def decline_events_def filter_empty_conv)
  from last_in_set [OF ne] t show "\<not> is_blank (ev_note (last (decline_events db i)))"
    by (auto simp: told_def event_ok_def decline_events_def)
qed

lemma reason_shown:
  assumes "board_ok db" and "map_of (db_items db) i = Some r"
    and "\<And>e. e \<in> set (db_events db) \<Longrightarrow> fst (fst e) = i \<Longrightarrow> wanted e"
  shows "(if item_status (shown db i r) = Declined
      then (shown db i r)\<lparr>item_decline_reason := decline_reasons (declines db wanted) i\<rparr>
      else (shown db i r)\<lparr>item_decline_reason := None\<rparr>) = shown db i r"
  using decline_reason_latest [OF assms] declined_has_event(1) [OF assms(1,2)]
    shown_declined [OF board_ok_row(2) [OF assms(1,2)]]
  by (simp add: shown_def)

lemma get_shown:
  assumes "board_ok db"
  shows "get_board_item i db =
    (case map_of (db_items db) i of None \<Rightarrow> Inl (NotFound i) | Some r \<Rightarrow> Inr (shown db i r))"
proof (cases "map_of (db_items db) i")
  case (Some r)
  have "item_id ((shown db i r)\<lparr>item_decline_reason := None\<rparr>) = i" by (simp add: shown_def)
  with reason_shown [OF assms Some, of "\<lambda>e. fst (fst e) = i"] Some
    row_shown [OF board_ok_row(2) [OF assms Some], of i db]
  show ?thesis by (simp add: get_board_item_def with_decline_reason_def split: if_splits)
qed (simp add: get_board_item_def)

section \<open>Listing a run\<close>

lemma collect_all: "(\<And>x. x \<in> set xs \<Longrightarrow> f x = Inr (g x)) \<Longrightarrow> collect_results (map f xs) = Inr (map g xs)"
  by (induction xs) auto

lemma map_insort_key: "(\<And>x. k (f x) = k x) \<Longrightarrow> map f (insort_key k x xs) = insort_key k (f x) (map f xs)"
  by (induction xs) auto

lemma map_sort_key: "(\<And>x. k (f x) = k x) \<Longrightarrow> map f (sort_key k xs) = sort_key k (map f xs)"
  by (induction xs) (simp_all add: map_insort_key)

definition run_rows :: "board_db \<Rightarrow> string \<Rightarrow> board_status list \<Rightarrow> (string \<times> board_row) list" where
  "run_rows db run statuses =
     filter (\<lambda>(i, row). row_run row = run \<and> (statuses = [] \<or> row_status row \<in> set (map status_text statuses)))
       (db_items db)"

definition oldest_first :: "board_item list \<Rightarrow> board_item list" where
  "oldest_first = sort_key (\<lambda>item. (item_created item, item_id item))"

lemma list_shown:
  assumes ok: "board_ok db"
  shows "list_board_items_by_run run statuses db =
    Inr (oldest_first (map (\<lambda>(i, r). shown db i r) (run_rows db run statuses)))"
proof -
  let ?plain = "\<lambda>(i, r). (shown db i r)\<lparr>item_decline_reason := None\<rparr>" and ?rows = "run_rows db run statuses"
  let ?reason = "decline_reasons (declines db (\<lambda>e. ev_run (snd e) = run))"
  let ?fill = "\<lambda>item. if item_status item = Declined then item\<lparr>item_decline_reason := ?reason (item_id item)\<rparr> else item"
  have row: "map_of (db_items db) i = Some r" if "(i, r) \<in> set ?rows" for i r
    using that ok by (auto simp: run_rows_def board_ok_def)
  have plain: "(case x of (i, r) \<Rightarrow> row_values_to_item i r) = Inr (?plain x)" if "x \<in> set ?rows" for x
  proof -
    obtain i r where x: "x = (i, r)" by (cases x)
    with that row have "map_of (db_items db) i = Some r" by simp
    with row_shown [OF board_ok_row(2) [OF ok this], of i db] x show ?thesis by simp
  qed
  have filled: "?fill (?plain x) = (case x of (i, r) \<Rightarrow> shown db i r)" if "x \<in> set ?rows" for x
  proof -
    obtain i r where x: "x = (i, r)" by (cases x)
    with that have m: "map_of (db_items db) i = Some r" and run: "row_run r = run"
      using row by (auto simp: run_rows_def)
    have "ev_run (snd e) = run" if "e \<in> set (db_events db)" "fst (fst e) = i" for e
    proof -
      from that have "snd e \<in> set (history db i)" by (auto simp: history_def)
      with board_ok_row(1) [OF ok m] run show ?thesis by (simp add: told_def event_ok_def)
    qed
    then have eq: "(if item_status (shown db i r) = Declined then (shown db i r)\<lparr>item_decline_reason := ?reason i\<rparr>
        else (shown db i r)\<lparr>item_decline_reason := None\<rparr>) = shown db i r"
      by (intro reason_shown [OF ok m]) simp
    have "item_id (shown db i r) = i" by (simp add: shown_def)
    with eq show ?thesis by (simp add: x split: if_splits)
  qed
  have fill: "map ?fill (oldest_first xs) = oldest_first (map ?fill xs)" for xs
    unfolding oldest_first_def by (rule map_sort_key) simp
  have all: "map ?fill (map ?plain ?rows) = map (\<lambda>(i, r). shown db i r) ?rows"
    using filled by (simp add: comp_def)
  have "with_decline_reasons_for_run db run (oldest_first (map ?plain ?rows)) = map ?fill (oldest_first (map ?plain ?rows))"
    by (auto simp: with_decline_reasons_for_run_def list_ex_iff intro!: map_idI [symmetric])
  also have "\<dots> = oldest_first (map (\<lambda>(i, r). shown db i r) ?rows)"
    unfolding fill all ..
  finally have listed: "with_decline_reasons_for_run db run (oldest_first (map ?plain ?rows)) = \<dots>" .
  have "collect_results (map (\<lambda>(i, r). row_values_to_item i r) ?rows) = Inr (map ?plain ?rows)"
    by (rule collect_all) (rule plain)
  with listed show ?thesis
    unfolding list_board_items_by_run_def run_rows_def [symmetric] oldest_first_def by simp
qed

section \<open>On every board\<close>

text \<open>
  No decline goes unexplained. After any transactions of any agents, reading an item fails only
  when there is no such item; a declined item comes with a reason that is not blank, and no other
  item comes with one; and listing the run of the item succeeds and contains the very same item.
\<close>

theorem declines_are_explained:
  "(case get_board_item i (fst (board_run ops)) of
      Inl e \<Rightarrow> e = NotFound i
    | Inr item \<Rightarrow>
        (case item_decline_reason item of
           Some reason \<Rightarrow> item_status item = Declined \<and> \<not> is_blank reason
         | None \<Rightarrow> item_status item \<noteq> Declined)
        \<and> (case list_board_items_by_run (item_run item) [] (fst (board_run ops)) of
             Inl e \<Rightarrow> False | Inr items \<Rightarrow> item \<in> set items))"
proof (cases "map_of (db_items (fst (board_run ops))) i")
  case None
  then show ?thesis by (simp add: get_shown [OF board_run_ok])
next
  case (Some r)
  let ?db = "fst (board_run ops)"
  have "(i, r) \<in> set (run_rows ?db (row_run r) [])" using map_of_SomeD [OF Some] by (simp add: run_rows_def)
  then have "shown ?db i r \<in> set (oldest_first (map (\<lambda>(i, r). shown ?db i r) (run_rows ?db (row_run r) [])))"
    by (force simp: oldest_first_def)
  moreover have "item_run (shown ?db i r) = row_run r" by (simp add: shown_def)
  moreover have "case item_decline_reason (shown ?db i r) of
        Some reason \<Rightarrow> item_status (shown ?db i r) = Declined \<and> \<not> is_blank reason
      | None \<Rightarrow> item_status (shown ?db i r) \<noteq> Declined"
    using declined_has_event(2) [OF board_run_ok Some] shown_declined [OF board_ok_row(2) [OF board_run_ok Some]]
    by (simp add: shown_def)
  ultimately show ?thesis by (simp add: get_shown [OF board_run_ok] Some list_shown [OF board_run_ok])
qed

text \<open>
  The history of an item is its ladder. After any transactions, the entries of an item are
  numbered from zero without gaps, an item that was never created has none, every entry names the
  run of the item, and the round of the item is the number of entries that send it back from
  remaining gaps to work.
\<close>

theorem round_counts_the_retries:
  "(case fst (board_run ops) of db \<Rightarrow>
      seqs db i = map int [0..<length (history db i)]
      \<and> (case map_of (db_items db) i of
           None \<Rightarrow> history db i = []
         | Some r \<Rightarrow> row_round r = int (length (filter is_retry_event (history db i)))
             \<and> ev_run ` set (history db i) \<subseteq> {row_run r}))"
  using board_ok_item [OF board_run_ok [of ops], of i]
  by (auto simp: item_ok_def told_def event_ok_def split: option.splits)

end
