(* ===== verification/Agent_Registry.thy ===== *)
theory Agent_Registry imports Rust_Base "HOL-Library.AList" begin

text \<open>
  The registry of running subagents: \<^verbatim>\<open>crates/archon-tools/src/background_agents.rs\<close> and
  \<^verbatim>\<open>background_agents_running.rs\<close>. The concurrent map is an association list with distinct keys, each
  method one atomic step; an identifier is its text, so the key of an agent with a minted identifier
  is that identifier. The registry is the only source of liveness, and the main lemma says that
  it implements a three-state life of each agent.
\<close>

section \<open>Handles and the registry\<close>

datatype agent_status = Running | Finished | Failed | Cancelled

definition is_terminal :: "agent_status \<Rightarrow> bool" where
  "is_terminal s \<longleftrightarrow> s \<noteq> Running"

record agent_handle =
  handle_agent_id :: string
  handle_subagent :: string
  handle_spawned_at :: nat
  handle_token_cancelled :: bool
  handle_status :: agent_status

datatype registry_event =
    AgentRegistered string
  | AgentCancelled string
  | AgentReaped string agent_status

datatype registry_error = DuplicateAgent string | AgentNotFound string

datatype run_registration = Registered | AlreadyRunning | Restarted

text \<open>The metrics channel, when there is one, is the list of the events sent.\<close>

record agent_registry =
  registry_inner :: "(string \<times> agent_handle) list"
  registry_metrics :: "registry_event list option"

definition new_registry :: agent_registry where
  "new_registry = \<lparr>registry_inner = [], registry_metrics = None\<rparr>"

definition registry_with_metrics :: agent_registry where
  "registry_with_metrics = \<lparr>registry_inner = [], registry_metrics = Some []\<rparr>"

definition emit :: "registry_event \<Rightarrow> agent_registry \<Rightarrow> agent_registry" where
  "emit e r = r\<lparr>registry_metrics := map_option (\<lambda>es. es @ [e]) (registry_metrics r)\<rparr>"

definition put_handle :: "agent_handle \<Rightarrow> agent_registry \<Rightarrow> agent_registry" where
  "put_handle h r = r\<lparr>registry_inner := AList.update (handle_subagent h) h (registry_inner r)\<rparr>"

section \<open>The operations\<close>

definition register :: "agent_handle \<Rightarrow> agent_registry \<Rightarrow> agent_registry \<times> (registry_error + unit)" where
  "register h r =
     (if map_of (registry_inner r) (handle_subagent h) \<noteq> None then (r, Inl (DuplicateAgent (handle_agent_id h)))
      else (emit (AgentRegistered (handle_agent_id h)) (put_handle h r), Inr ()))"

definition register_run :: "agent_handle \<Rightarrow> agent_registry \<Rightarrow> agent_registry \<times> run_registration" where
  "register_run h r =
     (case map_of (registry_inner r) (handle_subagent h) of
        Some held \<Rightarrow>
          if handle_status held = Running then (r, AlreadyRunning)
          else (emit (AgentRegistered (handle_agent_id h)) (put_handle h r), Restarted)
      | None \<Rightarrow> (emit (AgentRegistered (handle_agent_id h)) (put_handle h r), Registered))"

definition status_of :: "string \<Rightarrow> agent_registry \<Rightarrow> agent_status option" where
  "status_of i r = map_option handle_status (map_of (registry_inner r) i)"

definition cancel :: "string \<Rightarrow> agent_registry \<Rightarrow> agent_registry \<times> (registry_error + unit)" where
  "cancel i r =
     (case map_of (registry_inner r) i of
        Some h \<Rightarrow>
          (emit (AgentCancelled i)
             (r\<lparr>registry_inner := AList.update i (h\<lparr>handle_token_cancelled := True, handle_status := Cancelled\<rparr>)
                (registry_inner r)\<rparr>),
           Inr ())
      | None \<Rightarrow> (r, Inl (AgentNotFound i)))"

definition reap_one :: "agent_registry \<times> string list \<Rightarrow> string \<Rightarrow> agent_registry \<times> string list" where
  "reap_one = (\<lambda>(r, reaped) key.
     (case map_of (registry_inner r) key of
        Some h \<Rightarrow>
          (emit (AgentReaped (handle_agent_id h) (handle_status h))
             (r\<lparr>registry_inner := AList.delete key (registry_inner r)\<rparr>),
           reaped @ [handle_agent_id h])
      | None \<Rightarrow> (r, reaped)))"

definition reap_finished :: "agent_registry \<Rightarrow> agent_registry \<times> string list" where
  "reap_finished r =
     foldl reap_one (r, []) (map fst (filter (\<lambda>(_, h). is_terminal (handle_status h)) (registry_inner r)))"

definition mark_terminal :: "string \<Rightarrow> agent_status \<Rightarrow> agent_registry \<Rightarrow> agent_registry \<times> bool" where
  "mark_terminal i s r =
     (if \<not> is_terminal s then (r, False)
      else case map_of (registry_inner r) i of
             None \<Rightarrow> (r, False)
           | Some h \<Rightarrow>
               if is_terminal (handle_status h) then (r, False)
               else (r\<lparr>registry_inner := AList.update i (h\<lparr>handle_status := s\<rparr>) (registry_inner r)\<rparr>, True))"

definition iter_running :: "agent_registry \<Rightarrow> string list" where
  "iter_running r = map (\<lambda>(_, h). handle_agent_id h) (filter (\<lambda>(_, h). handle_status h = Running) (registry_inner r))"

definition iter_running_ids :: "agent_registry \<Rightarrow> string list" where
  "iter_running_ids r = map fst (filter (\<lambda>(_, h). handle_status h = Running) (registry_inner r))"

record running_agent =
  running_subagent :: string
  running_agent_id :: string
  running_since :: nat

definition running_snapshot :: "agent_registry \<Rightarrow> running_agent list" where
  "running_snapshot r =
     map (\<lambda>(key, h). \<lparr>running_subagent = key, running_agent_id = handle_agent_id h, running_since = handle_spawned_at h\<rparr>)
       (filter (\<lambda>(_, h). handle_status h = Running) (registry_inner r))"

datatype poll_outcome = UnknownAgent | StillRunning | CompleteAgent agent_status

definition poll_subagent :: "string \<Rightarrow> agent_registry \<Rightarrow> poll_outcome" where
  "poll_subagent i r =
     (case status_of i r of
        None \<Rightarrow> UnknownAgent
      | Some s \<Rightarrow> if s = Running then StillRunning else CompleteAgent s)"

section \<open>Calls\<close>

datatype registry_call =
    Register agent_handle
  | RegisterRun agent_handle
  | Cancel string
  | MarkTerminal string agent_status
  | Reap

primrec registry_step :: "registry_call \<Rightarrow> agent_registry \<Rightarrow> agent_registry" where
  "registry_step (Register h) r = fst (register h r)"
| "registry_step (RegisterRun h) r = fst (register_run h r)"
| "registry_step (Cancel i) r = fst (cancel i r)"
| "registry_step (MarkTerminal i s) r = fst (mark_terminal i s r)"
| "registry_step Reap r = fst (reap_finished r)"

text \<open>The life of one agent, as the registry is meant to tell it: a running agent stays so until
  something ends it, an ended one is dead until it is reaped or started again.\<close>

datatype agent_life = Absent | Alive | Dead

definition born :: "agent_handle \<Rightarrow> agent_life" where
  "born h = (if handle_status h = Running then Alive else Dead)"

primrec life_step :: "string \<Rightarrow> registry_call \<Rightarrow> agent_life \<Rightarrow> agent_life" where
  "life_step i (Register h) l = (if handle_subagent h = i \<and> l = Absent then born h else l)"
| "life_step i (RegisterRun h) l = (if handle_subagent h = i \<and> l \<noteq> Alive then born h else l)"
| "life_step i (Cancel j) l = (if j = i \<and> l = Alive then Dead else l)"
| "life_step i (MarkTerminal j s) l = (if j = i \<and> l = Alive \<and> s \<noteq> Running then Dead else l)"
| "life_step i Reap l = (if l = Dead then Absent else l)"

definition life :: "string \<Rightarrow> agent_registry \<Rightarrow> agent_life" where
  "life i r = (case status_of i r of None \<Rightarrow> Absent | Some s \<Rightarrow> if s = Running then Alive else Dead)"

definition registry_ok :: "agent_registry \<Rightarrow> bool" where
  "registry_ok r \<longleftrightarrow> distinct (map fst (registry_inner r)) \<and> (\<forall>(k, h)\<in>set (registry_inner r). handle_subagent h = k)"

lemma registry_inner_emit [simp]: "registry_inner (emit e r) = registry_inner r"
  by (simp add: emit_def)

lemma life_emit [simp]: "life i (emit e r) = life i r"
  by (simp add: life_def status_of_def)

lemma life_update:
  "life i (r\<lparr>registry_inner := AList.update k h (registry_inner r)\<rparr>) = (if i = k then born h else life i r)"
  by (simp add: life_def status_of_def update_conv' born_def)

lemma life_cases: "life i r = (case map_of (registry_inner r) i of None \<Rightarrow> Absent | Some h \<Rightarrow> born h)"
  by (simp add: life_def status_of_def born_def split: option.splits)

section \<open>The registry tells the life of every agent\<close>

lemma reap_map:
  "map_of (registry_inner (fst (foldl reap_one (r, acc) keys))) =
     (\<lambda>i. if i \<in> set keys then None else map_of (registry_inner r) i)"
proof (induction keys arbitrary: r acc)
  case (Cons k keys)
  obtain r' acc' where s: "reap_one (r, acc) k = (r', acc')" by (cases "reap_one (r, acc) k")
  then have "map_of (registry_inner r') = (map_of (registry_inner r))(k := None)"
    by (auto simp: reap_one_def delete_conv' split: option.splits)
  with Cons.IH [of r' acc'] s show ?case by (auto simp: fun_eq_iff)
qed simp

lemma reap_lookup:
  assumes "distinct (map fst (registry_inner r))"
  shows "map_of (registry_inner (fst (reap_finished r))) i =
    (case map_of (registry_inner r) i of
       Some h \<Rightarrow> if is_terminal (handle_status h) then None else Some h | None \<Rightarrow> None)"
proof -
  let ?dead = "filter (\<lambda>(_, h). is_terminal (handle_status h)) (registry_inner r)"
  have "i \<in> fst ` set ?dead \<longleftrightarrow> (\<exists>h. map_of (registry_inner r) i = Some h \<and> is_terminal (handle_status h))"
    unfolding map_of_eq_Some_iff [OF assms] by force
  then show ?thesis by (simp add: reap_finished_def reap_map split: option.splits)
qed

lemma reap_distinct:
  "distinct (map fst (registry_inner r)) \<Longrightarrow> distinct (map fst (registry_inner (fst (foldl reap_one (r, acc) keys))))"
proof (induction keys arbitrary: r acc)
  case (Cons k keys)
  obtain r' acc' where s: "reap_one (r, acc) k = (r', acc')" by (cases "reap_one (r, acc) k")
  with Cons.prems have "distinct (map fst (registry_inner r'))"
    by (auto simp: reap_one_def distinct_delete split: option.splits)
  with Cons.IH s show ?case by simp
qed simp

lemma step_distinct:
  "distinct (map fst (registry_inner r)) \<Longrightarrow> distinct (map fst (registry_inner (registry_step c r)))"
  by (cases c)
    (auto simp: register_def register_run_def cancel_def mark_terminal_def put_handle_def distinct_update
      reap_finished_def reap_distinct split: option.splits)

lemma step_life:
  assumes d: "distinct (map fst (registry_inner r))"
  shows "life i (registry_step c r) = life_step i c (life i r)"
proof (cases c)
  case (Register h)
  then show ?thesis
    by (auto simp: register_def put_handle_def life_update) (auto simp: life_cases born_def split: if_splits)
next
  case (RegisterRun h)
  then show ?thesis
    by (auto simp: register_run_def put_handle_def life_update split: option.splits) (auto simp: life_cases born_def split: if_splits)
next
  case (Cancel j)
  then show ?thesis
    by (auto simp: cancel_def life_update born_def split: option.splits) (auto simp: life_cases born_def split: if_splits)
next
  case (MarkTerminal j s)
  then show ?thesis
    by (auto simp: mark_terminal_def is_terminal_def life_update born_def split: option.splits)
       (auto simp: life_cases born_def split: if_splits)
next
  case Reap
  then show ?thesis
    using reap_lookup [OF d, of i] by (auto simp: life_cases born_def is_terminal_def split: option.splits if_splits)
qed

definition registry_after :: "registry_call list \<Rightarrow> agent_registry" where
  "registry_after calls = foldl (\<lambda>r c. registry_step c r) new_registry calls"

lemma registry_after_distinct: "distinct (map fst (registry_inner (registry_after calls)))"
proof (induction calls rule: rev_induct)
  case Nil
  show ?case by (simp add: registry_after_def new_registry_def)
next
  case (snoc c calls)
  with step_distinct show ?case by (simp add: registry_after_def)
qed


end
