(* ===== verification/Board_Tools.thy ===== *)
theory Board_Tools imports Board_Reads Agent_Registry Write_Paths begin

text \<open>
  The callers of the task board: \<^verbatim>\<open>crates/archon-tools/src/board.rs\<close>, \<^verbatim>\<open>board/leases.rs\<close>,
  \<^verbatim>\<open>board/tools.rs\<close>, \<^verbatim>\<open>board/tools_lifecycle.rs\<close> and \<^verbatim>\<open>board/mirror.rs\<close>. A tool call reads its
  arguments through a JSON reader, sweeps the claims of dead agents, and runs its transactions on
  the board; one call sees one registry and one reading of the clock. The handle of the process is
  \<^const>\<open>None\<close> when no board is installed.
\<close>

section \<open>Runs and callers\<close>

definition TOP_LEVEL_AGENT :: string where
  "TOP_LEVEL_AGENT = ''top-level-agent''"

definition stage_mark :: string where
  "stage_mark = ''-stage-''"

definition run_id_for_session :: "string \<Rightarrow> string" where
  "run_id_for_session session =
     (case find_sub stage_mark session of
        None \<Rightarrow> session
      | Some k \<Rightarrow> if k = 0 then session else take k session)"

record tool_context =
  ctx_session :: string
  ctx_subagent :: "string option"

definition caller_id :: "tool_context \<Rightarrow> string" where
  "caller_id ctx =
     (case ctx_subagent ctx of
        Some i \<Rightarrow> if \<not> is_blank i then i else TOP_LEVEL_AGENT
      | None \<Rightarrow> TOP_LEVEL_AGENT)"

section \<open>Leases\<close>

datatype liveness = HolderLive | HolderDead

definition holder_liveness :: "agent_registry \<Rightarrow> string \<Rightarrow> liveness" where
  "holder_liveness reg agent =
     (if agent = TOP_LEVEL_AGENT then HolderLive
      else case poll_subagent agent reg of
             StillRunning \<Rightarrow> HolderLive
           | CompleteAgent _ \<Rightarrow> HolderDead
           | UnknownAgent \<Rightarrow> HolderDead)"

record released_claim =
  released_item :: string
  released_title :: string
  released_holder :: string

fun release_each ::
    "nat \<Rightarrow> agent_registry \<Rightarrow> board_item list \<Rightarrow> released_claim list \<Rightarrow> board_db
      \<Rightarrow> board_db \<times> (memory_error + released_claim list)" where
  "release_each now reg [] released db = (db, Inr released)"
| "release_each now reg (item # items) released db =
     (case item_claimed_by item of
        None \<Rightarrow> release_each now reg items released db
      | Some agent \<Rightarrow>
          if holder_liveness reg agent = HolderLive then release_each now reg items released db
          else
            (case release_board_claim now (item_id item) db of
               (db', Inl e) \<Rightarrow> (db', Inl e)
             | (db', Inr u) \<Rightarrow>
                 release_each now reg items
                   (if update_applied u
                    then released @ [\<lparr>released_item = item_id item, released_title = item_title item, released_holder = agent\<rparr>]
                    else released) db'))"

definition release_dead_claims ::
    "nat \<Rightarrow> agent_registry \<Rightarrow> string \<Rightarrow> board_db \<Rightarrow> board_db \<times> (memory_error + released_claim list)" where
  "release_dead_claims now reg run db =
     (case list_board_items_by_run run [] db of
        Inl e \<Rightarrow> (db, Inl e)
      | Inr items \<Rightarrow> release_each now reg items [] db)"

definition sweep :: "nat \<Rightarrow> agent_registry \<Rightarrow> string \<Rightarrow> board_db \<Rightarrow> board_db" where
  "sweep now reg run db = fst (release_dead_claims now reg run db)"

section \<open>The tools\<close>

datatype tool_result = ToolOk string | ToolErr string

definition unavailable_text :: string where
  "unavailable_text = ''the task board is unavailable: no memory service is open in this process''"

definition on_board :: "board_db option \<Rightarrow> (board_db \<Rightarrow> board_db \<times> tool_result) \<Rightarrow> board_db option \<times> tool_result" where
  "on_board handle call =
     (case handle of None \<Rightarrow> (None, ToolErr unavailable_text) | Some db \<Rightarrow> map_prod Some id (call db))"

primrec memory_error_text :: "memory_error \<Rightarrow> string" where
  "memory_error_text (NotFound i) = ''memory not found: '' @ i"
| "memory_error_text (Database s) = ''database error: '' @ s"
| "memory_error_text (InvalidType s) = ''invalid memory type: '' @ s"

definition newline :: string where
  "newline = [CHR 0x0A]"

definition render :: "board_item \<Rightarrow> string" where
  "render item =
     ''['' @ item_id item @ ''] '' @ kind_text (item_kind item) @ '' '' @ status_text (item_status item)
     @ '' round='' @ show_nat (unat (item_round item))
     @ (case item_claimed_by item of Some agent \<Rightarrow> '' claimed_by='' @ agent | None \<Rightarrow> [])
     @ newline @ ''  title: '' @ item_title item @ newline @ ''  evidence: '' @ item_evidence item
     @ newline @ ''  acceptance: '' @ (if item_acceptance item = [] then ''(none)'' else item_acceptance item)
     @ newline @ ''  raised_by: '' @ item_raised_by item"

definition required_str :: "'v json_reader \<Rightarrow> 'v \<Rightarrow> string \<Rightarrow> tool_result + string" where
  "required_str js input field =
     (case Option.bind (json_get js input field) (json_as_str js) of
        Some value \<Rightarrow> if \<not> is_blank value then Inr value
                      else Inl (ToolErr (field @ '' is required and must be non-empty''))
      | None \<Rightarrow> Inl (ToolErr (field @ '' is required and must be non-empty'')))"

definition evidence_required_text :: string where
  "evidence_required_text = ''evidence is required: give file:line references and what you observed. ''
     @ ''An item without them cannot be acted on by whoever claims it.''"

definition given_kind :: "'v json_reader \<Rightarrow> 'v \<Rightarrow> string + item_kind" where
  "given_kind js input =
     (case Option.bind (json_get js input ''kind'') (json_as_str js) of
        None \<Rightarrow> Inr Issue
      | Some s \<Rightarrow> if s = ''note'' then Inr Note else if s = ''issue'' then Inr Issue
                  else Inl (''unknown kind '' @ quoted s @ '': use '' @ quoted ''issue'' @ '' or '' @ quoted ''note''))"

definition text_or_empty :: "'v json_reader \<Rightarrow> 'v \<Rightarrow> string \<Rightarrow> string" where
  "text_or_empty js input field =
     (case Option.bind (json_get js input field) (json_as_str js) of Some s \<Rightarrow> s | None \<Rightarrow> [])"

definition board_raise ::
    "'v json_reader \<Rightarrow> nat \<Rightarrow> string \<Rightarrow> 'v \<Rightarrow> tool_context \<Rightarrow> board_db option \<Rightarrow> board_db option \<times> tool_result" where
  "board_raise js now fresh input ctx handle = on_board handle (\<lambda>db.
     (case required_str js input ''title'' of
        Inl r \<Rightarrow> (db, r)
      | Inr title \<Rightarrow>
          (case required_str js input ''evidence'' of
             Inl _ \<Rightarrow> (db, ToolErr evidence_required_text)
           | Inr evidence \<Rightarrow>
               (case given_kind js input of
                  Inl e \<Rightarrow> (db, ToolErr e)
                | Inr kind \<Rightarrow>
                    (case create_board_item now fresh
                       \<lparr>new_id = None, new_run = run_id_for_session (ctx_session ctx), new_kind = kind,
                        new_title = title, new_evidence = evidence,
                        new_acceptance = text_or_empty js input ''acceptance'', new_raised_by = caller_id ctx\<rparr> db of
                       (db', Inr item) \<Rightarrow>
                         (db', ToolOk (''Raised '' @ kind_text (item_kind item) @ '' ['' @ item_id item @ ''] on run ''
                            @ item_run item @ '' as '' @ item_raised_by item @ ''.'' @ newline @ render item))
                     | (db', Inl e) \<Rightarrow> (db', ToolErr (''failed to raise board item: '' @ memory_error_text e)))))))"

fun given_statuses :: "'v json_reader \<Rightarrow> 'v list \<Rightarrow> string + board_status list" where
  "given_statuses js [] = Inr []"
| "given_statuses js (v # vs) =
     (let raw = (case json_as_str js v of Some s \<Rightarrow> s | None \<Rightarrow> [])
      in case status_from raw of
           None \<Rightarrow> Inl (''unknown status '' @ quoted raw)
         | Some s \<Rightarrow> map_sum id (Cons s) (given_statuses js vs))"

definition board_list ::
    "'v json_reader \<Rightarrow> nat \<Rightarrow> agent_registry \<Rightarrow> 'v \<Rightarrow> tool_context \<Rightarrow> board_db option \<Rightarrow> board_db option \<times> tool_result" where
  "board_list js now reg input ctx handle = on_board handle (\<lambda>db.
     let run = run_id_for_session (ctx_session ctx)
     in (case (case Option.bind (json_get js input ''status'') (json_as_array js) of
                None \<Rightarrow> Inr [] | Some values \<Rightarrow> given_statuses js values) of
          Inl e \<Rightarrow> (db, ToolErr e)
        | Inr statuses \<Rightarrow>
            let db' = sweep now reg run db
            in case list_board_items_by_run run statuses db' of
                 Inl e \<Rightarrow> (db', ToolErr (''failed to list board items: '' @ memory_error_text e))
               | Inr items \<Rightarrow>
                   (db', ToolOk (if items = [] then ''No board items for run '' @ run @ ''.''
                      else show_nat (length items) @ '' board item(s) for run '' @ run @ '':'' @ newline @ newline
                        @ join_with (newline @ newline) (map render items)))))"

definition board_claim ::
    "'v json_reader \<Rightarrow> nat \<Rightarrow> agent_registry \<Rightarrow> 'v \<Rightarrow> tool_context \<Rightarrow> board_db option \<Rightarrow> board_db option \<times> tool_result" where
  "board_claim js now reg input ctx handle = on_board handle (\<lambda>db.
     (case required_str js input ''id'' of
        Inl r \<Rightarrow> (db, r)
      | Inr i \<Rightarrow>
          (case claim_board_item now i (caller_id ctx) (sweep now reg (run_id_for_session (ctx_session ctx)) db) of
             (db', Inr u) \<Rightarrow>
               (db', let item = update_item u
                     in if update_applied u
                        then ToolOk (''Claimed ['' @ item_id item @ ''] as '' @ caller_id ctx @ ''.'' @ newline @ render item)
                        else ToolErr (''claim refused: ['' @ item_id item @ ''] is held by ''
                          @ (case item_claimed_by item of Some h \<Rightarrow> h | None \<Rightarrow> ''(nobody)'')
                          @ '' (status '' @ status_text (item_status item) @ ''). Pick a different item.''))
           | (db', Inl e) \<Rightarrow> (db', ToolErr (''failed to claim board item: '' @ memory_error_text e)))))"

definition given_outcome :: "'v json_reader \<Rightarrow> 'v \<Rightarrow> string + board_status" where
  "given_outcome js input =
     (case Option.bind (json_get js input ''outcome'') (json_as_str js) of
        None \<Rightarrow> Inl (''outcome is required: '' @ quoted ''resolved'' @ '' or '' @ quoted ''declined'')
      | Some s \<Rightarrow> if s = ''resolved'' then Inr Resolved else if s = ''declined'' then Inr Declined
                  else Inl (''unknown outcome '' @ quoted s @ '': use '' @ quoted ''resolved'' @ '' or '' @ quoted ''declined''))"

definition reason_required_text :: string where
  "reason_required_text = ''reason is required: say why the item is being closed, with evidence.''"

definition close_item ::
    "nat \<Rightarrow> string \<Rightarrow> board_status \<Rightarrow> board_status \<Rightarrow> string \<Rightarrow> string \<Rightarrow> board_db \<Rightarrow> board_db \<times> tool_result" where
  "close_item now i seen target reason closed_by db =
     (case (if target = Declined then decline_board_item now i seen reason db
            else set_board_item_status now i seen target db) of
        (db', Inr u) \<Rightarrow>
          (db', let item = update_item u
                in if update_applied u
                   then ToolOk (''['' @ item_id item @ ''] is now '' @ status_text target @ '' (by '' @ closed_by @ ''): ''
                     @ reason @ newline @ render item)
                   else ToolErr (''['' @ item_id item @ ''] moved to '' @ status_text (item_status item)
                     @ '' before this call landed; it was not set to '' @ status_text target @ ''.''))
      | (db', Inl e) \<Rightarrow> (db', ToolErr (''failed to close board item: '' @ memory_error_text e)))"

definition board_resolve ::
    "'v json_reader \<Rightarrow> nat \<Rightarrow> 'v \<Rightarrow> tool_context \<Rightarrow> board_db option \<Rightarrow> board_db option \<times> tool_result" where
  "board_resolve js now input ctx handle = on_board handle (\<lambda>db.
     (case required_str js input ''id'' of
        Inl r \<Rightarrow> (db, r)
      | Inr i \<Rightarrow>
          (case required_str js input ''reason'' of
             Inl _ \<Rightarrow> (db, ToolErr reason_required_text)
           | Inr reason \<Rightarrow>
               (case given_outcome js input of
                  Inl e \<Rightarrow> (db, ToolErr e)
                | Inr target \<Rightarrow>
                    (case get_board_item i db of
                       Inl e \<Rightarrow> (db, ToolErr (''no such board item '' @ i @ '': '' @ memory_error_text e))
                     | Inr current \<Rightarrow>
                         if item_status current = target
                         then (db, ToolOk (''['' @ i @ ''] is already '' @ status_text target @ ''; nothing to do.''))
                         else close_item now i (item_status current) target reason (caller_id ctx) db)))))"

end
