(* ===== verification/Board_Leases.thy ===== *)
theory Board_Leases imports Board_Tools "HOL-Library.Multiset" begin

text \<open>
  The lease sweep takes back exactly the claims of agents that no longer run
  (\<^verbatim>\<open>crates/archon-tools/src/board/leases.rs\<close>), and what goes wrong when two sweeps overlap: a
  release names the item only, so a sweep that saw a dead holder takes the claim of the agent
  that claimed the item in between.
\<close>

section \<open>The sweep\<close>

definition held_by_dead :: "agent_registry \<Rightarrow> board_row \<Rightarrow> bool" where
  "held_by_dead reg r \<longleftrightarrow>
     (case row_claimed_by r of
        Some a \<Rightarrow> a \<noteq> TOP_LEVEL_AGENT \<and> poll_subagent a reg \<noteq> StillRunning
      | None \<Rightarrow> False)"

lemma holder_dead: "holder_liveness reg a = HolderDead \<longleftrightarrow> a \<noteq> TOP_LEVEL_AGENT \<and> poll_subagent a reg \<noteq> StillRunning"
  by (cases "poll_subagent a reg") (simp_all add: holder_liveness_def)

definition returned_row :: "nat \<Rightarrow> board_row \<Rightarrow> board_row" where
  "returned_row now r = r\<lparr>row_claimed_by := None,
     row_status := (if row_status r = status_text Claimed then status_text Open else row_status r), row_updated := now\<rparr>"

definition released_of :: "board_item \<Rightarrow> released_claim" where
  "released_of item = \<lparr>released_item = item_id item, released_title = item_title item,
     released_holder = the (item_claimed_by item)\<rparr>"

lemma liveness_dead [simp]: "holder_liveness reg a \<noteq> HolderLive \<longleftrightarrow> holder_liveness reg a = HolderDead"
  by (cases "holder_liveness reg a") simp_all

lemma release_held:
  assumes "board_ok db" and "map_of (db_items db) i = Some r" and "row_claimed_by r = Some a"
  obtains u where "release_board_claim now i db = (db\<lparr>db_items := AList.update i (returned_row now r) (db_items db)\<rparr>, Inr u)"
    and "update_applied u"
proof -
  have "row_ok (returned_row now r)"
    using board_ok_row(2) [OF assms(1,2)] by (auto simp: returned_row_def row_ok_def)
  from row_decodes [OF this, of i] obtain item where "row_values_to_item i (returned_row now r) = Inr item" .
  with that assms(2,3) show thesis
    by (simp add: release_board_claim_def board_cas_def no_history_def board_update_of_def returned_row_def Let_def)
qed

definition dead_held :: "agent_registry \<Rightarrow> board_item \<Rightarrow> bool" where
  "dead_held reg item \<longleftrightarrow> (case item_claimed_by item of Some a \<Rightarrow> holder_liveness reg a = HolderDead | None \<Rightarrow> False)"

lemma dead_held_iff: "dead_held reg item \<longleftrightarrow> (\<exists>a. item_claimed_by item = Some a \<and> holder_liveness reg a = HolderDead)"
  by (simp add: dead_held_def split: option.splits)

lemma reported_claims:
  "set (map (\<lambda>c. (released_item c, released_holder c)) (map released_of (filter (dead_held reg) items))) =
     {(item_id item, a) | item a. item \<in> set items \<and> item_claimed_by item = Some a \<and> holder_liveness reg a = HolderDead}"
proof -
  have "(released_item (released_of item), released_holder (released_of item)) = (item_id item, the (item_claimed_by item))" for item
    by (simp add: released_of_def)
  then show ?thesis unfolding set_map set_filter image_image dead_held_iff by auto
qed

definition returned :: "nat \<Rightarrow> agent_registry \<Rightarrow> string set \<Rightarrow> (string \<rightharpoonup> board_row) \<Rightarrow> string \<rightharpoonup> board_row" where
  "returned now reg ids m =
     (\<lambda>i. map_option (\<lambda>r. if i \<in> ids \<and> held_by_dead reg r then returned_row now r else r) (m i))"

lemma returned_insert:
  assumes "m k = Some r" and "k \<notin> ids"
  shows "returned now reg (insert k ids) m =
    returned now reg ids (if held_by_dead reg r then m(k \<mapsto> returned_row now r) else m)"
proof
  fix i
  show "returned now reg (insert k ids) m i =
      returned now reg ids (if held_by_dead reg r then m(k \<mapsto> returned_row now r) else m) i"
    using assms by (cases "i = k") (simp_all add: returned_def)
qed

definition sweeps_to ::
    "nat \<Rightarrow> agent_registry \<Rightarrow> board_item list \<Rightarrow> released_claim list \<Rightarrow> board_db
      \<Rightarrow> board_db \<times> (memory_error + released_claim list) \<Rightarrow> bool" where
  "sweeps_to now reg items released db result \<longleftrightarrow>
     snd result = Inr (released @ map released_of (filter (dead_held reg) items))
     \<and> db_events (fst result) = db_events db
     \<and> map_of (db_items (fst result)) = returned now reg (item_id ` set items) (map_of (db_items db))"

lemma release_each_spec:
  assumes "board_ok db" and "distinct (map item_id items)"
    and "\<And>item. item \<in> set items \<Longrightarrow> \<exists>r. map_of (db_items db) (item_id item) = Some r \<and> row_claimed_by r = item_claimed_by item"
  shows "sweeps_to now reg items released db (release_each now reg items released db)"
  using assms
proof (induction items arbitrary: released db)
  case Nil
  then show ?case by (simp add: sweeps_to_def returned_def option.map_ident)
next
  case (Cons item items)
  obtain r where r: "map_of (db_items db) (item_id item) = Some r" "row_claimed_by r = item_claimed_by item"
    using Cons.prems(3) [of item] by auto
  have dead: "held_by_dead reg r \<longleftrightarrow> dead_held reg item" using r(2) by (simp add: held_by_dead_def dead_held_def holder_dead split: option.splits)
  have new: "item_id item \<notin> item_id ` set items" using Cons.prems(2) by simp
  then have other: "item_id x \<noteq> item_id item" if "x \<in> set items" for x using that by (metis imageI)
  show ?case
  proof (cases "dead_held reg item")
    case False
    then have keep: "release_each now reg (item # items) released db = release_each now reg items released db"
      using liveness_dead by (simp add: dead_held_def split: option.splits)
    have "sweeps_to now reg items released db (release_each now reg items released db)"
      using Cons.prems by (intro Cons.IH) auto
    with keep False dead show ?thesis unfolding sweeps_to_def by (simp add: returned_insert [where m = "map_of (db_items db)", OF r(1) new])
  next
    case True
    then obtain a where a: "item_claimed_by item = Some a" "holder_liveness reg a = HolderDead"
      by (auto simp: dead_held_def split: option.splits)
    let ?db = "db\<lparr>db_items := AList.update (item_id item) (returned_row now r) (db_items db)\<rparr>"
    obtain u where u: "release_board_claim now (item_id item) db = (?db, Inr u)" "update_applied u"
      using release_held [OF Cons.prems(1) r(1), of a now] r(2) a(1) by metis
    have ok: "board_ok ?db" using board_step_ok [OF Cons.prems(1), of now "ReleaseItem (item_id item)"] u(1) by simp
    have "sweeps_to now reg items (released @ [released_of item]) ?db
        (release_each now reg items (released @ [released_of item]) ?db)"
      using Cons.prems ok other by (intro Cons.IH) (auto simp: update_conv')
    with True dead a u show ?thesis
      unfolding sweeps_to_def by (simp add: returned_insert [where m = "map_of (db_items db)", OF r(1) new] update_conv' released_of_def)
  qed
qed

lemma shown_rows:
  assumes ok: "board_ok db" and items: "list_board_items_by_run run [] db = Inr items"
  shows "distinct (map item_id items)"
    and "set (map (\<lambda>item. (item_id item, item_claimed_by item)) items) =
      {(i, row_claimed_by r) | i r. map_of (db_items db) i = Some r \<and> row_run r = run}"
proof -
  have d: "distinct (map fst (db_items db))" using ok by (simp add: board_ok_def)
  have rows: "items = oldest_first (map (\<lambda>(i, r). shown db i r) (run_rows db run []))"
    using items by (simp add: list_shown [OF ok])
  have ids: "map item_id (map (\<lambda>(i, r). shown db i r) xs) = map fst xs" for xs
    by (simp add: shown_def case_prod_beta)
  have "mset items = mset (map (\<lambda>(i, r). shown db i r) (run_rows db run []))"
    unfolding rows by (simp add: oldest_first_def)
  then have "mset (map item_id items) = mset (map fst (run_rows db run []))"
    unfolding ids [symmetric] by (metis mset_map)
  moreover have "distinct (map fst (run_rows db run []))" using d by (simp add: run_rows_def distinct_map_filter)
  ultimately show "distinct (map item_id items)" by (metis mset_eq_imp_distinct_iff)
  show "set (map (\<lambda>item. (item_id item, item_claimed_by item)) items) =
      {(i, row_claimed_by r) | i r. map_of (db_items db) i = Some r \<and> row_run r = run}"
    unfolding rows map_of_eq_Some_iff [OF d] by (force simp: oldest_first_def run_rows_def shown_def)
qed

lemma sweep_spec:
  assumes ok: "board_ok db"
  shows "\<exists>released db'. release_dead_claims now reg run db = (db', Inr released)
     \<and> set (map (\<lambda>c. (released_item c, released_holder c)) released) =
         {(i, a). \<exists>r. map_of (db_items db) i = Some r \<and> row_run r = run \<and> row_claimed_by r = Some a
            \<and> holder_liveness reg a = HolderDead}
     \<and> db_events db' = db_events db
     \<and> map_of (db_items db') = (\<lambda>i. map_option (\<lambda>r. if row_run r = run \<and> held_by_dead reg r then returned_row now r else r)
          (map_of (db_items db) i))"
proof -
  obtain items where items: "list_board_items_by_run run [] db = Inr items" by (simp add: list_shown [OF ok])
  note s = shown_rows [OF ok items]
  have held: "(item_id item, item_claimed_by item) \<in> {(i, row_claimed_by r) | i r. map_of (db_items db) i = Some r \<and> row_run r = run}"
    if "item \<in> set items" for item unfolding s(2) [symmetric] using that by auto
  have "sweeps_to now reg items [] db (release_each now reg items [] db)"
    using held by (intro release_each_spec [OF ok s(1)]) fastforce
  then obtain db' where r: "release_each now reg items [] db = (db', Inr (map released_of (filter (dead_held reg) items)))"
    and ev: "db_events db' = db_events db"
    and m: "map_of (db_items db') = returned now reg (item_id ` set items) (map_of (db_items db))"
    unfolding sweeps_to_def by (metis append_Nil prod.collapse)
  have ids: "item_id ` set items = {i. \<exists>r. map_of (db_items db) i = Some r \<and> row_run r = run}"
  proof -
    have "item_id ` set items = fst ` set (map (\<lambda>item. (item_id item, item_claimed_by item)) items)"
      by (simp add: image_image)
    then show ?thesis unfolding s(2) by force
  qed
  have "{(item_id item, a) | item a. item \<in> set items \<and> item_claimed_by item = Some a \<and> holder_liveness reg a = HolderDead} =
      {(i, a). (i, Some a) \<in> set (map (\<lambda>item. (item_id item, item_claimed_by item)) items) \<and> holder_liveness reg a = HolderDead}"
    by force
  also have "\<dots> = {(i, a). \<exists>r. map_of (db_items db) i = Some r \<and> row_run r = run \<and> row_claimed_by r = Some a
      \<and> holder_liveness reg a = HolderDead}"
    unfolding s(2) by auto
  finally have told: "set (map (\<lambda>c. (released_item c, released_holder c)) (map released_of (filter (dead_held reg) items))) = \<dots>"
    unfolding reported_claims .
  have rows: "map_of (db_items db') =
      (\<lambda>i. map_option (\<lambda>r. if row_run r = run \<and> held_by_dead reg r then returned_row now r else r) (map_of (db_items db) i))"
    unfolding m ids returned_def fun_eq_iff by (auto split: option.splits intro!: option.map_cong0)
  have "release_dead_claims now reg run db = (db', Inr (map released_of (filter (dead_held reg) items)))"
    by (simp add: release_dead_claims_def items r)
  with told ev rows show ?thesis by blast
qed

text \<open>
  C39. The lease sweep is exact. On any board, sweeping a run never fails; it reports, and returns
  to the pool, exactly the claims of that run whose holder no longer runs (by the registry, the
  top-level agent always running), an item that was only claimed becoming open again and any
  other keeping its status; it changes no other item and no history.
\<close>

theorem sweep_takes_back_the_dead:
  "(case release_dead_claims now reg run (fst (board_run ops)) of
      (db, Inl e) \<Rightarrow> False
    | (db, Inr released) \<Rightarrow>
        set (map (\<lambda>c. (released_item c, released_holder c)) released) =
          {(i, a). \<exists>r. map_of (db_items (fst (board_run ops))) i = Some r \<and> row_run r = run
             \<and> row_claimed_by r = Some a \<and> a \<noteq> TOP_LEVEL_AGENT \<and> poll_subagent a reg \<noteq> StillRunning}
        \<and> db_events db = db_events (fst (board_run ops))
        \<and> map_of (db_items db) =
            (\<lambda>i. map_option (\<lambda>r. if row_run r = run \<and> held_by_dead reg r then returned_row now r else r)
               (map_of (db_items (fst (board_run ops))) i)))"
  using sweep_spec [OF board_run_ok [of ops], of now reg run] unfolding holder_dead by auto

section \<open>What a claim and a release leave out\<close>

text \<open>
  A claim looks at the holder only: it takes an unheld item of any status, a resolved or declined
  one and one sent back with gaps alike, makes it claimed without adding to its round, and leaves no
  entry in its history.
\<close>

lemma claim_takes_any_status:
  assumes "map_of (db_items db) i = Some r" and "row_claimed_by r = None" and "\<not> is_blank agent"
  shows "db_events (fst (claim_board_item now i agent db)) = db_events db"
    and "map_of (db_items (fst (claim_board_item now i agent db))) i =
      Some (r\<lparr>row_status := status_text Claimed, row_claimed_by := Some agent, row_updated := now\<rparr>)"
  using assms by (simp_all add: claim_board_item_def board_cas_def no_history_def Let_def update_conv')

text \<open>
  A release names the item and not the holder: a sweep that read the item when a dead agent held it
  takes the claim from whoever holds it when the release lands, and reports the dead agent.
\<close>

lemma late_sweep_takes_the_new_claim:
  assumes "board_ok db" and "map_of (db_items db) (item_id seen) = Some r" and "row_claimed_by r = Some live"
    and "item_claimed_by seen = Some dead" and "holder_liveness reg dead = HolderDead"
  obtains db' where "release_each now reg [seen] [] db = (db', Inr [released_of seen])"
    and "holder db' (item_id seen) = None" and "released_holder (released_of seen) = dead"
proof -
  obtain u where u: "release_board_claim now (item_id seen) db =
      (db\<lparr>db_items := AList.update (item_id seen) (returned_row now r) (db_items db)\<rparr>, Inr u)" "update_applied u"
    using release_held [OF assms(1-3), of now] .
  with assms(4,5) that show thesis by (simp add: released_of_def holder_def returned_row_def update_conv')
qed

end
