(* ===== verification/Board_Drain.thy ===== *)
theory Board_Drain imports Board_Leases begin

text \<open>
  Delegated work on the board and the gate a run passes at its end:
  \<^verbatim>\<open>crates/archon-tools/src/board/mirror.rs\<close> raises, claims and closes the item of a dispatched
  agent, \<^verbatim>\<open>src/command/workflow_live_stage_board.rs\<close> does so for a stage branch of a workflow,
  \<^verbatim>\<open>src/command/workflow_board_drain.rs\<close> reads a run's items for the gate of
  \<^verbatim>\<open>crates/archon-workflow/src/v2/lifecycle_policy/drain_gate.rs\<close>, and
  \<^verbatim>\<open>v2/lifecycle_driver/board_drain.rs\<close> refuses a run whose items are not drained. The text of
  an error of another kind than the four the outcome of a branch depends on is a parameter.
\<close>

section \<open>Delegated work\<close>

datatype delegated_outcome = DelegatedCompleted | DelegatedFailed | DelegatedStopped

definition TITLE_LIMIT :: nat where
  "TITLE_LIMIT = 120"

definition EVIDENCE_LIMIT :: nat where
  "EVIDENCE_LIMIT = 2000"

text \<open>The bytes of a text up to a position, when the position is between two characters.\<close>

fun byte_prefix :: "string \<Rightarrow> nat \<Rightarrow> string option" where
  "byte_prefix text 0 = Some []"
| "byte_prefix [] (Suc n) = None"
| "byte_prefix (c # text) (Suc n) =
     (if utf8_len [c] \<le> Suc n then map_option (Cons c) (byte_prefix text (Suc n - utf8_len [c])) else None)"

definition is_char_boundary :: "string \<Rightarrow> nat \<Rightarrow> bool" where
  "is_char_boundary text n \<longleftrightarrow> byte_prefix text n \<noteq> None"

fun floor_boundary :: "string \<Rightarrow> nat \<Rightarrow> nat" where
  "floor_boundary text 0 = 0"
| "floor_boundary text (Suc n) = (if is_char_boundary text (Suc n) then Suc n else floor_boundary text n)"

definition ellipsis :: string where
  "ellipsis = [CHR 0xE2, CHR 0x80, CHR 0xA6]"

definition truncate_on_char_boundary :: "string \<Rightarrow> nat \<Rightarrow> string" where
  "truncate_on_char_boundary text limit =
     (if utf8_len text \<le> limit then text
      else the (byte_prefix text (floor_boundary text limit)) @ ellipsis)"

definition summarise :: "string \<Rightarrow> string" where
  "summarise description =
     (case find (\<lambda>line. trim line \<noteq> []) (str_lines description) of
        Some line \<Rightarrow> truncate_on_char_boundary (trim line) TITLE_LIMIT
      | None \<Rightarrow> ''Delegated task'')"

definition clamp_text :: "string \<Rightarrow> string" where
  "clamp_text text = truncate_on_char_boundary (trim text) EVIDENCE_LIMIT"

definition delegated_item :: "item_kind \<Rightarrow> string \<Rightarrow> string \<Rightarrow> string \<Rightarrow> string \<Rightarrow> string \<Rightarrow> new_board_item" where
  "delegated_item kind session subagent description instruction raised_by =
     \<lparr>new_id = Some subagent, new_run = run_id_for_session session, new_kind = kind,
      new_title = summarise description,
      new_evidence = ''Delegated to subagent '' @ subagent @ ''.'' @ newline @ newline @ ''Brief given:'' @ newline
        @ clamp_text instruction,
      new_acceptance = ''The subagent reports the delegated work complete.'', new_raised_by = raised_by\<rparr>"

text \<open>A refused claim is only logged: the item is on the board either way.\<close>

definition raise_on ::
    "nat \<Rightarrow> item_kind \<Rightarrow> string \<Rightarrow> string \<Rightarrow> string \<Rightarrow> string \<Rightarrow> string \<Rightarrow> board_db option
      \<Rightarrow> board_db option \<times> string option" where
  "raise_on now kind session subagent description instruction raised_by handle =
     (case handle of
        None \<Rightarrow> (None, None)
      | Some db \<Rightarrow>
          (case create_board_item now [] (delegated_item kind session subagent description instruction raised_by) db of
             (db', Inr stored) \<Rightarrow>
               (Some (fst (claim_board_item now (item_id stored) subagent db')), Some (item_id stored))
           | (db', Inl e) \<Rightarrow> (Some db', None)))"

definition raise_delegated_task where
  "raise_delegated_task now = raise_on now Issue"

definition raise_delegated_branch where
  "raise_delegated_branch now = raise_on now Note"

definition close_on :: "nat \<Rightarrow> string \<Rightarrow> delegated_outcome \<Rightarrow> board_db option \<Rightarrow> board_db option" where
  "close_on now i outcome handle =
     (case handle of
        None \<Rightarrow> None
      | Some db \<Rightarrow>
          Some (fst (case outcome of
            DelegatedCompleted \<Rightarrow> set_board_item_status now i Claimed InReview db
          | DelegatedFailed \<Rightarrow> set_board_item_status now i Claimed Escalated db
          | DelegatedStopped \<Rightarrow> release_board_claim now i db)))"

section \<open>The item of a stage branch\<close>

datatype workflow_error =
    ControlCancelled string
  | ControlPaused string
  | StageFailed string
  | PortError string
  | OtherError string

text \<open>\<^verbatim>\<open>Display\<close>: a port error and the errors of other kinds say what they carry.\<close>

primrec workflow_error_text :: "workflow_error \<Rightarrow> string" where
  "workflow_error_text (ControlCancelled s) = ''workflow cancelled by run control: '' @ s"
| "workflow_error_text (ControlPaused s) = ''workflow paused by run control: '' @ s"
| "workflow_error_text (StageFailed s) = ''workflow stage failed: '' @ s"
| "workflow_error_text (PortError s) = s"
| "workflow_error_text (OtherError s) = s"

definition says_subagent_cancelled :: "workflow_error \<Rightarrow> bool" where
  "says_subagent_cancelled e \<longleftrightarrow> contains_sub (to_ascii_lowercase (workflow_error_text e)) ''subagent cancelled''"

definition stage_board_outcome :: "workflow_error \<Rightarrow> delegated_outcome" where
  "stage_board_outcome e =
     (case e of
        ControlCancelled _ \<Rightarrow> DelegatedStopped
      | ControlPaused _ \<Rightarrow> DelegatedStopped
      | StageFailed _ \<Rightarrow> if says_subagent_cancelled e then DelegatedStopped else DelegatedFailed
      | PortError _ \<Rightarrow> if says_subagent_cancelled e then DelegatedStopped else DelegatedFailed
      | OtherError _ \<Rightarrow> DelegatedFailed)"

record stage_board_item =
  stage_item :: "string option"
  stage_outcome :: delegated_outcome

definition stage_subagent_id :: "string \<Rightarrow> nat \<Rightarrow> string \<Rightarrow> string" where
  "stage_subagent_id session ordinal agent = session @ ''-'' @ show_nat ordinal @ ''-'' @ agent"

definition raise_stage ::
    "nat \<Rightarrow> string \<Rightarrow> string \<Rightarrow> string \<Rightarrow> string \<Rightarrow> nat \<Rightarrow> string \<Rightarrow> string \<Rightarrow> board_db option
      \<Rightarrow> board_db option \<times> stage_board_item" where
  "raise_stage now request_run request_stage request_task session ordinal agent instruction handle =
     map_prod id (\<lambda>i. \<lparr>stage_item = i, stage_outcome = DelegatedFailed\<rparr>)
       (raise_delegated_branch now session (stage_subagent_id session ordinal agent)
          (''['' @ request_stage @ ''] '' @ request_task) instruction (''workflow:'' @ request_run) handle)"

definition finish_stage :: "delegated_outcome \<Rightarrow> stage_board_item \<Rightarrow> stage_board_item" where
  "finish_stage outcome item = item\<lparr>stage_outcome := outcome\<rparr>"

definition drop_stage :: "nat \<Rightarrow> stage_board_item \<Rightarrow> board_db option \<Rightarrow> board_db option" where
  "drop_stage now item handle =
     (case stage_item item of None \<Rightarrow> handle | Some i \<Rightarrow> close_on now i (stage_outcome item) handle)"

section \<open>The gate\<close>

datatype drain_kind = DrainIssue | DrainNote

datatype drain_status =
    DrainOpen | DrainClaimed | DrainInReview | DrainGapsRemain | DrainResolved | DrainDeclined | DrainPromoted | DrainEscalated

primrec drain_status_text :: "drain_status \<Rightarrow> string" where
  "drain_status_text DrainOpen = ''open''"
| "drain_status_text DrainClaimed = ''claimed''"
| "drain_status_text DrainInReview = ''in_review''"
| "drain_status_text DrainGapsRemain = ''gaps_remain''"
| "drain_status_text DrainResolved = ''resolved''"
| "drain_status_text DrainDeclined = ''declined''"
| "drain_status_text DrainPromoted = ''promoted''"
| "drain_status_text DrainEscalated = ''escalated''"

record drain_item =
  drain_id :: string
  drain_title :: string
  drain_kind :: drain_kind
  drain_status :: drain_status
  drain_reason :: "string option"

record undrained_item =
  undrained_id :: string
  undrained_title :: string
  undrained_status :: drain_status
  undrained_why :: string

record drain_outcome =
  outcome_run :: string
  outcome_inspected :: nat
  outcome_issues :: nat
  outcome_undrained :: "undrained_item list"

definition undrained_reason :: "drain_item \<Rightarrow> string option" where
  "undrained_reason item =
     (case drain_status item of
        DrainResolved \<Rightarrow> None
      | DrainPromoted \<Rightarrow> None
      | DrainDeclined \<Rightarrow>
          (case map_option trim (drain_reason item) of
             Some reason \<Rightarrow> if reason \<noteq> [] then None else Some ''declined without a recorded reason''
           | None \<Rightarrow> Some ''declined without a recorded reason'')
      | DrainOpen \<Rightarrow> Some ''still open''
      | DrainClaimed \<Rightarrow> Some ''still claimed by an agent''
      | DrainInReview \<Rightarrow> Some ''still in review''
      | DrainGapsRemain \<Rightarrow> Some ''review left gaps remaining''
      | DrainEscalated \<Rightarrow> Some ''escalated and awaiting a decision'')"

fun judge_items :: "drain_item list \<Rightarrow> nat \<Rightarrow> undrained_item list \<Rightarrow> nat \<times> undrained_item list" where
  "judge_items [] issues undrained = (issues, undrained)"
| "judge_items (item # items) issues undrained =
     (if drain_kind item \<noteq> DrainIssue then judge_items items issues undrained
      else judge_items items (issues + 1)
             (case undrained_reason item of
                None \<Rightarrow> undrained
              | Some reason \<Rightarrow> undrained @ [\<lparr>undrained_id = drain_id item, undrained_title = drain_title item,
                                   undrained_status = drain_status item, undrained_why = reason\<rparr>]))"

definition drain_evaluate :: "string \<Rightarrow> drain_item list \<Rightarrow> drain_outcome" where
  "drain_evaluate run items =
     (case judge_items items 0 [] of
        (issues, undrained) \<Rightarrow>
          \<lparr>outcome_run = run, outcome_inspected = length items, outcome_issues = issues, outcome_undrained = undrained\<rparr>)"

definition drain_passed :: "drain_outcome \<Rightarrow> bool" where
  "drain_passed outcome \<longleftrightarrow> outcome_undrained outcome = []"

definition failure_message :: "drain_outcome \<Rightarrow> string" where
  "failure_message outcome =
     (if drain_passed outcome
      then ''board drain gate: all '' @ show_nat (outcome_issues outcome) @ '' issue(s) for run '' @ outcome_run outcome
        @ '' are resolved, promoted, or declined''
      else ''board drain gate: run '' @ outcome_run outcome @ '' has '' @ show_nat (length (outcome_undrained outcome))
        @ '' unresolved board item(s): ''
        @ join_with ''; '' (map (\<lambda>item. undrained_id item @ '' \"'' @ undrained_title item @ ''\" (''
            @ drain_status_text (undrained_status item) @ '': '' @ undrained_why item @ '')'') (outcome_undrained outcome)))"

section \<open>Reading the board for the gate\<close>

primrec drain_kind_of :: "item_kind \<Rightarrow> drain_kind" where
  "drain_kind_of Issue = DrainIssue"
| "drain_kind_of Note = DrainNote"

primrec drain_status_of :: "board_status \<Rightarrow> drain_status" where
  "drain_status_of Open = DrainOpen"
| "drain_status_of Claimed = DrainClaimed"
| "drain_status_of InReview = DrainInReview"
| "drain_status_of GapsRemain = DrainGapsRemain"
| "drain_status_of Resolved = DrainResolved"
| "drain_status_of Declined = DrainDeclined"
| "drain_status_of Promoted = DrainPromoted"
| "drain_status_of Escalated = DrainEscalated"

definition drain_item_of :: "board_item \<Rightarrow> drain_item" where
  "drain_item_of item =
     \<lparr>drain_id = item_id item, drain_title = item_title item, drain_kind = drain_kind_of (item_kind item),
      drain_status = drain_status_of (item_status item), drain_reason = item_decline_reason item\<rparr>"

type_synonym board_port = "string \<Rightarrow> workflow_error + drain_item list"

definition memory_board_drain :: "board_db \<Rightarrow> board_port" where
  "memory_board_drain db run =
     (case list_board_items_by_run run [] db of
        Inl e \<Rightarrow> Inl (PortError (''reading the task board for run '' @ run @ '' failed: '' @ memory_error_text e))
      | Inr items \<Rightarrow> Inr (map drain_item_of items))"

definition unreachable_board_drain :: "string \<Rightarrow> board_port" where
  "unreachable_board_drain reason run =
     Inl (PortError (''run '' @ run @ '' has no task board in this process, so its completion could not be checked: '' @ reason))"

definition process_board_drain :: "board_db option \<Rightarrow> board_port" where
  "process_board_drain handle =
     (case handle of None \<Rightarrow> unreachable_board_drain unavailable_text | Some db \<Rightarrow> memory_board_drain db)"

text \<open>What the run reports when it is refused: the board could not be read, or what is left on it.\<close>

datatype drain_report =
    UnreadableBoard string string string
  | UndrainedBoard drain_outcome string

definition block_undrained_board :: "(string \<times> board_port) option \<Rightarrow> drain_report option" where
  "block_undrained_board board =
     (case board of
        None \<Rightarrow> None
      | Some (run, port) \<Rightarrow>
          (case port run of
             Inl e \<Rightarrow>
               Some (UnreadableBoard run (workflow_error_text e)
                 (''board drain gate: run '' @ run @ '' could not read its task board: '' @ workflow_error_text e))
           | Inr items \<Rightarrow>
               let outcome = drain_evaluate run items
               in if drain_passed outcome then None else Some (UndrainedBoard outcome (failure_message outcome))))"

end
