(* ===== verification/Board_Gate.thy ===== *)
theory Board_Gate imports Board_Drain begin

text \<open>
  What a run's end says of its board: the drain gate passes exactly when every issue of the run is
  resolved, promoted or declined, and work handed to an agent holds its run until somebody decides
  about it, however the agent ends.
\<close>

section \<open>The items the gate names\<close>

definition is_undrained :: "drain_item \<Rightarrow> bool" where
  "is_undrained item \<longleftrightarrow> drain_kind item = DrainIssue \<and> undrained_reason item \<noteq> None"

definition undrained_of :: "drain_item \<Rightarrow> undrained_item" where
  "undrained_of item = \<lparr>undrained_id = drain_id item, undrained_title = drain_title item,
     undrained_status = drain_status item, undrained_why = the (undrained_reason item)\<rparr>"

lemma judge_items_spec:
  "judge_items items n us =
     (n + length (filter (\<lambda>i. drain_kind i = DrainIssue) items), us @ map undrained_of (filter is_undrained items))"
  by (induction items n us rule: judge_items.induct)
    (auto simp: is_undrained_def undrained_of_def split: option.splits)

lemma undrained_evaluated: "outcome_undrained (drain_evaluate run items) = map undrained_of (filter is_undrained items)"
  by (simp add: drain_evaluate_def judge_items_spec)

section \<open>The gate on a board\<close>

definition left_undrained :: "board_db \<Rightarrow> string \<Rightarrow> string set" where
  "left_undrained db run =
     {i. \<exists>r. map_of (db_items db) i = Some r \<and> row_run r = run \<and> row_kind r = kind_text Issue
        \<and> row_status r \<notin> {status_text Resolved, status_text Promoted, status_text Declined}}"

lemma kind_text_inject [simp]: "kind_text a = kind_text b \<longleftrightarrow> a = b"
  by (metis kind_from_text option.inject)

lemma drain_of_shown:
  assumes "row_kind r = kind_text k" and "row_status r = status_text s"
  shows "drain_kind (drain_item_of (shown db i r)) = drain_kind_of k"
    and "drain_status (drain_item_of (shown db i r)) = drain_status_of s"
    and "drain_reason (drain_item_of (shown db i r)) =
      (if s = Declined then Some (ev_note (last (decline_events db i))) else None)"
  using assms by (simp_all add: drain_item_of_def shown_def)

lemma reason_by_status:
  assumes "drain_status item = drain_status_of s"
    and "s = Declined \<Longrightarrow> \<exists>reason. drain_reason item = Some reason \<and> \<not> is_blank reason"
  shows "undrained_reason item = None \<longleftrightarrow> s \<in> {Resolved, Promoted, Declined}"
  using assms by (cases s) (auto simp: undrained_reason_def is_blank_def)

lemma shown_undrained:
  assumes ok: "board_ok db" and row: "map_of (db_items db) i = Some r"
  shows "is_undrained (drain_item_of (shown db i r)) \<longleftrightarrow>
    row_kind r = kind_text Issue \<and> row_status r \<notin> {status_text Resolved, status_text Promoted, status_text Declined}"
proof -
  obtain k s where k: "row_kind r = kind_text k" and s: "row_status r = status_text s"
    using board_ok_row(2) [OF ok row] by (auto simp: row_ok_def)
  note item = drain_of_shown [OF k s, of db i]
  have "\<not> is_blank (ev_note (last (decline_events db i)))" if "s = Declined"
    using declined_has_event(2) [OF ok row] s that by simp
  then have "undrained_reason (drain_item_of (shown db i r)) = None \<longleftrightarrow> s \<in> {Resolved, Promoted, Declined}"
    by (intro reason_by_status item(2)) (simp add: item(3))
  moreover have "drain_kind (drain_item_of (shown db i r)) = DrainIssue \<longleftrightarrow> k = Issue"
    unfolding item(1) by (cases k) simp_all
  ultimately show ?thesis unfolding is_undrained_def k s by simp
qed

lemma gate_items:
  assumes ok: "board_ok db" and items: "list_board_items_by_run run [] db = Inr items"
  shows "drain_id ` set (filter is_undrained (map drain_item_of items)) = left_undrained db run"
    and "distinct (map drain_id (map drain_item_of items))"
proof -
  have d: "distinct (map fst (db_items db))" using ok by (simp add: board_ok_def)
  have rows: "set items = (\<lambda>(i, r). shown db i r) ` set (run_rows db run [])"
    using items by (auto simp: list_shown [OF ok] oldest_first_def)
  have ids: "drain_id (drain_item_of item) = item_id item" for item by (simp add: drain_item_of_def)
  have named: "item_id (shown db i r) = i" for i r by (simp add: shown_def)
  have "i \<in> drain_id ` set (filter is_undrained (map drain_item_of items)) \<longleftrightarrow> i \<in> left_undrained db run" for i
  proof -
    have "i \<in> drain_id ` set (filter is_undrained (map drain_item_of items)) \<longleftrightarrow>
        (\<exists>item\<in>set items. is_undrained (drain_item_of item) \<and> item_id item = i)"
      unfolding image_iff Bex_def set_filter set_map by (auto simp: ids)
    also have "\<dots> \<longleftrightarrow> (\<exists>r. (i, r) \<in> set (run_rows db run []) \<and> is_undrained (drain_item_of (shown db i r)))"
      unfolding rows by (force simp: named)
    also have "\<dots> \<longleftrightarrow> (\<exists>r. map_of (db_items db) i = Some r \<and> row_run r = run \<and> is_undrained (drain_item_of (shown db i r)))"
      unfolding run_rows_def map_of_eq_Some_iff [OF d] by auto
    also have "\<dots> \<longleftrightarrow> i \<in> left_undrained db run"
      using shown_undrained [OF ok] by (auto simp: left_undrained_def)
    finally show ?thesis .
  qed
  then show "drain_id ` set (filter is_undrained (map drain_item_of items)) = left_undrained db run" by blast
  have same: "map drain_id (map drain_item_of items) = map item_id items" by (simp add: ids)
  show "distinct (map drain_id (map drain_item_of items))" unfolding same by (rule shown_rows(1) [OF ok items])
qed

lemma gate_spec:
  assumes ok: "board_ok db"
  shows "case block_undrained_board (Some (run, process_board_drain (Some db))) of
      None \<Rightarrow> left_undrained db run = {}
    | Some (UnreadableBoard _ _ _) \<Rightarrow> False
    | Some (UndrainedBoard outcome message) \<Rightarrow>
        left_undrained db run \<noteq> {} \<and> message = failure_message outcome \<and> outcome_run outcome = run
        \<and> set (map undrained_id (outcome_undrained outcome)) = left_undrained db run
        \<and> distinct (map undrained_id (outcome_undrained outcome))"
proof -
  obtain items where items: "list_board_items_by_run run [] db = Inr items" by (simp add: list_shown [OF ok])
  let ?left = "filter is_undrained (map drain_item_of items)"
  have ids: "map undrained_id (map undrained_of xs) = map drain_id xs" for xs by (simp add: undrained_of_def)
  have set: "set (map drain_id ?left) = left_undrained db run" using gate_items(1) [OF ok items] by simp
  have dist: "distinct (map drain_id ?left)" by (rule distinct_map_filter [OF gate_items(2) [OF ok items]])
  have port: "process_board_drain (Some db) run = Inr (map drain_item_of items)"
    by (simp add: process_board_drain_def memory_board_drain_def items)
  let ?o = "drain_evaluate run (map drain_item_of items)"
  have left: "map undrained_id (outcome_undrained ?o) = map drain_id ?left" unfolding undrained_evaluated by (rule ids)
  have r: "outcome_run ?o = run" by (simp add: drain_evaluate_def split: prod.splits)
  show ?thesis
  proof (cases "drain_passed ?o")
    case True
    then have "?left = []" by (simp add: drain_passed_def undrained_evaluated)
    with set have "left_undrained db run = {}" by simp
    with True port show ?thesis by (simp add: block_undrained_board_def)
  next
    case False
    then have "?left \<noteq> []" by (simp add: drain_passed_def undrained_evaluated)
    with set have ne: "left_undrained db run \<noteq> {}" by (metis map_is_Nil_conv set_empty)
    have b: "block_undrained_board (Some (run, process_board_drain (Some db))) = Some (UndrainedBoard ?o (failure_message ?o))"
      using False port by (simp add: block_undrained_board_def Let_def)
    show ?thesis unfolding b option.case drain_report.case left using ne r set dist by blast
  qed
qed

text \<open>
  C22. The drain gate is exact. After any transactions of any agents, reading the board of a run
  never fails; the gate lets the run pass exactly when each of its issues is resolved, promoted or
  declined (a decline always has its reason), and otherwise refuses it, naming exactly the issues
  that are not, each once. In a process with no board it refuses every run.
\<close>

theorem drain_gate_is_exact:
  "(case block_undrained_board (Some (run, process_board_drain (Some (fst (board_run ops))))) of
      None \<Rightarrow> left_undrained (fst (board_run ops)) run = {}
    | Some (UnreadableBoard _ _ _) \<Rightarrow> False
    | Some (UndrainedBoard outcome message) \<Rightarrow>
        left_undrained (fst (board_run ops)) run \<noteq> {} \<and> message = failure_message outcome \<and> outcome_run outcome = run
        \<and> set (map undrained_id (outcome_undrained outcome)) = left_undrained (fst (board_run ops)) run
        \<and> distinct (map undrained_id (outcome_undrained outcome)))
   \<and> block_undrained_board (Some (run, process_board_drain None)) \<noteq> None"
  using gate_spec [OF board_run_ok [of ops], of run]
  by (simp add: block_undrained_board_def process_board_drain_def unreachable_board_drain_def)

section \<open>Delegated work\<close>

text \<open>What the board says of an item: its run, its kind, its status and its holder.\<close>

definition standing :: "board_db option \<Rightarrow> string \<Rightarrow> (string \<times> string \<times> string \<times> string option) option" where
  "standing handle i =
     Option.bind handle (\<lambda>db. map_option (\<lambda>r. (row_run r, row_kind r, row_status r, row_claimed_by r)) (map_of (db_items db) i))"

lemma standing_transition:
  "standing (Some (fst (transition now i a b why db))) i =
     map_option (\<lambda>(run, kind, status, h). (run, kind, if status = status_text a then status_text b else status, h))
       (standing (Some db) i)"
  by (simp add: standing_def transition_def board_cas_def transition_event_def Let_def update_conv' split: option.splits)

lemma standing_claim:
  "standing (Some (fst (claim_board_item now i agent db))) i =
     map_option (\<lambda>(run, kind, status, h).
         if is_blank agent \<or> h \<noteq> None then (run, kind, status, h) else (run, kind, status_text Claimed, Some agent))
       (standing (Some db) i)"
  by (simp add: standing_def claim_board_item_def board_cas_def no_history_def Let_def update_conv' split: option.splits)

lemma standing_release:
  "standing (Some (fst (release_board_claim now i db))) i =
     map_option (\<lambda>(run, kind, status, h).
         (run, kind, if h \<noteq> None \<and> status = status_text Claimed then status_text Open else status, None))
       (standing (Some db) i)"
  by (simp add: standing_def release_board_claim_def board_cas_def no_history_def Let_def update_conv' split: option.splits)

lemma standing_left:
  assumes "standing (Some db) i = Some (run, kind_text Issue, status_text s, h)"
    and "s \<notin> {Resolved, Promoted, Declined}"
  shows "i \<in> left_undrained db run"
  using assms by (auto simp: standing_def left_undrained_def)

lemma not_blank: "\<not> is_ws c \<Longrightarrow> \<not> is_blank (c # s)"
  by (simp add: is_blank_def trim_def trim_start_def trim_end_def dropWhile_append split: if_splits)

lemma delegated_evidence: "\<not> is_blank (new_evidence (delegated_item kind session agent description instruction raiser))"
  unfolding delegated_item_def by (simp add: not_blank is_ws_def code_def)

lemma raise_on_cases:
  assumes "raise_on now kind session agent description instruction raiser (Some db) = (handle, raised)"
  obtains (refused) "raised = None" "handle = Some db"
      "agent \<in> fst ` set (db_items db) \<or> is_blank (run_id_for_session session)"
    | (raised) db' where "raised = Some agent" "handle = Some db'"
      "standing handle agent = Some (run_id_for_session session, kind_text kind,
         if is_blank agent then (status_text Open, None) else (status_text Claimed, Some agent))"
proof -
  let ?item = "delegated_item kind session agent description instruction raiser"
  have new: "new_id ?item = Some agent" "new_run ?item = run_id_for_session session" "new_kind ?item = kind"
    by (simp_all add: delegated_item_def)
  show thesis
  proof (cases "is_blank (run_id_for_session session)")
    case True
    with assms delegated_evidence new refused show ?thesis by (auto simp: raise_on_def create_board_item_def)
  next
    case False
    show ?thesis
    proof (cases "map_of (db_items db) agent")
      case (Some r)
      then have "agent \<in> fst ` set (db_items db)" by (metis domI dom_map_of_conv_image_fst)
      with Some False assms delegated_evidence new refused show ?thesis
        by (auto simp: raise_on_def create_board_item_def Let_def split: sum.splits)
    next
      case None
      have "row_ok (new_row now ?item)"
        using new_row_told [OF delegated_evidence] False new by (simp add: told_def)
      then obtain stored where st: "row_values_to_item agent (new_row now ?item) = Inr stored" "item_id stored = agent"
        by (rule row_decodes)
      let ?db = "db\<lparr>db_items := AList.update agent (new_row now ?item) (db_items db)\<rparr>"
      have "create_board_item now [] ?item db = (?db, Inr stored)"
        using None False delegated_evidence new st by (simp add: create_board_item_def)
      moreover have "standing (Some ?db) agent = Some (run_id_for_session session, kind_text kind, status_text Open, None)"
        using new by (simp add: standing_def update_conv' new_row_def)
      ultimately show ?thesis
        using assms st raised [of "fst (claim_board_item now agent agent ?db)"]
        by (auto simp: raise_on_def standing_claim)
    qed
  qed
qed

text \<open>
  Delegated work holds its run. On any board, putting an agent's task up either changes nothing
  (its id is already on the board, or the run has no name) or adds an issue of the run of its
  session, claimed by that agent; and however the agent then ends, the gate still counts the item
  against the run: a completion only sends it to review, a failure escalates it, and an agent that
  was stopped returns it to the pool.
\<close>

theorem delegated_work_holds_its_run:
  "(case raise_delegated_task now session agent description instruction raiser (Some (fst (board_run ops))) of
      (None, raised) \<Rightarrow> False
    | (Some db, None) \<Rightarrow> db = fst (board_run ops)
        \<and> (agent \<in> fst ` set (db_items db) \<or> is_blank (run_id_for_session session))
    | (Some db, Some i) \<Rightarrow> i = agent
        \<and> standing (Some db) i = Some (run_id_for_session session, kind_text Issue,
            if is_blank i then (status_text Open, None) else (status_text Claimed, Some i))
        \<and> standing (close_on later i outcome (Some db)) i = Some (run_id_for_session session, kind_text Issue,
            if is_blank i then (status_text Open, None)
            else case outcome of
                   DelegatedCompleted \<Rightarrow> (status_text InReview, Some i)
                 | DelegatedFailed \<Rightarrow> (status_text Escalated, Some i)
                 | DelegatedStopped \<Rightarrow> (status_text Open, None))
        \<and> i \<in> left_undrained (the (close_on later i outcome (Some db))) (run_id_for_session session))"
proof -
  obtain handle raised where put:
    "raise_on now Issue session agent description instruction raiser (Some (fst (board_run ops))) = (handle, raised)"
    by (meson surj_pair)
  from put show ?thesis
  proof (cases rule: raise_on_cases)
    case refused
    with put show ?thesis by (simp add: raise_delegated_task_def)
  next
    case (raised db)
    then have now: "standing (Some db) agent = Some (run_id_for_session session, kind_text Issue,
        if is_blank agent then (status_text Open, None) else (status_text Claimed, Some agent))" by simp
    then have closed: "standing (close_on later agent outcome (Some db)) agent =
        Some (run_id_for_session session, kind_text Issue,
            if is_blank agent then (status_text Open, None)
            else case outcome of
                   DelegatedCompleted \<Rightarrow> (status_text InReview, Some agent)
                 | DelegatedFailed \<Rightarrow> (status_text Escalated, Some agent)
                 | DelegatedStopped \<Rightarrow> (status_text Open, None))"
      by (cases outcome) (simp_all add: close_on_def set_board_item_status_def standing_transition standing_release)
    moreover have "agent \<in> left_undrained (the (close_on later agent outcome (Some db))) (run_id_for_session session)"
    proof -
      obtain db' where db': "close_on later agent outcome (Some db) = Some db'" by (simp add: close_on_def)
      show ?thesis
        using closed unfolding db' option.sel
        by (cases outcome; cases "is_blank agent") (auto intro: standing_left)
    qed
    ultimately show ?thesis using put raised now by (simp add: raise_delegated_task_def)
  qed
qed

end
