(* ===== verification/Policy_Models.thy ===== *)
theory Policy_Models imports Complex_Main Rust_Text Rust_Base begin

text \<open>
  The settings of the evidence policy and their defaults: \<^verbatim>\<open>crates/archon-policy/src/models.rs\<close>,
  \<^verbatim>\<open>video.rs\<close> and \<^verbatim>\<open>cognitive.rs\<close>. A floating-point setting is only ever copied, so it is the
  decimal it is written as.
\<close>

type_synonym u64 = "64 word"

section \<open>Settings\<close>

record network_policy =
  network_default :: string
  network_allow_cloud_vlm :: bool
  network_allow_web_strategy_agents :: bool
  network_allow_mcp_server_exposure :: bool

definition default_network_policy :: network_policy where
  "default_network_policy =
     \<lparr>network_default = ''deny'', network_allow_cloud_vlm = False,
      network_allow_web_strategy_agents = False, network_allow_mcp_server_exposure = False\<rparr>"

record workers_policy =
  workers_ocr :: string
  workers_embedding :: string
  workers_vlm :: string
  workers_web_fetch :: string

definition default_workers_policy :: workers_policy where
  "default_workers_policy =
     \<lparr>workers_ocr = ''allow-local'', workers_embedding = ''allow-local'', workers_vlm = ''deny'',
      workers_web_fetch = ''deny''\<rparr>"

record gametheory_policy =
  gametheory_max_agents_per_council :: u64
  gametheory_max_cost_usd :: rat
  gametheory_enable_tier11 :: bool
  gametheory_allow_web_tools :: bool

definition default_gametheory_policy :: gametheory_policy where
  "default_gametheory_policy =
     \<lparr>gametheory_max_agents_per_council = 12, gametheory_max_cost_usd = 20,
      gametheory_enable_tier11 = False, gametheory_allow_web_tools = False\<rparr>"

record learning_policy =
  learning_auto_apply_low_risk :: bool
  learning_autonomous_apply :: bool
  learning_autonomous_max_risk :: string
  learning_autonomous_min_evidence :: u64
  learning_autonomous_max_recent_incidents :: u64
  learning_require_approval_for_prompt_changes :: bool
  learning_require_approval_for_blocking_gates :: bool
  learning_require_approval_for_network_changes :: bool

definition default_learning_policy :: learning_policy where
  "default_learning_policy =
     \<lparr>learning_auto_apply_low_risk = False, learning_autonomous_apply = False,
      learning_autonomous_max_risk = ''Low'', learning_autonomous_min_evidence = 3,
      learning_autonomous_max_recent_incidents = 4, learning_require_approval_for_prompt_changes = True,
      learning_require_approval_for_blocking_gates = True,
      learning_require_approval_for_network_changes = True\<rparr>"

record world_policy =
  world_allow_third_party_embeddings :: bool
  world_allow_llm_labeler :: bool
  world_allow_behavior_changes :: bool
  world_allow_embedding_cache :: bool
  world_allow_world_model_raw_text_storage :: bool
  world_allow_eval_background_jobs :: bool

definition default_world_policy :: world_policy where
  "default_world_policy =
     \<lparr>world_allow_third_party_embeddings = False, world_allow_llm_labeler = False,
      world_allow_behavior_changes = False, world_allow_embedding_cache = False,
      world_allow_world_model_raw_text_storage = False, world_allow_eval_background_jobs = False\<rparr>"

record web_policy =
  web_allow_mutating_actions :: bool
  web_allow_file_uploads :: bool
  web_allow_pipeline_controls :: bool
  web_allow_model_training_actions :: bool
  web_allow_corpus_open_paths :: bool
  web_allow_document_deletion :: bool
  web_allow_web_terminal :: bool

definition default_web_policy :: web_policy where
  "default_web_policy =
     \<lparr>web_allow_mutating_actions = False, web_allow_file_uploads = False,
      web_allow_pipeline_controls = False, web_allow_model_training_actions = False,
      web_allow_corpus_open_paths = False, web_allow_document_deletion = False,
      web_allow_web_terminal = False\<rparr>"

record quality_policy =
  quality_allow_llm_critic :: bool
  quality_allow_critic_cloud_data_flow :: bool
  quality_allow_third_party_critic :: bool
  quality_allow_raw_text_storage :: bool
  quality_allow_behavior_proposal_generation :: bool
  quality_allow_session_start_injection :: bool
  quality_allow_trust_updates_during_shadow :: bool
  quality_auto_migrate_reasoning_quality :: bool

definition default_quality_policy :: quality_policy where
  "default_quality_policy =
     \<lparr>quality_allow_llm_critic = False, quality_allow_critic_cloud_data_flow = False,
      quality_allow_third_party_critic = False, quality_allow_raw_text_storage = False,
      quality_allow_behavior_proposal_generation = True, quality_allow_session_start_injection = True,
      quality_allow_trust_updates_during_shadow = False, quality_auto_migrate_reasoning_quality = False\<rparr>"

record cognitive_policy =
  cognitive_enabled :: bool
  cognitive_allow_autonomous_tick :: bool
  cognitive_allow_background_daemon :: bool
  cognitive_allow_tool_suppression :: bool
  cognitive_allow_jepa_action_scoring :: bool
  cognitive_allow_self_model_updates :: bool
  cognitive_allow_autonomous_low_risk_apply :: bool
  cognitive_max_autonomous_risk :: string
  cognitive_require_human_for_prompt_changes :: bool
  cognitive_require_human_for_policy_changes :: bool
  cognitive_require_human_for_network_changes :: bool
  cognitive_require_human_for_blocking_gate_changes :: bool
  cognitive_store_raw_turn_text :: bool

definition default_cognitive_policy :: cognitive_policy where
  "default_cognitive_policy =
     \<lparr>cognitive_enabled = False, cognitive_allow_autonomous_tick = False,
      cognitive_allow_background_daemon = False, cognitive_allow_tool_suppression = True,
      cognitive_allow_jepa_action_scoring = False, cognitive_allow_self_model_updates = False,
      cognitive_allow_autonomous_low_risk_apply = False, cognitive_max_autonomous_risk = ''Low'',
      cognitive_require_human_for_prompt_changes = True, cognitive_require_human_for_policy_changes = True,
      cognitive_require_human_for_network_changes = True,
      cognitive_require_human_for_blocking_gate_changes = True, cognitive_store_raw_turn_text = False\<rparr>"

record acquire_policy =
  acquire_browser_profile :: string
  acquire_external_downloader_bin :: string
  acquire_po_token_provider :: string

definition default_acquire_policy :: acquire_policy where
  "default_acquire_policy =
     \<lparr>acquire_browser_profile = ''default'', acquire_external_downloader_bin = ''yt-dlp'',
      acquire_po_token_provider = []\<rparr>"

record asr_policy =
  asr_provider :: string
  asr_model :: string
  asr_device :: string
  asr_vad_stable_timestamps :: bool
  asr_model_cache_dir :: string
  asr_model_source :: string
  asr_diarization :: bool

definition default_asr_policy :: asr_policy where
  "default_asr_policy =
     \<lparr>asr_provider = ''whisper-rs'', asr_model = ''base'', asr_device = ''auto'',
      asr_vad_stable_timestamps = False, asr_model_cache_dir = [], asr_model_source = [],
      asr_diarization = False\<rparr>"

record summary_policy =
  summary_enabled :: bool
  summary_allow_llm_summary :: bool
  summary_allow_cloud_summary :: bool
  summary_provider :: string

definition default_summary_policy :: summary_policy where
  "default_summary_policy =
     \<lparr>summary_enabled = False, summary_allow_llm_summary = False, summary_allow_cloud_summary = False,
      summary_provider = ''disabled''\<rparr>"

record frames_policy =
  frames_mode :: string
  frames_ocr :: bool
  frames_vlm :: bool

definition default_frames_policy :: frames_policy where
  "default_frames_policy =
     \<lparr>frames_mode = ''scene'', frames_ocr = True, frames_vlm = True\<rparr>"

record video_policy =
  video_enabled :: bool
  video_allow_youtube :: bool
  video_allow_direct_urls :: bool
  video_allow_external_downloaders :: bool
  video_allow_browser_automation :: bool
  video_allow_caption_capture :: bool
  video_allow_cloud_asr :: bool
  video_allow_cloud_vlm :: bool
  video_require_user_confirmation_for_download :: bool
  video_max_duration_minutes :: u32
  video_max_download_mb :: u64
  video_max_frames :: u32
  video_frame_interval_secs :: u32
  video_scene_change_threshold :: rat
  video_dedupe_threshold :: rat
  video_acquire :: acquire_policy
  video_asr :: asr_policy
  video_summary :: summary_policy
  video_frames :: frames_policy

definition default_video_policy :: video_policy where
  "default_video_policy =
     \<lparr>video_enabled = False, video_allow_youtube = False, video_allow_direct_urls = False,
      video_allow_external_downloaders = False, video_allow_browser_automation = False,
      video_allow_caption_capture = False, video_allow_cloud_asr = False, video_allow_cloud_vlm = False,
      video_require_user_confirmation_for_download = True, video_max_duration_minutes = 120,
      video_max_download_mb = 2048, video_max_frames = 500, video_frame_interval_secs = 10,
      video_scene_change_threshold = 35 / 100, video_dedupe_threshold = 94 / 100,
      video_acquire = default_acquire_policy, video_asr = default_asr_policy,
      video_summary = default_summary_policy, video_frames = default_frames_policy\<rparr>"

record pdf_policy =
  pdf_extract_embedded_images :: bool
  pdf_min_image_dimension :: u32
  pdf_min_image_bytes :: u64
  pdf_vlm_per_page_image :: bool
  pdf_render_text_pdf_pages :: bool
  pdf_image_enrichment_workers :: u32
  pdf_chunker :: string
  pdf_marker_sidecar :: "string option"
  pdf_marker_device :: "string option"
  pdf_marker_python :: "string option"
  pdf_marker_memory_budget_mb :: "u64 option"
  pdf_marker_url :: "string option"
  pdf_scan_detector :: string
  pdf_figure_region_vlm :: bool

definition default_pdf_policy :: pdf_policy where
  "default_pdf_policy =
     \<lparr>pdf_extract_embedded_images = True, pdf_min_image_dimension = 200, pdf_min_image_bytes = 4096,
      pdf_vlm_per_page_image = True, pdf_render_text_pdf_pages = False, pdf_image_enrichment_workers = 1,
      pdf_chunker = ''token_aware'', pdf_marker_sidecar = None, pdf_marker_device = None,
      pdf_marker_python = None, pdf_marker_memory_budget_mb = None, pdf_marker_url = None,
      pdf_scan_detector = ''union'', pdf_figure_region_vlm = False\<rparr>"

record retrieval_policy =
  retrieval_exact_weight :: rat
  retrieval_semantic_weight :: rat

definition default_retrieval_policy :: retrieval_policy where
  "default_retrieval_policy =
     \<lparr>retrieval_exact_weight = 45 / 100, retrieval_semantic_weight = 55 / 100\<rparr>"

record ollama_policy =
  ollama_endpoint :: string
  ollama_model :: string
  ollama_timeout_secs :: u64
  ollama_num_ctx :: "u32 option"
  ollama_keep_alive :: "string option"
  ollama_num_gpu :: "u32 option"

definition default_ollama_policy :: ollama_policy where
  "default_ollama_policy =
     \<lparr>ollama_endpoint = ''http://localhost:11434'', ollama_model = ''gemma4:e4b'',
      ollama_timeout_secs = 120, ollama_num_ctx = None, ollama_keep_alive = None, ollama_num_gpu = None\<rparr>"

record gemini_policy =
  gemini_api_key_env :: string
  gemini_model :: string
  gemini_endpoint_base :: string
  gemini_rpm_limit :: u32

definition default_gemini_policy :: gemini_policy where
  "default_gemini_policy =
     \<lparr>gemini_api_key_env = ''GOOGLE_API_KEY'', gemini_model = ''gemini-3-flash-preview'',
      gemini_endpoint_base = ''https://generativelanguage.googleapis.com/v1beta'', gemini_rpm_limit = 12\<rparr>"

record anthropic_policy =
  anthropic_model :: string

definition default_anthropic_policy :: anthropic_policy where
  "default_anthropic_policy =
     \<lparr>anthropic_model = ''claude-sonnet-4-6''\<rparr>"

record compat_policy =
  compat_endpoint :: string
  compat_model :: string
  compat_api_key_env :: string
  compat_timeout_secs :: u64
  compat_max_tokens :: u32
  compat_temperature :: rat

definition default_compat_policy :: compat_policy where
  "default_compat_policy =
     \<lparr>compat_endpoint = ''http://localhost:1234/v1'', compat_model = ''google/gemma-3-12b-it'',
      compat_api_key_env = ''OPENAI_API_KEY'', compat_timeout_secs = 120, compat_max_tokens = 1024,
      compat_temperature = 2 / 10\<rparr>"

record vlm_policy =
  vlm_enabled :: bool
  vlm_mode :: string
  vlm_provider :: string
  vlm_allow_cloud :: bool
  vlm_require_user_confirmation_for_cloud :: bool
  vlm_ollama :: ollama_policy
  vlm_gemini :: gemini_policy
  vlm_anthropic :: anthropic_policy
  vlm_openai_compat :: compat_policy

definition default_vlm_policy :: vlm_policy where
  "default_vlm_policy =
     \<lparr>vlm_enabled = False, vlm_mode = ''disabled'', vlm_provider = ''disabled'', vlm_allow_cloud = False,
      vlm_require_user_confirmation_for_cloud = True, vlm_ollama = default_ollama_policy,
      vlm_gemini = default_gemini_policy, vlm_anthropic = default_anthropic_policy,
      vlm_openai_compat = default_compat_policy\<rparr>"

record docs_policy =
  docs_vlm :: vlm_policy
  docs_pdf :: pdf_policy
  docs_retrieval :: retrieval_policy

definition default_docs_policy :: docs_policy where
  "default_docs_policy =
     \<lparr>docs_vlm = default_vlm_policy, docs_pdf = default_pdf_policy,
      docs_retrieval = default_retrieval_policy\<rparr>"

record effective_policy =
  policy_network :: network_policy
  policy_workers :: workers_policy
  policy_gametheory :: gametheory_policy
  policy_learning :: learning_policy
  policy_world_model :: world_policy
  policy_web :: web_policy
  policy_reasoning_quality :: quality_policy
  policy_video :: video_policy
  policy_docs :: docs_policy
  policy_cognitive :: cognitive_policy

definition default_effective_policy :: effective_policy where
  "default_effective_policy =
     \<lparr>policy_network = default_network_policy, policy_workers = default_workers_policy,
      policy_gametheory = default_gametheory_policy, policy_learning = default_learning_policy,
      policy_world_model = default_world_policy, policy_web = default_web_policy,
      policy_reasoning_quality = default_quality_policy, policy_video = default_video_policy,
      policy_docs = default_docs_policy, policy_cognitive = default_cognitive_policy\<rparr>"

section \<open>What the settings answer by themselves\<close>

definition use_token_aware_chunker :: "pdf_policy \<Rightarrow> bool" where
  "use_token_aware_chunker p \<longleftrightarrow> pdf_chunker p \<noteq> ''page_anchor''"

text \<open>The \<^verbatim>\<open>Debug\<close> rendering of a text: quoted, with the escapes of Rust.\<close>

definition lower_hex :: "nat \<Rightarrow> char" where
  "lower_hex n = ''0123456789abcdef'' ! n"

definition debug_char :: "char \<Rightarrow> string" where
  "debug_char c =
     (if c = CHR 0x00 then [CHR 0x5C, CHR ''0'']
      else if c = CHR 0x09 then [CHR 0x5C, CHR ''t'']
      else if c = CHR 0x0A then [CHR 0x5C, CHR ''n'']
      else if c = CHR 0x0D then [CHR 0x5C, CHR ''r'']
      else if c = CHR 0x22 \<or> c = CHR 0x5C then [CHR 0x5C, c]
      else if code c < 32 \<or> (127 \<le> code c \<and> code c \<le> 160) \<or> code c = 173
      then [CHR 0x5C, CHR ''u'', CHR ''{'']
        @ (if code c < 16 then [lower_hex (code c)] else [lower_hex (code c div 16), lower_hex (code c mod 16)]) @ [CHR ''}'']
      else [c])"

definition debug_text :: "string \<Rightarrow> string" where
  "debug_text s = [CHR 0x22] @ concat (map debug_char s) @ [CHR 0x22]"

definition validate_cognitive :: "cognitive_policy \<Rightarrow> string + unit" where
  "validate_cognitive p =
     (if cognitive_max_autonomous_risk p \<noteq> ''Low'' \<and> cognitive_max_autonomous_risk p \<noteq> ''Medium''
      then Inl (''policy.cognitive.max_autonomous_risk must be Low or Medium, got '' @ debug_text (cognitive_max_autonomous_risk p))
      else Inr ())"

definition is_passthrough :: "cognitive_policy \<Rightarrow> bool" where
  "is_passthrough p \<longleftrightarrow> \<not> cognitive_enabled p"

definition can_suppress_tools :: "cognitive_policy \<Rightarrow> bool" where
  "can_suppress_tools p \<longleftrightarrow> cognitive_enabled p \<and> cognitive_allow_tool_suppression p"

definition can_run_daemon :: "cognitive_policy \<Rightarrow> bool" where
  "can_run_daemon p \<longleftrightarrow> cognitive_enabled p \<and> cognitive_allow_autonomous_tick p \<and> cognitive_allow_background_daemon p"

definition can_use_jepa :: "cognitive_policy \<Rightarrow> bool" where
  "can_use_jepa p \<longleftrightarrow> cognitive_enabled p \<and> cognitive_allow_jepa_action_scoring p"

definition can_update_self_model :: "cognitive_policy \<Rightarrow> bool" where
  "can_update_self_model p \<longleftrightarrow> cognitive_enabled p \<and> cognitive_allow_self_model_updates p"

definition can_auto_apply :: "cognitive_policy \<Rightarrow> bool" where
  "can_auto_apply p \<longleftrightarrow> cognitive_enabled p \<and> cognitive_allow_autonomous_low_risk_apply p"

section \<open>Decisions\<close>

record policy_decision =
  decision_allowed :: bool
  decision_reason :: string

definition policy_allow :: "string \<Rightarrow> policy_decision" where
  "policy_allow reason = \<lparr>decision_allowed = True, decision_reason = reason\<rparr>"

definition policy_deny :: "string \<Rightarrow> policy_decision" where
  "policy_deny reason = \<lparr>decision_allowed = False, decision_reason = reason\<rparr>"

lemma decision_simps [simp]:
  "decision_allowed (policy_allow r)" "\<not> decision_allowed (policy_deny r)"
  by (simp_all add: policy_allow_def policy_deny_def)

end
