(* ===== verification/Policy_Loader.thy ===== *)
theory Policy_Loader imports Policy_Models begin

text \<open>
  Loading the evidence policy: \<^verbatim>\<open>crates/archon-policy/src/loader.rs\<close>, \<^verbatim>\<open>loader/loader_docs.rs\<close> and the
  raw settings of \<^verbatim>\<open>video.rs\<close>. A file that exists is either unreadable, with the message of the
  operating system, or a text; the TOML reader is a parameter.
\<close>

section \<open>Raw settings\<close>

definition over :: "'a option \<Rightarrow> 'a \<Rightarrow> 'a" where
  "over value target = (case value of Some v \<Rightarrow> v | None \<Rightarrow> target)"

definition apply_some :: "('r \<Rightarrow> 'p \<Rightarrow> 'p) \<Rightarrow> 'r option \<Rightarrow> 'p \<Rightarrow> 'p" where
  "apply_some f raw p = (case raw of Some r \<Rightarrow> f r p | None \<Rightarrow> p)"

definition clamp_u :: "u32 \<Rightarrow> u32 \<Rightarrow> u32 \<Rightarrow> u32" where
  "clamp_u lo hi x = (if x < lo then lo else if hi < x then hi else x)"

definition known :: "string list \<Rightarrow> string option \<Rightarrow> string option" where
  "known values raw = (case raw of Some v \<Rightarrow> if v \<in> set values then Some v else None | None \<Rightarrow> None)"

record raw_network_policy =
  raw_network_default :: "string option"
  raw_network_allow_cloud_vlm :: "bool option"
  raw_network_allow_web_strategy_agents :: "bool option"
  raw_network_allow_mcp_server_exposure :: "bool option"

definition apply_network :: "raw_network_policy \<Rightarrow> network_policy \<Rightarrow> network_policy" where
  "apply_network raw p =
     p\<lparr>network_default := over (raw_network_default raw) (network_default p),
       network_allow_cloud_vlm := over (raw_network_allow_cloud_vlm raw) (network_allow_cloud_vlm p),
       network_allow_web_strategy_agents :=
         over (raw_network_allow_web_strategy_agents raw) (network_allow_web_strategy_agents p),
       network_allow_mcp_server_exposure :=
         over (raw_network_allow_mcp_server_exposure raw) (network_allow_mcp_server_exposure p)\<rparr>"

record raw_workers_policy =
  raw_workers_ocr :: "string option"
  raw_workers_embedding :: "string option"
  raw_workers_vlm :: "string option"
  raw_workers_web_fetch :: "string option"

definition apply_workers :: "raw_workers_policy \<Rightarrow> workers_policy \<Rightarrow> workers_policy" where
  "apply_workers raw p =
     p\<lparr>workers_ocr := over (raw_workers_ocr raw) (workers_ocr p),
       workers_embedding := over (raw_workers_embedding raw) (workers_embedding p),
       workers_vlm := over (raw_workers_vlm raw) (workers_vlm p),
       workers_web_fetch := over (raw_workers_web_fetch raw) (workers_web_fetch p)\<rparr>"

record raw_gametheory_policy =
  raw_gametheory_max_agents_per_council :: "u64 option"
  raw_gametheory_max_cost_usd :: "rat option"
  raw_gametheory_enable_tier11 :: "bool option"
  raw_gametheory_allow_web_tools :: "bool option"

definition apply_gametheory :: "raw_gametheory_policy \<Rightarrow> gametheory_policy \<Rightarrow> gametheory_policy" where
  "apply_gametheory raw p =
     p\<lparr>gametheory_max_agents_per_council :=
         over (raw_gametheory_max_agents_per_council raw) (gametheory_max_agents_per_council p),
       gametheory_max_cost_usd := over (raw_gametheory_max_cost_usd raw) (gametheory_max_cost_usd p),
       gametheory_enable_tier11 := over (raw_gametheory_enable_tier11 raw) (gametheory_enable_tier11 p),
       gametheory_allow_web_tools :=
         over (raw_gametheory_allow_web_tools raw) (gametheory_allow_web_tools p)\<rparr>"

record raw_learning_policy =
  raw_learning_auto_apply_low_risk :: "bool option"
  raw_learning_autonomous_apply :: "bool option"
  raw_learning_autonomous_max_risk :: "string option"
  raw_learning_autonomous_min_evidence :: "u64 option"
  raw_learning_autonomous_max_recent_incidents :: "u64 option"
  raw_learning_require_approval_for_prompt_changes :: "bool option"
  raw_learning_require_approval_for_blocking_gates :: "bool option"
  raw_learning_require_approval_for_network_changes :: "bool option"

definition apply_learning :: "raw_learning_policy \<Rightarrow> learning_policy \<Rightarrow> learning_policy" where
  "apply_learning raw p =
     p\<lparr>learning_auto_apply_low_risk :=
         over (raw_learning_auto_apply_low_risk raw) (learning_auto_apply_low_risk p),
       learning_autonomous_apply := over (raw_learning_autonomous_apply raw) (learning_autonomous_apply p),
       learning_autonomous_max_risk :=
         over (raw_learning_autonomous_max_risk raw) (learning_autonomous_max_risk p),
       learning_autonomous_min_evidence :=
         over (raw_learning_autonomous_min_evidence raw) (learning_autonomous_min_evidence p),
       learning_autonomous_max_recent_incidents :=
         over (raw_learning_autonomous_max_recent_incidents raw) (learning_autonomous_max_recent_incidents p),
       learning_require_approval_for_prompt_changes :=
         over (raw_learning_require_approval_for_prompt_changes raw) (learning_require_approval_for_prompt_changes p),
       learning_require_approval_for_blocking_gates :=
         over (raw_learning_require_approval_for_blocking_gates raw) (learning_require_approval_for_blocking_gates p),
       learning_require_approval_for_network_changes :=
         over (raw_learning_require_approval_for_network_changes raw) (learning_require_approval_for_network_changes p)\<rparr>"

record raw_world_policy =
  raw_world_allow_third_party_embeddings :: "bool option"
  raw_world_allow_llm_labeler :: "bool option"
  raw_world_allow_behavior_changes :: "bool option"
  raw_world_allow_embedding_cache :: "bool option"
  raw_world_allow_world_model_raw_text_storage :: "bool option"
  raw_world_allow_eval_background_jobs :: "bool option"

definition apply_world :: "raw_world_policy \<Rightarrow> world_policy \<Rightarrow> world_policy" where
  "apply_world raw p =
     p\<lparr>world_allow_third_party_embeddings :=
         over (raw_world_allow_third_party_embeddings raw) (world_allow_third_party_embeddings p),
       world_allow_llm_labeler := over (raw_world_allow_llm_labeler raw) (world_allow_llm_labeler p),
       world_allow_behavior_changes :=
         over (raw_world_allow_behavior_changes raw) (world_allow_behavior_changes p),
       world_allow_embedding_cache :=
         over (raw_world_allow_embedding_cache raw) (world_allow_embedding_cache p),
       world_allow_world_model_raw_text_storage :=
         over (raw_world_allow_world_model_raw_text_storage raw) (world_allow_world_model_raw_text_storage p),
       world_allow_eval_background_jobs :=
         over (raw_world_allow_eval_background_jobs raw) (world_allow_eval_background_jobs p)\<rparr>"

record raw_web_policy =
  raw_web_allow_mutating_actions :: "bool option"
  raw_web_allow_file_uploads :: "bool option"
  raw_web_allow_pipeline_controls :: "bool option"
  raw_web_allow_model_training_actions :: "bool option"
  raw_web_allow_corpus_open_paths :: "bool option"
  raw_web_allow_web_terminal :: "bool option"
  raw_web_allow_document_deletion :: "bool option"

definition apply_web :: "raw_web_policy \<Rightarrow> web_policy \<Rightarrow> web_policy" where
  "apply_web raw p =
     p\<lparr>web_allow_mutating_actions :=
         over (raw_web_allow_mutating_actions raw) (web_allow_mutating_actions p),
       web_allow_file_uploads := over (raw_web_allow_file_uploads raw) (web_allow_file_uploads p),
       web_allow_pipeline_controls :=
         over (raw_web_allow_pipeline_controls raw) (web_allow_pipeline_controls p),
       web_allow_model_training_actions :=
         over (raw_web_allow_model_training_actions raw) (web_allow_model_training_actions p),
       web_allow_corpus_open_paths :=
         over (raw_web_allow_corpus_open_paths raw) (web_allow_corpus_open_paths p),
       web_allow_web_terminal := over (raw_web_allow_web_terminal raw) (web_allow_web_terminal p),
       web_allow_document_deletion :=
         over (raw_web_allow_document_deletion raw) (web_allow_document_deletion p)\<rparr>"

record raw_quality_policy =
  raw_quality_allow_llm_critic :: "bool option"
  raw_quality_allow_critic_cloud_data_flow :: "bool option"
  raw_quality_allow_third_party_critic :: "bool option"
  raw_quality_allow_raw_text_storage :: "bool option"
  raw_quality_allow_behavior_proposal_generation :: "bool option"
  raw_quality_allow_session_start_injection :: "bool option"
  raw_quality_allow_trust_updates_during_shadow :: "bool option"
  raw_quality_auto_migrate_reasoning_quality :: "bool option"

definition apply_quality :: "raw_quality_policy \<Rightarrow> quality_policy \<Rightarrow> quality_policy" where
  "apply_quality raw p =
     p\<lparr>quality_allow_llm_critic := over (raw_quality_allow_llm_critic raw) (quality_allow_llm_critic p),
       quality_allow_critic_cloud_data_flow :=
         over (raw_quality_allow_critic_cloud_data_flow raw) (quality_allow_critic_cloud_data_flow p),
       quality_allow_third_party_critic :=
         over (raw_quality_allow_third_party_critic raw) (quality_allow_third_party_critic p),
       quality_allow_raw_text_storage :=
         over (raw_quality_allow_raw_text_storage raw) (quality_allow_raw_text_storage p),
       quality_allow_behavior_proposal_generation :=
         over (raw_quality_allow_behavior_proposal_generation raw) (quality_allow_behavior_proposal_generation p),
       quality_allow_session_start_injection :=
         over (raw_quality_allow_session_start_injection raw) (quality_allow_session_start_injection p),
       quality_allow_trust_updates_during_shadow :=
         over (raw_quality_allow_trust_updates_during_shadow raw) (quality_allow_trust_updates_during_shadow p),
       quality_auto_migrate_reasoning_quality :=
         over (raw_quality_auto_migrate_reasoning_quality raw) (quality_auto_migrate_reasoning_quality p)\<rparr>"

record raw_cognitive_policy =
  raw_cognitive_enabled :: "bool option"
  raw_cognitive_allow_autonomous_tick :: "bool option"
  raw_cognitive_allow_background_daemon :: "bool option"
  raw_cognitive_allow_tool_suppression :: "bool option"
  raw_cognitive_allow_jepa_action_scoring :: "bool option"
  raw_cognitive_allow_self_model_updates :: "bool option"
  raw_cognitive_allow_autonomous_low_risk_apply :: "bool option"
  raw_cognitive_max_autonomous_risk :: "string option"
  raw_cognitive_require_human_for_prompt_changes :: "bool option"
  raw_cognitive_require_human_for_policy_changes :: "bool option"
  raw_cognitive_require_human_for_network_changes :: "bool option"
  raw_cognitive_require_human_for_blocking_gate_changes :: "bool option"
  raw_cognitive_store_raw_turn_text :: "bool option"

definition apply_cognitive :: "raw_cognitive_policy \<Rightarrow> cognitive_policy \<Rightarrow> cognitive_policy" where
  "apply_cognitive raw p =
     p\<lparr>cognitive_enabled := over (raw_cognitive_enabled raw) (cognitive_enabled p),
       cognitive_allow_autonomous_tick :=
         over (raw_cognitive_allow_autonomous_tick raw) (cognitive_allow_autonomous_tick p),
       cognitive_allow_background_daemon :=
         over (raw_cognitive_allow_background_daemon raw) (cognitive_allow_background_daemon p),
       cognitive_allow_tool_suppression :=
         over (raw_cognitive_allow_tool_suppression raw) (cognitive_allow_tool_suppression p),
       cognitive_allow_jepa_action_scoring :=
         over (raw_cognitive_allow_jepa_action_scoring raw) (cognitive_allow_jepa_action_scoring p),
       cognitive_allow_self_model_updates :=
         over (raw_cognitive_allow_self_model_updates raw) (cognitive_allow_self_model_updates p),
       cognitive_allow_autonomous_low_risk_apply :=
         over (raw_cognitive_allow_autonomous_low_risk_apply raw) (cognitive_allow_autonomous_low_risk_apply p),
       cognitive_max_autonomous_risk :=
         over (raw_cognitive_max_autonomous_risk raw) (cognitive_max_autonomous_risk p),
       cognitive_require_human_for_prompt_changes :=
         over (raw_cognitive_require_human_for_prompt_changes raw) (cognitive_require_human_for_prompt_changes p),
       cognitive_require_human_for_policy_changes :=
         over (raw_cognitive_require_human_for_policy_changes raw) (cognitive_require_human_for_policy_changes p),
       cognitive_require_human_for_network_changes :=
         over (raw_cognitive_require_human_for_network_changes raw) (cognitive_require_human_for_network_changes p),
       cognitive_require_human_for_blocking_gate_changes :=
         over (raw_cognitive_require_human_for_blocking_gate_changes raw) (cognitive_require_human_for_blocking_gate_changes p),
       cognitive_store_raw_turn_text :=
         over (raw_cognitive_store_raw_turn_text raw) (cognitive_store_raw_turn_text p)\<rparr>"

record raw_acquire_policy =
  raw_acquire_browser_profile :: "string option"
  raw_acquire_external_downloader_bin :: "string option"
  raw_acquire_po_token_provider :: "string option"

definition apply_acquire :: "raw_acquire_policy \<Rightarrow> acquire_policy \<Rightarrow> acquire_policy" where
  "apply_acquire raw p =
     p\<lparr>acquire_browser_profile := over (raw_acquire_browser_profile raw) (acquire_browser_profile p),
       acquire_external_downloader_bin :=
         over (raw_acquire_external_downloader_bin raw) (acquire_external_downloader_bin p),
       acquire_po_token_provider := over (raw_acquire_po_token_provider raw) (acquire_po_token_provider p)\<rparr>"

record raw_asr_policy =
  raw_asr_provider :: "string option"
  raw_asr_model :: "string option"
  raw_asr_device :: "string option"
  raw_asr_vad_stable_timestamps :: "bool option"
  raw_asr_model_cache_dir :: "string option"
  raw_asr_model_source :: "string option"
  raw_asr_diarization :: "bool option"

definition apply_asr :: "raw_asr_policy \<Rightarrow> asr_policy \<Rightarrow> asr_policy" where
  "apply_asr raw p =
     p\<lparr>asr_provider := over (raw_asr_provider raw) (asr_provider p),
       asr_model := over (raw_asr_model raw) (asr_model p),
       asr_device := over (raw_asr_device raw) (asr_device p),
       asr_vad_stable_timestamps := over (raw_asr_vad_stable_timestamps raw) (asr_vad_stable_timestamps p),
       asr_model_cache_dir := over (raw_asr_model_cache_dir raw) (asr_model_cache_dir p),
       asr_model_source := over (raw_asr_model_source raw) (asr_model_source p),
       asr_diarization := over (raw_asr_diarization raw) (asr_diarization p)\<rparr>"

record raw_summary_policy =
  raw_summary_enabled :: "bool option"
  raw_summary_allow_llm_summary :: "bool option"
  raw_summary_allow_cloud_summary :: "bool option"
  raw_summary_provider :: "string option"

definition apply_summary :: "raw_summary_policy \<Rightarrow> summary_policy \<Rightarrow> summary_policy" where
  "apply_summary raw p =
     p\<lparr>summary_enabled := over (raw_summary_enabled raw) (summary_enabled p),
       summary_allow_llm_summary := over (raw_summary_allow_llm_summary raw) (summary_allow_llm_summary p),
       summary_allow_cloud_summary :=
         over (raw_summary_allow_cloud_summary raw) (summary_allow_cloud_summary p),
       summary_provider := over (raw_summary_provider raw) (summary_provider p)\<rparr>"

record raw_frames_policy =
  raw_frames_mode :: "string option"
  raw_frames_ocr :: "bool option"
  raw_frames_vlm :: "bool option"

definition apply_frames :: "raw_frames_policy \<Rightarrow> frames_policy \<Rightarrow> frames_policy" where
  "apply_frames raw p =
     p\<lparr>frames_mode := over (raw_frames_mode raw) (frames_mode p),
       frames_ocr := over (raw_frames_ocr raw) (frames_ocr p),
       frames_vlm := over (raw_frames_vlm raw) (frames_vlm p)\<rparr>"

record raw_video_policy =
  raw_video_enabled :: "bool option"
  raw_video_allow_youtube :: "bool option"
  raw_video_allow_direct_urls :: "bool option"
  raw_video_allow_external_downloaders :: "bool option"
  raw_video_allow_browser_automation :: "bool option"
  raw_video_allow_caption_capture :: "bool option"
  raw_video_allow_cloud_asr :: "bool option"
  raw_video_allow_cloud_vlm :: "bool option"
  raw_video_require_user_confirmation_for_download :: "bool option"
  raw_video_max_duration_minutes :: "u32 option"
  raw_video_max_download_mb :: "u64 option"
  raw_video_max_frames :: "u32 option"
  raw_video_frame_interval_secs :: "u32 option"
  raw_video_scene_change_threshold :: "rat option"
  raw_video_dedupe_threshold :: "rat option"
  raw_video_acquire :: "raw_acquire_policy option"
  raw_video_asr :: "raw_asr_policy option"
  raw_video_summary :: "raw_summary_policy option"
  raw_video_frames :: "raw_frames_policy option"

definition apply_video :: "raw_video_policy \<Rightarrow> video_policy \<Rightarrow> video_policy" where
  "apply_video raw p =
     p\<lparr>video_enabled := over (raw_video_enabled raw) (video_enabled p),
       video_allow_youtube := over (raw_video_allow_youtube raw) (video_allow_youtube p),
       video_allow_direct_urls := over (raw_video_allow_direct_urls raw) (video_allow_direct_urls p),
       video_allow_external_downloaders :=
         over (raw_video_allow_external_downloaders raw) (video_allow_external_downloaders p),
       video_allow_browser_automation :=
         over (raw_video_allow_browser_automation raw) (video_allow_browser_automation p),
       video_allow_caption_capture :=
         over (raw_video_allow_caption_capture raw) (video_allow_caption_capture p),
       video_allow_cloud_asr := over (raw_video_allow_cloud_asr raw) (video_allow_cloud_asr p),
       video_allow_cloud_vlm := over (raw_video_allow_cloud_vlm raw) (video_allow_cloud_vlm p),
       video_require_user_confirmation_for_download :=
         over (raw_video_require_user_confirmation_for_download raw) (video_require_user_confirmation_for_download p),
       video_max_duration_minutes :=
         over (raw_video_max_duration_minutes raw) (video_max_duration_minutes p),
       video_max_download_mb := over (raw_video_max_download_mb raw) (video_max_download_mb p),
       video_max_frames := over (raw_video_max_frames raw) (video_max_frames p),
       video_frame_interval_secs := over (raw_video_frame_interval_secs raw) (video_frame_interval_secs p),
       video_scene_change_threshold :=
         over (raw_video_scene_change_threshold raw) (video_scene_change_threshold p),
       video_dedupe_threshold := over (raw_video_dedupe_threshold raw) (video_dedupe_threshold p),
       video_acquire := apply_some apply_acquire (raw_video_acquire raw) (video_acquire p),
       video_asr := apply_some apply_asr (raw_video_asr raw) (video_asr p),
       video_summary := apply_some apply_summary (raw_video_summary raw) (video_summary p),
       video_frames := apply_some apply_frames (raw_video_frames raw) (video_frames p)\<rparr>"

record raw_pdf_policy =
  raw_pdf_extract_embedded_images :: "bool option"
  raw_pdf_min_image_dimension :: "u32 option"
  raw_pdf_min_image_bytes :: "u64 option"
  raw_pdf_vlm_per_page_image :: "bool option"
  raw_pdf_render_text_pdf_pages :: "bool option"
  raw_pdf_image_enrichment_workers :: "u32 option"
  raw_pdf_chunker :: "string option"
  raw_pdf_marker_sidecar :: "string option"
  raw_pdf_marker_device :: "string option"
  raw_pdf_marker_python :: "string option"
  raw_pdf_marker_memory_budget_mb :: "u64 option"
  raw_pdf_marker_url :: "string option"
  raw_pdf_scan_detector :: "string option"
  raw_pdf_figure_region_vlm :: "bool option"

definition apply_pdf :: "raw_pdf_policy \<Rightarrow> pdf_policy \<Rightarrow> pdf_policy" where
  "apply_pdf raw p =
     p\<lparr>pdf_extract_embedded_images :=
         over (raw_pdf_extract_embedded_images raw) (pdf_extract_embedded_images p),
       pdf_min_image_dimension := over (raw_pdf_min_image_dimension raw) (pdf_min_image_dimension p),
       pdf_min_image_bytes := over (raw_pdf_min_image_bytes raw) (pdf_min_image_bytes p),
       pdf_vlm_per_page_image := over (raw_pdf_vlm_per_page_image raw) (pdf_vlm_per_page_image p),
       pdf_render_text_pdf_pages := over (raw_pdf_render_text_pdf_pages raw) (pdf_render_text_pdf_pages p),
       pdf_image_enrichment_workers :=
         over (map_option (clamp_u 1 16) (raw_pdf_image_enrichment_workers raw)) (pdf_image_enrichment_workers p),
       pdf_chunker :=
         over (known [''page_anchor'', ''token_aware''] (raw_pdf_chunker raw)) (pdf_chunker p),
       pdf_marker_sidecar :=
         (if raw_pdf_marker_sidecar raw \<noteq> None then raw_pdf_marker_sidecar raw else pdf_marker_sidecar p),
       pdf_marker_device :=
         (if raw_pdf_marker_device raw \<noteq> None then raw_pdf_marker_device raw else pdf_marker_device p),
       pdf_marker_python :=
         (if raw_pdf_marker_python raw \<noteq> None then raw_pdf_marker_python raw else pdf_marker_python p),
       pdf_marker_memory_budget_mb :=
         (if raw_pdf_marker_memory_budget_mb raw \<noteq> None then raw_pdf_marker_memory_budget_mb raw else pdf_marker_memory_budget_mb p),
       pdf_marker_url :=
         (if raw_pdf_marker_url raw \<noteq> None then raw_pdf_marker_url raw else pdf_marker_url p),
       pdf_scan_detector :=
         over (known [''aspect'', ''coverage'', ''union''] (raw_pdf_scan_detector raw)) (pdf_scan_detector p),
       pdf_figure_region_vlm := over (raw_pdf_figure_region_vlm raw) (pdf_figure_region_vlm p)\<rparr>"

record raw_retrieval_policy =
  raw_retrieval_exact_weight :: "rat option"
  raw_retrieval_semantic_weight :: "rat option"

definition apply_retrieval :: "raw_retrieval_policy \<Rightarrow> retrieval_policy \<Rightarrow> retrieval_policy" where
  "apply_retrieval raw p =
     p\<lparr>retrieval_exact_weight := over (raw_retrieval_exact_weight raw) (retrieval_exact_weight p),
       retrieval_semantic_weight := over (raw_retrieval_semantic_weight raw) (retrieval_semantic_weight p)\<rparr>"

record raw_ollama_policy =
  raw_ollama_endpoint :: "string option"
  raw_ollama_model :: "string option"
  raw_ollama_timeout_secs :: "u64 option"
  raw_ollama_num_ctx :: "u32 option"
  raw_ollama_keep_alive :: "string option"
  raw_ollama_num_gpu :: "u32 option"

definition apply_ollama :: "raw_ollama_policy \<Rightarrow> ollama_policy \<Rightarrow> ollama_policy" where
  "apply_ollama raw p =
     p\<lparr>ollama_endpoint := over (raw_ollama_endpoint raw) (ollama_endpoint p),
       ollama_model := over (raw_ollama_model raw) (ollama_model p),
       ollama_timeout_secs := over (raw_ollama_timeout_secs raw) (ollama_timeout_secs p),
       ollama_num_ctx :=
         (if raw_ollama_num_ctx raw \<noteq> None then raw_ollama_num_ctx raw else ollama_num_ctx p),
       ollama_keep_alive :=
         (if raw_ollama_keep_alive raw \<noteq> None then raw_ollama_keep_alive raw else ollama_keep_alive p),
       ollama_num_gpu :=
         (if raw_ollama_num_gpu raw \<noteq> None then raw_ollama_num_gpu raw else ollama_num_gpu p)\<rparr>"

record raw_gemini_policy =
  raw_gemini_api_key_env :: "string option"
  raw_gemini_model :: "string option"
  raw_gemini_endpoint_base :: "string option"
  raw_gemini_rpm_limit :: "u32 option"

definition apply_gemini :: "raw_gemini_policy \<Rightarrow> gemini_policy \<Rightarrow> gemini_policy" where
  "apply_gemini raw p =
     p\<lparr>gemini_api_key_env := over (raw_gemini_api_key_env raw) (gemini_api_key_env p),
       gemini_model := over (raw_gemini_model raw) (gemini_model p),
       gemini_endpoint_base := over (raw_gemini_endpoint_base raw) (gemini_endpoint_base p),
       gemini_rpm_limit := over (raw_gemini_rpm_limit raw) (gemini_rpm_limit p)\<rparr>"

record raw_anthropic_policy =
  raw_anthropic_model :: "string option"

definition apply_anthropic :: "raw_anthropic_policy \<Rightarrow> anthropic_policy \<Rightarrow> anthropic_policy" where
  "apply_anthropic raw p =
     p\<lparr>anthropic_model := over (raw_anthropic_model raw) (anthropic_model p)\<rparr>"

record raw_compat_policy =
  raw_compat_endpoint :: "string option"
  raw_compat_model :: "string option"
  raw_compat_api_key_env :: "string option"
  raw_compat_timeout_secs :: "u64 option"
  raw_compat_max_tokens :: "u32 option"
  raw_compat_temperature :: "rat option"

definition apply_compat :: "raw_compat_policy \<Rightarrow> compat_policy \<Rightarrow> compat_policy" where
  "apply_compat raw p =
     p\<lparr>compat_endpoint := over (raw_compat_endpoint raw) (compat_endpoint p),
       compat_model := over (raw_compat_model raw) (compat_model p),
       compat_api_key_env := over (raw_compat_api_key_env raw) (compat_api_key_env p),
       compat_timeout_secs := over (raw_compat_timeout_secs raw) (compat_timeout_secs p),
       compat_max_tokens := over (raw_compat_max_tokens raw) (compat_max_tokens p),
       compat_temperature := over (raw_compat_temperature raw) (compat_temperature p)\<rparr>"

record raw_vlm_policy =
  raw_vlm_enabled :: "bool option"
  raw_vlm_mode :: "string option"
  raw_vlm_provider :: "string option"
  raw_vlm_allow_cloud :: "bool option"
  raw_vlm_require_user_confirmation_for_cloud :: "bool option"
  raw_vlm_ollama :: "raw_ollama_policy option"
  raw_vlm_gemini :: "raw_gemini_policy option"
  raw_vlm_anthropic :: "raw_anthropic_policy option"
  raw_vlm_openai_compat :: "raw_compat_policy option"

definition apply_vlm :: "raw_vlm_policy \<Rightarrow> vlm_policy \<Rightarrow> vlm_policy" where
  "apply_vlm raw p =
     p\<lparr>vlm_enabled := over (raw_vlm_enabled raw) (vlm_enabled p),
       vlm_mode := over (raw_vlm_mode raw) (vlm_mode p),
       vlm_provider := over (raw_vlm_provider raw) (vlm_provider p),
       vlm_allow_cloud := over (raw_vlm_allow_cloud raw) (vlm_allow_cloud p),
       vlm_require_user_confirmation_for_cloud :=
         over (raw_vlm_require_user_confirmation_for_cloud raw) (vlm_require_user_confirmation_for_cloud p),
       vlm_ollama := apply_some apply_ollama (raw_vlm_ollama raw) (vlm_ollama p),
       vlm_gemini := apply_some apply_gemini (raw_vlm_gemini raw) (vlm_gemini p),
       vlm_anthropic := apply_some apply_anthropic (raw_vlm_anthropic raw) (vlm_anthropic p),
       vlm_openai_compat := apply_some apply_compat (raw_vlm_openai_compat raw) (vlm_openai_compat p)\<rparr>"

record raw_docs_policy =
  raw_docs_vlm :: "raw_vlm_policy option"
  raw_docs_pdf :: "raw_pdf_policy option"
  raw_docs_retrieval :: "raw_retrieval_policy option"

definition apply_docs :: "raw_docs_policy \<Rightarrow> docs_policy \<Rightarrow> docs_policy" where
  "apply_docs raw p =
     p\<lparr>docs_vlm := apply_some apply_vlm (raw_docs_vlm raw) (docs_vlm p),
       docs_pdf := apply_some apply_pdf (raw_docs_pdf raw) (docs_pdf p),
       docs_retrieval := apply_some apply_retrieval (raw_docs_retrieval raw) (docs_retrieval p)\<rparr>"

record raw_policy =
  raw_network :: "raw_network_policy option"
  raw_workers :: "raw_workers_policy option"
  raw_gametheory :: "raw_gametheory_policy option"
  raw_learning :: "raw_learning_policy option"
  raw_world_model :: "raw_world_policy option"
  raw_web :: "raw_web_policy option"
  raw_reasoning_quality :: "raw_quality_policy option"
  raw_cognitive :: "raw_cognitive_policy option"
  raw_video :: "raw_video_policy option"
  raw_docs :: "raw_docs_policy option"

record raw_policy_root =
  root_policy :: "raw_policy option"
  root_vlm :: "raw_vlm_policy option"

section \<open>Sources\<close>

definition apply_sections :: "raw_policy \<Rightarrow> effective_policy \<Rightarrow> effective_policy" where
  "apply_sections raw p =
     p\<lparr>policy_network := apply_some apply_network (raw_network raw) (policy_network p),
       policy_workers := apply_some apply_workers (raw_workers raw) (policy_workers p),
       policy_gametheory := apply_some apply_gametheory (raw_gametheory raw) (policy_gametheory p),
       policy_learning := apply_some apply_learning (raw_learning raw) (policy_learning p),
       policy_world_model := apply_some apply_world (raw_world_model raw) (policy_world_model p),
       policy_web := apply_some apply_web (raw_web raw) (policy_web p),
       policy_reasoning_quality := apply_some apply_quality (raw_reasoning_quality raw) (policy_reasoning_quality p),
       policy_cognitive := apply_some apply_cognitive (raw_cognitive raw) (policy_cognitive p),
       policy_video := apply_some apply_video (raw_video raw) (policy_video p),
       policy_docs := apply_some apply_docs (raw_docs raw) (policy_docs p)\<rparr>"

definition apply_raw :: "raw_policy_root \<Rightarrow> effective_policy \<Rightarrow> effective_policy" where
  "apply_raw raw p =
     (let p' = apply_some apply_sections (root_policy raw) p
      in p'\<lparr>policy_docs := (policy_docs p')
           \<lparr>docs_vlm := apply_some apply_vlm (root_vlm raw) (docs_vlm (policy_docs p'))\<rparr>\<rparr>)"

record policy_source =
  source_label :: string
  source_path :: string

record policy_load =
  load_policy :: effective_policy
  load_loaded :: "string list"
  load_missing :: "string list"

datatype policy_error = PolicyIo string string | PolicyParse string string

type_synonym policy_files = "string \<Rightarrow> (string + string) option"

fun load_each ::
    "policy_files \<Rightarrow> (string \<Rightarrow> string + raw_policy_root) \<Rightarrow> policy_source list \<Rightarrow> policy_load \<Rightarrow> policy_error + policy_load" where
  "load_each files toml [] loaded = Inr loaded"
| "load_each files toml (source # sources) loaded =
     (case files (source_path source) of
        None \<Rightarrow> load_each files toml sources (loaded\<lparr>load_missing := load_missing loaded @ [source_path source]\<rparr>)
      | Some (Inl message) \<Rightarrow> Inl (PolicyIo (source_path source) message)
      | Some (Inr text) \<Rightarrow>
          (case toml text of
             Inl message \<Rightarrow> Inl (PolicyParse (source_path source) message)
           | Inr raw \<Rightarrow>
               load_each files toml sources
                 (loaded\<lparr>load_policy := apply_raw raw (load_policy loaded),
                    load_loaded := load_loaded loaded @ [source_path source]\<rparr>)))"

definition load_policy_from_sources ::
    "policy_files \<Rightarrow> (string \<Rightarrow> string + raw_policy_root) \<Rightarrow> policy_source list \<Rightarrow> policy_error + policy_load" where
  "load_policy_from_sources files toml sources =
     load_each files toml sources \<lparr>load_policy = default_effective_policy, load_loaded = [], load_missing = []\<rparr>"

text \<open>\<^verbatim>\<open>PathBuf::join\<close> of a relative path.\<close>

definition join_path :: "string \<Rightarrow> string \<Rightarrow> string" where
  "join_path base rest = (if base = [] \<or> last base = CHR ''/'' then base @ rest else base @ ''/'' @ rest)"

definition policy_sources :: "string option \<Rightarrow> string \<Rightarrow> policy_source list" where
  "policy_sources home workspace =
     [\<lparr>source_label = ''system'', source_path = ''/etc/archon/policy.toml''\<rparr>,
      \<lparr>source_label = ''user'', source_path = join_path (join_path (case home of Some h \<Rightarrow> h | None \<Rightarrow> ''.'') ''.archon'') ''policy.toml''\<rparr>,
      \<lparr>source_label = ''workspace'', source_path = join_path (join_path workspace ''.archon'') ''policy.toml''\<rparr>]"

definition load_policy_for_workspace ::
    "policy_files \<Rightarrow> (string \<Rightarrow> string + raw_policy_root) \<Rightarrow> string option \<Rightarrow> string \<Rightarrow> policy_error + policy_load" where
  "load_policy_for_workspace files toml home workspace =
     load_policy_from_sources files toml (policy_sources home workspace)"

definition load_effective_policy ::
    "policy_files \<Rightarrow> (string \<Rightarrow> string + raw_policy_root) \<Rightarrow> string option \<Rightarrow> string \<Rightarrow> policy_error + effective_policy" where
  "load_effective_policy files toml home workspace =
     map_sum id load_policy (load_policy_for_workspace files toml home workspace)"

end
