(* ===== verification/Policy_Decision.thy ===== *)
theory Policy_Decision imports Policy_Models begin

text \<open>
  The decisions of the evidence policy (\<^verbatim>\<open>crates/archon-policy/src/decision.rs\<close>): which feature
  may run, send data away or apply a learned change under the settings in force.
\<close>

section \<open>Workers, endpoints and risks\<close>

definition risk_rank :: "string \<Rightarrow> nat option" where
  "risk_rank risk =
     (let r = to_ascii_lowercase risk
      in if r = ''low'' then Some 0
         else if r = ''medium'' then Some 1
         else if r = ''high'' then Some 2
         else if r = ''critical'' then Some 3
         else None)"

definition risk_within_limit :: "string \<Rightarrow> string \<Rightarrow> bool" where
  "risk_within_limit risk limit =
     (case risk_rank risk of
        None \<Rightarrow> False
      | Some r \<Rightarrow> (case risk_rank limit of None \<Rightarrow> False | Some m \<Rightarrow> r \<le> m))"

definition local_worker :: "string \<Rightarrow> bool" where
  "local_worker w \<longleftrightarrow> w \<in> {''allow-local'', ''allow'', ''local''}"

definition cloud_worker_allowed :: "string \<Rightarrow> bool" where
  "cloud_worker_allowed w \<longleftrightarrow> w \<in> {''allow-cloud'', ''allow'', ''cloud''}"

definition endpoint_looks_local :: "string \<Rightarrow> bool" where
  "endpoint_looks_local endpoint =
     list_ex (starts_with (to_ascii_lowercase (trim endpoint)))
       [''http://localhost'', ''https://localhost'', ''http://127.'', ''https://127.'',
        ''http://[::1]'', ''https://[::1]'', ''http://0.0.0.0'', ''https://0.0.0.0'']"

definition video_asr_is_local :: "string \<Rightarrow> bool" where
  "video_asr_is_local provider \<longleftrightarrow> provider \<in> {''whisper-rs'', ''whisper-cli'', ''local'', ''disabled'', []}"

definition summary_provider_is_cloud :: "string \<Rightarrow> bool" where
  "summary_provider_is_cloud provider \<longleftrightarrow> provider \<notin> {''disabled'', ''local'', ''ollama'', []}"

section \<open>Describing documents\<close>

definition allow_local_vlm :: "string \<Rightarrow> policy_decision" where
  "allow_local_vlm worker =
     (if local_worker worker then policy_allow ''local VLM provider is allowed by policy''
      else policy_deny ''local VLM provider is denied by policy.workers.vlm'')"

definition allow_cloud_vlm :: "effective_policy \<Rightarrow> policy_decision" where
  "allow_cloud_vlm p =
     (if \<not> cloud_worker_allowed (workers_vlm (policy_workers p))
      then policy_deny ''cloud VLM provider is denied by policy.workers.vlm''
      else if vlm_allow_cloud (docs_vlm (policy_docs p)) \<and> network_allow_cloud_vlm (policy_network p)
      then policy_allow ''cloud VLM provider is allowed by policy''
      else policy_deny ''cloud VLM requires policy.docs.vlm.allow_cloud and policy.network.allow_cloud_vlm'')"

definition vlm_disabled_text :: string where
  "vlm_disabled_text = ''VLM descriptions are disabled by policy''"

definition unsupported_mode :: "string \<Rightarrow> policy_decision" where
  "unsupported_mode mode = policy_deny (''unsupported VLM mode '' @ quoted mode)"

definition allow_provider_mode :: "string \<Rightarrow> string \<Rightarrow> policy_decision \<Rightarrow> policy_decision" where
  "allow_provider_mode mode provider_class decision =
     (if mode = ''local'' \<and> provider_class = ''local'' \<or> mode = ''cloud'' \<and> provider_class = ''cloud'' \<or> mode = ''hybrid''
      then decision
      else if mode = ''disabled'' then policy_deny vlm_disabled_text
      else if mode = ''local'' \<and> provider_class = ''cloud''
      then policy_deny (''cloud VLM provider requires policy.docs.vlm.mode = '' @ debug_text ''cloud'' @ '' or '' @ debug_text ''hybrid'')
      else if mode = ''cloud'' \<and> provider_class = ''local''
      then policy_deny (''local VLM provider requires policy.docs.vlm.mode = '' @ debug_text ''local'' @ '' or '' @ debug_text ''hybrid'')
      else unsupported_mode mode)"

definition allow_openai_compat_vlm :: "effective_policy \<Rightarrow> policy_decision" where
  "allow_openai_compat_vlm p =
     (let vlm = docs_vlm (policy_docs p); mode = vlm_mode vlm
      in if mode = ''local'' then allow_local_vlm (workers_vlm (policy_workers p))
         else if mode = ''cloud'' then allow_cloud_vlm p
         else if mode = ''hybrid''
         then (if endpoint_looks_local (compat_endpoint (vlm_openai_compat vlm))
               then allow_local_vlm (workers_vlm (policy_workers p)) else allow_cloud_vlm p)
         else if mode = ''disabled'' then policy_deny vlm_disabled_text
         else unsupported_mode mode)"

definition docs_vlm_decision :: "effective_policy \<Rightarrow> policy_decision" where
  "docs_vlm_decision p =
     (let vlm = docs_vlm (policy_docs p); provider = vlm_provider vlm
      in if \<not> vlm_enabled vlm \<or> vlm_mode vlm = ''disabled'' \<or> provider = ''disabled''
         then policy_deny vlm_disabled_text
         else if provider = ''ollama''
         then allow_provider_mode (vlm_mode vlm) ''local'' (allow_local_vlm (workers_vlm (policy_workers p)))
         else if provider = ''gemini'' \<or> provider = ''anthropic''
         then allow_provider_mode (vlm_mode vlm) ''cloud'' (allow_cloud_vlm p)
         else if provider = ''openai-compat'' then allow_openai_compat_vlm p
         else policy_deny (''unsupported VLM provider '' @ quoted provider))"

definition docs_vlm_mode_decision :: "effective_policy \<Rightarrow> policy_decision" where
  "docs_vlm_mode_decision p =
     (let vlm = docs_vlm (policy_docs p); mode = vlm_mode vlm; worker = workers_vlm (policy_workers p)
      in if \<not> vlm_enabled vlm \<or> mode = ''disabled'' then policy_deny vlm_disabled_text
         else if mode = ''local'' then allow_local_vlm worker
         else if mode = ''cloud'' then allow_cloud_vlm p
         else if mode = ''hybrid''
         then (if decision_allowed (allow_local_vlm worker)
               then policy_allow ''hybrid VLM allowed through local provider'' else allow_cloud_vlm p)
         else unsupported_mode mode)"

section \<open>Features with one switch\<close>

definition gate :: "bool \<Rightarrow> string \<Rightarrow> string \<Rightarrow> policy_decision" where
  "gate on yes no = (if on then policy_allow yes else policy_deny no)"

definition gametheory_tier11_decision :: "effective_policy \<Rightarrow> policy_decision" where
  "gametheory_tier11_decision p =
     gate (gametheory_enable_tier11 (policy_gametheory p)) ''Tier 11 is enabled by policy'' ''Tier 11 is disabled by policy''"

definition gametheory_web_tools_decision :: "effective_policy \<Rightarrow> policy_decision" where
  "gametheory_web_tools_decision p =
     gate (gametheory_allow_web_tools (policy_gametheory p) \<and> network_allow_web_strategy_agents (policy_network p))
       ''web strategy tools are enabled by policy''
       ''web strategy tools require policy.gametheory.allow_web_tools and policy.network.allow_web_strategy_agents''"

definition mcp_exposure_decision :: "effective_policy \<Rightarrow> policy_decision" where
  "mcp_exposure_decision p =
     gate (network_allow_mcp_server_exposure (policy_network p))
       ''MCP server exposure is enabled by policy'' ''MCP server exposure is disabled by policy''"

definition world_model_llm_labeler_decision :: "effective_policy \<Rightarrow> policy_decision" where
  "world_model_llm_labeler_decision p =
     gate (world_allow_llm_labeler (policy_world_model p))
       ''world-model LLM labeling is enabled by policy'' ''world-model LLM labeling is disabled by policy''"

definition world_model_behavior_change_decision :: "effective_policy \<Rightarrow> policy_decision" where
  "world_model_behavior_change_decision p =
     gate (world_allow_behavior_changes (policy_world_model p))
       ''world-model behavior-changing use is enabled by policy'' ''world-model behavior-changing use is disabled by policy''"

definition world_model_third_party_embeddings_decision :: "effective_policy \<Rightarrow> policy_decision" where
  "world_model_third_party_embeddings_decision p =
     (if \<not> world_allow_third_party_embeddings (policy_world_model p)
      then policy_deny ''third-party world-model embeddings are disabled by policy.world_model''
      else
        gate (cloud_worker_allowed (workers_embedding (policy_workers p)) \<and> network_default (policy_network p) = ''allow'')
          ''third-party world-model embeddings are enabled by policy''
          (''third-party world-model embeddings require policy.workers.embedding = '' @ debug_text ''allow-cloud''
             @ '' and policy.network.default = '' @ debug_text ''allow''))"

definition reasoning_quality_llm_critic_decision :: "effective_policy \<Rightarrow> string \<Rightarrow> bool \<Rightarrow> policy_decision" where
  "reasoning_quality_llm_critic_decision p data_flow_class third_party =
     (let quality = policy_reasoning_quality p
      in if \<not> quality_allow_llm_critic quality
         then policy_deny ''reasoning-quality LLM critic is disabled by policy''
         else if third_party \<and> \<not> quality_allow_third_party_critic quality
         then policy_deny ''third-party reasoning-quality critic is disabled by policy''
         else if data_flow_class = ''cloud'' \<and> \<not> quality_allow_critic_cloud_data_flow quality
         then policy_deny ''cloud critic data flow is disabled by policy.reasoning_quality''
         else policy_allow ''reasoning-quality LLM critic is enabled by policy'')"

definition reasoning_quality_raw_text_decision :: "effective_policy \<Rightarrow> policy_decision" where
  "reasoning_quality_raw_text_decision p =
     gate (quality_allow_raw_text_storage (policy_reasoning_quality p))
       ''reasoning-quality raw text storage is enabled by policy'' ''reasoning-quality raw text storage is disabled by policy''"

definition reasoning_quality_session_injection_decision :: "effective_policy \<Rightarrow> policy_decision" where
  "reasoning_quality_session_injection_decision p =
     gate (quality_allow_session_start_injection (policy_reasoning_quality p))
       ''reasoning-quality session briefing injection is enabled'' ''reasoning-quality session briefing injection is disabled''"

section \<open>Applying learned changes\<close>

definition approval_gate :: "learning_policy \<Rightarrow> string \<Rightarrow> policy_decision option" where
  "approval_gate l kind =
     (if kind = ''PromptProfile'' \<and> learning_require_approval_for_prompt_changes l
      then Some (policy_deny ''prompt changes require approval by policy'')
      else if kind = ''PipelineGates'' \<and> learning_require_approval_for_blocking_gates l
      then Some (policy_deny ''blocking gate changes require approval by policy'')
      else None)"

definition learning_autonomous_apply_decision :: "effective_policy \<Rightarrow> string \<Rightarrow> string \<Rightarrow> policy_decision" where
  "learning_autonomous_apply_decision p kind risk =
     (let l = policy_learning p
      in if kind = ''PolicyOverride'' then policy_deny ''policy override changes cannot self-apply''
         else case approval_gate l kind of
                Some d \<Rightarrow> d
              | None \<Rightarrow>
                  if learning_require_approval_for_network_changes l \<and> kind = ''NetworkAccess''
                  then policy_deny ''network changes require approval by policy''
                  else if \<not> risk_within_limit risk (learning_autonomous_max_risk l)
                  then policy_deny (''risk '' @ risk @ '' exceeds autonomous_max_risk '' @ learning_autonomous_max_risk l)
                  else policy_allow ''autonomous learning apply is enabled by policy'')"

definition learning_auto_apply_decision :: "effective_policy \<Rightarrow> string \<Rightarrow> string \<Rightarrow> policy_decision" where
  "learning_auto_apply_decision p kind risk =
     (let l = policy_learning p
      in if learning_autonomous_apply l then learning_autonomous_apply_decision p kind risk
         else if \<not> learning_auto_apply_low_risk l then policy_deny ''learning auto-apply is disabled by policy''
         else if risk \<in> {''High'', ''Critical'', ''high'', ''critical''}
         then policy_deny ''high-risk behaviour changes require approval''
         else case approval_gate l kind of
                Some d \<Rightarrow> d
              | None \<Rightarrow>
                  if kind = ''PolicyOverride'' \<or> learning_require_approval_for_network_changes l \<and> kind = ''NetworkAccess''
                  then policy_deny ''policy or network changes require approval by policy''
                  else policy_allow ''low-risk auto-apply is enabled by policy'')"

section \<open>Video\<close>

definition video_ingest_decision :: "effective_policy \<Rightarrow> policy_decision" where
  "video_ingest_decision p =
     gate (video_enabled (policy_video p)) ''video ingest is enabled by policy'' ''video ingest is disabled by policy.video.enabled''"

definition when_ingested :: "effective_policy \<Rightarrow> policy_decision \<Rightarrow> policy_decision" where
  "when_ingested p decision =
     (if \<not> decision_allowed (video_ingest_decision p) then video_ingest_decision p else decision)"

definition video_acquisition_decision :: "effective_policy \<Rightarrow> string \<Rightarrow> policy_decision" where
  "video_acquisition_decision p acquisition = when_ingested p
     (let v = policy_video p
      in if acquisition = ''LocalFile'' \<or> acquisition = ''None'' then policy_allow ''local video acquisition is allowed''
         else if acquisition = ''YouTube''
         then gate (video_allow_youtube v) ''YouTube video sources are enabled by policy''
                ''YouTube video sources are disabled by policy.video''
         else if acquisition = ''DirectUrl'' \<or> acquisition = ''DirectDownload''
         then gate (video_allow_direct_urls v) ''direct video URLs are enabled by policy''
                ''direct video URLs are disabled by policy.video''
         else if acquisition = ''ExternalDownloader''
         then gate (video_allow_external_downloaders v) ''external video downloader is enabled by policy''
                ''external video downloader is disabled by policy.video''
         else if acquisition = ''BrowserAutomation''
         then gate (video_allow_browser_automation v) ''browser video acquisition is enabled by policy''
                ''browser video acquisition is disabled by policy.video''
         else policy_deny (''unsupported video acquisition method '' @ quoted acquisition))"

definition video_asr_decision :: "effective_policy \<Rightarrow> policy_decision" where
  "video_asr_decision p = when_ingested p
     (let v = policy_video p
      in if video_asr_is_local (asr_provider (video_asr v)) then policy_allow ''local video ASR is allowed by policy''
         else if \<not> video_allow_cloud_asr v then policy_deny ''cloud video ASR is disabled by policy.video''
         else if \<not> cloud_worker_allowed (workers_ocr (policy_workers p)) \<or> \<not> network_allow_cloud_vlm (policy_network p)
         then policy_deny ''cloud video ASR requires policy.workers.ocr and policy.network.allow_cloud_vlm''
         else policy_allow ''cloud video ASR is allowed by policy'')"

definition docs_vlm_looks_cloud :: "effective_policy \<Rightarrow> bool" where
  "docs_vlm_looks_cloud p =
     (let vlm = docs_vlm (policy_docs p); provider = vlm_provider vlm
      in if provider = ''gemini'' \<or> provider = ''anthropic'' then True
         else if provider = ''openai-compat''
         then vlm_mode vlm = ''cloud'' \<or> \<not> endpoint_looks_local (compat_endpoint (vlm_openai_compat vlm))
         else vlm_mode vlm = ''cloud'')"

definition video_vlm_decision :: "effective_policy \<Rightarrow> policy_decision" where
  "video_vlm_decision p = when_ingested p
     (let v = policy_video p
      in if \<not> frames_vlm (video_frames v) then policy_deny ''video frame VLM is disabled by policy.video.frames''
         else if docs_vlm_looks_cloud p \<and> \<not> video_allow_cloud_vlm v
         then policy_deny ''cloud video VLM is disabled by policy.video''
         else docs_vlm_decision p)"

definition video_summary_decision :: "effective_policy \<Rightarrow> policy_decision" where
  "video_summary_decision p = when_ingested p
     (let s = video_summary (policy_video p)
      in if \<not> summary_enabled s then policy_deny ''video summary is disabled by policy.video.summary''
         else if \<not> summary_allow_llm_summary s then policy_deny ''video LLM summary is disabled by policy.video.summary''
         else if summary_provider_is_cloud (summary_provider s) \<and> \<not> summary_allow_cloud_summary s
         then policy_deny ''cloud video summary is disabled by policy.video.summary''
         else if summary_provider_is_cloud (summary_provider s)
           \<and> (\<not> cloud_worker_allowed (workers_vlm (policy_workers p)) \<or> \<not> network_allow_cloud_vlm (policy_network p)
              \<or> \<not> vlm_allow_cloud (docs_vlm (policy_docs p)))
         then policy_deny ''cloud video summary requires workers, network, and docs VLM cloud gates''
         else policy_allow ''video summary is allowed by policy'')"

end
