(* ===== verification/Policy_Laws.thy ===== *)
theory Policy_Laws imports Policy_Loader Policy_Decision begin

text \<open>
  What the policy promises: a later file decides each setting it mentions and no other, without any
  file nothing leaves the machine and nothing changes by itself, and documents are described in the
  cloud only behind three switches.
\<close>

section \<open>Layers\<close>

locale policy_setting =
  fixes get :: "effective_policy \<Rightarrow> 'a" and key :: "raw_policy_root \<Rightarrow> 'a option"
  assumes applied: "get (apply_raw raw p) = over (key raw) (get p)"
begin

lemma layered: "get (foldl (\<lambda>p raw. apply_raw raw p) p raws) = foldl (\<lambda>v raw. over (key raw) v) (get p) raws"
  by (induction raws arbitrary: p) (simp_all add: applied)

end

definition last_said :: "'a \<Rightarrow> 'a option list \<Rightarrow> 'a" where
  "last_said v vs = (case rev (filter (\<lambda>x. x \<noteq> None) vs) of Some x # _ \<Rightarrow> x | _ \<Rightarrow> v)"

lemma fold_over: "foldl (\<lambda>v raw. over (key raw) v) v raws = last_said v (map key raws)"
  by (induction raws rule: rev_induct) (simp_all add: last_said_def over_def split: option.splits)

definition inner_key :: "('a \<Rightarrow> 'b option) \<Rightarrow> ('b \<Rightarrow> 'c option) \<Rightarrow> 'a \<Rightarrow> 'c option" where
  "inner_key outer inner x = Option.bind (outer x) inner"

definition from_file :: "(raw_policy \<Rightarrow> 'b option) \<Rightarrow> ('b \<Rightarrow> 'c option) \<Rightarrow> raw_policy_root \<Rightarrow> 'c option" where
  "from_file outer inner = inner_key root_policy (inner_key outer inner)"

text \<open>A setting of the model that describes images stands in the docs section, or in a section of its own.\<close>

definition or_else :: "'a option \<Rightarrow> 'a option \<Rightarrow> 'a option" where
  "or_else v w = (case v of Some x \<Rightarrow> Some x | None \<Rightarrow> w)"

definition vlm_key :: "(raw_vlm_policy \<Rightarrow> 'c option) \<Rightarrow> raw_policy_root \<Rightarrow> 'c option" where
  "vlm_key inner raw =
     or_else (inner_key root_vlm inner raw) (from_file raw_docs (inner_key raw_docs_vlm inner) raw)"

text \<open>The switches of the policy and the words its decisions read, each with the key of a file.\<close>

definition switches :: "((effective_policy \<Rightarrow> bool) \<times> (raw_policy_root \<Rightarrow> bool option)) list" where
  "switches =
     [(\<lambda>p. network_allow_cloud_vlm (policy_network p), from_file raw_network raw_network_allow_cloud_vlm),
      (\<lambda>p. network_allow_web_strategy_agents (policy_network p), from_file raw_network raw_network_allow_web_strategy_agents),
      (\<lambda>p. network_allow_mcp_server_exposure (policy_network p), from_file raw_network raw_network_allow_mcp_server_exposure),
      (\<lambda>p. gametheory_enable_tier11 (policy_gametheory p), from_file raw_gametheory raw_gametheory_enable_tier11),
      (\<lambda>p. gametheory_allow_web_tools (policy_gametheory p), from_file raw_gametheory raw_gametheory_allow_web_tools),
      (\<lambda>p. learning_auto_apply_low_risk (policy_learning p), from_file raw_learning raw_learning_auto_apply_low_risk),
      (\<lambda>p. learning_autonomous_apply (policy_learning p), from_file raw_learning raw_learning_autonomous_apply),
      (\<lambda>p. learning_require_approval_for_prompt_changes (policy_learning p), from_file raw_learning raw_learning_require_approval_for_prompt_changes),
      (\<lambda>p. learning_require_approval_for_blocking_gates (policy_learning p), from_file raw_learning raw_learning_require_approval_for_blocking_gates),
      (\<lambda>p. learning_require_approval_for_network_changes (policy_learning p), from_file raw_learning raw_learning_require_approval_for_network_changes),
      (\<lambda>p. world_allow_third_party_embeddings (policy_world_model p), from_file raw_world_model raw_world_allow_third_party_embeddings),
      (\<lambda>p. world_allow_llm_labeler (policy_world_model p), from_file raw_world_model raw_world_allow_llm_labeler),
      (\<lambda>p. world_allow_behavior_changes (policy_world_model p), from_file raw_world_model raw_world_allow_behavior_changes),
      (\<lambda>p. world_allow_embedding_cache (policy_world_model p), from_file raw_world_model raw_world_allow_embedding_cache),
      (\<lambda>p. world_allow_world_model_raw_text_storage (policy_world_model p), from_file raw_world_model raw_world_allow_world_model_raw_text_storage),
      (\<lambda>p. world_allow_eval_background_jobs (policy_world_model p), from_file raw_world_model raw_world_allow_eval_background_jobs),
      (\<lambda>p. web_allow_mutating_actions (policy_web p), from_file raw_web raw_web_allow_mutating_actions),
      (\<lambda>p. web_allow_file_uploads (policy_web p), from_file raw_web raw_web_allow_file_uploads),
      (\<lambda>p. web_allow_pipeline_controls (policy_web p), from_file raw_web raw_web_allow_pipeline_controls),
      (\<lambda>p. web_allow_model_training_actions (policy_web p), from_file raw_web raw_web_allow_model_training_actions),
      (\<lambda>p. web_allow_corpus_open_paths (policy_web p), from_file raw_web raw_web_allow_corpus_open_paths),
      (\<lambda>p. web_allow_document_deletion (policy_web p), from_file raw_web raw_web_allow_document_deletion),
      (\<lambda>p. web_allow_web_terminal (policy_web p), from_file raw_web raw_web_allow_web_terminal),
      (\<lambda>p. quality_allow_llm_critic (policy_reasoning_quality p), from_file raw_reasoning_quality raw_quality_allow_llm_critic),
      (\<lambda>p. quality_allow_critic_cloud_data_flow (policy_reasoning_quality p), from_file raw_reasoning_quality raw_quality_allow_critic_cloud_data_flow),
      (\<lambda>p. quality_allow_third_party_critic (policy_reasoning_quality p), from_file raw_reasoning_quality raw_quality_allow_third_party_critic),
      (\<lambda>p. quality_allow_raw_text_storage (policy_reasoning_quality p), from_file raw_reasoning_quality raw_quality_allow_raw_text_storage),
      (\<lambda>p. quality_allow_behavior_proposal_generation (policy_reasoning_quality p), from_file raw_reasoning_quality raw_quality_allow_behavior_proposal_generation),
      (\<lambda>p. quality_allow_session_start_injection (policy_reasoning_quality p), from_file raw_reasoning_quality raw_quality_allow_session_start_injection),
      (\<lambda>p. quality_allow_trust_updates_during_shadow (policy_reasoning_quality p), from_file raw_reasoning_quality raw_quality_allow_trust_updates_during_shadow),
      (\<lambda>p. quality_auto_migrate_reasoning_quality (policy_reasoning_quality p), from_file raw_reasoning_quality raw_quality_auto_migrate_reasoning_quality),
      (\<lambda>p. cognitive_enabled (policy_cognitive p), from_file raw_cognitive raw_cognitive_enabled),
      (\<lambda>p. cognitive_allow_autonomous_tick (policy_cognitive p), from_file raw_cognitive raw_cognitive_allow_autonomous_tick),
      (\<lambda>p. cognitive_allow_background_daemon (policy_cognitive p), from_file raw_cognitive raw_cognitive_allow_background_daemon),
      (\<lambda>p. cognitive_allow_tool_suppression (policy_cognitive p), from_file raw_cognitive raw_cognitive_allow_tool_suppression),
      (\<lambda>p. cognitive_allow_jepa_action_scoring (policy_cognitive p), from_file raw_cognitive raw_cognitive_allow_jepa_action_scoring),
      (\<lambda>p. cognitive_allow_self_model_updates (policy_cognitive p), from_file raw_cognitive raw_cognitive_allow_self_model_updates),
      (\<lambda>p. cognitive_allow_autonomous_low_risk_apply (policy_cognitive p), from_file raw_cognitive raw_cognitive_allow_autonomous_low_risk_apply),
      (\<lambda>p. cognitive_require_human_for_prompt_changes (policy_cognitive p), from_file raw_cognitive raw_cognitive_require_human_for_prompt_changes),
      (\<lambda>p. cognitive_require_human_for_policy_changes (policy_cognitive p), from_file raw_cognitive raw_cognitive_require_human_for_policy_changes),
      (\<lambda>p. cognitive_require_human_for_network_changes (policy_cognitive p), from_file raw_cognitive raw_cognitive_require_human_for_network_changes),
      (\<lambda>p. cognitive_require_human_for_blocking_gate_changes (policy_cognitive p), from_file raw_cognitive raw_cognitive_require_human_for_blocking_gate_changes),
      (\<lambda>p. cognitive_store_raw_turn_text (policy_cognitive p), from_file raw_cognitive raw_cognitive_store_raw_turn_text),
      (\<lambda>p. video_enabled (policy_video p), from_file raw_video raw_video_enabled),
      (\<lambda>p. video_allow_youtube (policy_video p), from_file raw_video raw_video_allow_youtube),
      (\<lambda>p. video_allow_direct_urls (policy_video p), from_file raw_video raw_video_allow_direct_urls),
      (\<lambda>p. video_allow_external_downloaders (policy_video p), from_file raw_video raw_video_allow_external_downloaders),
      (\<lambda>p. video_allow_browser_automation (policy_video p), from_file raw_video raw_video_allow_browser_automation),
      (\<lambda>p. video_allow_caption_capture (policy_video p), from_file raw_video raw_video_allow_caption_capture),
      (\<lambda>p. video_allow_cloud_asr (policy_video p), from_file raw_video raw_video_allow_cloud_asr),
      (\<lambda>p. video_allow_cloud_vlm (policy_video p), from_file raw_video raw_video_allow_cloud_vlm),
      (\<lambda>p. video_require_user_confirmation_for_download (policy_video p), from_file raw_video raw_video_require_user_confirmation_for_download),
      (\<lambda>p. asr_vad_stable_timestamps (video_asr (policy_video p)), from_file raw_video (inner_key raw_video_asr raw_asr_vad_stable_timestamps)),
      (\<lambda>p. asr_diarization (video_asr (policy_video p)), from_file raw_video (inner_key raw_video_asr raw_asr_diarization)),
      (\<lambda>p. summary_enabled (video_summary (policy_video p)), from_file raw_video (inner_key raw_video_summary raw_summary_enabled)),
      (\<lambda>p. summary_allow_llm_summary (video_summary (policy_video p)), from_file raw_video (inner_key raw_video_summary raw_summary_allow_llm_summary)),
      (\<lambda>p. summary_allow_cloud_summary (video_summary (policy_video p)), from_file raw_video (inner_key raw_video_summary raw_summary_allow_cloud_summary)),
      (\<lambda>p. frames_ocr (video_frames (policy_video p)), from_file raw_video (inner_key raw_video_frames raw_frames_ocr)),
      (\<lambda>p. frames_vlm (video_frames (policy_video p)), from_file raw_video (inner_key raw_video_frames raw_frames_vlm)),
      (\<lambda>p. vlm_enabled (docs_vlm (policy_docs p)), vlm_key raw_vlm_enabled),
      (\<lambda>p. vlm_allow_cloud (docs_vlm (policy_docs p)), vlm_key raw_vlm_allow_cloud),
      (\<lambda>p. vlm_require_user_confirmation_for_cloud (docs_vlm (policy_docs p)),
       vlm_key raw_vlm_require_user_confirmation_for_cloud)]"

definition words :: "((effective_policy \<Rightarrow> string) \<times> (raw_policy_root \<Rightarrow> string option)) list" where
  "words =
     [(\<lambda>p. network_default (policy_network p), from_file raw_network raw_network_default),
      (\<lambda>p. workers_ocr (policy_workers p), from_file raw_workers raw_workers_ocr),
      (\<lambda>p. workers_embedding (policy_workers p), from_file raw_workers raw_workers_embedding),
      (\<lambda>p. workers_vlm (policy_workers p), from_file raw_workers raw_workers_vlm),
      (\<lambda>p. workers_web_fetch (policy_workers p), from_file raw_workers raw_workers_web_fetch),
      (\<lambda>p. learning_autonomous_max_risk (policy_learning p), from_file raw_learning raw_learning_autonomous_max_risk),
      (\<lambda>p. cognitive_max_autonomous_risk (policy_cognitive p), from_file raw_cognitive raw_cognitive_max_autonomous_risk),
      (\<lambda>p. acquire_browser_profile (video_acquire (policy_video p)), from_file raw_video (inner_key raw_video_acquire raw_acquire_browser_profile)),
      (\<lambda>p. acquire_external_downloader_bin (video_acquire (policy_video p)), from_file raw_video (inner_key raw_video_acquire raw_acquire_external_downloader_bin)),
      (\<lambda>p. acquire_po_token_provider (video_acquire (policy_video p)), from_file raw_video (inner_key raw_video_acquire raw_acquire_po_token_provider)),
      (\<lambda>p. asr_provider (video_asr (policy_video p)), from_file raw_video (inner_key raw_video_asr raw_asr_provider)),
      (\<lambda>p. asr_model (video_asr (policy_video p)), from_file raw_video (inner_key raw_video_asr raw_asr_model)),
      (\<lambda>p. asr_device (video_asr (policy_video p)), from_file raw_video (inner_key raw_video_asr raw_asr_device)),
      (\<lambda>p. asr_model_cache_dir (video_asr (policy_video p)), from_file raw_video (inner_key raw_video_asr raw_asr_model_cache_dir)),
      (\<lambda>p. asr_model_source (video_asr (policy_video p)), from_file raw_video (inner_key raw_video_asr raw_asr_model_source)),
      (\<lambda>p. summary_provider (video_summary (policy_video p)), from_file raw_video (inner_key raw_video_summary raw_summary_provider)),
      (\<lambda>p. frames_mode (video_frames (policy_video p)), from_file raw_video (inner_key raw_video_frames raw_frames_mode)),
      (\<lambda>p. vlm_mode (docs_vlm (policy_docs p)), vlm_key raw_vlm_mode),
      (\<lambda>p. vlm_provider (docs_vlm (policy_docs p)), vlm_key raw_vlm_provider),
      (\<lambda>p. compat_endpoint (vlm_openai_compat (docs_vlm (policy_docs p))),
       vlm_key (inner_key raw_vlm_openai_compat raw_compat_endpoint))]"

lemma over_cases: "over v x = (case v of Some y \<Rightarrow> y | None \<Rightarrow> x)"
  by (simp add: over_def)

lemma apply_some_over:
  assumes "\<And>r q. x (f r q) = over (k r) (x q)"
  shows "x (apply_some f r q) = over (Option.bind r k) (x q)"
  by (cases r) (simp_all add: apply_some_def assms over_def)

text \<open>What applying a file does to each section.\<close>

lemma apply_sections_simps:
  "policy_network (apply_sections raw p) = apply_some apply_network (raw_network raw) (policy_network p)"
  "policy_workers (apply_sections raw p) = apply_some apply_workers (raw_workers raw) (policy_workers p)"
  "policy_gametheory (apply_sections raw p) = apply_some apply_gametheory (raw_gametheory raw) (policy_gametheory p)"
  "policy_learning (apply_sections raw p) = apply_some apply_learning (raw_learning raw) (policy_learning p)"
  "policy_world_model (apply_sections raw p) = apply_some apply_world (raw_world_model raw) (policy_world_model p)"
  "policy_web (apply_sections raw p) = apply_some apply_web (raw_web raw) (policy_web p)"
  "policy_reasoning_quality (apply_sections raw p) = apply_some apply_quality (raw_reasoning_quality raw) (policy_reasoning_quality p)"
  "policy_cognitive (apply_sections raw p) = apply_some apply_cognitive (raw_cognitive raw) (policy_cognitive p)"
  "policy_video (apply_sections raw p) = apply_some apply_video (raw_video raw) (policy_video p)"
  "policy_docs (apply_sections raw p) = apply_some apply_docs (raw_docs raw) (policy_docs p)"
  by (simp_all add: apply_sections_def)

lemma apply_some_sections:
  "policy_network (apply_some apply_sections r p) = apply_some apply_network (Option.bind r raw_network) (policy_network p)"
  "policy_workers (apply_some apply_sections r p) = apply_some apply_workers (Option.bind r raw_workers) (policy_workers p)"
  "policy_gametheory (apply_some apply_sections r p) = apply_some apply_gametheory (Option.bind r raw_gametheory) (policy_gametheory p)"
  "policy_learning (apply_some apply_sections r p) = apply_some apply_learning (Option.bind r raw_learning) (policy_learning p)"
  "policy_world_model (apply_some apply_sections r p) = apply_some apply_world (Option.bind r raw_world_model) (policy_world_model p)"
  "policy_web (apply_some apply_sections r p) = apply_some apply_web (Option.bind r raw_web) (policy_web p)"
  "policy_reasoning_quality (apply_some apply_sections r p) = apply_some apply_quality (Option.bind r raw_reasoning_quality) (policy_reasoning_quality p)"
  "policy_cognitive (apply_some apply_sections r p) = apply_some apply_cognitive (Option.bind r raw_cognitive) (policy_cognitive p)"
  "policy_video (apply_some apply_sections r p) = apply_some apply_video (Option.bind r raw_video) (policy_video p)"
  "policy_docs (apply_some apply_sections r p) = apply_some apply_docs (Option.bind r raw_docs) (policy_docs p)"
  by (cases r; simp only: apply_some_def apply_sections_simps option.case Option.bind.simps)+

lemma section_applied:
  "policy_network (apply_raw raw p) = apply_some apply_network (inner_key root_policy raw_network raw) (policy_network p)"
  "policy_workers (apply_raw raw p) = apply_some apply_workers (inner_key root_policy raw_workers raw) (policy_workers p)"
  "policy_gametheory (apply_raw raw p) = apply_some apply_gametheory (inner_key root_policy raw_gametheory raw) (policy_gametheory p)"
  "policy_learning (apply_raw raw p) = apply_some apply_learning (inner_key root_policy raw_learning raw) (policy_learning p)"
  "policy_world_model (apply_raw raw p) = apply_some apply_world (inner_key root_policy raw_world_model raw) (policy_world_model p)"
  "policy_web (apply_raw raw p) = apply_some apply_web (inner_key root_policy raw_web raw) (policy_web p)"
  "policy_reasoning_quality (apply_raw raw p) = apply_some apply_quality (inner_key root_policy raw_reasoning_quality raw) (policy_reasoning_quality p)"
  "policy_cognitive (apply_raw raw p) = apply_some apply_cognitive (inner_key root_policy raw_cognitive raw) (policy_cognitive p)"
  "policy_video (apply_raw raw p) = apply_some apply_video (inner_key root_policy raw_video raw) (policy_video p)"
  "docs_vlm (policy_docs (apply_raw raw p)) = apply_some apply_vlm (root_vlm raw)
     (docs_vlm (apply_some apply_docs (inner_key root_policy raw_docs raw) (policy_docs p)))"
  by (simp_all add: apply_raw_def Let_def apply_some_sections inner_key_def)

lemma network_settings:
  "network_default (apply_some apply_network r q) = over (Option.bind r raw_network_default) (network_default q)"
  "network_allow_cloud_vlm (apply_some apply_network r q) = over (Option.bind r raw_network_allow_cloud_vlm) (network_allow_cloud_vlm q)"
  "network_allow_web_strategy_agents (apply_some apply_network r q) = over (Option.bind r raw_network_allow_web_strategy_agents) (network_allow_web_strategy_agents q)"
  "network_allow_mcp_server_exposure (apply_some apply_network r q) = over (Option.bind r raw_network_allow_mcp_server_exposure) (network_allow_mcp_server_exposure q)"
  by (rule apply_some_over, simp add: apply_network_def)+

lemma workers_settings:
  "workers_ocr (apply_some apply_workers r q) = over (Option.bind r raw_workers_ocr) (workers_ocr q)"
  "workers_embedding (apply_some apply_workers r q) = over (Option.bind r raw_workers_embedding) (workers_embedding q)"
  "workers_vlm (apply_some apply_workers r q) = over (Option.bind r raw_workers_vlm) (workers_vlm q)"
  "workers_web_fetch (apply_some apply_workers r q) = over (Option.bind r raw_workers_web_fetch) (workers_web_fetch q)"
  by (rule apply_some_over, simp add: apply_workers_def)+

lemma gametheory_settings:
  "gametheory_enable_tier11 (apply_some apply_gametheory r q) = over (Option.bind r raw_gametheory_enable_tier11) (gametheory_enable_tier11 q)"
  "gametheory_allow_web_tools (apply_some apply_gametheory r q) = over (Option.bind r raw_gametheory_allow_web_tools) (gametheory_allow_web_tools q)"
  by (rule apply_some_over, simp add: apply_gametheory_def)+

lemma learning_settings:
  "learning_auto_apply_low_risk (apply_some apply_learning r q) = over (Option.bind r raw_learning_auto_apply_low_risk) (learning_auto_apply_low_risk q)"
  "learning_autonomous_apply (apply_some apply_learning r q) = over (Option.bind r raw_learning_autonomous_apply) (learning_autonomous_apply q)"
  "learning_autonomous_max_risk (apply_some apply_learning r q) = over (Option.bind r raw_learning_autonomous_max_risk) (learning_autonomous_max_risk q)"
  "learning_require_approval_for_prompt_changes (apply_some apply_learning r q) = over (Option.bind r raw_learning_require_approval_for_prompt_changes) (learning_require_approval_for_prompt_changes q)"
  "learning_require_approval_for_blocking_gates (apply_some apply_learning r q) = over (Option.bind r raw_learning_require_approval_for_blocking_gates) (learning_require_approval_for_blocking_gates q)"
  "learning_require_approval_for_network_changes (apply_some apply_learning r q) = over (Option.bind r raw_learning_require_approval_for_network_changes) (learning_require_approval_for_network_changes q)"
  by (rule apply_some_over, simp add: apply_learning_def)+

lemma world_settings:
  "world_allow_third_party_embeddings (apply_some apply_world r q) = over (Option.bind r raw_world_allow_third_party_embeddings) (world_allow_third_party_embeddings q)"
  "world_allow_llm_labeler (apply_some apply_world r q) = over (Option.bind r raw_world_allow_llm_labeler) (world_allow_llm_labeler q)"
  "world_allow_behavior_changes (apply_some apply_world r q) = over (Option.bind r raw_world_allow_behavior_changes) (world_allow_behavior_changes q)"
  "world_allow_embedding_cache (apply_some apply_world r q) = over (Option.bind r raw_world_allow_embedding_cache) (world_allow_embedding_cache q)"
  "world_allow_world_model_raw_text_storage (apply_some apply_world r q) = over (Option.bind r raw_world_allow_world_model_raw_text_storage) (world_allow_world_model_raw_text_storage q)"
  "world_allow_eval_background_jobs (apply_some apply_world r q) = over (Option.bind r raw_world_allow_eval_background_jobs) (world_allow_eval_background_jobs q)"
  by (rule apply_some_over, simp add: apply_world_def)+

lemma web_settings:
  "web_allow_mutating_actions (apply_some apply_web r q) = over (Option.bind r raw_web_allow_mutating_actions) (web_allow_mutating_actions q)"
  "web_allow_file_uploads (apply_some apply_web r q) = over (Option.bind r raw_web_allow_file_uploads) (web_allow_file_uploads q)"
  "web_allow_pipeline_controls (apply_some apply_web r q) = over (Option.bind r raw_web_allow_pipeline_controls) (web_allow_pipeline_controls q)"
  "web_allow_model_training_actions (apply_some apply_web r q) = over (Option.bind r raw_web_allow_model_training_actions) (web_allow_model_training_actions q)"
  "web_allow_corpus_open_paths (apply_some apply_web r q) = over (Option.bind r raw_web_allow_corpus_open_paths) (web_allow_corpus_open_paths q)"
  "web_allow_document_deletion (apply_some apply_web r q) = over (Option.bind r raw_web_allow_document_deletion) (web_allow_document_deletion q)"
  "web_allow_web_terminal (apply_some apply_web r q) = over (Option.bind r raw_web_allow_web_terminal) (web_allow_web_terminal q)"
  by (rule apply_some_over, simp add: apply_web_def)+

lemma quality_settings:
  "quality_allow_llm_critic (apply_some apply_quality r q) = over (Option.bind r raw_quality_allow_llm_critic) (quality_allow_llm_critic q)"
  "quality_allow_critic_cloud_data_flow (apply_some apply_quality r q) = over (Option.bind r raw_quality_allow_critic_cloud_data_flow) (quality_allow_critic_cloud_data_flow q)"
  "quality_allow_third_party_critic (apply_some apply_quality r q) = over (Option.bind r raw_quality_allow_third_party_critic) (quality_allow_third_party_critic q)"
  "quality_allow_raw_text_storage (apply_some apply_quality r q) = over (Option.bind r raw_quality_allow_raw_text_storage) (quality_allow_raw_text_storage q)"
  "quality_allow_behavior_proposal_generation (apply_some apply_quality r q) = over (Option.bind r raw_quality_allow_behavior_proposal_generation) (quality_allow_behavior_proposal_generation q)"
  "quality_allow_session_start_injection (apply_some apply_quality r q) = over (Option.bind r raw_quality_allow_session_start_injection) (quality_allow_session_start_injection q)"
  "quality_allow_trust_updates_during_shadow (apply_some apply_quality r q) = over (Option.bind r raw_quality_allow_trust_updates_during_shadow) (quality_allow_trust_updates_during_shadow q)"
  "quality_auto_migrate_reasoning_quality (apply_some apply_quality r q) = over (Option.bind r raw_quality_auto_migrate_reasoning_quality) (quality_auto_migrate_reasoning_quality q)"
  by (rule apply_some_over, simp add: apply_quality_def)+

lemma cognitive_settings:
  "cognitive_enabled (apply_some apply_cognitive r q) = over (Option.bind r raw_cognitive_enabled) (cognitive_enabled q)"
  "cognitive_allow_autonomous_tick (apply_some apply_cognitive r q) = over (Option.bind r raw_cognitive_allow_autonomous_tick) (cognitive_allow_autonomous_tick q)"
  "cognitive_allow_background_daemon (apply_some apply_cognitive r q) = over (Option.bind r raw_cognitive_allow_background_daemon) (cognitive_allow_background_daemon q)"
  "cognitive_allow_tool_suppression (apply_some apply_cognitive r q) = over (Option.bind r raw_cognitive_allow_tool_suppression) (cognitive_allow_tool_suppression q)"
  "cognitive_allow_jepa_action_scoring (apply_some apply_cognitive r q) = over (Option.bind r raw_cognitive_allow_jepa_action_scoring) (cognitive_allow_jepa_action_scoring q)"
  "cognitive_allow_self_model_updates (apply_some apply_cognitive r q) = over (Option.bind r raw_cognitive_allow_self_model_updates) (cognitive_allow_self_model_updates q)"
  "cognitive_allow_autonomous_low_risk_apply (apply_some apply_cognitive r q) = over (Option.bind r raw_cognitive_allow_autonomous_low_risk_apply) (cognitive_allow_autonomous_low_risk_apply q)"
  "cognitive_max_autonomous_risk (apply_some apply_cognitive r q) = over (Option.bind r raw_cognitive_max_autonomous_risk) (cognitive_max_autonomous_risk q)"
  "cognitive_require_human_for_prompt_changes (apply_some apply_cognitive r q) = over (Option.bind r raw_cognitive_require_human_for_prompt_changes) (cognitive_require_human_for_prompt_changes q)"
  "cognitive_require_human_for_policy_changes (apply_some apply_cognitive r q) = over (Option.bind r raw_cognitive_require_human_for_policy_changes) (cognitive_require_human_for_policy_changes q)"
  "cognitive_require_human_for_network_changes (apply_some apply_cognitive r q) = over (Option.bind r raw_cognitive_require_human_for_network_changes) (cognitive_require_human_for_network_changes q)"
  "cognitive_require_human_for_blocking_gate_changes (apply_some apply_cognitive r q) = over (Option.bind r raw_cognitive_require_human_for_blocking_gate_changes) (cognitive_require_human_for_blocking_gate_changes q)"
  "cognitive_store_raw_turn_text (apply_some apply_cognitive r q) = over (Option.bind r raw_cognitive_store_raw_turn_text) (cognitive_store_raw_turn_text q)"
  by (rule apply_some_over, simp add: apply_cognitive_def)+

lemma video_settings:
  "video_enabled (apply_some apply_video r q) = over (Option.bind r raw_video_enabled) (video_enabled q)"
  "video_allow_youtube (apply_some apply_video r q) = over (Option.bind r raw_video_allow_youtube) (video_allow_youtube q)"
  "video_allow_direct_urls (apply_some apply_video r q) = over (Option.bind r raw_video_allow_direct_urls) (video_allow_direct_urls q)"
  "video_allow_external_downloaders (apply_some apply_video r q) = over (Option.bind r raw_video_allow_external_downloaders) (video_allow_external_downloaders q)"
  "video_allow_browser_automation (apply_some apply_video r q) = over (Option.bind r raw_video_allow_browser_automation) (video_allow_browser_automation q)"
  "video_allow_caption_capture (apply_some apply_video r q) = over (Option.bind r raw_video_allow_caption_capture) (video_allow_caption_capture q)"
  "video_allow_cloud_asr (apply_some apply_video r q) = over (Option.bind r raw_video_allow_cloud_asr) (video_allow_cloud_asr q)"
  "video_allow_cloud_vlm (apply_some apply_video r q) = over (Option.bind r raw_video_allow_cloud_vlm) (video_allow_cloud_vlm q)"
  "video_require_user_confirmation_for_download (apply_some apply_video r q) = over (Option.bind r raw_video_require_user_confirmation_for_download) (video_require_user_confirmation_for_download q)"
  by (rule apply_some_over, simp add: apply_video_def)+

lemma acquire_settings:
  "acquire_browser_profile (apply_some apply_acquire r q) = over (Option.bind r raw_acquire_browser_profile) (acquire_browser_profile q)"
  "acquire_external_downloader_bin (apply_some apply_acquire r q) = over (Option.bind r raw_acquire_external_downloader_bin) (acquire_external_downloader_bin q)"
  "acquire_po_token_provider (apply_some apply_acquire r q) = over (Option.bind r raw_acquire_po_token_provider) (acquire_po_token_provider q)"
  by (rule apply_some_over, simp add: apply_acquire_def)+

lemma asr_settings:
  "asr_provider (apply_some apply_asr r q) = over (Option.bind r raw_asr_provider) (asr_provider q)"
  "asr_model (apply_some apply_asr r q) = over (Option.bind r raw_asr_model) (asr_model q)"
  "asr_device (apply_some apply_asr r q) = over (Option.bind r raw_asr_device) (asr_device q)"
  "asr_vad_stable_timestamps (apply_some apply_asr r q) = over (Option.bind r raw_asr_vad_stable_timestamps) (asr_vad_stable_timestamps q)"
  "asr_model_cache_dir (apply_some apply_asr r q) = over (Option.bind r raw_asr_model_cache_dir) (asr_model_cache_dir q)"
  "asr_model_source (apply_some apply_asr r q) = over (Option.bind r raw_asr_model_source) (asr_model_source q)"
  "asr_diarization (apply_some apply_asr r q) = over (Option.bind r raw_asr_diarization) (asr_diarization q)"
  by (rule apply_some_over, simp add: apply_asr_def)+

lemma summary_settings:
  "summary_enabled (apply_some apply_summary r q) = over (Option.bind r raw_summary_enabled) (summary_enabled q)"
  "summary_allow_llm_summary (apply_some apply_summary r q) = over (Option.bind r raw_summary_allow_llm_summary) (summary_allow_llm_summary q)"
  "summary_allow_cloud_summary (apply_some apply_summary r q) = over (Option.bind r raw_summary_allow_cloud_summary) (summary_allow_cloud_summary q)"
  "summary_provider (apply_some apply_summary r q) = over (Option.bind r raw_summary_provider) (summary_provider q)"
  by (rule apply_some_over, simp add: apply_summary_def)+

lemma frames_settings:
  "frames_mode (apply_some apply_frames r q) = over (Option.bind r raw_frames_mode) (frames_mode q)"
  "frames_ocr (apply_some apply_frames r q) = over (Option.bind r raw_frames_ocr) (frames_ocr q)"
  "frames_vlm (apply_some apply_frames r q) = over (Option.bind r raw_frames_vlm) (frames_vlm q)"
  by (rule apply_some_over, simp add: apply_frames_def)+

lemma vlm_settings:
  "vlm_enabled (apply_some apply_vlm r q) = over (Option.bind r raw_vlm_enabled) (vlm_enabled q)"
  "vlm_mode (apply_some apply_vlm r q) = over (Option.bind r raw_vlm_mode) (vlm_mode q)"
  "vlm_provider (apply_some apply_vlm r q) = over (Option.bind r raw_vlm_provider) (vlm_provider q)"
  "vlm_allow_cloud (apply_some apply_vlm r q) = over (Option.bind r raw_vlm_allow_cloud) (vlm_allow_cloud q)"
  "vlm_require_user_confirmation_for_cloud (apply_some apply_vlm r q) = over (Option.bind r raw_vlm_require_user_confirmation_for_cloud) (vlm_require_user_confirmation_for_cloud q)"
  by (rule apply_some_over, simp add: apply_vlm_def)+

lemma compat_settings:
  "compat_endpoint (apply_some apply_compat r q) = over (Option.bind r raw_compat_endpoint) (compat_endpoint q)"
  by (rule apply_some_over, simp add: apply_compat_def)+

lemma video_sections:
  "video_acquire (apply_some apply_video r q) = apply_some apply_acquire (Option.bind r raw_video_acquire) (video_acquire q)"
  "video_asr (apply_some apply_video r q) = apply_some apply_asr (Option.bind r raw_video_asr) (video_asr q)"
  "video_summary (apply_some apply_video r q) = apply_some apply_summary (Option.bind r raw_video_summary) (video_summary q)"
  "video_frames (apply_some apply_video r q) = apply_some apply_frames (Option.bind r raw_video_frames) (video_frames q)"
  by (cases r; simp add: apply_some_def apply_video_def)+

lemma docs_sections:
  "docs_vlm (apply_some apply_docs r q) = apply_some apply_vlm (Option.bind r raw_docs_vlm) (docs_vlm q)"
  "vlm_openai_compat (apply_some apply_vlm v w) = apply_some apply_compat (Option.bind v raw_vlm_openai_compat) (vlm_openai_compat w)"
  by (cases r; simp add: apply_some_def apply_docs_def) (cases v; simp add: apply_some_def apply_vlm_def)

lemma inner_key_fun: "inner_key f g = (\<lambda>x. Option.bind (f x) g)"
  by (simp add: inner_key_def fun_eq_iff)

lemma over_over: "over a (over b x) = over (or_else a b) x"
  by (simp add: over_def or_else_def split: option.splits)

lemmas settings_applied = section_applied docs_sections video_sections network_settings workers_settings gametheory_settings learning_settings world_settings web_settings quality_settings cognitive_settings video_settings acquire_settings asr_settings summary_settings frames_settings vlm_settings compat_settings
  over_over inner_key_fun from_file_def vlm_key_def Option.bind_assoc

lemma switches_are_settings: "list_all (\<lambda>(get, key). policy_setting get key) switches"
  by (simp add: switches_def policy_setting_def settings_applied)

lemma words_are_settings: "list_all (\<lambda>(get, key). policy_setting get key) words"
  by (simp add: words_def policy_setting_def settings_applied)

text \<open>The switch behind which documents may leave, and the risk that learning may take by itself.\<close>

interpretation cloud_switch: policy_setting "\<lambda>p. network_allow_cloud_vlm (policy_network p)"
  "from_file raw_network raw_network_allow_cloud_vlm"
  by unfold_locales (simp add: settings_applied)

interpretation risk_ceiling: policy_setting "\<lambda>p. learning_autonomous_max_risk (policy_learning p)"
  "from_file raw_learning raw_learning_autonomous_max_risk"
  by unfold_locales (simp add: settings_applied)

section \<open>Loading\<close>

definition source_error :: "policy_files \<Rightarrow> (string \<Rightarrow> string + raw_policy_root) \<Rightarrow> policy_source \<Rightarrow> policy_error option" where
  "source_error files toml source =
     (case files (source_path source) of
        None \<Rightarrow> None
      | Some (Inl message) \<Rightarrow> Some (PolicyIo (source_path source) message)
      | Some (Inr text) \<Rightarrow>
          (case toml text of Inl message \<Rightarrow> Some (PolicyParse (source_path source) message) | Inr _ \<Rightarrow> None))"

fun first_error :: "policy_files \<Rightarrow> (string \<Rightarrow> string + raw_policy_root) \<Rightarrow> policy_source list \<Rightarrow> policy_error option" where
  "first_error files toml [] = None"
| "first_error files toml (s # ss) = or_else (source_error files toml s) (first_error files toml ss)"

definition source_settings ::
    "policy_files \<Rightarrow> (string \<Rightarrow> string + raw_policy_root) \<Rightarrow> policy_source \<Rightarrow> raw_policy_root option" where
  "source_settings files toml source =
     (case files (source_path source) of
        Some (Inr text) \<Rightarrow> (case toml text of Inr raw \<Rightarrow> Some raw | Inl _ \<Rightarrow> None)
      | _ \<Rightarrow> None)"

definition settings_in_order ::
    "policy_files \<Rightarrow> (string \<Rightarrow> string + raw_policy_root) \<Rightarrow> policy_source list \<Rightarrow> raw_policy_root list" where
  "settings_in_order files toml sources = List.map_filter (source_settings files toml) sources"

lemma load_each_spec:
  "load_each files toml sources l =
     (case first_error files toml sources of
        Some e \<Rightarrow> Inl e
      | None \<Rightarrow>
          Inr (l\<lparr>load_policy := foldl (\<lambda>p raw. apply_raw raw p) (load_policy l) (settings_in_order files toml sources),
                load_loaded := load_loaded l @ map source_path (filter (\<lambda>s. files (source_path s) \<noteq> None) sources),
                load_missing := load_missing l @ map source_path (filter (\<lambda>s. files (source_path s) = None) sources)\<rparr>))"
  by (induction sources arbitrary: l)
    (auto simp: source_error_def source_settings_def settings_in_order_def or_else_def List.map_filter_simps
      split: option.splits sum.splits)

lemma setting_loaded:
  assumes "policy_setting get key"
  shows "get (foldl (\<lambda>p raw. apply_raw raw p) p raws) = last_said (get p) (map key raws)"
  unfolding policy_setting.layered [OF assms] by (rule fold_over)


section \<open>Defaults\<close>

lemmas policy_defaults = default_effective_policy_def default_network_policy_def default_workers_policy_def
  default_gametheory_policy_def default_learning_policy_def default_world_policy_def default_web_policy_def
  default_quality_policy_def default_video_policy_def default_docs_policy_def default_vlm_policy_def

lemmas policy_decisions = docs_vlm_decision_def docs_vlm_mode_decision_def gametheory_tier11_decision_def
  gametheory_web_tools_decision_def learning_auto_apply_decision_def mcp_exposure_decision_def
  world_model_third_party_embeddings_decision_def world_model_llm_labeler_decision_def
  world_model_behavior_change_decision_def reasoning_quality_llm_critic_decision_def
  reasoning_quality_raw_text_decision_def video_acquisition_decision_def video_asr_decision_def
  video_vlm_decision_def video_summary_decision_def when_ingested_def video_ingest_decision_def gate_def Let_def

text \<open>
  Without a policy file everything is denied. When no source exists, loading succeeds, and the
  loaded policy denies every document and video description, every acquisition, transcription and
  summary of a video, web tools, the exposed server, third-party embeddings, model labels, behaviour
  changes, the critic, stored raw text, and every change that would apply itself.
\<close>

theorem no_policy_file_denies:
  "(case load_policy_from_sources (\<lambda>_. None) toml sources of
      Inl e \<Rightarrow> False
    | Inr loaded \<Rightarrow>
        (case load_policy loaded of p \<Rightarrow>
          \<not> list_ex decision_allowed
            [docs_vlm_decision p, docs_vlm_mode_decision p, gametheory_tier11_decision p, gametheory_web_tools_decision p,
             learning_auto_apply_decision p kind risk, mcp_exposure_decision p, world_model_third_party_embeddings_decision p,
             world_model_llm_labeler_decision p, world_model_behavior_change_decision p,
             reasoning_quality_llm_critic_decision p flow third_party, reasoning_quality_raw_text_decision p,
             video_acquisition_decision p acquisition, video_asr_decision p, video_vlm_decision p, video_summary_decision p]))"
proof -
  have "first_error (\<lambda>_. None) toml sources = None" by (induction sources) (simp_all add: source_error_def or_else_def)
  moreover have "settings_in_order (\<lambda>_. None) toml sources = []"
    by (induction sources) (simp_all add: settings_in_order_def source_settings_def List.map_filter_simps)
  ultimately show ?thesis
    by (simp add: load_policy_from_sources_def load_each_spec policy_decisions policy_defaults)
qed

section \<open>Documents and the cloud\<close>

text \<open>Whether describing a document sends it to another machine.\<close>

definition sends_documents :: "effective_policy \<Rightarrow> bool" where
  "sends_documents p \<longleftrightarrow>
     (case docs_vlm (policy_docs p) of vlm \<Rightarrow>
        vlm_provider vlm \<in> {''gemini'', ''anthropic''}
        \<or> vlm_provider vlm = ''openai-compat'' \<and> \<not> endpoint_looks_local (compat_endpoint (vlm_openai_compat vlm)))"

definition cloud_switches :: "effective_policy \<Rightarrow> bool" where
  "cloud_switches p \<longleftrightarrow> cloud_worker_allowed (workers_vlm (policy_workers p))
     \<and> vlm_allow_cloud (docs_vlm (policy_docs p)) \<and> network_allow_cloud_vlm (policy_network p)"

lemma allow_cloud_vlm_iff: "decision_allowed (allow_cloud_vlm p) \<longleftrightarrow> cloud_switches p"
  by (simp add: allow_cloud_vlm_def cloud_switches_def)

lemma allow_local_vlm_iff: "decision_allowed (allow_local_vlm w) \<longleftrightarrow> local_worker w"
  by (simp add: allow_local_vlm_def)

lemma docs_decision_cases:
  assumes "decision_allowed (docs_vlm_decision p)" and "sends_documents p"
  shows "cloud_switches p \<or>
    vlm_provider (docs_vlm (policy_docs p)) = ''openai-compat'' \<and> vlm_mode (docs_vlm (policy_docs p)) = ''local''
      \<and> local_worker (workers_vlm (policy_workers p))"
  using assms
  by (auto simp: docs_vlm_decision_def sends_documents_def Let_def allow_provider_mode_def unsupported_mode_def
      allow_openai_compat_vlm_def allow_cloud_vlm_iff allow_local_vlm_iff split: if_splits)


text \<open>A policy that calls a remote endpoint local, with every cloud switch off.\<close>

definition remote_but_local :: effective_policy where
  "remote_but_local = default_effective_policy
     \<lparr>policy_workers := default_workers_policy\<lparr>workers_vlm := ''allow-local''\<rparr>,
      policy_docs := default_docs_policy
        \<lparr>docs_vlm := default_vlm_policy
           \<lparr>vlm_enabled := True, vlm_mode := ''local'', vlm_provider := ''openai-compat'',
            vlm_openai_compat := default_compat_policy\<lparr>compat_endpoint := ''https://api.openai.com/v1''\<rparr>\<rparr>\<rparr>\<rparr>"

lemma remote_endpoint_called_local:
  "sends_documents remote_but_local" "decision_allowed (docs_vlm_decision remote_but_local)" "\<not> cloud_switches remote_but_local"
  by (simp_all add: remote_but_local_def sends_documents_def endpoint_looks_local_def starts_with_def trim_def trim_start_def
      trim_end_def is_ws_def code_def to_ascii_lowercase_def ascii_lower_char_def is_ascii_upper_def
      docs_vlm_decision_def allow_openai_compat_vlm_def allow_local_vlm_def local_worker_def Let_def
      cloud_switches_def cloud_worker_allowed_def policy_defaults)

definition cloud_policy :: effective_policy where
  "cloud_policy = default_effective_policy
     \<lparr>policy_network := default_network_policy\<lparr>network_allow_cloud_vlm := True\<rparr>,
      policy_workers := default_workers_policy\<lparr>workers_vlm := ''allow-cloud''\<rparr>,
      policy_video := default_video_policy\<lparr>video_enabled := True, video_allow_cloud_vlm := True\<rparr>,
      policy_docs := default_docs_policy
        \<lparr>docs_vlm := default_vlm_policy
           \<lparr>vlm_enabled := True, vlm_mode := ''cloud'', vlm_provider := ''gemini'', vlm_allow_cloud := True\<rparr>\<rparr>\<rparr>"

lemma cloud_policy_allows:
  "sends_documents cloud_policy" "decision_allowed (docs_vlm_decision cloud_policy)" "decision_allowed (video_vlm_decision cloud_policy)"
  by (simp_all add: cloud_policy_def sends_documents_def docs_vlm_decision_def allow_provider_mode_def allow_cloud_vlm_def
      cloud_worker_allowed_def video_vlm_decision_def when_ingested_def video_ingest_decision_def gate_def Let_def policy_defaults
      default_frames_policy_def)


end
