(* ===== verification/Learning_Store.thy ===== *)
theory Learning_Store imports Policy_Decision "HOL-Library.AList" begin

text \<open>
  The records of governed learning: \<^verbatim>\<open>crates/archon-learning/src/models.rs\<close>, \<^verbatim>\<open>store.rs\<close>,
  \<^verbatim>\<open>errors.rs\<close>, \<^verbatim>\<open>events.rs\<close> and the loading of \<^verbatim>\<open>manifest.rs\<close>. The relations of the database are
  association lists whose rows hold the columns as they are written; a relation is read in the order
  of its key. Writes succeed. Instants are nanoseconds. A JSON object is its fields in the order of
  their keys, since no comparison sees another order.
\<close>

section \<open>Kinds, risks and states\<close>

datatype risk_level = LowRisk | MediumRisk | HighRisk | CriticalRisk

instantiation risk_level :: linorder
begin

primrec risk_order :: "risk_level \<Rightarrow> nat" where
  "risk_order LowRisk = 0"
| "risk_order MediumRisk = 1"
| "risk_order HighRisk = 2"
| "risk_order CriticalRisk = 3"

definition less_eq_risk_level :: "risk_level \<Rightarrow> risk_level \<Rightarrow> bool" where
  "a \<le> b \<longleftrightarrow> risk_order a \<le> risk_order b"

definition less_risk_level :: "risk_level \<Rightarrow> risk_level \<Rightarrow> bool" where
  "a < b \<longleftrightarrow> risk_order a < risk_order b"

instance
proof
  fix a b :: risk_level
  assume "a \<le> b" and "b \<le> a"
  then show "a = b" by (cases a; cases b) (simp_all add: less_eq_risk_level_def)
qed (auto simp: less_eq_risk_level_def less_risk_level_def)

end

primrec risk_text :: "risk_level \<Rightarrow> string" where
  "risk_text LowRisk = ''Low''"
| "risk_text MediumRisk = ''Medium''"
| "risk_text HighRisk = ''High''"
| "risk_text CriticalRisk = ''Critical''"

definition risk_from :: "string \<Rightarrow> risk_level option" where
  "risk_from s =
     (if s = ''Low'' then Some LowRisk else if s = ''Medium'' then Some MediumRisk
      else if s = ''High'' then Some HighRisk else if s = ''Critical'' then Some CriticalRisk else None)"

definition is_high_risk :: "risk_level \<Rightarrow> bool" where
  "is_high_risk r \<longleftrightarrow> r = HighRisk \<or> r = CriticalRisk"

datatype manifest_kind =
    RetrievalProfile | SourceQualityProfile | AgentRoutingProfile | ConstellationThresholds
  | PipelineGates | BehaviouralRuleAdjustment | PromptProfile | PolicyOverride

primrec manifest_text :: "manifest_kind \<Rightarrow> string" where
  "manifest_text RetrievalProfile = ''RetrievalProfile''"
| "manifest_text SourceQualityProfile = ''SourceQualityProfile''"
| "manifest_text AgentRoutingProfile = ''AgentRoutingProfile''"
| "manifest_text ConstellationThresholds = ''ConstellationThresholds''"
| "manifest_text PipelineGates = ''PipelineGates''"
| "manifest_text BehaviouralRuleAdjustment = ''BehaviouralRuleAdjustment''"
| "manifest_text PromptProfile = ''PromptProfile''"
| "manifest_text PolicyOverride = ''PolicyOverride''"

definition manifest_from :: "string \<Rightarrow> manifest_kind option" where
  "manifest_from s =
     find (\<lambda>k. manifest_text k = s)
       [RetrievalProfile, SourceQualityProfile, AgentRoutingProfile, ConstellationThresholds,
        PipelineGates, BehaviouralRuleAdjustment, PromptProfile, PolicyOverride]"

definition default_risk_level :: "manifest_kind \<Rightarrow> risk_level" where
  "default_risk_level k =
     (if k \<in> {RetrievalProfile, SourceQualityProfile, AgentRoutingProfile, ConstellationThresholds} then LowRisk
      else if k \<in> {PipelineGates, BehaviouralRuleAdjustment, PromptProfile} then HighRisk
      else CriticalRisk)"

datatype learned_decision = AutoApplied | PendingApproval | DecisionDenied | Approved | Rejected

primrec decision_text :: "learned_decision \<Rightarrow> string" where
  "decision_text AutoApplied = ''AutoApplied''"
| "decision_text PendingApproval = ''PendingApproval''"
| "decision_text DecisionDenied = ''Denied''"
| "decision_text Approved = ''Approved''"
| "decision_text Rejected = ''Rejected''"

definition decision_from :: "string \<Rightarrow> learned_decision option" where
  "decision_from s = find (\<lambda>d. decision_text d = s) [AutoApplied, PendingApproval, DecisionDenied, Approved, Rejected]"

datatype proposal_status = ProposalPending | ProposalApplied | ProposalDenied | ProposalRolledBack

primrec proposal_status_text :: "proposal_status \<Rightarrow> string" where
  "proposal_status_text ProposalPending = ''Pending''"
| "proposal_status_text ProposalApplied = ''Applied''"
| "proposal_status_text ProposalDenied = ''Denied''"
| "proposal_status_text ProposalRolledBack = ''RolledBack''"

definition proposal_status_from :: "string \<Rightarrow> proposal_status option" where
  "proposal_status_from s =
     find (\<lambda>d. proposal_status_text d = s) [ProposalPending, ProposalApplied, ProposalDenied, ProposalRolledBack]"

lemma risk_from_text [simp]: "risk_from (risk_text r) = Some r"
  by (cases r) (simp_all add: risk_from_def)

lemma manifest_from_text [simp]: "manifest_from (manifest_text k) = Some k"
  by (cases k) (simp_all add: manifest_from_def)

lemma decision_from_text [simp]: "decision_from (decision_text d) = Some d"
  by (cases d) (simp_all add: decision_from_def)

lemma proposal_status_from_text [simp]: "proposal_status_from (proposal_status_text s) = Some s"
  by (cases s) (simp_all add: proposal_status_from_def)

lemma manifest_text_inject [simp]: "manifest_text a = manifest_text b \<longleftrightarrow> a = b"
  by (metis manifest_from_text option.inject)

section \<open>Proposals and versions\<close>

datatype json =
    JsonNull
  | JsonBool bool
  | JsonNumber rat
  | JsonText string
  | JsonArray "json list"
  | JsonObject "(string \<times> json) list"

record proposal =
  proposal_id :: string
  proposal_workspace :: string
  proposal_kind :: manifest_kind
  proposal_current :: string
  proposal_proposed :: string
  proposal_diff :: string
  proposal_evidence :: "string list"
  proposal_risk :: risk_level
  proposal_decision :: learned_decision
  proposal_status :: proposal_status
  proposal_created :: nat

record proposal_row =
  prow_workspace :: string
  prow_kind :: string
  prow_current :: string
  prow_proposed :: string
  prow_diff :: string
  prow_evidence :: "string list"
  prow_risk :: string
  prow_decision :: string
  prow_status :: string
  prow_created :: nat

definition proposal_columns :: "proposal \<Rightarrow> proposal_row" where
  "proposal_columns p =
     \<lparr>prow_workspace = proposal_workspace p, prow_kind = manifest_text (proposal_kind p),
      prow_current = proposal_current p, prow_proposed = proposal_proposed p, prow_diff = proposal_diff p,
      prow_evidence = proposal_evidence p, prow_risk = risk_text (proposal_risk p),
      prow_decision = decision_text (proposal_decision p), prow_status = proposal_status_text (proposal_status p),
      prow_created = proposal_created p\<rparr>"

definition or_default :: "'a \<Rightarrow> 'a option \<Rightarrow> 'a" where
  "or_default d v = (case v of Some x \<Rightarrow> x | None \<Rightarrow> d)"

definition row_to_proposal :: "string \<Rightarrow> proposal_row \<Rightarrow> proposal" where
  "row_to_proposal i r =
     \<lparr>proposal_id = i, proposal_workspace = prow_workspace r,
      proposal_kind = or_default RetrievalProfile (manifest_from (prow_kind r)),
      proposal_current = prow_current r, proposal_proposed = prow_proposed r, proposal_diff = prow_diff r,
      proposal_evidence = prow_evidence r, proposal_risk = or_default LowRisk (risk_from (prow_risk r)),
      proposal_decision = or_default PendingApproval (decision_from (prow_decision r)),
      proposal_status = or_default ProposalPending (proposal_status_from (prow_status r)),
      proposal_created = prow_created r\<rparr>"

record manifest_version =
  version_id :: string
  version_kind :: manifest_kind
  version_number :: int
  version_content :: json
  version_diff :: string
  version_parent :: "string option"
  version_proposal :: "string option"
  version_rollback :: bool
  version_created :: nat

record version_row =
  vrow_kind :: string
  vrow_number :: int
  vrow_content :: json
  vrow_diff :: string
  vrow_parent :: string
  vrow_proposal :: string
  vrow_rollback :: bool
  vrow_created :: nat

definition version_columns :: "manifest_version \<Rightarrow> version_row" where
  "version_columns v =
     \<lparr>vrow_kind = manifest_text (version_kind v), vrow_number = version_number v, vrow_content = version_content v,
      vrow_diff = version_diff v, vrow_parent = or_default [] (version_parent v),
      vrow_proposal = or_default [] (version_proposal v), vrow_rollback = version_rollback v,
      vrow_created = version_created v\<rparr>"

definition unless_empty :: "string \<Rightarrow> string option" where
  "unless_empty s = (if s = [] then None else Some s)"

definition row_to_version :: "string \<Rightarrow> version_row \<Rightarrow> manifest_version" where
  "row_to_version i r =
     \<lparr>version_id = i, version_kind = or_default RetrievalProfile (manifest_from (vrow_kind r)),
      version_number = vrow_number r, version_content = vrow_content r, version_diff = vrow_diff r,
      version_parent = unless_empty (vrow_parent r), version_proposal = unless_empty (vrow_proposal r),
      version_rollback = vrow_rollback r, version_created = vrow_created r\<rparr>"

text \<open>What is written is read back, an absent reference being the empty text.\<close>

lemma proposal_reads_back [simp]: "row_to_proposal (proposal_id p) (proposal_columns p) = p"
  by (simp add: row_to_proposal_def proposal_columns_def or_default_def)

lemma version_reads_back:
  "version_parent v \<noteq> Some [] \<Longrightarrow> version_proposal v \<noteq> Some [] \<Longrightarrow> row_to_version (version_id v) (version_columns v) = v"
  by (cases "version_parent v"; cases "version_proposal v"; cases v)
    (simp_all add: row_to_version_def version_columns_def or_default_def unless_empty_def)

section \<open>Events, outcomes and approvals\<close>

datatype learning_event_type =
    RetrievalUsed | RetrievalRejected | SourceConfirmed | SourceContradicted | AgentRouted | AgentOutputUsed
  | AgentOutputRejected | GatePassed | GateFailed | UserAccepted | UserCorrected | TestPassed | TestFailed
  | StrategicRecommendationAccepted | StrategicRecommendationRejected | CompletionClaimVerified
  | CompletionClaimDowngraded | FalseCompletionDetected | ManifestApplied | ManifestDenied | ManifestRolledBack
  | AgentKnowledgeClaim | ReasoningQuality | TopologyOutcome

primrec event_type_text :: "learning_event_type \<Rightarrow> string" where
  "event_type_text RetrievalUsed = ''RetrievalUsed''"
| "event_type_text RetrievalRejected = ''RetrievalRejected''"
| "event_type_text SourceConfirmed = ''SourceConfirmed''"
| "event_type_text SourceContradicted = ''SourceContradicted''"
| "event_type_text AgentRouted = ''AgentRouted''"
| "event_type_text AgentOutputUsed = ''AgentOutputUsed''"
| "event_type_text AgentOutputRejected = ''AgentOutputRejected''"
| "event_type_text GatePassed = ''GatePassed''"
| "event_type_text GateFailed = ''GateFailed''"
| "event_type_text UserAccepted = ''UserAccepted''"
| "event_type_text UserCorrected = ''UserCorrected''"
| "event_type_text TestPassed = ''TestPassed''"
| "event_type_text TestFailed = ''TestFailed''"
| "event_type_text StrategicRecommendationAccepted = ''StrategicRecommendationAccepted''"
| "event_type_text StrategicRecommendationRejected = ''StrategicRecommendationRejected''"
| "event_type_text CompletionClaimVerified = ''CompletionClaimVerified''"
| "event_type_text CompletionClaimDowngraded = ''CompletionClaimDowngraded''"
| "event_type_text FalseCompletionDetected = ''FalseCompletionDetected''"
| "event_type_text ManifestApplied = ''ManifestApplied''"
| "event_type_text ManifestDenied = ''ManifestDenied''"
| "event_type_text ManifestRolledBack = ''ManifestRolledBack''"
| "event_type_text AgentKnowledgeClaim = ''AgentKnowledgeClaim''"
| "event_type_text ReasoningQuality = ''ReasoningQuality''"
| "event_type_text TopologyOutcome = ''TopologyOutcome''"

definition event_type_from :: "string \<Rightarrow> learning_event_type option" where
  "event_type_from s = find (\<lambda>e. event_type_text e = s)
     [RetrievalUsed, RetrievalRejected, SourceConfirmed, SourceContradicted, AgentRouted,
      AgentOutputUsed, AgentOutputRejected, GatePassed, GateFailed, UserAccepted, UserCorrected,
      TestPassed, TestFailed, StrategicRecommendationAccepted, StrategicRecommendationRejected,
      CompletionClaimVerified, CompletionClaimDowngraded, FalseCompletionDetected, ManifestApplied,
      ManifestDenied, ManifestRolledBack, AgentKnowledgeClaim, ReasoningQuality, TopologyOutcome]"

lemma event_type_from_text [simp]: "event_type_from (event_type_text e) = Some e"
  by (cases e) (simp_all add: event_type_from_def)

record learning_event =
  event_id :: string
  event_workspace :: string
  event_type :: learning_event_type
  event_source :: string
  event_outcome :: "string option"
  event_signal :: json
  event_confidence :: rat
  event_provenance :: string
  event_created_at :: nat

record policy_outcome =
  outcome_rule :: string
  outcome_evaluated :: json
  outcome_decision :: learned_decision
  outcome_reason :: string

record behaviour_approval =
  approval_id :: string
  approval_proposal :: string
  approval_approver :: string
  approval_approved :: bool
  approval_comment :: string
  approval_created :: nat

record learning_db =
  db_proposals :: "(string \<times> proposal_row) list"
  db_versions :: "(string \<times> version_row) list"
  db_decisions :: "(string \<times> (string \<times> policy_outcome)) list"
  db_approvals :: "(string \<times> behaviour_approval) list"
  db_learning :: "(string \<times> learning_event) list"

definition empty_learning :: learning_db where
  "empty_learning = \<lparr>db_proposals = [], db_versions = [], db_decisions = [], db_approvals = [], db_learning = []\<rparr>"

datatype learning_error =
    ProposalNotFound string
  | ConcurrentModification string string
  | RollbackTargetUnreachable string
  | ManifestVersionNotFound string
  | Validation string

section \<open>The store\<close>

definition insert_proposal :: "proposal \<Rightarrow> learning_db \<Rightarrow> learning_db" where
  "insert_proposal p db = db\<lparr>db_proposals := AList.update (proposal_id p) (proposal_columns p) (db_proposals db)\<rparr>"

definition get_proposal :: "string \<Rightarrow> learning_db \<Rightarrow> proposal option" where
  "get_proposal i db = map_option (row_to_proposal i) (map_of (db_proposals db) i)"

definition list_proposals :: "string option \<Rightarrow> learning_db \<Rightarrow> proposal list" where
  "list_proposals wanted db =
     map (\<lambda>(i, r). row_to_proposal i r)
       (filter (\<lambda>(i, r). case wanted of None \<Rightarrow> True | Some s \<Rightarrow> prow_status r = s) (sort_key fst (db_proposals db)))"

definition update_proposal_status ::
    "string \<Rightarrow> proposal_status \<Rightarrow> learned_decision \<Rightarrow> learning_db \<Rightarrow> learning_db" where
  "update_proposal_status i status decision db =
     (case get_proposal i db of
        None \<Rightarrow> db
      | Some p \<Rightarrow> insert_proposal (p\<lparr>proposal_status := status, proposal_decision := decision\<rparr>) db)"

definition insert_version :: "manifest_version \<Rightarrow> learning_db \<Rightarrow> learning_db" where
  "insert_version v db = db\<lparr>db_versions := AList.update (version_id v) (version_columns v) (db_versions db)\<rparr>"

definition get_version :: "string \<Rightarrow> learning_db \<Rightarrow> manifest_version option" where
  "get_version i db = map_option (row_to_version i) (map_of (db_versions db) i)"

text \<open>The versions of a kind, newest first; the sort is stable.\<close>

definition version_history :: "manifest_kind \<Rightarrow> learning_db \<Rightarrow> manifest_version list" where
  "version_history kind db =
     sort_key (\<lambda>v. - int (version_created v))
       (map (\<lambda>(i, r). row_to_version i r)
         (filter (\<lambda>(i, r). vrow_kind r = manifest_text kind) (sort_key fst (db_versions db))))"

definition latest_version :: "manifest_kind \<Rightarrow> learning_db \<Rightarrow> manifest_version option" where
  "latest_version kind db = (case version_history kind db of [] \<Rightarrow> None | v # _ \<Rightarrow> Some v)"

definition record_event ::
    "nat \<Rightarrow> string \<Rightarrow> string \<Rightarrow> learning_event_type \<Rightarrow> string \<Rightarrow> string option \<Rightarrow> json
      \<Rightarrow> rat \<Rightarrow> string \<Rightarrow> learning_db \<Rightarrow> learning_db" where
  "record_event now fresh workspace type source outcome signal confidence provenance db =
     db\<lparr>db_learning := AList.update fresh
          \<lparr>event_id = fresh, event_workspace = workspace, event_type = type, event_source = source,
           event_outcome = outcome, event_signal = signal, event_confidence = confidence, event_provenance = provenance,
           event_created_at = now\<rparr> (db_learning db)\<rparr>"

definition insert_policy_decision :: "string \<Rightarrow> string \<Rightarrow> policy_outcome \<Rightarrow> learning_db \<Rightarrow> learning_db" where
  "insert_policy_decision i proposal outcome db =
     db\<lparr>db_decisions := AList.update i (proposal, outcome) (db_decisions db)\<rparr>"

definition insert_approval :: "behaviour_approval \<Rightarrow> learning_db \<Rightarrow> learning_db" where
  "insert_approval a db = db\<lparr>db_approvals := AList.update (approval_id a) a (db_approvals db)\<rparr>"

end
