(* ===== verification/Learning_Policy.thy ===== *)
theory Learning_Policy imports Learning_Store begin

text \<open>
  Whether a proposed change of behaviour may apply itself
  (\<^verbatim>\<open>crates/archon-learning/src/policy.rs\<close>): the rules are tried in order, and the one that decides
  is recorded with its inputs.
\<close>

record autonomous_policy =
  auto_enabled :: bool
  auto_max_risk :: risk_level
  auto_min_evidence :: nat
  auto_max_recent_incidents :: nat

definition from_effective :: "effective_policy \<Rightarrow> autonomous_policy" where
  "from_effective p =
     (let l = policy_learning p
      in \<lparr>auto_enabled = learning_autonomous_apply l,
          auto_max_risk = or_default LowRisk (risk_from (learning_autonomous_max_risk l)),
          auto_min_evidence = unat (learning_autonomous_min_evidence l),
          auto_max_recent_incidents = unat (learning_autonomous_max_recent_incidents l)\<rparr>)"

definition record_rule ::
    "string \<Rightarrow> proposal \<Rightarrow> string \<Rightarrow> learned_decision \<Rightarrow> string \<Rightarrow> json \<Rightarrow> learning_db
      \<Rightarrow> learning_db \<times> learned_decision \<times> policy_outcome list" where
  "record_rule fresh p rule decision reason inputs db =
     (let outcome = \<lparr>outcome_rule = rule, outcome_evaluated = inputs, outcome_decision = decision, outcome_reason = reason\<rparr>
      in (insert_policy_decision (''bpd-'' @ fresh) (proposal_id p) outcome db, decision, [outcome]))"

definition arrow :: string where
  "arrow = [CHR 0xE2, CHR 0x86, CHR 0x92]"

definition kind_field :: "proposal \<Rightarrow> string \<times> json" where
  "kind_field p = (''manifest_kind'', JsonText (manifest_text (proposal_kind p)))"

definition risk_field :: "proposal \<Rightarrow> string \<times> json" where
  "risk_field p = (''risk_level'', JsonText (risk_text (proposal_risk p)))"

definition number_field :: "string \<Rightarrow> nat \<Rightarrow> string \<times> json" where
  "number_field key n = (key, JsonNumber (of_nat n))"

definition RECENT_INCIDENT_LIMIT :: nat where
  "RECENT_INCIDENT_LIMIT = 5"

definition evaluate_proposal ::
    "string \<Rightarrow> proposal \<Rightarrow> bool \<Rightarrow> nat \<Rightarrow> learning_db \<Rightarrow> learning_db \<times> learned_decision \<times> policy_outcome list" where
  "evaluate_proposal fresh p allow_auto_apply incidents db =
     (if proposal_kind p = PolicyOverride
      then record_rule fresh p ''policy_override_critical'' PendingApproval
             ''PolicyOverride manifest changes are ALWAYS Critical and require approval'' (JsonObject [kind_field p]) db
      else if is_high_risk (proposal_risk p)
      then record_rule fresh p ''high_risk_requires_approval'' PendingApproval
             (''Manifest kind '' @ manifest_text (proposal_kind p) @ '' has risk level '' @ risk_text (proposal_risk p)
               @ '' (High/Critical) '' @ em_dash @ '' auto-apply denied'')
             (JsonObject [kind_field p, risk_field p]) db
      else if allow_auto_apply \<and> incidents < RECENT_INCIDENT_LIMIT
      then record_rule fresh p ''low_risk_auto_apply'' AutoApplied
             (''Low risk ('' @ risk_text (proposal_risk p) @ '') + '' @ show_nat incidents
               @ '' recent incidents (< 5) + auto-apply enabled '' @ arrow @ '' AutoApplied'')
             (JsonObject [(''allow_auto_apply'', JsonBool allow_auto_apply), number_field ''recent_incident_count'' incidents, risk_field p]) db
      else record_rule fresh p ''fallback_pending_approval'' PendingApproval
             (if \<not> allow_auto_apply then ''Workspace does not allow auto-apply''
              else show_nat incidents @ '' recent incidents (>= 5) '' @ em_dash @ '' requiring approval despite low risk'')
             (JsonObject [(''allow_auto_apply'', JsonBool allow_auto_apply), number_field ''recent_incident_count'' incidents, risk_field p]) db)"

definition evaluate_proposal_autonomous ::
    "string \<Rightarrow> proposal \<Rightarrow> autonomous_policy \<Rightarrow> nat \<Rightarrow> learning_db \<Rightarrow> learning_db \<times> learned_decision \<times> policy_outcome list" where
  "evaluate_proposal_autonomous fresh p policy incidents db =
     (if proposal_kind p = PolicyOverride
      then record_rule fresh p ''autonomous_policy_override_blocked'' PendingApproval
             ''PolicyOverride manifest changes cannot be applied autonomously'' (JsonObject [kind_field p]) db
      else if \<not> auto_enabled policy
      then record_rule fresh p ''autonomous_disabled'' PendingApproval
             ''autonomous learning apply is disabled by policy'' (JsonObject [(''enabled'', JsonBool False)]) db
      else if auto_max_risk policy < proposal_risk p
      then record_rule fresh p ''autonomous_risk_ceiling'' PendingApproval
             (''risk '' @ risk_text (proposal_risk p) @ '' exceeds autonomous ceiling '' @ risk_text (auto_max_risk policy))
             (JsonObject [(''max_risk'', JsonText (risk_text (auto_max_risk policy))), risk_field p]) db
      else if length (proposal_evidence p) < auto_min_evidence policy
      then record_rule fresh p ''autonomous_evidence_floor'' PendingApproval
             ''not enough evidence IDs for autonomous apply''
             (JsonObject [number_field ''evidence_count'' (length (proposal_evidence p)),
                number_field ''min_evidence'' (auto_min_evidence policy)]) db
      else if auto_max_recent_incidents policy < incidents
      then record_rule fresh p ''autonomous_incident_ceiling'' PendingApproval
             ''recent false-completion incident count exceeds autonomous ceiling''
             (JsonObject [number_field ''max_recent_incidents'' (auto_max_recent_incidents policy),
                number_field ''recent_incident_count'' incidents]) db
      else record_rule fresh p ''autonomous_apply_allowed'' AutoApplied
             ''autonomous learning gates passed''
             (JsonObject [number_field ''evidence_count'' (length (proposal_evidence p)),
                (''max_risk'', JsonText (risk_text (auto_max_risk policy))),
                number_field ''recent_incident_count'' incidents, risk_field p]) db)"

definition evaluate_proposal_with_policy ::
    "string \<Rightarrow> proposal \<Rightarrow> effective_policy \<Rightarrow> nat \<Rightarrow> learning_db \<Rightarrow> learning_db \<times> learned_decision \<times> policy_outcome list" where
  "evaluate_proposal_with_policy fresh p policy incidents db =
     (if learning_autonomous_apply (policy_learning policy)
      then evaluate_proposal_autonomous fresh p (from_effective policy) incidents db
      else evaluate_proposal fresh p
             (decision_allowed (learning_auto_apply_decision policy (manifest_text (proposal_kind p)) (risk_text (proposal_risk p))))
             incidents db)"

section \<open>When a proposal applies itself\<close>

lemma record_rule_simps [simp]:
  "fst (snd (record_rule fresh p rule d reason inputs db)) = d"
  "fst (record_rule fresh p rule d reason inputs db) = insert_policy_decision (''bpd-'' @ fresh) (proposal_id p)
     \<lparr>outcome_rule = rule, outcome_evaluated = inputs, outcome_decision = d, outcome_reason = reason\<rparr> db"
  "snd (snd (record_rule fresh p rule d reason inputs db)) =
     [\<lparr>outcome_rule = rule, outcome_evaluated = inputs, outcome_decision = d, outcome_reason = reason\<rparr>]"
  by (simp_all add: record_rule_def Let_def)

lemma evaluated_decisions:
  "fst (snd (evaluate_proposal fresh p allow n db)) \<in> {AutoApplied, PendingApproval}"
  "fst (snd (evaluate_proposal_autonomous fresh p a n db)) \<in> {AutoApplied, PendingApproval}"
  by (simp_all add: evaluate_proposal_def evaluate_proposal_autonomous_def)

lemma auto_applied_iff:
  "fst (snd (evaluate_proposal fresh p allow n db)) = AutoApplied \<longleftrightarrow>
     proposal_kind p \<noteq> PolicyOverride \<and> \<not> is_high_risk (proposal_risk p) \<and> allow \<and> n < RECENT_INCIDENT_LIMIT"
  "fst (snd (evaluate_proposal_autonomous fresh p a n db)) = AutoApplied \<longleftrightarrow>
     proposal_kind p \<noteq> PolicyOverride \<and> auto_enabled a \<and> proposal_risk p \<le> auto_max_risk a
     \<and> auto_min_evidence a \<le> length (proposal_evidence p) \<and> n \<le> auto_max_recent_incidents a"
  by (auto simp: evaluate_proposal_def evaluate_proposal_autonomous_def)

lemma evaluation_records:
  "\<exists>o1. evaluate_proposal_with_policy fresh p policy n db =
     (insert_policy_decision (''bpd-'' @ fresh) (proposal_id p) o1 db, outcome_decision o1, [o1])"
  by (simp add: evaluate_proposal_with_policy_def evaluate_proposal_def evaluate_proposal_autonomous_def record_rule_def Let_def)

end
