(* ===== verification/Learning_Apply.thy ===== *)
theory Learning_Apply imports Learning_Policy begin

text \<open>
  Carrying out a decision about a proposal, rolling a manifest back, and the commands that do so:
  \<^verbatim>\<open>crates/archon-learning/src/apply.rs\<close>, \<^verbatim>\<open>manifest.rs\<close>, \<^verbatim>\<open>rollback.rs\<close>,
  \<^verbatim>\<open>src/command/behaviour.rs\<close>, \<^verbatim>\<open>src/command/learning/autonomous.rs\<close> and
  \<^verbatim>\<open>crates/archon-pipeline/src/learning/integration/autonomy.rs\<close>. The JSON Patch library is a
  parameter; the identifiers a call mints are its arguments, and a call is one step.
\<close>

section \<open>The content of a version\<close>

record 'p json_patch =
  parse_patch :: "string \<Rightarrow> string + 'p"
  run_patch :: "'p \<Rightarrow> json \<Rightarrow> string + json"

definition apply_diff :: "'p json_patch \<Rightarrow> json \<Rightarrow> string \<Rightarrow> json \<Rightarrow> learning_error + json" where
  "apply_diff jp current diff new =
     (let trimmed = trim diff
      in case parse_patch jp (if trimmed = [] then ''[]'' else trimmed) of
           Inl e \<Rightarrow> Inl (Validation (''invalid JSON Patch (RFC 6902): '' @ e))
         | Inr patch \<Rightarrow>
             (case run_patch jp patch current of
                Inl e \<Rightarrow> Inl (Validation (''failed to apply diff: '' @ e))
              | Inr computed \<Rightarrow>
                  if computed \<noteq> new then Inl (Validation ''diff inconsistent with recorded new content'') else Inr new))"

definition validate_proposal_for_apply :: "proposal \<Rightarrow> learning_error + unit" where
  "validate_proposal_for_apply p =
     (if trim (proposal_current p) = [] \<or> proposal_current p = ''unresolved''
      then Inl (Validation (''proposal '' @ proposal_id p @ '' is missing current_version and is not auto-applicable''))
      else if trim (proposal_proposed p) = []
      then Inl (Validation (''proposal '' @ proposal_id p @ '' is missing proposed_version''))
      else Inr ())"

definition validate_apply_content :: "json \<Rightarrow> learning_error + unit" where
  "validate_apply_content content =
     (case content of
        JsonObject pairs \<Rightarrow>
          if pairs \<noteq> [] then Inr () else Inl (Validation ''proposal content must be a non-empty JSON object'')
      | _ \<Rightarrow> Inl (Validation ''proposal content must be a non-empty JSON object''))"

definition verify_diff_if_possible :: "'p json_patch \<Rightarrow> proposal \<Rightarrow> json \<Rightarrow> learning_db \<Rightarrow> learning_error + unit" where
  "verify_diff_if_possible jp p new db =
     (let trimmed = trim (proposal_diff p)
      in if \<not> starts_with trimmed ''['' then Inr ()
         else case latest_version (proposal_kind p) db of
                None \<Rightarrow> Inr ()
              | Some current \<Rightarrow> map_sum id (\<lambda>_. ()) (apply_diff jp (version_content current) trimmed new))"

record apply_content =
  content_json :: json
  content_rollback :: bool
  content_target :: "string option"

definition rollback_prefix :: string where
  "rollback_prefix = ''rollback-to-''"

definition diff_content :: "proposal \<Rightarrow> json" where
  "diff_content p =
     JsonObject [(''diff'', JsonText (proposal_diff p)), (''evidence_ids'', JsonArray (map JsonText (proposal_evidence p))),
       kind_field p, (''proposed_version'', JsonText (proposal_proposed p))]"

definition resolve_apply_content ::
    "'p json_patch \<Rightarrow> proposal \<Rightarrow> json option \<Rightarrow> learning_db \<Rightarrow> learning_error + apply_content" where
  "resolve_apply_content jp p new_content db =
     (case validate_proposal_for_apply p of
        Inl e \<Rightarrow> Inl e
      | Inr _ \<Rightarrow>
          (case new_content of
             Some content \<Rightarrow>
               (case validate_apply_content content of
                  Inl e \<Rightarrow> Inl e
                | Inr _ \<Rightarrow>
                    (case verify_diff_if_possible jp p content db of
                       Inl e \<Rightarrow> Inl e
                     | Inr _ \<Rightarrow> Inr \<lparr>content_json = content, content_rollback = False, content_target = None\<rparr>))
           | None \<Rightarrow>
               if starts_with (proposal_proposed p) rollback_prefix
               then
                 let target_id = drop (length rollback_prefix) (proposal_proposed p)
                 in case get_version target_id db of
                      None \<Rightarrow> Inl (RollbackTargetUnreachable target_id)
                    | Some target \<Rightarrow>
                        if version_kind target \<noteq> proposal_kind p
                        then Inl (Validation (''rollback target '' @ target_id @ '' is '' @ manifest_text (version_kind target)
                               @ '', proposal is '' @ manifest_text (proposal_kind p)))
                        else Inr \<lparr>content_json = version_content target, content_rollback = True, content_target = Some target_id\<rparr>
               else if trim (proposal_diff p) = []
               then Inl (Validation (''proposal '' @ proposal_id p @ '' has no explicit content and no diff-derived content''))
               else
                 (case validate_apply_content (diff_content p) of
                    Inl e \<Rightarrow> Inl e
                  | Inr _ \<Rightarrow> Inr \<lparr>content_json = diff_content p, content_rollback = False, content_target = None\<rparr>)))"

section \<open>Applying a decision\<close>

record apply_result =
  result_proposal :: proposal
  result_version :: "manifest_version option"
  result_approval :: "behaviour_approval option"

record minted =
  minted_now :: nat
  minted_version :: string
  minted_event :: string
  minted_approval :: string

definition next_version_number :: "manifest_kind \<Rightarrow> learning_db \<Rightarrow> int" where
  "next_version_number kind db = (case latest_version kind db of Some v \<Rightarrow> version_number v + 1 | None \<Rightarrow> 1)"

definition create_manifest_version :: "minted \<Rightarrow> proposal \<Rightarrow> json \<Rightarrow> string option \<Rightarrow> bool \<Rightarrow> learning_db \<Rightarrow> manifest_version" where
  "create_manifest_version m p content parent rollback db =
     \<lparr>version_id = ''bmv-'' @ minted_version m, version_kind = proposal_kind p,
      version_number = next_version_number (proposal_kind p) db, version_content = content, version_diff = proposal_diff p,
      version_parent = parent, version_proposal = Some (proposal_id p), version_rollback = rollback,
      version_created = minted_now m\<rparr>"

definition apply_pending_approval ::
    "minted \<Rightarrow> proposal \<Rightarrow> string option \<Rightarrow> learning_db \<Rightarrow> learning_db \<times> (learning_error + apply_result)" where
  "apply_pending_approval m p approver db =
     (let a = \<lparr>approval_id = ''ba-'' @ minted_approval m, approval_proposal = proposal_id p,
               approval_approver = or_default ''system'' approver, approval_approved = False,
               approval_comment = ''Awaiting human review'', approval_created = minted_now m\<rparr>
      in (insert_approval a db, Inr \<lparr>result_proposal = p, result_version = None, result_approval = Some a\<rparr>))"

text \<open>The fields of the signal of an applied change, in the order of their keys.\<close>

definition applied_signal :: "proposal \<Rightarrow> string option \<Rightarrow> string option \<Rightarrow> json" where
  "applied_signal p approver target =
     JsonObject ((case approver of Some a \<Rightarrow> [(''approver'', JsonText a)] | None \<Rightarrow> []) @ [kind_field p]
       @ (case target of Some t \<Rightarrow> [(''rolled_back_from'', JsonText t)] | None \<Rightarrow> []))"

text \<open>Applying by itself and applying after approval differ in the decision and in the signal.\<close>

definition apply_version ::
    "'p json_patch \<Rightarrow> minted \<Rightarrow> proposal \<Rightarrow> json option \<Rightarrow> learned_decision \<Rightarrow> string option \<Rightarrow> learning_db
      \<Rightarrow> learning_db \<times> (learning_error + apply_result)" where
  "apply_version jp m p new_content decision approver db =
     (case resolve_apply_content jp p new_content db of
        Inl e \<Rightarrow> (db, Inl e)
      | Inr content \<Rightarrow>
          let version = create_manifest_version m p (content_json content)
                          (map_option version_id (latest_version (proposal_kind p) db)) (content_rollback content) db;
              db1 = insert_version version db;
              db2 = update_proposal_status (proposal_id p) ProposalApplied decision db1;
              db3 = record_event (minted_now m) (''lev-'' @ minted_event m) (proposal_workspace p)
                      (if content_rollback content then ManifestRolledBack else ManifestApplied)
                      (proposal_id p) (Some (version_id version)) (applied_signal p approver (content_target content)) 1 [] db2
          in (db3, Inr \<lparr>result_proposal = p\<lparr>proposal_status := ProposalApplied, proposal_decision := decision\<rparr>,
                        result_version = Some version, result_approval = None\<rparr>))"

definition apply_auto where
  "apply_auto jp m p new_content = apply_version jp m p new_content AutoApplied None"

definition apply_approved where
  "apply_approved jp m p new_content approver =
     apply_version jp m p new_content Approved (Some (or_default ''system'' approver))"

definition apply_denied :: "minted \<Rightarrow> proposal \<Rightarrow> learning_db \<Rightarrow> learning_db \<times> (learning_error + apply_result)" where
  "apply_denied m p db =
     (let db1 = update_proposal_status (proposal_id p) ProposalDenied DecisionDenied db;
          db2 = record_event (minted_now m) (''lev-'' @ minted_event m) (proposal_workspace p) ManifestDenied
                  (proposal_id p) None (JsonObject [kind_field p]) 1 [] db1
      in (db2, Inr \<lparr>result_proposal = p\<lparr>proposal_status := ProposalDenied, proposal_decision := DecisionDenied\<rparr>,
                    result_version = None, result_approval = None\<rparr>))"

definition apply_decision ::
    "'p json_patch \<Rightarrow> minted \<Rightarrow> string \<Rightarrow> learned_decision \<Rightarrow> json option \<Rightarrow> string option \<Rightarrow> learning_db
      \<Rightarrow> learning_db \<times> (learning_error + apply_result)" where
  "apply_decision jp m i decision new_content approver db =
     (case get_proposal i db of
        None \<Rightarrow> (db, Inl (ProposalNotFound i))
      | Some p \<Rightarrow>
          if proposal_status p \<noteq> ProposalPending
          then (db, Inl (ConcurrentModification (proposal_status_text ProposalPending) (proposal_status_text (proposal_status p))))
          else case decision of
                 PendingApproval \<Rightarrow> apply_pending_approval m p approver db
               | AutoApplied \<Rightarrow> apply_auto jp m p new_content db
               | DecisionDenied \<Rightarrow> apply_denied m p db
               | Approved \<Rightarrow> apply_approved jp m p new_content approver db
               | Rejected \<Rightarrow> apply_denied m p db)"

section \<open>Rolling back\<close>

definition rollback_proposal :: "nat \<Rightarrow> string \<Rightarrow> string \<Rightarrow> manifest_kind \<Rightarrow> string \<Rightarrow> string \<Rightarrow> string \<Rightarrow> proposal" where
  "rollback_proposal now fresh workspace kind current target reason =
     \<lparr>proposal_id = ''bp-'' @ fresh, proposal_workspace = workspace, proposal_kind = kind, proposal_current = current,
      proposal_proposed = rollback_prefix @ target,
      proposal_diff = ''Rollback '' @ manifest_text kind @ '' to version '' @ target @ [CHR 0x0A] @ ''Reason: '' @ reason,
      proposal_evidence = [target], proposal_risk = default_risk_level kind, proposal_decision = PendingApproval,
      proposal_status = ProposalPending, proposal_created = now\<rparr>"

record rollback_result =
  rolled_proposal :: proposal
  rolled_version :: "manifest_version option"
  rolled_approval :: "behaviour_approval option"
  rolled_outcomes :: "policy_outcome list"
  rolled_from :: string

definition rollback_version :: "minted \<Rightarrow> proposal \<Rightarrow> manifest_version \<Rightarrow> manifest_version option \<Rightarrow> string \<Rightarrow> manifest_version" where
  "rollback_version m p target head reason =
     \<lparr>version_id = ''bmv-'' @ minted_version m, version_kind = version_kind target,
      version_number = (case head of Some v \<Rightarrow> version_number v + 1 | None \<Rightarrow> 1),
      version_content = version_content target,
      version_diff = ''Rollback to '' @ version_id target @ [CHR 0x0A] @ ''Reason: '' @ reason,
      version_parent = unless_empty (case head of Some v \<Rightarrow> version_id v | None \<Rightarrow> []),
      version_proposal = Some (proposal_id p), version_rollback = True, version_created = minted_now m\<rparr>"

definition rollback_signal :: "manifest_kind \<Rightarrow> string \<Rightarrow> string \<Rightarrow> json" where
  "rollback_signal kind target reason =
     JsonObject [(''manifest_kind'', JsonText (manifest_text kind)), (''reason'', JsonText reason),
       (''rolled_back_from'', JsonText target)]"

definition rollback_to_version_with_auto_apply ::
    "'p json_patch \<Rightarrow> minted \<Rightarrow> string \<Rightarrow> string \<Rightarrow> string \<Rightarrow> string \<Rightarrow> string \<Rightarrow> bool \<Rightarrow> nat \<Rightarrow> learning_db
      \<Rightarrow> learning_db \<times> (learning_error + rollback_result)" where
  "rollback_to_version_with_auto_apply jp m fresh_proposal fresh_decision target_id workspace reason allow incidents db =
     (case get_version target_id db of
        None \<Rightarrow> (db, Inl (RollbackTargetUnreachable target_id))
      | Some target \<Rightarrow>
          let head = latest_version (version_kind target) db;
              p = rollback_proposal (minted_now m) fresh_proposal workspace (version_kind target)
                    (case head of Some v \<Rightarrow> version_id v | None \<Rightarrow> []) target_id reason;
              db1 = insert_proposal p db
          in case evaluate_proposal fresh_decision p allow incidents db1 of
               (db2, decision, outcomes) \<Rightarrow>
                 if decision \<noteq> AutoApplied
                 then
                   (case apply_decision jp m (proposal_id p) decision None (Some ''system'') db2 of
                      (db3, Inl e) \<Rightarrow> (db3, Inl e)
                    | (db3, Inr r) \<Rightarrow>
                        (db3, Inr \<lparr>rolled_proposal = result_proposal r, rolled_version = None,
                                   rolled_approval = result_approval r, rolled_outcomes = outcomes, rolled_from = target_id\<rparr>))
                 else
                   let version = rollback_version m p target head reason;
                       db3 = insert_version version db2;
                       db4 = update_proposal_status (proposal_id p) ProposalApplied AutoApplied db3;
                       db5 = record_event (minted_now m) (''lev-'' @ minted_event m) workspace ManifestRolledBack
                               (proposal_id p) (Some (version_id version)) (rollback_signal (version_kind target) target_id reason) 1 [] db4
                   in (db5, Inr \<lparr>rolled_proposal = p\<lparr>proposal_status := ProposalApplied, proposal_decision := AutoApplied\<rparr>,
                                 rolled_version = Some version, rolled_approval = None, rolled_outcomes = outcomes,
                                 rolled_from = target_id\<rparr>))"

definition rollback_to_version_with_policy ::
    "'p json_patch \<Rightarrow> minted \<Rightarrow> string \<Rightarrow> string \<Rightarrow> string \<Rightarrow> string \<Rightarrow> string \<Rightarrow> effective_policy \<Rightarrow> nat \<Rightarrow> learning_db
      \<Rightarrow> learning_db \<times> (learning_error + rollback_result)" where
  "rollback_to_version_with_policy jp m fresh_proposal fresh_decision target_id workspace reason policy incidents db =
     (case get_version target_id db of
        None \<Rightarrow> (db, Inl (RollbackTargetUnreachable target_id))
      | Some target \<Rightarrow>
          rollback_to_version_with_auto_apply jp m fresh_proposal fresh_decision target_id workspace reason
            (decision_allowed (learning_auto_apply_decision policy (manifest_text (version_kind target))
               (risk_text (default_risk_level (version_kind target)))))
            incidents db)"

section \<open>Commands\<close>

definition false_completions :: "learning_db \<Rightarrow> nat" where
  "false_completions db = length (filter (\<lambda>(_, e). event_type e = FalseCompletionDetected) (db_learning db))"

definition behaviour_apply ::
    "'p json_patch \<Rightarrow> minted \<Rightarrow> string \<Rightarrow> string \<Rightarrow> effective_policy \<Rightarrow> learning_db \<Rightarrow> learning_db" where
  "behaviour_apply jp m fresh i policy db =
     (case get_proposal i db of
        None \<Rightarrow> db
      | Some p \<Rightarrow>
          (case evaluate_proposal_with_policy fresh p policy (false_completions db) db of
             (db1, decision, _) \<Rightarrow>
               if decision \<noteq> AutoApplied then db1
               else fst (apply_decision jp m i decision None (Some ''cli'') db1)))"

definition behaviour_approve :: "'p json_patch \<Rightarrow> minted \<Rightarrow> string \<Rightarrow> learning_db \<Rightarrow> learning_db" where
  "behaviour_approve jp m i db = fst (apply_decision jp m i Approved None (Some ''cli'') db)"

definition behaviour_deny :: "'p json_patch \<Rightarrow> minted \<Rightarrow> string \<Rightarrow> learning_db \<Rightarrow> learning_db" where
  "behaviour_deny jp m i db = fst (apply_decision jp m i DecisionDenied None (Some ''cli'') db)"

definition behaviour_rollback ::
    "'p json_patch \<Rightarrow> minted \<Rightarrow> string \<Rightarrow> string \<Rightarrow> string \<Rightarrow> string option \<Rightarrow> effective_policy \<Rightarrow> learning_db \<Rightarrow> learning_db" where
  "behaviour_rollback jp m fresh_proposal fresh_decision target reason policy db =
     fst (rollback_to_version_with_policy jp m fresh_proposal fresh_decision target ''cli''
       (or_default ''manual rollback via CLI'' reason) policy (false_completions db) db)"

text \<open>One proposal of the autonomous tick, and one of the pipeline, which knows of no incidents.\<close>

definition tick_proposal ::
    "'p json_patch \<Rightarrow> minted \<Rightarrow> string \<Rightarrow> proposal \<Rightarrow> effective_policy \<Rightarrow> nat \<Rightarrow> learning_db \<Rightarrow> learning_db" where
  "tick_proposal jp m fresh p policy incidents db =
     (case evaluate_proposal_with_policy fresh p policy incidents db of
        (db1, decision, _) \<Rightarrow>
          if decision \<noteq> AutoApplied then db1
          else fst (apply_decision jp m (proposal_id p) decision None (Some ''learning-autonomous'') db1))"

definition evaluate_and_apply_generated ::
    "'p json_patch \<Rightarrow> minted \<Rightarrow> string \<Rightarrow> proposal \<Rightarrow> autonomous_policy \<Rightarrow> learning_db \<Rightarrow> learning_db" where
  "evaluate_and_apply_generated jp m fresh p policy db =
     (case evaluate_proposal_autonomous fresh p policy 0 db of
        (db1, decision, _) \<Rightarrow>
          if decision \<noteq> AutoApplied then db1
          else fst (apply_decision jp m (proposal_id p) decision None (Some ''learning-integration-autonomous'') db1))"

end
