(* ===== verification/Learning_Proposals.thy ===== *)
theory Learning_Proposals imports Learning_Apply begin

text \<open>
  Proposals drawn from recorded events (\<^verbatim>\<open>crates/archon-learning/src/proposal.rs\<close>) and the
  autonomous tick (\<^verbatim>\<open>src/command/learning/autonomous.rs\<close>). The order in which a hash map gives its
  groups is a parameter. The weight \<open>0.85^n\<close>, at least \<open>0.1\<close>, is printed with two digits, which the
  rounding of single precision does not reach; it is computed exactly here.
\<close>

section \<open>Groups of events\<close>

definition PROPOSAL_WINDOW_DAYS :: nat where
  "PROPOSAL_WINDOW_DAYS = 7"

definition DAY :: int where
  "DAY = 86400 * 10 ^ 9"

definition in_window :: "nat \<Rightarrow> learning_event \<Rightarrow> bool" where
  "in_window now e \<longleftrightarrow> int now - int PROPOSAL_WINDOW_DAYS * DAY \<le> int (event_created_at e)"

definition group_of :: "string \<Rightarrow> learning_event list \<Rightarrow> learning_event list" where
  "group_of source events = filter (\<lambda>e. event_source e = source) events"

text \<open>The groups of at least three events of one source, in the order of the hash map.\<close>

definition big_groups :: "(string list \<Rightarrow> string list) \<Rightarrow> learning_event list \<Rightarrow> (string \<times> learning_event list) list" where
  "big_groups order events =
     filter (\<lambda>(_, es). 3 \<le> length es) (map (\<lambda>s. (s, group_of s events)) (order (remdups (map event_source events))))"

definition weight_text :: "nat \<Rightarrow> string" where
  "weight_text n =
     (let hundredths = nat ((2 * 100 * max (85 ^ n * 10) (100 ^ n) + 10 * 100 ^ n) div (20 * 100 ^ n :: int))
      in ''0.'' @ (if hundredths < 10 then ''0'' @ show_nat hundredths else show_nat hundredths))"

definition new_proposal ::
    "nat \<Rightarrow> string \<Rightarrow> string \<Rightarrow> manifest_kind \<Rightarrow> learning_event list \<Rightarrow> string \<Rightarrow> proposal" where
  "new_proposal now fresh fresh_version kind events diff =
     \<lparr>proposal_id = ''bp-'' @ fresh, proposal_workspace = event_workspace (hd events), proposal_kind = kind,
      proposal_current = ''unresolved'', proposal_proposed = ''v-'' @ fresh_version, proposal_diff = diff,
      proposal_evidence = map event_id events, proposal_risk = default_risk_level kind,
      proposal_decision = PendingApproval, proposal_status = ProposalPending, proposal_created = now\<rparr>"

definition lines_of :: "string list \<Rightarrow> string" where
  "lines_of = join_with [CHR 0x0A]"

definition contradiction_diff :: "string \<Rightarrow> nat \<Rightarrow> string" where
  "contradiction_diff source n =
     lines_of [''--- SourceQualityProfile: '' @ source, ''+++ SourceQualityProfile: '' @ source, ''@@ weight adjustment @@'',
       ''-weight: previous'', ''+weight: '' @ weight_text n, ''Reason: '' @ show_nat n @ '' contradictions in window'']"

definition gate_diff :: "string \<Rightarrow> nat \<Rightarrow> string" where
  "gate_diff name n =
     lines_of [''--- PipelineGates: '' @ name, ''+++ PipelineGates: '' @ name, ''@@ gate adjustment @@'',
       ''-status: normal'', ''+status: elevated-scrutiny'', ''Reason: '' @ show_nat n @ '' failures in window'']"

text \<open>The payload is printed by the JSON encoder, a parameter.\<close>

definition correction_diff :: "(json \<Rightarrow> string) \<Rightarrow> string \<Rightarrow> nat \<Rightarrow> string" where
  "correction_diff encode rule n =
     lines_of [''--- BehaviouralRule: '' @ rule, ''+++ BehaviouralRule: '' @ rule, ''@@ operator review @@'',
       ''payload_json: '' @ encode (JsonObject [number_field ''correction_count'' n, (''rule_id'', JsonText rule),
          number_field ''window_days'' PROPOSAL_WINDOW_DAYS]),
       ''Reason: '' @ show_nat n @ '' user corrections in '' @ show_nat PROPOSAL_WINDOW_DAYS @ '' days clustered on rule '' @ rule]"

definition proposals_of ::
    "nat \<Rightarrow> (nat \<Rightarrow> string) \<Rightarrow> manifest_kind \<Rightarrow> (string \<Rightarrow> nat \<Rightarrow> string) \<Rightarrow> (string \<times> learning_event list) list \<Rightarrow> nat \<Rightarrow> proposal list" where
  "proposals_of now fresh kind diff groups k =
     map (\<lambda>(j, s, es). new_proposal now (fresh (2 * (k + j))) (fresh (2 * (k + j) + 1)) kind es (diff s (length es)))
       (zip [0..<length groups] groups)"

definition recent_of :: "nat \<Rightarrow> learning_event_type \<Rightarrow> learning_event list \<Rightarrow> learning_event list" where
  "recent_of now type events = filter (\<lambda>e. event_type e = type \<and> in_window now e) events"

definition generate_proposals ::
    "(string list \<Rightarrow> string list) \<Rightarrow> (json \<Rightarrow> string) \<Rightarrow> nat \<Rightarrow> (nat \<Rightarrow> string) \<Rightarrow> learning_event list \<Rightarrow> proposal list" where
  "generate_proposals order encode now fresh events =
     (let sources = proposals_of now fresh SourceQualityProfile contradiction_diff
            (big_groups order (recent_of now SourceContradicted events)) 0;
          gates = proposals_of now fresh PipelineGates gate_diff
            (big_groups order (recent_of now GateFailed events)) (length sources);
          rules = proposals_of now fresh BehaviouralRuleAdjustment (correction_diff encode)
            (big_groups order (filter (\<lambda>e. event_source e \<noteq> []) (recent_of now UserCorrected events)))
            (length sources + length gates)
      in sources @ gates @ rules)"

definition populate_current_version :: "learning_db \<Rightarrow> proposal \<Rightarrow> proposal" where
  "populate_current_version db p =
     p\<lparr>proposal_current := (case latest_version (proposal_kind p) db of Some v \<Rightarrow> version_id v | None \<Rightarrow> ''none'')\<rparr>"

definition generate_proposals_for_store ::
    "(string list \<Rightarrow> string list) \<Rightarrow> (json \<Rightarrow> string) \<Rightarrow> nat \<Rightarrow> (nat \<Rightarrow> string) \<Rightarrow> learning_event list \<Rightarrow> learning_db \<Rightarrow> proposal list" where
  "generate_proposals_for_store order encode now fresh events db =
     map (populate_current_version db) (generate_proposals order encode now fresh events)"

section \<open>The tick\<close>

definition same_proposal :: "proposal \<Rightarrow> proposal \<Rightarrow> bool" where
  "same_proposal a b \<longleftrightarrow> proposal_kind a = proposal_kind b \<and> set (proposal_evidence a) = set (proposal_evidence b)"

definition persist_new_proposals :: "proposal list \<Rightarrow> learning_db \<Rightarrow> learning_db \<times> nat" where
  "persist_new_proposals proposals db =
     (let existing = list_proposals None db;
          new = filter (\<lambda>p. \<not> list_ex (\<lambda>prior. same_proposal prior p) existing) proposals
      in (foldl (\<lambda>d p. insert_proposal p d) db new, length new))"

fun evaluate_pending ::
    "'p json_patch \<Rightarrow> (nat \<Rightarrow> minted) \<Rightarrow> (nat \<Rightarrow> string) \<Rightarrow> effective_policy \<Rightarrow> nat \<Rightarrow> proposal list \<Rightarrow> nat \<Rightarrow> nat
      \<Rightarrow> learning_db \<Rightarrow> learning_db \<times> (learning_error + nat \<times> nat)" where
  "evaluate_pending jp ms fresh policy incidents [] applied held db = (db, Inr (applied, held))"
| "evaluate_pending jp ms fresh policy incidents (p # ps) applied held db =
     (let k = applied + held
      in case evaluate_proposal_with_policy (fresh k) p policy incidents db of
           (db1, decision, _) \<Rightarrow>
             if decision \<noteq> AutoApplied then evaluate_pending jp ms fresh policy incidents ps applied (held + 1) db1
             else case apply_decision jp (ms k) (proposal_id p) decision None (Some ''learning-autonomous'') db1 of
                    (db2, Inl e) \<Rightarrow> (db2, Inl e)
                  | (db2, Inr _) \<Rightarrow> evaluate_pending jp ms fresh policy incidents ps (applied + 1) held db2)"

definition run_tick ::
    "(string list \<Rightarrow> string list) \<Rightarrow> (json \<Rightarrow> string) \<Rightarrow> 'p json_patch \<Rightarrow> nat \<Rightarrow> (nat \<Rightarrow> minted) \<Rightarrow> (nat \<Rightarrow> string) \<Rightarrow> (nat \<Rightarrow> string)
      \<Rightarrow> effective_policy \<Rightarrow> learning_db \<Rightarrow> learning_db \<times> (learning_error + nat \<times> nat)" where
  "run_tick order encode jp now ms fresh_proposals fresh policy db =
     (let events = map snd (sort_key fst (db_learning db));
          db1 = fst (persist_new_proposals (generate_proposals_for_store order encode now fresh_proposals events db) db);
          pending = list_proposals (Some (proposal_status_text ProposalPending)) db1
      in evaluate_pending jp ms fresh policy (false_completions db) pending 0 0 db1)"


end
