(* ===== verification/Learning_History.thy ===== *)
theory Learning_History imports Learning_Proposals "HOL-Library.Multiset" begin

text \<open>
  What governed learning keeps over any sequence of commands. The history of a manifest is a chain:
  versions are numbered from one without a gap, each names the one before it as its parent, and every
  version stems from exactly one proposal that was applied. Commands reach the database only through
  four effects; an invariant kept by these effects holds after every command.
\<close>

section \<open>Commands and reachable databases\<close>

text \<open>
  What a command mints is new: no version carries the identifier, and the clock has moved past the
  last version written.
\<close>

definition unused :: "minted \<Rightarrow> learning_db \<Rightarrow> bool" where
  "unused m db \<longleftrightarrow> map_of (db_versions db) (''bmv-'' @ minted_version m) = None
     \<and> list_all (\<lambda>(_, r). vrow_created r < minted_now m) (db_versions db)"

inductive learning_step :: "'p json_patch \<Rightarrow> learning_db \<Rightarrow> learning_db \<Rightarrow> bool" for jp where
  step_propose: "get_proposal (proposal_id p) db = None \<Longrightarrow> proposal_id p \<noteq> [] \<Longrightarrow> proposal_status p = ProposalPending
    \<Longrightarrow> learning_step jp db (insert_proposal p db)"
| step_observe: "learning_step jp db (record_event now fresh workspace type source outcome signal confidence provenance db)"
| step_apply: "unused m db \<Longrightarrow> learning_step jp db (behaviour_apply jp m fresh i policy db)"
| step_approve: "unused m db \<Longrightarrow> learning_step jp db (behaviour_approve jp m i db)"
| step_deny: "learning_step jp db (behaviour_deny jp m i db)"
| step_rollback: "unused m db \<Longrightarrow> get_proposal (''bp-'' @ fresh_proposal) db = None
    \<Longrightarrow> learning_step jp db (behaviour_rollback jp m fresh_proposal fresh_decision target reason policy db)"
| step_tick: "unused m db \<Longrightarrow> get_proposal (proposal_id p) db = Some p
    \<Longrightarrow> learning_step jp db (tick_proposal jp m fresh p policy incidents db)"
| step_pipeline: "unused m db \<Longrightarrow> get_proposal (proposal_id p) db = Some p
    \<Longrightarrow> learning_step jp db (evaluate_and_apply_generated jp m fresh p autonomy db)"

inductive learning_reach :: "'p json_patch \<Rightarrow> learning_db \<Rightarrow> bool" for jp where
  reach_empty: "learning_reach jp empty_learning"
| reach_step: "learning_reach jp db \<Longrightarrow> learning_step jp db db' \<Longrightarrow> learning_reach jp db'"

section \<open>The four effects\<close>

inductive effect :: "learning_db \<Rightarrow> learning_db \<Rightarrow> bool" where
  effect_beside: "db_proposals db' = db_proposals db \<Longrightarrow> db_versions db' = db_versions db \<Longrightarrow> effect db db'"
| effect_proposes: "get_proposal (proposal_id p) db = None \<Longrightarrow> proposal_id p \<noteq> [] \<Longrightarrow> proposal_status p = ProposalPending
    \<Longrightarrow> effect db (insert_proposal p db)"
| effect_denies: "get_proposal i db = Some p \<Longrightarrow> proposal_status p = ProposalPending
    \<Longrightarrow> effect db (update_proposal_status i ProposalDenied DecisionDenied db)"
| effect_applies: "get_proposal i db = Some p \<Longrightarrow> proposal_status p = ProposalPending
    \<Longrightarrow> d = Approved \<or> d = AutoApplied \<and> proposal_kind p \<noteq> PolicyOverride
    \<Longrightarrow> version_kind v = proposal_kind p \<Longrightarrow> version_number v = next_version_number (proposal_kind p) db
    \<Longrightarrow> version_parent v = map_option version_id (latest_version (proposal_kind p) db)
    \<Longrightarrow> version_proposal v = Some i \<Longrightarrow> version_id v \<noteq> [] \<Longrightarrow> map_of (db_versions db) (version_id v) = None
    \<Longrightarrow> list_all (\<lambda>(_, r). vrow_created r < version_created v) (db_versions db)
    \<Longrightarrow> effect db (update_proposal_status i ProposalApplied d (insert_version v db))"

text \<open>Each table holds what was written, under its own key; versions are in the order of their writing.\<close>

definition readable :: "manifest_version \<Rightarrow> bool" where
  "readable v \<longleftrightarrow> version_id v \<noteq> [] \<and> version_parent v \<noteq> Some [] \<and> version_proposal v \<noteq> Some []"

definition well_kept :: "learning_db \<Rightarrow> bool" where
  "well_kept db \<longleftrightarrow>
     distinct (map fst (db_proposals db)) \<and> distinct (map fst (db_versions db))
     \<and> (\<forall>(i, r) \<in> set (db_proposals db). i \<noteq> [] \<and> (\<exists>p. proposal_id p = i \<and> proposal_columns p = r))
     \<and> (\<forall>(i, r) \<in> set (db_versions db). \<exists>v. readable v \<and> version_id v = i \<and> version_columns v = r)
     \<and> sorted_wrt (\<lambda>a b. vrow_created (snd a) < vrow_created (snd b)) (db_versions db)"

subsection \<open>Association lists\<close>

lemma update_fresh: "map_of al k = None \<Longrightarrow> AList.update k v al = al @ [(k, v)]"
  by (induction al) (auto split: if_splits)

lemma update_members:
  "distinct (map fst al) \<Longrightarrow> (x \<in> set (AList.update k v al)) \<longleftrightarrow> x = (k, v) \<or> (x \<in> set al \<and> fst x \<noteq> k)"
  by (induction al) (auto simp: image_iff)

lemma map_of_update [simp]: "map_of (AList.update k v al) i = (if i = k then Some v else map_of al i)"
  by (simp add: update_conv')

subsection \<open>What the writes change\<close>

lemma writes_beside [simp]:
  "db_proposals (record_event now fresh w ty so oc sg cf pr db) = db_proposals db"
  "db_versions (record_event now fresh w ty so oc sg cf pr db) = db_versions db"
  "db_proposals (insert_policy_decision x q o1 db) = db_proposals db"
  "db_versions (insert_policy_decision x q o1 db) = db_versions db"
  "db_proposals (insert_approval a db) = db_proposals db"
  "db_versions (insert_approval a db) = db_versions db"
  "db_versions (insert_proposal p db) = db_versions db"
  "db_proposals (insert_version v db) = db_proposals db"
  "db_versions (update_proposal_status i s d db) = db_versions db"
  by (simp_all add: record_event_def insert_policy_decision_def insert_approval_def insert_proposal_def
      insert_version_def update_proposal_status_def split: option.splits)

lemma reads_of_tables:
  "db_proposals a = db_proposals b \<Longrightarrow> get_proposal i a = get_proposal i b"
  "db_versions a = db_versions b \<Longrightarrow> get_version i a = get_version i b"
  "db_versions a = db_versions b \<Longrightarrow> version_history k a = version_history k b"
  "db_versions a = db_versions b \<Longrightarrow> latest_version k a = latest_version k b"
  "db_versions a = db_versions b \<Longrightarrow> next_version_number k a = next_version_number k b"
  "db_versions a = db_versions b \<Longrightarrow> unused m a = unused m b"
  by (simp_all add: get_proposal_def get_version_def version_history_def latest_version_def next_version_number_def unused_def)

lemma reads_beside [simp]:
  "get_proposal i (insert_policy_decision x q o1 db) = get_proposal i db"
  "get_proposal i (record_event now fresh w ty so oc sg cf pr db) = get_proposal i db"
  "get_proposal i (insert_version v db) = get_proposal i db"
  "version_history k (insert_policy_decision x q o1 db) = version_history k db"
  "version_history k (record_event now fresh w ty so oc sg cf pr db) = version_history k db"
  "version_history k (insert_proposal p db) = version_history k db"
  "version_history k (update_proposal_status i s d db) = version_history k db"
  "version_history k (insert_approval a db) = version_history k db"
  "latest_version k (insert_policy_decision x q o1 db) = latest_version k db"
  "latest_version k (insert_proposal p db) = latest_version k db"
  "next_version_number k (insert_policy_decision x q o1 db) = next_version_number k db"
  "next_version_number k (insert_proposal p db) = next_version_number k db"
  by (intro reads_of_tables; simp)+

lemma tables_after:
  "db_proposals a = db_proposals b \<Longrightarrow> db_proposals (update_proposal_status i s d a) = db_proposals (update_proposal_status i s d b)"
  "db_versions a = db_versions b \<Longrightarrow> db_versions (insert_version v a) = db_versions (insert_version v b)"
  by (simp_all add: update_proposal_status_def insert_proposal_def insert_version_def get_proposal_def split: option.splits)

lemma get_inserted [simp]:
  "get_proposal i (insert_proposal p db) = (if i = proposal_id p then Some p else get_proposal i db)"
  by (simp add: get_proposal_def insert_proposal_def)

lemma get_proposal_id: "get_proposal i db = Some p \<Longrightarrow> proposal_id p = i"
  by (auto simp: get_proposal_def row_to_proposal_def)

lemma get_updated [simp]:
  "get_proposal i (update_proposal_status j s d db) =
     (if i = j then map_option (\<lambda>p. p\<lparr>proposal_status := s, proposal_decision := d\<rparr>) (get_proposal j db) else get_proposal i db)"
  by (auto simp: update_proposal_status_def dest: get_proposal_id split: option.splits)

section \<open>The effects keep the tables\<close>

lemma well_kept_empty: "well_kept empty_learning"
  by (simp add: well_kept_def empty_learning_def)

lemma well_kept_tables:
  "db_proposals a = db_proposals b \<Longrightarrow> db_versions a = db_versions b \<Longrightarrow> well_kept a = well_kept b"
  by (simp add: well_kept_def)

lemma insert_proposal_keeps:
  assumes "well_kept db" and "proposal_id p \<noteq> []"
  shows "well_kept (insert_proposal p db)"
  using assms by (fastforce simp: well_kept_def insert_proposal_def distinct_update update_members)

lemma update_status_keeps: "well_kept db \<Longrightarrow> well_kept (update_proposal_status i s d db)"
proof -
  assume kept: "well_kept db"
  { fix p
    assume p: "get_proposal i db = Some p"
    then have "i \<noteq> []"
      using kept by (auto simp: well_kept_def get_proposal_def dest: map_of_SomeD)
    with p have "proposal_id (p\<lparr>proposal_status := s, proposal_decision := d\<rparr>) \<noteq> []"
      by (simp add: get_proposal_id) }
  with kept show ?thesis
    by (auto simp: update_proposal_status_def split: option.splits intro!: insert_proposal_keeps)
qed

lemma insert_version_keeps:
  assumes kept: "well_kept db" and v: "readable v" and new: "map_of (db_versions db) (version_id v) = None"
    and late: "list_all (\<lambda>(_, r). vrow_created r < version_created v) (db_versions db)"
  shows "well_kept (insert_version v db)"
  using kept v late unfolding well_kept_def insert_version_def
  by (auto simp: update_fresh [OF new] sorted_wrt_append list_all_iff version_columns_def
      new [unfolded map_of_eq_None_iff] split: prod.splits)

lemma member_reads:
  assumes "well_kept db" and "(i, r) \<in> set (db_versions db)"
  shows "readable (row_to_version i r)" and "version_columns (row_to_version i r) = r" and "version_id (row_to_version i r) = i"
proof -
  obtain v where v: "readable v" "version_id v = i" "version_columns v = r"
    using assms by (fastforce simp: well_kept_def)
  then have "row_to_version i r = v"
    using version_reads_back [of v] by (auto simp: readable_def)
  with v show "readable (row_to_version i r)" "version_columns (row_to_version i r) = r" "version_id (row_to_version i r) = i"
    by auto
qed

section \<open>The history of a manifest\<close>

definition stored :: "learning_db \<Rightarrow> manifest_version list" where
  "stored db = map (\<lambda>(i, r). row_to_version i r) (db_versions db)"

lemma sort_key_strictly:
  assumes same: "mset xs = mset ys" and strict: "sorted_wrt (\<lambda>a b. f a < f b) ys"
  shows "sort_key f xs = ys"
proof (rule properties_for_sort_key)
  show "mset ys = mset xs"
    by (simp add: same)
  show "sorted (map f ys)"
    using strict by (simp add: sorted_wrt_map sorted_wrt_mono_rel [of _ "\<lambda>a b. f a < f b"])
next
  fix k
  assume "k \<in> set ys"
  then obtain as bs where ys: "ys = as @ k # bs"
    by (auto simp: in_set_conv_decomp)
  with strict have "filter (\<lambda>x. f k = f x) as = []" and "filter (\<lambda>x. f k = f x) bs = []"
    by (auto simp: sorted_wrt_append filter_empty_conv)
  with ys have one: "filter (\<lambda>x. f k = f x) ys = [k]"
    by simp
  from same have "mset (filter (\<lambda>x. f k = f x) xs) = mset (filter (\<lambda>x. f k = f x) ys)"
    by simp
  then have "mset (filter (\<lambda>x. f k = f x) xs) = {#k#}"
    by (simp only: one) simp
  then show "filter (\<lambda>x. f k = f x) ys = filter (\<lambda>x. f k = f x) xs"
    by (simp only: one mset_single_iff)
qed

lemma stored_ordered:
  assumes "well_kept db"
  shows "sorted_wrt (\<lambda>a b. version_created a < version_created b) (stored db)"
proof -
  have "sorted_wrt (\<lambda>a b. vrow_created (snd a) < vrow_created (snd b)) (db_versions db)"
    using assms by (simp add: well_kept_def)
  then show ?thesis
    by (simp add: stored_def sorted_wrt_map row_to_version_def case_prod_unfold)
qed

theorem history_is_reversed_table:
  assumes kept: "well_kept db"
  shows "version_history k db = rev (filter (\<lambda>v. version_kind v = k) (stored db))"
  unfolding version_history_def
proof (rule sort_key_strictly)
  have "(case x of (i, r) \<Rightarrow> vrow_kind r = manifest_text k) = (version_kind (case x of (i, r) \<Rightarrow> row_to_version i r) = k)"
    if "x \<in> set (db_versions db)" for x
  proof (cases x)
    case (Pair i r)
    then have "vrow_kind (version_columns (row_to_version i r)) = vrow_kind r"
      using member_reads [OF kept] that by metis
    then have "vrow_kind r = manifest_text (version_kind (row_to_version i r))"
      by (simp add: version_columns_def)
    with Pair show ?thesis
      by simp
  qed
  then have "mset (filter (\<lambda>(i, r). vrow_kind r = manifest_text k) (db_versions db))
      = mset (filter (\<lambda>x. version_kind (case x of (i, r) \<Rightarrow> row_to_version i r) = k) (db_versions db))"
    by (intro arg_cong [where f = mset] filter_cong [OF refl])
  then show "mset (map (\<lambda>(i, r). row_to_version i r)
        (filter (\<lambda>(i, r). vrow_kind r = manifest_text k) (sort_key fst (db_versions db))))
      = mset (rev (filter (\<lambda>v. version_kind v = k) (stored db)))"
    by (simp add: stored_def filter_map o_def)
  show "sorted_wrt (\<lambda>a b. - int (version_created a) < - int (version_created b))
      (rev (filter (\<lambda>v. version_kind v = k) (stored db)))"
    using stored_ordered [OF kept] by (simp add: sorted_wrt_rev sorted_wrt_filter)
qed

lemma stored_inserted:
  "readable v \<Longrightarrow> map_of (db_versions db) (version_id v) = None \<Longrightarrow> stored (insert_version v db) = stored db @ [v]"
  by (simp add: stored_def insert_version_def update_fresh version_reads_back readable_def)

lemma history_inserted:
  assumes kept: "well_kept db" and v: "readable v" and new: "map_of (db_versions db) (version_id v) = None"
    and late: "list_all (\<lambda>(_, r). vrow_created r < version_created v) (db_versions db)"
  shows "version_history k (insert_version v db) = (if k = version_kind v then v # version_history k db else version_history k db)"
  by (simp add: stored_inserted [OF v new] history_is_reversed_table [OF kept] history_is_reversed_table [OF insert_version_keeps [OF assms]])

lemma history_readable:
  assumes "well_kept db" and "v \<in> set (version_history k db)"
  shows "readable v" and "version_kind v = k"
proof -
  from assms have "v \<in> set (stored db)" and "version_kind v = k"
    by (auto simp: history_is_reversed_table)
  then show "readable v" and "version_kind v = k"
    using member_reads(1) [OF assms(1)] by (auto simp: stored_def)
qed

lemma latest_in_history: "latest_version k db = Some v \<Longrightarrow> v \<in> set (version_history k db)"
  by (auto simp: latest_version_def split: list.splits)

section \<open>Every command is a sequence of effects\<close>

lemma applied_version_readable:
  assumes "well_kept db" and "get_proposal i db = Some p" and "version_id v \<noteq> []" and "version_proposal v = Some i"
    and "version_parent v = map_option version_id (latest_version (proposal_kind p) db)"
  shows "readable v"
proof -
  have "i \<noteq> []"
    using assms(1,2) by (auto simp: well_kept_def get_proposal_def dest: map_of_SomeD)
  moreover have "version_id u \<noteq> []" if "latest_version (proposal_kind p) db = Some u" for u
    using history_readable(1) [OF assms(1) latest_in_history [OF that]] by (simp add: readable_def)
  ultimately show ?thesis
    using assms(3-5) by (auto simp: readable_def)
qed

lemma learning_effect_keeps:
  assumes "well_kept db" and "effect db db'"
  shows "well_kept db'"
  using assms(2,1)
proof cases
  case effect_beside
  with assms(1) show ?thesis
    using well_kept_tables by blast
next
  case (effect_proposes p)
  with assms(1) show ?thesis
    by (simp add: insert_proposal_keeps)
next
  case (effect_denies i p)
  with assms(1) show ?thesis
    by (simp add: update_status_keeps)
next
  case (effect_applies i p d v)
  with assms(1) show ?thesis
    by (simp add: update_status_keeps insert_version_keeps applied_version_readable)
qed

lemma effects_keep: "effect\<^sup>*\<^sup>* db db' \<Longrightarrow> well_kept db \<Longrightarrow> well_kept db'"
  by (induction rule: rtranclp_induct) (auto intro: learning_effect_keeps)

lemma beside_then: "effect\<^sup>*\<^sup>* db1 db' \<Longrightarrow> db_proposals db1 = db_proposals db \<Longrightarrow> db_versions db1 = db_versions db \<Longrightarrow> effect\<^sup>*\<^sup>* db db'"
  by (rule converse_rtranclp_into_rtranclp [where r = effect and b = db1]) (rule effect_beside)

lemma then_beside: "effect\<^sup>*\<^sup>* db db1 \<Longrightarrow> db_proposals db' = db_proposals db1 \<Longrightarrow> db_versions db' = db_versions db1 \<Longrightarrow> effect\<^sup>*\<^sup>* db db'"
  using effect_beside [of db' db1] by simp

lemma effect_refl_beside: "db_proposals db' = db_proposals db \<Longrightarrow> db_versions db' = db_versions db \<Longrightarrow> effect\<^sup>*\<^sup>* db db'"
  by (rule r_into_rtranclp [where r = effect]) (rule effect_beside)

lemma apply_version_effects:
  assumes p: "get_proposal i db = Some p" "proposal_status p = ProposalPending"
    and d: "d = Approved \<or> d = AutoApplied \<and> proposal_kind p \<noteq> PolicyOverride" and m: "unused m db"
  shows "effect\<^sup>*\<^sup>* db (fst (apply_version jp m p new_content d approver db))"
proof (cases "resolve_apply_content jp p new_content db")
  case (Inr c)
  define v where "v = create_manifest_version m p (content_json c)
    (map_option version_id (latest_version (proposal_kind p) db)) (content_rollback c) db"
  have applied: "effect db (update_proposal_status i ProposalApplied d (insert_version v db))"
    using m by (intro effect_applies [OF p d])
      (simp_all add: v_def create_manifest_version_def unused_def get_proposal_id [OF p(1)])
  show ?thesis
    by (rule then_beside [OF r_into_rtranclp [where r = effect, OF applied]])
      (simp_all add: apply_version_def Inr Let_def v_def get_proposal_id [OF p(1)])
qed (simp add: apply_version_def)

lemma apply_denied_effects:
  assumes "get_proposal i db = Some p" and "proposal_status p = ProposalPending"
  shows "effect\<^sup>*\<^sup>* db (fst (apply_denied m p db))"
  by (rule then_beside [OF r_into_rtranclp [where r = effect, OF effect_denies [OF assms]]]) (simp_all add: apply_denied_def Let_def get_proposal_id [OF assms(1)])

lemma apply_decision_effects:
  assumes m: "d = Approved \<or> d = AutoApplied \<Longrightarrow> unused m db"
    and auto_ok: "\<And>p. d = AutoApplied \<Longrightarrow> get_proposal i db = Some p \<Longrightarrow> proposal_kind p \<noteq> PolicyOverride"
  shows "effect\<^sup>*\<^sup>* db (fst (apply_decision jp m i d new_content approver db))"
proof (cases "get_proposal i db")
  case (Some p)
  show ?thesis
  proof (cases "proposal_status p = ProposalPending")
    case True
    then show ?thesis
      using m auto_ok [OF _ Some]
      by (cases d) (auto simp: apply_decision_def Some apply_auto_def apply_approved_def apply_pending_approval_def Let_def
          intro: apply_version_effects [OF Some True] apply_denied_effects [OF Some True] effect_refl_beside)
  qed (simp add: apply_decision_def Some)
qed (simp add: apply_decision_def)

lemma evaluation_shape:
  obtains o1 where
    "evaluate_proposal_with_policy fresh p policy n db = (insert_policy_decision (''bpd-'' @ fresh) (proposal_id p) o1 db, outcome_decision o1, [o1])"
    "outcome_decision o1 = AutoApplied \<Longrightarrow> proposal_kind p \<noteq> PolicyOverride"
proof -
  obtain o1 where o1: "evaluate_proposal_with_policy fresh p policy n db
      = (insert_policy_decision (''bpd-'' @ fresh) (proposal_id p) o1 db, outcome_decision o1, [o1])"
    using evaluation_records by blast
  have "outcome_decision o1 = fst (snd (evaluate_proposal_with_policy fresh p policy n db))"
    by (simp add: o1)
  then have "outcome_decision o1 = AutoApplied \<Longrightarrow> proposal_kind p \<noteq> PolicyOverride"
    by (auto simp: evaluate_proposal_with_policy_def auto_applied_iff split: if_splits)
  with o1 show thesis
    by (rule that)
qed


lemma pipeline_shape:
  obtains o1 where
    "evaluate_proposal_autonomous fresh p a n db = (insert_policy_decision (''bpd-'' @ fresh) (proposal_id p) o1 db, outcome_decision o1, [o1])"
    "outcome_decision o1 = AutoApplied \<Longrightarrow> proposal_kind p \<noteq> PolicyOverride"
  by (rule that [of "hd (snd (snd (evaluate_proposal_autonomous fresh p a n db)))"])
    (auto simp: evaluate_proposal_autonomous_def record_rule_def Let_def split: if_splits)

lemma rollback_evaluation_shape:
  obtains o1 where
    "evaluate_proposal fresh p allow n db = (insert_policy_decision (''bpd-'' @ fresh) (proposal_id p) o1 db, outcome_decision o1, [o1])"
    "outcome_decision o1 = AutoApplied \<Longrightarrow> proposal_kind p \<noteq> PolicyOverride"
    "outcome_decision o1 \<noteq> Approved"
  by (rule that [of "hd (snd (snd (evaluate_proposal fresh p allow n db)))"])
    (auto simp: evaluate_proposal_def record_rule_def Let_def split: if_splits)

lemma decide_then_apply:
  assumes m: "unused m db" and p: "get_proposal i db = Some p" and ok: "d = AutoApplied \<Longrightarrow> proposal_kind p \<noteq> PolicyOverride"
  shows "effect\<^sup>*\<^sup>* db (fst (apply_decision jp m i d new_content approver (insert_policy_decision x q o1 db)))"
  by (rule beside_then [OF apply_decision_effects]) (use m p ok in \<open>auto simp: unused_def\<close>)

lemma rollback_effects:
  assumes m: "unused m db" and kept: "well_kept db" and new: "get_proposal (''bp-'' @ fresh_proposal) db = None"
  shows "effect\<^sup>*\<^sup>* db (fst (rollback_to_version_with_auto_apply jp m fresh_proposal fresh_decision target_id workspace reason allow incidents db))"
proof (cases "get_version target_id db")
  case (Some target)
  define head where "head = latest_version (version_kind target) db"
  define p where "p = rollback_proposal (minted_now m) fresh_proposal workspace (version_kind target)
    (case head of Some v \<Rightarrow> version_id v | None \<Rightarrow> []) target_id reason"
  define db1 where "db1 = insert_proposal p db"
  have p_simps: "proposal_id p = ''bp-'' @ fresh_proposal" "proposal_status p = ProposalPending" "proposal_kind p = version_kind target"
    by (simp_all add: p_def rollback_proposal_def)
  have first: "effect db db1"
    unfolding db1_def using new by (intro effect_proposes) (simp_all add: p_simps)
  have m1: "unused m db1" and got: "get_proposal (proposal_id p) db1 = Some p"
    using m by (simp_all add: unused_def db1_def)
  obtain o1 where o1: "evaluate_proposal fresh_decision p allow incidents db1
      = (insert_policy_decision (''bpd-'' @ fresh_decision) (proposal_id p) o1 db1, outcome_decision o1, [o1])"
    and ok: "outcome_decision o1 = AutoApplied \<Longrightarrow> proposal_kind p \<noteq> PolicyOverride"
    using rollback_evaluation_shape [of fresh_decision p allow incidents db1] by blast
  show ?thesis
  proof (cases "outcome_decision o1 = AutoApplied")
    case False
    let ?decided = "apply_decision jp m (proposal_id p) (outcome_decision o1) None (Some ''system'')
      (insert_policy_decision (''bpd-'' @ fresh_decision) (proposal_id p) o1 db1)"
    have "effect\<^sup>*\<^sup>* db (fst ?decided)"
      using converse_rtranclp_into_rtranclp [where r = effect, OF first decide_then_apply [OF m1 got ok]] by simp
    moreover have "fst (rollback_to_version_with_auto_apply jp m fresh_proposal fresh_decision target_id workspace reason allow incidents db)
        = fst ?decided"
      using False by (simp add: rollback_to_version_with_auto_apply_def Some Let_def
          flip: head_def p_def db1_def) (simp add: o1 split: prod.split sum.split flip: head_def p_def db1_def)
    ultimately show ?thesis
      by simp
  next
    case True
    define v where "v = rollback_version m p target head reason"
    have parent: "version_parent v = map_option version_id head"
    proof (cases head)
      case (Some u)
      then have "version_id u \<noteq> []"
        using history_readable(1) [OF kept latest_in_history] by (simp add: head_def readable_def)
      with Some show ?thesis
        by (simp add: v_def rollback_version_def unless_empty_def)
    qed (simp add: v_def rollback_version_def unless_empty_def)
    have second: "effect db1 (update_proposal_status (proposal_id p) ProposalApplied AutoApplied (insert_version v db1))"
      using m ok [OF True] parent
      by (intro effect_applies [OF got p_simps(2)])
        (simp_all add: v_def rollback_version_def p_simps next_version_number_def head_def db1_def unused_def split: option.splits)
    let ?decided = "insert_policy_decision (''bpd-'' @ fresh_decision) (proposal_id p) o1 db1"
    have "fst (rollback_to_version_with_auto_apply jp m fresh_proposal fresh_decision target_id workspace reason allow incidents db)
        = record_event (minted_now m) (''lev-'' @ minted_event m) workspace ManifestRolledBack
            (proposal_id p) (Some (version_id v)) (rollback_signal (version_kind target) target_id reason) 1 []
            (update_proposal_status (proposal_id p) ProposalApplied AutoApplied (insert_version v ?decided))"
      using True by (simp add: rollback_to_version_with_auto_apply_def Some Let_def
          flip: head_def p_def db1_def v_def) (simp add: o1 flip: head_def p_def db1_def v_def)
    then show ?thesis
      by (intro then_beside [OF converse_rtranclp_into_rtranclp [where r = effect, OF first r_into_rtranclp [where r = effect, OF second]]])
        (auto intro: tables_after)
  qed
qed (simp add: rollback_to_version_with_auto_apply_def)


lemma step_effects:
  assumes "learning_step jp db db'" and "well_kept db"
  shows "effect\<^sup>*\<^sup>* db db'"
  using assms
proof cases
  case (step_propose p)
  then show ?thesis
    by (simp add: effect_proposes r_into_rtranclp [where r = effect])
next
  case (step_apply m fresh i policy)
  then show ?thesis
  proof (cases "get_proposal i db")
    case (Some p)
    obtain o1 where "evaluate_proposal_with_policy fresh p policy (false_completions db) db
        = (insert_policy_decision (''bpd-'' @ fresh) (proposal_id p) o1 db, outcome_decision o1, [o1])"
      and "outcome_decision o1 = AutoApplied \<Longrightarrow> proposal_kind p \<noteq> PolicyOverride"
      using evaluation_shape [of fresh p policy "false_completions db" db] by blast
    with Some step_apply show ?thesis
      by (auto simp: behaviour_apply_def intro: effect_refl_beside decide_then_apply)
  qed (simp add: behaviour_apply_def)
next
  case (step_rollback m fresh_proposal target fresh_decision reason policy)
  with assms(2) show ?thesis
    by (auto simp: behaviour_rollback_def rollback_to_version_with_policy_def intro!: rollback_effects split: option.splits)
next
  case (step_tick m p fresh policy incidents)
  obtain o1 where "evaluate_proposal_with_policy fresh p policy incidents db
      = (insert_policy_decision (''bpd-'' @ fresh) (proposal_id p) o1 db, outcome_decision o1, [o1])"
    and "outcome_decision o1 = AutoApplied \<Longrightarrow> proposal_kind p \<noteq> PolicyOverride"
    using evaluation_shape [of fresh p policy incidents db] by blast
  with step_tick show ?thesis
    by (auto simp: tick_proposal_def intro: effect_refl_beside decide_then_apply)
next
  case (step_pipeline m p fresh autonomy)
  obtain o1 where "evaluate_proposal_autonomous fresh p autonomy 0 db
      = (insert_policy_decision (''bpd-'' @ fresh) (proposal_id p) o1 db, outcome_decision o1, [o1])"
    and "outcome_decision o1 = AutoApplied \<Longrightarrow> proposal_kind p \<noteq> PolicyOverride"
    using pipeline_shape [of fresh p autonomy 0 db] by blast
  with step_pipeline show ?thesis
    by (auto simp: evaluate_and_apply_generated_def intro: effect_refl_beside decide_then_apply)
qed (auto simp: behaviour_approve_def behaviour_deny_def intro: effect_refl_beside intro!: apply_decision_effects)

section \<open>Invariants of governed learning\<close>

text \<open>A fact that holds of the empty database and that every effect keeps.\<close>

locale learning_invariant =
  fixes kept :: "learning_db \<Rightarrow> bool"
  assumes kept_empty: "kept empty_learning"
    and kept_effect: "well_kept db \<Longrightarrow> kept db \<Longrightarrow> effect db db' \<Longrightarrow> kept db'"
begin

lemma kept_effects: "effect\<^sup>*\<^sup>* db db' \<Longrightarrow> well_kept db \<Longrightarrow> kept db \<Longrightarrow> kept db'"
  by (induction rule: rtranclp_induct) (auto intro: kept_effect effects_keep)

lemma kept_reachable: "learning_reach jp db \<Longrightarrow> well_kept db \<and> kept db"
proof (induction rule: learning_reach.induct)
  case reach_empty
  show ?case
    using kept_empty well_kept_empty by simp
next
  case (reach_step db db')
  then show ?case
    using step_effects effects_keep kept_effects by blast
qed

end

text \<open>A history, newest first, is a chain.\<close>

fun chained :: "manifest_version list \<Rightarrow> bool" where
  "chained [] \<longleftrightarrow> True"
| "chained (v # vs) \<longleftrightarrow> version_number v = int (length vs) + 1
     \<and> version_parent v = (case vs of [] \<Rightarrow> None | u # _ \<Rightarrow> Some (version_id u)) \<and> chained vs"

lemma effect_history:
  assumes kept: "well_kept db" and eff: "effect db db'"
  shows "version_history k db' = version_history k db \<or>
    (\<exists>v. version_history k db' = v # version_history k db \<and> version_number v = next_version_number k db
       \<and> version_parent v = map_option version_id (latest_version k db))"
  using eff
proof cases
  case effect_beside
  then show ?thesis
    using reads_of_tables(3) by blast
next
  case (effect_applies i p d v)
  with kept show ?thesis
    by (auto simp: history_inserted applied_version_readable)
qed simp_all

interpretation chains: learning_invariant "\<lambda>db. \<forall>k. chained (version_history k db)"
proof
  show "\<forall>k. chained (version_history k empty_learning)"
    by (simp add: version_history_def empty_learning_def)
next
  fix db db'
  assume kept: "well_kept db" and chain: "\<forall>k. chained (version_history k db)" and eff: "effect db db'"
  show "\<forall>k. chained (version_history k db')"
  proof
    fix k
    have "chained (version_history k db)"
      using chain by simp
    with effect_history [OF kept eff, of k] show "chained (version_history k db')"
      by (cases "version_history k db") (auto simp: next_version_number_def latest_version_def)
  qed
qed

text \<open>Versions and applied proposals correspond one to one, and only a person applies an override.\<close>

definition deciding :: "manifest_version \<Rightarrow> proposal \<Rightarrow> bool" where
  "deciding v p \<longleftrightarrow> version_proposal v = Some (proposal_id p) \<and> proposal_kind p = version_kind v
     \<and> proposal_status p = ProposalApplied
     \<and> (proposal_decision p = Approved \<or> proposal_decision p = AutoApplied \<and> proposal_kind p \<noteq> PolicyOverride)"

definition ledger :: "learning_db \<Rightarrow> bool" where
  "ledger db \<longleftrightarrow> distinct (map version_proposal (stored db))
     \<and> (\<forall>v \<in> set (stored db). \<exists>q p. get_proposal q db = Some p \<and> deciding v p)
     \<and> (\<forall>q p. get_proposal q db = Some p \<longrightarrow> proposal_status p = ProposalApplied \<longrightarrow> (\<exists>v \<in> set (stored db). deciding v p))"

lemma ledger_tables: "db_proposals a = db_proposals b \<Longrightarrow> db_versions a = db_versions b \<Longrightarrow> ledger a = ledger b"
  by (simp add: ledger_def stored_def get_proposal_def)

lemma stored_beside [simp]:
  "stored (insert_proposal p db) = stored db"
  "stored (update_proposal_status i s d db) = stored db"
  by (simp_all add: stored_def)

lemma ledgerI [intro]:
  assumes "distinct (map version_proposal (stored db))"
    and "\<And>v. v \<in> set (stored db) \<Longrightarrow> \<exists>q p. get_proposal q db = Some p \<and> deciding v p"
    and "\<And>q p. get_proposal q db = Some p \<Longrightarrow> proposal_status p = ProposalApplied \<Longrightarrow> \<exists>v \<in> set (stored db). deciding v p"
  shows "ledger db"
  using assms by (simp add: ledger_def)

lemma ledger_version:
  assumes "ledger db" and "v \<in> set (stored db)"
  obtains q p where "get_proposal q db = Some p" "deciding v p" "proposal_status p = ProposalApplied" "version_proposal v = Some q"
  using assms get_proposal_id by (fastforce simp: ledger_def deciding_def)

lemma ledger_proposal:
  assumes "ledger db" and "get_proposal q db = Some p" and "proposal_status p = ProposalApplied"
  obtains v where "v \<in> set (stored db)" "deciding v p"
  using assms unfolding ledger_def by blast

text \<open>A change of proposals that are not applied, before or after, leaves the ledger as it is.\<close>

lemma ledger_unaffected:
  assumes led: "ledger db" and same: "stored db' = stored db"
    and applied: "\<And>q p. proposal_status p = ProposalApplied \<Longrightarrow> get_proposal q db' = Some p \<longleftrightarrow> get_proposal q db = Some p"
  shows "ledger db'"
proof
  show "distinct (map version_proposal (stored db'))"
    using led by (simp add: ledger_def same)
  show "\<exists>q p. get_proposal q db' = Some p \<and> deciding v p" if v: "v \<in> set (stored db')" for v
    using ledger_version [OF led v [unfolded same]] applied by metis
  show "\<exists>v \<in> set (stored db'). deciding v p" if "get_proposal q db' = Some p" "proposal_status p = ProposalApplied" for q p
    using ledger_proposal [OF led] that applied same by metis
qed

lemma ledger_applied:
  assumes led: "ledger db" and p: "get_proposal i db = Some p" "proposal_status p = ProposalPending"
    and new: "stored db' = stored db @ [v]"
    and mine: "get_proposal i db' = Some p'" "proposal_status p' = ProposalApplied" "deciding v p'"
    and others: "\<And>q. q \<noteq> i \<Longrightarrow> get_proposal q db' = get_proposal q db"
  shows "ledger db'"
proof -
  have olds: "q \<noteq> i" if "get_proposal q db = Some r" "proposal_status r = ProposalApplied" for q r
    using that p by auto
  have i: "version_proposal v = Some i"
    using mine get_proposal_id by (auto simp: deciding_def)
  show ?thesis
  proof
    have "version_proposal u \<noteq> Some i" if "u \<in> set (stored db)" for u
      using ledger_version [OF led that] olds by (metis option.inject)
    then have "Some i \<notin> version_proposal ` set (stored db)"
      by (metis imageE)
    then show "distinct (map version_proposal (stored db'))"
      using led by (simp add: ledger_def new i)
    show "\<exists>q p. get_proposal q db' = Some p \<and> deciding u p" if "u \<in> set (stored db')" for u
    proof (cases "u \<in> set (stored db)")
      case True
      then show ?thesis
        using ledger_version [OF led True] olds others by metis
    next
      case False
      with that mine show ?thesis
        by (auto simp: new)
    qed
    show "\<exists>u \<in> set (stored db'). deciding u r" if "get_proposal q db' = Some r" "proposal_status r = ProposalApplied" for q r
    proof (cases "q = i")
      case True
      with that mine show ?thesis
        by (simp add: new)
    next
      case False
      then show ?thesis
        using ledger_proposal [OF led] that others by (metis Un_iff new set_append)
    qed
  qed
qed

lemma ledger_effect:
  assumes kept: "well_kept db" and led: "ledger db" and eff: "effect db db'"
  shows "ledger db'"
  using eff
proof cases
  case effect_beside
  with led show ?thesis
    using ledger_tables by blast
next
  case (effect_proposes p)
  then show ?thesis
    by (intro ledger_unaffected [OF led]) auto
next
  case (effect_denies i p)
  then show ?thesis
    by (intro ledger_unaffected [OF led]) (auto split: if_splits)
next
  case (effect_applies i p d v)
  have v: "readable v"
    by (rule applied_version_readable) (use kept effect_applies in auto)
  show ?thesis
    by (rule ledger_applied [OF led effect_applies(2,3)])
      (use effect_applies v in \<open>auto simp: stored_inserted deciding_def get_proposal_id\<close>)
qed

interpretation decisions: learning_invariant ledger
proof
  show "ledger empty_learning"
    by (simp add: ledger_def stored_def empty_learning_def get_proposal_def)
qed (rule ledger_effect)


section \<open>Properties\<close>

lemma chained_numbers: "chained vs \<Longrightarrow> map version_number vs = rev [1..int (length vs)]"
  by (induction vs) (auto simp: upto_rec2)

lemma chained_parents:
  "chained vs \<Longrightarrow> map version_parent vs = map (\<lambda>v. Some (version_id v)) (tl vs) @ (if vs = [] then [] else [None])"
  by (induction vs rule: chained.induct) (auto split: list.splits)

text \<open>
  C3. After any sequence of commands the history of a manifest, newest first, is numbered down to one
  without a gap, and every version names the next older one as its parent; the oldest names none.
\<close>

theorem manifest_history_is_a_chain:
  assumes "learning_reach jp db"
  shows "map version_number (version_history k db) = rev [1..int (length (version_history k db))]
    \<and> map version_parent (version_history k db) = map (\<lambda>v. Some (version_id v)) (tl (version_history k db))
      @ (if version_history k db = [] then [] else [None])"
  using chains.kept_reachable [OF assms] by (simp_all add: chained_numbers chained_parents)

text \<open>
  C4. After any sequence of commands, every version stems from one proposal of its kind that was
  applied, and every applied proposal from which a version stems made exactly one. A version of the
  kind that overrides policy stems from a proposal that a person approved.
\<close>

theorem versions_have_one_decision:
  assumes "learning_reach jp db" and "v \<in> set (version_history k db)"
  shows "\<exists>p. get_proposal (proposal_id p) db = Some p \<and> version_proposal v = Some (proposal_id p)
    \<and> proposal_kind p = k \<and> proposal_status p = ProposalApplied
    \<and> (if k = PolicyOverride then proposal_decision p = Approved else proposal_decision p \<in> {Approved, AutoApplied})
    \<and> {u \<in> set (version_history k db). version_proposal u = Some (proposal_id p)} = {v}"
proof -
  have kept: "well_kept db" and led: "ledger db"
    using decisions.kept_reachable [OF assms(1)] by simp_all
  have v: "v \<in> set (stored db)" "version_kind v = k"
    using assms(2) by (auto simp: history_is_reversed_table [OF kept])
  obtain q p where p: "get_proposal q db = Some p" "deciding v p" "version_proposal v = Some q"
    using ledger_version [OF led v(1)] by metis
  have inj: "inj_on version_proposal (set (stored db))"
    using led by (simp add: ledger_def distinct_map)
  have "u = v" if "u \<in> set (stored db)" "version_proposal u = Some q" for u
    using inj_onD [OF inj, of u v] v(1) p(3) that by simp
  moreover have "set (version_history k db) = {u \<in> set (stored db). version_kind u = k}"
    by (auto simp: history_is_reversed_table [OF kept])
  ultimately have "{u \<in> set (version_history k db). version_proposal u = Some q} = {v}"
    using v p(3) by blast
  moreover have "proposal_id p = q"
    using p(1) by (rule get_proposal_id)
  ultimately show ?thesis
    using v(2) p by (intro exI [of _ p]) (auto simp: deciding_def)
qed




lemma rollback_history:
  assumes kept: "well_kept db" and m: "unused m db"
  shows "case rollback_to_version_with_auto_apply jp m fresh_proposal fresh_decision target_id workspace reason allow incidents db of
     (db', Inl e) \<Rightarrow> db' = db
   | (db', Inr r) \<Rightarrow>
       (case rolled_version r of
          None \<Rightarrow> version_history k db' = version_history k db
        | Some v \<Rightarrow> version_history k db' = (if k = version_kind v then v # version_history k db else version_history k db)
            \<and> map_option version_content (get_version target_id db) = Some (version_content v)
            \<and> map_option version_kind (get_version target_id db) = Some (version_kind v))"
proof (cases "get_version target_id db")
  case (Some target)
  define head where "head = latest_version (version_kind target) db"
  define p where "p = rollback_proposal (minted_now m) fresh_proposal workspace (version_kind target)
    (case head of Some v \<Rightarrow> version_id v | None \<Rightarrow> []) target_id reason"
  define v where "v = rollback_version m p target head reason"
  obtain o1 where o1: "evaluate_proposal fresh_decision p allow incidents (insert_proposal p db)
      = (insert_policy_decision (''bpd-'' @ fresh_decision) (proposal_id p) o1 (insert_proposal p db), outcome_decision o1, [o1])"
    and d: "outcome_decision o1 \<in> {AutoApplied, PendingApproval}"
    using rollback_evaluation_shape [of fresh_decision p allow incidents "insert_proposal p db"]
      evaluated_decisions(1) [of fresh_decision p allow incidents "insert_proposal p db"] by (metis fst_conv snd_conv)
  define db2 where "db2 = insert_policy_decision (''bpd-'' @ fresh_decision) (proposal_id p) o1 (insert_proposal p db)"
  have o2: "evaluate_proposal fresh_decision p allow incidents (insert_proposal p db) = (db2, outcome_decision o1, [o1])"
    by (simp add: o1 db2_def)
  have tables: "db_versions db2 = db_versions db"
    by (simp add: db2_def)
  have "readable v"
    by (simp add: v_def readable_def rollback_version_def unless_empty_def p_def rollback_proposal_def)
  moreover have "map_of (db_versions db) (version_id v) = None"
      "list_all (\<lambda>(_, r). vrow_created r < version_created v) (db_versions db)"
    using m by (simp_all add: unused_def v_def rollback_version_def)
  ultimately have new: "version_history k (insert_version v db2) = (if k = version_kind v then v # version_history k db else version_history k db)"
    using history_inserted [OF kept, of v k] reads_of_tables(3) [OF tables_after(2) [OF tables]] by simp
  have v: "version_content v = version_content target" "version_kind v = version_kind target"
    by (simp_all add: v_def rollback_version_def)
  have "proposal_status p = ProposalPending"
    by (simp add: p_def rollback_proposal_def)
  then have pending: "apply_decision jp m (proposal_id p) PendingApproval None approver db2 = apply_pending_approval m p approver db2" for approver
    by (simp add: apply_decision_def db2_def)
  show ?thesis
    using d by (auto simp: rollback_to_version_with_auto_apply_def Some Let_def v pending new apply_pending_approval_def
        o2 reads_of_tables(3) [OF tables] simp flip: head_def p_def v_def)
qed (simp add: rollback_to_version_with_auto_apply_def)


section \<open>Examples\<close>

definition no_patches :: "unit json_patch" where
  "no_patches = \<lparr>parse_patch = (\<lambda>_. Inl ''unused''), run_patch = (\<lambda>_ j. Inr j)\<rparr>"

definition sample_minted :: minted where
  "sample_minted = \<lparr>minted_now = 7, minted_version = ''1'', minted_event = ''e'', minted_approval = ''a''\<rparr>"

definition sample_override :: proposal where
  "sample_override =
     \<lparr>proposal_id = ''bp-1'', proposal_workspace = ''w'', proposal_kind = PolicyOverride, proposal_current = ''none'',
      proposal_proposed = ''v-1'', proposal_diff = ''allow more'', proposal_evidence = [''lev-0''], proposal_risk = CriticalRisk,
      proposal_decision = PendingApproval, proposal_status = ProposalPending, proposal_created = 3\<rparr>"

definition sample_db :: learning_db where
  "sample_db = behaviour_approve no_patches sample_minted ''bp-1'' (insert_proposal sample_override empty_learning)"

definition sample_version :: manifest_version where
  "sample_version = \<lparr>version_id = ''bmv-1'', version_kind = PolicyOverride, version_number = 1,
     version_content = diff_content sample_override, version_diff = ''allow more'', version_parent = None,
     version_proposal = Some ''bp-1'', version_rollback = False, version_created = 7\<rparr>"

lemma sample_reached: "learning_reach no_patches sample_db"
proof -
  have "learning_reach no_patches (insert_proposal sample_override empty_learning)"
    by (rule reach_step [OF reach_empty step_propose]) (simp_all add: sample_override_def get_proposal_def empty_learning_def)
  moreover have "unused sample_minted (insert_proposal sample_override empty_learning)"
    by (simp add: unused_def insert_proposal_def empty_learning_def)
  ultimately show ?thesis
    unfolding sample_db_def by (rule reach_step [OF _ step_approve])
qed

lemma sample_history: "version_history PolicyOverride sample_db = [sample_version]"
  by code_simp

theorem manifest_history_is_a_chain_witness:
  "map version_number (version_history PolicyOverride sample_db) = [1]
   \<and> map version_parent (version_history PolicyOverride sample_db) = [None]"
  using manifest_history_is_a_chain [OF sample_reached, of PolicyOverride] by (simp add: sample_history)

theorem versions_have_one_decision_witness:
  "\<exists>p. get_proposal (proposal_id p) sample_db = Some p \<and> proposal_decision p = Approved"
  using versions_have_one_decision [OF sample_reached, of sample_version PolicyOverride] by (auto simp: sample_history)

definition later_minted :: minted where
  "later_minted = \<lparr>minted_now = 9, minted_version = ''2'', minted_event = ''f'', minted_approval = ''b''\<rparr>"

lemma later_unused: "unused later_minted sample_db"
  by code_simp


text \<open>
  Under autonomous learning neither the approval gates nor the rule that high risk is never applied
  without a person hold: the policy below demands approval of prompt changes and denies this one, and
  a prompt change of high risk applies itself.
\<close>

definition trusting_policy :: effective_policy where
  "trusting_policy = default_effective_policy
     \<lparr>policy_learning := default_learning_policy
        \<lparr>learning_autonomous_apply := True, learning_autonomous_max_risk := ''High'',
         learning_require_approval_for_prompt_changes := True\<rparr>\<rparr>"

definition prompt_change :: proposal where
  "prompt_change = sample_override\<lparr>proposal_kind := PromptProfile, proposal_risk := HighRisk,
     proposal_evidence := [''a'', ''b'', ''c'', ''d'', ''e'']\<rparr>"

lemma approval_gates_are_skipped:
  "\<not> decision_allowed (learning_auto_apply_decision trusting_policy (manifest_text (proposal_kind prompt_change))
      (risk_text (proposal_risk prompt_change)))
   \<and> learning_require_approval_for_prompt_changes (policy_learning trusting_policy) \<and> is_high_risk (proposal_risk prompt_change)
   \<and> fst (snd (evaluate_proposal_with_policy ''x'' prompt_change trusting_policy 0 empty_learning)) = AutoApplied"
  by code_simp

end
