(* ===== verification/Provenance_Trace.thy ===== *)
theory Provenance_Trace imports Rust_Text Rust_Base "HOL-Library.AList" "HOL-Library.Multiset" begin

text \<open>
  Where an artifact comes from: \<^verbatim>\<open>crates/archon-provenance/src\<close> (\<^verbatim>\<open>record.rs\<close>, \<^verbatim>\<open>chain.rs\<close>,
  \<^verbatim>\<open>store.rs\<close>, \<^verbatim>\<open>traverse.rs\<close>, \<^verbatim>\<open>verify.rs\<close>). A relation that does not exist reads as an empty one.
  Relations are association lists; a query without a key gives its rows in the order of their keys. The hash
  function SHA-256, as hexadecimal text, and the JSON reader of stored parameters are parameters.
\<close>

section \<open>Records and edges\<close>

datatype edge_type = DerivedFrom | Contains | ExtractedFrom | Describes | Cites | GeneratedBy | UsedBy

primrec edge_type_str :: "edge_type \<Rightarrow> string" where
  "edge_type_str DerivedFrom = ''DerivedFrom''"
| "edge_type_str Contains = ''Contains''"
| "edge_type_str ExtractedFrom = ''ExtractedFrom''"
| "edge_type_str Describes = ''Describes''"
| "edge_type_str Cites = ''Cites''"
| "edge_type_str GeneratedBy = ''GeneratedBy''"
| "edge_type_str UsedBy = ''Used''"

definition parse_edge_type :: "string \<Rightarrow> edge_type" where
  "parse_edge_type value =
     (let normalized = to_lowercase (filter (\<lambda>c. c \<notin> {CHR ''-'', CHR ''_'', CHR '' ''}) value)
      in if normalized = ''contains'' then Contains else if normalized = ''extractedfrom'' then ExtractedFrom
         else if normalized = ''describes'' then Describes else if normalized = ''cites'' then Cites
         else if normalized = ''generatedby'' then GeneratedBy else if normalized = ''used'' then UsedBy
         else DerivedFrom)"

record provenance_record =
  pr_id :: string
  pr_artifact :: string
  pr_type :: string
  pr_operation :: string
  pr_inputs :: "string list"
  pr_output :: string
  pr_parents :: "string list"
  pr_tool :: "string option"
  pr_agent :: "string option"
  pr_model :: "string option"
  pr_parameters :: string
  pr_timestamp :: string
  pr_chain :: string

record provenance_edge =
  pe_id :: string
  pe_from :: string
  pe_to :: string
  pe_type :: edge_type
  pe_created :: string

record edge_row =
  prov_from :: string
  prov_to :: string
  prov_type :: string
  prov_created :: string

record chunk_row =
  chunk_document :: string
  chunk_start :: int
  chunk_end :: int
  chunk_hash :: string

record provenance_db =
  pdb_records :: "(string \<times> provenance_record) list"
  pdb_edges :: "(string \<times> edge_row) list"
  pdb_doc_edges :: "(string \<times> edge_row) list"
  pdb_gt_edges :: "(string \<times> edge_row) list"
  pdb_chunks :: "(string \<times> chunk_row) list"
  pdb_pages :: "(string \<times> string) list"
  pdb_artifacts :: "(string \<times> string \<times> string \<times> string) list"
  pdb_sources :: "(string \<times> string) list"

text \<open>An absent tool, agent or model is written as the empty text, and read back as absent.\<close>

definition absent_if_empty :: "string option \<Rightarrow> string option" where
  "absent_if_empty v = (case v of Some s \<Rightarrow> if s = [] then None else Some s | None \<Rightarrow> None)"

definition insert_record :: "provenance_record \<Rightarrow> provenance_db \<Rightarrow> provenance_db" where
  "insert_record r db =
     db\<lparr>pdb_records := AList.update (pr_id r)
          (r\<lparr>pr_tool := absent_if_empty (pr_tool r), pr_agent := absent_if_empty (pr_agent r),
             pr_model := absent_if_empty (pr_model r)\<rparr>) (pdb_records db)\<rparr>"

definition insert_edge :: "provenance_edge \<Rightarrow> provenance_db \<Rightarrow> provenance_db" where
  "insert_edge e db =
     db\<lparr>pdb_edges := AList.update (pe_id e)
          \<lparr>prov_from = pe_from e, prov_to = pe_to e, prov_type = edge_type_str (pe_type e), prov_created = pe_created e\<rparr>
          (pdb_edges db)\<rparr>"

definition get_record :: "provenance_db \<Rightarrow> string \<Rightarrow> provenance_record option" where
  "get_record db i = map_of (pdb_records db) i"

definition get_record_by_artifact :: "provenance_db \<Rightarrow> string \<Rightarrow> provenance_record option" where
  "get_record_by_artifact db artifact =
     (case filter (\<lambda>(_, r). pr_artifact r = artifact) (sort_key fst (pdb_records db)) of
        [] \<Rightarrow> None | (_, r) # _ \<Rightarrow> Some r)"

definition row_to_edge :: "string \<Rightarrow> edge_row \<Rightarrow> provenance_edge" where
  "row_to_edge i r =
     \<lparr>pe_id = i, pe_from = prov_from r, pe_to = prov_to r, pe_type = parse_edge_type (prov_type r), pe_created = prov_created r\<rparr>"

definition edges_from :: "(string \<times> edge_row) list \<Rightarrow> string \<Rightarrow> provenance_edge list" where
  "edges_from relation artifact =
     map (\<lambda>(i, r). row_to_edge i r) (filter (\<lambda>(_, r). prov_from r = artifact) (sort_key fst relation))"

definition list_edges_from :: "provenance_db \<Rightarrow> string \<Rightarrow> provenance_edge list" where
  "list_edges_from db = edges_from (pdb_edges db)"

definition list_edges_to :: "provenance_db \<Rightarrow> string \<Rightarrow> provenance_edge list" where
  "list_edges_to db artifact =
     map (\<lambda>(i, r). row_to_edge i r) (filter (\<lambda>(_, r). prov_to r = artifact) (sort_key fst (pdb_edges db)))"

lemma edge_type_reads_back [simp]: "parse_edge_type (edge_type_str t) = t"
  by (cases t) (simp_all add: parse_edge_type_def to_lowercase_def lower_char_def is_ascii_upper_def code_def char_of_def bit_0 Let_def)

section \<open>The chain hash\<close>

definition nul :: char where
  "nul = CHR 0x00"

definition hash_one :: "string \<Rightarrow> string" where
  "hash_one value = value @ [nul]"

definition chain_input ::
    "string list \<Rightarrow> string \<Rightarrow> string list \<Rightarrow> string \<Rightarrow> string option \<Rightarrow> string option \<Rightarrow> string \<Rightarrow> string" where
  "chain_input parents operation inputs output tool model parameters =
     concat (map hash_one parents) @ hash_one operation @ concat (map hash_one inputs) @ hash_one output
       @ hash_one (case tool of Some t \<Rightarrow> t | None \<Rightarrow> []) @ hash_one (case model of Some m \<Rightarrow> m | None \<Rightarrow> [])
       @ hash_one parameters"

definition chain_hash_from_str ::
    "(string \<Rightarrow> string) \<Rightarrow> string list \<Rightarrow> string \<Rightarrow> string list \<Rightarrow> string \<Rightarrow> string option \<Rightarrow> string option \<Rightarrow> string \<Rightarrow> string" where
  "chain_hash_from_str sha parents operation inputs output tool model parameters =
     sha (chain_input parents operation inputs output tool model parameters)"

section \<open>Edges of an artifact\<close>

definition synthetic_edge :: "(string \<Rightarrow> string) \<Rightarrow> string \<Rightarrow> string \<Rightarrow> edge_type \<Rightarrow> provenance_edge" where
  "synthetic_edge sha src target type =
     \<lparr>pe_id = ''edge-synth-'' @ take 16 (chain_hash_from_str sha [] ''synthetic-edge'' [src, target] (edge_type_str type) None None ''{}''),
      pe_from = src, pe_to = target, pe_type = type, pe_created = ''synthetic''\<rparr>"

text \<open>The pages of a chunk, at least one: the numbers are cut to 32 bits after they were made positive.\<close>

definition chunk_to_page_edges :: "(string \<Rightarrow> string) \<Rightarrow> provenance_db \<Rightarrow> string \<Rightarrow> provenance_edge list" where
  "chunk_to_page_edges sha db chunk =
     (case map_of (pdb_chunks db) chunk of
        None \<Rightarrow> []
      | Some r \<Rightarrow>
          let first = unat (word_of_int (max (chunk_start r) 1) :: u32);
              end = unat (word_of_int (max (chunk_end r) (int first)) :: u32)
          in map (\<lambda>page. synthetic_edge sha chunk (''page-'' @ chunk_document r @ ''-'' @ show_nat page) ExtractedFrom)
               [first..<Suc end])"

definition page_to_document_edge :: "(string \<Rightarrow> string) \<Rightarrow> provenance_db \<Rightarrow> string \<Rightarrow> provenance_edge list" where
  "page_to_document_edge sha db page =
     (case map_of (pdb_pages db) page of None \<Rightarrow> [] | Some document \<Rightarrow> [synthetic_edge sha page document ExtractedFrom])"

definition artifact_to_document_edge :: "(string \<Rightarrow> string) \<Rightarrow> provenance_db \<Rightarrow> string \<Rightarrow> provenance_edge list" where
  "artifact_to_document_edge sha db artifact =
     (case map_of (pdb_artifacts db) artifact of
        None \<Rightarrow> [] | Some (document, _) \<Rightarrow> [synthetic_edge sha artifact document DerivedFrom])"

definition synthetic_doc_edges :: "(string \<Rightarrow> string) \<Rightarrow> provenance_db \<Rightarrow> string \<Rightarrow> provenance_edge list" where
  "synthetic_doc_edges sha db artifact =
     chunk_to_page_edges sha db artifact @ page_to_document_edge sha db artifact @ artifact_to_document_edge sha db artifact"

definition outgoing_edges :: "(string \<Rightarrow> string) \<Rightarrow> provenance_db \<Rightarrow> string \<Rightarrow> provenance_edge list" where
  "outgoing_edges sha db artifact =
     list_edges_from db artifact @ edges_from (pdb_doc_edges db) artifact @ edges_from (pdb_gt_edges db) artifact
       @ synthetic_doc_edges sha db artifact"

lemma outgoing_from: "e \<in> set (outgoing_edges sha db x) \<Longrightarrow> pe_from e = x"
  by (auto simp: outgoing_edges_def list_edges_from_def edges_from_def row_to_edge_def synthetic_doc_edges_def
      chunk_to_page_edges_def page_to_document_edge_def artifact_to_document_edge_def synthetic_edge_def Let_def
      split: option.splits)

section \<open>Tracing\<close>

record trace_node =
  node_artifact :: string
  node_type :: string
  node_hash :: "string option"

definition describe_node :: "provenance_db \<Rightarrow> string \<Rightarrow> trace_node" where
  "describe_node db x =
     (case map_of (pdb_sources db) x of
        Some hash \<Rightarrow> \<lparr>node_artifact = x, node_type = ''source_document'', node_hash = Some hash\<rparr>
      | None \<Rightarrow>
          (case map_of (pdb_artifacts db) x of
             Some (_, type, hash) \<Rightarrow> \<lparr>node_artifact = x, node_type = type, node_hash = Some hash\<rparr>
           | None \<Rightarrow>
               if map_of (pdb_pages db) x \<noteq> None then \<lparr>node_artifact = x, node_type = ''page'', node_hash = None\<rparr>
               else (case map_of (pdb_chunks db) x of
                       Some r \<Rightarrow> \<lparr>node_artifact = x, node_type = ''chunk'', node_hash = Some (chunk_hash r)\<rparr>
                     | None \<Rightarrow> \<lparr>node_artifact = x, node_type = ''artifact'', node_hash = None\<rparr>)))"

record provenance_trace =
  trace_start :: string
  trace_nodes :: "trace_node list"
  trace_edges :: "provenance_edge list"

definition reaches_source :: "provenance_trace \<Rightarrow> bool" where
  "reaches_source t \<longleftrightarrow> list_ex (\<lambda>n. node_type n = ''source_document'') (trace_nodes t)"

definition edge_key :: "provenance_edge \<Rightarrow> string" where
  "edge_key e = pe_from e @ nul # pe_to e @ nul # edge_type_str (pe_type e)"

text \<open>The edges whose key was not seen before, each key once.\<close>

fun unseen_edges :: "string list \<Rightarrow> provenance_edge list \<Rightarrow> provenance_edge list" where
  "unseen_edges seen [] = []"
| "unseen_edges seen (e # es) =
     (if edge_key e \<in> set seen then unseen_edges seen es else e # unseen_edges (edge_key e # seen) es)"

text \<open>
  The queue of the search with the depth of each entry, the visited artifacts in reverse, and the edges
  taken so far. An entry that is taken from the queue is replaced by deeper ones.
\<close>

lemma replaced_by_smaller: "\<forall>k \<in># K. k < a \<Longrightarrow> (I + K, add_mset a I) \<in> mult less_than"
  using one_step_implies_mult [of "{#a#}" K less_than I] by simp

function trace_walk ::
    "(string \<Rightarrow> provenance_edge list) \<Rightarrow> nat \<Rightarrow> (string \<times> nat) list \<Rightarrow> string list \<Rightarrow> provenance_edge list
      \<Rightarrow> string list \<times> provenance_edge list" where
  "trace_walk outgoing limit [] seen edges = (rev seen, edges)"
| "trace_walk outgoing limit ((x, d) # queue) seen edges =
     (if x \<in> set seen then trace_walk outgoing limit queue seen edges
      else if limit \<le> d then trace_walk outgoing limit queue (x # seen) edges
      else let new = unseen_edges (map edge_key edges) (outgoing x)
           in trace_walk outgoing limit (queue @ map (\<lambda>e. (pe_to e, Suc d)) new) (x # seen) (edges @ new))"
  by pat_completeness auto

termination
proof (relation "inv_image (mult less_than) (\<lambda>(_, limit, queue, _, _). mset (map (\<lambda>(_, d). Suc limit - d) queue))")
  show "wf (inv_image (mult less_than) (\<lambda>(_, limit, queue, _, _). mset (map (\<lambda>(_, d). Suc limit - d) queue)))"
    by (intro wf_inv_image wf_mult wf_less_than)
qed (auto intro!: replaced_by_smaller replaced_by_smaller [of "{#}", simplified])

definition trace_artifact_with_limit :: "(string \<Rightarrow> string) \<Rightarrow> provenance_db \<Rightarrow> string \<Rightarrow> nat \<Rightarrow> provenance_trace" where
  "trace_artifact_with_limit sha db artifact limit =
     (case trace_walk (outgoing_edges sha db) limit [(artifact, 0)] [] [] of
        (nodes, edges) \<Rightarrow> \<lparr>trace_start = artifact, trace_nodes = map (describe_node db) nodes, trace_edges = edges\<rparr>)"

definition trace_artifact :: "(string \<Rightarrow> string) \<Rightarrow> provenance_db \<Rightarrow> string \<Rightarrow> provenance_trace" where
  "trace_artifact sha db artifact = trace_artifact_with_limit sha db artifact 16"

section \<open>Verification\<close>

record chain_verification =
  cv_record :: string
  cv_artifact :: string
  cv_valid :: bool
  cv_stored :: string
  cv_expected :: string
  cv_missing :: "string list"

definition verify_record_chain :: "(string \<Rightarrow> string) \<Rightarrow> provenance_db \<Rightarrow> string \<Rightarrow> string + chain_verification" where
  "verify_record_chain sha db i =
     (case get_record db i of
        None \<Rightarrow> Inl (''record '' @ i)
      | Some r \<Rightarrow>
          let parents = List.map_filter (\<lambda>p. map_option pr_chain (get_record db p)) (pr_parents r);
              missing = filter (\<lambda>p. get_record db p = None) (pr_parents r);
              expected = chain_hash_from_str sha parents (pr_operation r) (pr_inputs r) (pr_output r) (pr_tool r) (pr_model r) (pr_parameters r)
          in Inr \<lparr>cv_record = pr_id r, cv_artifact = pr_artifact r, cv_valid = (missing = [] \<and> expected = pr_chain r),
                  cv_stored = pr_chain r, cv_expected = expected, cv_missing = missing\<rparr>)"

record artifact_verification =
  av_artifact :: string
  av_valid :: bool
  av_reaches_source :: bool
  av_record :: "string option"
  av_chain_valid :: "bool option"
  av_edges :: nat
  av_nodes :: nat

definition verify_artifact :: "(string \<Rightarrow> string) \<Rightarrow> provenance_db \<Rightarrow> string \<Rightarrow> string + artifact_verification" where
  "verify_artifact sha db artifact =
     (let t = trace_artifact sha db artifact;
          answer = (\<lambda>chain. \<lparr>av_artifact = artifact,
             av_valid = (trace_edges t \<noteq> [] \<and> reaches_source t \<and> (case chain of Some c \<Rightarrow> cv_valid c | None \<Rightarrow> True)),
             av_reaches_source = reaches_source t, av_record = map_option cv_record chain,
             av_chain_valid = map_option cv_valid chain, av_edges = length (trace_edges t), av_nodes = length (trace_nodes t)\<rparr>)
      in case get_record_by_artifact db artifact of
           None \<Rightarrow> Inr (answer None)
         | Some r \<Rightarrow> (case verify_record_chain sha db (pr_id r) of Inl e \<Rightarrow> Inl e | Inr c \<Rightarrow> Inr (answer (Some c))))"

end
