(* ===== verification/Provenance_Laws.thy ===== *)
theory Provenance_Laws imports Provenance_Trace begin

text \<open>
  A trace visits exactly the artifacts within sixteen edges of its start, each once. The search is breadth
  first, so an artifact is met for the first time at its distance: the proof keeps, for the depth of
  the head of the queue, that the visited and queued artifacts are those within that distance.
\<close>

section \<open>Distance\<close>

definition succs :: "(string \<Rightarrow> provenance_edge list) \<Rightarrow> string \<Rightarrow> string set" where
  "succs outgoing x = pe_to ` set (outgoing x)"

text \<open>The artifacts within a number of edges.\<close>

fun within_edges :: "(string \<Rightarrow> provenance_edge list) \<Rightarrow> string \<Rightarrow> nat \<Rightarrow> string set" where
  "within_edges outgoing x 0 = {x}"
| "within_edges outgoing x (Suc n) = within_edges outgoing x n \<union> (\<Union>y \<in> within_edges outgoing x n. succs outgoing y)"

lemma within_mono: "m \<le> n \<Longrightarrow> within_edges outgoing x m \<subseteq> within_edges outgoing x n"
  by (induction rule: dec_induct) auto

lemma within_closed:
  "m \<le> n \<Longrightarrow> (\<Union>y \<in> within_edges outgoing x m. succs outgoing y) \<subseteq> within_edges outgoing x m
   \<Longrightarrow> within_edges outgoing x n = within_edges outgoing x m"
  by (induction rule: dec_induct) auto

section \<open>Edges are taken once\<close>

text \<open>A key tells where its edge starts, as long as identifiers hold no null byte.\<close>

definition nul_free :: "string \<Rightarrow> bool" where
  "nul_free s \<longleftrightarrow> nul \<notin> set s"

lemma key_start: "edge_key e = edge_key f \<Longrightarrow> nul_free (pe_from e) \<Longrightarrow> nul_free (pe_from f) \<Longrightarrow> pe_from e = pe_from f"
proof -
  have "takeWhile (\<lambda>c. c \<noteq> nul) (edge_key e) = pe_from e" if "nul_free (pe_from e)" for e
    using that by (auto simp: edge_key_def nul_free_def takeWhile_append takeWhile_eq_all_conv)
  then show "edge_key e = edge_key f \<Longrightarrow> nul_free (pe_from e) \<Longrightarrow> nul_free (pe_from f) \<Longrightarrow> pe_from e = pe_from f"
    by metis
qed

lemma unseen_subset: "set (unseen_edges seen es) \<subseteq> set es"
  by (induction seen es rule: unseen_edges.induct) auto

lemma unseen_keys: "e \<in> set es \<Longrightarrow> edge_key e \<in> set seen \<or> (\<exists>f \<in> set (unseen_edges seen es). edge_key f = edge_key e)"
  by (induction seen es rule: unseen_edges.induct) auto

lemma key_end: "edge_key e = edge_key f \<Longrightarrow> pe_from e = pe_from f \<Longrightarrow> nul_free (pe_to e) \<Longrightarrow> nul_free (pe_to f) \<Longrightarrow> pe_to e = pe_to f"
proof -
  have "takeWhile (\<lambda>c. c \<noteq> nul) (drop (length (pe_from e) + 1) (edge_key e)) = pe_to e" if "nul_free (pe_to e)" for e
    using that by (auto simp: edge_key_def nul_free_def takeWhile_append takeWhile_eq_all_conv)
  then show "edge_key e = edge_key f \<Longrightarrow> pe_from e = pe_from f \<Longrightarrow> nul_free (pe_to e) \<Longrightarrow> nul_free (pe_to f) \<Longrightarrow> pe_to e = pe_to f"
    by metis
qed

section \<open>The search\<close>

text \<open>The artifacts queued at a depth.\<close>

definition queued :: "(string \<times> nat) list \<Rightarrow> nat \<Rightarrow> string set" where
  "queued queue d = {x. (x, d) \<in> set queue}"

lemma queued_simps [simp]:
  "queued [] d = {}"
  "queued ((x, e) # queue) d = (if d = e then insert x (queued queue d) else queued queue d)"
  "queued (queue @ rest) d = queued queue d \<union> queued rest d"
  by (auto simp: queued_def)

definition layered_search ::
    "(string \<Rightarrow> provenance_edge list) \<Rightarrow> string \<Rightarrow> nat \<Rightarrow> (string \<times> nat) list \<Rightarrow> string list \<Rightarrow> provenance_edge list \<Rightarrow> nat \<Rightarrow> bool" where
  "layered_search outgoing start limit queue seen edges d \<longleftrightarrow>
     d \<le> limit \<and> distinct seen \<and> (\<forall>e \<in> set edges. pe_from e \<in> set seen)
     \<and> (\<exists>front rear. queue = front @ rear \<and> (\<forall>(_, k) \<in> set front. k = d) \<and> (\<forall>(_, k) \<in> set rear. k = Suc d))
     \<and> (d = limit \<longrightarrow> queued queue (Suc d) = {})
     \<and> set seen \<subseteq> within_edges outgoing start d \<and> queued queue d \<subseteq> within_edges outgoing start d
     \<and> within_edges outgoing start d \<subseteq> set seen \<union> queued queue d
     \<and> queued queue (Suc d) \<subseteq> within_edges outgoing start (Suc d)
     \<and> (d < limit \<longrightarrow> (\<forall>x \<in> set seen. succs outgoing x \<subseteq> set seen \<union> queued queue d \<union> queued queue (Suc d)))"


lemma layered_start: "layered_search outgoing start limit [(start, 0)] [] [] 0"
proof -
  have "\<exists>front rear. [(start, 0 :: nat)] = front @ rear \<and> (\<forall>(_, k) \<in> set front. k = 0) \<and> (\<forall>(_, k) \<in> set rear. k = Suc 0)"
    by (intro exI [of _ "[(start, 0)]"] exI [of _ "[]"]) simp
  then show ?thesis
    unfolding layered_search_def by simp
qed

lemma layered_advance:
  assumes lay: "layered_search outgoing start limit queue seen edges d" and done_d: "queued queue d = {}" and d: "d < limit"
  shows "layered_search outgoing start limit queue seen edges (Suc d)"
proof -
  obtain front rear where q: "queue = front @ rear" "\<forall>(_, k) \<in> set front. k = d" "\<forall>(_, k) \<in> set rear. k = Suc d"
    using lay by (auto simp: layered_search_def)
  have "front = []"
    using q(1,2) done_d by (cases front) (auto simp: queued_def)
  with q have rear: "\<forall>(_, k) \<in> set queue. k = Suc d"
    by simp
  then have none: "queued queue (Suc (Suc d)) = {}"
    by (auto simp: queued_def)
  have seen: "set seen = within_edges outgoing start d"
    using lay done_d by (auto simp: layered_search_def)
  have next_level: "\<forall>x \<in> set seen. succs outgoing x \<subseteq> set seen \<union> queued queue (Suc d)"
    using lay done_d d by (auto simp: layered_search_def)
  then have "within_edges outgoing start (Suc d) \<subseteq> set seen \<union> queued queue (Suc d)"
    using seen by auto
  moreover have "set seen \<subseteq> within_edges outgoing start (Suc d)"
    using seen by auto
  moreover have "\<exists>front rear. queue = front @ rear \<and> (\<forall>(_, k) \<in> set front. k = Suc d) \<and> (\<forall>(_, k) \<in> set rear. k = Suc (Suc d))"
    using rear by (intro exI [of _ queue] exI [of _ "[]"]) simp
  ultimately show ?thesis
    using lay d none next_level by (auto simp: layered_search_def)
qed

text \<open>The queue after its head was taken, for the three branches of the search.\<close>

lemma layered_tail:
  assumes "layered_search outgoing start limit ((x, d) # queue) seen edges d"
  obtains front rear where "queue = front @ rear" "\<forall>(_, k) \<in> set front. k = d" "\<forall>(_, k) \<in> set rear. k = Suc d"
proof -
  obtain front rear where q: "(x, d) # queue = front @ rear" "\<forall>(_, k) \<in> set front. k = d" "\<forall>(_, k) \<in> set rear. k = Suc d"
    using assms by (auto simp: layered_search_def)
  show thesis
  proof (cases front)
    case Nil
    with q show ?thesis
      by (cases rear) auto
  next
    case (Cons y ys)
    with q show ?thesis
      by (intro that [of ys rear]) auto
  qed
qed

lemma layered_skip:
  assumes lay: "layered_search outgoing start limit ((x, d) # queue) seen edges d" and x: "x \<in> set seen"
  shows "layered_search outgoing start limit queue seen edges d"
proof -
  have "\<exists>front rear. queue = front @ rear \<and> (\<forall>(_, k) \<in> set front. k = d) \<and> (\<forall>(_, k) \<in> set rear. k = Suc d)"
    using layered_tail [OF lay] by metis
  with lay x show ?thesis
    unfolding layered_search_def by (auto simp: insert_absorb)
qed

lemma layered_last:
  assumes lay: "layered_search outgoing start limit ((x, d) # queue) seen edges d" and x: "x \<notin> set seen" and d: "limit \<le> d"
  shows "layered_search outgoing start limit queue (x # seen) edges d"
proof -
  have "\<exists>front rear. queue = front @ rear \<and> (\<forall>(_, k) \<in> set front. k = d) \<and> (\<forall>(_, k) \<in> set rear. k = Suc d)"
    using layered_tail [OF lay] by metis
  with lay x d show ?thesis
    unfolding layered_search_def by auto
qed

lemma layered_visit:
  assumes lay: "layered_search outgoing start limit ((x, d) # queue) seen edges d" and x: "x \<notin> set seen" and d: "d < limit"
    and own: "\<And>y e. e \<in> set (outgoing y) \<Longrightarrow> pe_from e = y" and clean_ids: "\<And>y e. e \<in> set (outgoing y) \<Longrightarrow> nul_free (pe_to e)"
    and start: "nul_free start"
  defines "new \<equiv> unseen_edges (map edge_key edges) (outgoing x)"
  shows "layered_search outgoing start limit (queue @ map (\<lambda>e. (pe_to e, Suc d)) new) (x # seen) (edges @ new) d"
proof -
  have all_clean: "nul_free y" if "y \<in> within_edges outgoing start k" for y k
    using that by (induction k arbitrary: y) (auto simp: succs_def start clean_ids)
  have xw: "x \<in> within_edges outgoing start d" and seenw: "set seen \<subseteq> within_edges outgoing start d"
    using lay by (simp_all add: layered_search_def)
  have new_out: "set new \<subseteq> set (outgoing x)"
    unfolding new_def by (rule unseen_subset)
  have level: "queued (map (\<lambda>e. (pe_to e, Suc d)) new) (Suc d) = pe_to ` set new" "queued (map (\<lambda>e. (pe_to e, Suc d)) new) d = {}"
    by (auto simp: queued_def)
  have "succs outgoing x \<subseteq> pe_to ` set new"
  proof
    fix y
    assume "y \<in> succs outgoing x"
    then obtain e where e: "e \<in> set (outgoing x)" "y = pe_to e"
      by (auto simp: succs_def)
    have "edge_key f \<noteq> edge_key e" if f: "f \<in> set edges" for f
    proof
      assume "edge_key f = edge_key e"
      moreover have "pe_from f \<in> set seen"
        using lay f by (simp add: layered_search_def)
      ultimately have "x \<in> set seen"
        using key_start [of f e] own [OF e(1)] all_clean xw seenw by (metis subsetD)
      with x show False
        by simp
    qed
    then obtain f where f: "f \<in> set new" "edge_key f = edge_key e"
      using unseen_keys [OF e(1), of "map edge_key edges"] unfolding new_def by force
    then have "pe_to f = pe_to e"
      using key_end [of f e] own clean_ids e(1) new_out by (metis subsetD)
    with f e show "y \<in> pe_to ` set new"
      by (metis image_eqI)
  qed
  then have succs: "succs outgoing x = pe_to ` set new"
    using new_out by (auto simp: succs_def)
  obtain front rear where q: "queue = front @ rear" "\<forall>(_, k) \<in> set front. k = d" "\<forall>(_, k) \<in> set rear. k = Suc d"
    using layered_tail [OF lay] by metis
  then have "\<exists>front rear. queue @ map (\<lambda>e. (pe_to e, Suc d)) new = front @ rear
      \<and> (\<forall>(_, k) \<in> set front. k = d) \<and> (\<forall>(_, k) \<in> set rear. k = Suc d)"
    by (intro exI [of _ front] exI [of _ "rear @ map (\<lambda>e. (pe_to e, Suc d)) new"]) auto
  moreover have "\<forall>e \<in> set (edges @ new). pe_from e \<in> set (x # seen)"
    using lay own new_out by (auto simp: layered_search_def)
  moreover have "pe_to ` set new \<subseteq> within_edges outgoing start (Suc d)"
    using xw succs by auto
  ultimately show ?thesis
    using lay x d xw succs unfolding layered_search_def by (simp add: level) blast
qed


lemma walk_finds_the_layers:
  assumes lay: "layered_search outgoing start limit queue seen edges d"
    and own: "\<And>y e. e \<in> set (outgoing y) \<Longrightarrow> pe_from e = y" and clean_ids: "\<And>y e. e \<in> set (outgoing y) \<Longrightarrow> nul_free (pe_to e)"
    and start: "nul_free start"
  shows "distinct (fst (trace_walk outgoing limit queue seen edges))
    \<and> set (fst (trace_walk outgoing limit queue seen edges)) = within_edges outgoing start limit"
  using lay own clean_ids
proof (induction outgoing limit queue seen edges arbitrary: d rule: trace_walk.induct)
  case (1 outgoing limit seen edges)
  then have "set seen = within_edges outgoing start d"
    by (auto simp: layered_search_def)
  moreover have "within_edges outgoing start limit = within_edges outgoing start d"
  proof (cases "d = limit")
    case False
    with 1 have "d < limit" and "\<forall>x \<in> set seen. succs outgoing x \<subseteq> set seen"
      by (auto simp: layered_search_def)
    with calculation show ?thesis
      by (intro within_closed) auto
  qed simp
  ultimately show ?case
    using 1 by (simp add: layered_search_def)
next
  case (2 outgoing limit x k queue seen edges)
  have "k = d \<or> k = Suc d"
    using 2(4) by (force simp: layered_search_def Cons_eq_append_conv)
  then have lay: "layered_search outgoing start limit ((x, k) # queue) seen edges k"
  proof
    assume k: "k = Suc d"
    have "d < limit"
      using 2(4) k by (auto simp: layered_search_def)
    moreover have "queued ((x, k) # queue) d = {}"
    proof -
      obtain front rear where q: "(x, k) # queue = front @ rear" "\<forall>(_, j) \<in> set front. j = d" "\<forall>(_, j) \<in> set rear. j = Suc d"
        using 2(4) by (auto simp: layered_search_def)
      with k have "front = []"
        by (cases front) auto
      with q show ?thesis
        by (auto simp: queued_def)
    qed
    ultimately show ?thesis
      using layered_advance [OF 2(4)] k by simp
  qed (use 2(4) in simp)
  show ?case
  proof (cases "x \<in> set seen")
    case True
    then show ?thesis
      using 2(1) [OF True layered_skip [OF lay True] 2(5,6)] by simp
  next
    case False
    show ?thesis
    proof (cases "limit \<le> k")
      case True
      then show ?thesis
        using 2(2) [OF False True layered_last [OF lay False True] 2(5,6)] False by simp
    next
      case deeper: False
      then have "layered_search outgoing start limit
          (queue @ map (\<lambda>e. (pe_to e, Suc k)) (unseen_edges (map edge_key edges) (outgoing x))) (x # seen)
          (edges @ unseen_edges (map edge_key edges) (outgoing x)) k"
        by (intro layered_visit [OF lay False]) (use 2(5,6) start in auto)
      then show ?thesis
        using 2(3) [OF False deeper refl _ 2(5,6)] False deeper by (simp add: Let_def)
    qed
  qed
qed

section \<open>Properties\<close>

text \<open>No artifact that an edge leads to has a null byte in its identifier.\<close>

definition clean_targets :: "(string \<Rightarrow> string) \<Rightarrow> provenance_db \<Rightarrow> bool" where
  "clean_targets sha db \<longleftrightarrow> (\<forall>x. \<forall>e \<in> set (outgoing_edges sha db x). nul_free (pe_to e))"

text \<open>
  C10. A provenance trace visits every artifact within sixteen edges of its start exactly once and no other
  artifact, and it reaches a source exactly when one of these is described as a source document.
\<close>

theorem trace_is_the_neighbourhood:
  assumes "nul_free artifact" and "clean_targets sha db"
  shows "distinct (map node_artifact (trace_nodes (trace_artifact sha db artifact)))
    \<and> set (map node_artifact (trace_nodes (trace_artifact sha db artifact)))
        = within_edges (outgoing_edges sha db) artifact 16
    \<and> (reaches_source (trace_artifact sha db artifact) \<longleftrightarrow>
         (\<exists>x. x \<in> within_edges (outgoing_edges sha db) artifact 16 \<and> node_type (describe_node db x) = ''source_document''))"
proof -
  obtain ns es where walk: "trace_walk (outgoing_edges sha db) 16 [(artifact, 0)] [] [] = (ns, es)"
    by (cases "trace_walk (outgoing_edges sha db) 16 [(artifact, 0)] [] []")
  have found: "distinct ns \<and> set ns = within_edges (outgoing_edges sha db) artifact 16"
    using walk_finds_the_layers [OF layered_start, of "outgoing_edges sha db" artifact 16] assms walk
    by (simp add: outgoing_from clean_targets_def)
  have names: "map node_artifact (map (describe_node db) ns) = ns"
    by (rule map_idI [THEN trans [rotated]]) (auto simp: describe_node_def split: option.splits)
  have nodes: "trace_nodes (trace_artifact sha db artifact) = map (describe_node db) ns"
    by (simp add: trace_artifact_def trace_artifact_with_limit_def walk del: trace_walk.simps)
  show ?thesis
    using found unfolding nodes names reaches_source_def by (auto simp: list_ex_iff)
qed


text \<open>
  The separators keep adjacent texts apart, but not the lists: a parent's hash that is moved into the operation,
  and the operation into the inputs, give the same input to the hash.
\<close>

lemma chain_hash_confuses_lists:
  "chain_input [''p''] ''op'' [''in''] out tool model params = chain_input [] ''p'' [''op'', ''in''] out tool model params"
  by (simp add: chain_input_def hash_one_def)


section \<open>Examples\<close>

definition sample_provenance :: provenance_db where
  "sample_provenance =
     \<lparr>pdb_records = [], pdb_edges = [(''e1'', \<lparr>prov_from = ''answer'', prov_to = ''doc'', prov_type = ''cites'', prov_created = []\<rparr>)],
      pdb_doc_edges = [], pdb_gt_edges = [], pdb_chunks = [], pdb_pages = [], pdb_artifacts = [], pdb_sources = [(''doc'', ''h'')]\<rparr>"

lemma sample_edges:
  "outgoing_edges sha sample_provenance x =
     (if x = ''answer'' then [\<lparr>pe_id = ''e1'', pe_from = ''answer'', pe_to = ''doc'', pe_type = Cites, pe_created = []\<rparr>] else [])"
  by (simp add: outgoing_edges_def list_edges_from_def edges_from_def sample_provenance_def row_to_edge_def synthetic_doc_edges_def
      chunk_to_page_edges_def page_to_document_edge_def artifact_to_document_edge_def parse_edge_type_def to_lowercase_def
      lower_char_def is_ascii_upper_def code_def)

theorem trace_is_the_neighbourhood_witness:
  "reaches_source (trace_artifact (\<lambda>s. s) sample_provenance ''answer'')"
proof -
  have "nul_free ''answer''" and "clean_targets (\<lambda>s. s) sample_provenance"
    by (auto simp: clean_targets_def sample_edges nul_free_def nul_def)
  moreover have "''doc'' \<in> within_edges (outgoing_edges (\<lambda>s. s) sample_provenance) ''answer'' 16"
    by (rule subsetD [OF within_mono [of 1]]) (simp_all add: succs_def sample_edges)
  moreover have "node_type (describe_node sample_provenance ''doc'') = ''source_document''"
    by (simp add: describe_node_def sample_provenance_def)
  ultimately show ?thesis
    using trace_is_the_neighbourhood [of "''answer''" "\<lambda>s. s" sample_provenance] by blast
qed

end
