(* ===== verification/Completion_Models.thy ===== *)
theory Completion_Models imports Complex_Main Rust_Base Rust_Text begin

text \<open>
  Completion integrity: the types of \<^verbatim>\<open>crates/archon-completion/src/models.rs\<close>, the texts that
  \<^verbatim>\<open>store.rs\<close> writes for them, and the check of explicitly required evidence
  (\<^verbatim>\<open>required_evidence.rs\<close>). Instants are texts, as in the code.
\<close>

section \<open>Vocabularies\<close>

datatype completion_state =
    CompletionVerified | CompletionPartial | CompletionAttempted | CompletionFailed | CompletionNotRun

datatype claim_kind =
    DoneClaim | ImplementedClaim | FixedClaim | TestsPassClaim | BuildPassesClaim | VerifiedClaim
  | DocumentedClaim | IngestedClaim | IndexedClaim | AnswerGroundedClaim

datatype evidence_kind =
    CommandRun | TestRun | BuildResult | FileDiff | GeneratedArtifact | RetrievalEvidence | GateResult
  | ReviewFinding | CitationTrace | IngestionJob

datatype evidence_status = EvidencePassed | EvidenceFailed | EvidenceMissing | EvidenceSkipped | EvidenceUnknown

datatype incident_severity = LowIncident | MediumIncident | HighIncident | CriticalIncident

primrec completion_state_str :: "completion_state \<Rightarrow> string" where
  "completion_state_str CompletionVerified = ''Verified''"
| "completion_state_str CompletionPartial = ''Partial''"
| "completion_state_str CompletionAttempted = ''Attempted''"
| "completion_state_str CompletionFailed = ''Failed''"
| "completion_state_str CompletionNotRun = ''NotRun''"

primrec claim_kind_str :: "claim_kind \<Rightarrow> string" where
  "claim_kind_str DoneClaim = ''Done''"
| "claim_kind_str ImplementedClaim = ''Implemented''"
| "claim_kind_str FixedClaim = ''Fixed''"
| "claim_kind_str TestsPassClaim = ''TestsPass''"
| "claim_kind_str BuildPassesClaim = ''BuildPasses''"
| "claim_kind_str VerifiedClaim = ''Verified''"
| "claim_kind_str DocumentedClaim = ''Documented''"
| "claim_kind_str IngestedClaim = ''Ingested''"
| "claim_kind_str IndexedClaim = ''Indexed''"
| "claim_kind_str AnswerGroundedClaim = ''AnswerGrounded''"

primrec evidence_kind_str :: "evidence_kind \<Rightarrow> string" where
  "evidence_kind_str CommandRun = ''CommandRun''"
| "evidence_kind_str TestRun = ''TestRun''"
| "evidence_kind_str BuildResult = ''BuildResult''"
| "evidence_kind_str FileDiff = ''FileDiff''"
| "evidence_kind_str GeneratedArtifact = ''GeneratedArtifact''"
| "evidence_kind_str RetrievalEvidence = ''RetrievalEvidence''"
| "evidence_kind_str GateResult = ''GateResult''"
| "evidence_kind_str ReviewFinding = ''ReviewFinding''"
| "evidence_kind_str CitationTrace = ''CitationTrace''"
| "evidence_kind_str IngestionJob = ''IngestionJob''"

primrec evidence_status_str :: "evidence_status \<Rightarrow> string" where
  "evidence_status_str EvidencePassed = ''Passed''"
| "evidence_status_str EvidenceFailed = ''Failed''"
| "evidence_status_str EvidenceMissing = ''Missing''"
| "evidence_status_str EvidenceSkipped = ''Skipped''"
| "evidence_status_str EvidenceUnknown = ''Unknown''"

primrec incident_severity_str :: "incident_severity \<Rightarrow> string" where
  "incident_severity_str LowIncident = ''Low''"
| "incident_severity_str MediumIncident = ''Medium''"
| "incident_severity_str HighIncident = ''High''"
| "incident_severity_str CriticalIncident = ''Critical''"

text \<open>An unknown text reads as the last alternative of the parser.\<close>

definition parse_among :: "('k \<Rightarrow> string) \<Rightarrow> 'k list \<Rightarrow> 'k \<Rightarrow> string \<Rightarrow> 'k" where
  "parse_among text all other s = (case find (\<lambda>k. text k = s) all of Some k \<Rightarrow> k | None \<Rightarrow> other)"

definition parse_claim_kind :: "string \<Rightarrow> claim_kind" where
  "parse_claim_kind = parse_among claim_kind_str
     [DoneClaim, ImplementedClaim, FixedClaim, TestsPassClaim, BuildPassesClaim, VerifiedClaim,
      DocumentedClaim, IngestedClaim, IndexedClaim, AnswerGroundedClaim] DoneClaim"

definition parse_evidence_kind :: "string \<Rightarrow> evidence_kind" where
  "parse_evidence_kind = parse_among evidence_kind_str
     [CommandRun, TestRun, BuildResult, FileDiff, GeneratedArtifact, RetrievalEvidence, GateResult,
      ReviewFinding, CitationTrace, IngestionJob] CommandRun"

definition parse_evidence_status :: "string \<Rightarrow> evidence_status" where
  "parse_evidence_status = parse_among evidence_status_str
     [EvidencePassed, EvidenceFailed, EvidenceMissing, EvidenceSkipped] EvidenceUnknown"

definition parse_completion_state :: "string \<Rightarrow> completion_state" where
  "parse_completion_state = parse_among completion_state_str
     [CompletionVerified, CompletionPartial, CompletionAttempted, CompletionFailed] CompletionNotRun"

definition parse_incident_severity :: "string \<Rightarrow> incident_severity" where
  "parse_incident_severity = parse_among incident_severity_str
     [LowIncident, MediumIncident, HighIncident, CriticalIncident] LowIncident"

lemma parse_claim_kind_str [simp]: "parse_claim_kind (claim_kind_str k) = k"
  by (cases k) (simp_all add: parse_claim_kind_def parse_among_def)

lemma parse_evidence_kind_str [simp]: "parse_evidence_kind (evidence_kind_str k) = k"
  by (cases k) (simp_all add: parse_evidence_kind_def parse_among_def)

lemma parse_evidence_status_str [simp]: "parse_evidence_status (evidence_status_str s) = s"
  by (cases s) (simp_all add: parse_evidence_status_def parse_among_def)

lemma parse_completion_state_str [simp]: "parse_completion_state (completion_state_str s) = s"
  by (cases s) (simp_all add: parse_completion_state_def parse_among_def)

lemma parse_incident_severity_str [simp]: "parse_incident_severity (incident_severity_str s) = s"
  by (cases s) (simp_all add: parse_incident_severity_def parse_among_def)

section \<open>Claims, evidence, reports\<close>

record completion_claim =
  cc_id :: string
  cc_run :: string
  cc_agent :: "string option"
  cc_model :: "string option"
  cc_task :: string
  cc_text :: string
  cc_kind :: claim_kind
  cc_required :: "evidence_kind list"
  cc_linked :: "string list"
  cc_verified :: bool
  cc_contradictions :: "string list"
  cc_created :: string

record completion_run_context =
  rc_run :: string
  rc_workspace :: string
  rc_agent :: "string option"
  rc_model :: "string option"
  rc_updated :: string

record completion_evidence =
  ce_id :: string
  ce_run :: string
  ce_kind :: evidence_kind
  ce_producer :: string
  ce_command :: "string option"
  ce_status :: evidence_status
  ce_exit :: "int option"
  ce_input_hash :: "string option"
  ce_output_hash :: "string option"
  ce_stdout :: "string option"
  ce_stderr :: "string option"
  ce_artifacts :: "string list"
  ce_provenance :: string
  ce_started :: string
  ce_completed :: "string option"

record completion_report =
  rep_id :: string
  rep_run :: string
  rep_state :: completion_state
  rep_claims :: "completion_claim list"
  rep_evidence :: "completion_evidence list"
  rep_failed_gates :: "string list"
  rep_unverified :: "string list"
  rep_contradictions :: "string list"
  rep_summary :: string
  rep_provenance :: string
  rep_created :: string

record gate_result =
  gr_id :: string
  gr_name :: string
  gr_passed :: bool
  gr_state :: completion_state
  gr_blocked :: "string list"
  gr_missing :: "evidence_kind list"
  gr_explanation :: string
  gr_provenance :: string

record false_completion_incident =
  inc_id :: string
  inc_run :: string
  inc_agent :: "string option"
  inc_model :: "string option"
  inc_task :: string
  inc_claimed :: string
  inc_actual :: completion_state
  inc_missing :: "evidence_kind list"
  inc_contradictions :: "string list"
  inc_correction :: "string option"
  inc_severity :: incident_severity
  inc_event :: string
  inc_created :: string

record trust_score =
  ts_id :: string
  ts_workspace :: string
  ts_agent :: "string option"
  ts_model :: "string option"
  ts_task :: string
  ts_reliability :: rat
  ts_quality :: rat
  ts_false :: u32
  ts_verified :: u32
  ts_updated :: string

section \<open>Explicitly required evidence\<close>

datatype required_kind =
    RequiredTests | RequiredBuild | RequiredLint | RequiredTypecheck | RequiredVerifier | RequiredPlanReview
  | RequiredSourceEvidence | RequiredManualOutcome | RequiredHumanApproval

datatype required_status = RequiredPassed | RequiredFailed | RequiredMissing | RequiredSkipped | RequiredUnknown

record required_evidence =
  req_kind :: required_kind
  req_status :: required_status
  req_sequence :: "64 word"
  req_evidence :: "string option"
  req_run :: "string option"

record required_check =
  check_allowed :: bool
  check_missing :: "required_kind list"
  check_failed :: "required_kind list"

definition latest_required :: "required_evidence list \<Rightarrow> required_kind \<Rightarrow> required_evidence option" where
  "latest_required evidence =
     foldl (\<lambda>latest item.
        if (case latest (req_kind item) of None \<Rightarrow> True | Some current \<Rightarrow> req_sequence current \<le> req_sequence item)
        then latest(req_kind item \<mapsto> item) else latest) Map.empty evidence"

definition check_required_evidence :: "required_kind list \<Rightarrow> required_evidence list \<Rightarrow> required_check" where
  "check_required_evidence required evidence =
     (let status = (\<lambda>kind. map_option req_status (latest_required evidence kind));
          failed = filter (\<lambda>kind. status kind = Some RequiredFailed) required;
          missing = filter (\<lambda>kind. status kind \<noteq> Some RequiredPassed \<and> status kind \<noteq> Some RequiredFailed) required
      in \<lparr>check_allowed = (missing = [] \<and> failed = []), check_missing = missing, check_failed = failed\<rparr>)"

text \<open>The latest item of a kind: the last among those with the greatest sequence number.\<close>

definition decides :: "required_evidence list \<Rightarrow> required_kind \<Rightarrow> required_evidence \<Rightarrow> bool" where
  "decides evidence kind item \<longleftrightarrow>
     (\<exists>before after. evidence = before @ item # after \<and> req_kind item = kind
        \<and> (\<forall>e \<in> set before. req_kind e = kind \<longrightarrow> req_sequence e \<le> req_sequence item)
        \<and> (\<forall>e \<in> set after. req_kind e = kind \<longrightarrow> req_sequence e < req_sequence item))"

lemma latest_required_snoc:
  "latest_required (evidence @ [item]) =
     (if (case latest_required evidence (req_kind item) of None \<Rightarrow> True | Some current \<Rightarrow> req_sequence current \<le> req_sequence item)
      then (latest_required evidence)(req_kind item \<mapsto> item) else latest_required evidence)"
  by (simp add: latest_required_def)

lemma latest_required_spec:
  "case latest_required evidence kind of
     None \<Rightarrow> \<forall>e \<in> set evidence. req_kind e \<noteq> kind
   | Some item \<Rightarrow> decides evidence kind item \<and> (\<forall>e \<in> set evidence. req_kind e = kind \<longrightarrow> req_sequence e \<le> req_sequence item)"
proof (induction evidence rule: rev_induct)
  case Nil
  show ?case
    by (simp add: latest_required_def)
next
  case (snoc x xs)
  show ?case
  proof (cases "req_kind x = kind \<and> (case latest_required xs kind of None \<Rightarrow> True | Some c \<Rightarrow> req_sequence c \<le> req_sequence x)")
    case True
    then have "latest_required (xs @ [x]) kind = Some x"
      by (auto simp: latest_required_snoc)
    moreover have "\<forall>e \<in> set xs. req_kind e = kind \<longrightarrow> req_sequence e \<le> req_sequence x"
      using snoc.IH True by (auto split: option.splits)
    ultimately show ?thesis
      using True by (fastforce simp: decides_def)
  next
    case False
    then have same: "latest_required (xs @ [x]) kind = latest_required xs kind"
      by (auto simp: latest_required_snoc)
    show ?thesis
    proof (cases "latest_required xs kind")
      case None
      with False snoc.IH same show ?thesis
        by auto
    next
      case (Some item)
      with snoc.IH have item: "decides xs kind item" "\<forall>e \<in> set xs. req_kind e = kind \<longrightarrow> req_sequence e \<le> req_sequence item"
        by simp_all
      moreover have x: "req_kind x = kind \<longrightarrow> req_sequence x < req_sequence item"
        using False Some by auto
      ultimately have "decides (xs @ [x]) kind item"
        unfolding decides_def by (fastforce intro: exI [of _ "_ @ [x]"])
      with item x same Some show ?thesis
        by auto
    qed
  qed
qed

end
