(* ===== verification/Completion_Store.thy ===== *)
theory Completion_Store imports Completion_Models Learning_Proposals begin

text \<open>
  The relations of completion integrity (\<^verbatim>\<open>crates/archon-completion/src/store.rs\<close>): association lists
  whose rows hold the columns as they are written, read in the order of their keys. A JSON column
  holds the list that it encodes. The database has the current schema, and writes succeed. The jobs of
  document processing and the learning events are relations of other crates in the same database.
\<close>

section \<open>Rows\<close>

definition opt_str :: "string \<Rightarrow> string option" where
  "opt_str s = (if s = [] then None else Some s)"

record claim_row =
  crow_run :: string
  crow_agent :: string
  crow_model :: string
  crow_task :: string
  crow_kind :: string
  crow_text :: string
  crow_required :: "string list"
  crow_linked :: "string list"
  crow_verified :: bool
  crow_created :: string

definition claim_columns :: "completion_claim \<Rightarrow> claim_row" where
  "claim_columns c =
     \<lparr>crow_run = cc_run c, crow_agent = or_default [] (cc_agent c), crow_model = or_default [] (cc_model c),
      crow_task = cc_task c, crow_kind = claim_kind_str (cc_kind c), crow_text = cc_text c,
      crow_required = map evidence_kind_str (cc_required c), crow_linked = cc_linked c, crow_verified = cc_verified c,
      crow_created = cc_created c\<rparr>"

definition row_to_claim :: "string \<Rightarrow> claim_row \<Rightarrow> completion_claim" where
  "row_to_claim i r =
     \<lparr>cc_id = i, cc_run = crow_run r, cc_agent = opt_str (crow_agent r), cc_model = opt_str (crow_model r),
      cc_task = crow_task r, cc_text = crow_text r, cc_kind = parse_claim_kind (crow_kind r),
      cc_required = map parse_evidence_kind (crow_required r), cc_linked = crow_linked r, cc_verified = crow_verified r,
      cc_contradictions = [], cc_created = crow_created r\<rparr>"

record context_row =
  xrow_workspace :: string
  xrow_agent :: string
  xrow_model :: string
  xrow_updated :: string

definition context_columns :: "completion_run_context \<Rightarrow> context_row" where
  "context_columns c =
     \<lparr>xrow_workspace = rc_workspace c, xrow_agent = or_default [] (rc_agent c), xrow_model = or_default [] (rc_model c),
      xrow_updated = rc_updated c\<rparr>"

definition row_to_context :: "string \<Rightarrow> context_row \<Rightarrow> completion_run_context" where
  "row_to_context i r =
     \<lparr>rc_run = i, rc_workspace = xrow_workspace r, rc_agent = opt_str (xrow_agent r), rc_model = opt_str (xrow_model r),
      rc_updated = xrow_updated r\<rparr>"

record evidence_row =
  erow_run :: string
  erow_kind :: string
  erow_producer :: string
  erow_command :: string
  erow_status :: string
  erow_exit :: int
  erow_input_hash :: string
  erow_output_hash :: string
  erow_stdout :: string
  erow_stderr :: string
  erow_artifacts :: "string list"
  erow_provenance :: string
  erow_started :: string
  erow_completed :: string

definition evidence_columns :: "completion_evidence \<Rightarrow> evidence_row" where
  "evidence_columns e =
     \<lparr>erow_run = ce_run e, erow_kind = evidence_kind_str (ce_kind e), erow_producer = ce_producer e,
      erow_command = or_default [] (ce_command e), erow_status = evidence_status_str (ce_status e),
      erow_exit = or_default 0 (ce_exit e), erow_input_hash = or_default [] (ce_input_hash e),
      erow_output_hash = or_default [] (ce_output_hash e), erow_stdout = or_default [] (ce_stdout e),
      erow_stderr = or_default [] (ce_stderr e), erow_artifacts = ce_artifacts e, erow_provenance = ce_provenance e,
      erow_started = ce_started e, erow_completed = or_default [] (ce_completed e)\<rparr>"

definition row_to_evidence :: "string \<Rightarrow> evidence_row \<Rightarrow> completion_evidence" where
  "row_to_evidence i r =
     \<lparr>ce_id = i, ce_run = erow_run r, ce_kind = parse_evidence_kind (erow_kind r), ce_producer = erow_producer r,
      ce_command = opt_str (erow_command r), ce_status = parse_evidence_status (erow_status r), ce_exit = Some (erow_exit r),
      ce_input_hash = opt_str (erow_input_hash r), ce_output_hash = opt_str (erow_output_hash r),
      ce_stdout = opt_str (erow_stdout r), ce_stderr = opt_str (erow_stderr r), ce_artifacts = erow_artifacts r,
      ce_provenance = erow_provenance r, ce_started = erow_started r, ce_completed = opt_str (erow_completed r)\<rparr>"

record report_row =
  rrow_run :: string
  rrow_state :: string
  rrow_claims :: "completion_claim list"
  rrow_evidence :: "completion_evidence list"
  rrow_failed_gates :: "string list"
  rrow_unverified :: "string list"
  rrow_summary :: string
  rrow_provenance :: string
  rrow_created :: string

definition report_columns :: "completion_report \<Rightarrow> report_row" where
  "report_columns r =
     \<lparr>rrow_run = rep_run r, rrow_state = completion_state_str (rep_state r), rrow_claims = rep_claims r,
      rrow_evidence = rep_evidence r, rrow_failed_gates = rep_failed_gates r, rrow_unverified = rep_unverified r,
      rrow_summary = rep_summary r, rrow_provenance = rep_provenance r, rrow_created = rep_created r\<rparr>"

definition row_to_report :: "string \<Rightarrow> report_row \<Rightarrow> completion_report" where
  "row_to_report i r =
     \<lparr>rep_id = i, rep_run = rrow_run r, rep_state = parse_completion_state (rrow_state r), rep_claims = rrow_claims r,
      rep_evidence = rrow_evidence r, rep_failed_gates = rrow_failed_gates r, rep_unverified = rrow_unverified r,
      rep_contradictions = [], rep_summary = rrow_summary r, rep_provenance = rrow_provenance r, rep_created = rrow_created r\<rparr>"

record gate_row =
  grow_run :: string
  grow_name :: string
  grow_passed :: bool
  grow_state :: string
  grow_blocked :: "string list"
  grow_missing :: "string list"
  grow_explanation :: string
  grow_provenance :: string
  grow_created :: string

definition gate_columns :: "string \<Rightarrow> gate_result \<Rightarrow> string \<Rightarrow> gate_row" where
  "gate_columns now g run =
     \<lparr>grow_run = run, grow_name = gr_name g, grow_passed = gr_passed g, grow_state = completion_state_str (gr_state g),
      grow_blocked = gr_blocked g, grow_missing = map evidence_kind_str (gr_missing g), grow_explanation = gr_explanation g,
      grow_provenance = gr_provenance g, grow_created = now\<rparr>"

record incident_row =
  irow_run :: string
  irow_agent :: string
  irow_model :: string
  irow_task :: string
  irow_claimed :: string
  irow_actual :: string
  irow_missing :: "string list"
  irow_correction :: string
  irow_severity :: string
  irow_event :: string
  irow_created :: string

definition incident_columns :: "false_completion_incident \<Rightarrow> incident_row" where
  "incident_columns x =
     \<lparr>irow_run = inc_run x, irow_agent = or_default [] (inc_agent x), irow_model = or_default [] (inc_model x),
      irow_task = inc_task x, irow_claimed = inc_claimed x, irow_actual = completion_state_str (inc_actual x),
      irow_missing = map evidence_kind_str (inc_missing x), irow_correction = or_default [] (inc_correction x),
      irow_severity = incident_severity_str (inc_severity x), irow_event = inc_event x, irow_created = inc_created x\<rparr>"

definition row_to_incident :: "string \<Rightarrow> incident_row \<Rightarrow> false_completion_incident" where
  "row_to_incident i r =
     \<lparr>inc_id = i, inc_run = irow_run r, inc_agent = opt_str (irow_agent r), inc_model = opt_str (irow_model r),
      inc_task = irow_task r, inc_claimed = irow_claimed r, inc_actual = parse_completion_state (irow_actual r),
      inc_missing = map parse_evidence_kind (irow_missing r), inc_contradictions = [], inc_correction = opt_str (irow_correction r),
      inc_severity = parse_incident_severity (irow_severity r), inc_event = irow_event r, inc_created = irow_created r\<rparr>"

section \<open>The database\<close>

record document_job =
  job_document :: string
  job_type :: string
  job_status :: string
  job_started :: string
  job_completed :: "string option"

record completion_db =
  cdb_claims :: "(string \<times> claim_row) list"
  cdb_evidence :: "(string \<times> evidence_row) list"
  cdb_reports :: "(string \<times> report_row) list"
  cdb_gates :: "(string \<times> gate_row) list"
  cdb_incidents :: "(string \<times> incident_row) list"
  cdb_contexts :: "(string \<times> context_row) list"
  cdb_scores :: "(string \<times> trust_score) list"
  cdb_jobs :: "(string \<times> document_job) list option"
  cdb_learning :: learning_db

definition insert_completion_claim :: "completion_claim \<Rightarrow> completion_db \<Rightarrow> completion_db" where
  "insert_completion_claim c db = db\<lparr>cdb_claims := AList.update (cc_id c) (claim_columns c) (cdb_claims db)\<rparr>"

definition get_completion_claims_by_run :: "completion_db \<Rightarrow> string \<Rightarrow> completion_claim list" where
  "get_completion_claims_by_run db run =
     map (\<lambda>(i, r). row_to_claim i r) (filter (\<lambda>(_, r). crow_run r = run) (sort_key fst (cdb_claims db)))"

definition get_all_completion_claims :: "completion_db \<Rightarrow> completion_claim list" where
  "get_all_completion_claims db = map (\<lambda>(i, r). row_to_claim i r) (sort_key fst (cdb_claims db))"

definition insert_completion_run_context :: "completion_run_context \<Rightarrow> completion_db \<Rightarrow> completion_db" where
  "insert_completion_run_context c db = db\<lparr>cdb_contexts := AList.update (rc_run c) (context_columns c) (cdb_contexts db)\<rparr>"

definition get_all_completion_run_contexts :: "completion_db \<Rightarrow> completion_run_context list" where
  "get_all_completion_run_contexts db = map (\<lambda>(i, r). row_to_context i r) (sort_key fst (cdb_contexts db))"

definition insert_completion_evidence :: "completion_evidence \<Rightarrow> completion_db \<Rightarrow> completion_db" where
  "insert_completion_evidence e db = db\<lparr>cdb_evidence := AList.update (ce_id e) (evidence_columns e) (cdb_evidence db)\<rparr>"

definition get_evidence_by_run :: "completion_db \<Rightarrow> string \<Rightarrow> completion_evidence list" where
  "get_evidence_by_run db run =
     map (\<lambda>(i, r). row_to_evidence i r) (filter (\<lambda>(_, r). erow_run r = run) (sort_key fst (cdb_evidence db)))"

definition insert_completion_report :: "completion_report \<Rightarrow> completion_db \<Rightarrow> completion_db" where
  "insert_completion_report r db = db\<lparr>cdb_reports := AList.update (rep_id r) (report_columns r) (cdb_reports db)\<rparr>"

definition get_completion_report :: "completion_db \<Rightarrow> string \<Rightarrow> completion_report option" where
  "get_completion_report db i = map_option (row_to_report i) (map_of (cdb_reports db) i)"

definition insert_gate_result :: "string \<Rightarrow> gate_result \<Rightarrow> string \<Rightarrow> completion_db \<Rightarrow> completion_db" where
  "insert_gate_result now g run db = db\<lparr>cdb_gates := AList.update (gr_id g) (gate_columns now g run) (cdb_gates db)\<rparr>"

definition insert_false_completion_incident :: "false_completion_incident \<Rightarrow> completion_db \<Rightarrow> completion_db" where
  "insert_false_completion_incident x db = db\<lparr>cdb_incidents := AList.update (inc_id x) (incident_columns x) (cdb_incidents db)\<rparr>"

definition get_all_incidents :: "completion_db \<Rightarrow> false_completion_incident list" where
  "get_all_incidents db = map (\<lambda>(i, r). row_to_incident i r) (sort_key fst (cdb_incidents db))"

text \<open>A score is read as it was written, an empty agent or model as absent.\<close>

definition insert_trust_score :: "trust_score \<Rightarrow> completion_db \<Rightarrow> completion_db" where
  "insert_trust_score s db =
     db\<lparr>cdb_scores := AList.update (ts_id s)
          (s\<lparr>ts_agent := opt_str (or_default [] (ts_agent s)), ts_model := opt_str (or_default [] (ts_model s))\<rparr>) (cdb_scores db)\<rparr>"

definition get_all_trust_scores :: "completion_db \<Rightarrow> trust_score list" where
  "get_all_trust_scores db = map snd (sort_key fst (cdb_scores db))"

definition find_trust_scores :: "completion_db \<Rightarrow> string option \<Rightarrow> string option \<Rightarrow> trust_score list" where
  "find_trust_scores db agent model =
     (let scores = get_all_trust_scores db;
          scores = (case agent of None \<Rightarrow> scores | Some a \<Rightarrow> filter (\<lambda>s. ts_agent s = Some a) scores);
          scores = (case model of None \<Rightarrow> scores | Some m \<Rightarrow> filter (\<lambda>s. ts_model s = Some m) scores)
      in sort_key (\<lambda>s. - ts_reliability s) scores)"

section \<open>What is read back\<close>

definition present :: "string option \<Rightarrow> bool" where
  "present v \<longleftrightarrow> v \<noteq> Some []"

lemma opt_str_or_default [simp]: "present v \<Longrightarrow> opt_str (or_default [] v) = v"
  by (cases v) (simp_all add: present_def opt_str_def or_default_def)

lemma kinds_read_back [simp]: "map parse_evidence_kind (map evidence_kind_str ks) = ks"
  by (induction ks) simp_all

lemma claim_reads_back:
  "present (cc_agent c) \<Longrightarrow> present (cc_model c)
   \<Longrightarrow> row_to_claim (cc_id c) (claim_columns c) = c\<lparr>cc_contradictions := []\<rparr>"
  using kinds_read_back [of "cc_required c"] by (simp add: row_to_claim_def claim_columns_def)

lemma incident_reads_back:
  "present (inc_agent x) \<Longrightarrow> present (inc_model x) \<Longrightarrow> present (inc_correction x)
   \<Longrightarrow> row_to_incident (inc_id x) (incident_columns x) = x\<lparr>inc_contradictions := []\<rparr>"
  using kinds_read_back [of "inc_missing x"] by (simp add: row_to_incident_def incident_columns_def)

text \<open>Evidence without an exit code is read back with the code of a success.\<close>

lemma absent_exit_code_reads_as_success:
  "ce_exit e = None \<Longrightarrow> ce_exit (row_to_evidence (ce_id e) (evidence_columns e)) = Some 0"
  by (simp add: row_to_evidence_def evidence_columns_def or_default_def)

end
