(* ===== verification/Completion_Gates.thy ===== *)
theory Completion_Gates imports Completion_Models begin

text \<open>
  From a text to a report: \<^verbatim>\<open>crates/archon-completion/src/claim_extractor.rs\<close>,
  \<^verbatim>\<open>verification_gates.rs\<close> and \<^verbatim>\<open>report_assembler.rs\<close>. The engine of regular expressions is a
  parameter: it finds the first match of a pattern, as the positions of its first byte and of the
  byte after its last. The random part of an identifier is an argument.
\<close>

section \<open>Extracting claims\<close>

record regex_engine =
  regex_find :: "string \<Rightarrow> string \<Rightarrow> (nat \<times> nat) option"

record claim_pattern =
  pattern_regex :: string
  pattern_kind :: claim_kind
  pattern_required :: "evidence_kind list"

text \<open>The table spells a backslash as a percent sign, which no pattern contains.\<close>

definition regex_text :: "string \<Rightarrow> string" where
  "regex_text s = map (\<lambda>c. if c = CHR ''%'' then CHR 0x5C else c) s"

definition claim_patterns :: "claim_pattern list" where
  "claim_patterns =
     map (\<lambda>(regex, kind, required). \<lparr>pattern_regex = regex_text regex, pattern_kind = kind, pattern_required = required\<rparr>)
     [(''(?i)%b(?:all%s+)?tests?%s+(?:pass|passed|passing|green|succeed(?:ed)?|all%s+green)%b'', TestsPassClaim, [TestRun]),
      (''(?i)%b(?:build|compil(?:es?|ation))%s+(?:pass(?:es|ed)?|succeed(?:s|ed)?|green|clean)%b'', BuildPassesClaim, [BuildResult]),
      (''(?i)%b(?:implement(?:ed|ation)%s+(?:is%s+)?(?:done|complete|finished|ready)|fully%s+implemented)%b'', ImplementedClaim,
        [FileDiff, GeneratedArtifact]),
      (''(?i)%b(?:bug%s+)?(?:fix(?:ed)?|resolved|patch(?:ed)?)%s+(?:and%s+)?(?:verified|tested|deployed)?%b'', FixedClaim,
        [FileDiff, TestRun]),
      (''(?i)%b(?:successfully%s+)?index(?:ed|ing)%s+(?:is%s+)?(?:done|complete|ready|successful)%b'', IndexedClaim, [IngestionJob]),
      (''(?i)%b(?:successfully%s+)?ingest(?:ed|ion)%s+(?:is%s+)?(?:done|complete|ready|successful)%b'', IngestedClaim, [IngestionJob]),
      (''(?i)%b(?:all%s+)?(?:claims?%s+)?(?:are%s+)?(?:cited|citation-grounded|grounded%s+in%s+sources?|source-backed|with%s+citations?)%b'',
        AnswerGroundedClaim, [CitationTrace]),
      (''(?i)%b(?:manually%s+)?(?:verif(?:ied|y)|confirm(?:ed)?)%s+(?:that%s+)?(?:it|the|all|everything)?%s*(?:works?|pass(?:es|ed)?|is%s+correct)?'',
        VerifiedClaim, [ReviewFinding]),
      (''(?i)%b(?:fully%s+)?document(?:ed|ation)%s+(?:is%s+)?(?:done|complete|ready|written)%b'', DocumentedClaim, [GeneratedArtifact]),
      (''(?i)%b(?:task%s+is%s+)?(?:done|complete|finished|ready)%s*[.!]?%s*$'', DoneClaim, [GateResult])]"

definition negation_prefix :: string where
  "negation_prefix = regex_text
     (''(?i)%b(?:not|no|don'' @ [CHR 0x27] @ ''t|doesn'' @ [CHR 0x27] @ ''t|isn'' @ [CHR 0x27] @ ''t|aren'' @ [CHR 0x27]
       @ ''t|haven'' @ [CHR 0x27] @ ''t|hasn'' @ [CHR 0x27] @ ''t|won'' @ [CHR 0x27] @ ''t|can'' @ [CHR 0x27]
       @ ''t|cannot|never|fail(?:ed|s)?%s+to|unable%s+to)%s+'')"

text \<open>The first pattern that occurs in a sentence and is not negated there, with the text it matched.\<close>

fun sentence_claim :: "regex_engine \<Rightarrow> string \<Rightarrow> claim_pattern list \<Rightarrow> (claim_pattern \<times> string) option" where
  "sentence_claim rx s [] = None"
| "sentence_claim rx s (p # ps) =
     (case regex_find rx (pattern_regex p) s of
        None \<Rightarrow> sentence_claim rx s ps
      | Some (a, b) \<Rightarrow>
          if regex_find rx negation_prefix (take a s) \<noteq> None then sentence_claim rx s ps
          else Some (p, take (b - a) (drop a s)))"

definition is_sentence_end :: "char \<Rightarrow> bool" where
  "is_sentence_end c \<longleftrightarrow> c \<in> {CHR ''.'', CHR ''!'', CHR ''?'', CHR 0x0A}"

definition sentences_of :: "string \<Rightarrow> string list" where
  "sentences_of s = filter (\<lambda>x. x \<noteq> [] \<and> 4 \<le> length x) (map trim (split_by is_sentence_end s))"

definition extract_claims :: "regex_engine \<Rightarrow> string \<Rightarrow> (nat \<Rightarrow> string) \<Rightarrow> string \<Rightarrow> string \<Rightarrow> completion_claim list" where
  "extract_claims rx now fresh body run =
     (let found = List.map_filter (\<lambda>s. sentence_claim rx s claim_patterns) (sentences_of body)
      in map (\<lambda>(k, p, matched).
           \<lparr>cc_id = ''cl-'' @ fresh k, cc_run = run, cc_agent = None, cc_model = None, cc_task = ''pipeline-output'',
            cc_text = matched, cc_kind = pattern_kind p, cc_required = pattern_required p, cc_linked = [],
            cc_verified = False, cc_contradictions = [], cc_created = now\<rparr>)
         (zip [0..<length found] found))"

section \<open>Gates\<close>

primrec gate_name_for_claim_kind :: "claim_kind \<Rightarrow> string" where
  "gate_name_for_claim_kind TestsPassClaim = ''TestsPassGate''"
| "gate_name_for_claim_kind BuildPassesClaim = ''BuildPassesGate''"
| "gate_name_for_claim_kind ImplementedClaim = ''ImplementedGate''"
| "gate_name_for_claim_kind FixedClaim = ''FixedGate''"
| "gate_name_for_claim_kind IngestedClaim = ''IngestedGate''"
| "gate_name_for_claim_kind IndexedClaim = ''IngestedGate''"
| "gate_name_for_claim_kind AnswerGroundedClaim = ''AnswerGroundedGate''"
| "gate_name_for_claim_kind VerifiedClaim = ''VerifiedGate''"
| "gate_name_for_claim_kind DocumentedClaim = ''DocumentedGate''"
| "gate_name_for_claim_kind DoneClaim = ''DoneGate''"

definition claim_has_passed_gate :: "completion_claim \<Rightarrow> gate_result list \<Rightarrow> bool" where
  "claim_has_passed_gate c results \<longleftrightarrow>
     list_ex (\<lambda>g. gr_name g = gate_name_for_claim_kind (cc_kind c) \<and> gr_passed g) results"

definition claims_of :: "claim_kind list \<Rightarrow> completion_claim list \<Rightarrow> completion_claim list" where
  "claims_of kinds claims = filter (\<lambda>c. cc_kind c \<in> set kinds) claims"

definition evidence_of :: "evidence_kind \<Rightarrow> completion_evidence list \<Rightarrow> completion_evidence list" where
  "evidence_of kind evidence = filter (\<lambda>e. ce_kind e = kind) evidence"

definition has_status :: "evidence_status \<Rightarrow> completion_evidence list \<Rightarrow> bool" where
  "has_status s evidence \<longleftrightarrow> list_ex (\<lambda>e. ce_status e = s) evidence"

definition all_status :: "evidence_status \<Rightarrow> completion_evidence list \<Rightarrow> bool" where
  "all_status s evidence \<longleftrightarrow> list_all (\<lambda>e. ce_status e = s) evidence"

definition nothing_to_check :: "string \<Rightarrow> string \<Rightarrow> string \<Rightarrow> gate_result" where
  "nothing_to_check i name why =
     \<lparr>gr_id = ''gate-'' @ i, gr_name = name, gr_passed = True, gr_state = CompletionNotRun, gr_blocked = [],
      gr_missing = [], gr_explanation = why, gr_provenance = []\<rparr>"

definition gate_passes :: "string \<Rightarrow> string \<Rightarrow> string \<Rightarrow> gate_result" where
  "gate_passes i name why =
     \<lparr>gr_id = ''gate-'' @ i, gr_name = name, gr_passed = True, gr_state = CompletionVerified, gr_blocked = [],
      gr_missing = [], gr_explanation = why, gr_provenance = []\<rparr>"

definition gate_blocks ::
    "string \<Rightarrow> string \<Rightarrow> completion_state \<Rightarrow> completion_claim list \<Rightarrow> evidence_kind list \<Rightarrow> string \<Rightarrow> gate_result" where
  "gate_blocks i name state claims missing why =
     \<lparr>gr_id = ''gate-'' @ i, gr_name = name, gr_passed = False, gr_state = state, gr_blocked = map cc_id claims,
      gr_missing = missing, gr_explanation = why, gr_provenance = []\<rparr>"

definition kind_labels :: "string \<Rightarrow> evidence_kind list \<Rightarrow> string" where
  "kind_labels sep kinds = join_with sep (map evidence_kind_str kinds)"

definition is_missing :: "completion_evidence list \<Rightarrow> evidence_kind \<Rightarrow> bool" where
  "is_missing evidence k \<longleftrightarrow> (let m = evidence_of k evidence in m = [] \<or> all_status EvidenceMissing m)"

definition is_failed :: "completion_evidence list \<Rightarrow> evidence_kind \<Rightarrow> bool" where
  "is_failed evidence k \<longleftrightarrow> \<not> is_missing evidence k \<and> has_status EvidenceFailed (evidence_of k evidence)"

definition is_non_passed :: "completion_evidence list \<Rightarrow> evidence_kind \<Rightarrow> bool" where
  "is_non_passed evidence k \<longleftrightarrow>
     \<not> is_missing evidence k \<and> \<not> is_failed evidence k \<and> \<not> has_status EvidencePassed (evidence_of k evidence)"

definition evidence_backed_gate ::
    "string \<Rightarrow> string \<Rightarrow> claim_kind list \<Rightarrow> evidence_kind list \<Rightarrow> completion_claim list \<Rightarrow> completion_evidence list \<Rightarrow> gate_result" where
  "evidence_backed_gate i name kinds required all_claims evidence =
     (let claims = claims_of kinds all_claims;
          failed = filter (is_failed evidence) required;
          lacking = filter (is_missing evidence) required @ filter (is_non_passed evidence) required
      in if claims = [] then nothing_to_check i name (''no '' @ name @ '' claims to evaluate'')
         else if failed \<noteq> [] then
           gate_blocks i name CompletionFailed claims [] (kind_labels '', '' failed @ '' evidence failed for '' @ name)
         else if lacking \<noteq> [] then
           gate_blocks i name CompletionNotRun claims lacking (''missing passed evidence for '' @ name @ '': '' @ kind_labels '', '' lacking)
         else gate_passes i name
           (show_nat (length claims) @ '' '' @ join_with ''/'' (map (\<lambda>c. claim_kind_str (cc_kind c)) claims)
             @ '' claims verified by passed evidence: '' @ kind_labels '', '' required))"

text \<open>The gates of tests and of ingestion ask that all evidence has passed; they differ in their texts.\<close>

record gate_texts =
  text_no_claims :: string
  text_no_evidence :: string
  text_failed :: string
  text_missing :: string
  text_not_passed :: string
  text_passed :: "nat \<Rightarrow> nat \<Rightarrow> string"

definition all_passed_gate ::
    "string \<Rightarrow> string \<Rightarrow> claim_kind list \<Rightarrow> evidence_kind \<Rightarrow> gate_texts \<Rightarrow> completion_claim list \<Rightarrow> completion_evidence list \<Rightarrow> gate_result" where
  "all_passed_gate i name kinds kind texts all_claims evidence =
     (let claims = claims_of kinds all_claims; found = evidence_of kind evidence
      in if claims = [] then nothing_to_check i name (text_no_claims texts)
         else if found = [] then gate_blocks i name CompletionNotRun claims [kind] (text_no_evidence texts)
         else if has_status EvidenceFailed found then gate_blocks i name CompletionFailed claims [] (text_failed texts)
         else if has_status EvidenceMissing found then gate_blocks i name CompletionNotRun claims [kind] (text_missing texts)
         else if \<not> all_status EvidencePassed found then gate_blocks i name CompletionNotRun claims [kind] (text_not_passed texts)
         else gate_passes i name (text_passed texts (length claims) (length found)))"

definition tests_pass_gate :: "string \<Rightarrow> completion_claim list \<Rightarrow> completion_evidence list \<Rightarrow> gate_result" where
  "tests_pass_gate i = all_passed_gate i ''TestsPassGate'' [TestsPassClaim] TestRun
     \<lparr>text_no_claims = ''no TestsPass claims to evaluate'',
      text_no_evidence = ''no TestRun evidence found for TestsPass claims'',
      text_failed = ''TestRun evidence has Failed status '' @ em_dash @ '' tests did not pass'',
      text_missing = ''TestRun evidence is missing '' @ em_dash @ '' no test results available'',
      text_not_passed = ''TestRun evidence has non-Passed status'',
      text_passed = (\<lambda>n m. show_nat n @ '' TestsPass claims verified by '' @ show_nat m @ '' TestRun evidence records'')\<rparr>"

definition ingested_gate :: "string \<Rightarrow> completion_claim list \<Rightarrow> completion_evidence list \<Rightarrow> gate_result" where
  "ingested_gate i = all_passed_gate i ''IngestedGate'' [IngestedClaim, IndexedClaim] IngestionJob
     \<lparr>text_no_claims = ''no Ingested/Indexed claims to evaluate'',
      text_no_evidence = ''no IngestionJob evidence found'',
      text_failed = ''IngestionJob evidence has Failed status'',
      text_missing = ''IngestionJob evidence is missing '' @ em_dash @ '' no ingestion results available'',
      text_not_passed = ''IngestionJob evidence has non-Passed status'',
      text_passed = (\<lambda>n m. show_nat n @ '' ingest/index claims verified by '' @ show_nat m @ '' IngestionJob records'')\<rparr>"

definition answer_grounded_gate :: "string \<Rightarrow> completion_claim list \<Rightarrow> completion_evidence list \<Rightarrow> gate_result" where
  "answer_grounded_gate i all_claims evidence =
     (let claims = claims_of [AnswerGroundedClaim] all_claims; name = ''AnswerGroundedGate''
      in if claims = [] then nothing_to_check i name ''no AnswerGrounded claims to evaluate''
         else if is_missing evidence CitationTrace
         then gate_blocks i name CompletionNotRun claims [CitationTrace] ''no CitationTrace evidence found for AnswerGrounded claims''
         else gate_passes i name (show_nat (length claims) @ '' AnswerGrounded claims supported by citation evidence''))"

definition run_all_gates :: "(nat \<Rightarrow> string) \<Rightarrow> completion_claim list \<Rightarrow> completion_evidence list \<Rightarrow> gate_result list" where
  "run_all_gates fresh claims evidence =
     [tests_pass_gate (fresh 0) claims evidence,
      evidence_backed_gate (fresh 1) ''BuildPassesGate'' [BuildPassesClaim] [BuildResult] claims evidence,
      evidence_backed_gate (fresh 2) ''ImplementedGate'' [ImplementedClaim] [FileDiff, GeneratedArtifact] claims evidence,
      evidence_backed_gate (fresh 3) ''FixedGate'' [FixedClaim] [FileDiff, TestRun] claims evidence,
      ingested_gate (fresh 4) claims evidence,
      answer_grounded_gate (fresh 5) claims evidence,
      evidence_backed_gate (fresh 6) ''VerifiedGate'' [VerifiedClaim] [ReviewFinding] claims evidence,
      evidence_backed_gate (fresh 7) ''DocumentedGate'' [DocumentedClaim] [GeneratedArtifact] claims evidence,
      evidence_backed_gate (fresh 8) ''DoneGate'' [DoneClaim] [GateResult] claims evidence]"

section \<open>Reports\<close>

definition newline1 :: string where
  "newline1 = [CHR 0x0A]"

definition final_state_of :: "completion_claim list \<Rightarrow> gate_result list \<Rightarrow> completion_state" where
  "final_state_of claims results =
     (let failed = filter (\<lambda>g. \<not> gr_passed g) results
      in if failed = [] \<and> claims = [] then CompletionNotRun
         else if failed = [] then CompletionVerified
         else if list_ex (\<lambda>g. gr_state g = CompletionFailed) results then CompletionFailed
         else if list_ex (\<lambda>g. gr_state g = CompletionNotRun) results
         then (if list_ex cc_verified claims then CompletionPartial else CompletionAttempted)
         else CompletionPartial)"

definition is_blocked_by :: "gate_result list \<Rightarrow> completion_claim \<Rightarrow> bool" where
  "is_blocked_by results c \<longleftrightarrow> list_ex (\<lambda>g. cc_id c \<in> set (gr_blocked g)) results"

definition claim_line :: "gate_result list \<Rightarrow> completion_claim \<Rightarrow> string" where
  "claim_line results c =
     ''- ['' @ (if cc_verified c then ''VERIFIED'' else if is_blocked_by results c then ''BLOCKED'' else ''UNCHECKED'')
       @ ''] `'' @ claim_kind_str (cc_kind c) @ ''` '' @ em_dash @ '' '' @ [CHR 0x22] @ cc_text c @ [CHR 0x22] @ newline1"

primrec evidence_status_label :: "evidence_status \<Rightarrow> string" where
  "evidence_status_label EvidencePassed = ''PASSED''"
| "evidence_status_label EvidenceFailed = ''FAILED''"
| "evidence_status_label EvidenceMissing = ''MISSING''"
| "evidence_status_label EvidenceSkipped = ''SKIPPED''"
| "evidence_status_label EvidenceUnknown = ''UNKNOWN''"

definition evidence_line :: "completion_evidence \<Rightarrow> string" where
  "evidence_line e =
     ''- ['' @ evidence_status_label (ce_status e) @ ''] `'' @ evidence_kind_str (ce_kind e) @ ''` from '' @ ce_producer e
       @ (case ce_stdout e of Some s \<Rightarrow> '' '' @ em_dash @ '' '' @ s | None \<Rightarrow> []) @ newline1"

definition gate_line :: "gate_result \<Rightarrow> string" where
  "gate_line g =
     ''- ['' @ (if gr_passed g then ''PASS'' else ''FAIL'') @ ''] '' @ gr_name g @ '' '' @ em_dash @ '' '' @ gr_explanation g @ newline1"

primrec assessment :: "completion_state \<Rightarrow> string" where
  "assessment CompletionVerified = ''All completion-sensitive claims are supported by evidence.'' @ newline1"
| "assessment CompletionPartial =
     ''Some claims are supported by evidence, but others could not be verified. Claims without evidence should be treated as unconfirmed.''
     @ newline1"
| "assessment CompletionAttempted =
     ''Completion-sensitive claims were detected but evidence is insufficient to verify them. The claims represent intent or attempt, not confirmed completion.''
     @ newline1"
| "assessment CompletionFailed =
     ''One or more completion claims are contradicted by evidence. Claims of completion should not be relied upon without additional verification.''
     @ newline1"
| "assessment CompletionNotRun = ''No completion-sensitive operations were executed or no claims were made.'' @ newline1"

definition list_section :: "string \<Rightarrow> string \<Rightarrow> ('a \<Rightarrow> string) \<Rightarrow> 'a list \<Rightarrow> string" where
  "list_section title none line xs =
     ''### '' @ title @ newline1 @ newline1
     @ (if xs = [] then none @ newline1 @ newline1 else concat (map line xs) @ newline1)"

definition build_calibrated_summary ::
    "completion_claim list \<Rightarrow> completion_evidence list \<Rightarrow> gate_result list \<Rightarrow> completion_state \<Rightarrow> string option \<Rightarrow> string" where
  "build_calibrated_summary claims evidence results state hint =
     ''## Completion Report '' @ em_dash @ '' State: '' @ completion_state_str state @ newline1 @ newline1
     @ list_section ''Claims'' ''No completion-sensitive claims detected.'' (claim_line results) claims
     @ list_section ''Evidence'' ''No evidence collected.'' evidence_line evidence
     @ list_section ''Verification Gates'' ''No gates evaluated.'' gate_line results
     @ ''### Calibrated Assessment'' @ newline1 @ newline1 @ assessment state
     @ (case hint of
          None \<Rightarrow> []
        | Some original \<Rightarrow>
            if state = CompletionVerified then []
            else newline1 @ ''Original answer claimed completion, but evidence does not fully support it. Original text: ''
                   @ [CHR 0x22] @ original @ [CHR 0x22] @ newline1)"

definition assemble_report ::
    "string \<Rightarrow> string \<Rightarrow> completion_claim list \<Rightarrow> completion_evidence list \<Rightarrow> gate_result list \<Rightarrow> string \<Rightarrow> string option \<Rightarrow> completion_report" where
  "assemble_report now fresh claims evidence results run hint =
     (let state = final_state_of claims results
      in \<lparr>rep_id = ''rep-'' @ fresh, rep_run = run, rep_state = state, rep_claims = claims, rep_evidence = evidence,
          rep_failed_gates = map gr_name (filter (\<lambda>g. \<not> gr_passed g) results),
          rep_unverified = concat (map gr_blocked results), rep_contradictions = [],
          rep_summary = build_calibrated_summary claims evidence results state hint, rep_provenance = [],
          rep_created = now\<rparr>)"

end
