(* ===== verification/Completion_Check.thy ===== *)
theory Completion_Check imports Completion_Store Completion_Gates Provenance_Trace Task_Hash begin

text \<open>
  The completion check: \<^verbatim>\<open>crates/archon-completion/src/evidence_resolver.rs\<close>,
  \<^verbatim>\<open>incident_recorder.rs\<close>, \<^verbatim>\<open>trust.rs\<close> and \<^verbatim>\<open>check_completion_with_context\<close> of \<^verbatim>\<open>lib.rs\<close>. One check is one
  step. What it mints and its reading of the clock are arguments; the learning store reads the
  same instant as a number. Trust is computed in exact fractions instead of single precision.
\<close>

record check_supply =
  new_claims :: "nat \<Rightarrow> string"
  new_evidence :: "nat \<Rightarrow> nat \<Rightarrow> string"
  new_gates :: "nat \<Rightarrow> string"
  new_report :: string
  new_incidents :: "nat \<Rightarrow> string"
  new_events :: "nat \<Rightarrow> string"
  check_now :: string
  check_instant :: nat

section \<open>Resolving evidence\<close>

definition missing_evidence_record :: "string \<Rightarrow> string \<Rightarrow> string \<Rightarrow> evidence_kind \<Rightarrow> string \<Rightarrow> completion_evidence" where
  "missing_evidence_record now fresh run kind summary =
     \<lparr>ce_id = ''ev-'' @ fresh, ce_run = run, ce_kind = kind, ce_producer = ''evidence_resolver'', ce_command = None,
      ce_status = EvidenceMissing, ce_exit = None, ce_input_hash = None, ce_output_hash = None, ce_stdout = Some summary,
      ce_stderr = None, ce_artifacts = [], ce_provenance = [], ce_started = now, ce_completed = Some now\<rparr>"

definition find_persisted_evidence ::
    "string \<Rightarrow> (nat \<Rightarrow> string) \<Rightarrow> completion_db \<Rightarrow> string \<Rightarrow> evidence_kind list \<Rightarrow> string \<Rightarrow> completion_evidence list" where
  "find_persisted_evidence now fresh db run kinds summary =
     (let records = filter (\<lambda>e. ce_kind e \<in> set kinds) (get_evidence_by_run db run)
      in if records \<noteq> [] then records
         else map (\<lambda>(k, kind). missing_evidence_record now (fresh k) run kind summary) (zip [0..<length kinds] kinds))"

definition find_test_run_evidence where
  "find_test_run_evidence now fresh db run =
     find_persisted_evidence now fresh db run [TestRun] ''no persisted test run evidence found''"

definition find_build_evidence where
  "find_build_evidence now fresh db run =
     find_persisted_evidence now fresh db run [BuildResult] ''no persisted build result evidence found''"

definition find_diff_evidence where
  "find_diff_evidence now fresh db run =
     find_persisted_evidence now fresh db run [FileDiff, GeneratedArtifact]
       ''no persisted file diff or generated artifact evidence found''"

definition ingestion_status :: "string \<Rightarrow> evidence_status" where
  "ingestion_status s =
     (if s \<in> {''completed'', ''ingested'', ''indexed'', ''succeeded'', ''success''} then EvidencePassed
      else if s \<in> {''failed'', ''error''} then EvidenceFailed else EvidenceUnknown)"

definition query_ingestion_jobs :: "(string \<times> document_job) list \<Rightarrow> string \<Rightarrow> (string \<times> document_job) list" where
  "query_ingestion_jobs jobs run =
     (let by_job = filter (\<lambda>(i, _). i = run) (sort_key fst jobs);
          by_document = filter (\<lambda>(_, j). job_document j = run) (sort_key fst jobs)
      in if by_job \<noteq> [] then by_job else by_document)"

definition job_evidence :: "string \<Rightarrow> string \<Rightarrow> string \<times> document_job \<Rightarrow> completion_evidence" where
  "job_evidence fresh run = (\<lambda>(i, j).
     let status = ingestion_status (job_status j)
     in \<lparr>ce_id = ''ev-'' @ fresh, ce_run = run, ce_kind = IngestionJob, ce_producer = ''doc_processing_jobs'',
         ce_command = Some (job_type j), ce_status = status,
         ce_exit = (case status of EvidencePassed \<Rightarrow> Some 0 | EvidenceFailed \<Rightarrow> Some 1 | _ \<Rightarrow> None),
         ce_input_hash = None, ce_output_hash = None,
         ce_stdout = Some (''ingestion job '' @ i @ '' status: '' @ job_status j), ce_stderr = None,
         ce_artifacts = filter (\<lambda>x. x \<noteq> []) [i, job_document j], ce_provenance = [], ce_started = job_started j,
         ce_completed = job_completed j\<rparr>)"

definition find_ingestion_evidence :: "string \<Rightarrow> (nat \<Rightarrow> string) \<Rightarrow> completion_db \<Rightarrow> string \<Rightarrow> completion_evidence list" where
  "find_ingestion_evidence now fresh db run =
     (case cdb_jobs db of
        None \<Rightarrow> [missing_evidence_record now (fresh 0) run IngestionJob ''doc_processing_jobs relation does not exist'']
      | Some jobs \<Rightarrow>
          let rows = query_ingestion_jobs jobs run
          in if rows = [] then [missing_evidence_record now (fresh 0) run IngestionJob ''no ingestion job evidence found'']
             else map (\<lambda>(k, row). job_evidence (fresh k) run row) (zip [0..<length rows] rows))"

definition bool_text :: "bool \<Rightarrow> string" where
  "bool_text b = (if b then ''true'' else ''false'')"

definition find_citation_evidence ::
    "(string \<Rightarrow> string) \<Rightarrow> provenance_db \<Rightarrow> string \<Rightarrow> (nat \<Rightarrow> string) \<Rightarrow> string \<Rightarrow> completion_evidence list" where
  "find_citation_evidence sha prov now fresh run =
     (let t = trace_artifact sha prov run; reached = reaches_source t
      in if trace_edges t = []
         then [missing_evidence_record now (fresh 0) run CitationTrace ''no provenance trace found for completion artifact'']
         else [\<lparr>ce_id = ''ev-'' @ fresh 0, ce_run = run, ce_kind = CitationTrace, ce_producer = ''archon-provenance'',
                ce_command = Some ''trace_artifact'', ce_status = (if reached then EvidencePassed else EvidenceUnknown),
                ce_exit = Some (if reached then 0 else 1), ce_input_hash = None, ce_output_hash = None,
                ce_stdout = Some (''provenance trace: '' @ show_nat (length (trace_nodes t)) @ '' node(s), ''
                  @ show_nat (length (trace_edges t)) @ '' edge(s), reaches_source='' @ bool_text reached),
                ce_stderr = None, ce_artifacts = map node_artifact (trace_nodes t), ce_provenance = run,
                ce_started = now, ce_completed = Some now\<rparr>])"

definition gate_evidence :: "string \<Rightarrow> string \<Rightarrow> string \<Rightarrow> string \<times> gate_row \<Rightarrow> completion_evidence" where
  "gate_evidence now fresh run = (\<lambda>(i, g).
     \<lparr>ce_id = ''ev-'' @ fresh, ce_run = run, ce_kind = GateResult, ce_producer = ''verification_gate_results'',
      ce_command = Some (grow_name g), ce_status = (if grow_passed g then EvidencePassed else EvidenceFailed),
      ce_exit = Some (if grow_passed g then 0 else 1), ce_input_hash = None, ce_output_hash = None,
      ce_stdout = Some (grow_explanation g), ce_stderr = None, ce_artifacts = [i], ce_provenance = grow_provenance g,
      ce_started = (if grow_created g = [] then now else grow_created g), ce_completed = Some now\<rparr>)"

definition find_gate_evidence :: "string \<Rightarrow> (nat \<Rightarrow> string) \<Rightarrow> completion_db \<Rightarrow> string \<Rightarrow> completion_evidence list" where
  "find_gate_evidence now fresh db run =
     (let rows = filter (\<lambda>(_, g). grow_run g = run) (sort_key fst (cdb_gates db))
      in if rows = [] then [missing_evidence_record now (fresh 0) run GateResult ''no persisted verification gate results found'']
         else map (\<lambda>(k, row). gate_evidence now (fresh k) run row) (zip [0..<length rows] rows))"

definition evidence_for_claim ::
    "(string \<Rightarrow> string) \<Rightarrow> provenance_db \<Rightarrow> string \<Rightarrow> (nat \<Rightarrow> string) \<Rightarrow> completion_db \<Rightarrow> completion_claim \<Rightarrow> completion_evidence list" where
  "evidence_for_claim sha prov now fresh db c =
     (let run = cc_run c
      in case cc_kind c of
           TestsPassClaim \<Rightarrow> find_test_run_evidence now fresh db run
         | BuildPassesClaim \<Rightarrow> find_build_evidence now fresh db run
         | IngestedClaim \<Rightarrow> find_ingestion_evidence now fresh db run
         | IndexedClaim \<Rightarrow> find_ingestion_evidence now fresh db run
         | AnswerGroundedClaim \<Rightarrow> find_citation_evidence sha prov now fresh run
         | ImplementedClaim \<Rightarrow> find_diff_evidence now fresh db run
         | FixedClaim \<Rightarrow> find_diff_evidence now fresh db run @ find_test_run_evidence now (\<lambda>k. fresh (k + 2)) db run
         | VerifiedClaim \<Rightarrow> find_persisted_evidence now fresh db run [ReviewFinding] ''no persisted review finding evidence found''
         | DocumentedClaim \<Rightarrow> find_persisted_evidence now fresh db run [GeneratedArtifact]
             ''no persisted generated documentation artifact evidence found''
         | DoneClaim \<Rightarrow> find_gate_evidence now fresh db run)"

definition resolve_evidence ::
    "(string \<Rightarrow> string) \<Rightarrow> provenance_db \<Rightarrow> string \<Rightarrow> (nat \<Rightarrow> nat \<Rightarrow> string) \<Rightarrow> completion_db \<Rightarrow> completion_claim list \<Rightarrow> completion_evidence list" where
  "resolve_evidence sha prov now fresh db claims =
     concat (map (\<lambda>(k, c). evidence_for_claim sha prov now (fresh k) db c) (zip [0..<length claims] claims))"

section \<open>Incidents\<close>

definition DEFAULT_WORKSPACE_ID :: string where
  "DEFAULT_WORKSPACE_ID = ''default''"

definition compute_severity :: "claim_kind \<Rightarrow> evidence_kind list \<Rightarrow> bool \<Rightarrow> incident_severity" where
  "compute_severity kind missing corrected =
     (if kind \<in> {TestsPassClaim, BuildPassesClaim}
      then (if corrected then HighIncident else if missing \<noteq> [] then MediumIncident else LowIncident)
      else if kind \<in> {DoneClaim, ImplementedClaim, FixedClaim} then (if corrected then CriticalIncident else HighIncident)
      else if kind \<in> {IngestedClaim, IndexedClaim} then (if missing \<noteq> [] then MediumIncident else LowIncident)
      else LowIncident)"

definition workspace_id_for_run :: "completion_db \<Rightarrow> string \<Rightarrow> string" where
  "workspace_id_for_run db run =
     (case map_of (cdb_contexts db) run of
        Some r \<Rightarrow> if xrow_workspace r = [] then DEFAULT_WORKSPACE_ID else xrow_workspace r
      | None \<Rightarrow> DEFAULT_WORKSPACE_ID)"

definition json_opt :: "string option \<Rightarrow> json" where
  "json_opt v = (case v of Some s \<Rightarrow> JsonText s | None \<Rightarrow> JsonNull)"

definition incident_signal :: "false_completion_incident \<Rightarrow> json" where
  "incident_signal x =
     JsonObject [(''actual_state'', JsonText (completion_state_str (inc_actual x))), (''agent_key'', json_opt (inc_agent x)),
       (''claim_kind'', JsonText (inc_claimed x)), (''contradiction_ids'', JsonArray (map JsonText (inc_contradictions x))),
       (''incident_id'', JsonText (inc_id x)),
       (''missing_evidence'', JsonArray (map (\<lambda>k. JsonText (evidence_kind_str k)) (inc_missing x))),
       (''model'', json_opt (inc_model x)), (''run_id'', JsonText (inc_run x)),
       (''severity'', JsonText (incident_severity_str (inc_severity x))), (''task_type'', JsonText (inc_task x)),
       (''user_correction'', json_opt (inc_correction x))]"

definition insert_canonical_learning_event :: "nat \<Rightarrow> false_completion_incident \<Rightarrow> completion_db \<Rightarrow> completion_db" where
  "insert_canonical_learning_event instant x db =
     db\<lparr>cdb_learning := record_event instant (inc_event x) (workspace_id_for_run db (inc_run x)) FalseCompletionDetected (inc_id x)
          (Some (inc_run x)) (incident_signal x) (9 / 10) [] (cdb_learning db)\<rparr>"

definition record_false_completion ::
    "string \<Rightarrow> nat \<Rightarrow> string \<Rightarrow> string \<Rightarrow> completion_claim \<Rightarrow> completion_state \<Rightarrow> evidence_kind list \<Rightarrow> string option
      \<Rightarrow> completion_db \<Rightarrow> completion_db \<times> false_completion_incident" where
  "record_false_completion now instant fresh fresh_event c actual missing correction db =
     (let x = \<lparr>inc_id = ''inc-'' @ fresh, inc_run = cc_run c, inc_agent = cc_agent c, inc_model = cc_model c,
               inc_task = cc_task c, inc_claimed = claim_kind_str (cc_kind c), inc_actual = actual, inc_missing = missing,
               inc_contradictions = cc_contradictions c, inc_correction = correction,
               inc_severity = compute_severity (cc_kind c) missing (correction \<noteq> None), inc_event = ''le-'' @ fresh_event,
               inc_created = now\<rparr>
      in (insert_canonical_learning_event instant x (insert_false_completion_incident x db), x))"

section \<open>Trust\<close>

text \<open>A key is compared by workspace, agent, model and task, in this order.\<close>

type_synonym trust_key = "string \<times> string option \<times> string option \<times> string"

type_synonym run_contexts = "string \<Rightarrow> completion_run_context option"

definition or_given :: "string option \<Rightarrow> string option \<Rightarrow> string option" where
  "or_given a b = (case a of Some x \<Rightarrow> Some x | None \<Rightarrow> b)"

definition key_from_parts :: "string \<Rightarrow> string option \<Rightarrow> string option \<Rightarrow> string \<Rightarrow> run_contexts \<Rightarrow> trust_key" where
  "key_from_parts run agent model task contexts =
     (case contexts run of
        None \<Rightarrow> (DEFAULT_WORKSPACE_ID, agent, model, task)
      | Some c \<Rightarrow> (rc_workspace c, or_given (rc_agent c) agent, or_given (rc_model c) model, task))"

definition key_from_claim :: "run_contexts \<Rightarrow> completion_claim \<Rightarrow> trust_key" where
  "key_from_claim contexts c = key_from_parts (cc_run c) (cc_agent c) (cc_model c) (cc_task c) contexts"

definition key_from_incident :: "run_contexts \<Rightarrow> false_completion_incident \<Rightarrow> trust_key" where
  "key_from_incident contexts x = key_from_parts (inc_run x) (inc_agent x) (inc_model x) (inc_task x) contexts"

definition completion_contexts :: "completion_db \<Rightarrow> run_contexts" where
  "completion_contexts db = map_of (map (\<lambda>c. (rc_run c, c)) (rev (get_all_completion_run_contexts db)))"

definition collect_keys :: "completion_claim list \<Rightarrow> false_completion_incident list \<Rightarrow> run_contexts \<Rightarrow> trust_key list" where
  "collect_keys claims incidents contexts =
     remdups (map (key_from_claim contexts) claims @ map (key_from_incident contexts) incidents)"

definition collect_keys_for_run ::
    "string \<Rightarrow> completion_claim list \<Rightarrow> false_completion_incident list \<Rightarrow> run_contexts \<Rightarrow> trust_key list" where
  "collect_keys_for_run run claims incidents contexts =
     collect_keys (filter (\<lambda>c. cc_run c = run) claims) (filter (\<lambda>x. inc_run x = run) incidents) contexts"

primrec severity_weight :: "incident_severity \<Rightarrow> rat" where
  "severity_weight LowIncident = 1 / 2"
| "severity_weight MediumIncident = 1"
| "severity_weight HighIncident = 2"
| "severity_weight CriticalIncident = 3"

definition fnv1a64 :: "nat list \<Rightarrow> 64 word" where
  "fnv1a64 bytes = fnv_write OFFSET_BASIS bytes"

text \<open>The encoder of a JSON object of texts is a parameter.\<close>

definition score_id :: "((string \<times> string) list \<Rightarrow> string) \<Rightarrow> trust_key \<Rightarrow> string" where
  "score_id encode = (\<lambda>(workspace, agent, model, task).
     ''trust-'' @ hex16 (fnv1a64 (utf8_bytes (encode
       [(''agent_key'', or_default [] agent), (''model'', or_default [] model), (''task_type'', task), (''workspace_id'', workspace)]))))"

definition clamp_unit :: "rat \<Rightarrow> rat" where
  "clamp_unit x = (if x < 0 then 0 else if 1 < x then 1 else x)"

definition compute_score ::
    "((string \<times> string) list \<Rightarrow> string) \<Rightarrow> string \<Rightarrow> trust_key \<Rightarrow> completion_claim list \<Rightarrow> false_completion_incident list
      \<Rightarrow> run_contexts \<Rightarrow> trust_score" where
  "compute_score encode now key claims incidents contexts =
     (let matching_claims = filter (\<lambda>c. key_from_claim contexts c = key) claims;
          matching_incidents = filter (\<lambda>x. key_from_incident contexts x = key) incidents;
          verified = of_nat (length (filter cc_verified matching_claims)) :: u32;
          weighted = sum_list (map (\<lambda>x. severity_weight (inc_severity x)) matching_incidents)
      in \<lparr>ts_id = score_id encode key, ts_workspace = fst key, ts_agent = fst (snd key), ts_model = fst (snd (snd key)),
          ts_task = snd (snd (snd key)),
          ts_reliability = clamp_unit ((of_nat (unat verified) + 1) / (of_nat (unat verified) + weighted + 2)),
          ts_quality = (if matching_claims = [] then 1 / 2 else of_nat (unat verified) / of_nat (length matching_claims)),
          ts_false = of_nat (length matching_incidents), ts_verified = verified, ts_updated = now\<rparr>)"

text \<open>The groups are written one after the other in the order of a sorted set, which is an argument.\<close>

definition persist_scores_for_keys ::
    "((string \<times> string) list \<Rightarrow> string) \<Rightarrow> string \<Rightarrow> completion_claim list \<Rightarrow> false_completion_incident list \<Rightarrow> run_contexts
      \<Rightarrow> trust_key list \<Rightarrow> completion_db \<Rightarrow> completion_db" where
  "persist_scores_for_keys encode now claims incidents contexts keys db =
     foldl (\<lambda>d key. insert_trust_score (compute_score encode now key claims incidents contexts) d) db keys"

definition recompute_all_trust_scores where
  "recompute_all_trust_scores encode order now db =
     (let claims = get_all_completion_claims db; incidents = get_all_incidents db; contexts = completion_contexts db
      in persist_scores_for_keys encode now claims incidents contexts (order (collect_keys claims incidents contexts)) db)"

definition recompute_trust_scores_for_run where
  "recompute_trust_scores_for_run encode order now run db =
     (let claims = get_all_completion_claims db; incidents = get_all_incidents db; contexts = completion_contexts db
      in persist_scores_for_keys encode now claims incidents contexts (order (collect_keys_for_run run claims incidents contexts)) db)"

section \<open>The check\<close>

record completion_context =
  ctx_workspace :: string
  ctx_agent :: "string option"
  ctx_model :: "string option"

definition default_completion_context :: completion_context where
  "default_completion_context = \<lparr>ctx_workspace = DEFAULT_WORKSPACE_ID, ctx_agent = None, ctx_model = None\<rparr>"

text \<open>What a check takes from the crates and services around it.\<close>

record check_world =
  world_regex :: regex_engine
  world_sha :: "string \<Rightarrow> string"
  world_provenance :: provenance_db
  world_encode :: "(string \<times> string) list \<Rightarrow> string"
  world_order :: "trust_key list \<Rightarrow> trust_key list"

definition claims_in_context :: "regex_engine \<Rightarrow> check_supply \<Rightarrow> string \<Rightarrow> string \<Rightarrow> string \<Rightarrow> completion_context \<Rightarrow> completion_claim list" where
  "claims_in_context rx s run body task ctx =
     map (\<lambda>c. c\<lparr>cc_task := task, cc_agent := or_given (cc_agent c) (ctx_agent ctx), cc_model := or_given (cc_model c) (ctx_model ctx)\<rparr>)
       (extract_claims rx (check_now s) (new_claims s) body run)"

definition mark_verified :: "gate_result list \<Rightarrow> completion_claim \<Rightarrow> completion_claim" where
  "mark_verified results c = c\<lparr>cc_verified := claim_has_passed_gate c results \<and> \<not> is_blocked_by results c\<rparr>"

definition actual_state :: "gate_result list \<Rightarrow> completion_claim \<Rightarrow> completion_state" where
  "actual_state results c =
     (case find (\<lambda>g. cc_id c \<in> set (gr_blocked g)) results of Some g \<Rightarrow> gr_state g | None \<Rightarrow> CompletionNotRun)"

definition missing_for :: "gate_result list \<Rightarrow> completion_claim \<Rightarrow> evidence_kind list" where
  "missing_for results c = concat (map gr_missing (filter (\<lambda>g. cc_id c \<in> set (gr_blocked g)) results))"

text \<open>An incident is recorded for each unverified claim that a gate found failed or not run.\<close>

definition is_false_completion :: "gate_result list \<Rightarrow> completion_claim \<Rightarrow> bool" where
  "is_false_completion results c \<longleftrightarrow>
     \<not> cc_verified c \<and> (actual_state results c = CompletionFailed \<or> actual_state results c = CompletionNotRun)"

definition record_incidents ::
    "check_supply \<Rightarrow> gate_result list \<Rightarrow> completion_claim list \<Rightarrow> completion_db \<Rightarrow> completion_db" where
  "record_incidents s results claims db =
     foldl (\<lambda>d (k, c).
        if is_false_completion results c
        then fst (record_false_completion (check_now s) (check_instant s) (new_incidents s k) (new_events s k) c
               (actual_state results c) (missing_for results c) None d)
        else d) db (zip [0..<length claims] claims)"

definition persist_check ::
    "string \<Rightarrow> string \<Rightarrow> completion_report \<Rightarrow> gate_result list \<Rightarrow> completion_db \<Rightarrow> completion_db" where
  "persist_check now run report results db =
     insert_completion_report report
       (foldl (\<lambda>d g. insert_gate_result now g run d)
         (foldl (\<lambda>d e. insert_completion_evidence e d)
           (foldl (\<lambda>d c. insert_completion_claim c d) db (rep_claims report)) (rep_evidence report)) results)"

definition check_gates :: "check_world \<Rightarrow> check_supply \<Rightarrow> string \<Rightarrow> string \<Rightarrow> string \<Rightarrow> completion_context \<Rightarrow> completion_db
      \<Rightarrow> completion_evidence list \<times> gate_result list" where
  "check_gates w s run body task ctx db =
     (let claims = claims_in_context (world_regex w) s run body task ctx;
          evidence = resolve_evidence (world_sha w) (world_provenance w) (check_now s) (new_evidence s) db claims
      in (evidence, run_all_gates (new_gates s) claims evidence))"

definition check_completion_with_context ::
    "check_world \<Rightarrow> check_supply \<Rightarrow> string \<Rightarrow> string \<Rightarrow> string \<Rightarrow> completion_context \<Rightarrow> completion_db
      \<Rightarrow> completion_db \<times> completion_report" where
  "check_completion_with_context w s run body task ctx db0 =
     (let db1 = insert_completion_run_context \<lparr>rc_run = run, rc_workspace = ctx_workspace ctx, rc_agent = ctx_agent ctx,
                  rc_model = ctx_model ctx, rc_updated = check_now s\<rparr> db0;
          (evidence, results) = check_gates w s run body task ctx db1;
          claims = map (mark_verified results) (claims_in_context (world_regex w) s run body task ctx);
          report = assemble_report (check_now s) (new_report s) claims evidence results run (Some body);
          db2 = persist_check (check_now s) run report results db1;
          db3 = record_incidents s results (rep_claims report) db2
      in (recompute_trust_scores_for_run (world_encode w) (world_order w) (check_now s) run db3, report))"

definition check_completion where
  "check_completion w s run body task db = check_completion_with_context w s run body task default_completion_context db"

end
