(* ===== verification/Completion_Laws.thy ===== *)
theory Completion_Laws imports Completion_Check Learning_History begin

text \<open>
  What a completion check promises. A claim is verified exactly when the evidence supports its kind;
  the state of the report is decided by support and contradiction alone; every claim that is not
  verified becomes one incident and one learning event; trust stays strictly between 0 and 1.
\<close>

section \<open>Support\<close>

text \<open>
  Tests and ingestion ask that all their evidence has passed; a grounded answer asks for a citation
  that is not missing; every other kind asks, for each kind of evidence it requires, that some has
  passed and none has failed.
\<close>

definition some_evidence :: "evidence_kind \<Rightarrow> evidence_status \<Rightarrow> completion_evidence list \<Rightarrow> bool" where
  "some_evidence k s evidence \<longleftrightarrow> (\<exists>e \<in> set evidence. ce_kind e = k \<and> ce_status e = s)"

definition uniformly_passed :: "evidence_kind \<Rightarrow> completion_evidence list \<Rightarrow> bool" where
  "uniformly_passed k evidence \<longleftrightarrow>
     some_evidence k EvidencePassed evidence \<and> (\<forall>e \<in> set evidence. ce_kind e = k \<longrightarrow> ce_status e = EvidencePassed)"

definition assured :: "evidence_kind \<Rightarrow> completion_evidence list \<Rightarrow> bool" where
  "assured k evidence \<longleftrightarrow> some_evidence k EvidencePassed evidence \<and> \<not> some_evidence k EvidenceFailed evidence"

primrec backing :: "claim_kind \<Rightarrow> evidence_kind list" where
  "backing TestsPassClaim = [TestRun]"
| "backing BuildPassesClaim = [BuildResult]"
| "backing ImplementedClaim = [FileDiff, GeneratedArtifact]"
| "backing FixedClaim = [FileDiff, TestRun]"
| "backing IngestedClaim = [IngestionJob]"
| "backing IndexedClaim = [IngestionJob]"
| "backing AnswerGroundedClaim = [CitationTrace]"
| "backing VerifiedClaim = [ReviewFinding]"
| "backing DocumentedClaim = [GeneratedArtifact]"
| "backing DoneClaim = [GateResult]"

definition supported :: "claim_kind \<Rightarrow> completion_evidence list \<Rightarrow> bool" where
  "supported kind evidence \<longleftrightarrow>
     (if kind \<in> {TestsPassClaim, IngestedClaim, IndexedClaim} then \<forall>k \<in> set (backing kind). uniformly_passed k evidence
      else if kind = AnswerGroundedClaim
      then \<exists>e \<in> set evidence. ce_kind e = CitationTrace \<and> ce_status e \<noteq> EvidenceMissing
      else \<forall>k \<in> set (backing kind). assured k evidence)"

definition contradicted :: "claim_kind \<Rightarrow> completion_evidence list \<Rightarrow> bool" where
  "contradicted kind evidence \<longleftrightarrow>
     kind \<noteq> AnswerGroundedClaim \<and> (\<exists>k \<in> set (backing kind). some_evidence k EvidenceFailed evidence)"

section \<open>What a gate decides\<close>

definition judges :: "completion_claim list \<Rightarrow> completion_evidence list \<Rightarrow> claim_kind list \<Rightarrow> gate_result \<Rightarrow> bool" where
  "judges claims evidence kinds g \<longleftrightarrow>
     (gr_passed g \<longleftrightarrow> (\<forall>c \<in> set claims. cc_kind c \<in> set kinds \<longrightarrow> supported (cc_kind c) evidence))
     \<and> gr_blocked g = (if gr_passed g then [] else map cc_id (claims_of kinds claims))
     \<and> gr_state g = (if claims_of kinds claims = [] then CompletionNotRun
         else if gr_passed g then CompletionVerified
         else if \<exists>c \<in> set claims. cc_kind c \<in> set kinds \<and> contradicted (cc_kind c) evidence then CompletionFailed
         else CompletionNotRun)"

lemma evidence_of_some [simp]:
  "has_status s (evidence_of k evidence) \<longleftrightarrow> some_evidence k s evidence"
  by (auto simp: has_status_def evidence_of_def some_evidence_def list_ex_iff)

lemma all_evidence [simp]:
  "all_status s (evidence_of k evidence) \<longleftrightarrow> (\<forall>e \<in> set evidence. ce_kind e = k \<longrightarrow> ce_status e = s)"
  by (auto simp: all_status_def evidence_of_def list_all_iff)

lemma no_evidence: "evidence_of k evidence = [] \<longleftrightarrow> (\<forall>e \<in> set evidence. ce_kind e \<noteq> k)"
  by (simp add: evidence_of_def filter_empty_conv)

lemma assured_iff:
  "assured k evidence \<longleftrightarrow> \<not> is_failed evidence k \<and> \<not> is_missing evidence k \<and> \<not> is_non_passed evidence k"
  by (fastforce simp: assured_def is_failed_def is_missing_def is_non_passed_def Let_def no_evidence some_evidence_def)

lemma is_failed_iff: "is_failed evidence k \<longleftrightarrow> some_evidence k EvidenceFailed evidence"
  by (fastforce simp: is_failed_def is_missing_def Let_def no_evidence some_evidence_def)

lemma judged_all_passed:
  assumes "\<And>k. k \<in> set kinds \<Longrightarrow> supported k evidence \<longleftrightarrow> uniformly_passed kind evidence"
    and "\<And>k. k \<in> set kinds \<Longrightarrow> contradicted k evidence \<longleftrightarrow> some_evidence kind EvidenceFailed evidence"
  shows "judges claims evidence kinds (all_passed_gate i name kinds kind texts claims evidence)"
proof -
  have in_kinds: "claims_of kinds claims \<noteq> [] \<longleftrightarrow> (\<exists>c \<in> set claims. cc_kind c \<in> set kinds)"
    by (auto simp: claims_of_def filter_empty_conv)
  have good: "uniformly_passed kind evidence \<longleftrightarrow>
      evidence_of kind evidence \<noteq> [] \<and> \<not> has_status EvidenceFailed (evidence_of kind evidence)
      \<and> \<not> has_status EvidenceMissing (evidence_of kind evidence) \<and> all_status EvidencePassed (evidence_of kind evidence)"
    by (auto simp: uniformly_passed_def some_evidence_def no_evidence)
  have none: "evidence_of kind evidence = [] \<Longrightarrow> \<not> some_evidence kind EvidenceFailed evidence"
    by (auto simp: some_evidence_def no_evidence)
  show ?thesis
    using in_kinds good none
    by (auto simp: judges_def all_passed_gate_def Let_def assms nothing_to_check_def gate_passes_def gate_blocks_def)
qed

lemma judged_backed:
  assumes "\<And>k. k \<in> set kinds \<Longrightarrow> supported k evidence \<longleftrightarrow> (\<forall>r \<in> set required. assured r evidence)"
    and "\<And>k. k \<in> set kinds \<Longrightarrow> contradicted k evidence \<longleftrightarrow> (\<exists>r \<in> set required. some_evidence r EvidenceFailed evidence)"
  shows "judges claims evidence kinds (evidence_backed_gate i name kinds required claims evidence)"
proof -
  have in_kinds: "claims_of kinds claims \<noteq> [] \<longleftrightarrow> (\<exists>c \<in> set claims. cc_kind c \<in> set kinds)"
    by (auto simp: claims_of_def filter_empty_conv)
  have good: "(\<forall>r \<in> set required. assured r evidence) \<longleftrightarrow>
      filter (is_failed evidence) required = []
      \<and> filter (is_missing evidence) required @ filter (is_non_passed evidence) required = []"
    by (auto simp: assured_iff filter_empty_conv)
  have bad: "(\<exists>r \<in> set required. some_evidence r EvidenceFailed evidence) \<longleftrightarrow> filter (is_failed evidence) required \<noteq> []"
    by (auto simp: is_failed_iff filter_empty_conv)
  show ?thesis
    using in_kinds good bad
    by (auto simp: judges_def evidence_backed_gate_def Let_def assms nothing_to_check_def gate_passes_def gate_blocks_def)
qed

lemma judged_grounded: "judges claims evidence [AnswerGroundedClaim] (answer_grounded_gate i claims evidence)"
proof -
  have in_kinds: "claims_of [AnswerGroundedClaim] claims \<noteq> [] \<longleftrightarrow> (\<exists>c \<in> set claims. cc_kind c = AnswerGroundedClaim)"
    by (auto simp: claims_of_def filter_empty_conv)
  have good: "supported AnswerGroundedClaim evidence \<longleftrightarrow> \<not> is_missing evidence CitationTrace"
    by (auto simp: supported_def is_missing_def Let_def no_evidence)
  show ?thesis
    using in_kinds good
    by (auto simp: judges_def answer_grounded_gate_def Let_def contradicted_def nothing_to_check_def gate_passes_def gate_blocks_def)
qed

lemma gate_names [simp]:
  "gr_name (all_passed_gate i name kinds kind texts claims evidence) = name"
  "gr_name (evidence_backed_gate i name kinds required claims evidence) = name"
  "gr_name (answer_grounded_gate i claims evidence) = ''AnswerGroundedGate''"
  by (simp_all add: all_passed_gate_def evidence_backed_gate_def answer_grounded_gate_def Let_def nothing_to_check_def
      gate_passes_def gate_blocks_def)

text \<open>Which kinds of claims each of the nine gates judges.\<close>

definition gate_plan :: "(string \<times> claim_kind list) list" where
  "gate_plan =
     [(''TestsPassGate'', [TestsPassClaim]), (''BuildPassesGate'', [BuildPassesClaim]), (''ImplementedGate'', [ImplementedClaim]),
      (''FixedGate'', [FixedClaim]), (''IngestedGate'', [IngestedClaim, IndexedClaim]), (''AnswerGroundedGate'', [AnswerGroundedClaim]),
      (''VerifiedGate'', [VerifiedClaim]), (''DocumentedGate'', [DocumentedClaim]), (''DoneGate'', [DoneClaim])]"

lemma gates_follow_plan:
  "list_all2 (\<lambda>g (name, kinds). gr_name g = name \<and> judges claims evidence kinds g)
     (run_all_gates fresh claims evidence) gate_plan"
  by (simp add: run_all_gates_def gate_plan_def tests_pass_gate_def ingested_gate_def judged_grounded)
    (intro conjI judged_all_passed judged_backed; auto simp: supported_def contradicted_def)

lemma gate_of_kind:
  obtains g kinds where "g \<in> set (run_all_gates fresh claims evidence)" "gr_name g = gate_name_for_claim_kind k"
    "k \<in> set kinds" "judges claims evidence kinds g"
proof -
  have "\<exists>(name, kinds) \<in> set gate_plan. name = gate_name_for_claim_kind k \<and> k \<in> set kinds"
    by (cases k) (simp_all add: gate_plan_def)
  then show thesis
    using gates_follow_plan [of claims evidence fresh] that
    by (fastforce simp: list_all2_conv_all_nth in_set_conv_nth)
qed

lemma kinds_of_gate:
  assumes "g \<in> set (run_all_gates fresh claims evidence)"
  obtains kinds where "judges claims evidence kinds g" "\<And>k. gr_name g = gate_name_for_claim_kind k \<longleftrightarrow> k \<in> set kinds"
    "\<And>k k'. k \<in> set kinds \<Longrightarrow> k' \<in> set kinds \<Longrightarrow> supported k evidence \<longleftrightarrow> supported k' evidence"
    "\<And>k k'. k \<in> set kinds \<Longrightarrow> k' \<in> set kinds \<Longrightarrow> contradicted k evidence \<longleftrightarrow> contradicted k' evidence"
proof -
  have names: "\<forall>(name, kinds) \<in> set gate_plan. name = gate_name_for_claim_kind k \<longleftrightarrow> k \<in> set kinds" for k
    by (cases k) (simp_all add: gate_plan_def)
  have alike: "\<forall>(name, kinds) \<in> set gate_plan. \<forall>k \<in> set kinds. \<forall>k' \<in> set kinds.
      (supported k evidence \<longleftrightarrow> supported k' evidence) \<and> (contradicted k evidence \<longleftrightarrow> contradicted k' evidence)"
    by (simp add: gate_plan_def supported_def contradicted_def)
  obtain name kinds where found: "(name, kinds) \<in> set gate_plan" "gr_name g = name" "judges claims evidence kinds g"
    using assms gates_follow_plan [of claims evidence fresh] by (fastforce simp: list_all2_conv_all_nth in_set_conv_nth)
  show thesis
    using that [of kinds] found names alike by blast
qed

lemma passed_iff_supported:
  assumes "c \<in> set claims"
  shows "claim_has_passed_gate c (run_all_gates fresh claims evidence) \<longleftrightarrow> supported (cc_kind c) evidence"
proof
  assume "claim_has_passed_gate c (run_all_gates fresh claims evidence)"
  then obtain g where g: "g \<in> set (run_all_gates fresh claims evidence)" "gr_name g = gate_name_for_claim_kind (cc_kind c)" "gr_passed g"
    by (auto simp: claim_has_passed_gate_def list_ex_iff)
  obtain kinds where "judges claims evidence kinds g" "gr_name g = gate_name_for_claim_kind k \<longleftrightarrow> k \<in> set kinds" for k
    using kinds_of_gate [OF g(1)] by metis
  with g assms show "supported (cc_kind c) evidence"
    by (auto simp: judges_def)
next
  assume good: "supported (cc_kind c) evidence"
  obtain g kinds where g: "g \<in> set (run_all_gates fresh claims evidence)" "gr_name g = gate_name_for_claim_kind (cc_kind c)"
    using gate_of_kind by metis
  obtain kinds where kinds: "judges claims evidence kinds g" "\<And>k. gr_name g = gate_name_for_claim_kind k \<longleftrightarrow> k \<in> set kinds"
    "\<And>k k'. k \<in> set kinds \<Longrightarrow> k' \<in> set kinds \<Longrightarrow> supported k evidence \<longleftrightarrow> supported k' evidence"
    using kinds_of_gate [OF g(1)] by metis
  then have "gr_passed g"
    unfolding judges_def using good g(2) by metis
  with g show "claim_has_passed_gate c (run_all_gates fresh claims evidence)"
    by (auto simp: claim_has_passed_gate_def list_ex_iff)
qed

text \<open>Identifiers tell the claims of a check apart.\<close>

lemma blocked_by_gate:
  assumes "distinct (map cc_id claims)" "c \<in> set claims" "g \<in> set (run_all_gates fresh claims evidence)"
  shows "cc_id c \<in> set (gr_blocked g) \<longleftrightarrow>
    gr_name g = gate_name_for_claim_kind (cc_kind c) \<and> \<not> supported (cc_kind c) evidence"
proof -
  obtain kinds where kinds: "judges claims evidence kinds g" "\<And>k. gr_name g = gate_name_for_claim_kind k \<longleftrightarrow> k \<in> set kinds"
    "\<And>k k'. k \<in> set kinds \<Longrightarrow> k' \<in> set kinds \<Longrightarrow> supported k evidence \<longleftrightarrow> supported k' evidence"
    using kinds_of_gate [OF assms(3)] by metis
  have same: "d = c" if "d \<in> set claims" "cc_id d = cc_id c" for d
    using assms(1,2) that by (metis distinct_map inj_on_def)
  have blocked: "cc_id c \<in> set (gr_blocked g) \<longleftrightarrow> \<not> gr_passed g \<and> cc_kind c \<in> set kinds"
  proof -
    have "gr_blocked g = (if gr_passed g then [] else map cc_id (claims_of kinds claims))"
      using kinds(1) by (simp add: judges_def)
    moreover have "(\<exists>d \<in> set claims. cc_kind d \<in> set kinds \<and> cc_id c = cc_id d) \<longleftrightarrow> cc_kind c \<in> set kinds"
      using assms(2) same by metis
    then have "cc_id c \<in> set (map cc_id (claims_of kinds claims)) \<longleftrightarrow> cc_kind c \<in> set kinds"
      by (simp add: claims_of_def image_iff Bex_def conj_commute conj_left_commute)
    ultimately show ?thesis
      by simp
  qed
  have "cc_kind c \<in> set kinds \<Longrightarrow> gr_passed g \<longleftrightarrow> supported (cc_kind c) evidence"
    using kinds(1,3) assms(2) unfolding judges_def by metis
  with blocked kinds(2) show ?thesis
    by auto
qed

lemma blocked_iff_unsupported:
  assumes "distinct (map cc_id claims)" "c \<in> set claims"
  shows "is_blocked_by (run_all_gates fresh claims evidence) c \<longleftrightarrow> \<not> supported (cc_kind c) evidence"
proof -
  obtain g where "g \<in> set (run_all_gates fresh claims evidence)" "gr_name g = gate_name_for_claim_kind (cc_kind c)"
    using gate_of_kind by metis
  then show ?thesis
    using blocked_by_gate [OF assms] by (auto simp: is_blocked_by_def list_ex_iff)
qed

lemma verified_iff_supported:
  "distinct (map cc_id claims) \<Longrightarrow> c \<in> set claims
   \<Longrightarrow> mark_verified (run_all_gates fresh claims evidence) c = c\<lparr>cc_verified := supported (cc_kind c) evidence\<rparr>"
  by (simp add: mark_verified_def passed_iff_supported blocked_iff_unsupported)

lemma some_gate_fails:
  "(\<exists>g \<in> set (run_all_gates fresh claims evidence). \<not> gr_passed g) \<longleftrightarrow> (\<exists>c \<in> set claims. \<not> supported (cc_kind c) evidence)"
proof
  assume "\<exists>g \<in> set (run_all_gates fresh claims evidence). \<not> gr_passed g"
  then obtain g where g: "g \<in> set (run_all_gates fresh claims evidence)" "\<not> gr_passed g"
    by blast
  obtain kinds where "judges claims evidence kinds g"
    using kinds_of_gate [OF g(1)] by metis
  with g(2) show "\<exists>c \<in> set claims. \<not> supported (cc_kind c) evidence"
    by (auto simp: judges_def)
next
  assume "\<exists>c \<in> set claims. \<not> supported (cc_kind c) evidence"
  then obtain c where c: "c \<in> set claims" "\<not> supported (cc_kind c) evidence"
    by blast
  obtain g where "g \<in> set (run_all_gates fresh claims evidence)" "gr_name g = gate_name_for_claim_kind (cc_kind c)"
    using gate_of_kind by metis
  with c passed_iff_supported [OF c(1), of fresh evidence]
  show "\<exists>g \<in> set (run_all_gates fresh claims evidence). \<not> gr_passed g"
    by (auto simp: claim_has_passed_gate_def list_ex_iff)
qed

lemma contradicted_unsupported: "contradicted k evidence \<Longrightarrow> \<not> supported k evidence"
  by (auto simp: contradicted_def supported_def assured_def uniformly_passed_def some_evidence_def)

lemma some_gate_failed:
  "list_ex (\<lambda>g. gr_state g = CompletionFailed) (run_all_gates fresh claims evidence)
   \<longleftrightarrow> (\<exists>c \<in> set claims. contradicted (cc_kind c) evidence)"
proof
  assume "list_ex (\<lambda>g. gr_state g = CompletionFailed) (run_all_gates fresh claims evidence)"
  then obtain g where g: "g \<in> set (run_all_gates fresh claims evidence)" "gr_state g = CompletionFailed"
    by (auto simp: list_ex_iff)
  obtain kinds where "judges claims evidence kinds g"
    using kinds_of_gate [OF g(1)] by metis
  with g(2) show "\<exists>c \<in> set claims. contradicted (cc_kind c) evidence"
    by (auto simp: judges_def split: if_splits)
next
  assume "\<exists>c \<in> set claims. contradicted (cc_kind c) evidence"
  then obtain c where c: "c \<in> set claims" "contradicted (cc_kind c) evidence"
    by blast
  obtain g kinds where g: "g \<in> set (run_all_gates fresh claims evidence)" "cc_kind c \<in> set kinds" "judges claims evidence kinds g"
    using gate_of_kind [of fresh claims evidence "cc_kind c"] by metis
  moreover have "claims_of kinds claims \<noteq> []"
    using c(1) g(2) by (auto simp: claims_of_def filter_empty_conv)
  ultimately have "gr_state g = CompletionFailed"
    using c contradicted_unsupported [OF c(2)] by (auto simp: judges_def)
  with g(1) show "list_ex (\<lambda>g. gr_state g = CompletionFailed) (run_all_gates fresh claims evidence)"
    by (auto simp: list_ex_iff)
qed

lemma failing_gate_not_run:
  assumes "\<exists>g \<in> set (run_all_gates fresh claims evidence). \<not> gr_passed g"
    and "\<not> list_ex (\<lambda>g. gr_state g = CompletionFailed) (run_all_gates fresh claims evidence)"
  shows "list_ex (\<lambda>g. gr_state g = CompletionNotRun) (run_all_gates fresh claims evidence)"
proof -
  obtain g where g: "g \<in> set (run_all_gates fresh claims evidence)" "\<not> gr_passed g"
    using assms(1) by blast
  obtain kinds where "judges claims evidence kinds g"
    using kinds_of_gate [OF g(1)] by metis
  with g assms(2) have "gr_state g = CompletionNotRun"
    by (auto simp: judges_def list_ex_iff split: if_splits)
  with g(1) show ?thesis
    by (auto simp: list_ex_iff)
qed

section \<open>The report of a check\<close>

lemma claims_told_apart:
  assumes "inj (new_claims s)"
  shows "distinct (map cc_id (claims_in_context rx s run body task ctx))"
proof -
  define found where "found = List.map_filter (\<lambda>s. sentence_claim rx s claim_patterns) (sentences_of body)"
  have "map cc_id (claims_in_context rx s run body task ctx) = map (\<lambda>k. ''cl-'' @ new_claims s k) [0..<length found]"
    by (rule nth_equalityI) (simp_all add: claims_in_context_def extract_claims_def Let_def found_def split: prod.splits)
  moreover have "inj_on (\<lambda>k. ''cl-'' @ new_claims s k) A" for A
    using assms by (auto simp: inj_on_def dest: injD)
  ultimately show ?thesis
    by (simp add: distinct_map)
qed

definition run_context_row :: "check_supply \<Rightarrow> string \<Rightarrow> completion_context \<Rightarrow> completion_run_context" where
  "run_context_row s run ctx =
     \<lparr>rc_run = run, rc_workspace = ctx_workspace ctx, rc_agent = ctx_agent ctx, rc_model = ctx_model ctx, rc_updated = check_now s\<rparr>"

lemma report_of_check:
  assumes "snd (check_completion_with_context w s run body task ctx db) = report"
  defines "claims \<equiv> claims_in_context (world_regex w) s run body task ctx"
    and "db1 \<equiv> insert_completion_run_context (run_context_row s run ctx) db"
  shows "rep_evidence report = resolve_evidence (world_sha w) (world_provenance w) (check_now s) (new_evidence s) db1 claims"
    and "rep_claims report = map (mark_verified (run_all_gates (new_gates s) claims (rep_evidence report))) claims"
    and "rep_state report = final_state_of (rep_claims report) (run_all_gates (new_gates s) claims (rep_evidence report))"
  using assms by (auto simp: check_completion_with_context_def check_gates_def Let_def assemble_report_def run_context_row_def)

lemma verified_in_report:
  assumes "inj (new_claims s)" "snd (check_completion_with_context w s run body task ctx db) = report"
  shows "rep_claims report = map (\<lambda>c. c\<lparr>cc_verified := supported (cc_kind c) (rep_evidence report)\<rparr>)
    (claims_in_context (world_regex w) s run body task ctx)"
  by (subst report_of_check(2) [OF assms(2)]) (simp add: verified_iff_supported [OF claims_told_apart [OF assms(1)]])

text \<open>
  C7. In the report of a completion check, a claim is marked verified exactly when the evidence of the
  report supports its kind: claims about tests and ingestion need all their evidence passed, a grounded
  answer a citation that is not missing, and every other claim, for each kind of evidence behind it,
  some that passed and none that failed.
\<close>

theorem verified_claims_are_supported:
  assumes "inj (new_claims s)" "snd (check_completion_with_context w s run body task ctx db) = report"
    "c \<in> set (rep_claims report)"
  shows "cc_verified c \<longleftrightarrow> supported (cc_kind c) (rep_evidence report)"
  using assms(3) verified_in_report [OF assms(1,2)] by auto

lemma state_of_claims:
  fixes claims evidence
  defines "marked \<equiv> map (\<lambda>c. c\<lparr>cc_verified := supported (cc_kind c) evidence\<rparr>) claims"
  shows "final_state_of marked (run_all_gates fresh claims evidence) =
    (if claims = [] then CompletionNotRun
     else if \<forall>c \<in> set claims. supported (cc_kind c) evidence then CompletionVerified
     else if \<exists>c \<in> set claims. contradicted (cc_kind c) evidence then CompletionFailed
     else if \<exists>c \<in> set claims. supported (cc_kind c) evidence then CompletionPartial
     else CompletionAttempted)"
proof -
  let ?gates = "run_all_gates fresh claims evidence"
  have fails: "filter (\<lambda>g. \<not> gr_passed g) ?gates = [] \<longleftrightarrow> (\<forall>c \<in> set claims. supported (cc_kind c) evidence)"
    using some_gate_fails [of fresh claims evidence] by (auto simp: filter_empty_conv)
  have marked: "marked = [] \<longleftrightarrow> claims = []"
    "list_ex cc_verified marked \<longleftrightarrow> (\<exists>c \<in> set claims. supported (cc_kind c) evidence)"
    by (auto simp: marked_def list_ex_iff)
  show ?thesis
  proof (cases "\<forall>c \<in> set claims. supported (cc_kind c) evidence")
    case True
    with fails marked show ?thesis
      by (simp add: final_state_of_def)
  next
    case False
    then have "claims \<noteq> []"
      by auto
    moreover have "\<not> list_ex (\<lambda>g. gr_state g = CompletionFailed) ?gates \<Longrightarrow> list_ex (\<lambda>g. gr_state g = CompletionNotRun) ?gates"
      using failing_gate_not_run [of fresh claims evidence] False some_gate_fails [of fresh claims evidence] by blast
    ultimately show ?thesis
      using False fails marked some_gate_failed [of fresh claims evidence] by (auto simp: final_state_of_def)
  qed
qed

text \<open>
  C8. The state of a report is a function of support and contradiction: not run without claims,
  verified when every claim is supported, failed when some unsupported claim is contradicted by failed
  evidence, partial when some claim is verified, and attempted otherwise. The final fallback of the code
  is never reached.
\<close>

theorem report_state_is_exact:
  assumes "inj (new_claims s)" "snd (check_completion_with_context w s run body task ctx db) = report"
  shows "rep_state report =
    (if rep_claims report = [] then CompletionNotRun
     else if \<forall>c \<in> set (rep_claims report). cc_verified c then CompletionVerified
     else if \<exists>c \<in> set (rep_claims report). contradicted (cc_kind c) (rep_evidence report) then CompletionFailed
     else if \<exists>c \<in> set (rep_claims report). cc_verified c then CompletionPartial
     else CompletionAttempted)"
proof -
  note claims = verified_in_report [OF assms]
  have "rep_state report = final_state_of (rep_claims report)
      (run_all_gates (new_gates s) (claims_in_context (world_regex w) s run body task ctx) (rep_evidence report))"
    by (rule report_of_check(3) [OF assms(2)])
  then show ?thesis
    by (simp add: claims state_of_claims)
qed

section \<open>Incidents\<close>

lemma actual_state_exact:
  assumes "distinct (map cc_id claims)" "c \<in> set claims" "\<not> supported (cc_kind c) evidence"
  shows "actual_state (run_all_gates fresh claims evidence) c =
    (if contradicted (cc_kind c) evidence then CompletionFailed else CompletionNotRun)"
proof -
  let ?gates = "run_all_gates fresh claims evidence"
  have "find (\<lambda>g. cc_id c \<in> set (gr_blocked g)) ?gates \<noteq> None"
    using blocked_iff_unsupported [OF assms(1,2)] assms(3) by (auto simp: is_blocked_by_def find_None_iff list_ex_iff)
  then obtain g where found: "find (\<lambda>g. cc_id c \<in> set (gr_blocked g)) ?gates = Some g"
    by auto
  then have g: "g \<in> set ?gates" "cc_id c \<in> set (gr_blocked g)"
    by (auto simp: find_Some_iff in_set_conv_nth)
  have named: "gr_name g = gate_name_for_claim_kind (cc_kind c)"
    using blocked_by_gate [OF assms(1,2) g(1)] g(2) by simp
  obtain kinds where kinds: "judges claims evidence kinds g" "\<And>k. gr_name g = gate_name_for_claim_kind k \<longleftrightarrow> k \<in> set kinds"
    "\<And>k k'. k \<in> set kinds \<Longrightarrow> k' \<in> set kinds \<Longrightarrow> contradicted k evidence \<longleftrightarrow> contradicted k' evidence"
    using kinds_of_gate [OF g(1)] by metis
  have in_kinds: "cc_kind c \<in> set kinds"
    using kinds(2) named by blast
  have "\<not> gr_passed g" "claims_of kinds claims \<noteq> []"
    using in_kinds kinds(1) assms(2,3) by (auto simp: judges_def claims_of_def filter_empty_conv)
  moreover have "(\<exists>d \<in> set claims. cc_kind d \<in> set kinds \<and> contradicted (cc_kind d) evidence) \<longleftrightarrow> contradicted (cc_kind c) evidence"
    using in_kinds kinds(3) assms(2) by blast
  ultimately show ?thesis
    using kinds(1) found by (simp add: judges_def actual_state_def)
qed

definition incident_for :: "check_supply \<Rightarrow> gate_result list \<Rightarrow> nat \<times> completion_claim \<Rightarrow> false_completion_incident" where
  "incident_for s results = (\<lambda>(k, c).
     \<lparr>inc_id = ''inc-'' @ new_incidents s k, inc_run = cc_run c, inc_agent = cc_agent c, inc_model = cc_model c,
      inc_task = cc_task c, inc_claimed = claim_kind_str (cc_kind c), inc_actual = actual_state results c,
      inc_missing = missing_for results c, inc_contradictions = cc_contradictions c, inc_correction = None,
      inc_severity = compute_severity (cc_kind c) (missing_for results c) False, inc_event = ''le-'' @ new_events s k,
      inc_created = check_now s\<rparr>)"

definition event_of :: "check_supply \<Rightarrow> completion_db \<Rightarrow> false_completion_incident \<Rightarrow> learning_event" where
  "event_of s db x =
     \<lparr>event_id = inc_event x, event_workspace = workspace_id_for_run db (inc_run x), event_type = FalseCompletionDetected,
      event_source = inc_id x, event_outcome = Some (inc_run x), event_signal = incident_signal x, event_confidence = 9 / 10,
      event_provenance = [], event_created_at = check_instant s\<rparr>"

definition step_incident :: "check_supply \<Rightarrow> gate_result list \<Rightarrow> nat \<times> completion_claim \<Rightarrow> completion_db \<Rightarrow> completion_db" where
  "step_incident s results kc db =
     insert_canonical_learning_event (check_instant s) (incident_for s results kc)
       (insert_false_completion_incident (incident_for s results kc) db)"

lemma record_incidents_steps:
  "record_incidents s results claims db =
     foldl (\<lambda>d kc. step_incident s results kc d) db
       (filter (\<lambda>(_, c). is_false_completion results c) (zip [0..<length claims] claims))"
proof -
  have "foldl (\<lambda>d (k, c). if is_false_completion results c
          then fst (record_false_completion (check_now s) (check_instant s) (new_incidents s k) (new_events s k) c
                 (actual_state results c) (missing_for results c) None d) else d) db kcs =
    foldl (\<lambda>d kc. step_incident s results kc d) db (filter (\<lambda>(_, c). is_false_completion results c) kcs)" for kcs
    by (induction kcs arbitrary: db) (auto simp: record_false_completion_def step_incident_def incident_for_def Let_def)
  then show ?thesis
    by (simp add: record_incidents_def)
qed

definition minted_fresh :: "check_supply \<Rightarrow> completion_db \<Rightarrow> bool" where
  "minted_fresh s db \<longleftrightarrow> inj (new_claims s) \<and> inj (new_incidents s) \<and> inj (new_events s)
     \<and> (\<forall>k. map_of (cdb_incidents db) (''inc-'' @ new_incidents s k) = None)
     \<and> (\<forall>k. map_of (db_learning (cdb_learning db)) (''le-'' @ new_events s k) = None)"

lemma step_incident_fields:
  "cdb_incidents (step_incident s results kc d) =
     AList.update (inc_id (incident_for s results kc)) (incident_columns (incident_for s results kc)) (cdb_incidents d)"
  "db_learning (cdb_learning (step_incident s results kc d)) =
     AList.update (inc_event (incident_for s results kc)) (event_of s d (incident_for s results kc)) (db_learning (cdb_learning d))"
  "db_proposals (cdb_learning (step_incident s results kc d)) = db_proposals (cdb_learning d)"
  "db_versions (cdb_learning (step_incident s results kc d)) = db_versions (cdb_learning d)"
  "cdb_contexts (step_incident s results kc d) = cdb_contexts d"
  by (simp_all add: step_incident_def insert_canonical_learning_event_def insert_false_completion_incident_def
      record_event_def event_of_def workspace_id_for_run_def)

lemma event_of_context: "cdb_contexts d = cdb_contexts d' \<Longrightarrow> event_of s d = event_of s d'"
  by (rule ext) (simp add: event_of_def workspace_id_for_run_def)

lemma incidents_recorded:
  fixes results :: "gate_result list"
  assumes "minted_fresh s db" "distinct (map fst kcs)"
  defines "after \<equiv> foldl (\<lambda>d kc. step_incident s results kc d) db kcs"
  shows "cdb_incidents after = cdb_incidents db
      @ map (\<lambda>kc. (inc_id (incident_for s results kc), incident_columns (incident_for s results kc))) kcs
    \<and> db_learning (cdb_learning after) = db_learning (cdb_learning db)
      @ map (\<lambda>kc. (inc_event (incident_for s results kc), event_of s db (incident_for s results kc))) kcs
    \<and> db_proposals (cdb_learning after) = db_proposals (cdb_learning db)
    \<and> db_versions (cdb_learning after) = db_versions (cdb_learning db)
    \<and> cdb_contexts after = cdb_contexts db"
  unfolding after_def using assms(2)
proof (induction kcs rule: rev_induct)
  case Nil
  show ?case
    by simp
next
  case (snoc kc kcs)
  let ?d = "foldl (\<lambda>d kc. step_incident s results kc d) db kcs"
  let ?x = "incident_for s results kc"
  have IH: "cdb_incidents ?d = cdb_incidents db
        @ map (\<lambda>kc. (inc_id (incident_for s results kc), incident_columns (incident_for s results kc))) kcs"
      "db_learning (cdb_learning ?d) = db_learning (cdb_learning db)
        @ map (\<lambda>kc. (inc_event (incident_for s results kc), event_of s db (incident_for s results kc))) kcs"
      "db_proposals (cdb_learning ?d) = db_proposals (cdb_learning db)"
      "db_versions (cdb_learning ?d) = db_versions (cdb_learning db)" "cdb_contexts ?d = cdb_contexts db"
    using snoc by simp_all
  have other: "fst kc \<noteq> fst kc'" if "kc' \<in> set kcs" for kc'
    using snoc.prems that by force
  have "inc_id ?x \<notin> fst ` set (cdb_incidents ?d)" "inc_event ?x \<notin> fst ` set (db_learning (cdb_learning ?d))"
    using assms(1) other unfolding IH minted_fresh_def
    by (auto simp: incident_for_def map_of_eq_None_iff inj_eq split: prod.splits)
  then have fresh: "map_of (cdb_incidents ?d) (inc_id ?x) = None" "map_of (db_learning (cdb_learning ?d)) (inc_event ?x) = None"
    by (simp_all only: map_of_eq_None_iff not_False_eq_True)
  show ?case
    using update_fresh [OF fresh(1)] update_fresh [OF fresh(2)] IH event_of_context [OF IH(5), of s]
    by (simp add: step_incident_fields)
qed

lemma persist_beside [simp]:
  "cdb_incidents (persist_check now run report results db) = cdb_incidents db"
  "cdb_learning (persist_check now run report results db) = cdb_learning db"
proof -
  have "cdb_incidents (foldl (\<lambda>d c. insert_completion_claim c d) d cs) = cdb_incidents d
      \<and> cdb_learning (foldl (\<lambda>d c. insert_completion_claim c d) d cs) = cdb_learning d" for cs d
    by (induction cs arbitrary: d) (simp_all add: insert_completion_claim_def)
  moreover have "cdb_incidents (foldl (\<lambda>d e. insert_completion_evidence e d) d es) = cdb_incidents d
      \<and> cdb_learning (foldl (\<lambda>d e. insert_completion_evidence e d) d es) = cdb_learning d" for es d
    by (induction es arbitrary: d) (simp_all add: insert_completion_evidence_def)
  moreover have "cdb_incidents (foldl (\<lambda>d g. insert_gate_result now g run d) d gs) = cdb_incidents d
      \<and> cdb_learning (foldl (\<lambda>d g. insert_gate_result now g run d) d gs) = cdb_learning d" for gs d
    by (induction gs arbitrary: d) (simp_all add: insert_gate_result_def)
  ultimately show "cdb_incidents (persist_check now run report results db) = cdb_incidents db"
    "cdb_learning (persist_check now run report results db) = cdb_learning db"
    by (simp_all add: persist_check_def insert_completion_report_def)
qed

lemma recompute_beside [simp]:
  "cdb_incidents (recompute_trust_scores_for_run encode order now run db) = cdb_incidents db"
  "cdb_learning (recompute_trust_scores_for_run encode order now run db) = cdb_learning db"
proof -
  have "cdb_incidents (persist_scores_for_keys encode now cs xs ctxs keys d) = cdb_incidents d
      \<and> cdb_learning (persist_scores_for_keys encode now cs xs ctxs keys d) = cdb_learning d" for cs xs ctxs keys d
    unfolding persist_scores_for_keys_def by (induction keys arbitrary: d) (simp_all add: insert_trust_score_def)
  then show "cdb_incidents (recompute_trust_scores_for_run encode order now run db) = cdb_incidents db"
    "cdb_learning (recompute_trust_scores_for_run encode order now run db) = cdb_learning db"
    by (simp_all add: recompute_trust_scores_for_run_def Let_def)
qed

lemma state_ignores_mark [simp]:
  "actual_state results (c\<lparr>cc_verified := b\<rparr>) = actual_state results c"
  by (simp add: actual_state_def)

lemma false_completion_exact:
  assumes "inj (new_claims s)" "snd (check_completion_with_context w s run body task ctx db) = report"
    "c \<in> set (rep_claims report)"
  defines "results \<equiv> run_all_gates (new_gates s) (claims_in_context (world_regex w) s run body task ctx) (rep_evidence report)"
  shows "is_false_completion results c \<longleftrightarrow> \<not> cc_verified c"
    and "\<not> cc_verified c \<Longrightarrow> actual_state results c =
      (if contradicted (cc_kind c) (rep_evidence report) then CompletionFailed else CompletionNotRun)"
    and "cc_run c = run"
proof -
  obtain d where d: "d \<in> set (claims_in_context (world_regex w) s run body task ctx)"
      "c = d\<lparr>cc_verified := supported (cc_kind d) (rep_evidence report)\<rparr>"
    using assms(3) verified_in_report [OF assms(1,2)] by auto
  then show state: "actual_state results c =
      (if contradicted (cc_kind c) (rep_evidence report) then CompletionFailed else CompletionNotRun)" if "\<not> cc_verified c"
    using that actual_state_exact [OF claims_told_apart [OF assms(1)] d(1)] by (simp add: results_def)
  then show "is_false_completion results c \<longleftrightarrow> \<not> cc_verified c"
    by (auto simp: is_false_completion_def split: if_splits)
  show "cc_run c = run"
    using d by (auto simp: claims_in_context_def extract_claims_def Let_def)
qed

lemma check_records:
  assumes "minted_fresh s db" "check_completion_with_context w s run body task ctx db = (after, report)"
  defines "results \<equiv> run_all_gates (new_gates s) (claims_in_context (world_regex w) s run body task ctx) (rep_evidence report)"
    and "unverified \<equiv> filter (\<lambda>(_, c). \<not> cc_verified c) (zip [0..<length (rep_claims report)] (rep_claims report))"
  obtains db2 where "cdb_incidents after = cdb_incidents db
        @ map (\<lambda>kc. (inc_id (incident_for s results kc), incident_columns (incident_for s results kc))) unverified"
    "db_learning (cdb_learning after) = db_learning (cdb_learning db)
        @ map (\<lambda>kc. (inc_event (incident_for s results kc), event_of s db2 (incident_for s results kc))) unverified"
    "db_proposals (cdb_learning after) = db_proposals (cdb_learning db)"
    "db_versions (cdb_learning after) = db_versions (cdb_learning db)"
proof -
  define db1 where "db1 = insert_completion_run_context (run_context_row s run ctx) db"
  define db2 where "db2 = persist_check (check_now s) run report results db1"
  have report: "snd (check_completion_with_context w s run body task ctx db) = report"
    using assms(2) by simp
  have "after = recompute_trust_scores_for_run (world_encode w) (world_order w) (check_now s) run
      (record_incidents s results (rep_claims report) db2)"
    using assms(2) report_of_check(1) [OF report]
    by (auto simp: check_completion_with_context_def check_gates_def Let_def results_def db2_def db1_def run_context_row_def
        assemble_report_def)
  moreover have same: "cdb_incidents db2 = cdb_incidents db" "cdb_learning db2 = cdb_learning db"
    by (simp_all add: db2_def db1_def insert_completion_run_context_def)
  moreover have "filter (\<lambda>(_, c). is_false_completion results c) (zip [0..<length (rep_claims report)] (rep_claims report)) = unverified"
    unfolding unverified_def results_def
    by (rule filter_cong) (auto dest!: set_zip_rightD simp: false_completion_exact(1) [OF _ report] assms(1) [unfolded minted_fresh_def])
  moreover have "distinct (map fst unverified)"
  proof -
    have "distinct (map fst (filter (\<lambda>(_, c). P c) (zip [0..<length xs] xs)))" for P and xs :: "completion_claim list"
      by (rule distinct_map_filter) simp
    then show ?thesis
      by (simp add: unverified_def)
  qed
  moreover have "minted_fresh s db2"
    using assms(1) same by (simp add: minted_fresh_def)
  ultimately show thesis
    using incidents_recorded [of s db2 unverified results] that [of db2] by (simp add: record_incidents_steps)
qed

text \<open>
  C9. A check turns every claim it does not verify into exactly one incident, in the order of the claims:
  the incident names the run and the claimed kind, and as actual state failed when failed evidence
  contradicts the claim and not run otherwise. Each incident comes with one learning event that names
  it; earlier incidents and events stay, and the history of every manifest is untouched.
\<close>

theorem unverified_claims_become_incidents:
  assumes "minted_fresh s db" "check_completion_with_context w s run body task ctx db = (after, report)"
  shows "\<exists>incidents events. cdb_incidents after = cdb_incidents db @ incidents
    \<and> db_learning (cdb_learning after) = db_learning (cdb_learning db) @ events
    \<and> map (\<lambda>(_, r). (irow_run r, irow_claimed r, irow_actual r)) incidents =
        map (\<lambda>c. (run, claim_kind_str (cc_kind c), completion_state_str
               (if contradicted (cc_kind c) (rep_evidence report) then CompletionFailed else CompletionNotRun)))
          (filter (\<lambda>c. \<not> cc_verified c) (rep_claims report))
    \<and> map (\<lambda>(_, e). (event_type e, event_source e, event_outcome e)) events =
        map (\<lambda>(i, _). (FalseCompletionDetected, i, Some run)) incidents
    \<and> (\<forall>k. version_history k (cdb_learning after) = version_history k (cdb_learning db))"
proof -
  define results where
    "results = run_all_gates (new_gates s) (claims_in_context (world_regex w) s run body task ctx) (rep_evidence report)"
  define unverified where
    "unverified = filter (\<lambda>(_, c). \<not> cc_verified c) (zip [0..<length (rep_claims report)] (rep_claims report))"
  have snd_unverified: "map snd unverified = filter (\<lambda>c. \<not> cc_verified c) (rep_claims report)"
  proof -
    have "map snd (filter (\<lambda>(_, c). P c) (zip ks xs)) = filter P xs" if "length ks = length xs"
      for P and ks :: "nat list" and xs :: "completion_claim list"
      using that by (induction ks xs rule: list_induct2) auto
    then show ?thesis
      by (simp add: unverified_def)
  qed
  have members: "cc_run (snd kc) = run \<and> actual_state results (snd kc) =
      (if contradicted (cc_kind (snd kc)) (rep_evidence report) then CompletionFailed else CompletionNotRun)"
    if "kc \<in> set unverified" for kc
    using that assms false_completion_exact(2,3) [of s w run body task ctx db report "snd kc"]
    by (auto simp: unverified_def results_def minted_fresh_def dest: set_zip_rightD)
  show ?thesis
    by (rule check_records [OF assms, folded results_def unverified_def], intro exI conjI, assumption, assumption)
      (auto simp: incident_for_def incident_columns_def event_of_def snd_unverified [symmetric] split_beta members
        intro!: reads_of_tables(3))
qed

section \<open>Trust\<close>

lemma severity_positive: "0 < severity_weight v"
  by (cases v) simp_all

lemma weight_nonneg: "0 \<le> sum_list (map (\<lambda>x. severity_weight (inc_severity x)) xs)"
  by (induction xs) (auto simp: less_imp_le [OF severity_positive])

lemma fraction_bounds:
  fixes v w :: rat
  assumes "0 \<le> v" "0 \<le> w"
  shows "clamp_unit ((v + 1) / (v + w + 2)) = (v + 1) / (v + w + 2)" "0 < (v + 1) / (v + w + 2)" "(v + 1) / (v + w + 2) < 1"
  using assms by (simp_all add: clamp_unit_def divide_simps)


section \<open>Required evidence\<close>

lemma decides_unique:
  assumes "decides evidence kind a" "decides evidence kind b"
  shows "a = b"
proof -
  obtain as cs where a: "evidence = as @ a # cs" "req_kind a = kind"
      "\<forall>e \<in> set as. req_kind e = kind \<longrightarrow> req_sequence e \<le> req_sequence a"
      "\<forall>e \<in> set cs. req_kind e = kind \<longrightarrow> req_sequence e < req_sequence a"
    using assms(1) by (auto simp: decides_def)
  obtain bs ds where b: "evidence = bs @ b # ds" "req_kind b = kind"
      "\<forall>e \<in> set bs. req_kind e = kind \<longrightarrow> req_sequence e \<le> req_sequence b"
      "\<forall>e \<in> set ds. req_kind e = kind \<longrightarrow> req_sequence e < req_sequence b"
    using assms(2) by (auto simp: decides_def)
  from a(1) b(1) have "as @ a # cs = bs @ b # ds"
    by simp
  then consider "as = bs" "a = b" | us where "bs = as @ a # us" | us where "as = bs @ b # us"
    by (fastforce simp: append_eq_append_conv2 append_eq_Cons_conv Cons_eq_append_conv)
  then show ?thesis
  proof cases
    case 2
    then have "b \<in> set cs" "a \<in> set bs"
      using a(1) b(1) by auto
    with a b show ?thesis
      by fastforce
  next
    case 3
    then have "a \<in> set ds" "b \<in> set as"
      using a(1) b(1) by auto
    with a b show ?thesis
      by fastforce
  qed
qed

lemma latest_required_decides: "latest_required evidence kind = Some item \<longleftrightarrow> decides evidence kind item"
proof
  assume "decides evidence kind item"
  moreover from this have "\<not> (\<forall>e \<in> set evidence. req_kind e \<noteq> kind)"
    by (auto simp: decides_def)
  ultimately show "latest_required evidence kind = Some item"
    using latest_required_spec [of evidence kind] decides_unique by (auto split: option.splits)
qed (use latest_required_spec [of evidence kind] in simp)

text \<open>
  C11. The check of required evidence looks only at the item that decides a kind, the last of those with
  the greatest sequence number: a required kind is failed when that item failed, missing when there is
  none or it neither passed nor failed, and the check allows exactly when neither happens.
\<close>

theorem required_evidence_is_latest:
  "set (check_failed (check_required_evidence required evidence)) =
     {kind \<in> set required. \<exists>item. decides evidence kind item \<and> req_status item = RequiredFailed}
   \<and> set (check_missing (check_required_evidence required evidence)) =
     {kind \<in> set required. \<not> (\<exists>item. decides evidence kind item \<and> req_status item \<in> {RequiredPassed, RequiredFailed})}
   \<and> check_allowed (check_required_evidence required evidence) =
     (set required \<subseteq> {kind. \<exists>item. decides evidence kind item \<and> req_status item = RequiredPassed})"
  by (auto simp: check_required_evidence_def Let_def latest_required_decides [symmetric] filter_empty_conv
      subset_eq)

end
