(* ===== verification/Completion_Cases.thy ===== *)
theory Completion_Cases imports Completion_Laws begin

text \<open>
  Concrete checks of completion, and what the check does where it departs from its purpose: evidence
  that was once missing stays missing, a check without claims vouches for a later claim of being done,
  and a citation that does not reach a source grounds an answer.
\<close>

section \<open>A sample check\<close>

definition sample_engine :: regex_engine where
  "sample_engine = \<lparr>regex_find = (\<lambda>pattern text. if pattern = negation_prefix then None else Some (0, length text))\<rparr>"

definition sample_world :: check_world where
  "sample_world =
     \<lparr>world_regex = sample_engine, world_sha = id,
      world_provenance = \<lparr>pdb_records = [], pdb_edges = [], pdb_doc_edges = [], pdb_gt_edges = [], pdb_chunks = [],
        pdb_pages = [], pdb_artifacts = [], pdb_sources = []\<rparr>,
      world_encode = concat \<circ> map snd, world_order = id\<rparr>"

definition tally :: "nat \<Rightarrow> string" where
  "tally k = replicate k CHR ''x''"

definition sample_supply :: check_supply where
  "sample_supply =
     \<lparr>new_claims = tally, new_evidence = (\<lambda>k j. tally k @ ''-'' @ tally j), new_gates = tally, new_report = ''1'',
      new_incidents = tally, new_events = tally, check_now = ''2026-01-01T00:00:00Z'', check_instant = 0\<rparr>"

definition empty_completion :: completion_db where
  "empty_completion =
     \<lparr>cdb_claims = [], cdb_evidence = [], cdb_reports = [], cdb_gates = [], cdb_incidents = [], cdb_contexts = [],
      cdb_scores = [], cdb_jobs = None, cdb_learning = empty_learning\<rparr>"

lemma inj_tally: "inj tally"
  by (rule injI) (metis tally_def length_replicate)

lemma sample_fresh: "minted_fresh sample_supply empty_completion"
  by (simp add: minted_fresh_def sample_supply_def inj_tally empty_completion_def empty_learning_def)

definition sample_check :: "completion_db \<times> completion_report" where
  "sample_check =
     check_completion_with_context sample_world sample_supply ''run-1'' ''All tests pass.'' ''coding'' default_completion_context
       empty_completion"

lemma sample_sentence: "sentences_of ''All tests pass.'' = [''All tests pass'']"
  by code_simp

lemma sample_claims:
  "map cc_kind (claims_in_context sample_engine sample_supply ''run-1'' ''All tests pass.'' ''coding'' default_completion_context)
    = [TestsPassClaim]"
proof -
  have "sentence_claim sample_engine ''All tests pass'' claim_patterns = Some (hd claim_patterns, ''All tests pass'')"
    "pattern_kind (hd claim_patterns) = TestsPassClaim"
    by code_simp+
  then show ?thesis
    by (simp add: claims_in_context_def extract_claims_def Let_def sample_sentence List.map_filter_simps)
qed

lemma sample_evidence:
  "ce_kind e = TestRun \<and> ce_status e = EvidenceMissing" if "e \<in> set (rep_evidence (snd sample_check))"
proof -
  obtain c where c: "claims_in_context sample_engine sample_supply ''run-1'' ''All tests pass.'' ''coding'' default_completion_context = [c]"
      "cc_kind c = TestsPassClaim"
    using sample_claims by (auto simp: map_eq_Cons_conv)
  show ?thesis
    using that c report_of_check(1) [of sample_world sample_supply "''run-1''" "''All tests pass.''" "''coding''"
        default_completion_context empty_completion "snd sample_check"]
    by (auto simp: sample_check_def sample_world_def resolve_evidence_def evidence_for_claim_def find_test_run_evidence_def
        find_persisted_evidence_def get_evidence_by_run_def insert_completion_run_context_def empty_completion_def
        missing_evidence_record_def Let_def)
qed

lemma sample_inj: "inj (new_claims sample_supply)"
  by (simp add: sample_supply_def inj_tally)

lemma sample_marked:
  obtains c where "rep_claims (snd sample_check) = [c]" "cc_kind c = TestsPassClaim"
proof -
  have "map cc_kind (rep_claims (snd sample_check)) = [TestsPassClaim]"
    using verified_in_report [OF sample_inj sample_check_def [THEN arg_cong, of snd, symmetric]] sample_claims
    by (simp add: comp_def sample_world_def)
  with that show thesis
    by (auto simp: map_eq_Cons_conv)
qed

lemma sample_unsupported:
  "\<not> supported TestsPassClaim (rep_evidence (snd sample_check))" "\<not> contradicted TestsPassClaim (rep_evidence (snd sample_check))"
  using sample_evidence by (auto simp: supported_def contradicted_def uniformly_passed_def some_evidence_def)

theorem verified_claims_are_supported_witness:
  "\<exists>c. c \<in> set (rep_claims (snd sample_check)) \<and> \<not> cc_verified c"
proof -
  obtain c where c: "rep_claims (snd sample_check) = [c]" "cc_kind c = TestsPassClaim"
    by (rule sample_marked)
  then have "cc_verified c \<longleftrightarrow> supported (cc_kind c) (rep_evidence (snd sample_check))"
    using verified_claims_are_supported [OF sample_inj sample_check_def [THEN arg_cong, of snd, symmetric], of c] by simp
  with c sample_unsupported show ?thesis
    by auto
qed

theorem report_state_is_exact_witness: "rep_state (snd sample_check) = CompletionAttempted"
proof -
  obtain c where c: "rep_claims (snd sample_check) = [c]" "cc_kind c = TestsPassClaim"
    by (rule sample_marked)
  then have "\<not> cc_verified c"
    using verified_in_report [OF sample_inj sample_check_def [THEN arg_cong, of snd, symmetric]] sample_unsupported
    by (auto simp: map_eq_Cons_conv)
  then show ?thesis
    using report_state_is_exact [OF sample_inj sample_check_def [THEN arg_cong, of snd, symmetric]] c sample_unsupported
    by simp
qed

theorem unverified_claims_become_incidents_witness:
  "map (\<lambda>(_, r). (irow_run r, irow_claimed r, irow_actual r)) (cdb_incidents (fst sample_check))
     = [(''run-1'', ''TestsPass'', ''NotRun'')]"
proof -
  obtain c where c: "rep_claims (snd sample_check) = [c]" "cc_kind c = TestsPassClaim"
    by (rule sample_marked)
  then have "\<not> cc_verified c"
    using verified_in_report [OF sample_inj sample_check_def [THEN arg_cong, of snd, symmetric]] sample_unsupported
    by (auto simp: map_eq_Cons_conv)
  moreover have "check_completion_with_context sample_world sample_supply ''run-1'' ''All tests pass.'' ''coding''
      default_completion_context empty_completion = (fst sample_check, snd sample_check)"
    by (simp add: sample_check_def)
  ultimately show ?thesis
    using unverified_claims_become_incidents [OF sample_fresh] c sample_unsupported
    by (fastforce simp: empty_completion_def)
qed

definition sample_incident :: false_completion_incident where
  "sample_incident =
     \<lparr>inc_id = ''inc-1'', inc_run = ''run-1'', inc_agent = Some ''coder'', inc_model = None, inc_task = ''coding'',
      inc_claimed = ''Done'', inc_actual = CompletionFailed, inc_missing = [], inc_contradictions = [],
      inc_correction = None, inc_severity = HighIncident, inc_event = ''le-1'', inc_created = ''2026''\<rparr>"


section \<open>Where the check departs from its purpose\<close>

text \<open>The evidence of a claim is among the evidence of the report, and nothing else is.\<close>

lemma evidence_of_check:
  assumes "inj (new_claims s)" "snd (check_completion_with_context w s run body task ctx db) = report"
    "c \<in> set (rep_claims report)"
  shows "\<exists>k d. set (evidence_for_claim (world_sha w) (world_provenance w) (check_now s) (new_evidence s k)
      (insert_completion_run_context (run_context_row s run ctx) db) d) \<subseteq> set (rep_evidence report)
      \<and> cc_kind d = cc_kind c \<and> cc_run d = run"
proof -
  let ?claims = "claims_in_context (world_regex w) s run body task ctx"
  obtain d where d: "d \<in> set ?claims" "cc_kind d = cc_kind c"
    using assms(3) verified_in_report [OF assms(1,2)] by auto
  then obtain k where "k < length ?claims" "?claims ! k = d"
    by (auto simp: in_set_conv_nth)
  then have "(k, d) \<in> set (zip [0..<length ?claims] ?claims)"
    by (auto simp: in_set_zip intro: exI [of _ k])
  moreover have "cc_run d = run"
    using d(1) by (auto simp: claims_in_context_def extract_claims_def Let_def)
  ultimately show ?thesis
    using d(2) by (subst report_of_check(1) [OF assms(2)]) (fastforce simp: resolve_evidence_def)
qed

lemma context_beside [simp]:
  "get_evidence_by_run (insert_completion_run_context x db) = get_evidence_by_run db"
  "cdb_gates (insert_completion_run_context x db) = cdb_gates db"
  by (rule ext) (simp_all add: get_evidence_by_run_def insert_completion_run_context_def)

text \<open>Evidence of a test run that is on file without having passed bars every later claim about tests of this run.\<close>

lemma unpassed_tests_bar_later_claims:
  assumes "inj (new_claims s)" "snd (check_completion_with_context w s run body task ctx db) = report"
    "c \<in> set (rep_claims report)" "cc_kind c = TestsPassClaim"
    and "e \<in> set (get_evidence_by_run db run)" "ce_kind e = TestRun" "ce_status e \<noteq> EvidencePassed"
  shows "\<not> cc_verified c"
proof -
  obtain k d where d: "set (evidence_for_claim (world_sha w) (world_provenance w) (check_now s) (new_evidence s k)
      (insert_completion_run_context (run_context_row s run ctx) db) d) \<subseteq> set (rep_evidence report)"
      "cc_kind d = TestsPassClaim" "cc_run d = run"
    using evidence_of_check [OF assms(1-3)] assms(4) by auto
  have "filter (\<lambda>e. ce_kind e \<in> set [TestRun]) (get_evidence_by_run db run) \<noteq> []"
    using assms(5,6) by (auto simp: filter_empty_conv)
  then have "e \<in> set (rep_evidence report)"
    using d assms(5,6) by (auto simp: evidence_for_claim_def find_test_run_evidence_def find_persisted_evidence_def Let_def)
  then show ?thesis
    using assms(4,6,7) verified_claims_are_supported [OF assms(1-3)] by (auto simp: supported_def uniformly_passed_def)
qed

lemma citations_need_not_reach_a_source:
  assumes "inj (new_claims s)" "snd (check_completion_with_context w s run body task ctx db) = report"
    "c \<in> set (rep_claims report)" "cc_kind c = AnswerGroundedClaim"
    and "trace_edges (trace_artifact (world_sha w) (world_provenance w) run) \<noteq> []"
  shows "cc_verified c"
proof -
  obtain k d where d: "set (evidence_for_claim (world_sha w) (world_provenance w) (check_now s) (new_evidence s k)
      (insert_completion_run_context (run_context_row s run ctx) db) d) \<subseteq> set (rep_evidence report)"
      "cc_kind d = AnswerGroundedClaim" "cc_run d = run"
    using evidence_of_check [OF assms(1-3)] assms(4) by auto
  moreover have "\<exists>e \<in> set (find_citation_evidence (world_sha w) (world_provenance w) (check_now s) (new_evidence s k) run).
      ce_kind e = CitationTrace \<and> ce_status e \<in> {EvidencePassed, EvidenceUnknown}"
    using assms(5) by (simp add: find_citation_evidence_def Let_def)
  ultimately have "\<exists>e \<in> set (rep_evidence report). ce_kind e = CitationTrace \<and> ce_status e \<in> {EvidencePassed, EvidenceUnknown}"
    by (simp add: evidence_for_claim_def Let_def) blast
  then have "supported AnswerGroundedClaim (rep_evidence report)"
    by (auto simp: supported_def)
  then show ?thesis
    using assms(4) verified_claims_are_supported [OF assms(1-3)] by simp
qed

lemma gate_evidence_origin:
  assumes "e \<in> set (resolve_evidence sha prov now fresh db claims)" "ce_kind e = GateResult"
  shows "\<exists>k c. c \<in> set claims \<and> cc_kind c = DoneClaim \<and> e \<in> set (find_gate_evidence now (fresh k) db (cc_run c))"
proof -
  obtain k c where c: "c \<in> set claims" "e \<in> set (evidence_for_claim sha prov now (fresh k) db c)"
    using assms(1) by (auto simp: resolve_evidence_def dest: set_zip_rightD)
  have persisted: "ce_kind x = kind" if "x \<in> set (find_persisted_evidence now f db run [kind] why)" for x f run kind why
    using that by (auto simp: find_persisted_evidence_def missing_evidence_record_def Let_def split: if_splits)
  have diff: "ce_kind x \<in> {FileDiff, GeneratedArtifact}" if "x \<in> set (find_diff_evidence now f db run)" for x f run
    using that by (auto simp: find_diff_evidence_def find_persisted_evidence_def missing_evidence_record_def Let_def split: if_splits)
  have ingestion: "ce_kind x = IngestionJob" if "x \<in> set (find_ingestion_evidence now f db run)" for x f run
    using that by (auto simp: find_ingestion_evidence_def job_evidence_def missing_evidence_record_def Let_def split: if_splits option.splits)
  have citation: "ce_kind x = CitationTrace" if "x \<in> set (find_citation_evidence sha prov now f run)" for x f run
    using that by (auto simp: find_citation_evidence_def missing_evidence_record_def Let_def split: if_splits)
  have "cc_kind c = DoneClaim"
    using c(2) assms(2) unfolding evidence_for_claim_def Let_def find_test_run_evidence_def find_build_evidence_def
    by (cases "cc_kind c") (auto dest!: persisted diff ingestion citation)
  with c show ?thesis
    by (auto simp: evidence_for_claim_def Let_def)
qed

text \<open>Gates that passed for lack of claims are on file as passed, and then verify a claim of being done.\<close>

lemma vacuous_gates_verify_done:
  assumes "inj (new_claims s)" "snd (check_completion_with_context w s run body task ctx db) = report"
    "c \<in> set (rep_claims report)" "cc_kind c = DoneClaim"
    and "\<exists>(i, g) \<in> set (cdb_gates db). grow_run g = run"
    and "\<forall>(i, g) \<in> set (cdb_gates db). grow_run g = run \<longrightarrow> grow_passed g"
  shows "cc_verified c"
proof -
  let ?db = "insert_completion_run_context (run_context_row s run ctx) db"
  have rows: "filter (\<lambda>(_, g). grow_run g = run) (sort_key fst (cdb_gates ?db)) \<noteq> []"
    using assms(5) by (auto simp: filter_empty_conv)
  have found: "find_gate_evidence now f ?db run =
      map (\<lambda>(k, row). gate_evidence now (f k) run row)
        (zip [0..<length (filter (\<lambda>(_, g). grow_run g = run) (sort_key fst (cdb_gates ?db)))]
          (filter (\<lambda>(_, g). grow_run g = run) (sort_key fst (cdb_gates ?db))))" for now f
    using rows by (simp add: find_gate_evidence_def Let_def)
  have passed: "ce_kind e = GateResult \<and> ce_status e = EvidencePassed" if "e \<in> set (find_gate_evidence now f ?db run)" for e now f
    using that assms(6) unfolding found by (auto simp: gate_evidence_def dest!: set_zip_rightD)
  obtain k d where d: "set (evidence_for_claim (world_sha w) (world_provenance w) (check_now s) (new_evidence s k) ?db d)
      \<subseteq> set (rep_evidence report)" "cc_kind d = DoneClaim" "cc_run d = run"
    using evidence_of_check [OF assms(1-3)] assms(4) by auto
  have "find_gate_evidence (check_now s) (new_evidence s k) ?db run \<noteq> []"
    using rows unfolding found by simp
  then obtain x where x: "x \<in> set (find_gate_evidence (check_now s) (new_evidence s k) ?db run)"
    by (meson list.set_sel(1))
  have "x \<in> set (rep_evidence report)"
    using d x by (simp add: evidence_for_claim_def Let_def subset_iff)
  then have some: "some_evidence GateResult EvidencePassed (rep_evidence report)"
    using passed [OF x] unfolding some_evidence_def by blast
  have "ce_status e = EvidencePassed" if "e \<in> set (rep_evidence report)" "ce_kind e = GateResult" for e
  proof -
    have "\<exists>k. e \<in> set (find_gate_evidence (check_now s) (new_evidence s k) ?db run)"
      using that gate_evidence_origin [OF that(1) [unfolded report_of_check(1) [OF assms(2)]] that(2)]
      by (auto simp: claims_in_context_def extract_claims_def Let_def)
    then show ?thesis
      using passed by blast
  qed
  then have "supported DoneClaim (rep_evidence report)"
    using some by (auto simp: supported_def assured_def some_evidence_def)
  then show ?thesis
    using assms(4) verified_claims_are_supported [OF assms(1-3)] by simp
qed

text \<open>A check without claims is enough: it files nine passed gates for its run.\<close>

lemma gates_persisted:
  assumes "check_completion_with_context w s run body task ctx db = (after, report)"
  shows "cdb_gates after = foldl (\<lambda>gs g. AList.update (gr_id g) (gate_columns (check_now s) g run) gs) (cdb_gates db)
    (run_all_gates (new_gates s) (claims_in_context (world_regex w) s run body task ctx) (rep_evidence report))"
proof -
  have "cdb_gates (persist_scores_for_keys encode now cs xs ctxs keys d) = cdb_gates d" for encode now cs xs ctxs keys d
    unfolding persist_scores_for_keys_def by (induction keys arbitrary: d) (simp_all add: insert_trust_score_def)
  moreover have "cdb_gates (record_incidents s results claims d) = cdb_gates d" for results claims d
  proof -
    have "cdb_gates (foldl (\<lambda>d kc. step_incident s results kc d) d kcs) = cdb_gates d" for kcs
      by (induction kcs arbitrary: d)
        (simp_all add: step_incident_def insert_canonical_learning_event_def insert_false_completion_incident_def)
    then show ?thesis
      by (simp add: record_incidents_steps)
  qed
  moreover have "cdb_gates (foldl (\<lambda>d c. insert_completion_claim c d) d cs) = cdb_gates d" for cs d
    by (induction cs arbitrary: d) (simp_all add: insert_completion_claim_def)
  moreover have "cdb_gates (foldl (\<lambda>d e. insert_completion_evidence e d) d es) = cdb_gates d" for es d
    by (induction es arbitrary: d) (simp_all add: insert_completion_evidence_def)
  moreover have "cdb_gates (foldl (\<lambda>d g. insert_gate_result now g run d) d gs) =
      foldl (\<lambda>rows g. AList.update (gr_id g) (gate_columns now g run) rows) (cdb_gates d) gs" for now gs d
    by (induction gs arbitrary: d) (simp_all add: insert_gate_result_def)
  ultimately show ?thesis
    using assms report_of_check(1) [of w s run body task ctx db report]
    by (auto simp: check_completion_with_context_def check_gates_def Let_def recompute_trust_scores_for_run_def persist_check_def
        insert_completion_report_def assemble_report_def)
qed

lemma updated_row: "r \<in> set (AList.update k v al) \<Longrightarrow> r = (k, v) \<or> r \<in> set al"
  by (induction al) (auto split: if_splits)

lemma updated_rows:
  "row \<in> set (foldl (\<lambda>rows x. AList.update (f x) (g x) rows) rows xs) \<Longrightarrow> row \<in> set rows \<or> (\<exists>x \<in> set xs. row = (f x, g x))"
proof (induction xs arbitrary: rows)
  case (Cons x xs)
  have "row \<in> set (AList.update (f x) (g x) rows) \<or> (\<exists>x \<in> set xs. row = (f x, g x))"
    using Cons.IH [of "AList.update (f x) (g x) rows"] Cons.prems by simp
  then show ?case
    using updated_row by (metis list.set_intros)
qed simp

lemma last_row_kept: "xs \<noteq> [] \<Longrightarrow> (f (last xs), g (last xs)) \<in> set (foldl (\<lambda>rows x. AList.update (f x) (g x) rows) rows xs)"
  by (cases xs rule: rev_cases) (simp_all add: map_of_SomeD)

lemma vacuous_check_vouches_for_done:
  assumes "check_completion_with_context w s run body task ctx db = (filed, first)" "rep_claims first = []"
    and "\<forall>(i, g) \<in> set (cdb_gates db). grow_run g \<noteq> run"
    and "inj (new_claims s')" "snd (check_completion_with_context w' s' run body' task' ctx' filed) = report"
    and "c \<in> set (rep_claims report)" "cc_kind c = DoneClaim"
  shows "cc_verified c"
proof -
  let ?gates = "run_all_gates (new_gates s) [] (rep_evidence first)"
  have "claims_in_context (world_regex w) s run body task ctx = []"
    using report_of_check(2) [of w s run body task ctx db first] assms(1,2) by simp
  then have rows: "cdb_gates filed = foldl (\<lambda>gs g. AList.update (gr_id g) (gate_columns (check_now s) g run) gs) (cdb_gates db) ?gates"
    using gates_persisted [OF assms(1)] by simp
  have passed: "gr_passed g" if "g \<in> set ?gates" for g
    using some_gate_fails [of "new_gates s" "[]" "rep_evidence first"] that by auto
  have "?gates \<noteq> []"
    by (simp add: run_all_gates_def)
  then have "(gr_id (last ?gates), gate_columns (check_now s) (last ?gates) run) \<in> set (cdb_gates filed)"
    unfolding rows by (rule last_row_kept)
  then have some: "\<exists>(i, g) \<in> set (cdb_gates filed). grow_run g = run"
    by (force simp: gate_columns_def)
  have "grow_passed g" if row: "(i, g) \<in> set (cdb_gates filed)" "grow_run g = run" for i g
  proof -
    consider "(i, g) \<in> set (cdb_gates db)" | x where "x \<in> set ?gates" "g = gate_columns (check_now s) x run"
      using updated_rows [OF row(1) [unfolded rows]] by blast
    then show ?thesis
    proof cases
      case 1
      with row(2) assms(3) show ?thesis
        by auto
    next
      case 2
      with passed [OF 2(1)] show ?thesis
        by (simp only: gate_columns_def gate_row.select_convs)
    qed
  qed
  then have "\<forall>(i, g) \<in> set (cdb_gates filed). grow_run g = run \<longrightarrow> grow_passed g"
    by blast
  from vacuous_gates_verify_done [OF assms(4-7) some this] show ?thesis .
qed

text \<open>
  Evidence that a check finds missing is filed, so that it bars the later checks of the run, whatever
  evidence is filed beside it.
\<close>

lemma evidence_persisted:
  assumes "check_completion_with_context w s run body task ctx db = (filed, report)"
    and "inj_on ce_id (set (rep_evidence report))" "e \<in> set (rep_evidence report)"
  shows "map_of (cdb_evidence filed) (ce_id e) = Some (evidence_columns e)"
proof -
  have "cdb_evidence (persist_scores_for_keys encode now cs xs ctxs keys d) = cdb_evidence d" for encode now cs xs ctxs keys d
    unfolding persist_scores_for_keys_def by (induction keys arbitrary: d) (simp_all add: insert_trust_score_def)
  moreover have "cdb_evidence (record_incidents s results claims d) = cdb_evidence d" for results claims d
  proof -
    have "cdb_evidence (foldl (\<lambda>d kc. step_incident s results kc d) d kcs) = cdb_evidence d" for kcs
      by (induction kcs arbitrary: d)
        (simp_all add: step_incident_def insert_canonical_learning_event_def insert_false_completion_incident_def)
    then show ?thesis
      by (simp add: record_incidents_steps)
  qed
  moreover have "cdb_evidence (foldl (\<lambda>d g. insert_gate_result now g run d) d gs) = cdb_evidence d" for now gs d
    by (induction gs arbitrary: d) (simp_all add: insert_gate_result_def)
  moreover have "map_of (cdb_evidence (foldl (\<lambda>d e. insert_completion_evidence e d) d es)) (ce_id e) = Some (evidence_columns e)"
    if "inj_on ce_id (set es)" "e \<in> set es" for es d
    using that
  proof (induction es arbitrary: d rule: rev_induct)
    case (snoc x xs)
    then show ?case
      by (cases "ce_id x = ce_id e") (auto simp: insert_completion_evidence_def inj_on_def)
  qed simp
  ultimately show ?thesis
    using assms report_of_check(1) [of w s run body task ctx db report]
    by (auto simp: check_completion_with_context_def check_gates_def Let_def recompute_trust_scores_for_run_def persist_check_def
        insert_completion_report_def assemble_report_def)
qed

lemma missing_tests_stay_missing:
  assumes "check_completion_with_context w s run body task ctx db = (filed, first)"
    and "inj_on ce_id (set (rep_evidence first))" "e \<in> set (rep_evidence first)"
    and "ce_kind e = TestRun" "ce_status e = EvidenceMissing" "ce_run e = run"
    and "map_of (cdb_evidence later) (ce_id e) = map_of (cdb_evidence filed) (ce_id e)"
    and "inj (new_claims s')" "snd (check_completion_with_context w' s' run body' task' ctx' later) = report"
    and "c \<in> set (rep_claims report)" "cc_kind c = TestsPassClaim"
  shows "\<not> cc_verified c"
proof -
  have row: "(ce_id e, evidence_columns e) \<in> set (cdb_evidence later)"
    using evidence_persisted [OF assms(1-3)] assms(7) by (simp add: map_of_SomeD)
  then have "row_to_evidence (ce_id e) (evidence_columns e) \<in> set (get_evidence_by_run later run)"
    using assms(6) by (force simp: get_evidence_by_run_def evidence_columns_def)
  then show ?thesis
    using unpassed_tests_bar_later_claims [OF assms(8-11), of "row_to_evidence (ce_id e) (evidence_columns e)"] assms(4,5)
    by (simp add: row_to_evidence_def evidence_columns_def del: evidence_kind_str.simps evidence_status_str.simps)
qed

end
