(* ===== verification/Run_State.thy ===== *)
theory Run_State imports Rust_Base Learning_Store begin

text \<open>
  The state of a workflow run: \<^verbatim>\<open>crates/archon-workflow/src/run.rs\<close> and the specification it runs
  (\<^verbatim>\<open>spec.rs\<close>, \<^verbatim>\<open>spec_policy.rs\<close>). A \<^verbatim>\<open>BTreeMap\<close> is an association list with distinct keys, since no
  operation here reads its order. Instants are numbers and a quality score is a fraction.
\<close>

section \<open>Generations\<close>

text \<open>\<^verbatim>\<open>u64::saturating_add(1)\<close>.\<close>

definition next_generation :: "64 word \<Rightarrow> 64 word" where
  "next_generation g = (if g = - 1 then g else g + 1)"

lemma unat_next_generation: "g \<noteq> - 1 \<Longrightarrow> unat (next_generation g) = unat g + 1"
proof -
  assume "g \<noteq> - 1"
  then have "unat g \<noteq> unat (- 1 :: 64 word)"
    using unsigned_word_eqI by blast
  then have "unat g \<noteq> 2 ^ 64 - 1"
    by (simp add: unsigned_minus_1_eq_mask mask_eq_exp_minus_1)
  moreover have "unat g < 2 ^ 64"
    using unsigned_less [of g] by simp
  ultimately show ?thesis
    using \<open>g \<noteq> - 1\<close> by (simp add: next_generation_def unat_word_ariths)
qed

lemma next_generation_less: "g \<noteq> - 1 \<Longrightarrow> g < next_generation g"
  by (simp add: word_less_nat_alt unat_next_generation)

lemma next_generation_le: "g \<le> next_generation g"
  using next_generation_less [of g] by (cases "g = - 1") (auto simp: next_generation_def)

section \<open>Statuses\<close>

datatype run_status =
    RunPlanned | RunRunning | RunPaused | RunNeedsReview | RunBlocked | RunFailed | RunCancelled | RunCompleted

datatype stage_status =
    StagePending | StageRunning | StagePaused | StageNeedsReview | StageAccepted | StageBlocked | StageFailure
  | StageCancelled | StageSkipped | StageForcedAccepted

record artifact_ref =
  art_id :: string
  art_path :: string
  art_hash :: string
  art_stage :: string
  art_source_hash :: string
  art_accepted :: bool

record stage_state =
  st_id :: string
  st_status :: stage_status
  st_attempt :: u32
  st_started :: "nat option"
  st_completed :: "nat option"
  st_quality :: "rat option"
  st_artifacts :: "artifact_ref list"
  st_error :: "string option"

definition pending_stage :: "string \<Rightarrow> stage_state" where
  "pending_stage i =
     \<lparr>st_id = i, st_status = StagePending, st_attempt = 0, st_started = None, st_completed = None, st_quality = None,
      st_artifacts = [], st_error = None\<rparr>"

definition stage_terminal :: "stage_state \<Rightarrow> bool" where
  "stage_terminal s \<longleftrightarrow>
     st_status s \<in> {StageAccepted, StageBlocked, StageNeedsReview, StageFailure, StageCancelled, StageSkipped, StageForcedAccepted}"

record item_state =
  it_id :: string
  it_stage :: string
  it_status :: stage_status
  it_artifact :: "artifact_ref option"
  it_error :: "string option"

section \<open>The specification\<close>

datatype provider_tier = Planner | Researcher | Coder | Critic | Cheap | Vision | LocalTier | Reducer

datatype stage_kind =
    AgentStage | FanoutStage | ReduceStage | ToolStage | CheckpointStage | QualityGateStage | HumanGateStage | ImplementationStage

datatype reducer_kind =
    EvidenceWeightedReport | ClaimVote | AdversarialFindingsMerge | CitationReconciliation | CodeReviewSynthesis
  | ChapterAssembly | TaskDecomposition

record retry_policy =
  retry_attempts :: u32
  retry_delay :: "64 word"

record stage_spec =
  sp_id :: string
  sp_kind :: stage_kind
  sp_task :: "string option"
  sp_agent :: "string option"
  sp_foreach :: "string option"
  sp_reducer :: "reducer_kind option"
  sp_tool :: "string option"
  sp_depends :: "string list"
  sp_tier :: "provider_tier option"
  sp_retry :: retry_policy
  sp_input :: json
  sp_model :: "string option"
  sp_provider :: "string option"
  sp_targets :: "string list"
  sp_verify :: "string option"
  sp_parallelism :: "u32 option"
  sp_item_kind :: "stage_kind option"
  sp_filter :: "string option"
  sp_extra :: "(string \<times> json) list"

record workflow_spec =
  ws_schema :: string
  ws_name :: string
  ws_task :: string
  ws_target :: "string option"
  ws_parallelism :: u32
  ws_agents :: u32
  ws_stages :: "stage_spec list"
  ws_permissions :: "(string \<times> json) list"
  ws_hooks :: "string list"

section \<open>Runs\<close>

record workflow_run =
  run_id :: string
  run_spec :: workflow_spec
  run_state :: run_status
  run_created :: nat
  run_updated :: nat
  run_generation :: "64 word"
  run_executor :: "64 word option"
  run_stages :: "(string \<times> stage_state) list"
  run_items :: "(string \<times> item_state) list"
  run_root :: string

definition new_run :: "string \<Rightarrow> nat \<Rightarrow> workflow_spec \<Rightarrow> string \<Rightarrow> workflow_run" where
  "new_run fresh now spec dir =
     \<lparr>run_id = ''wf-'' @ fresh, run_spec = spec, run_state = RunPlanned, run_created = now, run_updated = now,
      run_generation = 0, run_executor = Some 0,
      run_stages = foldl (\<lambda>m s. AList.update (sp_id s) (pending_stage (sp_id s)) m) [] (ws_stages spec), run_items = [],
      run_root = dir\<rparr>"

text \<open>The generation of the executor: a run that does not record one is owned at its own generation.\<close>

definition owner_generation :: "workflow_run \<Rightarrow> 64 word" where
  "owner_generation r = (case run_executor r of Some e \<Rightarrow> e | None \<Rightarrow> run_generation r)"

definition execution_owned_at :: "workflow_run \<Rightarrow> 64 word \<Rightarrow> bool" where
  "execution_owned_at r g \<longleftrightarrow> g \<le> run_generation r \<and> owner_generation r \<le> g"

definition accepted_stage :: "workflow_run \<Rightarrow> string \<Rightarrow> bool" where
  "accepted_stage r i \<longleftrightarrow> (case map_of (run_stages r) i of Some s \<Rightarrow> st_status s = StageAccepted | None \<Rightarrow> False)"

definition dependency_satisfied_stage :: "workflow_run \<Rightarrow> string \<Rightarrow> bool" where
  "dependency_satisfied_stage r i \<longleftrightarrow>
     (case map_of (run_stages r) i of
        Some s \<Rightarrow> st_status s \<in> {StageAccepted, StageForcedAccepted, StageBlocked, StageNeedsReview} | None \<Rightarrow> False)"

section \<open>Changing every value of a map\<close>

definition on_values :: "('v \<Rightarrow> 'v) \<Rightarrow> ('k \<times> 'v) list \<Rightarrow> ('k \<times> 'v) list" where
  "on_values f m = map (\<lambda>(k, v). (k, f v)) m"

lemma map_of_on_values [simp]: "map_of (on_values f m) k = map_option f (map_of m k)"
  by (simp add: on_values_def map_of_map)

lemma keys_on_values [simp]: "map fst (on_values f m) = map fst m"
  by (simp add: on_values_def comp_def case_prod_unfold)

text \<open>Changing the values of some keys.\<close>

definition on_keys :: "'k set \<Rightarrow> ('k \<Rightarrow> 'v \<Rightarrow> 'v) \<Rightarrow> ('k \<times> 'v) list \<Rightarrow> ('k \<times> 'v) list" where
  "on_keys ks f m = map (\<lambda>(k, v). (k, if k \<in> ks then f k v else v)) m"

lemma map_of_on_keys [simp]: "map_of (on_keys ks f m) k = map_option (\<lambda>v. if k \<in> ks then f k v else v) (map_of m k)"
  by (induction m) (auto simp: on_keys_def)

lemma keys_on_keys [simp]: "map fst (on_keys ks f m) = map fst m"
  by (simp add: on_keys_def comp_def case_prod_unfold)

end
