(* ===== verification/Run_Store.thy ===== *)
theory Run_Store imports Run_State begin

text \<open>
  The durable state of runs and who may write it: \<^verbatim>\<open>crates/archon-workflow/src/store.rs\<close>,
  \<^verbatim>\<open>store_state.rs\<close>, the writer boundary of \<^verbatim>\<open>store_fence.rs\<close> and the owner checks of
  \<^verbatim>\<open>control_pause.rs\<close>. A file is absent, unreadable or holds a run. An operation under the run
  lock is one step; writes of files succeed. A handle is bound to the run and the generation of an
  executor, or it is unbound.
\<close>

section \<open>Files and handles\<close>

datatype control_error =
    RunSpecInvalid string
  | RunStateCorrupt string
  | RunIo string
  | RunControlPaused string
  | RunControlCancelled string

datatype run_file = NoRun | UnreadableRun string | StoredRun workflow_run

text \<open>The record of a deliberate stop (\<^verbatim>\<open>TERMINAL_STOP_RECORD\<close>).\<close>

record terminal_stop =
  stop_generation :: "64 word"
  stop_reason :: string

datatype stop_file = NoStop | UnreadableStop string | StoredStop terminal_stop

datatype run_event_kind =
    EventStarted | EventForcedAccepted | EventResumed | EventPaused | EventCancelled | EventCompleted

record run_store =
  rs_files :: "string \<Rightarrow> run_file"
  rs_stops :: "string \<Rightarrow> stop_file"
  rs_events :: "string \<Rightarrow> (run_event_kind \<times> json) list"

type_synonym run_handle = "(string \<times> 64 word) option"

definition unbound :: run_handle where
  "unbound = None"

definition for_executor :: "run_handle \<Rightarrow> string \<Rightarrow> 64 word \<Rightarrow> run_handle" where
  "for_executor h run g = (case h of None \<Rightarrow> Some (run, g) | Some _ \<Rightarrow> h)"

definition show_generation :: "64 word \<Rightarrow> string" where
  "show_generation g = show_nat (unat g)"

definition load_state :: "run_store \<Rightarrow> string \<Rightarrow> control_error + workflow_run" where
  "load_state st run =
     (case rs_files st run of
        NoRun \<Rightarrow> Inl (RunIo run)
      | UnreadableRun e \<Rightarrow> Inl (RunStateCorrupt e)
      | StoredRun r \<Rightarrow>
          if run_id r = run then Inr r
          else Inl (RunStateCorrupt (''run id mismatch: requested '' @ run @ '', state.json contains '' @ run_id r)))"

definition put_state :: "workflow_run \<Rightarrow> run_store \<Rightarrow> run_store" where
  "put_state r st = st\<lparr>rs_files := (rs_files st)(run_id r := StoredRun r)\<rparr>"

definition append_event :: "string \<Rightarrow> run_event_kind \<Rightarrow> json \<Rightarrow> run_store \<Rightarrow> run_store" where
  "append_event run kind detail st = st\<lparr>rs_events := (rs_events st)(run := rs_events st run @ [(kind, detail)])\<rparr>"

section \<open>The owner of a run\<close>

definition require_executor :: "workflow_run \<Rightarrow> 64 word \<Rightarrow> control_error + unit" where
  "require_executor r g =
     (if execution_owned_at r g then Inr ()
      else Inl (RunControlCancelled (''executor generation '' @ show_generation g @ '' no longer owns run '' @ run_id r
        @ ''; current generation is '' @ show_generation (run_generation r) @ '' (executor generation ''
        @ (case run_executor r of None \<Rightarrow> ''unrecorded'' | Some o1 \<Rightarrow> show_generation o1)
        @ ''); the stale session changes nothing'')))"

definition generation_owns :: "workflow_run \<Rightarrow> 64 word \<Rightarrow> control_error + unit" where
  "generation_owns r g =
     (case run_state r of
        RunPaused \<Rightarrow> Inl (RunControlPaused (''run '' @ run_id r @ '' is paused; generation '' @ show_generation g @ '' stops''))
      | RunCancelled \<Rightarrow>
          Inl (RunControlCancelled (''run '' @ run_id r @ '' is cancelled; generation '' @ show_generation g @ '' stops''))
      | _ \<Rightarrow>
          if run_generation r \<noteq> g
          then Inl (RunControlCancelled (''generation '' @ show_generation g @ '' no longer owns run '' @ run_id r
                 @ ''; current generation is '' @ show_generation (run_generation r)))
          else Inr ())"

definition require_generation :: "run_store \<Rightarrow> string \<Rightarrow> 64 word \<Rightarrow> control_error + unit" where
  "require_generation st run g = (case load_state st run of Inl e \<Rightarrow> Inl e | Inr r \<Rightarrow> generation_owns r g)"

definition require_writer :: "run_handle \<Rightarrow> run_store \<Rightarrow> string \<Rightarrow> control_error + unit" where
  "require_writer h st run =
     (case h of
        None \<Rightarrow> Inr ()
      | Some (_, g) \<Rightarrow> (case load_state st run of Inl e \<Rightarrow> Inl e | Inr r \<Rightarrow> require_executor r g))"

text \<open>A bound handle writes its own run only, and only while that exists.\<close>

definition lock_run :: "run_handle \<Rightarrow> run_store \<Rightarrow> string \<Rightarrow> control_error + unit" where
  "lock_run h st run =
     (case h of
        None \<Rightarrow> Inr ()
      | Some (i, _) \<Rightarrow>
          if i \<noteq> run then Inl (RunSpecInvalid ''executor store cannot write another run'')
          else if rs_files st run = NoRun then Inl (RunIo run) else Inr ())"

definition with_run_lock :: "run_handle \<Rightarrow> string \<Rightarrow> (run_store \<Rightarrow> run_store \<times> (control_error + 'a)) \<Rightarrow> run_store
    \<Rightarrow> run_store \<times> (control_error + 'a)" where
  "with_run_lock h run work st =
     (case lock_run h st run of
        Inl e \<Rightarrow> (st, Inl e)
      | Inr _ \<Rightarrow> (case require_writer h st run of Inl e \<Rightarrow> (st, Inl e) | Inr _ \<Rightarrow> work st))"

definition with_writer :: "run_handle \<Rightarrow> string \<Rightarrow> (run_store \<Rightarrow> run_store \<times> (control_error + 'a)) \<Rightarrow> run_store
    \<Rightarrow> run_store \<times> (control_error + 'a)" where
  "with_writer h run work st = (if h = None then work st else with_run_lock h run work st)"

section \<open>Writing the state of a run\<close>

definition stale_text :: "workflow_run \<Rightarrow> workflow_run \<Rightarrow> string" where
  "stale_text r current =
     ''stale workflow state generation for '' @ run_id r @ '': local '' @ show_generation (run_generation r) @ '', current ''
     @ show_generation (run_generation current)"

definition newer_state :: "run_store \<Rightarrow> workflow_run \<Rightarrow> workflow_run option" where
  "newer_state st r =
     (case load_state st (run_id r) of
        Inr current \<Rightarrow> if run_generation r < run_generation current then Some current else None
      | Inl _ \<Rightarrow> None)"

definition save_state :: "run_handle \<Rightarrow> workflow_run \<Rightarrow> run_store \<Rightarrow> run_store \<times> (control_error + unit)" where
  "save_state h r =
     with_writer h (run_id r) (\<lambda>st.
       case newer_state st r of
         Some current \<Rightarrow> (st, Inl (RunStateCorrupt (stale_text r current)))
       | None \<Rightarrow> (put_state r st, Inr ()))"

definition restore_state_after_failed_transition ::
    "run_handle \<Rightarrow> workflow_run \<Rightarrow> 64 word \<Rightarrow> run_store \<Rightarrow> run_store \<times> (control_error + unit)" where
  "restore_state_after_failed_transition h prior failed =
     with_writer h (run_id prior) (\<lambda>st.
       case load_state st (run_id prior) of
         Inl e \<Rightarrow> (st, Inl e)
       | Inr current \<Rightarrow>
           if run_generation current \<noteq> failed
           then (st, Inl (RunStateCorrupt (''cannot restore workflow '' @ run_id prior @ '' after failed transition: expected generation ''
                  @ show_generation failed @ '', found '' @ show_generation (run_generation current))))
           else (put_state prior st, Inr ()))"

text \<open>What a newer pause or cancellation keeps of itself when an older local state is saved over it.\<close>

definition keep_stopped_stages :: "(string \<times> stage_state) list \<Rightarrow> (string \<times> stage_state) list \<Rightarrow> (string \<times> stage_state) list" where
  "keep_stopped_stages current local =
     map (\<lambda>(i, s).
        (i, case map_of current i of
              Some c \<Rightarrow> if st_status c \<in> {StagePaused, StageCancelled} then c else s
            | None \<Rightarrow> s)) local"

definition keep_cancelled_items :: "(string \<times> item_state) list \<Rightarrow> (string \<times> item_state) list \<Rightarrow> (string \<times> item_state) list" where
  "keep_cancelled_items current local =
     foldl (\<lambda>m (i, c). if it_status c = StageCancelled then AList.update i c m else m) local current"

definition keep_control :: "workflow_run \<Rightarrow> workflow_run \<Rightarrow> workflow_run" where
  "keep_control current r =
     r\<lparr>run_state := run_state current, run_generation := run_generation current, run_executor := run_executor current,
       run_updated := run_updated current, run_stages := keep_stopped_stages (run_stages current) (run_stages r),
       run_items := keep_cancelled_items (run_items current) (run_items r)\<rparr>"

definition save_state_preserving_control :: "run_handle \<Rightarrow> workflow_run \<Rightarrow> run_store \<Rightarrow> run_store \<times> (control_error + unit)" where
  "save_state_preserving_control h r =
     with_writer h (run_id r) (\<lambda>st.
       case newer_state st r of
         None \<Rightarrow> (put_state r st, Inr ())
       | Some current \<Rightarrow>
           if run_state current \<in> {RunPaused, RunCancelled} then (put_state (keep_control current r) st, Inr ())
           else (st, Inl (RunStateCorrupt (stale_text r current))))"

end
