(* ===== verification/Run_Control.thy ===== *)
theory Run_Control imports Run_Store begin

text \<open>
  Pausing a run, the fence of an executor and the poll of run control:
  \<^verbatim>\<open>crates/archon-workflow/src/control_pause.rs\<close>, \<^verbatim>\<open>store_fence.rs\<close> and \<^verbatim>\<open>control.rs\<close>. The redaction of
  events and the wording of their causes are not modelled; an event holds the detail it is given.
\<close>

section \<open>Pausing\<close>

definition json_put :: "string \<Rightarrow> json \<Rightarrow> json \<Rightarrow> json" where
  "json_put k v j =
     (case j of JsonObject fs \<Rightarrow> JsonObject (insort_key fst (k, v) (filter (\<lambda>(i, _). i \<noteq> k) fs)) | _ \<Rightarrow> j)"

definition json_generation :: "64 word \<Rightarrow> json" where
  "json_generation g = JsonNumber (of_nat (unat g))"

definition pause_stage :: "stage_state \<Rightarrow> stage_state" where
  "pause_stage s = (if st_status s = StageRunning then s\<lparr>st_status := StagePaused, st_completed := None\<rparr> else s)"

definition pause_item :: "item_state \<Rightarrow> item_state" where
  "pause_item i = (if it_status i = StageRunning then i\<lparr>it_status := StagePaused\<rparr> else i)"

definition apply_pause :: "nat \<Rightarrow> workflow_run \<Rightarrow> workflow_run" where
  "apply_pause now r =
     r\<lparr>run_state := RunPaused, run_stages := on_values pause_stage (run_stages r),
       run_items := on_values pause_item (run_items r), run_generation := next_generation (run_generation r), run_updated := now\<rparr>"

datatype pause_owner = PauseGeneration "64 word" | PauseExecutor "64 word" | PauseUnfenced

definition pause_owner_of_executor :: "64 word option \<Rightarrow> pause_owner" where
  "pause_owner_of_executor e = (case e of None \<Rightarrow> PauseUnfenced | Some g \<Rightarrow> PauseExecutor g)"

primrec pause_owner_text :: "pause_owner \<Rightarrow> string" where
  "pause_owner_text (PauseGeneration g) = ''Generation('' @ show_generation g @ '')''"
| "pause_owner_text (PauseExecutor g) = ''Executor('' @ show_generation g @ '')''"
| "pause_owner_text PauseUnfenced = ''Unfenced''"

primrec pauser_may_write :: "pause_owner \<Rightarrow> workflow_run \<Rightarrow> control_error + unit" where
  "pauser_may_write (PauseGeneration g) r = require_executor r g"
| "pauser_may_write (PauseExecutor g) r = require_executor r g"
| "pauser_may_write PauseUnfenced r = Inr ()"

definition require_pauser :: "pause_owner \<Rightarrow> workflow_run \<Rightarrow> control_error + unit" where
  "require_pauser p r =
     (case p of
        PauseGeneration g \<Rightarrow> generation_owns r g
      | _ \<Rightarrow>
          (case run_state r of
             RunPaused \<Rightarrow> Inl (RunControlPaused (''run '' @ run_id r @ '' is paused; '' @ pause_owner_text p @ '' stops''))
           | RunCancelled \<Rightarrow> Inl (RunControlCancelled (''run '' @ run_id r @ '' is cancelled; '' @ pause_owner_text p @ '' stops''))
           | _ \<Rightarrow> pauser_may_write p r))"

datatype stop_state = StopClear | StopInForce terminal_stop | StopUnreadable string

definition terminal_stop_state :: "run_store \<Rightarrow> workflow_run \<Rightarrow> stop_state" where
  "terminal_stop_state st r =
     (if run_state r \<notin> {RunPlanned, RunRunning} then StopClear
      else case rs_stops st (run_id r) of
             NoStop \<Rightarrow> StopClear
           | UnreadableStop e \<Rightarrow> StopUnreadable e
           | StoredStop s \<Rightarrow> if stop_generation s = run_generation r then StopInForce s else StopClear)"

definition record_terminal_stop :: "workflow_run \<Rightarrow> string \<Rightarrow> run_store \<Rightarrow> run_store" where
  "record_terminal_stop r reason st =
     st\<lparr>rs_stops := (rs_stops st)(run_id r := StoredStop \<lparr>stop_generation = run_generation r, stop_reason = reason\<rparr>)\<rparr>"

definition stopped_refusal :: "workflow_run \<Rightarrow> terminal_stop \<Rightarrow> string \<Rightarrow> control_error" where
  "stopped_refusal r s caller =
     RunControlCancelled (''run '' @ run_id r @ '' stopped terminally at generation '' @ show_generation (stop_generation s) @ '': ''
       @ stop_reason s @ ''; '' @ caller @ '' stops'')"

definition set_aside_unreadable :: "workflow_run \<Rightarrow> string \<Rightarrow> run_store \<Rightarrow> run_store \<times> json" where
  "set_aside_unreadable r e st =
     (st\<lparr>rs_stops := (rs_stops st)(run_id r := NoStop)\<rparr>,
      JsonObject [(''error'', JsonText e), (''event'', JsonText ''terminal_stop_unreadable''),
        (''kept_at'', JsonText (''v2/terminal-stop.json.unreadable-g'' @ show_generation (run_generation r))),
        (''set_aside_error'', JsonNull)])"

definition terminal_stop_before_pause ::
    "workflow_run \<Rightarrow> string \<Rightarrow> bool \<Rightarrow> run_store \<Rightarrow> run_store \<times> (control_error + json option)" where
  "terminal_stop_before_pause r caller run_end st =
     (case terminal_stop_state st r of
        StopClear \<Rightarrow> (st, Inr None)
      | StopInForce s \<Rightarrow> if run_end then (st, Inr None) else (st, Inl (stopped_refusal r s caller))
      | StopUnreadable e \<Rightarrow> (case set_aside_unreadable r e st of (st', evidence) \<Rightarrow> (st', Inr (Some evidence))))"

definition pause_detail :: "pause_owner \<Rightarrow> workflow_run \<Rightarrow> workflow_run \<Rightarrow> json option \<Rightarrow> json \<Rightarrow> json" where
  "pause_detail p before paused evidence detail =
     (let d = json_put ''paused_by_generation'' (json_generation (run_generation before))
            (json_put ''generation'' (json_generation (run_generation paused)) (json_put ''action'' (JsonText ''pause'') detail));
          d = (case p of PauseExecutor g \<Rightarrow> json_put ''paused_by_executor'' (json_generation g) d | _ \<Rightarrow> d)
      in case evidence of None \<Rightarrow> d | Some e \<Rightarrow> json_put ''terminal_stop_unreadable'' e d)"

definition pause_owned ::
    "run_handle \<Rightarrow> nat \<Rightarrow> string \<Rightarrow> pause_owner \<Rightarrow> json \<Rightarrow> run_store \<Rightarrow> run_store \<times> (control_error + unit)" where
  "pause_owned h now run p detail =
     with_run_lock h run (\<lambda>st.
       case load_state st run of
         Inl e \<Rightarrow> (st, Inl e)
       | Inr r \<Rightarrow>
           (case require_pauser p r of
              Inl e \<Rightarrow> (st, Inl e)
            | Inr _ \<Rightarrow>
                (case terminal_stop_before_pause r ''its pause'' (case p of PauseExecutor _ \<Rightarrow> True | _ \<Rightarrow> False) st of
                   (st', Inl e) \<Rightarrow> (st', Inl e)
                 | (st', Inr evidence) \<Rightarrow>
                     let paused = apply_pause now r
                     in (case save_state h paused st' of
                           (st'', Inl e) \<Rightarrow> (st'', Inl e)
                         | (st'', Inr _) \<Rightarrow> (append_event run EventPaused (pause_detail p r paused evidence detail) st'', Inr ())))))"

definition pause_with_evidence where
  "pause_with_evidence h now run g detail st = pause_owned h now run (PauseGeneration g) detail st"

definition require_no_terminal_stop_locked ::
    "run_handle \<Rightarrow> nat \<Rightarrow> workflow_run \<Rightarrow> string \<Rightarrow> run_store \<Rightarrow> run_store \<times> (control_error + unit)" where
  "require_no_terminal_stop_locked h now r caller st =
     (case terminal_stop_state st r of
        StopClear \<Rightarrow> (st, Inr ())
      | StopInForce s \<Rightarrow> (st, Inl (stopped_refusal r s caller))
      | StopUnreadable e \<Rightarrow>
          (case set_aside_unreadable r e st of
             (st', evidence) \<Rightarrow>
               let paused = apply_pause now r
               in (case save_state h paused st' of
                     (st'', Inl e) \<Rightarrow> (st'', Inl e)
                   | (st'', Inr _) \<Rightarrow>
                       (append_event (run_id r) EventPaused
                          (json_put ''caller'' (JsonText caller)
                            (json_put ''generation'' (json_generation (run_generation paused))
                              (json_put ''action'' (JsonText ''pause'') evidence))) st'',
                        Inl (RunControlPaused (''run '' @ run_id r @ '' is paused: its terminal stop record could not be read ('' @ e
                          @ ''), so it may hold a deliberate stop; the record is kept beside it as v2/terminal-stop.json.unreadable-g''
                          @ show_generation (run_generation r) @ ''. Inspect it, then resume; '' @ caller @ '' stops''))))))"

definition require_no_terminal_stop ::
    "run_handle \<Rightarrow> nat \<Rightarrow> workflow_run \<Rightarrow> string \<Rightarrow> run_store \<Rightarrow> run_store \<times> (control_error + unit)" where
  "require_no_terminal_stop h now r caller st =
     (case terminal_stop_state st r of
        StopClear \<Rightarrow> (st, Inr ())
      | StopInForce s \<Rightarrow> (st, Inl (stopped_refusal r s caller))
      | StopUnreadable _ \<Rightarrow>
          with_run_lock h (run_id r) (\<lambda>st.
            case load_state st (run_id r) of
              Inl e \<Rightarrow> (st, Inl e)
            | Inr current \<Rightarrow>
                if run_generation current \<noteq> run_generation r then (st, Inr ())
                else require_no_terminal_stop_locked h now current caller st) st)"

section \<open>The fence\<close>

datatype stop_kind = StopPaused | StopCancelled | StopSuperseded | StopRefused

datatype fence_kind = FenceOwnership | FenceAdmission

definition owner_rule :: "workflow_run \<Rightarrow> 64 word \<Rightarrow> fence_kind \<Rightarrow> (stop_kind \<times> control_error) + unit" where
  "owner_rule r g kind =
     (case require_executor r g of
        Inl e \<Rightarrow> Inl (StopSuperseded, e)
      | Inr _ \<Rightarrow>
          if kind = FenceAdmission \<and> run_state r \<in> {RunPaused, RunCancelled}
          then (case require_pauser (PauseExecutor g) r of
                  Inl e \<Rightarrow> Inl (if run_state r = RunPaused then StopPaused else StopCancelled, e)
                | Inr _ \<Rightarrow> Inr ())
          else Inr ())"

text \<open>A read of the state may fail by a fault that has passed when the state is read again.\<close>

definition owner_state :: "run_handle \<Rightarrow> control_error option \<Rightarrow> string \<Rightarrow> run_store \<Rightarrow> control_error + workflow_run" where
  "owner_state h fault run st =
     (case fault of
        Some e \<Rightarrow> Inl e
      | None \<Rightarrow> (case lock_run h st run of Inl e \<Rightarrow> Inl e | Inr _ \<Rightarrow> load_state st run))"

definition pause_on_unreadable_state ::
    "run_handle \<Rightarrow> nat \<Rightarrow> string \<Rightarrow> 64 word \<Rightarrow> fence_kind \<Rightarrow> control_error \<Rightarrow> (control_error \<Rightarrow> string) \<Rightarrow> run_store
      \<Rightarrow> run_store \<times> (stop_kind \<times> control_error)" where
  "pause_on_unreadable_state h now run g kind e error_text st =
     (let resume = ''archon workflow resume --live --yes '' @ run;
          detail = JsonObject [(''cause'', JsonText ''state_unreadable''), (''error'', JsonText (error_text e)),
            (''event'', JsonText ''state_read_pause''), (''executor_generation'', json_generation g), (''resume'', JsonText resume)];
          paused = (\<lambda>recorded. (StopPaused, RunControlPaused (''the state of run '' @ run
            @ '' could not be read by executor generation '' @ show_generation g @ '' ('' @ error_text e
            @ ''); a stall pauses, never fails, so the fenced work stopped and '' @ recorded
            @ ''. When the state file reads again: '' @ resume)))
      in case pause_owned h now run (PauseExecutor g) detail st of
           (st', Inr _) \<Rightarrow> (st', paused ''the pause is recorded'')
         | (st', Inl refused) \<Rightarrow>
             (case refused of
                RunControlPaused _ \<Rightarrow>
                  (st', case owner_state h None run st' of
                          Inr r \<Rightarrow> (case owner_rule r g kind of Inl stop \<Rightarrow> stop | Inr _ \<Rightarrow> (StopSuperseded, refused))
                        | Inl _ \<Rightarrow> (StopSuperseded, refused))
              | RunControlCancelled _ \<Rightarrow>
                  (st', case owner_state h None run st' of
                          Inr r \<Rightarrow> (case owner_rule r g kind of Inl stop \<Rightarrow> stop | Inr _ \<Rightarrow> (StopSuperseded, refused))
                        | Inl _ \<Rightarrow> (StopSuperseded, refused))
              | _ \<Rightarrow> (st', paused (''the pause is not recorded ('' @ error_text refused @ '')''))))"

definition owner_check ::
    "run_handle \<Rightarrow> nat \<Rightarrow> control_error option \<Rightarrow> (control_error \<Rightarrow> string) \<Rightarrow> string \<Rightarrow> fence_kind \<Rightarrow> run_store
      \<Rightarrow> run_store \<times> ((stop_kind \<times> control_error) + unit)" where
  "owner_check h now fault error_text run kind st =
     (case h of
        None \<Rightarrow> (st, Inr ())
      | Some (_, g) \<Rightarrow>
          (case owner_state h fault run st of
             Inr r \<Rightarrow> (st, owner_rule r g kind)
           | Inl e \<Rightarrow>
               (case e of
                  RunIo _ \<Rightarrow>
                    if rs_files st run = NoRun
                    then (st, Inl (StopSuperseded, RunControlCancelled (''run '' @ run @ '' no longer exists; executor generation ''
                           @ show_generation g @ '' stops'')))
                    else map_prod id Inl (pause_on_unreadable_state h now run g kind e error_text st)
                | RunStateCorrupt _ \<Rightarrow> map_prod id Inl (pause_on_unreadable_state h now run g kind e error_text st)
                | _ \<Rightarrow> (st, Inl (StopRefused, e)))))"

definition require_admission where
  "require_admission h now fault error_text run st =
     map_prod id (map_sum snd id) (owner_check h now fault error_text run FenceAdmission st)"

section \<open>Polling run control\<close>

datatype run_control_decision = ControlContinue | DecisionPaused "64 word" | DecisionCancelled "64 word"

definition decision_from_run :: "workflow_run \<Rightarrow> run_control_decision" where
  "decision_from_run r =
     (case run_state r of
        RunPaused \<Rightarrow> DecisionPaused (run_generation r)
      | RunCancelled \<Rightarrow> DecisionCancelled (run_generation r)
      | _ \<Rightarrow> ControlContinue)"

definition reopen_running_stages :: "nat \<Rightarrow> workflow_run \<Rightarrow> workflow_run" where
  "reopen_running_stages now r = r\<lparr>run_stages := on_values pause_stage (run_stages r), run_updated := now\<rparr>"

definition or_insert :: "'a \<Rightarrow> 'a option \<Rightarrow> 'a option" where
  "or_insert x v = (case v of None \<Rightarrow> Some x | Some y \<Rightarrow> Some y)"

definition cancel_stage :: "nat \<Rightarrow> stage_state \<Rightarrow> stage_state" where
  "cancel_stage now s =
     (if st_status s \<in> {StageRunning, StagePending}
      then s\<lparr>st_status := StageCancelled, st_completed := or_insert now (st_completed s), st_error := or_insert ''cancelled'' (st_error s)\<rparr>
      else s)"

definition cancel_item :: "item_state \<Rightarrow> item_state" where
  "cancel_item i =
     (if it_status i \<in> {StageRunning, StagePending}
      then i\<lparr>it_status := StageCancelled, it_error := or_insert ''cancelled'' (it_error i)\<rparr> else i)"

definition cancel_running_stages :: "nat \<Rightarrow> workflow_run \<Rightarrow> workflow_run" where
  "cancel_running_stages now r =
     r\<lparr>run_stages := on_values (cancel_stage now) (run_stages r), run_items := on_values cancel_item (run_items r), run_updated := now\<rparr>"

definition checkpoint :: "nat \<Rightarrow> string \<Rightarrow> workflow_run \<Rightarrow> run_store \<Rightarrow> control_error + (run_control_decision \<times> workflow_run)" where
  "checkpoint now run local st =
     (case load_state st run of
        Inl e \<Rightarrow> Inl e
      | Inr current \<Rightarrow>
          let local = local\<lparr>run_executor := run_executor current\<rparr>
          in Inr (decision_from_run current,
               case decision_from_run current of
                 ControlContinue \<Rightarrow>
                   if run_generation local < run_generation current then local\<lparr>run_generation := run_generation current\<rparr> else local
               | DecisionPaused g \<Rightarrow> reopen_running_stages now (local\<lparr>run_state := RunPaused, run_generation := g\<rparr>)
               | DecisionCancelled g \<Rightarrow> cancel_running_stages now (local\<lparr>run_state := RunCancelled, run_generation := g\<rparr>)))"

text \<open>The poll reads, compares and writes at three instants; the last part is separate.\<close>

definition poll_finish ::
    "run_handle \<Rightarrow> string \<Rightarrow> run_control_decision \<times> workflow_run \<Rightarrow> run_store \<Rightarrow> run_store \<times> (control_error + unit)" where
  "poll_finish h call = (\<lambda>(decision, local) st.
     let report = (\<lambda>g. ''generation '' @ show_generation g @ '' observed before/after V2 call '' @ [CHR 0x27] @ call @ [CHR 0x27])
     in case decision of
          ControlContinue \<Rightarrow> (st, Inr ())
        | DecisionPaused g \<Rightarrow>
            (case save_state_preserving_control h local st of
               (st', Inl e) \<Rightarrow> (st', Inl e) | (st', Inr _) \<Rightarrow> (st', Inl (RunControlPaused (report g))))
        | DecisionCancelled g \<Rightarrow>
            (case save_state_preserving_control h local st of
               (st', Inl e) \<Rightarrow> (st', Inl e) | (st', Inr _) \<Rightarrow> (st', Inl (RunControlCancelled (report g)))))"

definition poll_v2_run_control :: "run_handle \<Rightarrow> nat \<Rightarrow> string \<Rightarrow> string \<Rightarrow> run_store \<Rightarrow> run_store \<times> (control_error + unit)" where
  "poll_v2_run_control h now run call st =
     (case load_state st run of
        Inl e \<Rightarrow> (st, Inl e)
      | Inr local \<Rightarrow>
          (case checkpoint now run local st of Inl e \<Rightarrow> (st, Inl e) | Inr observed \<Rightarrow> poll_finish h call observed st))"

end
