(* ===== verification/Run_Lifecycle.thy ===== *)
theory Run_Lifecycle imports Run_Control begin

text \<open>
  The operator's actions on a run: \<^verbatim>\<open>crates/archon-workflow/src/lifecycle_a.rs\<close>, with the targets of a
  restart (\<^verbatim>\<open>v2/restart.rs\<close>). What an action does beside the state of the run is an argument: ending
  the running commands, moving evidence aside, invalidating cached results, recording who forced a
  stage, and whether the event can be written. A whole action is one step under the run lock.
\<close>

section \<open>Actions\<close>

datatype lifecycle_action =
    Resume
  | Pause
  | Cancel
  | RestartStage string
  | RestartItem string string
  | ForceAcceptStage string string string string

record lifecycle_world =
  lw_now :: nat
  lw_cancel :: "control_error + json"
  lw_invalidate :: "workflow_run \<Rightarrow> control_error + string list"
  lw_archive :: "control_error + json"
  lw_forced :: "control_error option"
  lw_event :: "control_error option"

section \<open>Rewinding\<close>

text \<open>One pass over the stages adds those that depend on a stage that is in.\<close>

definition dependents_pass :: "stage_spec list \<Rightarrow> string list \<Rightarrow> string list" where
  "dependents_pass stages ids =
     foldl (\<lambda>ids s. if sp_id s \<in> set ids then ids else if list_ex (\<lambda>d. d \<in> set ids) (sp_depends s) then ids @ [sp_id s] else ids)
       ids stages"

lemma dependents_pass_grows:
  "set ids \<subseteq> set (dependents_pass stages ids) \<and> set (dependents_pass stages ids) \<subseteq> set ids \<union> sp_id ` set stages
    \<and> length ids \<le> length (dependents_pass stages ids)"
proof (induction stages arbitrary: ids)
  case Nil
  then show ?case
    by (simp add: dependents_pass_def)
next
  case (Cons s stages)
  define ids' where "ids' = (if sp_id s \<in> set ids then ids
    else if list_ex (\<lambda>d. d \<in> set ids) (sp_depends s) then ids @ [sp_id s] else ids)"
  have "dependents_pass (s # stages) ids = dependents_pass stages ids'"
    by (simp add: dependents_pass_def ids'_def)
  moreover have "set ids \<subseteq> set ids' \<and> set ids' \<subseteq> insert (sp_id s) (set ids) \<and> length ids \<le> length ids'"
    by (auto simp: ids'_def)
  ultimately show ?case
    using Cons [of ids'] by auto
qed

lemma dependents_pass_distinct: "distinct ids \<Longrightarrow> distinct (dependents_pass stages ids)"
  unfolding dependents_pass_def by (induction stages arbitrary: ids) auto

lemma dependents_pass_new:
  "dependents_pass stages ids = ids \<or> (\<exists>i \<in> sp_id ` set stages. i \<notin> set ids \<and> i \<in> set (dependents_pass stages ids))"
proof (induction stages arbitrary: ids)
  case Nil
  then show ?case
    by (simp add: dependents_pass_def)
next
  case (Cons s stages)
  define ids' where "ids' = (if sp_id s \<in> set ids then ids
    else if list_ex (\<lambda>d. d \<in> set ids) (sp_depends s) then ids @ [sp_id s] else ids)"
  have step: "dependents_pass (s # stages) ids = dependents_pass stages ids'"
    by (simp add: dependents_pass_def ids'_def)
  show ?case
  proof (cases "ids' = ids")
    case True
    with Cons [of ids] step show ?thesis
      by auto
  next
    case False
    then have "sp_id s \<notin> set ids" "sp_id s \<in> set ids'"
      by (auto simp: ids'_def split: if_splits)
    with step dependents_pass_grows [of ids' stages] show ?thesis
      by auto
  qed
qed

function dependents_from :: "stage_spec list \<Rightarrow> string list \<Rightarrow> string list" where
  "dependents_from stages ids =
     (let more_ids = dependents_pass stages ids
      in if length more_ids = length ids then more_ids else dependents_from stages more_ids)"
  by pat_completeness auto

termination
proof (relation "measure (\<lambda>(stages, ids). card (sp_id ` set stages - set ids))")
  fix stages ids more_ids
  assume more_ids: "more_ids = dependents_pass stages ids" "length more_ids \<noteq> length ids"
  then obtain i where "i \<in> sp_id ` set stages" "i \<notin> set ids" "i \<in> set more_ids"
    using dependents_pass_new [of stages ids] by auto
  moreover have "set ids \<subseteq> set more_ids"
    using dependents_pass_grows more_ids(1) by blast
  ultimately have "card (sp_id ` set stages - set more_ids) < card (sp_id ` set stages - set ids)"
    by (intro psubset_card_mono) auto
  then show "((stages, more_ids), stages, ids) \<in> measure (\<lambda>(stages, ids). card (sp_id ` set stages - set ids))"
    by simp
qed simp

declare dependents_from.simps [simp del]

definition dependent_stage_ids :: "workflow_run \<Rightarrow> string \<Rightarrow> string list" where
  "dependent_stage_ids r stage = dependents_from (ws_stages (run_spec r)) [stage]"

definition reopen_stage :: "bool \<Rightarrow> stage_state \<Rightarrow> stage_state" where
  "reopen_stage clear s =
     s\<lparr>st_status := StagePending, st_error := None, st_started := None, st_completed := None, st_quality := None,
       st_artifacts := (if clear then [] else st_artifacts s)\<rparr>"

definition rewind_stage :: "string \<Rightarrow> workflow_run \<Rightarrow> control_error + workflow_run" where
  "rewind_stage stage r =
     (if map_of (run_stages r) stage = None then Inl (RunSpecInvalid (''unknown stage '' @ stage))
      else let ids = dependent_stage_ids r stage
           in Inr (r\<lparr>run_stages := on_keys (set ids) (\<lambda>_. reopen_stage True) (run_stages r),
                     run_items := filter (\<lambda>(_, i). it_stage i \<notin> set ids) (run_items r), run_state := RunRunning\<rparr>))"

definition rewind_item :: "string \<Rightarrow> string \<Rightarrow> workflow_run \<Rightarrow> control_error + workflow_run" where
  "rewind_item stage item r =
     (if map_of (run_stages r) stage = None then Inl (RunSpecInvalid (''unknown stage '' @ stage))
      else case map_of (run_items r) item of
             None \<Rightarrow> Inl (RunSpecInvalid (''unknown item '' @ item))
           | Some i \<Rightarrow>
               if it_stage i \<noteq> stage
               then Inl (RunSpecInvalid (''item '' @ item @ '' does not belong to stage '' @ stage))
               else let ids = dependent_stage_ids r stage
                    in Inr (r\<lparr>run_stages := on_keys (set ids) (\<lambda>k. reopen_stage (k \<noteq> stage)) (run_stages r),
                              run_items := filter (\<lambda>(_, i). it_stage i = stage \<or> it_stage i \<notin> set ids)
                                (AList.delete item (run_items r)),
                              run_state := RunRunning\<rparr>))"

section \<open>The other actions\<close>

definition resume_stage :: "stage_state \<Rightarrow> stage_state" where
  "resume_stage s =
     (if st_status s \<in> {StagePaused, StageCancelled} then s\<lparr>st_status := StagePending, st_error := None, st_completed := None\<rparr> else s)"

definition resume_item :: "item_state \<Rightarrow> item_state" where
  "resume_item i = (if it_status i \<in> {StagePaused, StageCancelled} then i\<lparr>it_status := StagePending, it_error := None\<rparr> else i)"

definition force_accept_stage :: "nat \<Rightarrow> string \<Rightarrow> workflow_run \<Rightarrow> control_error + workflow_run" where
  "force_accept_stage now stage r =
     (case map_of (run_stages r) stage of
        None \<Rightarrow> Inl (RunSpecInvalid (''unknown stage '' @ stage))
      | Some s \<Rightarrow>
          let stages = AList.update stage (s\<lparr>st_status := StageForcedAccepted, st_error := None, st_completed := Some now\<rparr>) (run_stages r)
          in Inr (r\<lparr>run_stages := stages,
                    run_state := (if list_all (\<lambda>(_, s). stage_terminal s) stages then RunCompleted else RunRunning)\<rparr>))"

definition mark_queued_work_cancelled :: "nat \<Rightarrow> workflow_run \<Rightarrow> workflow_run" where
  "mark_queued_work_cancelled now r =
     r\<lparr>run_stages := on_values (cancel_stage now) (run_stages r), run_items := on_values cancel_item (run_items r)\<rparr>"

definition lifecycle_detail :: "(string \<times> string) list \<Rightarrow> json" where
  "lifecycle_detail fs = JsonObject (map (\<lambda>(k, v). (k, JsonText v)) fs)"

definition apply_action ::
    "nat \<Rightarrow> lifecycle_action \<Rightarrow> workflow_run \<Rightarrow> control_error + (workflow_run \<times> run_event_kind \<times> json)" where
  "apply_action now action r =
     (case action of
        Resume \<Rightarrow>
          Inr (r\<lparr>run_state := RunRunning, run_stages := on_values resume_stage (run_stages r),
                 run_items := on_values resume_item (run_items r)\<rparr>, EventResumed, lifecycle_detail [(''action'', ''resume'')])
      | Pause \<Rightarrow>
          Inr (r\<lparr>run_state := RunPaused\<rparr>, EventPaused,
            lifecycle_detail [(''action'', ''pause''), (''call_id'', ''operator-pause''), (''cause_kind'', ''operator_pause''),
              (''cause_reason'', ''operator requested the run pause'')])
      | Cancel \<Rightarrow>
          Inr (mark_queued_work_cancelled now (r\<lparr>run_state := RunCancelled\<rparr>), EventCancelled, lifecycle_detail [(''action'', ''cancel'')])
      | RestartStage stage \<Rightarrow>
          map_sum id (\<lambda>r. (r, EventResumed, lifecycle_detail [(''action'', ''restart_stage''), (''stage'', stage)])) (rewind_stage stage r)
      | RestartItem stage item \<Rightarrow>
          map_sum id (\<lambda>r. (r, EventResumed,
              lifecycle_detail [(''action'', ''restart_item''), (''item'', item), (''stage'', stage)])) (rewind_item stage item r)
      | ForceAcceptStage stage forced_by rationale source \<Rightarrow>
          map_sum id (\<lambda>r. (r, EventForcedAccepted,
              lifecycle_detail [(''action'', ''force_accept_stage''), (''forced_by'', forced_by), (''rationale'', rationale),
                (''source'', source), (''stage'', stage)])) (force_accept_stage now stage r))"

section \<open>Committing an action\<close>

primrec is_restart :: "lifecycle_action \<Rightarrow> bool" where
  "is_restart Resume = False"
| "is_restart Pause = False"
| "is_restart Cancel = False"
| "is_restart (RestartStage _) = True"
| "is_restart (RestartItem _ _) = True"
| "is_restart (ForceAcceptStage _ _ _ _) = False"

definition is_force_accept :: "lifecycle_action \<Rightarrow> bool" where
  "is_force_accept a \<longleftrightarrow> (case a of ForceAcceptStage _ _ _ _ \<Rightarrow> True | _ \<Rightarrow> False)"

definition replaces_executor :: "lifecycle_action \<Rightarrow> workflow_run \<Rightarrow> bool" where
  "replaces_executor a prior \<longleftrightarrow> a = Resume \<or> (run_state prior \<noteq> RunRunning \<and> (is_restart a \<or> is_force_accept a))"

definition reset_invalidated_stages :: "string list \<Rightarrow> workflow_run \<Rightarrow> workflow_run" where
  "reset_invalidated_stages invalidated r = r\<lparr>run_stages := on_keys (set invalidated) (\<lambda>k _. pending_stage k) (run_stages r)\<rparr>"

definition next_control :: "bool \<Rightarrow> workflow_run \<Rightarrow> workflow_run" where
  "next_control replaces r =
     r\<lparr>run_generation := next_generation (run_generation r),
       run_executor := (if replaces then Some (next_generation (run_generation r)) else run_executor r)\<rparr>"

text \<open>The new state and its event, before anything is written.\<close>

definition plan_action ::
    "lifecycle_world \<Rightarrow> bool \<Rightarrow> lifecycle_action \<Rightarrow> workflow_run \<Rightarrow> control_error + (workflow_run \<times> run_event_kind \<times> json \<times> string list)" where
  "plan_action w invalidate a prior =
     (case (if a = Cancel then map_sum id Some (lw_cancel w) else Inr None) of
        Inl e \<Rightarrow> Inl e
      | Inr cancellation \<Rightarrow>
          (case apply_action (lw_now w) a (prior\<lparr>run_executor := Some (owner_generation prior)\<rparr>) of
             Inl e \<Rightarrow> Inl e
           | Inr (r, kind, detail) \<Rightarrow>
               let r = next_control (replaces_executor a prior) r;
                   detail = json_put ''generation'' (json_generation (run_generation r)) detail
               in (case (if invalidate \<and> is_restart a then lw_invalidate w r else Inr []) of
                     Inl e \<Rightarrow> Inl e
                   | Inr invalidated \<Rightarrow>
                       let r = reset_invalidated_stages invalidated r;
                           detail = (if invalidated = [] then detail
                             else json_put ''v2_cache_invalidated'' (JsonArray (map JsonText invalidated)) detail)
                       in (case (if is_restart a then map_sum id Some (lw_archive w) else Inr None) of
                             Inl e \<Rightarrow> Inl e
                           | Inr archived \<Rightarrow>
                               let detail = (case archived of None \<Rightarrow> detail | Some j \<Rightarrow> json_put ''archived_attempt_evidence'' j detail);
                                   detail = (case cancellation of None \<Rightarrow> detail | Some j \<Rightarrow> json_put ''command_cancellation'' j detail)
                               in Inr (r\<lparr>run_updated := lw_now w\<rparr>, kind, detail, invalidated)))))"

definition lifecycle_apply_with ::
    "run_handle \<Rightarrow> lifecycle_world \<Rightarrow> bool \<Rightarrow> string \<Rightarrow> lifecycle_action \<Rightarrow> run_store
      \<Rightarrow> run_store \<times> (control_error + (workflow_run \<times> string list))" where
  "lifecycle_apply_with h w invalidate run a =
     with_run_lock h run (\<lambda>st.
       case load_state st run of
         Inl e \<Rightarrow> (st, Inl e)
       | Inr prior \<Rightarrow>
           (case plan_action w invalidate a prior of
              Inl e \<Rightarrow> (st, Inl e)
            | Inr (r, kind, detail, invalidated) \<Rightarrow>
                (case save_state h r st of
                   (st', Inl e) \<Rightarrow> (st', Inl e)
                 | (st', Inr _) \<Rightarrow>
                     (case (if is_force_accept a then lw_forced w else None) of
                        Some e \<Rightarrow> (st', Inl e)
                      | None \<Rightarrow>
                          (case lw_event w of
                             None \<Rightarrow> (append_event run kind detail st', Inr (r, invalidated))
                           | Some e \<Rightarrow>
                               if a = Resume
                               then (case restore_state_after_failed_transition h prior (run_generation r) st' of
                                       (st'', Inl _) \<Rightarrow> (st'', Inl (RunStateCorrupt ''restoring prior state also failed''))
                                     | (st'', Inr _) \<Rightarrow> (st'', Inl e))
                               else (st', Inl e))))))"

definition lifecycle_apply where
  "lifecycle_apply h w run a st = map_prod id (map_sum id fst) (lifecycle_apply_with h w False run a st)"

definition lifecycle_apply_restart where
  "lifecycle_apply_restart h w run a st = lifecycle_apply_with h w True run a st"

section \<open>Other edits that keep the executor\<close>

text \<open>The restart of a task resets the stages of its calls and moves the generation on.\<close>

definition reset_generated_v2_task_state ::
    "run_handle \<Rightarrow> nat \<Rightarrow> string \<Rightarrow> string list \<Rightarrow> run_store \<Rightarrow> run_store \<times> (control_error + unit)" where
  "reset_generated_v2_task_state h now run invalidated =
     with_run_lock h run (\<lambda>st.
       case load_state st run of
         Inl e \<Rightarrow> (st, Inl e)
       | Inr r \<Rightarrow>
           save_state h ((reset_invalidated_stages invalidated r)\<lparr>run_state := RunRunning,
             run_generation := next_generation (run_generation r), run_updated := now\<rparr>) st)"

definition commit_generated_v2_invalidation ::
    "run_handle \<Rightarrow> nat \<Rightarrow> string \<Rightarrow> string list \<Rightarrow> run_store \<Rightarrow> run_store \<times> (control_error + string list)" where
  "commit_generated_v2_invalidation h now run invalidated =
     with_run_lock h run (\<lambda>st.
       if invalidated = [] then (st, Inr [])
       else case load_state st run of
              Inl e \<Rightarrow> (st, Inl e)
            | Inr r \<Rightarrow>
                map_prod id (map_sum id (\<lambda>_. invalidated))
                  (save_state h ((reset_invalidated_stages invalidated r)\<lparr>run_generation := next_generation (run_generation r),
                     run_updated := now\<rparr>) st))"

end
