(* ===== verification/Run_Executor.thy ===== *)
theory Run_Executor imports Run_Lifecycle begin

text \<open>
  What the executor of a run writes into its state: \<^verbatim>\<open>crates/archon-workflow/src/v2/run_state_sync.rs\<close>
  and the sections under the run lock in which \<^verbatim>\<open>src/command/workflow_live_v2_finalizer.rs\<close> ends a run.
  The saved records of the calls are an argument. Of a finalization only the writes of the run state
  are modelled; its own record, its events and the audit in between are not.
\<close>

datatype v2_status =
    V2Pending | V2Running | V2Accepted | V2Noop | V2Failed | V2Blocked | V2NeedsReview | V2Cancelled

primrec stage_status_from_v2 :: "v2_status \<Rightarrow> stage_status" where
  "stage_status_from_v2 V2Accepted = StageAccepted"
| "stage_status_from_v2 V2Noop = StageAccepted"
| "stage_status_from_v2 V2Blocked = StageBlocked"
| "stage_status_from_v2 V2NeedsReview = StageNeedsReview"
| "stage_status_from_v2 V2Failed = StageFailure"
| "stage_status_from_v2 V2Cancelled = StageCancelled"
| "stage_status_from_v2 V2Pending = StagePending"
| "stage_status_from_v2 V2Running = StageRunning"

primrec run_status_from_v2 :: "v2_status \<Rightarrow> run_status" where
  "run_status_from_v2 V2Accepted = RunCompleted"
| "run_status_from_v2 V2Noop = RunCompleted"
| "run_status_from_v2 V2Blocked = RunBlocked"
| "run_status_from_v2 V2NeedsReview = RunNeedsReview"
| "run_status_from_v2 V2Failed = RunFailed"
| "run_status_from_v2 V2Cancelled = RunCancelled"
| "run_status_from_v2 V2Pending = RunRunning"
| "run_status_from_v2 V2Running = RunRunning"

definition stage_or_pending :: "workflow_run \<Rightarrow> string \<Rightarrow> stage_state" where
  "stage_or_pending r call = (case map_of (run_stages r) call of Some s \<Rightarrow> s | None \<Rightarrow> pending_stage call)"

definition put_stage :: "string \<Rightarrow> stage_state \<Rightarrow> workflow_run \<Rightarrow> workflow_run" where
  "put_stage call s r = r\<lparr>run_stages := AList.update call s (run_stages r)\<rparr>"

definition sync_call_stage :: "nat \<Rightarrow> string \<Rightarrow> v2_status \<Rightarrow> workflow_run \<Rightarrow> workflow_run" where
  "sync_call_stage now call status r =
     (let s = (stage_or_pending r call)\<lparr>st_status := stage_status_from_v2 status\<rparr>
      in put_stage call (if stage_terminal s then s\<lparr>st_completed := or_insert now (st_completed s)\<rparr> else s) r)"

section \<open>While the run goes on\<close>

definition mark_v2_call_running :: "run_handle \<Rightarrow> nat \<Rightarrow> string \<Rightarrow> string \<Rightarrow> run_store \<Rightarrow> run_store \<times> (control_error + unit)" where
  "mark_v2_call_running h now run call st =
     (case load_state st run of
        Inl e \<Rightarrow> (st, Inl e)
      | Inr r \<Rightarrow>
          if run_state r \<in> {RunPaused, RunCancelled} then (st, Inr ())
          else let s = stage_or_pending r call;
                   s = s\<lparr>st_status := StageRunning, st_error := None, st_started := or_insert now (st_started s), st_completed := None\<rparr>
               in save_state_preserving_control h (put_stage call s (r\<lparr>run_state := RunRunning, run_updated := now\<rparr>)) st)"

definition reconcile_running_v2_call_stage ::
    "run_handle \<Rightarrow> nat \<Rightarrow> string \<Rightarrow> string \<Rightarrow> v2_status \<Rightarrow> run_store \<Rightarrow> run_store \<times> (control_error + unit)" where
  "reconcile_running_v2_call_stage h now run call status st =
     (case load_state st run of
        Inl e \<Rightarrow> (st, Inl e)
      | Inr r \<Rightarrow>
          if map_option st_status (map_of (run_stages r) call) = Some StageRunning
          then save_state_preserving_control h ((sync_call_stage now call status r)\<lparr>run_updated := now\<rparr>) st
          else (st, Inr ()))"

definition settle_interrupted_stage :: "run_handle \<Rightarrow> nat \<Rightarrow> string \<Rightarrow> string \<Rightarrow> run_store \<Rightarrow> run_store \<times> (control_error + unit)" where
  "settle_interrupted_stage h now run call st =
     (case load_state st run of
        Inl e \<Rightarrow> (st, Inl e)
      | Inr r \<Rightarrow>
          (case map_of (run_stages r) call of
             Some s \<Rightarrow>
               if st_status s = StageRunning
               then save_state_preserving_control h
                      (put_stage call (s\<lparr>st_status := StageNeedsReview, st_completed := or_insert now (st_completed s)\<rparr>)
                         (r\<lparr>run_updated := now\<rparr>)) st
               else (st, Inr ())
           | None \<Rightarrow> (st, Inr ())))"

section \<open>At its end\<close>

definition persist_terminal_run_status ::
    "run_handle \<Rightarrow> nat \<Rightarrow> string \<Rightarrow> (string \<times> v2_status) list \<Rightarrow> run_status \<Rightarrow> run_store \<Rightarrow> run_store \<times> (control_error + unit)" where
  "persist_terminal_run_status h now run records status st =
     (case load_state st run of
        Inl e \<Rightarrow> (st, Inl e)
      | Inr before \<Rightarrow>
          let r = (foldl (\<lambda>r (call, s). sync_call_stage now call s r) before records)\<lparr>run_state := status\<rparr>
          in if r = before then (st, Inr ()) else save_state_preserving_control h (r\<lparr>run_updated := now\<rparr>) st)"

definition is_dynamic_template_stage :: "stage_spec \<Rightarrow> bool" where
  "is_dynamic_template_stage s \<longleftrightarrow> map_of (sp_extra s) ''dynamic_template'' = Some (JsonBool True)"

definition dynamic_stage_prefix :: "stage_spec \<Rightarrow> string option" where
  "dynamic_stage_prefix s = (case map_of (sp_extra s) ''dynamic_id_prefix'' of Some (JsonText p) \<Rightarrow> Some p | _ \<Rightarrow> None)"

definition skip_template :: "nat \<Rightarrow> string list \<Rightarrow> bool \<Rightarrow> stage_spec \<Rightarrow> workflow_run \<Rightarrow> workflow_run" where
  "skip_template now calls clean_end sp r =
     (let matched = (case dynamic_stage_prefix sp of None \<Rightarrow> False | Some p \<Rightarrow> list_ex (\<lambda>c. starts_with c p) calls);
          s = stage_or_pending r (sp_id sp)
      in if \<not> is_dynamic_template_stage sp \<or> sp_id sp \<in> set calls \<or> (\<not> clean_end \<and> \<not> matched) then r
         else if st_status s \<in> {StagePending, StageRunning}
         then put_stage (sp_id sp) (s\<lparr>st_status := StageSkipped, st_completed := Some now,
                st_error := Some ''dynamic host-call template; runtime-discovered call instances carry the concrete result''\<rparr>) r
         else put_stage (sp_id sp) s r)"

definition sync_v2_summary_to_run ::
    "run_handle \<Rightarrow> nat \<Rightarrow> string \<Rightarrow> string list \<Rightarrow> (string \<times> v2_status) list \<Rightarrow> v2_status \<Rightarrow> run_store
      \<Rightarrow> run_store \<times> (control_error + unit)" where
  "sync_v2_summary_to_run h now run calls records status st =
     (case load_state st run of
        Inl e \<Rightarrow> (st, Inl e)
      | Inr before \<Rightarrow>
          let r = foldl (\<lambda>r call. sync_call_stage now call (case map_of records call of Some s \<Rightarrow> s | None \<Rightarrow> V2Pending) r) before calls;
              r = foldl (\<lambda>r sp. skip_template now calls (status \<in> {V2Accepted, V2Noop}) sp r) r (ws_stages (run_spec r));
              r = r\<lparr>run_state := run_status_from_v2 status\<rparr>
          in if r = before then (st, Inr ()) else save_state h (r\<lparr>run_updated := now\<rparr>) st)"

definition require_generation_owner :: "run_store \<Rightarrow> string \<Rightarrow> 64 word option \<Rightarrow> control_error + unit" where
  "require_generation_owner st run expected =
     (case expected of
        None \<Rightarrow> Inr ()
      | Some g \<Rightarrow>
          (case load_state st run of
             Inl e \<Rightarrow> Inl e
           | Inr r \<Rightarrow>
               if execution_owned_at r g then Inr ()
               else Inl (RunControlCancelled (''executor generation '' @ show_generation g @ '' no longer owns run '' @ run
                      @ ''; current generation is '' @ show_generation (run_generation r)))))"

definition executor_status :: "run_store \<Rightarrow> string \<Rightarrow> 64 word option \<Rightarrow> run_status \<Rightarrow> control_error + run_status option" where
  "executor_status st run expected status =
     (case expected of
        None \<Rightarrow> Inr (Some status)
      | Some _ \<Rightarrow>
          (case load_state st run of
             Inl e \<Rightarrow> Inl e
           | Inr r \<Rightarrow>
               let stopped = run_state r \<in> {RunPaused, RunCancelled}
               in Inr (if status \<in> {RunPaused, RunCancelled} \<and> stopped then Some (run_state r)
                       else if stopped then None else Some status)))"

definition operator_control_unchanged :: "run_store \<Rightarrow> string \<Rightarrow> 64 word option \<Rightarrow> run_status \<Rightarrow> control_error + bool" where
  "operator_control_unchanged st run expected status =
     map_sum id (\<lambda>allowed. allowed = Some status) (executor_status st run expected status)"

definition finalize_run_status_section ::
    "run_handle \<Rightarrow> nat \<Rightarrow> string \<Rightarrow> 64 word option \<Rightarrow> (string \<times> v2_status) list \<Rightarrow> run_status \<Rightarrow> run_store
      \<Rightarrow> run_store \<times> (control_error + unit)" where
  "finalize_run_status_section h now run expected records status =
     with_run_lock h run (\<lambda>st.
       case require_generation_owner st run expected of
         Inl e \<Rightarrow> (st, Inl e)
       | Inr _ \<Rightarrow>
           (case operator_control_unchanged st run expected status of
              Inl e \<Rightarrow> (st, Inl e)
            | Inr unchanged \<Rightarrow> if unchanged then persist_terminal_run_status h now run records status st else (st, Inr ())))"

definition finalize_summary_section ::
    "run_handle \<Rightarrow> nat \<Rightarrow> string \<Rightarrow> 64 word option \<Rightarrow> string list \<Rightarrow> (string \<times> v2_status) list \<Rightarrow> v2_status \<Rightarrow> run_store
      \<Rightarrow> run_store \<times> (control_error + unit)" where
  "finalize_summary_section h now run expected calls records status =
     with_run_lock h run (\<lambda>st.
       case require_generation_owner st run expected of
         Inl e \<Rightarrow> (st, Inl e)
       | Inr _ \<Rightarrow>
           (case poll_v2_run_control h now run ''finalization'' st of
              (st', Inl e) \<Rightarrow> (st', Inl e)
            | (st', Inr _) \<Rightarrow> sync_v2_summary_to_run h now run calls records status st'))"

end
