(* ===== verification/Run_Laws.thy ===== *)
theory Run_Laws imports Run_Executor begin

text \<open>
  What run control promises over every interleaving of an operator and any number of executors of one
  run: a stop the operator makes holds until the operator lifts it, and an executor that lost the run
  never writes again. The sections of the code are shown to have one of three effects on the state of the
  run; the interface \<open>run_law\<close> (in Run_Safety) lifts what the effects keep to every reachable state.
\<close>

section \<open>Effects\<close>

datatype run_actor = Operator | Executor "64 word"

definition stopped :: "workflow_run \<Rightarrow> bool" where
  "stopped r \<longleftrightarrow> run_state r \<in> {RunPaused, RunCancelled}"

inductive run_effect :: "run_actor \<Rightarrow> workflow_run \<Rightarrow> workflow_run \<Rightarrow> bool" where
  wrote: "\<lbrakk>execution_owned_at r g; run_id r' = run_id r; run_generation r' = run_generation r; run_executor r' = run_executor r;
      stopped r \<Longrightarrow> run_state r' = run_state r\<rbrakk> \<Longrightarrow> run_effect (Executor g) r r'"
| paused: "\<lbrakk>execution_owned_at r g; \<not> stopped r\<rbrakk> \<Longrightarrow> run_effect (Executor g) r (apply_pause now r)"
| edited: "\<lbrakk>run_id r' = run_id r; run_generation r' = next_generation (run_generation r);
      run_executor r' \<in> {run_executor r, Some (owner_generation r), Some (next_generation (run_generation r))}\<rbrakk>
      \<Longrightarrow> run_effect Operator r r'"

inductive_cases executor_effectE [elim]: "run_effect (Executor g) r r'"
inductive_cases operator_effectE [elim]: "run_effect Operator r r'"

text \<open>An operation has the effects of its actor on the state of the run, or none.\<close>

definition acts :: "string \<Rightarrow> run_actor \<Rightarrow> run_store \<Rightarrow> run_store \<Rightarrow> bool" where
  "acts run a st st' \<longleftrightarrow> (\<forall>r. load_state st run = Inr r \<longrightarrow>
     (\<exists>r'. load_state st' run = Inr r' \<and> (r' = r \<or> run_effect a r r')))"

lemma load_id: "load_state st run = Inr r \<Longrightarrow> run_id r = run"
  by (auto simp: load_state_def split: run_file.splits if_splits)

lemma load_put [simp]: "run_id r = run \<Longrightarrow> load_state (put_state r st) run = Inr r"
  by (simp add: load_state_def put_state_def)

lemma load_beside [simp]:
  "load_state (append_event i k d st) run = load_state st run"
  "load_state (fst (set_aside_unreadable r e st)) run = load_state st run"
  "load_state (record_terminal_stop r s st) run = load_state st run"
  by (simp_all add: load_state_def append_event_def set_aside_unreadable_def record_terminal_stop_def)

lemma acts_same [simp]: "acts run a st st"
  by (simp add: acts_def)

lemma acts_load: "load_state st' run = load_state st run \<Longrightarrow> acts run a st st'"
  by (simp add: acts_def)

lemma acts_put:
  "load_state st run = Inr r \<Longrightarrow> run_effect a r r' \<Longrightarrow> run_id r' = run_id r \<Longrightarrow> load_state st' run = load_state st run
   \<Longrightarrow> acts run a st (put_state r' st')"
  by (auto simp: acts_def load_id)

lemma acts_then_same: "acts run a st st' \<Longrightarrow> load_state st'' run = load_state st' run \<Longrightarrow> acts run a st st''"
  by (simp add: acts_def)

lemma unlocked [simp]:
  "with_run_lock None run work st = work st"
  "with_writer None run work st = work st"
  by (simp_all add: with_run_lock_def with_writer_def lock_run_def require_writer_def)

lemma locked:
  assumes "load_state st run = Inr r"
  shows "with_run_lock (Some (run, g)) run work st =
    (if execution_owned_at r g then work st
     else (st, Inl (case require_executor r g of Inl e \<Rightarrow> e | Inr _ \<Rightarrow> undefined)))"
proof -
  have "rs_files st run \<noteq> NoRun"
    using assms by (auto simp: load_state_def)
  then show ?thesis
    using assms by (simp add: with_run_lock_def lock_run_def require_writer_def require_executor_def)
qed

text \<open>A section under the lock of a bound handle needs to be looked at only for an owner.\<close>

lemma locked_acts:
  assumes "\<And>r. load_state st run = Inr r \<Longrightarrow> execution_owned_at r g \<Longrightarrow> acts run (Executor g) st (fst (work st))"
  shows "acts run (Executor g) st (fst (with_run_lock (Some (run, g)) run work st))"
proof (cases "load_state st run")
  case (Inr r)
  with assms show ?thesis
    by (simp add: locked [OF Inr])
qed (simp add: acts_def)

section \<open>Saving\<close>

lemma newer_none [simp]: "load_state st (run_id r') = Inr r \<Longrightarrow> run_generation r' = run_generation r \<Longrightarrow> newer_state st r' = None"
  "load_state st (run_id r') = Inr r \<Longrightarrow> run_generation r' = next_generation (run_generation r) \<Longrightarrow> newer_state st r' = None"
  using next_generation_le [of "run_generation r"] by (simp_all add: newer_state_def leD)

lemma owner_saves:
  assumes "load_state st run = Inr r" "execution_owned_at r g" "run_id r' = run" "newer_state st r' = None"
  shows "save_state (Some (run, g)) r' st = (put_state r' st, Inr ())"
    "save_state_preserving_control (Some (run, g)) r' st = (put_state r' st, Inr ())"
  using assms by (simp_all add: save_state_def save_state_preserving_control_def with_writer_def locked [OF assms(1)])

lemma operator_saves:
  "newer_state st r' = None \<Longrightarrow> save_state None r' st = (put_state r' st, Inr ())"
  by (simp add: save_state_def)

lemma keeps_fields [simp]:
  "run_id (put_stage c s r) = run_id r" "run_generation (put_stage c s r) = run_generation r"
  "run_executor (put_stage c s r) = run_executor r" "run_state (put_stage c s r) = run_state r"
  "run_id (sync_call_stage now c v r) = run_id r" "run_generation (sync_call_stage now c v r) = run_generation r"
  "run_executor (sync_call_stage now c v r) = run_executor r" "run_state (sync_call_stage now c v r) = run_state r"
  "run_id (skip_template now cs e sp r) = run_id r" "run_generation (skip_template now cs e sp r) = run_generation r"
  "run_executor (skip_template now cs e sp r) = run_executor r"
  by (simp_all add: put_stage_def sync_call_stage_def skip_template_def Let_def)

lemma folds_keep [simp]:
  "run_id (foldl (\<lambda>r (c, v). sync_call_stage now c v r) r records) = run_id r"
  "run_generation (foldl (\<lambda>r (c, v). sync_call_stage now c v r) r records) = run_generation r"
  "run_executor (foldl (\<lambda>r (c, v). sync_call_stage now c v r) r records) = run_executor r"
  "run_id (foldl (\<lambda>r c. sync_call_stage now c (f c) r) r calls) = run_id r"
  "run_generation (foldl (\<lambda>r c. sync_call_stage now c (f c) r) r calls) = run_generation r"
  "run_executor (foldl (\<lambda>r c. sync_call_stage now c (f c) r) r calls) = run_executor r"
  "run_id (foldl (\<lambda>r sp. skip_template now cs e sp r) r sps) = run_id r"
  "run_generation (foldl (\<lambda>r sp. skip_template now cs e sp r) r sps) = run_generation r"
  "run_executor (foldl (\<lambda>r sp. skip_template now cs e sp r) r sps) = run_executor r"
proof -
  show "run_id (foldl (\<lambda>r (c, v). sync_call_stage now c v r) r records) = run_id r"
    by (induction records arbitrary: r) auto
  show "run_generation (foldl (\<lambda>r (c, v). sync_call_stage now c v r) r records) = run_generation r"
    by (induction records arbitrary: r) auto
  show "run_executor (foldl (\<lambda>r (c, v). sync_call_stage now c v r) r records) = run_executor r"
    by (induction records arbitrary: r) auto
  show "run_id (foldl (\<lambda>r c. sync_call_stage now c (f c) r) r calls) = run_id r"
    by (induction calls arbitrary: r) auto
  show "run_generation (foldl (\<lambda>r c. sync_call_stage now c (f c) r) r calls) = run_generation r"
    by (induction calls arbitrary: r) auto
  show "run_executor (foldl (\<lambda>r c. sync_call_stage now c (f c) r) r calls) = run_executor r"
    by (induction calls arbitrary: r) auto
  show "run_id (foldl (\<lambda>r sp. skip_template now cs e sp r) r sps) = run_id r"
    by (induction sps arbitrary: r) auto
  show "run_generation (foldl (\<lambda>r sp. skip_template now cs e sp r) r sps) = run_generation r"
    by (induction sps arbitrary: r) auto
  show "run_executor (foldl (\<lambda>r sp. skip_template now cs e sp r) r sps) = run_executor r"
    by (induction sps arbitrary: r) auto
qed

text \<open>What an owner writes at the generation of the run is one effect.\<close>

lemma owner_writes:
  assumes "load_state st run = Inr r" "execution_owned_at r g" "run_id r' = run_id r" "run_generation r' = run_generation r"
    "run_executor r' = run_executor r" "stopped r \<Longrightarrow> run_state r' = run_state r"
  shows "acts run (Executor g) st (fst (save_state_preserving_control (Some (run, g)) r' st))"
    "acts run (Executor g) st (fst (save_state (Some (run, g)) r' st))"
  using assms load_id [OF assms(1)] run_effect.wrote [OF assms(2-6)]
  by (auto simp: owner_saves intro!: acts_put)

section \<open>The sections of an executor\<close>

lemma mark_acts:
  assumes "load_state st run = Inr r" "execution_owned_at r g"
  shows "acts run (Executor g) st (fst (mark_v2_call_running (Some (run, g)) now run call st))"
  using assms by (auto simp: mark_v2_call_running_def Let_def stopped_def intro!: owner_writes(1))

lemma reconcile_acts:
  assumes "load_state st run = Inr r" "execution_owned_at r g"
  shows "acts run (Executor g) st (fst (reconcile_running_v2_call_stage (Some (run, g)) now run call v st))"
  using assms by (auto simp: reconcile_running_v2_call_stage_def intro!: owner_writes(1))

lemma settle_acts:
  assumes "load_state st run = Inr r" "execution_owned_at r g"
  shows "acts run (Executor g) st (fst (settle_interrupted_stage (Some (run, g)) now run call st))"
  using assms by (auto simp: settle_interrupted_stage_def intro!: owner_writes(1) split: option.splits)

lemma status_acts:
  assumes "load_state st run = Inr r" "execution_owned_at r g"
  shows "acts run (Executor g) st (fst (finalize_run_status_section (Some (run, g)) now run (Some e) records status st))"
proof -
  have "acts run (Executor g) st (fst (persist_terminal_run_status (Some (run, g)) now run records status st))"
    if "operator_control_unchanged st run (Some e) status = Inr True"
    using that assms
    by (auto simp: persist_terminal_run_status_def operator_control_unchanged_def executor_status_def Let_def stopped_def
        intro!: owner_writes(1) split: if_splits)
  then show ?thesis
    unfolding finalize_run_status_section_def
    by (intro locked_acts) (auto split: sum.splits if_splits)
qed

lemma observed_when_running:
  assumes "load_state st run = Inr r" "poll_v2_run_control h now run call st = (st', Inr x)"
  shows "st' = st \<and> \<not> stopped r"
  using assms by (auto simp: poll_v2_run_control_def checkpoint_def poll_finish_def decision_from_run_def stopped_def Let_def
      split: run_status.splits sum.splits prod.splits)

lemma checkpoint_observes:
  assumes "load_state st run = Inr r" "checkpoint now run local st = Inr (d, seen)"
  shows "d = decision_from_run r \<and> run_id seen = run_id local \<and> run_executor seen = run_executor r
    \<and> (stopped r \<longrightarrow> run_generation seen = run_generation r \<and> run_state seen = run_state r)"
  using assms by (auto simp: checkpoint_def decision_from_run_def stopped_def Let_def reopen_running_stages_def
      cancel_running_stages_def split: run_status.splits)

text \<open>A prepared local state agrees with the run unless the run has moved on.\<close>

definition agrees :: "workflow_run \<Rightarrow> run_control_decision \<Rightarrow> workflow_run \<Rightarrow> bool" where
  "agrees r d seen \<longleftrightarrow> d = ControlContinue \<or>
     run_id seen = run_id r \<and> run_generation seen \<le> run_generation r
     \<and> (run_generation seen = run_generation r \<longrightarrow> run_state seen = run_state r \<and> run_executor seen = run_executor r \<and> stopped r)"

lemma poll_finish_acts:
  assumes "load_state st run = Inr r" "execution_owned_at r g" "agrees r d seen"
  shows "acts run (Executor g) st (fst (poll_finish (Some (run, g)) call (d, seen) st))"
proof (cases "d = ControlContinue")
  case False
  have "acts run (Executor g) st (fst (save_state_preserving_control (Some (run, g)) seen st))"
  proof (cases "run_generation seen = run_generation r")
    case True
    with assms False show ?thesis
      by (auto simp: agrees_def intro!: owner_writes(1))
  next
    case older: False
    then have newer: "newer_state st seen = Some r"
      using assms False load_id [OF assms(1)] by (auto simp: agrees_def newer_state_def)
    have keep: "run_effect (Executor g) r (keep_control r seen)"
      using assms False by (intro run_effect.wrote) (auto simp: keep_control_def agrees_def)
    have "run_id (keep_control r seen) = run_id r"
      using assms False by (simp add: keep_control_def agrees_def)
    then show ?thesis
      using assms False newer keep load_id [OF assms(1)]
      by (auto simp: save_state_preserving_control_def with_writer_def locked [OF assms(1)] agrees_def intro!: acts_put)
  qed
  then show ?thesis
    by (auto simp: poll_finish_def Let_def split: run_control_decision.splits prod.splits sum.splits)
qed (simp add: poll_finish_def)

lemma decision_agrees:
  assumes "load_state st run = Inr r" "checkpoint now run local st = Inr (d, seen)" "run_id local = run"
  shows "agrees r d seen"
  using checkpoint_observes [OF assms(1,2)] assms(3) load_id [OF assms(1)]
  by (auto simp: agrees_def decision_from_run_def stopped_def split: run_status.splits)

lemma summary_acts:
  assumes "load_state st run = Inr r" "execution_owned_at r g"
  shows "acts run (Executor g) st (fst (finalize_summary_section (Some (run, g)) now run (Some e) calls records v st))"
proof -
  have poll: "acts run (Executor g) st (fst (poll_v2_run_control (Some (run, g)) now run call st))" for call
    using assms poll_finish_acts [OF assms decision_agrees [OF assms(1) _ load_id [OF assms(1)]]]
    by (auto simp: poll_v2_run_control_def split: sum.splits)
  have sync: "acts run (Executor g) st (fst (sync_v2_summary_to_run (Some (run, g)) now run calls records v st))" if "\<not> stopped r"
    using assms that by (auto simp: sync_v2_summary_to_run_def Let_def intro!: owner_writes(2))
  show ?thesis
    unfolding finalize_summary_section_def
  proof (intro locked_acts)
    fix r'
    assume "load_state st run = Inr r'" "execution_owned_at r' g"
    show "acts run (Executor g) st (fst (case require_generation_owner st run (Some e) of
        Inl e \<Rightarrow> (st, Inl e)
      | Inr _ \<Rightarrow> (case poll_v2_run_control (Some (run, g)) now run ''finalization'' st of
          (st', Inl e) \<Rightarrow> (st', Inl e)
        | (st', Inr _) \<Rightarrow> sync_v2_summary_to_run (Some (run, g)) now run calls records v st')))"
      using poll [of "''finalization''"] sync observed_when_running [OF assms(1)]
      by (auto split: sum.splits prod.splits)
  qed
qed

lemma pause_fields [simp]:
  "run_id (apply_pause now r) = run_id r" "run_generation (apply_pause now r) = next_generation (run_generation r)"
  "run_executor (apply_pause now r) = run_executor r" "run_state (apply_pause now r) = RunPaused"
  by (simp_all add: apply_pause_def)

lemma pauser_running: "require_pauser p r = Inr x \<Longrightarrow> \<not> stopped r"
  by (auto simp: require_pauser_def generation_owns_def stopped_def split: pause_owner.splits run_status.splits)

lemma stop_check_loads: "load_state (fst (terminal_stop_before_pause r c e st)) run = load_state st run"
  by (auto simp: terminal_stop_before_pause_def split: stop_state.splits prod.splits)
    (metis fst_conv load_beside(2))

lemma pause_saves:
  assumes "load_state st run = Inr r" "execution_owned_at r g" "\<not> stopped r" "load_state st' run = load_state st run"
  shows "acts run (Executor g) st (fst (save_state (Some (run, g)) (apply_pause now r) st'))"
    "load_state st'' run = load_state (fst (save_state (Some (run, g)) (apply_pause now r) st')) run \<Longrightarrow> acts run (Executor g) st st''"
proof -
  show saved: "acts run (Executor g) st (fst (save_state (Some (run, g)) (apply_pause now r) st'))"
    using assms load_id [OF assms(1)] by (auto simp: owner_saves [of st' run r g] intro!: acts_put run_effect.paused)
  show "load_state st'' run = load_state (fst (save_state (Some (run, g)) (apply_pause now r) st')) run \<Longrightarrow> acts run (Executor g) st st''"
    by (rule acts_then_same [OF saved])
qed

lemma pause_acts: "acts run (Executor g) st (fst (pause_owned (Some (run, g)) now run p detail st))"
  unfolding pause_owned_def
proof (rule locked_acts)
  fix r
  assume r: "load_state st run = Inr r" "execution_owned_at r g"
  let ?stop = "terminal_stop_before_pause r ''its pause'' (case p of PauseExecutor _ \<Rightarrow> True | _ \<Rightarrow> False) st"
  have same: "load_state (fst ?stop) run = load_state st run"
    by (rule stop_check_loads)
  then show "acts run (Executor g) st (fst (case load_state st run of
        Inl e \<Rightarrow> (st, Inl e)
      | Inr r \<Rightarrow> (case require_pauser p r of
          Inl e \<Rightarrow> (st, Inl e)
        | Inr _ \<Rightarrow> (case terminal_stop_before_pause r ''its pause'' (case p of PauseExecutor _ \<Rightarrow> True | _ \<Rightarrow> False) st of
            (st', Inl e) \<Rightarrow> (st', Inl e)
          | (st', Inr evidence) \<Rightarrow> let paused = apply_pause now r
              in (case save_state (Some (run, g)) paused st' of
                    (st'', Inl e) \<Rightarrow> (st'', Inl e)
                  | (st'', Inr _) \<Rightarrow> (append_event run EventPaused (pause_detail p r paused evidence detail) st'', Inr ()))))))"
  proof (cases "require_pauser p r")
    case (Inr x)
    obtain st' res where stop: "?stop = (st', res)"
      by (cases ?stop)
    have same: "load_state st' run = load_state st run"
      using same stop by simp
    obtain st'' res' where saved: "save_state (Some (run, g)) (apply_pause now r) st' = (st'', res')"
      by (cases "save_state (Some (run, g)) (apply_pause now r) st'")
    have "acts run (Executor g) st st''"
      using pause_saves(1) [OF r pauser_running [OF Inr] same, of now] saved by simp
    moreover have "acts run (Executor g) st (append_event run EventPaused j st'')" for j
      using acts_then_same [OF \<open>acts run (Executor g) st st''\<close>] by simp
    ultimately show ?thesis
      using r(1) Inr stop saved acts_load [OF same] by (cases res; cases res') (simp_all add: Let_def)
  qed (simp add: r(1))
qed

lemma stop_acts:
  assumes "load_state st run = Inr r" "execution_owned_at r g"
  shows "acts run (Executor g) st (fst (require_no_terminal_stop_locked (Some (run, g)) now r caller st))"
proof -
  have id: "run_id r = run"
    by (rule load_id [OF assms(1)])
  show ?thesis
  proof (cases "terminal_stop_state st r")
    case (StopUnreadable e)
    then have running: "\<not> stopped r"
      by (auto simp: terminal_stop_state_def stopped_def split: if_splits)
    obtain st' evidence where aside: "set_aside_unreadable r e st = (st', evidence)"
      by (cases "set_aside_unreadable r e st")
    have same: "load_state st' run = load_state st run"
      using load_beside(2) [of r e st run] aside by simp
    obtain st'' res where saved: "save_state (Some (run, g)) (apply_pause now r) st' = (st'', res)"
      by (cases "save_state (Some (run, g)) (apply_pause now r) st'")
    have "acts run (Executor g) st st''"
      using pause_saves(1) [OF assms running same, of now] saved by simp
    moreover have "acts run (Executor g) st (append_event run EventPaused j st'')" for j
      using acts_then_same [OF \<open>acts run (Executor g) st st''\<close>] by simp
    ultimately show ?thesis
      using StopUnreadable aside saved id by (cases res) (simp_all add: require_no_terminal_stop_locked_def Let_def)
  qed (simp_all add: require_no_terminal_stop_locked_def)
qed

lemma fence_acts: "acts run (Executor g) st (fst (owner_check (Some (run, g)) now fault text1 run kind st))"
proof -
  have "acts run (Executor g) st (fst (pause_on_unreadable_state (Some (run, g)) now run g kind e text1 st))" for e
  proof -
    have "\<exists>detail. fst (pause_on_unreadable_state (Some (run, g)) now run g kind e text1 st)
        = fst (pause_owned (Some (run, g)) now run (PauseExecutor g) detail st)"
      by (auto simp: pause_on_unreadable_state_def Let_def split: sum.splits prod.splits control_error.splits)
        (metis fst_conv)+
    then show ?thesis
      using pause_acts by metis
  qed
  then show ?thesis
    by (auto simp: owner_check_def split: sum.splits control_error.splits)
qed

section \<open>The operator\<close>

lemma action_fields:
  assumes "apply_action now a r = Inr (r', kind, detail)"
  shows "run_id r' = run_id r" "run_generation r' = run_generation r" "run_executor r' = run_executor r"
  using assms
  by (auto simp: apply_action_def mark_queued_work_cancelled_def rewind_stage_def rewind_item_def force_accept_stage_def Let_def
      map_sum_def split: lifecycle_action.splits sum.splits if_splits option.splits)

lemma planned_from:
  assumes "plan_action w invalidate a prior = Inr (r, kind, detail, invalidated)"
  obtains r0 k d where "apply_action (lw_now w) a (prior\<lparr>run_executor := Some (owner_generation prior)\<rparr>) = Inr (r0, k, d)"
    "r = (reset_invalidated_stages invalidated (next_control (replaces_executor a prior) r0))\<lparr>run_updated := lw_now w\<rparr>"
  using assms by (auto simp: plan_action_def Let_def split: sum.splits prod.splits)

lemma plan_fields:
  assumes "plan_action w invalidate a prior = Inr (r, kind, detail, invalidated)"
  shows "run_id r = run_id prior" "run_generation r = next_generation (run_generation prior)"
    "run_executor r = Some (if replaces_executor a prior then next_generation (run_generation prior) else owner_generation prior)"
proof -
  obtain r0 k d where r0: "apply_action (lw_now w) a (prior\<lparr>run_executor := Some (owner_generation prior)\<rparr>) = Inr (r0, k, d)"
    "r = (reset_invalidated_stages invalidated (next_control (replaces_executor a prior) r0))\<lparr>run_updated := lw_now w\<rparr>"
    using planned_from [OF assms] by metis
  show "run_id r = run_id prior" "run_generation r = next_generation (run_generation prior)"
    "run_executor r = Some (if replaces_executor a prior then next_generation (run_generation prior) else owner_generation prior)"
    using action_fields [OF r0(1)] by (simp_all add: r0(2) next_control_def reset_invalidated_stages_def)
qed

lemma plan_effect:
  "plan_action w invalidate a prior = Inr (r, kind, detail, invalidated) \<Longrightarrow> run_effect Operator prior r"
  by (rule run_effect.edited) (auto simp: plan_fields)

lemma lifecycle_acts: "acts run Operator st (fst (lifecycle_apply_with None w invalidate run a st))"
proof (cases "load_state st run")
  case (Inr prior)
  show ?thesis
  proof (cases "plan_action w invalidate a prior")
    case plan: (Inr x)
    obtain r kind detail invalidated where x: "x = (r, kind, detail, invalidated)"
      by (cases x)
    note plan = plan [unfolded x]
    have r: "run_id r = run" "newer_state st r = None"
      using plan_fields [OF plan] load_id [OF Inr] Inr by (simp_all)
    have put: "acts run Operator st (put_state r st)"
      using plan_effect [OF plan] plan_fields(1) [OF plan] Inr by (intro acts_put) auto
    have restored: "acts run Operator st (put_state prior (put_state r st))"
      using Inr load_id [OF Inr] by (simp add: acts_def)
    show ?thesis
      using put restored r Inr plan load_id [OF Inr]
      by (auto simp: lifecycle_apply_with_def operator_saves restore_state_after_failed_transition_def
          intro: acts_then_same split: option.splits)
  qed (simp add: lifecycle_apply_with_def Inr)
qed (simp add: acts_def)

lemma reset_fields [simp]:
  "run_id (reset_invalidated_stages is r) = run_id r" "run_generation (reset_invalidated_stages is r) = run_generation r"
  "run_executor (reset_invalidated_stages is r) = run_executor r"
  by (simp_all add: reset_invalidated_stages_def)

lemma edit_acts:
  assumes "load_state st run = Inr r" "run_id r' = run_id r" "run_generation r' = next_generation (run_generation r)"
    "run_executor r' = run_executor r"
  shows "acts run Operator st (fst (save_state None r' st))"
  using assms load_id [OF assms(1)] by (auto simp: operator_saves intro!: acts_put run_effect.edited)

lemma task_reset_acts: "acts run Operator st (fst (reset_generated_v2_task_state None now run is st))"
  by (cases "load_state st run") (auto simp: reset_generated_v2_task_state_def acts_def intro!: edit_acts [unfolded acts_def, rule_format])

lemma invalidation_acts: "acts run Operator st (fst (commit_generated_v2_invalidation None now run is st))"
  by (cases "load_state st run")
    (auto simp: commit_generated_v2_invalidation_def acts_def intro!: edit_acts [unfolded acts_def, rule_format])

end
