(* ===== verification/Run_Safety.thy ===== *)
theory Run_Safety imports Run_Laws begin

text \<open>
  Run control as a step relation: an operator and any number of executors act on one run, a poll in
  three separate parts, in any order. What the effects of some actors keep is lifted to all runs of
  these actors by the interface \<open>run_law\<close>.
\<close>

section \<open>Steps\<close>

datatype executor_call =
    MarkRunning string
  | Reconcile string v2_status
  | Settle string
  | EndWithStatus "64 word" "(string \<times> v2_status) list" run_status
  | EndWithSummary "64 word" "string list" "(string \<times> v2_status) list" v2_status
  | PauseRun pause_owner json
  | StopCheck string
  | FenceCheck fence_kind "control_error option" "control_error \<Rightarrow> string"

datatype operator_call =
    Act lifecycle_world bool lifecycle_action
  | ResetTask "string list"
  | InvalidateCalls "string list"

definition executor_call_on :: "string \<Rightarrow> 64 word \<Rightarrow> nat \<Rightarrow> executor_call \<Rightarrow> run_store \<Rightarrow> run_store" where
  "executor_call_on run g now call st =
     (let h = Some (run, g)
      in case call of
           MarkRunning c \<Rightarrow> fst (with_run_lock h run (mark_v2_call_running h now run c) st)
         | Reconcile c v \<Rightarrow> fst (with_run_lock h run (reconcile_running_v2_call_stage h now run c v) st)
         | Settle c \<Rightarrow> fst (with_run_lock h run (settle_interrupted_stage h now run c) st)
         | EndWithStatus e records status \<Rightarrow> fst (finalize_run_status_section h now run (Some e) records status st)
         | EndWithSummary e calls records v \<Rightarrow> fst (finalize_summary_section h now run (Some e) calls records v st)
         | PauseRun p detail \<Rightarrow> fst (pause_owned h now run p detail st)
         | StopCheck caller \<Rightarrow>
             fst (with_run_lock h run (\<lambda>st. case load_state st run of
                    Inl e \<Rightarrow> (st, Inl e) | Inr r \<Rightarrow> require_no_terminal_stop_locked h now r caller st) st)
         | FenceCheck kind fault error_text \<Rightarrow> fst (owner_check h now fault error_text run kind st))"

definition operator_call_on :: "string \<Rightarrow> nat \<Rightarrow> operator_call \<Rightarrow> run_store \<Rightarrow> run_store" where
  "operator_call_on run now call st =
     (case call of
        Act w invalidate a \<Rightarrow> fst (lifecycle_apply_with unbound w invalidate run a st)
      | ResetTask is \<Rightarrow> fst (reset_generated_v2_task_state unbound now run is st)
      | InvalidateCalls is \<Rightarrow> fst (commit_generated_v2_invalidation unbound now run is st))"

datatype poll_phase = PollLoaded workflow_run | PollObserved run_control_decision workflow_run

type_synonym run_conf = "run_store \<times> (64 word \<times> poll_phase) list"

definition edits_left :: "string \<Rightarrow> run_store \<Rightarrow> bool" where
  "edits_left run st \<longleftrightarrow> (case load_state st run of Inr r \<Rightarrow> run_generation r \<noteq> - 1 | Inl _ \<Rightarrow> False)"

text \<open>A run sees fewer than \<open>2 ^ 64 - 1\<close> edits, so that its generation never saturates.\<close>

inductive run_step :: "string \<Rightarrow> run_actor \<Rightarrow> run_conf \<Rightarrow> run_conf \<Rightarrow> bool" for run where
  executor_calls: "edits_left run st \<Longrightarrow> run_step run (Executor g) (st, ps) (executor_call_on run g now call st, ps)"
| operator_calls: "edits_left run st \<Longrightarrow> run_step run Operator (st, ps) (operator_call_on run now call st, ps)"
| poll_load: "load_state st run = Inr r \<Longrightarrow> run_step run (Executor g) (st, ps) (st, (g, PollLoaded r) # ps)"
| poll_check: "(g, PollLoaded r) \<in> set ps \<Longrightarrow> checkpoint now run r st = Inr (d, seen)
    \<Longrightarrow> run_step run (Executor g) (st, ps) (st, (g, PollObserved d seen) # ps)"
| poll_write: "edits_left run st \<Longrightarrow> (g, PollObserved d seen) \<in> set ps
    \<Longrightarrow> run_step run (Executor g) (st, ps) (fst (poll_finish (Some (run, g)) call (d, seen) st), ps)"

inductive_cases run_stepE [elim]: "run_step run a c c'"

section \<open>Every step is an effect\<close>

definition poll_sound :: "workflow_run \<Rightarrow> poll_phase \<Rightarrow> bool" where
  "poll_sound r p = (case p of PollLoaded l \<Rightarrow> run_id l = run_id r | PollObserved d seen \<Rightarrow> agrees r d seen)"

text \<open>A state in which the run is stored, its owner is not ahead of it, and what polls hold agrees with it.\<close>

definition conf_sound :: "string \<Rightarrow> run_conf \<Rightarrow> workflow_run \<Rightarrow> bool" where
  "conf_sound run c r \<longleftrightarrow> load_state (fst c) run = Inr r \<and> owner_generation r \<le> run_generation r
     \<and> (\<forall>(g, p) \<in> set (snd c). poll_sound r p)"

lemma operator_call_acts: "acts run Operator st (operator_call_on run now call st)"
  by (auto simp: operator_call_on_def unbound_def split: operator_call.splits
      intro: lifecycle_acts task_reset_acts invalidation_acts)

lemma ends_act:
  "acts run (Executor g) st (fst (finalize_run_status_section (Some (run, g)) now run (Some e) records status st))"
  "acts run (Executor g) st (fst (finalize_summary_section (Some (run, g)) now run (Some e) calls records v st))"
proof -
  have "acts run (Executor g) st (fst (finalize_run_status_section (Some (run, g)) now run (Some e) records status st))
    \<and> acts run (Executor g) st (fst (finalize_summary_section (Some (run, g)) now run (Some e) calls records v st))"
  proof (cases "load_state st run")
    case (Inr r)
    then show ?thesis
      by (cases "execution_owned_at r g")
        (simp_all add: status_acts summary_acts, simp_all add: finalize_run_status_section_def finalize_summary_section_def locked)
  qed (simp add: acts_def)
  then show "acts run (Executor g) st (fst (finalize_run_status_section (Some (run, g)) now run (Some e) records status st))"
    "acts run (Executor g) st (fst (finalize_summary_section (Some (run, g)) now run (Some e) calls records v st))"
    by simp_all
qed

lemma executor_call_acts: "acts run (Executor g) st (executor_call_on run g now call st)"
proof (cases call)
  case (StopCheck caller)
  then show ?thesis
    by (auto simp: executor_call_on_def Let_def intro!: locked_acts stop_acts)
qed (simp_all add: executor_call_on_def Let_def locked_acts mark_acts reconcile_acts settle_acts ends_act pause_acts fence_acts)

text \<open>An effect leaves what a poll holds in agreement, as long as edits are left.\<close>

lemma agrees_after:
  assumes "agrees r d seen" "run_effect a r r'" "run_generation r \<noteq> - 1"
  shows "agrees r' d seen"
proof (cases "d = ControlContinue")
  case False
  have less: "run_generation r < next_generation (run_generation r)"
    by (rule next_generation_less [OF assms(3)])
  show ?thesis
    using assms(2)
  proof cases
    case (wrote g)
    with assms(1) False show ?thesis
      by (auto simp: agrees_def stopped_def)
  next
    case (paused g now)
    with assms(1) False less show ?thesis
      by (auto simp: agrees_def)
  next
    case edited
    with assms(1) False less show ?thesis
      by (auto simp: agrees_def)
  qed
qed (simp add: agrees_def)

lemma run_effect_keeps:
  assumes "run_effect a r r'" "owner_generation r \<le> run_generation r"
  shows "run_id r' = run_id r" "run_generation r \<le> run_generation r'" "owner_generation r \<le> owner_generation r'"
    "owner_generation r' \<le> run_generation r'"
proof -
  have le: "run_generation r \<le> next_generation (run_generation r)"
    by (rule next_generation_le)
  then have "owner_generation r \<le> next_generation (run_generation r)"
    using assms(2) order.trans by blast
  with assms le show "run_id r' = run_id r" "run_generation r \<le> run_generation r'" "owner_generation r \<le> owner_generation r'"
    "owner_generation r' \<le> run_generation r'"
    by (auto elim!: run_effect.cases simp: owner_generation_def split: option.splits)
qed

lemma step_effect:
  assumes "run_step run a c c'" "conf_sound run c r"
  shows "\<exists>r'. conf_sound run c' r' \<and> (r' = r \<or> run_effect a r r' \<and> run_generation r \<noteq> - 1)"
proof -
  have acted: "\<exists>r'. conf_sound run (st', ps) r' \<and> (r' = r \<or> run_effect a r r' \<and> run_generation r \<noteq> - 1)"
    if act: "acts run a st st'" "edits_left run st" "conf_sound run (st, ps) r" for st st' ps
  proof -
    have "load_state st run = Inr r"
      using act(3) by (simp add: conf_sound_def)
    then obtain r' where r': "load_state st' run = Inr r'" "r' = r \<or> run_effect a r r'"
      using act(1) unfolding acts_def by metis
    have left: "run_generation r \<noteq> - 1"
      using act by (simp add: edits_left_def conf_sound_def)
    show ?thesis
    proof (cases "r' = r")
      case True
      with act(3) r'(1) show ?thesis
        by (auto simp: conf_sound_def)
    next
      case False
      with r' have effect: "run_effect a r r'"
        by simp
      have "owner_generation r \<le> run_generation r"
        using act(3) by (simp add: conf_sound_def)
      note keeps = run_effect_keeps [OF effect this]
      have "poll_sound r' p" if "poll_sound r p" for p
        using that keeps(1) agrees_after [OF _ effect left] by (simp add: poll_sound_def split: poll_phase.splits)
      then have "conf_sound run (st', ps) r'"
        using act(3) r'(1) keeps(4) unfolding conf_sound_def by fastforce
      with effect left show ?thesis
        by blast
    qed
  qed
  show ?thesis
    using assms(1)
  proof cases
    case (executor_calls st g ps now call)
    moreover have "acts run a st (executor_call_on run g now call st)"
      using executor_calls(1) by (simp add: executor_call_acts)
    ultimately show ?thesis
      using acted assms(2) by simp
  next
    case (operator_calls st ps now call)
    moreover have "acts run a st (operator_call_on run now call st)"
      using operator_calls(1) by (simp add: operator_call_acts)
    ultimately show ?thesis
      using acted assms(2) by simp
  next
    case (poll_load st r0 g ps)
    with assms(2) show ?thesis
      by (auto simp: conf_sound_def poll_sound_def)
  next
    case (poll_check g r0 ps now st d seen)
    then have "agrees r d seen"
      using assms(2) load_id by (fastforce simp: conf_sound_def poll_sound_def intro: decision_agrees)
    with poll_check assms(2) show ?thesis
      by (auto simp: conf_sound_def poll_sound_def)
  next
    case (poll_write st g d seen ps call)
    have loaded: "load_state st run = Inr r" "agrees r d seen"
      using poll_write assms(2) by (auto simp: conf_sound_def poll_sound_def)
    have "acts run (Executor g) st (fst (poll_finish (Some (run, g)) call (d, seen) st))"
    proof (cases "execution_owned_at r g")
      case True
      show ?thesis
        by (rule poll_finish_acts [OF loaded(1) True loaded(2)])
    next
      case False
      have "run_id seen = run" if "d \<noteq> ControlContinue"
        using loaded that load_id by (auto simp: agrees_def)
      then show ?thesis
        using False by (cases d) (auto simp: poll_finish_def Let_def save_state_preserving_control_def with_writer_def locked [OF loaded(1)])
    qed
    then have "acts run a st (fst (poll_finish (Some (run, g)) call (d, seen) st))"
      using poll_write(1) by simp
    with acted poll_write assms(2) show ?thesis
      by simp
  qed
qed

section \<open>What holds of all runs of some actors\<close>

locale run_law =
  fixes actors :: "run_actor \<Rightarrow> bool" and law :: "workflow_run \<Rightarrow> workflow_run \<Rightarrow> bool"
  assumes same: "law r r"
    and chain: "law r r' \<Longrightarrow> law r' r'' \<Longrightarrow> law r r''"
    and effect: "actors a \<Longrightarrow> run_effect a r r' \<Longrightarrow> owner_generation r \<le> run_generation r \<Longrightarrow> run_generation r \<noteq> - 1 \<Longrightarrow> law r r'"
begin

lemma lifted:
  assumes "(\<lambda>c c'. \<exists>a. actors a \<and> run_step run a c c')\<^sup>*\<^sup>* c c'" "conf_sound run c r"
  shows "\<exists>r'. conf_sound run c' r' \<and> law r r'"
  using assms(1)
proof induction
  case base
  with assms(2) show ?case
    using same by blast
next
  case (step c1 c2)
  then obtain r1 a where r1: "conf_sound run c1 r1" "law r r1" "actors a" "run_step run a c1 c2"
    by blast
  obtain r2 where r2: "conf_sound run c2 r2" "r2 = r1 \<or> run_effect a r1 r2 \<and> run_generation r1 \<noteq> - 1"
    using step_effect [OF r1(4,1)] by blast
  have "law r1 r2"
    using r2(2) r1(1) effect [OF r1(3), of r1 r2] same by (auto simp: conf_sound_def)
  with r1(2) r2(1) chain show ?case
    by blast
qed

end

interpretation generations: run_law "\<lambda>_. True"
  "\<lambda>r r'. run_generation r \<le> run_generation r' \<and> owner_generation r \<le> owner_generation r'"
  using run_effect_keeps by unfold_locales (auto intro: order.trans)

interpretation stops: run_law "\<lambda>a. a \<noteq> Operator"
  "\<lambda>r r'. stopped r \<longrightarrow> stopped r' \<and> run_state r' = run_state r \<and> run_generation r' = run_generation r \<and> run_executor r' = run_executor r"
proof unfold_locales
  fix a r r'
  assume "a \<noteq> Operator" "run_effect a r r'"
  then show "stopped r \<longrightarrow> stopped r' \<and> run_state r' = run_state r \<and> run_generation r' = run_generation r \<and> run_executor r' = run_executor r"
    by (auto elim!: run_effect.cases simp: stopped_def)
qed (auto simp: stopped_def)

section \<open>Properties\<close>

text \<open>
  C1. A stop holds: once a run is paused or cancelled, no interleaving of calls and polls of any
  executors changes its status, its generation or its owner; only the operator can lift it.
\<close>

theorem operator_stops_hold:
  assumes "(\<lambda>c c'. \<exists>g. run_step run (Executor g) c c')\<^sup>*\<^sup>* c c'" "conf_sound run c r" "stopped r"
  shows "\<exists>r'. load_state (fst c') run = Inr r' \<and> run_state r' = run_state r \<and> run_generation r' = run_generation r
    \<and> run_executor r' = run_executor r"
proof -
  have "(\<lambda>c c'. \<exists>g. run_step run (Executor g) c c') = (\<lambda>c c'. \<exists>a. a \<noteq> Operator \<and> run_step run a c c')"
    by (intro ext) (metis run_actor.exhaust run_actor.distinct(1))
  with stops.lifted [of run c c' r] assms show ?thesis
    by (auto simp: conf_sound_def)
qed

text \<open>
  C2. A lost run stays lost: an executor that does not own a run does not own it after any interleaving of
  the operator and the executors either, and none of its calls and polls changes the stored run.
\<close>

theorem lost_runs_stay_lost:
  assumes "(\<lambda>c c'. \<exists>a. run_step run a c c')\<^sup>*\<^sup>* c c'" "conf_sound run c r" "g < owner_generation r"
  shows "\<exists>r'. load_state (fst c') run = Inr r' \<and> \<not> execution_owned_at r' g
    \<and> (\<forall>c''. run_step run (Executor g) c' c'' \<longrightarrow> load_state (fst c'') run = Inr r')"
proof -
  obtain r' where r': "conf_sound run c' r'" "owner_generation r \<le> owner_generation r'"
    using generations.lifted [of run c c' r] assms by auto
  then have lost: "\<not> execution_owned_at r' g"
    using order.strict_trans2 [OF assms(3) r'(2)] by (simp add: execution_owned_at_def not_le)
  have "load_state (fst c'') run = Inr r'" if step: "run_step run (Executor g) c' c''" for c''
  proof -
    obtain r'' where r'': "conf_sound run c'' r''" "r'' = r' \<or> run_effect (Executor g) r' r''"
      using step_effect [OF step r'(1)] by blast
    moreover have "\<not> run_effect (Executor g) r' r''"
      using lost by blast
    ultimately show ?thesis
      by (auto simp: conf_sound_def)
  qed
  with lost r'(1) show ?thesis
    by (auto simp: conf_sound_def)
qed

end
