(* ===== verification/Run_Cases.thy ===== *)
theory Run_Cases imports Run_Safety begin

text \<open>
  What the operator's actions do to a run, and the laws of run control at a stored run: a resume takes the
  run from every older executor, a restart resets the stage and all that depends on it. The last section
  shows what run control leaves to its callers.
\<close>

section \<open>The targets of a restart\<close>

text \<open>\<open>j\<close> depends on \<open>i\<close> when a stage named \<open>j\<close> lists \<open>i\<close>.\<close>

definition depends_on :: "stage_spec list \<Rightarrow> string \<Rightarrow> string \<Rightarrow> bool" where
  "depends_on stages i j \<longleftrightarrow> (\<exists>s \<in> set stages. sp_id s = j \<and> i \<in> set (sp_depends s))"

text \<open>What some stages reach.\<close>

definition downstream :: "stage_spec list \<Rightarrow> string set \<Rightarrow> string set" where
  "downstream stages ids = {j. \<exists>i \<in> ids. (depends_on stages)\<^sup>*\<^sup>* i j}"

lemma downstream_self: "ids \<subseteq> downstream stages ids"
  by (auto simp: downstream_def)

lemma downstream_next: "i \<in> ids \<Longrightarrow> depends_on stages i j \<Longrightarrow> j \<in> downstream stages ids"
  by (auto simp: downstream_def intro: r_into_rtranclp)

lemma downstream_trans: "A \<subseteq> downstream stages B \<Longrightarrow> downstream stages A \<subseteq> downstream stages B"
  unfolding downstream_def by (blast intro: rtranclp_trans)

lemma downstream_mono: "A \<subseteq> B \<Longrightarrow> downstream stages A \<subseteq> downstream stages B"
  by (auto simp: downstream_def)

lemma pass_sound: "set stages \<subseteq> set all1 \<Longrightarrow> set (dependents_pass stages ids) \<subseteq> downstream all1 (set ids)"
proof (induction stages arbitrary: ids)
  case Nil
  then show ?case
    by (simp add: dependents_pass_def downstream_self)
next
  case (Cons s stages)
  define ids' where "ids' = (if sp_id s \<in> set ids then ids
    else if list_ex (\<lambda>d. d \<in> set ids) (sp_depends s) then ids @ [sp_id s] else ids)"
  have "dependents_pass (s # stages) ids = dependents_pass stages ids'"
    by (simp add: dependents_pass_def ids'_def)
  moreover have "sp_id s \<in> downstream all1 (set ids)" if "list_ex (\<lambda>d. d \<in> set ids) (sp_depends s)"
    using that Cons.prems by (auto simp: list_ex_iff depends_on_def intro!: downstream_next)
  then have "set ids' \<subseteq> downstream all1 (set ids)"
    using downstream_self [of "set ids" all1] by (simp add: ids'_def)
  then have "downstream all1 (set ids') \<subseteq> downstream all1 (set ids)"
    by (rule downstream_trans)
  ultimately show ?case
    using Cons.IH [of ids'] Cons.prems by auto
qed

lemma pass_takes:
  assumes "s \<in> set stages" "d \<in> set ids" "d \<in> set (sp_depends s)"
  shows "sp_id s \<in> set (dependents_pass stages ids)"
  using assms
proof (induction stages arbitrary: ids)
  case (Cons t stages)
  define ids' where "ids' = (if sp_id t \<in> set ids then ids
    else if list_ex (\<lambda>d. d \<in> set ids) (sp_depends t) then ids @ [sp_id t] else ids)"
  have step: "dependents_pass (t # stages) ids = dependents_pass stages ids'"
    by (simp add: dependents_pass_def ids'_def)
  show ?case
  proof (cases "s = t")
    case True
    then have "sp_id s \<in> set ids'"
      using Cons.prems by (auto simp: ids'_def list_ex_iff)
    with step dependents_pass_grows [of ids' stages] show ?thesis
      by auto
  next
    case False
    with Cons.prems Cons.IH [of ids'] step show ?thesis
      by (auto simp: ids'_def)
  qed
qed simp

lemma pass_fixed:
  assumes "distinct ids" "length (dependents_pass stages ids) = length ids"
  shows "set (dependents_pass stages ids) = set ids"
proof -
  have "card (set (dependents_pass stages ids)) = card (set ids)"
    using assms dependents_pass_distinct [OF assms(1)] by (simp add: distinct_card)
  then show ?thesis
    using dependents_pass_grows [of ids stages] card_subset_eq [of "set (dependents_pass stages ids)" "set ids"] by auto
qed

lemma closed_downstream:
  assumes "set (dependents_pass stages ids) = set ids"
  shows "downstream stages (set ids) = set ids"
proof -
  have "j \<in> set ids" if "(depends_on stages)\<^sup>*\<^sup>* i j" "i \<in> set ids" for i j
    using that
  proof induction
    case (step j k)
    then show ?case
      using pass_takes assms by (auto simp: depends_on_def)
  qed simp
  then show ?thesis
    by (auto simp: downstream_def)
qed

lemma dependents_from_set: "distinct ids \<Longrightarrow> set (dependents_from stages ids) = downstream stages (set ids)"
proof (induction stages ids rule: dependents_from.induct)
  case (1 stages ids)
  let ?more = "dependents_pass stages ids"
  have sound: "set ?more \<subseteq> downstream stages (set ids)"
    by (rule pass_sound) simp
  show ?case
  proof (cases "length ?more = length ids")
    case True
    note fixed = pass_fixed [OF 1(2) True]
    have "dependents_from stages ids = ?more"
      using True by (simp add: dependents_from.simps [of stages ids])
    with fixed closed_downstream [OF fixed] show ?thesis
      by simp
  next
    case False
    then have "dependents_from stages ids = dependents_from stages ?more"
      by (simp add: dependents_from.simps [of stages ids])
    then have "set (dependents_from stages ids) = downstream stages (set ?more)"
      using 1(1) [OF refl False dependents_pass_distinct [OF 1(2)]] by simp
    moreover have "downstream stages (set ids) \<subseteq> downstream stages (set ?more)"
      using dependents_pass_grows [of ids stages] by (intro downstream_mono) simp
    ultimately show ?thesis
      using downstream_trans [OF sound] by auto
  qed
qed

lemma dependents_are_downstream:
  "i \<in> set (dependent_stage_ids r stage) \<longleftrightarrow> (depends_on (ws_stages (run_spec r)))\<^sup>*\<^sup>* stage i"
  by (simp add: dependent_stage_ids_def dependents_from_set downstream_def)

text \<open>
  C15. A restart rewinds a stage and all that comes after it: the stages it resets are exactly those that
  reach the restarted stage by following dependencies, at any distance; they wait again, without result,
  and every other stage is kept. The items of the reset stages are dropped, the run goes on.
\<close>

theorem restart_rewinds_downstream:
  assumes "rewind_stage stage r = Inr r'"
  shows "map_of (run_stages r') i = map_option (\<lambda>s. if (depends_on (ws_stages (run_spec r)))\<^sup>*\<^sup>* stage i
      then (pending_stage (st_id s))\<lparr>st_attempt := st_attempt s\<rparr> else s) (map_of (run_stages r) i)
    \<and> set (run_items r') = {(k, x) \<in> set (run_items r). \<not> (depends_on (ws_stages (run_spec r)))\<^sup>*\<^sup>* stage (it_stage x)}
    \<and> run_state r' = RunRunning"
proof -
  have r': "r' = r\<lparr>run_stages := on_keys (set (dependent_stage_ids r stage)) (\<lambda>_. reopen_stage True) (run_stages r),
    run_items := filter (\<lambda>(_, i). it_stage i \<notin> set (dependent_stage_ids r stage)) (run_items r), run_state := RunRunning\<rparr>"
    using assms by (simp add: rewind_stage_def Let_def split: if_splits)
  have reopened: "reopen_stage True s = (pending_stage (st_id s))\<lparr>st_attempt := st_attempt s\<rparr>" for s
    by (simp add: reopen_stage_def pending_stage_def)
  show ?thesis
    by (cases "map_of (run_stages r) i") (auto simp: r' dependents_are_downstream reopened)
qed

section \<open>Resuming\<close>

lemma resume_planned:
  assumes "plan_action w invalidate Resume prior = Inr (r, kind, detail, invalidated)"
  shows "run_state r = RunRunning" "run_stages r = on_values resume_stage (run_stages prior)"
    "run_items r = on_values resume_item (run_items prior)"
proof -
  have r: "r = (next_control True (prior\<lparr>run_executor := Some (owner_generation prior), run_state := RunRunning,
      run_stages := on_values resume_stage (run_stages prior), run_items := on_values resume_item (run_items prior)\<rparr>))
      \<lparr>run_updated := lw_now w\<rparr>"
    using assms by (auto simp: plan_action_def apply_action_def replaces_executor_def Let_def reset_invalidated_stages_def on_keys_def)
  show "run_state r = RunRunning" "run_stages r = on_values resume_stage (run_stages prior)"
    "run_items r = on_values resume_item (run_items prior)"
    by (simp_all add: r next_control_def)
qed

lemma owned_by_the_new:
  assumes "run_generation r = g" "run_executor r = Some g"
  shows "execution_owned_at r e \<longleftrightarrow> e = g"
  using assms by (auto simp: execution_owned_at_def owner_generation_def)

text \<open>
  C14. A resume hands the run over, or nothing happens: a resume that succeeds leaves the run running with
  every paused and cancelled stage and item waiting again, and the executor of the new generation is its
  only owner, whoever owned it before; one that fails, at whatever point, leaves the stored run as it was.
\<close>

theorem resume_hands_over:
  assumes "load_state st run = Inr prior" "lifecycle_apply_with unbound w invalidate run Resume st = (st', result)"
  shows "case result of
      Inl _ \<Rightarrow> load_state st' run = Inr prior
    | Inr (r, _) \<Rightarrow> load_state st' run = Inr r \<and> run_state r = RunRunning
        \<and> run_stages r = on_values resume_stage (run_stages prior) \<and> run_items r = on_values resume_item (run_items prior)
        \<and> (\<forall>g. execution_owned_at r g \<longleftrightarrow> g = next_generation (run_generation prior))"
proof (cases "plan_action w invalidate Resume prior")
  case plan: (Inr x)
  obtain r kind detail invalidated where x: "x = (r, kind, detail, invalidated)"
    by (cases x)
  note plan = plan [unfolded x]
  note r = plan_fields [OF plan] resume_planned [OF plan]
  have id: "run_id prior = run" "run_id r = run"
    using load_id [OF assms(1)] r(1) by simp_all
  have owned: "execution_owned_at r g \<longleftrightarrow> g = next_generation (run_generation prior)" for g
    using r(2,3) by (intro owned_by_the_new) (simp_all add: replaces_executor_def)
  have result: "(st', result) = (case lw_event w of
      None \<Rightarrow> (append_event run kind detail (put_state r st), Inr (r, invalidated))
    | Some e \<Rightarrow> (put_state prior (put_state r st), Inl e))"
    using assms plan r(2) id
    by (simp add: unbound_def lifecycle_apply_with_def is_force_accept_def operator_saves restore_state_after_failed_transition_def
        split: option.splits)
  show ?thesis
    using result r(4-6) owned id by (cases "lw_event w") simp_all
qed (use assms in \<open>auto simp: unbound_def lifecycle_apply_with_def\<close>)

section \<open>At a stored run\<close>

definition case_stage :: "string \<Rightarrow> string list \<Rightarrow> stage_spec" where
  "case_stage i deps =
     \<lparr>sp_id = i, sp_kind = AgentStage, sp_task = None, sp_agent = None, sp_foreach = None, sp_reducer = None, sp_tool = None,
      sp_depends = deps, sp_tier = None, sp_retry = \<lparr>retry_attempts = 1, retry_delay = 0\<rparr>, sp_input = JsonNull, sp_model = None,
      sp_provider = None, sp_targets = [], sp_verify = None, sp_parallelism = None, sp_item_kind = None, sp_filter = None,
      sp_extra = []\<rparr>"

definition case_spec :: workflow_spec where
  "case_spec =
     \<lparr>ws_schema = ''1'', ws_name = ''report'', ws_task = ''write'', ws_target = None, ws_parallelism = 1, ws_agents = 1,
      ws_stages = [case_stage ''draft'' [], case_stage ''review'' [''draft''], case_stage ''notes'' []], ws_permissions = [],
      ws_hooks = []\<rparr>"

text \<open>A run whose draft is being written, with one item of it.\<close>

definition case_run :: workflow_run where
  "case_run = (new_run ''1'' 0 case_spec ''d'')\<lparr>run_state := RunRunning,
     run_stages := [(''draft'', (pending_stage ''draft'')\<lparr>st_status := StageRunning\<rparr>),
       (''review'', (pending_stage ''review'')\<lparr>st_status := StageAccepted\<rparr>),
       (''notes'', (pending_stage ''notes'')\<lparr>st_status := StageAccepted\<rparr>)],
     run_items := [(''x'', \<lparr>it_id = ''x'', it_stage = ''draft'', it_status = StageRunning, it_artifact = None, it_error = None\<rparr>)]\<rparr>"

definition case_store :: "workflow_run \<Rightarrow> run_store" where
  "case_store r = put_state r \<lparr>rs_files = (\<lambda>_. NoRun), rs_stops = (\<lambda>_. NoStop), rs_events = (\<lambda>_. [])\<rparr>"

definition case_world :: lifecycle_world where
  "case_world = \<lparr>lw_now = 9, lw_cancel = Inr JsonNull, lw_invalidate = (\<lambda>_. Inr []), lw_archive = Inr JsonNull,
     lw_forced = None, lw_event = None\<rparr>"

lemma case_run_fields [simp]:
  "run_id case_run = ''wf-1''" "run_state case_run = RunRunning" "run_generation case_run = 0" "run_executor case_run = Some 0"
  "run_spec case_run = case_spec"
  by (simp_all add: case_run_def new_run_def)

lemma case_store_loads [simp]: "run_id r = run \<Longrightarrow> load_state (case_store r) run = Inr r"
  by (simp add: case_store_def)

lemma restart_rewinds_downstream_witness:
  "\<exists>r'. rewind_stage ''draft'' case_run = Inr r' \<and> map_of (run_stages r') ''review'' = Some (pending_stage ''review'')
    \<and> run_state r' = RunRunning"
proof -
  obtain r' where r': "rewind_stage ''draft'' case_run = Inr r'"
    by (simp add: rewind_stage_def case_run_def Let_def)
  have "depends_on (ws_stages (run_spec case_run)) ''draft'' ''review''"
    by (simp add: depends_on_def case_spec_def case_stage_def)
  then have reaches: "(depends_on (ws_stages (run_spec case_run)))\<^sup>*\<^sup>* ''draft'' ''review''"
    by (rule r_into_rtranclp)
  have "map_of (run_stages case_run) ''review'' = Some ((pending_stage ''review'')\<lparr>st_status := StageAccepted\<rparr>)"
    by (simp add: case_run_def)
  with restart_rewinds_downstream [OF r', of "''review''"] reaches r' show ?thesis
    by (simp add: pending_stage_def)
qed

lemma resume_hands_over_witness:
  "\<exists>st' r. lifecycle_apply_with unbound case_world False ''wf-1'' Resume (case_store (apply_pause 5 case_run)) = (st', Inr (r, []))
    \<and> load_state st' ''wf-1'' = Inr r \<and> (\<forall>g. execution_owned_at r g \<longleftrightarrow> g = 2)"
proof -
  let ?st = "case_store (apply_pause 5 case_run)"
  have stored: "load_state ?st ''wf-1'' = Inr (apply_pause 5 case_run)"
    by simp
  have "\<exists>st' r. lifecycle_apply_with unbound case_world False ''wf-1'' Resume ?st = (st', Inr (r, []))"
    by (simp add: lifecycle_apply_with_def unbound_def plan_action_def apply_action_def case_world_def is_force_accept_def
        save_state_def newer_state_def next_control_def reset_invalidated_stages_def on_keys_def next_generation_def
        case_store_def put_state_def load_state_def Let_def)
  then obtain st' r where r: "lifecycle_apply_with unbound case_world False ''wf-1'' Resume ?st = (st', Inr (r, []))"
    by blast
  with resume_hands_over [OF stored r] show ?thesis
    by (simp add: next_generation_def)
qed

text \<open>A step of an executor on its own.\<close>

lemma one_call:
  assumes "load_state st run = Inr r" "run_generation r \<noteq> - 1"
  shows "run_step run (Executor g) (st, ps) (executor_call_on run g now call st, ps)"
  using assms by (intro executor_calls) (simp add: edits_left_def)

lemma case_conf_sound:
  "run_id r = run \<Longrightarrow> owner_generation r \<le> run_generation r \<Longrightarrow> conf_sound run (case_store r, []) r"
  by (simp add: conf_sound_def)

lemma operator_stops_hold_witness:
  "\<exists>r'. load_state (executor_call_on ''wf-1'' 0 7 (EndWithStatus 0 [(''draft'', V2Accepted)] RunCompleted)
      (case_store (apply_pause 5 case_run))) ''wf-1'' = Inr r' \<and> run_state r' = RunPaused \<and> run_generation r' = 1"
proof -
  let ?st = "case_store (apply_pause 5 case_run)"
  let ?final = "EndWithStatus 0 [(''draft'', V2Accepted)] RunCompleted"
  have "run_step ''wf-1'' (Executor 0) (?st, []) (executor_call_on ''wf-1'' 0 7 ?final ?st, [])"
    by (rule one_call [of _ _ "apply_pause 5 case_run"]) (simp_all add: next_generation_def)
  then have steps: "(\<lambda>c c'. \<exists>g. run_step ''wf-1'' (Executor g) c c')\<^sup>*\<^sup>* (?st, []) (executor_call_on ''wf-1'' 0 7 ?final ?st, [])"
    by (intro r_into_rtranclp) blast
  have sound: "conf_sound ''wf-1'' (?st, []) (apply_pause 5 case_run)"
    by (rule case_conf_sound) (simp_all add: owner_generation_def)
  show ?thesis
    using operator_stops_hold [OF steps sound] by (auto simp: stopped_def next_generation_def)
qed

lemma lost_runs_stay_lost_witness:
  "\<exists>r'. load_state (executor_call_on ''wf-1'' 0 7 (EndWithStatus 0 [] RunCompleted)
      (case_store (next_control True case_run))) ''wf-1'' = Inr r' \<and> \<not> execution_owned_at r' 0"
proof -
  let ?r = "next_control True case_run"
  let ?st = "case_store ?r"
  let ?final = "EndWithStatus 0 [] RunCompleted"
  have fields: "run_id ?r = ''wf-1''" "run_generation ?r = 1" "owner_generation ?r = 1"
    by (simp_all add: next_control_def next_generation_def owner_generation_def)
  have "run_step ''wf-1'' (Executor 0) (?st, []) (executor_call_on ''wf-1'' 0 7 ?final ?st, [])"
    by (rule one_call [of _ _ ?r]) (simp_all add: fields)
  then have steps: "(\<lambda>c c'. \<exists>a. run_step ''wf-1'' a c c')\<^sup>*\<^sup>* (?st, []) (executor_call_on ''wf-1'' 0 7 ?final ?st, [])"
    by (intro r_into_rtranclp) blast
  have sound: "conf_sound ''wf-1'' (?st, []) ?r"
    by (rule case_conf_sound) (simp_all add: fields)
  have older: "0 < owner_generation ?r"
    by (simp add: fields)
  show ?thesis
    using lost_runs_stay_lost [OF steps sound older] by auto
qed

section \<open>What run control leaves open\<close>

text \<open>
  The comment of \<^verbatim>\<open>apply_pause\<close> calls it the transition \<^verbatim>\<open>workflow pause\<close> makes, which pauses the running
  stages and items; the operator's \<^verbatim>\<open>Pause\<close> changes the status of the run alone.
\<close>

lemma operator_pause_leaves_stages_running:
  "\<exists>r' k d. apply_action 5 Pause case_run = Inr (r', k, d) \<and> run_state r' = RunPaused
    \<and> map_option st_status (map_of (run_stages r') ''draft'') = Some StageRunning
    \<and> map_option st_status (map_of (run_stages (apply_pause 5 case_run)) ''draft'') = Some StagePaused"
  by (simp add: apply_action_def apply_pause_def case_run_def pause_stage_def pending_stage_def)

text \<open>
  A poll of a paused run writes the copy it read before: what another branch of the same executor has
  recorded in between is lost.
\<close>

lemma poll_overwrites_a_finished_stage:
  fixes paused :: workflow_run
  defines "paused \<equiv> case_run\<lparr>run_state := RunPaused, run_generation := 1\<rparr>"
  shows "\<exists>seen r1 r2. checkpoint 6 ''wf-1'' paused (case_store paused) = Inr (DecisionPaused 1, seen)
    \<and> load_state (fst (reconcile_running_v2_call_stage (Some (''wf-1'', 0)) 7 ''wf-1'' ''draft'' V2Accepted (case_store paused))) ''wf-1''
        = Inr r1
    \<and> map_option st_status (map_of (run_stages r1) ''draft'') = Some StageAccepted
    \<and> load_state (fst (poll_finish (Some (''wf-1'', 0)) ''review'' (DecisionPaused 1, seen) (case_store r1))) ''wf-1'' = Inr r2
    \<and> map_option st_status (map_of (run_stages r2) ''draft'') = Some StagePaused"
proof -
  note [simp] = paused_def owner_generation_def execution_owned_at_def
  obtain seen where seen: "checkpoint 6 ''wf-1'' paused (case_store paused) = Inr (DecisionPaused 1, seen)" "run_id seen = ''wf-1''"
    "run_generation seen = 1" "map_option st_status (map_of (run_stages seen) ''draft'') = Some StagePaused"
    by (simp add: checkpoint_def decision_from_run_def reopen_running_stages_def case_run_def new_run_def pause_stage_def
        pending_stage_def Let_def)
  let ?r1 = "(sync_call_stage 7 ''draft'' V2Accepted paused)\<lparr>run_updated := 7\<rparr>"
  have owned: "execution_owned_at ?r1 0" "execution_owned_at paused 0"
    by simp_all
  have running: "map_option st_status (map_of (run_stages paused) ''draft'') = Some StageRunning"
    by (simp add: case_run_def)
  have r1: "reconcile_running_v2_call_stage (Some (''wf-1'', 0)) 7 ''wf-1'' ''draft'' V2Accepted (case_store paused)
      = (put_state ?r1 (case_store paused), Inr ())"
    using running owner_saves(2) [of "case_store paused" "''wf-1''" paused 0 ?r1] by (simp add: reconcile_running_v2_call_stage_def)
  have accepted: "map_option st_status (map_of (run_stages ?r1) ''draft'') = Some StageAccepted"
    by (simp add: sync_call_stage_def put_stage_def stage_or_pending_def Let_def update_conv' case_run_def stage_terminal_def)
  have "save_state_preserving_control (Some (''wf-1'', 0)) seen (case_store ?r1) = (put_state seen (case_store ?r1), Inr ())"
    using owned(1) seen(2,3) by (intro owner_saves(2) [of _ _ ?r1]) simp_all
  then have r2: "load_state (fst (poll_finish (Some (''wf-1'', 0)) ''review'' (DecisionPaused 1, seen) (case_store ?r1))) ''wf-1'' = Inr seen"
    using seen(2) by (simp add: poll_finish_def Let_def)
  show ?thesis
    using seen r1 accepted r2 by (intro exI [of _ seen] exI [of _ ?r1]) simp
qed

end
