(* ===== verification/Spec2Isabelle.thy ===== *)
theory Spec2Isabelle
  imports Perm_Checker Perm_Classifier Perm_Auto Declared_Paths Forbidden_Paths Write_Paths
    Wave_Schedule Topo_Waves Topo_Conflicts Topo_Gates Live_Gates
    Topo_Fusion Topo_Diamond Task_Hash Team_Parallel Live_Wiring Write_Claims Board_Gate
    Policy_Laws Learning_History Provenance_Laws Completion_Cases
    Run_Cases
begin

text \<open>
  A verification library for the governed-execution core of archon-cli: the parts of the
  program that decide whether a tool call may run, which files two agents may write at the same
  time, and in which order the nodes of a task graph may execute.

  \<^bold>\<open>How the program fits together.\<close> A call that an agent wants to make is checked by
  \<^verbatim>\<open>archon-permissions\<close> (mode, rules, shell classifier). A plan of work items with target files
  is resolved to resource keys by \<^verbatim>\<open>archon-write-plan\<close>, and the write coordinator of
  \<^verbatim>\<open>archon-workflow\<close> orders the items into waves whose members do not conflict. Workflows,
  teams and sessions lower into the task graph of \<^verbatim>\<open>archon-topology\<close>, whose analyses report
  waves, critical path, conflicts and gates, and whose live tracker admits spawns, writes and
  irreversible calls against what a session has done so far, using the same resource keys.
  The binary wires the agent loop to that tracker and records what happened as a trace, from
  which a graph is reconstructed afterwards. The team orchestrator of \<^verbatim>\<open>archon-core\<close> lowers a team
  to the same task graph and runs its waves under the ceilings of an agent pool. The agents of a
  run share a task board: they raise, claim and close items, work delegated to an agent is put on
  it, and a run may only end when the drain gate finds no issue of it left. A policy read from files says
  which data may leave and which learned changes may apply themselves; the versions of what was learned
  form histories that can be rolled back. What an agent claims to have completed is checked against
  recorded evidence and provenance, and false claims become learning events. The runs of workflows are
  stored; an operator may pause, cancel, resume or rewind a run while executors write to it.

  \<^bold>\<open>Prelude.\<close>
  \<^item> \<open>Rust_Text\<close>: \<^verbatim>\<open>str\<close> as \<^typ>\<open>string\<close>: trimming, splitting, prefix and suffix tests, search.
  \<^item> \<open>Rust_Base\<close>: \<^verbatim>\<open>u32\<close> with saturating operations, sorted collections, shared collections of facts.
  \<^item> \<open>Rust_Path\<close>: \<^verbatim>\<open>std::path\<close> components of Unix paths.

  \<^bold>\<open>archon-permissions\<close> (\<^verbatim>\<open>crates/archon-permissions/src\<close>).
  \<^item> \<open>Perm_Mode\<close> (\<^verbatim>\<open>mode.rs\<close>), \<open>Perm_Rules\<close> (\<^verbatim>\<open>rules.rs\<close>), \<open>Perm_Checker\<close> (\<^verbatim>\<open>checker.rs\<close> and the pure
    decision of \<^verbatim>\<open>archon-core/src/agent/permission_gate.rs\<close>): deny rules are absolute, the modes
    form a chain, plan mode is read-only.
  \<^item> \<open>Perm_Classifier\<close> (\<^verbatim>\<open>classifier.rs\<close>): the quote-aware scanners and the recursive
    classification; its recursion on \<^verbatim>\<open>sh -c\<close> terminates because the unwrapped text is shorter.
  \<^item> \<open>Perm_Auto\<close> (\<^verbatim>\<open>auto.rs\<close>, \<^verbatim>\<open>denial_log.rs\<close>, \<^verbatim>\<open>tool_capability.rs\<close>, \<^verbatim>\<open>sandbox.rs\<close>).

  \<^bold>\<open>archon-write-plan\<close> (\<^verbatim>\<open>crates/archon-write-plan/src\<close>) and the scheduler.
  \<^item> \<open>Write_Keys\<close>, \<open>Write_Paths\<close> (\<^verbatim>\<open>write_plan.rs\<close>, \<^verbatim>\<open>shared_append.rs\<close>): keys, the overlap table, target
    normalisation over a file system with symbolic links. The interface \<open>globset_prefix\<close> states
    what is used of the \<^verbatim>\<open>globset\<close> matcher; it is interpreted on the wildcard matcher of
    \<^verbatim>\<open>forbidden_paths.rs\<close>. Link resolution carries the code's own depth bound of 40.
  \<^item> \<open>Forbidden_Paths\<close> (\<^verbatim>\<open>forbidden_paths.rs\<close>), \<open>Declared_Paths\<close> (\<^verbatim>\<open>declared_paths.rs\<close>,
    \<^verbatim>\<open>lexical_path.rs\<close>, \<^verbatim>\<open>host_internal.rs\<close>, \<^verbatim>\<open>read_only_tools.rs\<close>).
  \<^item> \<open>Topo_Sort\<close>, \<open>Wave_Schedule\<close> (\<^verbatim>\<open>archon-workflow/src/write_coordinator/conflict_graph.rs\<close>):
    depth-first cycle detection, with fuel one more than the number of items, which is shown to
    be enough; Kahn's order; first-fit placement, a loop that may not end as a partial function,
    shown to return whenever the caps are positive.

  \<^bold>\<open>archon-topology\<close> (\<^verbatim>\<open>crates/archon-topology/src\<close>).
  \<^item> \<open>Topo_IR\<close> (\<^verbatim>\<open>ir.rs\<close>, \<^verbatim>\<open>error.rs\<close>), \<open>Topo_Index\<close> and \<open>Topo_Depth\<close> (\<^verbatim>\<open>index.rs\<close>), \<open>Topo_Waves\<close>
    (\<^verbatim>\<open>analysis/waves.rs\<close>, \<^verbatim>\<open>parallelism.rs\<close>, \<^verbatim>\<open>critical_path.rs\<close>), \<open>Topo_Conflicts\<close>
    (\<^verbatim>\<open>write_conflicts.rs\<close>), \<open>Topo_Gates\<close> (\<^verbatim>\<open>gates.rs\<close>). \<^verbatim>\<open>petgraph\<close> is a parameter: the interfaces
    \<open>petgraph_toposort\<close> and \<open>petgraph_dominators\<close> state its documented behaviour, and are
    interpreted on the Kahn order of the scheduler and on dominance by deletion.
  \<^item> \<open>Live_State\<close> (\<^verbatim>\<open>live/state.rs\<close>, \<^verbatim>\<open>live/verdict.rs\<close>), \<open>Live_Admission\<close> (\<^verbatim>\<open>live/agents.rs\<close>, \<^verbatim>\<open>writes.rs\<close>,
    \<^verbatim>\<open>gates.rs\<close>), \<open>Topo_Live\<close> (\<^verbatim>\<open>live.rs\<close>): the tracker as a step relation; the interface
    \<open>session_invariant\<close> lifts a fact kept by every event to all reachable trackers. The
    guarantees are in \<open>Live_Safety\<close> (isolation, the bound of 256 sessions), \<open>Live_Agents\<close> (the
    lifetime agent cap), \<open>Live_Writers\<close> (the single writer) and \<open>Live_Gates\<close> (gates before
    irreversible calls, declared structure, relatedness).

  \<^item> \<open>Topo_Edges\<close> (\<^verbatim>\<open>analysis/edge_support.rs\<close>), \<open>Topo_Fusion\<close> (\<^verbatim>\<open>fusion.rs\<close>), \<open>Topo_Diamond\<close>
    (\<^verbatim>\<open>diamond.rs\<close>): the analyses of data flow. The breadth-first walk of \<^verbatim>\<open>diamond.rs\<close> is a function
    whose measure is the number of nodes not yet seen.
  \<^item> \<open>Task_Hash\<close> (\<^verbatim>\<open>task_hash.rs\<close>): the class and the key of a task text, with the hash on 64-bit words.
  \<^item> \<open>Topo_Trace\<close> (\<^verbatim>\<open>trace/record.rs\<close>, \<^verbatim>\<open>paths.rs\<close>, \<^verbatim>\<open>writer.rs\<close>, \<^verbatim>\<open>reader.rs\<close>): records, appending and
    reading. The JSON encoder is a parameter: \<open>json_line\<close> says that a record is encoded on one line
    of at least one visible character and is decoded again. \<open>Topo_Reconstruct\<close> (\<^verbatim>\<open>reconstruct.rs\<close>):
    the graph of a trace, against a description that reads each node off the records about it.

  \<^bold>\<open>The team orchestrator\<close> (\<^verbatim>\<open>crates/archon-core/src/orchestrator.rs\<close> and \<^verbatim>\<open>orchestrator/\<close>).
  \<^item> \<open>Team_Plan\<close> (\<^verbatim>\<open>topology.rs\<close>, \<^verbatim>\<open>config.rs\<close>, \<^verbatim>\<open>events.rs\<close>, \<^verbatim>\<open>scheduling.rs\<close>, and
    \<^verbatim>\<open>archon-topology/src/permission.rs\<close>): subtasks, lowering, waves. \<open>Team_Pool\<close> (\<^verbatim>\<open>pool.rs\<close>): the
    interface \<open>budgeted_pool\<close> of a pool with two ceilings, interpreted on the code's pool.
  \<^item> \<open>Team_Run\<close>: retries and the sequential runner, with the state of the executor threaded through.
    \<open>Team_Parallel\<close>: the concurrent runners as a step relation over every interleaving of spawning,
    task ends (a result, an error or a panic) and joins. Every step shrinks a measure, so no fuel
    is needed to show that every run is finite.

  \<^bold>\<open>The wiring\<close> (\<^verbatim>\<open>src/command\<close>, \<^verbatim>\<open>crates/archon-tools/src\<close>).
  \<^item> \<open>Live_Wiring\<close> (\<^verbatim>\<open>topology_admission.rs\<close>, \<^verbatim>\<open>topology_admission/\<close>, \<^verbatim>\<open>topology_trace/payload.rs\<close>,
    \<^verbatim>\<open>tool_tap.rs\<close>): the hooks around a tool call, shown to be a refinement of the tracker.
  \<^item> \<open>Write_Claims\<close> (\<^verbatim>\<open>write_claims.rs\<close>): the registry of the writes that agents declare.

  \<^bold>\<open>The task board\<close> (\<^verbatim>\<open>crates/archon-memory/src/board\<close>, \<^verbatim>\<open>crates/archon-tools/src/board\<close>).
  \<^item> \<open>Board_Store\<close> (\<^verbatim>\<open>board.rs\<close>, \<^verbatim>\<open>rows.rs\<close>, the decline reasons of \<^verbatim>\<open>history.rs\<close>) and \<open>Board_Ops\<close>
    (\<^verbatim>\<open>crud.rs\<close>, \<^verbatim>\<open>claim.rs\<close>, \<^verbatim>\<open>history.rs\<close>): the two relations of the database as association lists,
    and one function per operation. A Cozo script is one transaction, so an operation is one step,
    and any interleaving of agents is a sequence of operations, each with its reading of the clock.
  \<^item> \<open>Board_Claims\<close> keeps an invariant over every such sequence and shows that a claim has one
    holder; \<open>Board_Reads\<close> says what every read shows, a decline always with its reason.
  \<^item> \<open>Agent_Registry\<close> (\<^verbatim>\<open>background_agents.rs\<close>): which agents run, as a refinement of a three-state
    life. \<open>Board_Tools\<close> (\<^verbatim>\<open>board.rs\<close>, \<^verbatim>\<open>leases.rs\<close>, \<^verbatim>\<open>tools.rs\<close>, \<^verbatim>\<open>tools_lifecycle.rs\<close>): the tools of
    an agent and the lease sweep; \<open>Board_Leases\<close>: the sweep takes back exactly the claims of the dead.
  \<^item> \<open>Board_Drain\<close> (\<^verbatim>\<open>mirror.rs\<close>, \<^verbatim>\<open>src/command/workflow_live_stage_board.rs\<close>,
    \<^verbatim>\<open>workflow_board_drain.rs\<close>, and \<^verbatim>\<open>drain_gate.rs\<close>, \<^verbatim>\<open>board_drain.rs\<close>, \<^verbatim>\<open>board_port.rs\<close> of
    \<^verbatim>\<open>archon-workflow\<close>): delegated work and the gate at the end of a run; \<open>Board_Gate\<close>: the gate is
    exact, and delegated work holds its run.

  \<^bold>\<open>The evidence policy\<close> (\<^verbatim>\<open>crates/archon-policy/src\<close>): which data may leave the machine and what may
  change by itself. \<open>Policy_Models\<close> (\<^verbatim>\<open>models.rs\<close>, \<^verbatim>\<open>video.rs\<close>, \<^verbatim>\<open>cognitive.rs\<close>): settings and defaults.
  \<open>Policy_Loader\<close> (\<^verbatim>\<open>loader.rs\<close>, \<^verbatim>\<open>loader_docs.rs\<close>): raw settings laid over the defaults, file after file.
  \<open>Policy_Decision\<close> (\<^verbatim>\<open>decision.rs\<close>). \<open>Policy_Laws\<close>: the interface \<open>policy_setting\<close> of a setting and its key
  in a file, interpreted on the model's settings; the last file that mentions a setting decides it.
  Floating-point settings are decimals; the file system and the TOML reader are parameters.

  \<^bold>\<open>Governed learning\<close> (\<^verbatim>\<open>crates/archon-learning/src\<close>, \<^verbatim>\<open>src/command/behaviour.rs\<close>,
  \<^verbatim>\<open>src/command/learning/autonomous.rs\<close>): proposed changes of behaviour, their decisions and the
  versions of the manifests they make.
  \<^item> \<open>Learning_Store\<close> (\<^verbatim>\<open>models.rs\<close>, \<^verbatim>\<open>store.rs\<close>): vocabularies, rows and reads; \<open>Learning_Policy\<close>
    (\<^verbatim>\<open>policy.rs\<close>): when a proposal applies itself; \<open>Learning_Apply\<close> (\<^verbatim>\<open>apply.rs\<close>, \<^verbatim>\<open>rollback.rs\<close>, the
    commands); \<open>Learning_Proposals\<close> (\<^verbatim>\<open>proposal.rs\<close>, the autonomous tick).
  \<^item> \<open>Learning_History\<close>: the commands as a step relation. Each command is shown to be a sequence of four
    effects on the tables, and the interface \<open>learning_invariant\<close> lifts a fact that the effects keep to every
    reachable database; it is interpreted on the chain of versions and on the ledger of decisions.
  \<^item> The code writes several rows in one call without a transaction; a call is one step here, and what
    happens when a process dies in between is not modelled. Identifiers and the reading of the clock are
    arguments, new and increasing in a reachable database. JSON Patch, the JSON encoder and the order of a
    hash map are parameters.

  \<^bold>\<open>Provenance\<close> (\<^verbatim>\<open>crates/archon-provenance/src\<close>). \<open>Provenance_Trace\<close> (\<^verbatim>\<open>record.rs\<close>, \<^verbatim>\<open>store.rs\<close>,
  \<^verbatim>\<open>chain.rs\<close>, \<^verbatim>\<open>traverse.rs\<close>, \<^verbatim>\<open>verify.rs\<close>): records and edges, chain hashes over SHA-256 as a parameter, and
  the walk to the sources of an artifact, which ends because every visit replaces a depth by deeper ones,
  up to the bound of sixteen. \<open>Provenance_Laws\<close>: a trace is the neighbourhood of its start, and what a
  verified chain says.

  \<^bold>\<open>Completion integrity\<close> (\<^verbatim>\<open>crates/archon-completion/src\<close>): claims of being done are checked against
  evidence.
  \<^item> \<open>Completion_Models\<close> (\<^verbatim>\<open>models.rs\<close>, \<^verbatim>\<open>required_evidence.rs\<close>), \<open>Completion_Store\<close> (\<^verbatim>\<open>store.rs\<close>),
    \<open>Completion_Gates\<close> (\<^verbatim>\<open>claim_extractor.rs\<close>, \<^verbatim>\<open>verification_gates.rs\<close>, \<^verbatim>\<open>report_assembler.rs\<close>) and
    \<open>Completion_Check\<close> (\<^verbatim>\<open>evidence_resolver.rs\<close>, \<^verbatim>\<open>incident_recorder.rs\<close>, \<^verbatim>\<open>trust.rs\<close>, \<^verbatim>\<open>lib.rs\<close>): a
    check reads the evidence of a run, the jobs of document processing and the provenance trace, and
    records false claims as events of governed learning. The engine of regular expressions is a parameter.
  \<^item> \<open>Completion_Laws\<close>: a report against a declarative notion of support, the incidents of a check, trust.
    \<open>Completion_Cases\<close>: sample checks, and how evidence that was filed by one check misleads the next.

  \<^bold>\<open>Run control of workflows\<close> (\<^verbatim>\<open>crates/archon-workflow/src\<close>): who may write the state of a run.
  \<^item> \<open>Run_State\<close> (\<^verbatim>\<open>run.rs\<close>, \<^verbatim>\<open>spec.rs\<close>, \<^verbatim>\<open>spec_policy.rs\<close>), \<open>Run_Store\<close> (\<^verbatim>\<open>store.rs\<close>, \<^verbatim>\<open>store_state.rs\<close>,
    the writer boundary of \<^verbatim>\<open>store_fence.rs\<close>), \<open>Run_Control\<close> (\<^verbatim>\<open>control_pause.rs\<close>, \<^verbatim>\<open>store_fence.rs\<close>,
    \<^verbatim>\<open>control.rs\<close>), \<open>Run_Lifecycle\<close> (\<^verbatim>\<open>lifecycle_a.rs\<close>, \<^verbatim>\<open>v2/restart.rs\<close>) and \<open>Run_Executor\<close>
    (\<^verbatim>\<open>v2/run_state_sync.rs\<close>, \<^verbatim>\<open>src/command/workflow_live_v2_finalizer.rs\<close>): the state, its owner by
    generation, pauses and terminal stops, the operator's actions, the writes of an executor. The
    targets of a restart are found by passes that end because each but the last adds a stage.
  \<^item> \<open>Run_Laws\<close>: every section of the code has one of three effects on the stored run. \<open>Run_Safety\<close>: an
    operator and any number of executors as a step relation; a section under the run lock is one step, a
    poll, which takes no lock to read, is three. The locale \<open>run_law\<close> lifts what the effects of some
    actors keep to all their interleavings; it is interpreted for the generations (all actors) and for
    stops (executors). A run sees fewer than \<open>2 ^ 64 - 1\<close> edits, so that its generation never saturates.
    \<open>Run_Cases\<close>: resumes, restarts against reachability over dependencies, and stored sample runs.
  \<^item> What an action does beside the state (ending commands, archiving evidence, invalidating results,
    writing its event) is an argument, and may fail; writes of the state succeed.

  \<^bold>\<open>Conventions.\<close> A \<^verbatim>\<open>Result\<close> is a sum with the error on the left, a panic-free partial lookup is an
  option, a \<^verbatim>\<open>BTreeSet\<close> that is read back in order is its sorted list. Text is ASCII or, where a
  constant needs it, its UTF-8 bytes.

  \<^bold>\<open>Not modelled.\<close> The user prompt behind the permission gate, serde attributes, log output, the
  file operations around the trace, schema scripts and the migration of older tables, and the crates around the core (model clients, tools, terminal interface,
  storage, pipelines, trading and world models): they perform I/O, or call the parts above.
\<close>

end
